(* ===== verification/MM_Prelude.thy ===== *)
theory MM_Prelude
  imports Main "HOL-Library.Word"
begin

unbundle bit_operations_syntax

text \<open>
  The vocabulary every component shares: Rust's machine integers as words, its
  \<open>Result\<close> together with a panic outcome, the checked integer operations of the
  standard library, the big-endian byte encodings, and the lemmas about them that
  the component theories use through the simpset and the collections below.
\<close>

named_theorems res_simps \<open>rewriting of results built by \<open>rbind\<close> and its kin\<close>
named_theorems checked_simps \<open>characterisations of checked machine arithmetic\<close>

section \<open>Machine integers\<close>

type_synonym u8 = "8 word"
type_synonym u16 = "16 word"
type_synonym u32 = "32 word"
type_synonym u64 = "64 word"

text \<open>\<open>checked_add\<close>, \<open>checked_sub\<close>, \<open>saturating_sub\<close> and \<open>saturating_add\<close> of Rust's
  unsigned integers, at any width.\<close>

definition checked_add :: "'a::len word \<Rightarrow> 'a word \<Rightarrow> 'a word option" where
  "checked_add a b =
     (if unat a + unat b < 2 ^ LENGTH('a) then Some (a + b) else None)"

definition checked_sub :: "'a::len word \<Rightarrow> 'a word \<Rightarrow> 'a word option" where
  "checked_sub a b = (if b \<le> a then Some (a - b) else None)"

definition saturating_sub :: "'a::len word \<Rightarrow> 'a word \<Rightarrow> 'a word" where
  "saturating_sub a b = (if b \<le> a then a - b else 0)"

definition saturating_add :: "'a::len word \<Rightarrow> 'a word \<Rightarrow> 'a word" where
  "saturating_add a b =
     (if unat a + unat b < 2 ^ LENGTH('a) then a + b else - 1)"

lemma checked_add_eq_Some [checked_simps]:
  "checked_add a b = Some c \<longleftrightarrow>
     unat a + unat b < 2 ^ LENGTH('a) \<and> c = a + b"
  for a b c :: "'a::len word"
  by (auto simp: checked_add_def)

lemma checked_add_eq_None [checked_simps]:
  "checked_add a b = None \<longleftrightarrow> 2 ^ LENGTH('a) \<le> unat a + unat b"
  for a b :: "'a::len word"
  by (auto simp: checked_add_def)

lemma unat_add_no_overflow:
  "unat a + unat b < 2 ^ LENGTH('a) \<Longrightarrow> unat (a + b) = unat a + unat b"
  for a b :: "'a::len word"
  by (simp add: unat_word_ariths)

lemma checked_add_unat:
  "checked_add a b = Some c \<Longrightarrow> unat c = unat a + unat b"
  by (simp add: checked_add_eq_Some unat_add_no_overflow)

lemma checked_sub_eq_Some [checked_simps]:
  "checked_sub a b = Some c \<longleftrightarrow> b \<le> a \<and> c = a - b"
  by (auto simp: checked_sub_def)

lemma checked_sub_eq_None [checked_simps]:
  "checked_sub a b = None \<longleftrightarrow> a < b"
  by (auto simp: checked_sub_def)

lemma unat_sub_word: "b \<le> a \<Longrightarrow> unat (a - b) = unat a - unat b"
  for a b :: "'a::len word"
  by (rule unat_sub)

lemma checked_sub_unat:
  "checked_sub a b = Some c \<Longrightarrow> unat c = unat a - unat b \<and> unat b \<le> unat a"
  by (simp add: checked_sub_eq_Some unat_sub_word word_le_nat_alt)

section \<open>Results\<close>

text \<open>
  Rust's \<open>Result\<close> with one more outcome. \<open>Panic\<close> is an \<open>expect\<close> or \<open>unreachable!\<close>
  that fails, or an integer operation that overflows under overflow checks; a function
  of the code that never panics is one whose model never returns it.
\<close>

datatype ('a, 'e) rres = Ok 'a | Err 'e | Panic string

fun rbind :: "('a, 'e) rres \<Rightarrow> ('a \<Rightarrow> ('b, 'e) rres) \<Rightarrow> ('b, 'e) rres" where
  "rbind (Ok x) f = f x"
| "rbind (Err e) f = Err e"
| "rbind (Panic p) f = Panic p"

fun map_err :: "('e \<Rightarrow> 'f) \<Rightarrow> ('a, 'e) rres \<Rightarrow> ('a, 'f) rres" where
  "map_err g (Ok x) = Ok x"
| "map_err g (Err e) = Err (g e)"
| "map_err g (Panic p) = Panic p"

fun map_ok :: "('a \<Rightarrow> 'b) \<Rightarrow> ('a, 'e) rres \<Rightarrow> ('b, 'e) rres" where
  "map_ok g (Ok x) = Ok (g x)"
| "map_ok g (Err e) = Err e"
| "map_ok g (Panic p) = Panic p"

text \<open>A method on \<open>&mut self\<close> that returns a \<open>Result\<close> gives the state it leaves and the
  result; the operator \<open>?\<close> on such a call stops with both.\<close>

fun sbind :: "'s \<times> ('a, 'e) rres \<Rightarrow> ('s \<Rightarrow> 'a \<Rightarrow> 's \<times> ('b, 'e) rres) \<Rightarrow> 's \<times> ('b, 'e) rres" where
  "sbind (s, Ok x) f = f s x"
| "sbind (s, Err e) f = (s, Err e)"
| "sbind (s, Panic p) f = (s, Panic p)"

text \<open>\<open>ok_or\<close> turns a missing value into an error; \<open>expect\<close> turns it, or an error,
  into a panic; \<open>ensure\<close> is the guard \<open>if !c { return Err(e) }\<close>.\<close>

definition ok_or :: "'e \<Rightarrow> 'a option \<Rightarrow> ('a, 'e) rres" where
  "ok_or e x = (case x of None \<Rightarrow> Err e | Some v \<Rightarrow> Ok v)"

definition expect_some :: "string \<Rightarrow> 'a option \<Rightarrow> ('a, 'e) rres" where
  "expect_some msg x = (case x of None \<Rightarrow> Panic msg | Some v \<Rightarrow> Ok v)"

fun expect_ok :: "string \<Rightarrow> ('a, 'e) rres \<Rightarrow> ('a, 'f) rres" where
  "expect_ok msg (Ok x) = Ok x"
| "expect_ok msg (Err e) = Panic msg"
| "expect_ok msg (Panic p) = Panic p"

definition ensure :: "bool \<Rightarrow> 'e \<Rightarrow> (unit, 'e) rres" where
  "ensure c e = (if c then Ok () else Err e)"

definition is_ok :: "('a, 'e) rres \<Rightarrow> bool" where
  "is_ok r = (case r of Ok _ \<Rightarrow> True | _ \<Rightarrow> False)"

definition no_panic :: "('a, 'e) rres \<Rightarrow> bool" where
  "no_panic r = (case r of Panic _ \<Rightarrow> False | _ \<Rightarrow> True)"

lemma rbind_eq_Ok [res_simps]:
  "rbind m f = Ok y \<longleftrightarrow> (\<exists>x. m = Ok x \<and> f x = Ok y)"
  by (cases m) auto

lemma rbind_eq_Err [res_simps]:
  "rbind m f = Err e \<longleftrightarrow> m = Err e \<or> (\<exists>x. m = Ok x \<and> f x = Err e)"
  by (cases m) auto

lemma rbind_eq_Panic [res_simps]:
  "rbind m f = Panic p \<longleftrightarrow> m = Panic p \<or> (\<exists>x. m = Ok x \<and> f x = Panic p)"
  by (cases m) auto

lemma map_err_eq_Ok [res_simps, simp]: "map_err g m = Ok x \<longleftrightarrow> m = Ok x"
  by (cases m) auto

lemma map_err_eq_Err: "map_err g m = Err e \<longleftrightarrow> (\<exists>e'. m = Err e' \<and> e = g e')"
  by (cases m) auto

lemma map_err_eq_Panic: "map_err g m = Panic p \<longleftrightarrow> m = Panic p"
  by (cases m) auto

lemma map_ok_eq_Ok [res_simps]: "map_ok g m = Ok y \<longleftrightarrow> (\<exists>x. m = Ok x \<and> y = g x)"
  by (cases m) auto

lemma ok_or_eq [res_simps]:
  "ok_or e x = Ok v \<longleftrightarrow> x = Some v"
  "ok_or e x = Err e' \<longleftrightarrow> x = None \<and> e' = e"
  "ok_or e x \<noteq> Panic p"
  by (auto simp: ok_or_def split: option.splits)

lemma expect_some_eq [res_simps]:
  "expect_some msg x = Ok v \<longleftrightarrow> x = Some v"
  "expect_some msg x \<noteq> Err e"
  "expect_some msg x = Panic p \<longleftrightarrow> x = None \<and> p = msg"
  by (auto simp: expect_some_def split: option.splits)

lemma expect_ok_eq_Ok [res_simps]: "expect_ok msg m = Ok v \<longleftrightarrow> m = Ok v"
  by (cases m) auto

lemma ensure_eq [res_simps]:
  "ensure c e = Ok u \<longleftrightarrow> c"
  "ensure c e = Err e' \<longleftrightarrow> \<not> c \<and> e' = e"
  "ensure c e \<noteq> Panic p"
  by (auto simp: ensure_def)

lemma no_panic_simps [simp]:
  "no_panic (Ok x)" "no_panic (Err e)" "\<not> no_panic (Panic p)"
  by (auto simp: no_panic_def)

lemma is_ok_simps [simp]: "is_ok (Ok x)" "\<not> is_ok (Err e)" "\<not> is_ok (Panic p)"
  by (auto simp: is_ok_def)

lemma no_panic_iff: "no_panic r \<longleftrightarrow> (\<forall>p. r \<noteq> Panic p)"
  by (cases r) auto

lemma no_panic_rbind:
  "no_panic m \<Longrightarrow> (\<And>x. m = Ok x \<Longrightarrow> no_panic (f x)) \<Longrightarrow> no_panic (rbind m f)"
  by (cases m) auto

lemma no_panic_lift [simp]:
  "no_panic (ok_or e x)" "no_panic (ensure c e)" "no_panic (map_err g m) = no_panic m"
  by (auto simp: no_panic_iff ok_or_eq ensure_eq) (cases m; simp)+

section \<open>Big-endian byte encodings\<close>

text \<open>\<open>to_be_bytes\<close> of an integer of \<open>m\<close> bytes, most significant byte first.\<close>

definition be_bytes :: "nat \<Rightarrow> 'a::len word \<Rightarrow> u8 list" where
  "be_bytes m w = map (\<lambda>k. ucast (drop_bit (8 * (m - 1 - k)) w)) [0..<m]"

abbreviation u64_be :: "u64 \<Rightarrow> u8 list" where "u64_be \<equiv> be_bytes 8"
abbreviation u32_be :: "u32 \<Rightarrow> u8 list" where "u32_be \<equiv> be_bytes 4"

lemma length_be_bytes [simp]: "length (be_bytes m w) = m"
  by (simp add: be_bytes_def)

lemma be_bytes_nth:
  "k < m \<Longrightarrow> be_bytes m w ! k = ucast (drop_bit (8 * (m - 1 - k)) w)"
  by (simp add: be_bytes_def)

text \<open>The encoding loses nothing when the bytes cover the word.\<close>

lemma be_bytes_inject:
  fixes v w :: "'a::len word"
  assumes eq: "be_bytes m v = be_bytes m w" and cover: "LENGTH('a) \<le> 8 * m"
  shows "v = w"
proof (rule bit_word_eqI)
  fix n assume n: "n < LENGTH('a)"
  define k where "k = m - 1 - n div 8"
  have nm: "n div 8 < m" using n cover by auto
  then have k: "k < m" and mk: "m - 1 - k = n div 8" by (auto simp: k_def)
  from eq have "be_bytes m v ! k = be_bytes m w ! k" by simp
  then have "(ucast (drop_bit (8 * (n div 8)) v) :: u8) = ucast (drop_bit (8 * (n div 8)) w)"
    by (simp only: be_bytes_nth [OF k] mk)
  then have "bit (ucast (drop_bit (8 * (n div 8)) v) :: u8) (n mod 8)
      = bit (ucast (drop_bit (8 * (n div 8)) w) :: u8) (n mod 8)"
    by simp
  then show "bit v n = bit w n"
    by (simp add: bit_ucast_iff bit_drop_bit_eq)
qed

lemma u64_be_inject [simp]: "u64_be v = u64_be w \<longleftrightarrow> v = w" for v w :: u64
  using be_bytes_inject [of 8 v w] by auto

lemma u32_be_inject [simp]: "u32_be v = u32_be w \<longleftrightarrow> v = w" for v w :: u32
  using be_bytes_inject [of 4 v w] by auto

section \<open>Lists\<close>

lemma append_eq_same_length:
  "length xs = length ys \<Longrightarrow> xs @ us = ys @ vs \<longleftrightarrow> xs = ys \<and> us = vs"
  by simp

lemma set_dropWhile_subset: "set (dropWhile P xs) \<subseteq> set xs"
  by (auto dest: set_dropWhileD)

lemma hd_dropWhile_not: "dropWhile P xs \<noteq> [] \<Longrightarrow> \<not> P (hd (dropWhile P xs))"
  by (rule hd_dropWhile)

end
