(* ===== verification/Rust_Text.thy ===== *)
theory Rust_Text
  imports MM_Prelude "HOL-Library.Char_ord"
begin

text \<open>
  Rust strings. A \<open>String\<close> is its UTF-8 bytes, a HOL \<open>string\<close> (HOL characters are
  bytes), so \<open>len\<close> and \<open>as_bytes\<close> are the list itself; \<open>chars\<close> groups the bytes into
  the encoded scalar values. The theory holds the standard-library operations the
  repository uses: \<open>trim\<close>, \<open>char::is_control\<close>, \<open>strip_prefix\<close>, \<open>split_once\<close>,
  decimal parsing and printing.
\<close>

section \<open>Bytes and characters\<close>

abbreviation byte_of :: "char \<Rightarrow> nat" where "byte_of \<equiv> of_char"

definition as_bytes :: "string \<Rightarrow> u8 list" where
  "as_bytes s = map of_char s"

lemma length_as_bytes [simp]: "length (as_bytes s) = length s"
  by (simp add: as_bytes_def)

lemma of_char_u8_inject: "(of_char c :: u8) = of_char d \<longleftrightarrow> c = d"
proof
  assume "(of_char c :: u8) = of_char d"
  then have "unat (of_char c :: u8) = unat (of_char d :: u8)" by simp
  moreover have "unat (of_char e :: u8) = byte_of e" for e :: char
  proof -
    have "(of_char e :: u8) = of_nat (byte_of e)" by (simp only: of_nat_of_char)
    moreover have "byte_of e < (256 :: nat)" by simp
    ultimately show ?thesis by (simp add: unat_of_nat)
  qed
  ultimately have "byte_of c = (byte_of d :: nat)" by metis
  then show "c = d" by simp
qed simp

lemma as_bytes_inject [simp]: "as_bytes s = as_bytes t \<longleftrightarrow> s = t"
  unfolding as_bytes_def
  by (rule inj_map_eq_map) (auto simp: inj_def of_char_u8_inject)

definition is_ascii_digit :: "char \<Rightarrow> bool" where
  "is_ascii_digit c \<longleftrightarrow> 48 \<le> byte_of c \<and> byte_of c \<le> (57 :: nat)"

definition is_ascii_lowercase :: "char \<Rightarrow> bool" where
  "is_ascii_lowercase c \<longleftrightarrow> 97 \<le> byte_of c \<and> byte_of c \<le> (122 :: nat)"

definition is_lower_hex :: "char \<Rightarrow> bool" where
  "is_lower_hex c \<longleftrightarrow> is_ascii_digit c \<or> (97 \<le> byte_of c \<and> byte_of c \<le> (102 :: nat))"

text \<open>The number of bytes of a scalar value whose first byte is given.\<close>

definition utf8_width :: "char \<Rightarrow> nat" where
  "utf8_width c =
     (let b = (byte_of c :: nat) in if b < 128 then 1 else if b < 224 then 2 else if b < 240 then 3 else 4)"

lemma utf8_width_pos [simp]: "0 < utf8_width c"
  by (simp add: utf8_width_def Let_def)

text \<open>\<open>str::chars\<close>: every element is the byte string of one scalar value.\<close>

fun chars_of :: "string \<Rightarrow> string list" where
  "chars_of [] = []"
| "chars_of (c # cs) =
     (c # take (utf8_width c - 1) cs) # chars_of (drop (utf8_width c - 1) cs)"

fun code_point :: "string \<Rightarrow> nat" where
  "code_point [a] = byte_of a"
| "code_point [a, b] = (byte_of a - 192) * 64 + (byte_of b - 128)"
| "code_point [a, b, c] =
     (byte_of a - 224) * 4096 + (byte_of b - 128) * 64 + (byte_of c - 128)"
| "code_point [a, b, c, d] =
     (byte_of a - 240) * 262144 + (byte_of b - 128) * 4096 + (byte_of c - 128) * 64
       + (byte_of d - 128)"
| "code_point _ = 0"

text \<open>Unicode's \<open>White_Space\<close> property and general category \<open>Cc\<close>.\<close>

definition is_whitespace :: "string \<Rightarrow> bool" where
  "is_whitespace ch \<longleftrightarrow>
     (let p = code_point ch in
        (9 \<le> p \<and> p \<le> 13) \<or> p = 32 \<or> p = 133 \<or> p = 160 \<or> p = 5760
        \<or> (8192 \<le> p \<and> p \<le> 8202) \<or> p = 8232 \<or> p = 8233 \<or> p = 8239 \<or> p = 8287 \<or> p = 12288)"

definition is_control :: "string \<Rightarrow> bool" where
  "is_control ch \<longleftrightarrow> (let p = code_point ch in p < 32 \<or> (127 \<le> p \<and> p \<le> 159))"

definition trim :: "string \<Rightarrow> string" where
  "trim s = concat (rev (dropWhile is_whitespace (rev (dropWhile is_whitespace (chars_of s)))))"

section \<open>Facts about \<open>chars\<close> and \<open>trim\<close>\<close>

lemma concat_chars_of [simp]: "concat (chars_of s) = s"
  by (induction s rule: chars_of.induct) auto

text \<open>
  The chunks \<open>chars\<close> produces: each but the last has exactly the width its first
  byte announces. Such a list is recovered from its concatenation.
\<close>

fun chunks_ok :: "string list \<Rightarrow> bool" where
  "chunks_ok [] \<longleftrightarrow> True"
| "chunks_ok (ch # chs) \<longleftrightarrow> ch \<noteq> [] \<and> length ch \<le> utf8_width (hd ch)
     \<and> (chs \<noteq> [] \<longrightarrow> length ch = utf8_width (hd ch)) \<and> chunks_ok chs"

lemma chars_of_eq_Nil [simp]: "chars_of s = [] \<longleftrightarrow> s = []"
  by (cases s) auto

lemma chunks_ok_chars_of: "chunks_ok (chars_of s)"
proof (induction s rule: chars_of.induct)
  case (2 c cs)
  let ?n = "utf8_width c - 1"
  have "Suc (min (length cs) ?n) \<le> utf8_width c"
    using utf8_width_pos [of c] by linarith
  moreover have "drop ?n cs \<noteq> [] \<Longrightarrow> Suc (min (length cs) ?n) = utf8_width c"
    using utf8_width_pos [of c] by auto
  ultimately show ?case using 2 by simp
qed simp

lemma chars_of_concat: "chunks_ok chs \<Longrightarrow> chars_of (concat chs) = chs"
proof (induction chs)
  case (Cons ch chs)
  then obtain c cs where ch: "ch = c # cs" by (cases ch) auto
  show ?case
  proof (cases "chs = []")
    case True
    with Cons.prems ch have "length cs \<le> utf8_width c - 1" by auto
    with True ch show ?thesis by simp
  next
    case False
    with Cons.prems ch have "utf8_width c - 1 = length cs" by auto
    with Cons False ch show ?thesis by simp
  qed
qed simp

lemma chunks_ok_dropWhile: "chunks_ok chs \<Longrightarrow> chunks_ok (dropWhile P chs)"
  by (induction chs) auto

lemma chunks_ok_appendD: "chunks_ok (xs @ ys) \<Longrightarrow> chunks_ok xs"
  by (induction xs) (auto split: if_splits)

lemma dropWhile_rev_prefix: "\<exists>ys. xs = rev (dropWhile P (rev xs)) @ ys"
proof -
  have "rev xs = takeWhile P (rev xs) @ dropWhile P (rev xs)" by simp
  then have "xs = rev (dropWhile P (rev xs)) @ rev (takeWhile P (rev xs))"
    by (metis rev_append rev_rev_ident)
  then show ?thesis by blast
qed

lemma chunks_ok_dropWhile_rev:
  assumes "chunks_ok chs" shows "chunks_ok (rev (dropWhile P (rev chs)))"
proof -
  obtain ys where "chs = rev (dropWhile P (rev chs)) @ ys"
    using dropWhile_rev_prefix by blast
  with assms show ?thesis by (metis chunks_ok_appendD)
qed

definition trim_chars :: "string list \<Rightarrow> string list" where
  "trim_chars chs = rev (dropWhile is_whitespace (rev (dropWhile is_whitespace chs)))"

lemma trim_eq_trim_chars: "trim s = concat (trim_chars (chars_of s))"
  by (simp add: trim_def trim_chars_def)

lemma chars_of_trim: "chars_of (trim s) = trim_chars (chars_of s)"
  unfolding trim_eq_trim_chars trim_chars_def
  by (intro chars_of_concat chunks_ok_dropWhile_rev chunks_ok_dropWhile chunks_ok_chars_of)

lemma dropWhile_eq_self: "xs = [] \<or> \<not> P (hd xs) \<Longrightarrow> dropWhile P xs = xs"
  by (cases xs) auto

lemma hd_dropWhile_rev:
  assumes "rev (dropWhile P (rev xs)) \<noteq> []"
  shows "hd (rev (dropWhile P (rev xs))) = hd xs"
proof -
  obtain ys where "xs = rev (dropWhile P (rev xs)) @ ys"
    using dropWhile_rev_prefix by blast
  with assms show ?thesis by (metis hd_append2)
qed

lemma trim_chars_idem: "trim_chars (trim_chars chs) = trim_chars chs"
proof -
  let ?d = "dropWhile is_whitespace chs"
  let ?t = "rev (dropWhile is_whitespace (rev ?d))"
  have "?t = [] \<or> \<not> is_whitespace (hd ?t)"
  proof (cases "?t = []")
    case False
    then have "hd ?t = hd ?d" by (rule hd_dropWhile_rev)
    moreover have "?d \<noteq> []" using False by (metis dropWhile.simps(1) rev.simps(1))
    ultimately show ?thesis by (metis hd_dropWhile)
  qed simp
  then have "dropWhile is_whitespace ?t = ?t" by (rule dropWhile_eq_self)
  then show ?thesis by (simp add: trim_chars_def)
qed

lemma trim_idem [simp]: "trim (trim s) = trim s"
  by (simp add: trim_eq_trim_chars [of "trim s"] chars_of_trim trim_chars_idem)
     (simp add: trim_eq_trim_chars)

lemma set_trim_chars: "set (trim_chars chs) \<subseteq> set chs"
  using set_dropWhile_subset [of is_whitespace "rev (dropWhile is_whitespace chs)"]
    set_dropWhile_subset [of is_whitespace chs]
  by (auto simp: trim_chars_def)

lemma length_trim_chars: "length (trim_chars chs) \<le> length chs"
  using length_dropWhile_le [of is_whitespace "rev (dropWhile is_whitespace chs)"]
    length_dropWhile_le [of is_whitespace chs]
  by (simp add: trim_chars_def)

section \<open>Searching and cutting\<close>

definition strip_prefix :: "string \<Rightarrow> string \<Rightarrow> string option" where
  "strip_prefix p s = (if take (length p) s = p then Some (drop (length p) s) else None)"

definition split_once :: "char \<Rightarrow> string \<Rightarrow> (string \<times> string) option" where
  "split_once c s =
     (case dropWhile (\<lambda>x. x \<noteq> c) s of [] \<Rightarrow> None | _ # r \<Rightarrow> Some (takeWhile (\<lambda>x. x \<noteq> c) s, r))"

lemma strip_prefix_eq_Some: "strip_prefix p s = Some r \<longleftrightarrow> s = p @ r"
proof -
  have "take (length p) s = p \<Longrightarrow> p @ drop (length p) s = s"
    using append_take_drop_id [of "length p" s] by simp
  then show ?thesis by (auto simp: strip_prefix_def)
qed

lemma split_once_eq_Some:
  assumes "split_once c s = Some (a, b)"
  shows "s = a @ c # b \<and> c \<notin> set a"
proof -
  from assms obtain x where d: "dropWhile (\<lambda>x. x \<noteq> c) s = x # b" and a: "a = takeWhile (\<lambda>x. x \<noteq> c) s"
    by (auto simp: split_once_def split: list.splits)
  from d have "dropWhile (\<lambda>x. x \<noteq> c) s \<noteq> []" by simp
  from hd_dropWhile [OF this] d have "x = c" by simp
  with d a takeWhile_dropWhile_id [of "\<lambda>x. x \<noteq> c" s] have "s = a @ c # b" by simp
  moreover from a have "c \<notin> set a" by (auto dest: set_takeWhileD)
  ultimately show ?thesis by simp
qed

section \<open>Decimal numbers\<close>

definition digit_val :: "char \<Rightarrow> nat" where
  "digit_val c = byte_of c - 48"

definition parse_dec :: "string \<Rightarrow> nat" where
  "parse_dec s = foldl (\<lambda>acc c. acc * 10 + digit_val c) 0 s"

definition digit_char :: "nat \<Rightarrow> char" where
  "digit_char d = char_of (48 + d)"

fun dec :: "nat \<Rightarrow> string" where
  "dec n = (if n < 10 then [digit_char n] else dec (n div 10) @ [digit_char (n mod 10)])"

declare dec.simps [simp del]

text \<open>The formatting specification \<open>{:0w}\<close>.\<close>

definition dec_pad :: "nat \<Rightarrow> nat \<Rightarrow> string" where
  "dec_pad w n = replicate (w - length (dec n)) (CHR ''0'') @ dec n"

lemma digit_val_digit_char [simp]: "d < 10 \<Longrightarrow> digit_val (digit_char d) = d"
  by (simp add: digit_val_def digit_char_def)

lemma is_ascii_digit_digit_char [simp]: "d < 10 \<Longrightarrow> is_ascii_digit (digit_char d)"
  by (simp add: is_ascii_digit_def digit_char_def)

lemma digit_val_less: "is_ascii_digit c \<Longrightarrow> digit_val c < 10"
  by (auto simp: is_ascii_digit_def digit_val_def)

lemma parse_dec_append_digit: "parse_dec (s @ [c]) = parse_dec s * 10 + digit_val c"
  by (simp add: parse_dec_def)

lemma parse_dec_dec [simp]: "parse_dec (dec n) = n"
proof (induction n rule: dec.induct)
  case (1 n)
  show ?case
  proof (cases "n < 10")
    case True
    then show ?thesis by (simp add: dec.simps parse_dec_def)
  next
    case False
    with 1 have "parse_dec (dec (n div 10)) = n div 10" by simp
    with False show ?thesis
      by (subst dec.simps) (simp add: parse_dec_append_digit)
  qed
qed

lemma dec_digits: "list_all is_ascii_digit (dec n)"
proof (induction n rule: dec.induct)
  case (1 n)
  then show ?case by (subst dec.simps) simp
qed

lemma dec_nonempty [simp]: "dec n \<noteq> []"
  by (subst dec.simps) simp

lemma parse_dec_zeros: "parse_dec (replicate k (CHR ''0'') @ s) = parse_dec s"
proof (induction k)
  case (Suc k)
  have "parse_dec (CHR ''0'' # t) = parse_dec t" for t
    by (simp add: parse_dec_def digit_val_def)
  with Suc show ?case by simp
qed simp

lemma parse_dec_pad [simp]: "parse_dec (dec_pad w n) = n"
  by (simp add: dec_pad_def parse_dec_zeros)

lemma dec_pad_digits: "list_all is_ascii_digit (dec_pad w n)"
  by (auto simp: dec_pad_def dec_digits list_all_iff is_ascii_digit_def)
     (use dec_digits in \<open>auto simp: list_all_iff is_ascii_digit_def\<close>)

lemma length_dec_le: "0 < w \<Longrightarrow> n < 10 ^ w \<Longrightarrow> length (dec n) \<le> w"
proof (induction n arbitrary: w rule: dec.induct)
  case (1 n)
  show ?case
  proof (cases "n < 10")
    case True
    with 1 show ?thesis by (simp add: dec.simps)
  next
    case False
    with "1.prems" have "1 < w" by (cases w) (auto split: if_splits intro: ccontr)
    then obtain v where v: "w = Suc v" "0 < v" by (cases w) auto
    with "1.prems" have "n div 10 < 10 ^ v" by auto
    with 1 False v have "length (dec (n div 10)) \<le> v" by simp
    with v False show ?thesis by (subst dec.simps) simp
  qed
qed

lemma length_dec_pad: "0 < w \<Longrightarrow> n < 10 ^ w \<Longrightarrow> length (dec_pad w n) = w"
  using length_dec_le [of w n] by (simp add: dec_pad_def)

lemma parse_dec_bound: "list_all is_ascii_digit s \<Longrightarrow> parse_dec s < 10 ^ length s"
proof (induction s rule: rev_induct)
  case Nil
  then show ?case by (simp add: parse_dec_def)
next
  case (snoc c s)
  then have "parse_dec s < 10 ^ length s" "digit_val c < 10"
    by (auto intro: digit_val_less)
  then show ?case by (simp add: parse_dec_append_digit)
qed

end
