(* ===== verification/F64.thy ===== *)
theory F64
  imports Complex_Main MM_Prelude
begin

text \<open>
  IEEE 754 binary64, the type Rust calls \<open>f64\<close>, as its bit pattern. \<open>to_bits\<close> and
  \<open>from_bits\<close> are the identity on the pattern, the comparisons read sign and magnitude,
  and the arithmetic rounds the exact result once, to nearest with ties to even. All
  definitions compute. A not-a-number result is the quiet pattern; Rust leaves its
  payload unspecified and nothing here depends on it.
\<close>

section \<open>Format\<close>

datatype f64 = F64 (to_bits: u64)

definition f64_neg :: "f64 \<Rightarrow> bool" where
  "f64_neg x \<longleftrightarrow> 2 ^ 63 \<le> unat (to_bits x)"

definition f64_mag :: "f64 \<Rightarrow> nat" where
  "f64_mag x = unat (to_bits x) mod 2 ^ 63"

definition f64_make :: "bool \<Rightarrow> nat \<Rightarrow> f64" where
  "f64_make s m = F64 (of_nat (m + (if s then 2 ^ 63 else 0)))"

definition inf_mag :: nat where "inf_mag = 2047 * 2 ^ 52"

definition is_finite :: "f64 \<Rightarrow> bool" where
  "is_finite x \<longleftrightarrow> f64_mag x < inf_mag"

definition is_nan :: "f64 \<Rightarrow> bool" where
  "is_nan x \<longleftrightarrow> inf_mag < f64_mag x"

definition is_infinite :: "f64 \<Rightarrow> bool" where
  "is_infinite x \<longleftrightarrow> f64_mag x = inf_mag"

definition f64_nan :: f64 where "f64_nan = f64_make False (inf_mag + 2 ^ 51)"
definition f64_zero :: f64 where "f64_zero = f64_make False 0"

text \<open>
  The significand and the power-of-two shift: the magnitude of a finite number is
  \<open>f64_sig x * 2 ^ f64_shift x\<close> units of \<open>2 ^ - 1074\<close>.
\<close>

definition f64_shift :: "f64 \<Rightarrow> nat" where
  "f64_shift x = f64_mag x div 2 ^ 52 - 1"

definition f64_sig :: "f64 \<Rightarrow> nat" where
  "f64_sig x = f64_mag x - f64_shift x * 2 ^ 52"

definition f64_units :: "f64 \<Rightarrow> int" where
  "f64_units x = (if f64_neg x then -1 else 1) * int (f64_sig x * 2 ^ f64_shift x)"

section \<open>Comparisons\<close>

definition f64_key :: "f64 \<Rightarrow> int" where
  "f64_key x = (if f64_neg x then - int (f64_mag x) else int (f64_mag x))"

definition f64_lt :: "f64 \<Rightarrow> f64 \<Rightarrow> bool" where
  "f64_lt a b \<longleftrightarrow> \<not> is_nan a \<and> \<not> is_nan b \<and> f64_key a < f64_key b"

definition f64_le :: "f64 \<Rightarrow> f64 \<Rightarrow> bool" where
  "f64_le a b \<longleftrightarrow> \<not> is_nan a \<and> \<not> is_nan b \<and> f64_key a \<le> f64_key b"

abbreviation f64_ge :: "f64 \<Rightarrow> f64 \<Rightarrow> bool" where "f64_ge a b \<equiv> f64_le b a"

section \<open>Rounding\<close>

fun blen :: "nat \<Rightarrow> nat" where
  "blen n = (if n = 0 then 0 else Suc (blen (n div 2)))"

declare blen.simps [simp del]

text \<open>The fraction \<open>p / q * 2 ^ e\<close> as a numerator and a denominator.\<close>

definition scale :: "nat \<Rightarrow> nat \<Rightarrow> int \<Rightarrow> nat \<times> nat" where
  "scale p q e = (if 0 \<le> e then (p * 2 ^ nat e, q) else (p, q * 2 ^ nat (- e)))"

text \<open>The exponent of the leading bit of \<open>p / q\<close>.\<close>

definition lead :: "nat \<Rightarrow> nat \<Rightarrow> int" where
  "lead p q =
     (let k = int (blen p) - int (blen q) in
        case scale p q (- k) of (n, d) \<Rightarrow> if d \<le> n then k else k - 1)"

definition div_half_even :: "nat \<Rightarrow> nat \<Rightarrow> nat" where
  "div_half_even n d =
     (let m = n div d; r = n mod d in
        if 2 * r < d \<or> (2 * r = d \<and> even m) then m else m + 1)"

text \<open>The magnitude nearest to \<open>p / q * 2 ^ e\<close>; what is too large is infinite.\<close>

definition round_mag :: "nat \<Rightarrow> nat \<Rightarrow> int \<Rightarrow> nat" where
  "round_mag p q e =
     (if p = 0 then 0 else
        let s = nat (lead p q + e + 1074 - 52) in
        case scale p q (e + 1074 - int s) of (n, d) \<Rightarrow>
          min inf_mag (s * 2 ^ 52 + div_half_even n d))"

section \<open>Arithmetic\<close>

definition f64_negate :: "f64 \<Rightarrow> f64" where
  "f64_negate x = f64_make (\<not> f64_neg x) (f64_mag x)"

definition f64_abs :: "f64 \<Rightarrow> f64" where
  "f64_abs x = f64_make False (f64_mag x)"

definition signed_sig :: "f64 \<Rightarrow> int" where
  "signed_sig x = (if f64_neg x then - int (f64_sig x) else int (f64_sig x))"

definition f64_add :: "f64 \<Rightarrow> f64 \<Rightarrow> f64" where
  "f64_add a b =
     (if is_nan a \<or> is_nan b then f64_nan
      else if is_infinite a then
        (if is_infinite b \<and> f64_neg a \<noteq> f64_neg b then f64_nan else a)
      else if is_infinite b then b
      else
        let s = min (f64_shift a) (f64_shift b);
            n = signed_sig a * 2 ^ (f64_shift a - s) + signed_sig b * 2 ^ (f64_shift b - s)
        in if n = 0 then f64_make (f64_neg a \<and> f64_neg b) 0
           else f64_make (n < 0) (round_mag (nat \<bar>n\<bar>) 1 (int s - 1074)))"

definition f64_sub :: "f64 \<Rightarrow> f64 \<Rightarrow> f64" where
  "f64_sub a b = f64_add a (f64_negate b)"

definition f64_mul :: "f64 \<Rightarrow> f64 \<Rightarrow> f64" where
  "f64_mul a b =
     (let s = (f64_neg a \<noteq> f64_neg b) in
      if is_nan a \<or> is_nan b then f64_nan
      else if is_infinite a \<or> is_infinite b then
        (if f64_mag a = 0 \<or> f64_mag b = 0 then f64_nan else f64_make s inf_mag)
      else f64_make s (round_mag (f64_sig a * f64_sig b) 1
             (int (f64_shift a) + int (f64_shift b) - 2148)))"

definition f64_div :: "f64 \<Rightarrow> f64 \<Rightarrow> f64" where
  "f64_div a b =
     (let s = (f64_neg a \<noteq> f64_neg b) in
      if is_nan a \<or> is_nan b then f64_nan
      else if is_infinite a then (if is_infinite b then f64_nan else f64_make s inf_mag)
      else if is_infinite b then f64_make s 0
      else if f64_mag b = 0 then (if f64_mag a = 0 then f64_nan else f64_make s inf_mag)
      else f64_make s (round_mag (f64_sig a) (f64_sig b)
             (int (f64_shift a) - int (f64_shift b))))"

text \<open>\<open>f64::mul_add\<close>: the product and the sum rounded once. \<open>f64::max\<close> passes over a
  not-a-number.\<close>

definition f64_mul_add :: "f64 \<Rightarrow> f64 \<Rightarrow> f64 \<Rightarrow> f64" where
  "f64_mul_add a b c =
     (let p = (f64_neg a \<noteq> f64_neg b) in
      if is_nan a \<or> is_nan b \<or> is_nan c then f64_nan
      else if is_infinite a \<or> is_infinite b then
        (if f64_mag a = 0 \<or> f64_mag b = 0 \<or> (is_infinite c \<and> f64_neg c \<noteq> p) then f64_nan
         else f64_make p inf_mag)
      else if is_infinite c then c
      else
        let t = f64_shift a + f64_shift b; u = f64_shift c + 1074; s = min t u;
            n = signed_sig a * signed_sig b * 2 ^ (t - s) + signed_sig c * 2 ^ (u - s)
        in if n = 0 then f64_make (p \<and> f64_neg c) 0
           else f64_make (n < 0) (round_mag (nat \<bar>n\<bar>) 1 (int s - 2148)))"

definition f64_max :: "f64 \<Rightarrow> f64 \<Rightarrow> f64" where
  "f64_max a b = (if is_nan a then b else if is_nan b then a else if f64_lt a b then b else a)"

definition f64_of_int :: "int \<Rightarrow> f64" where
  "f64_of_int i = f64_make (i < 0) (round_mag (nat \<bar>i\<bar>) 1 0)"

section \<open>The bit pattern\<close>

lemma inf_mag_less: "inf_mag < 2 ^ 63"
  by (simp add: inf_mag_def)

lemma f64_mag_less: "f64_mag x < 2 ^ 63"
  by (simp add: f64_mag_def)

lemma unat_bits_make:
  assumes "m < 2 ^ 63"
  shows "unat (to_bits (f64_make s m)) = m + (if s then 2 ^ 63 else 0)"
proof -
  have "m + (if s then 2 ^ 63 else 0) < 2 ^ LENGTH(64)" using assms by auto
  then show ?thesis
    unfolding f64_make_def f64.sel by (simp only: unat_of_nat mod_less)
qed

lemma f64_neg_make [simp]: "m < 2 ^ 63 \<Longrightarrow> f64_neg (f64_make s m) = s"
  by (simp add: f64_neg_def unat_bits_make)

lemma f64_mag_make [simp]: "m < 2 ^ 63 \<Longrightarrow> f64_mag (f64_make s m) = m"
  by (simp add: f64_mag_def unat_bits_make)

lemma f64_make_collapse [simp]: "f64_make (f64_neg x) (f64_mag x) = x"
proof (cases x)
  case (F64 w)
  have lt: "unat w < 2 ^ 64" using unsigned_less [of w] by simp
  have "unat w mod 2 ^ 63 + (if 2 ^ 63 \<le> unat w then 2 ^ 63 else 0) = unat w"
  proof (cases "2 ^ 63 \<le> unat w")
    case True
    then have "unat w mod 2 ^ 63 = unat w - 2 ^ 63"
      using lt by (subst mod_if) (simp add: mod_if)
    with True show ?thesis by simp
  qed simp
  then have "of_nat (unat w mod 2 ^ 63 + (if 2 ^ 63 \<le> unat w then 2 ^ 63 else 0)) = w"
    by (simp only:) simp
  with F64 show ?thesis by (simp only: f64_make_def f64_neg_def f64_mag_def f64.sel)
qed

lemma f64_eqI:
  assumes "f64_neg x = f64_neg y" "f64_mag x = f64_mag y" shows "x = y"
proof -
  have "x = f64_make (f64_neg x) (f64_mag x)" by (simp only: f64_make_collapse)
  also have "\<dots> = f64_make (f64_neg y) (f64_mag y)" by (simp only: assms)
  also have "\<dots> = y" by (simp only: f64_make_collapse)
  finally show ?thesis .
qed

lemma is_nan_not_finite: "is_finite x \<Longrightarrow> \<not> is_nan x"
  by (simp add: is_finite_def is_nan_def)

section \<open>Comparisons are a linear preorder off the not-a-numbers\<close>

lemma f64_le_refl: "\<not> is_nan x \<Longrightarrow> f64_le x x"
  by (simp add: f64_le_def)

lemma f64_le_trans: "f64_le x y \<Longrightarrow> f64_le y z \<Longrightarrow> f64_le x z"
  by (auto simp: f64_le_def)

lemma f64_lt_le_trans: "f64_lt x y \<Longrightarrow> f64_le y z \<Longrightarrow> f64_lt x z"
  by (auto simp: f64_le_def f64_lt_def)

lemma f64_le_lt_trans: "f64_le x y \<Longrightarrow> f64_lt y z \<Longrightarrow> f64_lt x z"
  by (auto simp: f64_le_def f64_lt_def)

lemma f64_not_lt: "\<not> is_nan x \<Longrightarrow> \<not> is_nan y \<Longrightarrow> \<not> f64_lt x y \<longleftrightarrow> f64_le y x"
  by (auto simp: f64_le_def f64_lt_def)

lemma f64_lt_asym: "f64_lt x y \<Longrightarrow> \<not> f64_le y x"
  by (auto simp: f64_le_def f64_lt_def)

section \<open>Significand and shift\<close>

text \<open>The pairs a finite magnitude decomposes into.\<close>

definition valid_pair :: "nat \<Rightarrow> nat \<Rightarrow> bool" where
  "valid_pair t m \<longleftrightarrow> m < 2 ^ 53 \<and> (0 < t \<longrightarrow> 2 ^ 52 \<le> m)"

lemma mag_decompose: "f64_mag x = f64_shift x * 2 ^ 52 + f64_sig x"
  using div_mult_mod_eq [of "f64_mag x" "2 ^ 52"]
  by (cases "f64_mag x div 2 ^ 52") (auto simp: f64_sig_def f64_shift_def)

lemma valid_pair_of: "valid_pair (f64_shift x) (f64_sig x)"
proof (cases "f64_mag x div 2 ^ 52")
  case 0
  then have "f64_mag x < 2 ^ 52" by (simp add: div_eq_0_iff)
  then show ?thesis using 0 by (simp add: valid_pair_def f64_sig_def f64_shift_def)
next
  case (Suc t)
  define r where "r = f64_mag x mod 2 ^ 52"
  have r: "r < 2 ^ 52" by (simp add: r_def)
  have "f64_mag x = Suc t * 2 ^ 52 + r"
    unfolding r_def using Suc by (metis div_mult_mod_eq)
  moreover have "f64_shift x = t" using Suc by (simp add: f64_shift_def)
  ultimately have "f64_sig x = 2 ^ 52 + r" by (simp add: f64_sig_def)
  with r \<open>f64_shift x = t\<close> show ?thesis by (simp add: valid_pair_def)
qed

lemma valid_pair_less:
  assumes "valid_pair t m" "valid_pair t' m'" "t * 2 ^ 52 + m < t' * 2 ^ 52 + m'"
  shows "m * 2 ^ t < m' * 2 ^ t'"
proof (cases "t < t'")
  case True
  then have "2 ^ 53 * 2 ^ t \<le> 2 ^ 52 * (2::nat) ^ t'"
    using power_increasing [of "53 + t" "52 + t'" "2::nat"] by (simp add: power_add)
  moreover have "m * 2 ^ t < 2 ^ 53 * 2 ^ t" using assms(1) by (simp add: valid_pair_def)
  moreover have "2 ^ 52 * 2 ^ t' \<le> m' * 2 ^ t'"
    using assms(2) True by (simp add: valid_pair_def)
  ultimately show ?thesis by linarith
next
  case False
  show ?thesis
  proof (cases "t = t'")
    case True with assms(3) show ?thesis by simp
  next
    case False
    with \<open>\<not> t < t'\<close> have "Suc t' * 2 ^ 52 \<le> t * 2 ^ 52" by simp
    moreover have "2 ^ 52 \<le> m" "m' < 2 ^ 53"
      using assms False \<open>\<not> t < t'\<close> by (auto simp: valid_pair_def)
    ultimately show ?thesis using assms(3) by simp
  qed
qed

lemma mag_units_less:
  "f64_mag x < f64_mag y \<longleftrightarrow> f64_sig x * 2 ^ f64_shift x < f64_sig y * 2 ^ f64_shift y"
proof -
  have less: "f64_mag a < f64_mag b \<Longrightarrow> f64_sig a * 2 ^ f64_shift a < f64_sig b * 2 ^ f64_shift b"
    for a b
    using valid_pair_less [OF valid_pair_of valid_pair_of, of a b]
    by (simp add: mag_decompose)
  have eq: "f64_mag a = f64_mag b \<Longrightarrow> f64_sig a * 2 ^ f64_shift a = f64_sig b * 2 ^ f64_shift b"
    for a b
    by (simp add: f64_sig_def f64_shift_def)
  show ?thesis using less [of x y] less [of y x] eq [of x y] by linarith
qed

text \<open>Reading sign and magnitude orders numbers as their values do.\<close>

lemma f64_key_units_less: "f64_key x < f64_key y \<longleftrightarrow> f64_units x < f64_units y"
proof -
  have z: "f64_mag a = 0 \<longleftrightarrow> f64_sig a * 2 ^ f64_shift a = 0" for a
  proof -
    have "f64_mag f64_zero = 0" by (simp add: f64_zero_def)
    moreover from this have "f64_sig f64_zero = 0" by (simp add: f64_sig_def)
    ultimately show ?thesis using mag_units_less [of "f64_zero" a] by auto
  qed
  define u where "u a = int (f64_sig a * 2 ^ f64_shift a)" for a
  have "int (f64_mag a) < int (f64_mag b) \<longleftrightarrow> u a < u b" for a b
    using mag_units_less [of a b] by (simp only: u_def of_nat_less_iff)
  note less = this [of x y] this [of y x]
  have zero: "int (f64_mag a) = 0 \<longleftrightarrow> u a = 0" for a
    using z [of a] by (simp only: u_def of_nat_eq_0_iff)
  have pos: "0 \<le> u a" for a by (simp add: u_def)
  have units: "f64_units a = (if f64_neg a then - u a else u a)" for a
    by (simp add: f64_units_def u_def)
  show ?thesis
    unfolding units f64_key_def using less zero [of x] zero [of y] pos [of x] pos [of y]
    by (cases "f64_neg x"; cases "f64_neg y") auto
qed

lemma f64_lt_units: "is_finite x \<Longrightarrow> is_finite y \<Longrightarrow> f64_lt x y \<longleftrightarrow> f64_units x < f64_units y"
  by (simp add: f64_lt_def is_nan_not_finite f64_key_units_less)

lemma f64_le_units: "is_finite x \<Longrightarrow> is_finite y \<Longrightarrow> f64_le x y \<longleftrightarrow> f64_units x \<le> f64_units y"
  using f64_key_units_less [of y x] by (simp add: f64_le_def is_nan_not_finite not_less [symmetric])

section \<open>Correct rounding\<close>

lemma blen_less: "n < 2 ^ blen n"
proof (induction n rule: blen.induct)
  case (1 n)
  show ?case
  proof (cases "n = 0")
    case False
    with 1 have "n div 2 < 2 ^ blen (n div 2)" by simp
    then have "n < 2 * 2 ^ blen (n div 2)" by linarith
    with False show ?thesis by (simp add: blen.simps [of n])
  qed (simp add: blen.simps)
qed

lemma blen_ge: "0 < n \<Longrightarrow> 2 ^ blen n \<le> 2 * n"
proof (induction n rule: blen.induct)
  case (1 n)
  show ?case
  proof (cases "n div 2 = 0")
    case True
    with "1.prems" have "n = 1" by linarith
    then show ?thesis by (simp add: blen.simps)
  next
    case False
    with 1 have "2 ^ blen (n div 2) \<le> 2 * (n div 2)" by simp
    then have "2 * 2 ^ blen (n div 2) \<le> 2 * n" by linarith
    with "1.prems" show ?thesis by (simp add: blen.simps [of n])
  qed
qed

lemma blen_less_real: "real n < 2 ^ blen n"
proof -
  have "real n < real (2 ^ blen n)" by (simp only: of_nat_less_iff blen_less)
  then show ?thesis by simp
qed

lemma blen_ge_real: "0 < n \<Longrightarrow> 2 ^ blen n \<le> 2 * real n"
proof -
  assume "0 < n"
  then have "real (2 ^ blen n) \<le> real (2 * n)" by (simp only: of_nat_le_iff blen_ge)
  then show ?thesis by simp
qed

lemma scale_value:
  assumes "0 < q" "scale p q e = (n, d)"
  shows "0 < d \<and> real n / real d = real p / real q * 2 powi e"
  using assms by (auto simp: scale_def power_int_def field_simps split: if_splits)

lemma lead_bounds:
  assumes "0 < p" "0 < q"
  shows "2 powi lead p q \<le> real p / real q \<and> real p / real q < 2 powi (lead p q + 1)"
proof -
  let ?x = "real p / real q"
  define k where "k = int (blen p) - int (blen q)"
  have "real p < 2 ^ blen p" "2 ^ blen p \<le> 2 * real p"
    "real q < 2 ^ blen q" "2 ^ blen q \<le> 2 * real q"
    by (rule blen_less_real blen_ge_real assms)+
  note lens = this
  have k2: "(2::real) powi k = 2 ^ blen p / 2 ^ blen q"
    by (simp add: k_def power_int_diff)
  have lo: "2 powi k < 2 * ?x"
    using frac_less2 [of "2 ^ blen p / 2" "real p" "real q" "2 ^ blen q"] lens assms
    by (simp add: k2 field_simps)
  have hi: "?x < 2 * 2 powi k"
    using frac_less [of "real p" "2 ^ blen p" "2 ^ blen q / 2" "real q"] lens assms
    by (simp add: k2 field_simps)
  obtain n d where nd: "scale p q (- k) = (n, d)" by (cases "scale p q (- k)")
  have v: "0 < d" "real n / real d = ?x / 2 powi k"
    using scale_value [OF assms(2) nd] by (auto simp: power_int_minus field_simps)
  have pk: "0 < (2::real) powi k" by simp
  have "d \<le> n \<longleftrightarrow> 2 powi k \<le> ?x"
  proof -
    have "d \<le> n \<longleftrightarrow> 1 \<le> real n / real d" using v(1) by (simp add: field_simps)
    also have "\<dots> \<longleftrightarrow> 2 powi k \<le> ?x"
      unfolding v(2) by (simp only: pos_le_divide_eq [OF pk] mult_1)
    finally show ?thesis .
  qed
  moreover have "lead p q = (if d \<le> n then k else k - 1)"
    by (simp add: lead_def nd flip: k_def)
  moreover have "(2::real) powi (k - 1) = 2 powi k / 2" by (simp add: power_int_diff)
  moreover have "(2::real) powi (k + 1) = 2 * 2 powi k" by (simp add: power_int_add)
  ultimately show ?thesis using lo hi by auto
qed

lemma div_half_even_le: "0 < d \<Longrightarrow> n \<le> c * d \<Longrightarrow> div_half_even n d \<le> c"
proof -
  assume d: "0 < d" and n: "n \<le> c * d"
  then have "n div d \<le> c" by (metis div_le_mono nonzero_mult_div_cancel_right not_gr_zero)
  moreover have "n div d = c \<Longrightarrow> n mod d = 0"
    using n by (metis add_le_same_cancel1 div_mult_mod_eq le_zero_eq)
  ultimately have "n div d < c \<or> n mod d = 0" by linarith
  with \<open>n div d \<le> c\<close> d show ?thesis by (auto simp: div_half_even_def Let_def)
qed

lemma div_half_even_ge: "0 < d \<Longrightarrow> c * d \<le> n \<Longrightarrow> c \<le> div_half_even n d"
  using div_le_mono [of "c * d" n d] by (auto simp: div_half_even_def Let_def)

text \<open>The value being rounded, in units of \<open>2 ^ - 1074\<close>.\<close>

definition ulps :: "nat \<Rightarrow> nat \<Rightarrow> int \<Rightarrow> real" where
  "ulps p q e = real p / real q * 2 powi (e + 1074)"

lemma round_shift:
  fixes e :: int
  assumes "0 < p" "0 < q"
  defines "s \<equiv> nat (lead p q + e + 1074 - 52)"
  shows "ulps p q e < 2 ^ (s + 53)" and "0 < s \<Longrightarrow> 2 ^ (s + 52) \<le> ulps p q e"
proof -
  let ?l = "lead p q + (e + 1074)"
  have b: "2 powi ?l \<le> ulps p q e" "ulps p q e < 2 powi (?l + 1)"
  proof -
    have c: "0 < (2::real) powi (e + 1074)" by simp
    have split: "(2::real) powi ?l = 2 powi lead p q * 2 powi (e + 1074)"
      "(2::real) powi (?l + 1) = 2 powi (lead p q + 1) * 2 powi (e + 1074)"
      by (simp_all only: power_int_add add.assoc add.commute [of _ 1] zero_neq_numeral
          simp_thms mult.assoc mult.commute mult.left_commute flip: power_int_add)
        (simp_all add: power_int_add)
    show "2 powi ?l \<le> ulps p q e" "ulps p q e < 2 powi (?l + 1)"
      unfolding split ulps_def using lead_bounds [OF assms(1,2)] c
      by (simp_all only: mult_le_cancel_right_pos mult_less_cancel_right_pos)
  qed
  have "(2::real) powi (?l + 1) \<le> 2 powi int (s + 53)"
    by (rule power_int_increasing) (auto simp: s_def)
  with b(2) show "ulps p q e < 2 ^ (s + 53)" by (simp only: power_int_of_nat)
  show "2 ^ (s + 52) \<le> ulps p q e" if "0 < s"
  proof -
    have "int (s + 52) = ?l" using that by (simp add: s_def)
    with b(1) show ?thesis by (metis power_int_of_nat)
  qed
qed

lemma round_quotient:
  assumes "0 < q" "scale p q (e + 1074 - int s) = (n, d)"
  shows "0 < d" and "real n / real d * 2 ^ s = ulps p q e"
proof -
  have v: "0 < d \<and> real n / real d = real p / real q * 2 powi (e + 1074 - int s)"
    by (rule scale_value [OF assms])
  then show "0 < d" ..
  have "(2::real) powi (e + 1074 - int s) * 2 ^ s = 2 powi (e + 1074)"
    by (simp add: power_int_diff)
  with v show "real n / real d * 2 ^ s = ulps p q e" by (simp add: ulps_def)
qed

lemma nat_quotient_le:
  assumes "0 < d" "real n / real d * 2 ^ s \<le> real m * 2 ^ s" shows "n \<le> m * d"
proof -
  have "real n \<le> real m * real d" using assms by (simp add: field_simps)
  then show ?thesis by (metis of_nat_le_iff of_nat_mult)
qed

lemma nat_quotient_ge:
  assumes "0 < d" "real m * 2 ^ s \<le> real n / real d * 2 ^ s" shows "m * d \<le> n"
proof -
  have "real m * real d \<le> real n" using assms by (simp add: field_simps)
  then show ?thesis by (metis of_nat_le_iff of_nat_mult)
qed


text \<open>
  Rounding never crosses a representable number: the result is at most, or at least,
  any finite magnitude the exact value is at most, or at least.
\<close>

lemma round_mag_unfold:
  assumes "p \<noteq> 0" "s = nat (lead p q + e + 1074 - 52)" "scale p q (e + 1074 - int s) = (n, d)"
  shows "round_mag p q e = min inf_mag (s * 2 ^ 52 + div_half_even n d)"
  unfolding round_mag_def Let_def using assms by (simp only: if_False prod.case)

lemma round_mag_le:
  assumes q: "0 < q" and v: "valid_pair t m" and x: "ulps p q e \<le> real m * 2 ^ t"
  shows "round_mag p q e \<le> t * 2 ^ 52 + m"
proof (cases "p = 0")
  case False
  define s where "s = nat (lead p q + e + 1074 - 52)"
  obtain n d where nd: "scale p q (e + 1074 - int s) = (n, d)" by (cases "scale p q (e + 1074 - int s)")
  note quo = round_quotient [OF q nd]
  have p: "0 < p" using False by simp
  note sh = round_shift [OF p q, of e, folded s_def]
  have r: "round_mag p q e \<le> s * 2 ^ 52 + div_half_even n d"
    using round_mag_unfold [OF False s_def nd] by simp
  consider "s < t" | "s = t" | "t < s" by linarith
  then show ?thesis
  proof cases
    case 1
    have "real n / real d * 2 ^ s \<le> real (2 ^ 53) * 2 ^ s"
      using sh(1) quo(2) by (simp add: power_add)
    then have "div_half_even n d \<le> 2 ^ 53"
      by (intro div_half_even_le quo(1) nat_quotient_le [OF quo(1)])
    moreover have "Suc s * 2 ^ 52 \<le> t * 2 ^ 52" using 1 by simp
    moreover have "2 ^ 52 \<le> m" using v 1 by (simp add: valid_pair_def)
    ultimately show ?thesis using r by simp
  next
    case 2
    with x quo(2) have "real n / real d * 2 ^ s \<le> real m * 2 ^ s" by simp
    then have "div_half_even n d \<le> m"
      by (intro div_half_even_le quo(1) nat_quotient_le [OF quo(1)])
    with r 2 show ?thesis by simp
  next
    case 3
    have "real m * 2 ^ t < 2 ^ 53 * 2 ^ t" using v by (simp add: valid_pair_def)
    also have "\<dots> \<le> 2 ^ (s + 52)"
      using 3 power_increasing [of "53 + t" "s + 52" "2::real"] by (simp add: power_add)
    also have "\<dots> \<le> ulps p q e" using sh(2) 3 by simp
    finally show ?thesis using x by simp
  qed
qed (simp add: round_mag_def)

lemma round_mag_ge:
  assumes q: "0 < q" and v: "valid_pair t m" and x: "real m * 2 ^ t \<le> ulps p q e"
    and fin: "t * 2 ^ 52 + m \<le> inf_mag"
  shows "t * 2 ^ 52 + m \<le> round_mag p q e"
proof (cases "p = 0")
  case True
  with x have "real m * 2 ^ t \<le> 0" by (simp add: ulps_def)
  then have "m = 0" by (metis mult_le_0_iff not_le of_nat_0_le_iff of_nat_le_0_iff zero_less_numeral zero_less_power)
  with v True show ?thesis by (cases t) (auto simp: round_mag_def valid_pair_def)
next
  case False
  define s where "s = nat (lead p q + e + 1074 - 52)"
  obtain n d where nd: "scale p q (e + 1074 - int s) = (n, d)" by (cases "scale p q (e + 1074 - int s)")
  note quo = round_quotient [OF q nd]
  have p: "0 < p" using False by simp
  note sh = round_shift [OF p q, of e, folded s_def]
  have r: "round_mag p q e = min inf_mag (s * 2 ^ 52 + div_half_even n d)"
    by (rule round_mag_unfold [OF False s_def nd])
  consider "s < t" | "s = t" | "t < s" by linarith
  then have "t * 2 ^ 52 + m \<le> s * 2 ^ 52 + div_half_even n d"
  proof cases
    case 1
    have "ulps p q e < 2 ^ (s + 53)" by (rule sh(1))
    also have "\<dots> \<le> 2 ^ 52 * 2 ^ t"
      using 1 power_increasing [of "s + 53" "52 + t" "2::real"] by (simp add: power_add)
    also have "\<dots> \<le> real m * 2 ^ t" using v 1 by (simp add: valid_pair_def)
    finally show ?thesis using x by simp
  next
    case 2
    with x quo(2) have "real m * 2 ^ s \<le> real n / real d * 2 ^ s" by simp
    then have "m \<le> div_half_even n d"
      by (intro div_half_even_ge quo(1) nat_quotient_ge [OF quo(1)])
    with 2 show ?thesis by simp
  next
    case 3
    then have "0 < s" by simp
    from sh(2) [OF this] have "real (2 ^ 52) * 2 ^ s \<le> real n / real d * 2 ^ s"
      unfolding quo(2) by (simp add: power_add)
    then have "2 ^ 52 \<le> div_half_even n d"
      by (intro div_half_even_ge quo(1) nat_quotient_ge [OF quo(1)])
    moreover have "Suc t * 2 ^ 52 \<le> s * 2 ^ 52" using 3 by simp
    moreover have "m < 2 ^ 53" using v by (simp add: valid_pair_def)
    ultimately show ?thesis by simp
  qed
  with r fin show ?thesis by simp
qed

text \<open>A representable value is its own rounding.\<close>

lemma round_mag_exact:
  assumes "0 < q" "ulps p q e = real (f64_sig x) * 2 ^ f64_shift x" "is_finite x"
  shows "round_mag p q e = f64_mag x"
proof (rule antisym)
  show "round_mag p q e \<le> f64_mag x"
    using round_mag_le [OF assms(1) valid_pair_of, of p e x] assms(2) by (simp add: mag_decompose)
  show "f64_mag x \<le> round_mag p q e"
    using round_mag_ge [OF assms(1) valid_pair_of, of x p e] assms(2,3)
    by (simp add: mag_decompose is_finite_def)
qed

lemma round_mag_le_inf: "round_mag p q e \<le> inf_mag"
  by (auto simp: round_mag_def Let_def split: prod.split)

lemma round_mag_less63: "round_mag p q e < 2 ^ 63"
  using round_mag_le_inf [of p q e] inf_mag_less by (rule le_less_trans)

section \<open>Subtraction of non-negative numbers\<close>

lemma f64_zero_simps [simp]:
  "f64_mag f64_zero = 0" "\<not> f64_neg f64_zero" "is_finite f64_zero" "f64_units f64_zero = 0"
  by (simp_all add: f64_zero_def is_finite_def inf_mag_def f64_units_def f64_sig_def)

lemma signed_sig_units: "signed_sig x * 2 ^ f64_shift x = f64_units x"
  by (simp add: signed_sig_def f64_units_def)

lemma f64_negate_simps [simp]:
  "f64_mag (f64_negate x) = f64_mag x" "f64_neg (f64_negate x) = (\<not> f64_neg x)"
  "is_nan (f64_negate x) = is_nan x" "is_finite (f64_negate x) = is_finite x"
  "is_infinite (f64_negate x) = is_infinite x"
  using f64_mag_less [of x]
  by (simp_all add: f64_negate_def is_nan_def is_finite_def is_infinite_def)

lemma f64_units_negate [simp]: "f64_units (f64_negate x) = - f64_units x"
  by (simp add: f64_units_def f64_sig_def f64_shift_def)

text \<open>The exact sum that finite addition rounds.\<close>

lemma f64_add_finite:
  assumes "is_finite a" "is_finite b"
  obtains (zero) "f64_units a + f64_units b = 0" "f64_add a b = f64_make (f64_neg a \<and> f64_neg b) 0"
  | (round) n s where "n \<noteq> 0" "n * 2 ^ s = f64_units a + f64_units b"
      "f64_add a b = f64_make (n < 0) (round_mag (nat \<bar>n\<bar>) 1 (int s - 1074))"
proof -
  define s where "s = min (f64_shift a) (f64_shift b)"
  define n where "n = signed_sig a * 2 ^ (f64_shift a - s) + signed_sig b * 2 ^ (f64_shift b - s)"
  have "signed_sig x * 2 ^ (f64_shift x - s) * 2 ^ s = f64_units x" if "s \<le> f64_shift x" for x
    using that by (simp add: mult.assoc flip: signed_sig_units power_add)
  then have n: "n * 2 ^ s = f64_units a + f64_units b"
    by (simp add: n_def distrib_right s_def)
  have nan: "\<not> is_nan a" "\<not> is_nan b" "\<not> is_infinite a" "\<not> is_infinite b"
    using assms by (auto simp: is_nan_def is_finite_def is_infinite_def)
  then have "f64_add a b = (if n = 0 then f64_make (f64_neg a \<and> f64_neg b) 0
      else f64_make (n < 0) (round_mag (nat \<bar>n\<bar>) 1 (int s - 1074)))"
    by (simp add: f64_add_def Let_def flip: s_def n_def)
  with n that show thesis by (cases "n = 0") auto
qed

lemma f64_units_nonneg:
  assumes "0 \<le> f64_units a" shows "f64_units a = int (f64_sig a * 2 ^ f64_shift a)"
proof -
  have "0 \<le> int (f64_sig a * 2 ^ f64_shift a)" by simp
  moreover have "f64_units a = int (f64_sig a * 2 ^ f64_shift a)
      \<or> f64_units a = - int (f64_sig a * 2 ^ f64_shift a)"
    by (simp add: f64_units_def)
  ultimately show ?thesis using assms by linarith
qed

lemma f64_sub_nonneg:
  assumes fin: "is_finite a" "is_finite b" and b: "f64_le f64_zero b" and ba: "f64_le b a"
  shows "is_finite (f64_sub a b) \<and> f64_le f64_zero (f64_sub a b) \<and> f64_le (f64_sub a b) a"
proof -
  have nonneg: "0 \<le> f64_units b" "f64_units b \<le> f64_units a"
    using assms f64_le_units [of f64_zero b] f64_le_units [of b a] by auto
  have fb: "is_finite (f64_negate b)" using fin by simp
  have "(f64_neg (f64_add a (f64_negate b)) \<longrightarrow> f64_mag (f64_add a (f64_negate b)) = 0)
      \<and> f64_mag (f64_add a (f64_negate b)) \<le> f64_mag a"
  proof (cases rule: f64_add_finite [OF fin(1) fb, case_names zero round])
    case zero
    then show ?thesis by simp
  next
    case (round n s)
    have u: "n * 2 ^ s = f64_units a - f64_units b" using round(2) by simp
    have n: "0 < n" using u nonneg round(1)
      by (metis diff_ge_0_iff_ge linorder_neqE_linordered_idom mult_neg_pos not_le zero_less_numeral zero_less_power)
    have "real_of_int (n * 2 ^ s) \<le> real_of_int (f64_units a)"
      unfolding u using nonneg by simp
    moreover have "0 \<le> f64_units a" using nonneg by simp
    then have "f64_units a = int (f64_sig a * 2 ^ f64_shift a)"
      by (rule f64_units_nonneg)
    then have "real_of_int (f64_units a) = real (f64_sig a) * 2 ^ f64_shift a" by simp
    ultimately have "ulps (nat \<bar>n\<bar>) 1 (int s - 1074) \<le> real (f64_sig a) * 2 ^ f64_shift a"
      using n by (simp add: ulps_def power_int_def)
    then have "round_mag (nat \<bar>n\<bar>) 1 (int s - 1074) \<le> f64_mag a"
      using round_mag_le [OF _ valid_pair_of] by (simp add: mag_decompose)
    then show ?thesis
      using round(3) n round_mag_less63 [of "nat \<bar>n\<bar>" 1 "int s - 1074"] by simp
  qed
  then have res: "f64_neg (f64_sub a b) \<longrightarrow> f64_mag (f64_sub a b) = 0" and
    mag: "f64_mag (f64_sub a b) \<le> f64_mag a"
    by (simp_all add: f64_sub_def)
  have finr: "is_finite (f64_sub a b)" using mag fin(1) by (simp add: is_finite_def)
  have "0 \<le> f64_key (f64_sub a b)" using res by (auto simp: f64_key_def)
  moreover have "f64_key (f64_sub a b) \<le> f64_key a"
    using mag res nonneg f64_key_units_less [of a f64_zero]
    by (auto simp: f64_key_def split: if_splits)
  ultimately show ?thesis
    using finr fin(1) by (simp add: f64_le_def is_nan_not_finite) (simp add: f64_key_def)
qed

section \<open>Evaluation on literals\<close>

lemma f64_lit_bits:
  "f64_neg (F64 (numeral n)) \<longleftrightarrow> 9223372036854775808 \<le> (numeral n mod 18446744073709551616 :: nat)"
  "f64_mag (F64 (numeral n)) = numeral n mod 18446744073709551616 mod 9223372036854775808"
  "\<not> f64_neg (F64 0)" "f64_mag (F64 0) = 0"
  by (simp_all add: f64_neg_def f64_mag_def unsigned_numeral take_bit_eq_mod)

lemma f64_lit_make:
  "f64_make s (numeral m) = F64 (if s then numeral m + 9223372036854775808 else numeral m)"
  "f64_make s 0 = F64 (if s then 9223372036854775808 else 0)"
  by (simp_all add: f64_make_def)

lemma f64_lit_zero: "f64_zero = F64 0"
  by (simp add: f64_zero_def f64_lit_make)

lemmas f64_eval =
  f64_lit_bits f64_lit_make f64_lit_zero f64_sub_def f64_negate_def f64_add_def f64_div_def f64_mul_def
  f64_abs_def is_nan_def is_infinite_def inf_mag_def f64_shift_def f64_sig_def signed_sig_def Let_def
  round_mag_def lead_def scale_def div_half_even_def blen.simps f64_lt_def f64_le_def f64_key_def
  is_finite_def

end
