(* ===== verification/Core_Values.thy ===== *)
theory Core_Values
  imports Rust_Text F64
begin

text \<open>
  The validated value types of \<open>magic-market-core\<close>: \<open>error.rs\<close>, \<open>value.rs\<close>,
  \<open>instrument.rs\<close>, \<open>validated.rs\<close> and \<open>evidence.rs\<close>. A newtype of the code is a
  one-constructor datatype, a struct a record, and each \<open>new\<close> a function into
  \<open>rres\<close> whose error carries the field, the offending value and the reason the code
  gives. A number that the code prints into an error stays a number here, and a
  value the code prints with \<open>{:?}\<close> stays the value, after the text that precedes it.
\<close>

section \<open>Errors\<close>

datatype err_value = Text string | Number f64 | Debug string string

datatype core_error =
    InvalidValue (ce_field: string) (ce_value: err_value) (ce_reason: string)
  | InvalidInstrument string
  | InvalidRequest err_value

abbreviation invalid_request :: "string \<Rightarrow> core_error" where
  "invalid_request message \<equiv> InvalidRequest (Text message)"

section \<open>Numbers\<close>

text \<open>The macro \<open>finite_type!\<close> and its three instances.\<close>

definition finite_new ::
  "(f64 \<Rightarrow> 'a) \<Rightarrow> string \<Rightarrow> (f64 \<Rightarrow> bool) \<Rightarrow> string \<Rightarrow> f64 \<Rightarrow> ('a, core_error) rres" where
  "finite_new con field pred reason value =
     (if \<not> is_finite value \<or> \<not> pred value
      then Err (InvalidValue field (Number value) reason) else Ok (con value))"

datatype price = Price (price_get: f64)
datatype quantity = Quantity (quantity_get: f64)
datatype money = Money (money_get: f64)

definition price_new :: "f64 \<Rightarrow> (price, core_error) rres" where
  "price_new = finite_new Price ''price'' (\<lambda>v. f64_lt f64_zero v) ''must be positive''"

definition quantity_new :: "f64 \<Rightarrow> (quantity, core_error) rres" where
  "quantity_new = finite_new Quantity ''quantity'' (\<lambda>v. f64_ge v f64_zero) ''must be non-negative''"

definition money_new :: "f64 \<Rightarrow> (money, core_error) rres" where
  "money_new = finite_new Money ''money'' (\<lambda>v. True) ''must be finite''"

datatype finite_number = FiniteNumber (finite_number_get: f64)

definition finite_number_new :: "f64 \<Rightarrow> (finite_number, core_error) rres" where
  "finite_number_new value =
     (if \<not> is_finite value
      then Err (InvalidValue ''finite_number'' (Number value) ''must be finite'')
      else Ok (FiniteNumber value))"

datatype positive_u32 = PositiveU32 (positive_u32_get: u32)

definition positive_u32_new :: "u32 \<Rightarrow> (positive_u32, core_error) rres" where
  "positive_u32_new value =
     (if value = 0
      then Err (InvalidValue ''positive_u32'' (Text (dec (unat value))) ''must be positive'')
      else Ok (PositiveU32 value))"

datatype ratio_unit = Decimal | Percent

record ratio =
  ratio_value :: f64
  ratio_unit_of :: ratio_unit

definition ratio_new :: "f64 \<Rightarrow> ratio_unit \<Rightarrow> (ratio, core_error) rres" where
  "ratio_new v unit =
     (if is_finite v then Ok \<lparr>ratio_value = v, ratio_unit_of = unit\<rparr>
      else Err (InvalidValue ''ratio'' (Number v) ''must be finite''))"

definition ratio_decimal :: "f64 \<Rightarrow> (ratio, core_error) rres" where
  "ratio_decimal v = ratio_new v Decimal"

record numeric_tolerance =
  nt_absolute :: f64
  nt_relative :: f64

fun check_tolerances :: "(string \<times> f64) list \<Rightarrow> (unit, core_error) rres" where
  "check_tolerances [] = Ok ()"
| "check_tolerances ((field, value) # rest) =
     (if \<not> is_finite value \<or> f64_lt value f64_zero
      then Err (InvalidValue field (Number value) ''must be finite and non-negative'')
      else check_tolerances rest)"

definition numeric_tolerance_new :: "f64 \<Rightarrow> f64 \<Rightarrow> (numeric_tolerance, core_error) rres" where
  "numeric_tolerance_new absolute relative =
     rbind (check_tolerances
       [(''numeric tolerance absolute'', absolute), (''numeric tolerance relative'', relative)])
     (\<lambda>_. Ok \<lparr>nt_absolute = absolute, nt_relative = relative\<rparr>)"

definition tolerance_matches :: "numeric_tolerance \<Rightarrow> f64 \<Rightarrow> f64 \<Rightarrow> bool" where
  "tolerance_matches t left right =
     (if \<not> is_finite left \<or> \<not> is_finite right then False
      else let difference = f64_abs (f64_sub left right);
               threshold = f64_mul_add (nt_relative t)
                             (f64_max (f64_abs left) (f64_abs right)) (nt_absolute t)
           in is_finite difference \<and> is_finite threshold \<and> f64_le difference threshold)"

section \<open>Text\<close>

definition max_text_chars :: nat where "max_text_chars = 16384"
definition max_url_chars :: nat where "max_url_chars = 4096"

datatype non_empty_text = NonEmptyText (text_str: string)

definition non_empty_text_new :: "string \<Rightarrow> (non_empty_text, core_error) rres" where
  "non_empty_text_new value =
     (let trimmed = trim value; count = length (chars_of trimmed) in
      if trimmed = '''' then Err (InvalidValue ''text'' (Text value) ''must not be empty'')
      else if list_ex is_control (chars_of trimmed) then
        Err (InvalidValue ''text'' (Text value) ''must not contain control characters'')
      else if max_text_chars < count then
        Err (InvalidValue ''text'' (Text (dec count @ '' characters'')) ''exceeds maximum length'')
      else Ok (NonEmptyText trimmed))"

definition checked_text :: "string \<Rightarrow> string \<Rightarrow> (string, core_error) rres" where
  "checked_text field value =
     (let trimmed = trim value in
      if trimmed = '''' then Err (InvalidValue field (Text value) ''must not be empty'')
      else if list_ex is_control (chars_of trimmed) then
        Err (InvalidValue field (Text value) ''must not contain control characters'')
      else Ok trimmed)"

datatype https_url = HttpsUrl (url_str: string)

definition https_url_new :: "string \<Rightarrow> (https_url, core_error) rres" where
  "https_url_new value =
     (let trimmed = trim value; count = length (chars_of trimmed) in
      if max_url_chars < count then
        Err (InvalidValue ''https_url'' (Text (dec count @ '' characters'')) ''exceeds maximum length'')
      else if list_ex (\<lambda>c. is_control c \<or> is_whitespace c \<or> c = [char_of (92 :: nat)]) (chars_of trimmed)
      then Err (InvalidValue ''https_url'' (Text value)
             ''must not contain whitespace, controls or backslashes'')
      else rbind (ok_or (InvalidValue ''https_url'' (Text value) ''must use https'')
                    (strip_prefix ''https://'' trimmed))
        (\<lambda>remainder.
           let authority = takeWhile (\<lambda>c. c \<notin> {CHR ''/'', CHR ''?'', CHR ''#''}) remainder in
           if authority = '''' \<or> CHR ''@'' \<in> set authority \<or> hd authority = CHR ''.''
           then Err (InvalidValue ''https_url'' (Text value)
                  ''must contain a valid host without credentials'')
           else Ok (HttpsUrl trimmed)))"

text \<open>Calendar dates. The slices are digits when they are read, so \<open>parse\<close> succeeds.\<close>

definition is_valid_iso_date :: "string \<Rightarrow> bool" where
  "is_valid_iso_date value =
     (if length value \<noteq> 10 \<or> value ! 4 \<noteq> CHR ''-'' \<or> value ! 7 \<noteq> CHR ''-''
         \<or> \<not> list_all (\<lambda>(index, byte). index = 4 \<or> index = 7 \<or> is_ascii_digit byte)
              (zip [0..<length value] value)
      then False
      else let year = parse_dec (take 4 value);
               month = parse_dec (take 2 (drop 5 value));
               day = parse_dec (take 2 (drop 8 value)) in
        if \<not> (1900 \<le> year \<and> year \<le> 9999) \<or> \<not> (1 \<le> month \<and> month \<le> 12) then False
        else let leap = (year mod 4 = 0 \<and> (year mod 100 \<noteq> 0 \<or> year mod 400 = 0));
                 days = (if month = 2 then if leap then 29 else 28
                         else if month \<in> {4, 6, 9, 11} then 30 else 31)
             in 1 \<le> day \<and> day \<le> days)"

datatype iso_date = IsoDate (iso_str: string)

definition iso_date_new :: "string \<Rightarrow> (iso_date, core_error) rres" where
  "iso_date_new value =
     (if \<not> is_valid_iso_date value
      then Err (InvalidValue ''iso_date'' (Text value) ''must be a valid YYYY-MM-DD Gregorian date'')
      else Ok (IsoDate value))"

section \<open>Instruments\<close>

datatype exchange = Shanghai | Shenzhen | Beijing
datatype asset_class = Equity | Index | Fund | Bond | Option

record instrument_id =
  ii_exchange :: exchange
  ii_code :: string
  ii_asset_class :: asset_class

definition instrument_id_new ::
  "exchange \<Rightarrow> string \<Rightarrow> asset_class \<Rightarrow> (instrument_id, core_error) rres" where
  "instrument_id_new ex raw ac =
     (let code = trim raw in
      if code = '''' then Err (InvalidInstrument ''empty code'')
      else if list_ex is_control (chars_of code)
      then Err (InvalidInstrument ''code contains control characters'')
      else Ok \<lparr>ii_exchange = ex, ii_code = code, ii_asset_class = ac\<rparr>)"

section \<open>Evidence\<close>

datatype provider_id =
    Tdx | Tencent | Eastmoney | Sina | Baostock | Baidu | Tonghuashun | Iwencai | Cninfo
  | Cailianpress | Jin10 | ThePaper | Yonhap | WallstreetCn | Sse | Szse | Hkex | Cffex
  | StateCouncil | Nbs | Pbc | Cfets | Fred | Imf | WorldBank | SecEdgar | XinhuaFinance
  | Yicai | SecuritiesTimes | LocalAnalysis | LocalTerminal | Custom

datatype data_status = Available | Unavailable | Stale | Conflicted | Unsupported

record source_evidence =
  se_provider :: provider_id
  se_source_at :: "non_empty_text option"
  se_observed_at :: non_empty_text
  se_batch_id :: non_empty_text

definition source_evidence_new ::
  "provider_id \<Rightarrow> string \<Rightarrow> string \<Rightarrow> (source_evidence, core_error) rres" where
  "source_evidence_new provider observed_at batch_id =
     rbind (non_empty_text_new observed_at) (\<lambda>observed.
     rbind (non_empty_text_new batch_id) (\<lambda>batch.
     Ok \<lparr>se_provider = provider, se_source_at = None, se_observed_at = observed,
         se_batch_id = batch\<rparr>))"

definition with_source_at ::
  "source_evidence \<Rightarrow> string \<Rightarrow> (source_evidence, core_error) rres" where
  "with_source_at evidence source_at =
     rbind (non_empty_text_new source_at) (\<lambda>t. Ok (evidence\<lparr>se_source_at := Some t\<rparr>))"

text \<open>The accessors that hand out text.\<close>

definition source_at_of :: "source_evidence \<Rightarrow> string option" where
  "source_at_of e = map_option text_str (se_source_at e)"

definition observed_at_of :: "source_evidence \<Rightarrow> string" where
  "observed_at_of e = text_str (se_observed_at e)"

definition batch_id_of :: "source_evidence \<Rightarrow> string" where
  "batch_id_of e = text_str (se_batch_id e)"

text \<open>\<open>Deserialize for SourceEvidence\<close>: the wire fields through the constructors.\<close>

definition source_evidence_deserialize ::
  "provider_id \<Rightarrow> string option \<Rightarrow> string \<Rightarrow> string \<Rightarrow> (source_evidence, core_error) rres" where
  "source_evidence_deserialize provider source_at observed_at batch_id =
     rbind (source_evidence_new provider observed_at batch_id) (\<lambda>evidence.
     case source_at of None \<Rightarrow> Ok evidence | Some s \<Rightarrow> with_source_at evidence s)"

section \<open>Numbers are what their types promise\<close>

lemma finite_new_eq_Ok:
  "finite_new con field pred reason v = Ok x \<longleftrightarrow> is_finite v \<and> pred v \<and> x = con v"
  by (auto simp: finite_new_def)

definition price_ok :: "price \<Rightarrow> bool" where
  "price_ok p \<longleftrightarrow> is_finite (price_get p) \<and> f64_lt f64_zero (price_get p)"

definition quantity_ok :: "quantity \<Rightarrow> bool" where
  "quantity_ok q \<longleftrightarrow> is_finite (quantity_get q) \<and> f64_le f64_zero (quantity_get q)"

definition money_ok :: "money \<Rightarrow> bool" where
  "money_ok m \<longleftrightarrow> is_finite (money_get m)"

lemma price_new_eq_Ok [res_simps]: "price_new v = Ok p \<longleftrightarrow> p = Price v \<and> price_ok p"
  by (cases p) (auto simp: price_new_def finite_new_eq_Ok price_ok_def)

lemma quantity_new_eq_Ok [res_simps]: "quantity_new v = Ok q \<longleftrightarrow> q = Quantity v \<and> quantity_ok q"
  by (cases q) (auto simp: quantity_new_def finite_new_eq_Ok quantity_ok_def)

lemma money_new_eq_Ok [res_simps]: "money_new v = Ok m \<longleftrightarrow> m = Money v \<and> money_ok m"
  by (cases m) (auto simp: money_new_def finite_new_eq_Ok money_ok_def)

lemma price_new_get: "price_ok p \<Longrightarrow> price_new (price_get p) = Ok p"
  by (simp add: price_new_eq_Ok)

lemma quantity_new_get: "quantity_ok q \<Longrightarrow> quantity_new (quantity_get q) = Ok q"
  by (simp add: quantity_new_eq_Ok)

lemma money_new_get: "money_ok m \<Longrightarrow> money_new (money_get m) = Ok m"
  by (simp add: money_new_eq_Ok)

lemma positive_u32_new_eq_Ok [res_simps]:
  "positive_u32_new v = Ok p \<longleftrightarrow> p = PositiveU32 v \<and> v \<noteq> 0"
  by (auto simp: positive_u32_new_def)

section \<open>Text is what its type promises\<close>

definition text_ok :: "non_empty_text \<Rightarrow> bool" where
  "text_ok t \<longleftrightarrow> text_str t \<noteq> '''' \<and> trim (text_str t) = text_str t
     \<and> \<not> list_ex is_control (chars_of (text_str t))
     \<and> length (chars_of (text_str t)) \<le> max_text_chars"

lemma non_empty_text_new_eq_Ok [res_simps]:
  "non_empty_text_new v = Ok t \<longleftrightarrow> text_str t = trim v \<and> text_ok t"
  by (cases t) (auto simp: non_empty_text_new_def text_ok_def Let_def)

lemma non_empty_text_new_str: "text_ok t \<Longrightarrow> non_empty_text_new (text_str t) = Ok t"
  by (simp add: non_empty_text_new_eq_Ok text_ok_def)

lemma non_empty_text_new_no_panic [simp]: "no_panic (non_empty_text_new v)"
  by (simp add: non_empty_text_new_def Let_def)

lemma checked_text_eq_Ok [res_simps]:
  "checked_text f v = Ok t \<longleftrightarrow> t = trim v \<and> t \<noteq> '''' \<and> \<not> list_ex is_control (chars_of t)"
  by (auto simp: checked_text_def Let_def)

lemma checked_text_no_panic [simp]: "no_panic (checked_text f v)"
  by (simp add: checked_text_def Let_def)

definition instrument_ok :: "instrument_id \<Rightarrow> bool" where
  "instrument_ok i \<longleftrightarrow> ii_code i \<noteq> '''' \<and> trim (ii_code i) = ii_code i
     \<and> \<not> list_ex is_control (chars_of (ii_code i))"

lemma instrument_id_new_eq_Ok [res_simps]:
  "instrument_id_new ex raw ac = Ok i \<longleftrightarrow>
     i = \<lparr>ii_exchange = ex, ii_code = trim raw, ii_asset_class = ac\<rparr> \<and> instrument_ok i"
  by (auto simp: instrument_id_new_def instrument_ok_def Let_def)

lemma instrument_id_roundtrip:
  "instrument_ok i \<Longrightarrow> instrument_id_new (ii_exchange i) (ii_code i) (ii_asset_class i) = Ok i"
  by (simp add: instrument_id_new_eq_Ok instrument_ok_def)

definition evidence_ok :: "source_evidence \<Rightarrow> bool" where
  "evidence_ok e \<longleftrightarrow> (case se_source_at e of None \<Rightarrow> True | Some t \<Rightarrow> text_ok t)
     \<and> text_ok (se_observed_at e) \<and> text_ok (se_batch_id e)"

lemma source_evidence_new_ok:
  "source_evidence_new p o' b = Ok e \<Longrightarrow>
     evidence_ok e \<and> se_provider e = p \<and> se_source_at e = None
     \<and> observed_at_of e = trim o' \<and> batch_id_of e = trim b"
  by (auto simp: source_evidence_new_def res_simps evidence_ok_def observed_at_of_def batch_id_of_def)

lemma source_evidence_new_no_panic [simp]: "no_panic (source_evidence_new p o' b)"
  by (auto simp: source_evidence_new_def intro!: no_panic_rbind)

lemma with_source_at_ok:
  "with_source_at e s = Ok e' \<Longrightarrow> evidence_ok e \<Longrightarrow>
     evidence_ok e' \<and> se_provider e' = se_provider e \<and> source_at_of e' = Some (trim s)
     \<and> observed_at_of e' = observed_at_of e \<and> batch_id_of e' = batch_id_of e"
  by (auto simp: with_source_at_def res_simps evidence_ok_def source_at_of_def
      observed_at_of_def batch_id_of_def)

text \<open>What a constructor accepted is accepted again, unchanged, off the wire.\<close>

lemma source_evidence_roundtrip_aux:
  "evidence_ok e \<Longrightarrow>
     source_evidence_deserialize (se_provider e) (source_at_of e) (observed_at_of e) (batch_id_of e)
       = Ok e"
  by (cases "se_source_at e")
     (auto simp: source_evidence_deserialize_def source_evidence_new_def with_source_at_def
        evidence_ok_def source_at_of_def observed_at_of_def batch_id_of_def
        non_empty_text_new_str)

lemma source_evidence_deserialize_ok:
  "source_evidence_deserialize p s o' b = Ok e \<Longrightarrow> evidence_ok e"
  by (auto simp: source_evidence_deserialize_def res_simps
      dest!: source_evidence_new_ok with_source_at_ok split: option.splits)

section \<open>Tolerances\<close>

lemma round_mag_sub_abs:
  assumes "is_finite a" "is_finite b"
  shows "f64_abs (f64_sub a b) = f64_abs (f64_sub b a)"
proof -
  have nan: "\<not> is_nan a" "\<not> is_nan b" "\<not> is_infinite a" "\<not> is_infinite b"
    "\<not> is_nan (f64_negate a)" "\<not> is_nan (f64_negate b)"
    "\<not> is_infinite (f64_negate a)" "\<not> is_infinite (f64_negate b)"
    using assms by (auto simp: is_nan_def is_finite_def is_infinite_def)
  define s where "s = min (f64_shift a) (f64_shift b)"
  define n where "n = signed_sig a * 2 ^ (f64_shift a - s) - signed_sig b * 2 ^ (f64_shift b - s)"
  have sh: "f64_shift (f64_negate x) = f64_shift x" "signed_sig (f64_negate x) = - signed_sig x" for x
    by (auto simp: f64_shift_def signed_sig_def f64_sig_def)
  have ab: "f64_sub a b = (if n = 0 then f64_make (f64_neg a \<and> \<not> f64_neg b) 0
      else f64_make (n < 0) (round_mag (nat \<bar>n\<bar>) 1 (int s - 1074)))"
    using nan by (simp add: f64_sub_def f64_add_def sh Let_def s_def n_def)
  have ba: "f64_sub b a = (if n = 0 then f64_make (f64_neg b \<and> \<not> f64_neg a) 0
      else f64_make (- n < 0) (round_mag (nat \<bar>- n\<bar>) 1 (int s - 1074)))"
    using nan by (simp add: f64_sub_def f64_add_def sh Let_def s_def n_def min.commute)
  show ?thesis
    using round_mag_less63 [of "nat \<bar>n\<bar>" 1 "int s - 1074"]
    unfolding ab ba by (simp add: f64_abs_def)
qed

lemma f64_max_abs_commute:
  assumes "is_finite a" "is_finite b"
  shows "f64_max (f64_abs a) (f64_abs b) = f64_max (f64_abs b) (f64_abs a)"
proof -
  have abs: "\<not> is_nan (f64_abs x)" "f64_key (f64_abs x) = int (f64_mag x)" if "is_finite x" for x
    using that f64_mag_less [of x]
    by (auto simp: is_nan_def is_finite_def f64_abs_def f64_key_def)
  have "f64_mag a = f64_mag b \<Longrightarrow> f64_abs a = f64_abs b" by (simp add: f64_abs_def)
  then show ?thesis using abs [OF assms(1)] abs [OF assms(2)]
    by (auto simp: f64_max_def f64_lt_def)
qed

lemma tolerance_matches_sym: "tolerance_matches t a b = tolerance_matches t b a"
  by (cases "is_finite a \<and> is_finite b")
     (auto simp: tolerance_matches_def round_mag_sub_abs [of a b] f64_max_abs_commute [of a b] Let_def)

end
