(* ===== verification/Evidence_Time.thy ===== *)
theory Evidence_Time
  imports Core_Values "HOL-Library.Monad_Syntax"
begin

text \<open>
  Wall-clock text and instants: \<open>time.rs\<close> (\<open>ClockTime\<close>, the fixed-offset RFC 3339
  printer) and the timestamp parser of \<open>probe.rs\<close> (\<open>EvidenceTimestamp\<close>). Signed
  integers are \<open>int\<close> with the width checked where the code checks it. The theorems
  say that the two calendar routines are inverse, that the day count steps by one
  from each date to the next, and that what the printer writes the parser reads.
\<close>

section \<open>Signed arithmetic at a width\<close>

definition fit_i64 :: "int \<Rightarrow> int option" where
  "fit_i64 x = (if - (2 ^ 63) \<le> x \<and> x < 2 ^ 63 then Some x else None)"

definition fit_i128 :: "int \<Rightarrow> int option" where
  "fit_i128 x = (if - (2 ^ 127) \<le> x \<and> x < 2 ^ 127 then Some x else None)"

definition nanos_per_second :: int where "nanos_per_second = 1000000000"
definition nanos_per_millisecond :: int where "nanos_per_millisecond = 1000000"

section \<open>Clock time\<close>

datatype clock_time = ClockTime (seconds_since_midnight: nat)

definition parse_two_digits :: "char \<Rightarrow> char \<Rightarrow> nat" where
  "parse_two_digits tens ones = digit_val tens * 10 + digit_val ones"

definition clock_time_parse :: "string \<Rightarrow> (clock_time, core_error) rres" where
  "clock_time_parse value =
     (if length value \<noteq> 8 \<or> value ! 2 \<noteq> CHR '':'' \<or> value ! 5 \<noteq> CHR '':''
         \<or> \<not> list_all (\<lambda>(index, byte). index \<in> {2, 5} \<or> is_ascii_digit byte)
              (zip [0..<length value] value)
      then Err (InvalidValue ''clock_time'' (Text value) ''must use strict HH:MM:SS'')
      else let hour = parse_two_digits (value ! 0) (value ! 1);
               minute = parse_two_digits (value ! 3) (value ! 4);
               second = parse_two_digits (value ! 6) (value ! 7) in
        if hour > 23 \<or> minute > 59 \<or> second > 59
        then Err (InvalidValue ''clock_time'' (Text value)
               ''contains an invalid hour, minute or second'')
        else Ok (ClockTime (hour * 3600 + minute * 60 + second)))"

definition clock_hour :: "clock_time \<Rightarrow> nat" where
  "clock_hour t = seconds_since_midnight t div 3600"

definition clock_minute :: "clock_time \<Rightarrow> nat" where
  "clock_minute t = seconds_since_midnight t mod 3600 div 60"

definition clock_second :: "clock_time \<Rightarrow> nat" where
  "clock_second t = seconds_since_midnight t mod 60"

definition clock_display :: "clock_time \<Rightarrow> string" where
  "clock_display t =
     dec_pad 2 (clock_hour t) @ '':'' @ dec_pad 2 (clock_minute t) @ '':''
       @ dec_pad 2 (clock_second t)"

section \<open>Printing instants\<close>

text \<open>\<open>civil_from_days\<close>. For days before the epoch of the algorithm the code both
  subtracts 146096 and divides towards minus infinity; the year it then computes is
  below the accepted range, as is the true one.\<close>

definition era_of :: "int \<Rightarrow> int" where
  "era_of z = (if z \<ge> 0 then z else z - 146096) div 146097"

definition year_of_era :: "int \<Rightarrow> int" where
  "year_of_era day_of_era =
     (day_of_era - day_of_era div 1460 + day_of_era div 36524 - day_of_era div 146096) div 365"

definition day_of_year :: "int \<Rightarrow> int \<Rightarrow> int" where
  "day_of_year day_of_era yoe = day_of_era - (365 * yoe + yoe div 4 - yoe div 100)"

definition month_and_day :: "int \<Rightarrow> int \<times> int" where
  "month_and_day doy =
     (let month_prime = (5 * doy + 2) div 153
      in (month_prime + (if month_prime < 10 then 3 else - 9),
          doy - (153 * month_prime + 2) div 5 + 1))"

definition civil_from_days :: "int \<Rightarrow> (int \<times> int \<times> int, core_error) rres" where
  "civil_from_days days_since_epoch =
     rbind (ok_or (invalid_request ''timestamp calendar conversion overflow'')
              (fit_i64 (days_since_epoch + 719468))) (\<lambda>z.
     let era = era_of z;
         day_of_era = z - era * 146097;
         yoe = year_of_era day_of_era
     in rbind (ok_or (invalid_request ''timestamp year overflow'') (fit_i64 (era * 400))) (\<lambda>e400.
        rbind (ok_or (invalid_request ''timestamp year overflow'') (fit_i64 (yoe + e400)))
          (\<lambda>year0.
        case month_and_day (day_of_year day_of_era yoe) of (month, day) \<Rightarrow>
        let year = year0 + (if month \<le> 2 then 1 else 0)
        in if \<not> (1 \<le> year \<and> year \<le> 9999)
           then Err (invalid_request ''timestamp is outside RFC3339 year range 0001..=9999'')
           else Ok (year, month, day))))"

definition pad :: "nat \<Rightarrow> int \<Rightarrow> string" where
  "pad w n = dec_pad w (nat n)"

definition show_int :: "int \<Rightarrow> string" where
  "show_int i = (if i < 0 then ''-'' @ dec (nat (- i)) else dec (nat i))"

definition unix_seconds_to_fixed_offset_rfc3339 ::
  "int \<Rightarrow> int \<Rightarrow> (string, core_error) rres" where
  "unix_seconds_to_fixed_offset_rfc3339 seconds offset_seconds =
     (if offset_seconds mod 60 \<noteq> 0 \<or> \<not> (- 86340 \<le> offset_seconds \<and> offset_seconds \<le> 86340)
      then Err (InvalidValue ''utc_offset_seconds'' (Text (show_int offset_seconds))
             ''must be minute-aligned and within -23:59..=+23:59'')
      else rbind (ok_or (invalid_request ''fixed-offset timestamp overflow'')
                    (fit_i64 (seconds + offset_seconds))) (\<lambda>local.
        let days = local div 86400; day_seconds = local mod 86400 in
        rbind (civil_from_days days) (\<lambda>(year, month, day).
        let hour = day_seconds div 3600;
            minute = day_seconds mod 3600 div 60;
            second = day_seconds mod 60;
            sign = (if offset_seconds < 0 then ''-'' else ''+'');
            offset = \<bar>offset_seconds\<bar>;
            offset_hour = offset div 3600;
            offset_minute = offset mod 3600 div 60
        in Ok (pad 4 year @ ''-'' @ pad 2 month @ ''-'' @ pad 2 day @ ''T''
             @ pad 2 hour @ '':'' @ pad 2 minute @ '':'' @ pad 2 second
             @ sign @ pad 2 offset_hour @ '':'' @ pad 2 offset_minute))))"

definition unix_seconds_to_china_rfc3339 :: "int \<Rightarrow> (string, core_error) rres" where
  "unix_seconds_to_china_rfc3339 seconds =
     unix_seconds_to_fixed_offset_rfc3339 seconds (8 * 60 * 60)"

section \<open>Parsing instants\<close>

text \<open>\<open>text.parse::<i64>().ok()\<close> of digits.\<close>

definition parse_i64 :: "string \<Rightarrow> int option" where
  "parse_i64 s = (if s = '''' then None else fit_i64 (int (parse_dec s)))"

definition is_digits :: "string \<Rightarrow> bool" where
  "is_digits s \<longleftrightarrow> s \<noteq> '''' \<and> list_all is_ascii_digit s"

definition is_epoch_seconds :: "string \<Rightarrow> bool" where
  "is_epoch_seconds value \<longleftrightarrow> length value \<in> {10, 11} \<and> list_all is_ascii_digit value"

definition parse_component :: "string \<Rightarrow> nat \<Rightarrow> nat \<Rightarrow> int option" where
  "parse_component bytes start end =
     (if length bytes < end \<or> end < start then None
      else let text = take (end - start) (drop start bytes) in
        if list_all is_ascii_digit text then parse_i64 text else None)"

definition days_in_month :: "int \<Rightarrow> int \<Rightarrow> int" where
  "days_in_month year month =
     (if month \<in> {1, 3, 5, 7, 8, 10, 12} then 31
      else if month \<in> {4, 6, 9, 11} then 30
      else if month = 2 \<and> (year mod 400 = 0 \<or> year mod 4 = 0 \<and> year mod 100 \<noteq> 0) then 29
      else if month = 2 then 28
      else 0)"

definition days_from_civil :: "int \<Rightarrow> int \<Rightarrow> int \<Rightarrow> int option" where
  "days_from_civil year month day = do {
     adjusted_year \<leftarrow> fit_i64 (year - (if month \<le> 2 then 1 else 0));
     let era = adjusted_year div 400;
     let year_of_era = adjusted_year - era * 400;
     let shifted_month = month + (if month > 2 then - 3 else 9);
     let day_of_year = (153 * shifted_month + 2) div 5 + day - 1;
     let day_of_era = year_of_era * 365 + year_of_era div 4 - year_of_era div 100 + day_of_year;
     a \<leftarrow> fit_i64 (era * 146097);
     b \<leftarrow> fit_i64 (a + day_of_era);
     fit_i64 (b - 719468)
   }"

definition fraction_to_nanos :: "string \<Rightarrow> int option" where
  "fraction_to_nanos fraction =
     (if fraction = '''' \<or> length fraction > 9 \<or> \<not> list_all is_ascii_digit fraction then None
      else fit_i128 (int (parse_dec fraction) * 10 ^ (9 - length fraction)))"

definition epoch_with_fraction :: "string \<Rightarrow> string \<Rightarrow> int option" where
  "epoch_with_fraction seconds fraction = do {
     s \<leftarrow> parse_i64 seconds;
     n \<leftarrow> fit_i128 (s * nanos_per_second);
     f \<leftarrow> fraction_to_nanos fraction;
     fit_i128 (n + f)
   }"

text \<open>The fraction after the seconds, then the offset. Index 19 follows an ASCII digit,
  so the slice of the code starts at a character.\<close>

definition parse_fraction :: "string \<Rightarrow> (int \<times> string) option" where
  "parse_fraction suffix =
     (case strip_prefix ''.'' suffix of
        Some fractional \<Rightarrow>
          (let digits = takeWhile is_ascii_digit fractional in
           if digits = '''' then None
           else map_option (\<lambda>n. (n, drop (length digits) fractional)) (fraction_to_nanos digits))
      | None \<Rightarrow> Some (0, suffix))"

definition parse_offset :: "string \<Rightarrow> int option" where
  "parse_offset suffix =
     (if suffix = '''' \<or> suffix = ''Z'' then Some 0
      else if length suffix = 6 \<and> hd suffix \<in> {CHR ''+'', CHR ''-''} \<and> suffix ! 3 = CHR '':''
      then do {
        offset_hour \<leftarrow> parse_component suffix 1 3;
        offset_minute \<leftarrow> parse_component suffix 4 6;
        if offset_hour > 23 \<or> offset_minute > 59 then None
        else let magnitude = offset_hour * 3600 + offset_minute * 60 in
          Some (if hd suffix = CHR ''-'' then - magnitude else magnitude)
      }
      else None)"

definition parse_calendar :: "string \<Rightarrow> int option" where
  "parse_calendar value =
     (if length value < 10 \<or> value ! 4 \<noteq> CHR ''-'' \<or> value ! 7 \<noteq> CHR ''-'' then None
      else do {
        year \<leftarrow> parse_component value 0 4;
        month \<leftarrow> parse_component value 5 7;
        day \<leftarrow> parse_component value 8 10;
        if \<not> (1 \<le> month \<and> month \<le> 12) \<or> \<not> (1 \<le> day \<and> day \<le> days_in_month year month)
        then None
        else do {
          days \<leftarrow> days_from_civil year month day;
          if length value = 10
          then do { s \<leftarrow> fit_i128 (days * 86400); fit_i128 (s * nanos_per_second) }
          else if value ! 10 \<notin> {CHR ''T'', CHR '' ''} \<or> length value < 19 then None
          else do {
            hour \<leftarrow> parse_component value 11 13;
            minute \<leftarrow> parse_component value 14 16;
            second \<leftarrow> parse_component value 17 19;
            if value ! 13 \<noteq> CHR '':'' \<or> value ! 16 \<noteq> CHR '':'' \<or> hour > 23 \<or> minute > 59
               \<or> second > 59
            then None
            else do {
              (fraction_nanos, suffix) \<leftarrow> parse_fraction (drop 19 value);
              offset_seconds \<leftarrow> parse_offset suffix;
              d \<leftarrow> fit_i64 (days * 86400);
              h \<leftarrow> fit_i64 (d + hour * 3600);
              m \<leftarrow> fit_i64 (h + minute * 60);
              s \<leftarrow> fit_i64 (m + second);
              seconds \<leftarrow> fit_i64 (s - offset_seconds);
              nanos \<leftarrow> fit_i128 (seconds * nanos_per_second);
              fit_i128 (nanos + fraction_nanos)
            }
          }
        }
      })"

definition parse_evidence_time :: "string \<Rightarrow> int option" where
  "parse_evidence_time value =
     (case strip_prefix ''unix-ms:'' value of
        Some millis \<Rightarrow>
          if \<not> is_digits millis then None
          else do { m \<leftarrow> parse_i64 millis; fit_i128 (m * nanos_per_millisecond) }
      | None \<Rightarrow>
          (case split_once (CHR ''.'') value of
             Some (seconds, fraction) \<Rightarrow>
               if is_epoch_seconds seconds \<and> is_digits fraction
               then epoch_with_fraction seconds fraction else parse_calendar value
           | None \<Rightarrow>
               if is_epoch_seconds value
               then do { s \<leftarrow> parse_i64 value; fit_i128 (s * nanos_per_second) }
               else parse_calendar value))"

text \<open>A byte that starts a character; \<open>get(19..)\<close> is \<open>None\<close> elsewhere.\<close>

definition is_char_boundary :: "string \<Rightarrow> nat \<Rightarrow> bool" where
  "is_char_boundary s i \<longleftrightarrow> i = length s
     \<or> (i < length s \<and> \<not> (128 \<le> byte_of (s ! i) \<and> byte_of (s ! i) \<le> (191 :: nat)))"

definition is_zone :: "string \<Rightarrow> bool" where
  "is_zone suffix \<longleftrightarrow> suffix = ''Z''
     \<or> (length suffix = 6 \<and> hd suffix \<in> {CHR ''+'', CHR ''-''} \<and> suffix ! 3 = CHR '':'')"

definition has_zone_suffix :: "string \<Rightarrow> bool" where
  "has_zone_suffix value =
     (if length value < 19 \<or> \<not> is_char_boundary value 19 then False
      else case strip_prefix ''.'' (drop 19 value) of
        Some fractional \<Rightarrow>
          (let boundary = length (takeWhile is_ascii_digit fractional) in
           if boundary = 0 then False else is_zone (drop boundary fractional))
      | None \<Rightarrow> is_zone (drop 19 value))"

definition is_unambiguous_instant :: "string \<Rightarrow> bool" where
  "is_unambiguous_instant value =
     (case strip_prefix ''unix-ms:'' value of
        Some millis \<Rightarrow> is_digits millis
      | None \<Rightarrow>
          if is_epoch_seconds value then True
          else (case split_once (CHR ''.'') value of
                  Some (seconds, fraction) \<Rightarrow>
                    seconds \<noteq> '''' \<and> is_epoch_seconds seconds \<and> is_digits fraction
                | None \<Rightarrow> False)
               \<or> has_zone_suffix value)"

datatype evidence_timestamp = EvidenceTimestamp (unix_nanos: int)

definition evidence_timestamp_parse :: "string \<Rightarrow> (evidence_timestamp, core_error) rres" where
  "evidence_timestamp_parse value =
     ok_or (InvalidRequest (Debug ''invalid evidence timestamp '' value))
       (map_option EvidenceTimestamp (parse_evidence_time value))"

definition parse_instant :: "string \<Rightarrow> (evidence_timestamp, core_error) rres" where
  "parse_instant value =
     rbind (evidence_timestamp_parse value) (\<lambda>parsed.
       if is_unambiguous_instant value then Ok parsed
       else Err (InvalidRequest
              (Debug ''evidence timestamp is not an unambiguous instant '' value)))"

text \<open>A \<open>Duration\<close> as its nanoseconds: whole seconds in a \<open>u64\<close> and the rest below one
  second.\<close>

definition duration_since :: "evidence_timestamp \<Rightarrow> evidence_timestamp \<Rightarrow> nat option" where
  "duration_since t earlier = do {
     nanos \<leftarrow> fit_i128 (unix_nanos t - unix_nanos earlier);
     if nanos < 0 then None
     else let seconds = nat nanos div 1000000000; subsec_nanos = nat nanos mod 1000000000 in
       if seconds < 2 ^ 64 then Some (seconds * 1000000000 + subsec_nanos) else None
   }"

section \<open>The calendar\<close>

definition valid_date :: "int \<times> int \<times> int \<Rightarrow> bool" where
  "valid_date = (\<lambda>(year, month, day).
     1 \<le> month \<and> month \<le> 12 \<and> 1 \<le> day \<and> day \<le> days_in_month year month)"

definition next_day :: "int \<times> int \<times> int \<Rightarrow> int \<times> int \<times> int" where
  "next_day = (\<lambda>(year, month, day).
     if day < days_in_month year month then (year, month, day + 1)
     else if month < 12 then (year, month + 1, 1)
     else (year + 1, 1, 1))"

text \<open>The day number without the era arithmetic of the code, counted from 1970-01-01.
  Years begin in March, month 0 is March.\<close>

definition march_day :: "int \<Rightarrow> int \<Rightarrow> int" where
  "march_day s day = (153 * s + 2) div 5 + day - 1"

definition civil_days :: "int \<times> int \<times> int \<Rightarrow> int" where
  "civil_days = (\<lambda>(year, month, day).
     (let y = year - (if month \<le> 2 then 1 else 0);
          s = month + (if month > 2 then - 3 else 9)
      in 365 * y + y div 4 - y div 100 + y div 400 + march_day s day - 719468))"

lemma div_pred:
  fixes y k :: int
  assumes "0 < k"
  shows "y div k = (y - 1) div k + (if y mod k = 0 then 1 else 0)"
proof (cases "y mod k = 0")
  case True
  then have "k * (y div k) = y" using mult_div_mod_eq [of k y] by simp
  then have "y - 1 = k * (y div k - 1) + (k - 1)" by (simp only: right_diff_distrib)
  then have "(y - 1) div k = y div k - 1"
    using assms by (intro int_div_pos_eq [where r = "k - 1"]) auto
  with True show ?thesis by simp
next
  case False
  then have "0 < y mod k" using assms pos_mod_sign [of k y] by linarith
  moreover have "y mod k < k" using assms by simp
  moreover have "y - 1 = k * (y div k) + (y mod k - 1)" using mult_div_mod_eq [of k y] by simp
  ultimately have "(y - 1) div k = y div k"
    by (intro int_div_pos_eq [where r = "y mod k - 1"]) auto
  with False show ?thesis by simp
qed

lemma month_cases:
  fixes m :: int
  assumes "1 \<le> m" "m \<le> 12"
  obtains "m = 1" | "m = 2" | "m = 3" | "m = 4" | "m = 5" | "m = 6"
    | "m = 7" | "m = 8" | "m = 9" | "m = 10" | "m = 11" | "m = 12"
proof -
  have "m = 1 \<or> m = 2 \<or> m = 3 \<or> m = 4 \<or> m = 5 \<or> m = 6 \<or> m = 7 \<or> m = 8 \<or> m = 9
      \<or> m = 10 \<or> m = 11 \<or> m = 12"
    using assms by presburger
  then show thesis using that by blast
qed

lemma leap_mod:
  fixes y :: int
  shows "y mod 400 = 0 \<Longrightarrow> y mod 100 = 0" "y mod 100 = 0 \<Longrightarrow> y mod 4 = 0"
  by presburger+

lemma leap_count:
  "a = a' + (if p then 1 else 0) \<Longrightarrow> b = b' + (if q then 1 else 0)
    \<Longrightarrow> c = c' + (if r then 1 else 0) \<Longrightarrow> (r \<longrightarrow> q) \<Longrightarrow> (q \<longrightarrow> p)
    \<Longrightarrow> a - b + c = a' - b' + c' + (if r \<or> p \<and> \<not> q then 1 else (0 :: int))"
  by auto

text \<open>The day count steps by one from every date to the next.\<close>

lemma civil_days_next:
  assumes "valid_date (y, m, d)"
  shows "civil_days (next_day (y, m, d)) = civil_days (y, m, d) + 1"
proof -
  have m: "1 \<le> m" "m \<le> 12" and d: "1 \<le> d" "d \<le> days_in_month y m"
    using assms by (auto simp: valid_date_def)
  note p = div_pred [of 4 y] div_pred [of 100 y] div_pred [of 400 y]
  show ?thesis
    using m(1,2)
  proof (cases rule: month_cases)
    case 2
    define L where "L \<longleftrightarrow> y mod 400 = 0 \<or> y mod 4 = 0 \<and> y mod 100 \<noteq> 0"
    have leap: "y div 4 - y div 100 + y div 400
        = (y - 1) div 4 - (y - 1) div 100 + (y - 1) div 400 + (if L then 1 else 0)"
      unfolding L_def using leap_mod [of y] by (intro leap_count p) simp_all
    show ?thesis using d
      by (simp add: 2 civil_days_def next_day_def march_day_def days_in_month_def Let_def
          flip: L_def) (use leap in \<open>auto split: if_splits\<close>)
  qed (use d in \<open>auto simp: civil_days_def next_day_def march_day_def days_in_month_def Let_def\<close>)
qed

lemma valid_date_next: "valid_date p \<Longrightarrow> valid_date (next_day p)"
proof (cases p)
  fix y m d assume p: "p = (y, m, d)" and v: "valid_date p"
  then have "1 \<le> m" "m \<le> 12" by (auto simp: valid_date_def)
  then show ?thesis
    by (cases rule: month_cases)
       (use p v in \<open>auto simp: valid_date_def next_day_def days_in_month_def\<close>)
qed

lemma civil_days_epoch: "civil_days (1970, 1, 1) = 0"
  by (simp add: civil_days_def march_day_def Let_def)

text \<open>Every day on or after 0000-03-01 has a date.\<close>

lemma civil_days_onto:
  "\<exists>p. valid_date p \<and> 0 \<le> fst p \<and> civil_days p = int n - 719468"
proof (induction n)
  case 0
  have "civil_days (0, 3, 1) = - 719468"
    by (simp add: civil_days_def march_day_def Let_def)
  then show ?case
    by (intro exI [of _ "(0, 3, 1)"]) (simp add: valid_date_def days_in_month_def)
next
  case (Suc n)
  then obtain y m d where p: "valid_date (y, m, d)" "0 \<le> y" "civil_days (y, m, d) = int n - 719468"
    by (metis fst_conv prod_cases3)
  then have "civil_days (next_day (y, m, d)) = int (Suc n) - 719468"
    by (simp add: civil_days_next)
  moreover have "0 \<le> fst (next_day (y, m, d))" using p(2) by (simp add: next_day_def)
  ultimately show ?case using valid_date_next [OF p(1)] by blast
qed

text \<open>The arithmetic of \<open>civil_from_days\<close> on a day of a 400-year era, its year
  split into centuries, four-year cycles and years.\<close>

lemma era_year:
  fixes a b c doy :: int
  assumes c: "0 \<le> c" "c \<le> 3" and b: "0 \<le> b" "b \<le> 24" and a: "0 \<le> a" "a \<le> 3"
    and doy: "0 \<le> doy" "doy \<le> 364 \<or> doy = 365 \<and> a = 3 \<and> (b < 24 \<or> c = 3)"
  defines "doe \<equiv> 36524 * c + 1461 * b + 365 * a + doy"
  shows "(doe - doe div 1460 + doe div 36524 - doe div 146096) div 365 = 100 * c + 4 * b + a"
    and "0 \<le> doe" "doe < 146097"
proof -
  show bounds: "0 \<le> doe" "doe < 146097" using assms by (auto simp: doe_def)
  define e where "e = (if 1460 \<le> 24 * c + b + 365 * a + doy then 1 else (0::int))"
  have d1: "doe div 1460 = 25 * c + b + e"
    using assms by (intro int_div_pos_eq [where r = "24 * c + b + 365 * a + doy - 1460 * e"])
      (auto simp: e_def doe_def)
  have d2: "doe div 36524 - doe div 146096 = c"
  proof (cases "doe = 146096")
    case True
    then have "c = 3" using assms by (auto simp: doe_def)
    with True show ?thesis by simp
  next
    case False
    have "doe div 146096 = 0" using False bounds by (intro div_pos_pos_trivial) auto
    moreover have "doe div 36524 = c"
      using False assms by (intro int_div_pos_eq [where r = "1461 * b + 365 * a + doy"])
        (auto simp: doe_def)
    ultimately show ?thesis by simp
  qed
  have "0 \<le> doy - e" "doy - e < 365" using assms by (auto simp: e_def)
  moreover have "doe - doe div 1460 + doe div 36524 - doe div 146096
      = 365 * (100 * c + 4 * b + a) + (doy - e)"
    using d1 d2 by (simp add: doe_def)
  ultimately show "(doe - doe div 1460 + doe div 36524 - doe div 146096) div 365 = 100 * c + 4 * b + a"
    by (intro int_div_pos_eq [where r = "doy - e"]) auto
qed

lemma march_day_inverse:
  fixes s d :: int
  assumes "0 \<le> s" "s \<le> 11" "1 \<le> d" "d \<le> (if s \<in> {1, 3, 6, 8} then 30 else if s = 11 then 29 else 31)"
  shows "(5 * march_day s d + 2) div 153 = s"
    "0 \<le> march_day s d" "march_day s d \<le> 365" "march_day s d = 365 \<longleftrightarrow> s = 11 \<and> d = 29"
proof -
  have "s = 0 \<or> s = 1 \<or> s = 2 \<or> s = 3 \<or> s = 4 \<or> s = 5 \<or> s = 6 \<or> s = 7 \<or> s = 8 \<or> s = 9
    \<or> s = 10 \<or> s = 11" using assms(1,2) by presburger
  then show "(5 * march_day s d + 2) div 153 = s"
    "0 \<le> march_day s d" "march_day s d \<le> 365" "march_day s d = 365 \<longleftrightarrow> s = 11 \<and> d = 29"
    using assms(3,4)
    by (elim disjE; simp add: march_day_def)+
qed


lemma fit_i64_small: "- 4000000000000000000 \<le> x \<Longrightarrow> x \<le> 9000000000000000000 \<Longrightarrow> fit_i64 x = Some x"
  by (simp add: fit_i64_def)

lemma fit_i64_bound: "fit_i64 x = Some y \<Longrightarrow> x = y \<and> - (2 ^ 63) \<le> y \<and> y < 2 ^ 63"
  by (simp add: fit_i64_def split: if_splits)

lemma fit_i128_small:
  "- (2 ^ 100) \<le> x \<Longrightarrow> x \<le> 2 ^ 100 \<Longrightarrow> fit_i128 x = Some x"
  by (simp add: fit_i128_def)

lemma div_shift:
  fixes a q :: int
  shows "(a - q * 400) div 4 = a div 4 - 100 * q" "(a - q * 400) div 100 = a div 100 - 4 * q"
proof -
  have "a - q * 400 = a + (- 100 * q) * 4" "a - q * 400 = a + (- 4 * q) * 100" by simp_all
  then show "(a - q * 400) div 4 = a div 4 - 100 * q" "(a - q * 400) div 100 = a div 100 - 4 * q"
    by (metis div_mult_self1 add.commute diff_conv_add_uminus mult_minus_left zero_neq_numeral)+
qed

lemma civil_days_march:
  "civil_days (y, m, d) = 365 * (y - (if m \<le> 2 then 1 else 0))
     + (y - (if m \<le> 2 then 1 else 0)) div 4 - (y - (if m \<le> 2 then 1 else 0)) div 100
     + (y - (if m \<le> 2 then 1 else 0)) div 400 + march_day (m + (if m > 2 then - 3 else 9)) d - 719468"
  by (simp only: civil_days_def Let_def prod.case)

lemma mod_eq_0_top: "0 < x \<Longrightarrow> x \<le> k \<Longrightarrow> x mod k = 0 \<longleftrightarrow> x = k" for x k :: int
  by (cases "x = k") auto

lemma valid_date_march:
  assumes "valid_date (y, m, d)"
  defines "s \<equiv> m + (if m > 2 then - 3 else 9)"
  shows "0 \<le> s" "s \<le> 11" "1 \<le> d"
    "d \<le> (if s \<in> {1, 3, 6, 8} then 30 else if s = 11 then 29 else 31)"
    "s = 11 \<Longrightarrow> d = 29 \<Longrightarrow> y mod 400 = 0 \<or> y mod 4 = 0 \<and> y mod 100 \<noteq> 0"
    "m = s + (if s < 10 then 3 else - 9)"
proof -
  have m: "1 \<le> m" "m \<le> 12" and d: "1 \<le> d" "d \<le> days_in_month y m"
    using assms by (auto simp: valid_date_def)
  show "0 \<le> s" "s \<le> 11" "1 \<le> d" "m = s + (if s < 10 then 3 else - 9)"
    using m d by (auto simp: s_def)
  show "d \<le> (if s \<in> {1, 3, 6, 8} then 30 else if s = 11 then 29 else 31)"
    using m d by (cases rule: month_cases) (auto simp: s_def days_in_month_def split: if_splits)
  show "s = 11 \<Longrightarrow> d = 29 \<Longrightarrow> y mod 400 = 0 \<or> y mod 4 = 0 \<and> y mod 100 \<noteq> 0"
    using m d by (auto simp: s_def days_in_month_def split: if_splits)
qed

lemma days_from_civil_eq:
  assumes v: "valid_date (y, m, d)" and y: "0 \<le> y" "y \<le> 9999"
  shows "days_from_civil y m d = Some (civil_days (y, m, d))"
proof -
  define a where "a = y - (if m \<le> 2 then 1 else 0)"
  define q where "q = a div 400"
  define s where "s = m + (if m > 2 then - 3 else 9)"
  define r where "r = a - q * 400"
  define doe where "doe = r * 365 + r div 4 - r div 100 + ((153 * s + 2) div 5 + d - 1)"
  note vm = valid_date_march [OF v, folded s_def]
  have a: "- 1 \<le> a" "a \<le> 9999" using y by (auto simp: a_def)
  have q: "- 1 \<le> q" "q \<le> 24" using a unfolding q_def by linarith+
  have r: "0 \<le> r" "r < 400" unfolding r_def q_def by linarith+
  have "0 \<le> march_day s d" "march_day s d \<le> 365"
    using march_day_inverse(2,3) [OF vm(1-4)] by auto
  then have doe: "0 \<le> doe" "doe \<le> 200000"
    using r unfolding doe_def march_day_def by linarith+
  have fa: "fit_i64 a = Some a" using a by (intro fit_i64_small) auto
  have "days_from_civil y m d
      = fit_i64 (q * 146097) \<bind> (\<lambda>x. fit_i64 (x + doe) \<bind> (\<lambda>w. fit_i64 (w - 719468)))"
    by (simp only: days_from_civil_def Let_def a_def [symmetric] fa Option.bind.bind_lunit
        q_def [symmetric] r_def [symmetric] s_def [symmetric] doe_def [symmetric])
  also have "\<dots> = Some (q * 146097 + doe - 719468)"
    using q doe by (simp add: fit_i64_small)
  finally have "days_from_civil y m d = Some (q * 146097 + doe - 719468)" .
  moreover have "q * 146097 + doe - 719468 = civil_days (y, m, d)"
  proof -
    have "r div 4 = a div 4 - 100 * q" "r div 100 = a div 100 - 4 * q"
      unfolding r_def by (rule div_shift)+
    then show ?thesis
      by (simp only: civil_days_march a_def [symmetric] s_def [symmetric] q_def [symmetric]
          march_day_def doe_def) (simp add: r_def)
  qed
  ultimately show ?thesis by simp
qed

text \<open>The fields \<open>civil_from_days\<close> computes from a date's day number are the date's.\<close>

lemma civil_fields:
  assumes v: "valid_date (y, m, d)"
  defines "a \<equiv> y - (if m \<le> 2 then 1 else 0)" and "z \<equiv> civil_days (y, m, d) + 719468"
  assumes a0: "0 \<le> a"
  shows "0 \<le> z" "z div 146097 = a div 400"
    "(let doe = z - a div 400 * 146097 in
       (doe - doe div 1460 + doe div 36524 - doe div 146096) div 365) = a mod 400"
    "(let r = a mod 400 in z - a div 400 * 146097 - (365 * r + r div 4 - r div 100))
       = march_day (m + (if m > 2 then - 3 else 9)) d"
proof -
  define s where "s = m + (if m > 2 then - 3 else 9)"
  note vm = valid_date_march [OF v, folded s_def]
  note md = march_day_inverse [OF vm(1-4)]
  define q r where "q = a div 400" and "r = a mod 400"
  define C B A where "C = r div 100" and "B = r mod 100 div 4" and "A = r mod 4"
  have ar: "a = 400 * q + r" "0 \<le> r" "r < 400" by (simp_all add: q_def r_def)
  have r: "r = 100 * C + 4 * B + A"
  proof -
    have "r mod 100 mod 4 = r mod 4" by (simp add: mod_mod_cancel)
    then show ?thesis
      using div_mult_mod_eq [of r 100] div_mult_mod_eq [of "r mod 100" 4]
      unfolding C_def B_def A_def by linarith
  qed
  have bounds: "0 \<le> C" "C \<le> 3" "0 \<le> B" "B \<le> 24" "0 \<le> A" "A \<le> 3"
    using ar unfolding C_def B_def A_def by linarith+
  have leap: "march_day s d \<le> 364 \<or> march_day s d = 365 \<and> A = 3 \<and> (B < 24 \<or> C = 3)"
  proof (cases "march_day s d = 365")
    case True
    then have sd: "s = 11" "d = 29" using md(4) by auto
    then have y: "y = a + 1" using vm(6) by (simp add: a_def)
    from vm(5) sd have "y mod 400 = 0 \<or> y mod 4 = 0 \<and> y mod 100 \<noteq> 0" by simp
    then have "(400 * q + (100 * C + 4 * B + A) + 1) mod 400 = 0
      \<or> (400 * q + (100 * C + 4 * B + A) + 1) mod 4 = 0 \<and> (400 * q + (100 * C + 4 * B + A) + 1) mod 100 \<noteq> 0"
      by (simp only: y ar(1) r)
    moreover have "(400 * q + (100 * C + 4 * B + A) + 1) mod 4 = (A + 1) mod 4"
      "(400 * q + (100 * C + 4 * B + A) + 1) mod 100 = (4 * B + A + 1) mod 100"
      "(400 * q + (100 * C + 4 * B + A) + 1) mod 400 = (100 * C + 4 * B + A + 1) mod 400"
      using mod_mult_self2 [of "A + 1" 4 "100 * q + 25 * C + B"]
        mod_mult_self2 [of "4 * B + A + 1" 100 "4 * q + C"]
        mod_mult_self2 [of "100 * C + 4 * B + A + 1" 400 q]
      by (simp_all add: algebra_simps)
    moreover have "(A + 1) mod 4 = 0 \<longleftrightarrow> A = 3" "(4 * B + A + 1) mod 100 = 0 \<longleftrightarrow> B = 24 \<and> A = 3"
      "(100 * C + 4 * B + A + 1) mod 400 = 0 \<longleftrightarrow> C = 3 \<and> B = 24 \<and> A = 3"
      using bounds by (subst mod_eq_0_top; linarith)+
    ultimately have "A = 3 \<and> (B < 24 \<or> C = 3)" using bounds by auto
    with True show ?thesis by simp
  qed (use md(3) in linarith)
  define doe where "doe = 36524 * C + 1461 * B + 365 * A + march_day s d"
  have era: "(doe - doe div 1460 + doe div 36524 - doe div 146096) div 365 = r"
    "0 \<le> doe" "doe < 146097"
    using era_year [OF bounds md(2) leap] by (simp_all add: doe_def r)
  have divs: "a div 4 = 100 * q + 25 * C + B" "a div 100 = 4 * q + C"
    "r div 4 = 25 * C + B" "r div 100 = C"
    using bounds by (auto simp: ar(1) r intro!: int_div_pos_eq [where r = A]
      int_div_pos_eq [where r = "4 * B + A"])
  have z: "z = q * 146097 + doe"
    using divs by (simp only: z_def civil_days_march a_def [symmetric] s_def [symmetric]
        q_def [symmetric] doe_def) (simp add: ar(1) r)
  have q0: "0 \<le> q" using a0 by (simp add: q_def)
  show "0 \<le> z" using z q0 era by simp
  show "z div 146097 = a div 400"
    using z era by (intro int_div_pos_eq [where r = doe]) (auto simp: q_def)
  have doe: "z - a div 400 * 146097 = doe" using z by (simp add: q_def)
  show "(let doe = z - a div 400 * 146097 in
       (doe - doe div 1460 + doe div 36524 - doe div 146096) div 365) = a mod 400"
    using era by (simp add: doe Let_def r_def)
  show "(let r = a mod 400 in z - a div 400 * 146097 - (365 * r + r div 4 - r div 100))
       = march_day (m + (if m > 2 then - 3 else 9)) d"
    using divs by (simp add: doe Let_def flip: r_def s_def) (simp add: doe_def r)
qed

section \<open>\<open>civil_from_days\<close> is the inverse of the day count\<close>

text \<open>The fields before the year is checked.\<close>

definition civil_compute :: "int \<Rightarrow> int \<times> int \<times> int" where
  "civil_compute z =
     (let doe = z - era_of z * 146097; yoe = year_of_era doe in
      case month_and_day (day_of_year doe yoe) of (month, day) \<Rightarrow>
        (yoe + era_of z * 400 + (if month \<le> 2 then 1 else 0), month, day))"

lemma civil_compute_date:
  assumes v: "valid_date (y, m, d)" and a0: "0 \<le> y - (if m \<le> 2 then 1 else 0)"
  shows "civil_compute (civil_days (y, m, d) + 719468) = (y, m, d)"
proof -
  define a where "a = y - (if m \<le> 2 then 1 else 0)"
  define z where "z = civil_days (y, m, d) + 719468"
  define s where "s = m + (if m > 2 then - 3 else 9)"
  note f = civil_fields [OF v a0, folded a_def s_def z_def]
  note vm = valid_date_march [OF v, folded s_def]
  have era: "era_of z = a div 400" using f(1,2) by (simp add: era_of_def)
  have yoe: "year_of_era (z - a div 400 * 146097) = a mod 400"
    using f(3) by (simp only: year_of_era_def Let_def)
  have doy: "day_of_year (z - a div 400 * 146097) (a mod 400) = march_day s d"
    using f(4) by (simp only: day_of_year_def Let_def)
  have md: "month_and_day (march_day s d) = (m, d)"
    using vm(6) march_day_inverse(1) [OF vm(1-4)]
    by (simp only: month_and_day_def Let_def) (simp add: march_day_def)
  have "civil_compute z = (a mod 400 + a div 400 * 400 + (if m \<le> 2 then 1 else 0), m, d)"
    by (simp only: civil_compute_def era yoe doy md Let_def prod.case)
  then show ?thesis by (simp add: a_def z_def)
qed

lemma year_of_era_late:
  assumes "146096 \<le> doe" "doe \<le> 292192" shows "year_of_era doe \<le> 799"
proof -
  have "doe - doe div 1460 + doe div 36524 - doe div 146096 < 292000"
    using assms by (cases "doe < 292000") linarith+
  then show ?thesis unfolding year_of_era_def by linarith
qed

lemma civil_compute_early:
  assumes "z < 0" shows "fst (civil_compute z) \<le> 0"
proof -
  define doe where "doe = z - era_of z * 146097"
  have era: "era_of z = (z - 146096) div 146097" using assms by (simp add: era_of_def)
  have doe: "146096 \<le> doe" "doe \<le> 292192" unfolding doe_def era by linarith+
  have res: "fst (civil_compute z) \<le> year_of_era doe + era_of z * 400 + 1"
    by (simp add: civil_compute_def Let_def split: prod.split flip: doe_def)
  show ?thesis
  proof (cases "era_of z \<le> - 2")
    case True
    then show ?thesis using res year_of_era_late [OF doe] by linarith
  next
    case False
    then have "z = - 1" "era_of z = - 1" using assms unfolding era by linarith+
    then show ?thesis using res by (simp add: year_of_era_def doe_def)
  qed
qed

lemma civil_from_days_computes:
  assumes "civil_from_days n = Ok (y, m, d)"
  shows "civil_compute (n + 719468) = (y, m, d)" "1 \<le> y" "y \<le> 9999"
proof -
  define doe where "doe = n + 719468 - era_of (n + 719468) * 146097"
  obtain M D where md: "month_and_day (day_of_year doe (year_of_era doe)) = (M, D)" by fastforce
  show "civil_compute (n + 719468) = (y, m, d)" "1 \<le> y" "y \<le> 9999"
    using assms
    by (auto simp: civil_from_days_def civil_compute_def res_simps Let_def md
        simp flip: doe_def split: if_splits dest!: fit_i64_bound)
qed

lemma year_of_era_bounds:
  assumes "0 \<le> doe" "doe < 146097" shows "- 1 \<le> year_of_era doe" "year_of_era doe \<le> 500"
  using assms unfolding year_of_era_def by linarith+

lemma civil_from_days_accepts:
  assumes c: "civil_compute (n + 719468) = (y, m, d)" and y: "1 \<le> y" "y \<le> 9999"
    and n: "- 719468 \<le> n" "n \<le> 100000000"
  shows "civil_from_days n = Ok (y, m, d)"
proof -
  define z where "z = n + 719468"
  define doe where "doe = z - era_of z * 146097"
  have z: "0 \<le> z" "z \<le> 200000000" using n by (auto simp: z_def)
  have e: "0 \<le> era_of z" "era_of z \<le> 200000000" using z unfolding era_of_def by auto
  have doe: "0 \<le> doe" "doe < 146097" using z unfolding doe_def era_of_def by auto
  have fz: "fit_i64 z = Some z" using z by (simp add: fit_i64_small)
  have fe: "fit_i64 (era_of z * 400) = Some (era_of z * 400)" using e by (simp add: fit_i64_small)
  have fy: "fit_i64 (year_of_era doe + era_of z * 400) = Some (year_of_era doe + era_of z * 400)"
    using e year_of_era_bounds [OF doe] by (simp add: fit_i64_small)
  obtain M D where md: "month_and_day (day_of_year doe (year_of_era doe)) = (M, D)" by fastforce
  show ?thesis
    using c y
    by (auto simp: civil_from_days_def civil_compute_def fz fe fy ok_or_def Let_def md
        simp flip: z_def doe_def)
qed

lemma between_days:
  "\<lbrakk>0 \<le> b; b \<le> 9999; 0 \<le> u \<and> u \<le> b; 0 \<le> v \<and> v \<le> b; 0 \<le> w \<and> w \<le> b; 0 \<le> x; x \<le> 365\<rbrakk>
    \<Longrightarrow> - 719468 \<le> 365 * b + u - v + w + x - 719468 \<and> 365 * b + u - v + w + x - 719468 \<le> (100000000 :: int)"
  by simp

lemma civil_from_days_eq_Ok:
  "civil_from_days n = Ok (y, m, d) \<longleftrightarrow>
     valid_date (y, m, d) \<and> 1 \<le> y \<and> y \<le> 9999 \<and> civil_days (y, m, d) = n"
proof
  assume ok: "civil_from_days n = Ok (y, m, d)"
  note c = civil_from_days_computes [OF ok]
  have "0 \<le> n + 719468"
  proof (rule ccontr)
    assume "\<not> 0 \<le> n + 719468"
    then have "fst (civil_compute (n + 719468)) \<le> 0" by (intro civil_compute_early) simp
    with c show False by simp
  qed
  then obtain y' m' d' where p: "valid_date (y', m', d')" "0 \<le> y'" "civil_days (y', m', d') = n"
    using civil_days_onto [of "nat (n + 719468)"] by (auto simp: split_paired_Ex)
  have "0 \<le> y' - (if m' \<le> 2 then 1 else 0)"
  proof (rule ccontr)
    assume "\<not> ?thesis"
    then have "y' = 0" "m' \<le> 2" using p(2) by (auto split: if_splits)
    with p have "valid_date (0, m', d')" "civil_days (0, m', d') = n" by auto
    have "m' + (if m' > 2 then - 3 else 9) = m' + 9" using \<open>m' \<le> 2\<close> by simp
    note shifted = valid_date_march [OF \<open>valid_date (0, m', d')\<close>, unfolded this]
    have "march_day (m' + 9) d' \<le> 365" by (rule march_day_inverse(3) [OF shifted(1-4)])
    then have "n < - 719468"
      using \<open>m' \<le> 2\<close> \<open>civil_days (0, m', d') = n\<close> by (simp add: civil_days_march)
    then show False using \<open>0 \<le> n + 719468\<close> by simp
  qed
  with p have "civil_compute (n + 719468) = (y', m', d')"
    using civil_compute_date by blast
  with c p show "valid_date (y, m, d) \<and> 1 \<le> y \<and> y \<le> 9999 \<and> civil_days (y, m, d) = n" by simp
next
  assume a: "valid_date (y, m, d) \<and> 1 \<le> y \<and> y \<le> 9999 \<and> civil_days (y, m, d) = n"
  have small: "0 \<le> y - (if m \<le> 2 then 1 else 0)" using a by simp
  note vm = valid_date_march [of y m d]
  have md: "0 \<le> march_day (m + (if m > 2 then - 3 else 9)) d"
    "march_day (m + (if m > 2 then - 3 else 9)) d \<le> 365"
    using march_day_inverse(2,3) vm a by metis+
  define b where "b = y - (if m \<le> 2 then 1 else 0)"
  have b: "0 \<le> b" "b \<le> 9999" using a by (auto simp: b_def)
  have "n = 365 * b + b div 4 - b div 100 + b div 400 + march_day (m + (if m > 2 then - 3 else 9)) d - 719468"
    using a by (simp only: civil_days_march b_def)
  moreover have "0 \<le> b div 4 \<and> b div 4 \<le> b" using b by linarith
  moreover have "0 \<le> b div 100 \<and> b div 100 \<le> b" using b by linarith
  moreover have "0 \<le> b div 400 \<and> b div 400 \<le> b" using b by linarith
  ultimately have "- 719468 \<le> n" "n \<le> 100000000"
    using between_days [OF b _ _ _ md, of "b div 4" "b div 100" "b div 400"] by simp_all
  then show "civil_from_days n = Ok (y, m, d)"
    using a small civil_compute_date by (intro civil_from_days_accepts) auto
qed

section \<open>What the printer writes the parser reads\<close>

lemma digit_not:
  "is_ascii_digit c \<Longrightarrow> c \<noteq> CHR ''.'' \<and> c \<noteq> CHR ''u'' \<and> c \<noteq> CHR ''-'' \<and> c \<noteq> CHR ''+''
     \<and> c \<noteq> CHR '':'' \<and> c \<noteq> CHR ''Z'' \<and> c \<noteq> CHR ''T''"
  by (auto simp: is_ascii_digit_def)

lemma pad2:
  assumes "0 \<le> n" "n < 100"
  obtains a b where "pad 2 n = [a, b]" "is_ascii_digit a" "is_ascii_digit b"
    "int (parse_dec [a, b]) = n"
proof -
  have len: "length (pad 2 n) = 2" using assms by (simp add: pad_def length_dec_pad)
  then obtain a b where ab: "pad 2 n = [a, b]"
    by (auto simp: numeral_2_eq_2 length_Suc_conv)
  moreover have "list_all is_ascii_digit (pad 2 n)" by (simp add: pad_def dec_pad_digits)
  moreover have "int (parse_dec (pad 2 n)) = n" using assms by (simp add: pad_def)
  ultimately show thesis using that by simp
qed

lemma pad4:
  assumes "0 \<le> n" "n < 10000"
  obtains a b c d where "pad 4 n = [a, b, c, d]" "is_ascii_digit a" "is_ascii_digit b"
    "is_ascii_digit c" "is_ascii_digit d" "int (parse_dec [a, b, c, d]) = n"
proof -
  have len: "length (pad 4 n) = 4" using assms by (simp add: pad_def length_dec_pad)
  then obtain a b c d where ab: "pad 4 n = [a, b, c, d]"
    by (auto simp: numeral_eq_Suc length_Suc_conv)
  moreover have "list_all is_ascii_digit (pad 4 n)" by (simp add: pad_def dec_pad_digits)
  moreover have "int (parse_dec (pad 4 n)) = n" using assms by (simp add: pad_def)
  ultimately show thesis using that by simp
qed

lemma parse_i64_digits: "int (parse_dec (c # s)) = n \<Longrightarrow> n < 10000 \<Longrightarrow> parse_i64 (c # s) = Some n"
  by (auto simp: parse_i64_def intro!: fit_i64_small)

text \<open>A calendar text of printed components, its offset made of a sign and two numbers.\<close>

definition rfc3339_text ::
  "int \<Rightarrow> int \<Rightarrow> int \<Rightarrow> int \<Rightarrow> int \<Rightarrow> int \<Rightarrow> string \<Rightarrow> int \<Rightarrow> int \<Rightarrow> string" where
  "rfc3339_text y m d h mi s sign oh om =
     pad 4 y @ ''-'' @ pad 2 m @ ''-'' @ pad 2 d @ ''T''
       @ pad 2 h @ '':'' @ pad 2 mi @ '':'' @ pad 2 s @ sign @ pad 2 oh @ '':'' @ pad 2 om"

lemma parse_rfc3339_text:
  assumes date: "valid_date (y, m, d)" and y: "0 \<le> y" "y \<le> 9999"
    and time: "0 \<le> h" "h \<le> 23" "0 \<le> mi" "mi \<le> 59" "0 \<le> s" "s \<le> 59"
    and offset: "0 \<le> oh" "oh \<le> 23" "0 \<le> om" "om \<le> 59"
    and sign: "sign = [c]" "c = CHR ''+'' \<or> c = CHR ''-''"
    and bound: "\<bar>civil_days (y, m, d)\<bar> \<le> 4000000"
  defines "tx \<equiv> rfc3339_text y m d h mi s sign oh om"
    and "seconds \<equiv> civil_days (y, m, d) * 86400 + h * 3600 + mi * 60 + s
           - (if c = CHR ''-'' then - (oh * 3600 + om * 60) else oh * 3600 + om * 60)"
  shows "parse_evidence_time tx = Some (seconds * 1000000000)"
    and "is_unambiguous_instant tx"
proof -
  have m: "1 \<le> m" "m \<le> 12" "1 \<le> d" "d \<le> days_in_month y m"
    using date by (auto simp: valid_date_def)
  have d31: "d \<le> 31" using m by (auto simp: days_in_month_def split: if_splits)
  obtain y1 y2 y3 y4 where Y: "pad 4 y = [y1, y2, y3, y4]" "is_ascii_digit y1" "is_ascii_digit y2"
    "is_ascii_digit y3" "is_ascii_digit y4" "int (parse_dec [y1, y2, y3, y4]) = y"
    by (rule pad4 [of y]) (use y in auto)
  obtain m1 m2 where M: "pad 2 m = [m1, m2]" "is_ascii_digit m1" "is_ascii_digit m2"
    "int (parse_dec [m1, m2]) = m" using pad2 [of m] m by auto
  obtain d1 d2 where D: "pad 2 d = [d1, d2]" "is_ascii_digit d1" "is_ascii_digit d2"
    "int (parse_dec [d1, d2]) = d" using pad2 [of d] m d31 by auto
  obtain h1 h2 where H: "pad 2 h = [h1, h2]" "is_ascii_digit h1" "is_ascii_digit h2"
    "int (parse_dec [h1, h2]) = h" using pad2 [of h] time by auto
  obtain i1 i2 where I: "pad 2 mi = [i1, i2]" "is_ascii_digit i1" "is_ascii_digit i2"
    "int (parse_dec [i1, i2]) = mi" using pad2 [of mi] time by auto
  obtain s1 s2 where S: "pad 2 s = [s1, s2]" "is_ascii_digit s1" "is_ascii_digit s2"
    "int (parse_dec [s1, s2]) = s" using pad2 [of s] time by auto
  obtain o1 o2 where OH: "pad 2 oh = [o1, o2]" "is_ascii_digit o1" "is_ascii_digit o2"
    "int (parse_dec [o1, o2]) = oh" using pad2 [of oh] offset by auto
  obtain p1 p2 where P: "pad 2 om = [p1, p2]" "is_ascii_digit p1" "is_ascii_digit p2"
    "int (parse_dec [p1, p2]) = om" using pad2 [of om] offset by auto
  have tx: "tx = [y1, y2, y3, y4, CHR ''-'', m1, m2, CHR ''-'', d1, d2, CHR ''T'',
    h1, h2, CHR '':'', i1, i2, CHR '':'', s1, s2, c, o1, o2, CHR '':'', p1, p2]"
    by (simp add: tx_def rfc3339_text_def Y(1) M(1) D(1) H(1) I(1) S(1) OH(1) P(1) sign)
  have strip: "strip_prefix ''unix-ms:'' tx = None"
    using digit_not [OF Y(2)] by (simp add: tx strip_prefix_def)
  have nodot: "x \<noteq> CHR ''.''" if "x \<in> set tx" for x
    using that sign(2) Y M D H I S OH P digit_not by (auto simp: tx)
  then have "dropWhile (\<lambda>x. x \<noteq> CHR ''.'') tx = []" by (simp add: dropWhile_eq_Nil_conv)
  then have split: "split_once (CHR ''.'') tx = None" by (simp only: split_once_def list.case)
  have epoch: "\<not> is_epoch_seconds tx" by (simp add: tx is_epoch_seconds_def)
  have comp: "parse_component tx 0 4 = Some y" "parse_component tx 5 7 = Some m"
    "parse_component tx 8 10 = Some d" "parse_component tx 11 13 = Some h"
    "parse_component tx 14 16 = Some mi" "parse_component tx 17 19 = Some s"
    using Y M D H I S y m d31 time
    by (simp_all add: tx parse_component_def parse_i64_digits)
  have frac: "parse_fraction (drop 19 tx) = Some (0, [c, o1, o2, CHR '':'', p1, p2])"
    using sign(2) by (auto simp: tx parse_fraction_def strip_prefix_def)
  have off: "parse_offset [c, o1, o2, CHR '':'', p1, p2]
      = Some (if c = CHR ''-'' then - (oh * 3600 + om * 60) else oh * 3600 + om * 60)"
    using sign(2) OH P offset
    by (auto simp: parse_offset_def parse_component_def parse_i64_digits Let_def)
  note days = days_from_civil_eq [OF date y]
  define K where "K = civil_days (y, m, d)"
  have K: "- 4000000 \<le> K" "K \<le> 4000000" using bound by (auto simp: K_def)
  have "parse_calendar tx = Some (seconds * 1000000000)"
    using m time offset K
    by (simp add: parse_calendar_def comp days frac off fit_i64_small fit_i128_small
        nanos_per_second_def seconds_def flip: K_def)
       (simp add: tx)
  then show "parse_evidence_time tx = Some (seconds * 1000000000)"
    by (simp add: parse_evidence_time_def strip split epoch)
  have "has_zone_suffix tx"
    using sign(2) by (auto simp: tx has_zone_suffix_def is_char_boundary_def strip_prefix_def is_zone_def)
  then show "is_unambiguous_instant tx"
    by (simp add: is_unambiguous_instant_def strip epoch split)
qed


lemma civil_days_bound:
  assumes v: "valid_date (y, m, d)" and y: "1 \<le> y" "y \<le> 9999"
  shows "\<bar>civil_days (y, m, d)\<bar> \<le> 4000000"
proof -
  define b where "b = y - (if m \<le> 2 then 1 else 0)"
  have b: "0 \<le> b" "b \<le> 9999" using y by (auto simp: b_def)
  define x where "x = march_day (m + (if m > 2 then - 3 else 9)) d"
  have x: "0 \<le> x" "x \<le> 365"
    using march_day_inverse(2,3) [OF valid_date_march(1-4) [OF v]] by (auto simp: x_def)
  have eq: "civil_days (y, m, d) = 365 * b + b div 4 - b div 100 + b div 400 + x - 719468"
    by (simp only: civil_days_march b_def x_def)
  have "0 \<le> b div 4 \<and> b div 4 \<le> 2499" using b by linarith
  moreover have "0 \<le> b div 100 \<and> b div 100 \<le> 99" using b by linarith
  moreover have "0 \<le> b div 400 \<and> b div 400 \<le> 24" using b by linarith
  moreover have "\<bar>365 * b + u - v + w + x - 719468\<bar> \<le> 4000000"
    if "0 \<le> u \<and> u \<le> 2499" "0 \<le> v \<and> v \<le> 99" "0 \<le> w \<and> w \<le> 24" for u v w
    using that b x by auto
  ultimately show ?thesis unfolding eq by blast
qed

section \<open>Clock time prints canonically\<close>

lemma digit_char_val: "is_ascii_digit c \<Longrightarrow> digit_char (digit_val c) = c"
  by (simp add: digit_char_def digit_val_def is_ascii_digit_def)

lemma dec_pad2_digits:
  assumes "is_ascii_digit a" "is_ascii_digit b"
  shows "dec_pad 2 (parse_two_digits a b) = [a, b]"
proof -
  have v: "digit_val a < 10" "digit_val b < 10" using assms by (auto intro: digit_val_less)
  show ?thesis
  proof (cases "digit_val a = 0")
    case True
    have "char_of (48 :: nat) = CHR ''0''" by code_simp
    with True have "a = CHR ''0''" using digit_char_val [OF assms(1)] by (simp add: digit_char_def)
    with True v show ?thesis
      by (simp add: dec_pad_def parse_two_digits_def dec.simps digit_char_val assms)
  next
    case False
    then have n: "\<not> parse_two_digits a b < 10" "parse_two_digits a b div 10 = digit_val a"
      "parse_two_digits a b mod 10 = digit_val b"
      using v by (auto simp: parse_two_digits_def)
    then have "dec (parse_two_digits a b) = dec (digit_val a) @ [digit_char (digit_val b)]"
      by (subst dec.simps) simp
    then show ?thesis using v
      by (simp add: dec_pad_def dec.simps [of "digit_val a"] digit_char_val assms)
  qed
qed

lemma length8:
  assumes "length s = 8" obtains a b c d e f g h where "s = [a, b, c, d, e, f, g, h]"
  using assms by (auto simp: numeral_eq_Suc length_Suc_conv)

lemma clock_fields:
  fixes h m s :: nat
  assumes "m \<le> 59" "s \<le> 59"
  shows "(h * 3600 + m * 60 + s) div 3600 = h" "(h * 3600 + m * 60 + s) mod 3600 div 60 = m"
    "(h * 3600 + m * 60 + s) mod 60 = s"
proof -
  define r where "r = m * 60 + s"
  have r: "r < 3600" using assms by (simp add: r_def)
  have hr: "h * 3600 + m * 60 + s = r + h * 3600" by (simp add: r_def)
  show "(h * 3600 + m * 60 + s) div 3600 = h" unfolding hr using r by simp
  have "(r + h * 3600) mod 3600 = r" using r by simp
  then show "(h * 3600 + m * 60 + s) mod 3600 div 60 = m"
    unfolding hr using assms by (simp add: r_def)
  have "h * 3600 + m * 60 + s = s + (h * 60 + m) * 60" by simp
  then show "(h * 3600 + m * 60 + s) mod 60 = s" using assms by (simp only: mod_mult_self1) simp
qed

lemma duration_since_eq_Some:
  "duration_since t e = Some n \<longleftrightarrow>
     int n = unix_nanos t - unix_nanos e \<and> n < 2 ^ 64 * 1000000000
     \<and> unix_nanos t - unix_nanos e < 2 ^ 127"
proof -
  define D where "D = unix_nanos t - unix_nanos e"
  have lt: "k div 1000000000 < 2 ^ 64 \<longleftrightarrow> k < 2 ^ 64 * 1000000000" for k :: nat
    by (rule div_less_iff_less_mult) simp
  have eq: "k div 1000000000 * 1000000000 + k mod 1000000000 = k" for k :: nat
    by (rule div_mult_mod_eq)
  have "duration_since t e = Some n \<longleftrightarrow>
      fit_i128 D = Some D \<and> \<not> D < 0 \<and> nat D < 2 ^ 64 * 1000000000 \<and> n = nat D"
    unfolding duration_since_def Let_def D_def [symmetric] eq lt
    by (cases "fit_i128 D") (auto simp: fit_i128_def simp del: power_numeral split: if_splits)
  moreover have "- (2 ^ 127) \<le> int k" for k by (rule order_trans [of _ 0]) simp_all
  ultimately show ?thesis
    unfolding D_def [symmetric] fit_i128_def
    by (auto simp del: power_numeral simp: not_less)
qed

section \<open>ASCII text\<close>

definition is_ascii_text :: "string \<Rightarrow> bool" where
  "is_ascii_text s \<longleftrightarrow> list_all (\<lambda>c. byte_of c < (128 :: nat)) s"

lemma chars_of_ascii: "is_ascii_text s \<Longrightarrow> chars_of s = map (\<lambda>c. [c]) s"
  by (induction s rule: chars_of.induct) (auto simp: is_ascii_text_def utf8_width_def)

lemma trim_ascii:
  assumes "is_ascii_text s" "s = [] \<or> \<not> is_whitespace [hd s]" "s = [] \<or> \<not> is_whitespace [List.last s]"
  shows "trim s = s"
proof (cases "s = []")
  case False
  have d: "dropWhile is_whitespace (map (\<lambda>c. [c]) s) = map (\<lambda>c. [c]) s"
    using assms(2) False by (intro dropWhile_eq_self) (simp add: hd_map)
  have "dropWhile is_whitespace (rev (map (\<lambda>c. [c]) s)) = rev (map (\<lambda>c. [c]) s)"
    using assms(3) False by (intro dropWhile_eq_self) (simp add: rev_map hd_map hd_rev)
  then show ?thesis
    using chars_of_ascii [OF assms(1)] d by (simp add: trim_def concat_map_singleton rev_map)
qed (simp add: trim_def)

lemma digit_ascii: "is_ascii_digit c \<Longrightarrow> byte_of c < (128 :: nat) \<and> \<not> is_whitespace [c]"
  by (auto simp: is_ascii_digit_def is_whitespace_def Let_def)

lemma digits_ascii: "list_all is_ascii_digit s \<Longrightarrow> is_ascii_text s"
  by (auto simp: is_ascii_text_def list_all_iff digit_ascii)

lemma digits_ends: "list_all is_ascii_digit s \<Longrightarrow> s \<noteq> [] \<Longrightarrow>
    \<not> is_whitespace [hd s] \<and> \<not> is_whitespace [List.last s]"
  using digit_ascii by (auto simp: list_all_iff)

lemma is_ascii_text_append [simp]: "is_ascii_text (a @ b) \<longleftrightarrow> is_ascii_text a \<and> is_ascii_text b"
  by (simp add: is_ascii_text_def)

lemma is_ascii_text_Cons [simp]:
  "is_ascii_text (c # b) \<longleftrightarrow> byte_of c < (128 :: nat) \<and> is_ascii_text b"
  by (simp add: is_ascii_text_def)

lemma is_ascii_text_Nil [simp]: "is_ascii_text []"
  by (simp add: is_ascii_text_def)

text \<open>An accepted instant begins and ends with printed ASCII characters, so trimming
  leaves it alone.\<close>

lemma length19:
  assumes "\<not> length s < 19"
  obtains a b c d e f g h i j k l m n p q r t u w where
    "s = [a, b, c, d, e, f, g, h, i, j, k, l, m, n, p, q, r, t, u] @ w"
  using assms by (auto simp: not_less numeral_eq_Suc Suc_le_length_iff)

lemma parse_component_digits:
  "parse_component s a b = Some n \<Longrightarrow> list_all is_ascii_digit (take (b - a) (drop a s))"
  by (auto simp: parse_component_def Let_def split: if_splits)

lemma length6:
  assumes "length s = 6" obtains a b c d e f where "s = [a, b, c, d, e, f]"
  using assms by (auto simp: numeral_eq_Suc length_Suc_conv)

lemma zone_ascii:
  assumes zone: "is_zone z" and off: "parse_offset z = Some n"
  shows "is_ascii_text z \<and> z \<noteq> [] \<and> \<not> is_whitespace [List.last z]"
proof (cases "z = ''Z''")
  case True
  then show ?thesis by (simp add: is_whitespace_def)
next
  case False
  then have z: "length z = 6" "hd z \<in> {CHR ''+'', CHR ''-''}" "z ! 3 = CHR '':''"
    using zone by (auto simp: is_zone_def)
  obtain a b c d e f where l: "z = [a, b, c, d, e, f]" by (rule length6 [OF z(1)])
  have "\<exists>oh om. parse_component z 1 3 = Some oh \<and> parse_component z 4 6 = Some om"
    using off z False by (auto simp: parse_offset_def bind_eq_Some_conv split: if_splits)
  then have "is_ascii_digit b" "is_ascii_digit c" "is_ascii_digit e" "is_ascii_digit f"
    using parse_component_digits [of z 1 3] parse_component_digits [of z 4 6] by (auto simp: l)
  then show ?thesis using z digit_ascii by (auto simp: l)
qed

lemma parse_calendar_trim:
  assumes p: "parse_calendar s = Some n" and z: "has_zone_suffix s"
  shows "trim s = s"
proof -
  have len: "\<not> length s < 19" using z by (auto simp: has_zone_suffix_def)
  then obtain a b c d e f g h i j k l m m' p' q r t u w where
    s: "s = [a, b, c, d, e, f, g, h, i, j, k, l, m, m', p', q, r, t, u] @ w"
    by (rule length19)
  from p have marks: "e = CHR ''-''" "h = CHR ''-''"
    and comps: "\<exists>y m d. parse_component s 0 4 = Some y \<and> parse_component s 5 7 = Some m
      \<and> parse_component s 8 10 = Some d"
    by (auto simp: s parse_calendar_def bind_eq_Some_conv split: if_splits)
  have "\<exists>hh mm ss. k \<in> {CHR ''T'', CHR '' ''} \<and> parse_component s 11 13 = Some hh
      \<and> parse_component s 14 16 = Some mm \<and> parse_component s 17 19 = Some ss
      \<and> m' = CHR '':'' \<and> r = CHR '':''
      \<and> (\<exists>fr suf o'. parse_fraction w = Some (fr, suf) \<and> parse_offset suf = Some o')"
    using p by (auto simp: s parse_calendar_def bind_eq_Some_conv split: if_splits prod.splits)
  then obtain fr suf o' where k: "k \<in> {CHR ''T'', CHR '' ''}" "m' = CHR '':''" "r = CHR '':''"
    and comps2: "\<exists>hh mm ss. parse_component s 11 13 = Some hh
      \<and> parse_component s 14 16 = Some mm \<and> parse_component s 17 19 = Some ss"
    and fr: "parse_fraction w = Some (fr, suf)" and off: "parse_offset suf = Some o'" by blast
  have digits: "list_all is_ascii_digit [a, b, c, d, f, g, i, j, l, m, p', q, t, u]"
    using comps comps2 parse_component_digits [of s 0 4] parse_component_digits [of s 5 7]
      parse_component_digits [of s 8 10] parse_component_digits [of s 11 13]
      parse_component_digits [of s 14 16] parse_component_digits [of s 17 19]
    by (auto simp: s)
  have d19: "drop 19 s = w" by (simp add: s)
  have w: "is_ascii_text w \<and> w \<noteq> [] \<and> \<not> is_whitespace [List.last w]"
  proof (cases "strip_prefix ''.'' w")
    case None
    then have "suf = w" using fr by (simp add: parse_fraction_def)
    moreover have "is_zone w" using z len None by (simp add: has_zone_suffix_def d19 split: if_splits)
    ultimately show ?thesis using zone_ascii off by simp
  next
    case (Some fractional)
    let ?ds = "takeWhile is_ascii_digit fractional"
    have wf: "w = CHR ''.'' # fractional" using Some strip_prefix_eq_Some by fastforce
    have suf: "suf = drop (length ?ds) fractional"
      using fr Some by (auto simp: parse_fraction_def Let_def split: if_splits)
    have "is_zone suf" using z len Some by (auto simp: has_zone_suffix_def d19 suf Let_def split: if_splits)
    then have zs: "is_ascii_text suf" "suf \<noteq> []" "\<not> is_whitespace [List.last suf]"
      using zone_ascii off by auto
    have fs: "fractional = ?ds @ suf"
      unfolding suf dropWhile_eq_drop [symmetric] by simp
    have "list_all is_ascii_digit ?ds" by (auto simp: list_all_iff dest: set_takeWhileD)
    then have "is_ascii_text fractional"
      using zs(1) digits_ascii by (subst fs) simp
    moreover have "List.last w = List.last suf" using zs(2) by (subst wf, subst fs) simp
    ultimately show ?thesis using zs by (simp add: wf)
  qed
  have "is_ascii_text s"
    using digits digit_ascii w marks k by (auto simp: s)
  moreover have "\<not> is_whitespace [hd s]" using digits digit_ascii by (simp add: s)
  moreover have "List.last s = List.last w" using w by (simp add: s)
  ultimately show ?thesis using w by (intro trim_ascii) auto
qed

lemma parse_instant_trim:
  assumes "parse_instant s = Ok x" shows "trim s = s"
proof -
  obtain n where p: "parse_evidence_time s = Some n" and u: "is_unambiguous_instant s"
    using assms by (auto simp: parse_instant_def evidence_timestamp_parse_def res_simps split: if_splits)
  show ?thesis
  proof (cases "strip_prefix ''unix-ms:'' s")
    case (Some millis)
    then have s: "s = ''unix-ms:'' @ millis" by (simp only: strip_prefix_eq_Some)
    have d: "list_all is_ascii_digit millis" "millis \<noteq> []"
      using u Some by (auto simp: is_unambiguous_instant_def is_digits_def)
    then show ?thesis
      using digits_ascii [OF d(1)] digits_ends [OF d]
      by (intro trim_ascii) (auto simp: s is_whitespace_def)
  next
    case None
    show ?thesis
    proof (cases "is_epoch_seconds s")
      case True
      then have "list_all is_ascii_digit s" "s \<noteq> []" by (auto simp: is_epoch_seconds_def)
      then show ?thesis using digits_ascii digits_ends by (intro trim_ascii) auto
    next
      case not_epoch: False
      show ?thesis
      proof (cases "\<exists>a b. split_once (CHR ''.'') s = Some (a, b) \<and> is_epoch_seconds a \<and> is_digits b")
        case True
        then obtain a b where ab: "s = a @ CHR ''.'' # b" "is_epoch_seconds a" "is_digits b"
          using split_once_eq_Some by blast
        then have "list_all is_ascii_digit a" "a \<noteq> []" "list_all is_ascii_digit b" "b \<noteq> []"
          by (auto simp: is_epoch_seconds_def is_digits_def)
        then show ?thesis
          using digits_ascii [of a] digits_ascii [of b] digits_ends [of a] digits_ends [of b]
          by (intro trim_ascii) (auto simp: ab(1))
      next
        case False
        have "parse_calendar s = Some n"
          using p None not_epoch False
          by (auto simp: parse_evidence_time_def split: option.splits prod.splits if_splits)
        moreover have "has_zone_suffix s"
          using u None not_epoch False
          by (auto simp: is_unambiguous_instant_def split: option.splits prod.splits)
        ultimately show ?thesis by (rule parse_calendar_trim)
      qed
    qed
  qed
qed

end
