(* ===== verification/Market_Event.thy ===== *)
theory Market_Event
  imports Evidence_Time
begin

text \<open>
  \<open>market_event.rs\<close>: stream positions, the evidence an anomaly rule consumed, and the
  market events whose identifiers are SHA-256 digests of a canonical byte encoding.
  The digest engine is the third-party crate \<open>sha2\<close>; here it is the parameter \<open>sha\<close>,
  a function from the bytes fed to it to its output. A theorem that needs a property
  of it names it: outputs have 32 bytes, two inputs do not collide.
\<close>

section \<open>Stream positions\<close>

datatype stream_generation = StreamGeneration (generation_str: string)

definition is_canonical_non_nil_uuid :: "string \<Rightarrow> bool" where
  "is_canonical_non_nil_uuid value \<longleftrightarrow>
     length value = 36
     \<and> list_all (\<lambda>(index, byte). if index \<in> {8, 13, 18, 23} then byte = CHR ''-''
                                 else is_lower_hex byte) (zip [0..<length value] value)
     \<and> list_ex (\<lambda>byte. byte \<noteq> CHR ''0'' \<and> byte \<noteq> CHR ''-'') value"

definition stream_generation_new :: "string \<Rightarrow> (stream_generation, core_error) rres" where
  "stream_generation_new value =
     (if \<not> is_canonical_non_nil_uuid value
      then Err (InvalidValue ''stream_generation'' (Text value)
             ''must be a canonical lowercase non-nil UUID'')
      else Ok (StreamGeneration value))"

datatype stream_sequence = StreamSequence (sequence_get: u64)

definition stream_sequence_new :: "u64 \<Rightarrow> (stream_sequence, core_error) rres" where
  "stream_sequence_new value =
     (if value = 0
      then Err (InvalidValue ''stream_sequence'' (Text (dec (unat value))) ''must be positive'')
      else Ok (StreamSequence value))"

definition checked_next :: "stream_sequence \<Rightarrow> (stream_sequence, core_error) rres" where
  "checked_next s =
     rbind (ok_or (invalid_request ''stream sequence exhausted'')
              (checked_add (sequence_get s) 1)) stream_sequence_new"

record stream_cursor =
  sc_generation :: stream_generation
  sc_sequence :: stream_sequence

datatype observation_time_basis = ProviderSourceTime | LocalObservationTime
datatype continuity_state = Continuous | Unknown | PossibleGap | KnownGap

section \<open>Evidence endpoints\<close>

text \<open>The derived \<open>Debug\<close> of \<open>ProviderId\<close>.\<close>

fun provider_debug :: "provider_id \<Rightarrow> string" where
  "provider_debug Tdx = ''Tdx''"
| "provider_debug Tencent = ''Tencent''"
| "provider_debug Eastmoney = ''Eastmoney''"
| "provider_debug Sina = ''Sina''"
| "provider_debug Baostock = ''Baostock''"
| "provider_debug Baidu = ''Baidu''"
| "provider_debug Tonghuashun = ''Tonghuashun''"
| "provider_debug Iwencai = ''Iwencai''"
| "provider_debug Cninfo = ''Cninfo''"
| "provider_debug Cailianpress = ''Cailianpress''"
| "provider_debug Jin10 = ''Jin10''"
| "provider_debug ThePaper = ''ThePaper''"
| "provider_debug Yonhap = ''Yonhap''"
| "provider_debug WallstreetCn = ''WallstreetCn''"
| "provider_debug Sse = ''Sse''"
| "provider_debug Szse = ''Szse''"
| "provider_debug Hkex = ''Hkex''"
| "provider_debug Cffex = ''Cffex''"
| "provider_debug StateCouncil = ''StateCouncil''"
| "provider_debug Nbs = ''Nbs''"
| "provider_debug Pbc = ''Pbc''"
| "provider_debug Cfets = ''Cfets''"
| "provider_debug Fred = ''Fred''"
| "provider_debug Imf = ''Imf''"
| "provider_debug WorldBank = ''WorldBank''"
| "provider_debug SecEdgar = ''SecEdgar''"
| "provider_debug XinhuaFinance = ''XinhuaFinance''"
| "provider_debug Yicai = ''Yicai''"
| "provider_debug SecuritiesTimes = ''SecuritiesTimes''"
| "provider_debug LocalAnalysis = ''LocalAnalysis''"
| "provider_debug LocalTerminal = ''LocalTerminal''"
| "provider_debug Custom = ''Custom''"

definition validate_provider ::
  "string \<Rightarrow> source_evidence \<Rightarrow> provider_id \<Rightarrow> (unit, core_error) rres" where
  "validate_provider context evidence expected =
     (if se_provider evidence \<noteq> expected
      then Err (invalid_request (context @ '' must use '' @ provider_debug expected))
      else Ok ())"

record local_terminal_evidence =
  lt_first :: source_evidence
  lt_last :: source_evidence

definition local_terminal_evidence_new ::
  "source_evidence \<Rightarrow> source_evidence \<Rightarrow> (local_terminal_evidence, core_error) rres" where
  "local_terminal_evidence_new e1 e2 =
     rbind (validate_provider ''local terminal first observation evidence'' e1 LocalTerminal) (\<lambda>_.
     rbind (validate_provider ''local terminal last observation evidence'' e2 LocalTerminal) (\<lambda>_.
     Ok \<lparr>lt_first = e1, lt_last = e2\<rparr>))"

record local_analysis_evidence =
  la_input :: local_terminal_evidence
  la_derived :: source_evidence

definition local_analysis_evidence_new ::
  "local_terminal_evidence \<Rightarrow> source_evidence \<Rightarrow> (local_analysis_evidence, core_error) rres" where
  "local_analysis_evidence_new inp derived =
     rbind (validate_provider ''local analysis derived evidence'' derived LocalAnalysis) (\<lambda>_.
     Ok \<lparr>la_input = inp, la_derived = derived\<rparr>)"

section \<open>The canonical hasher\<close>

text \<open>The order of Rust strings: bytewise, a prefix first.\<close>

fun str_le :: "string \<Rightarrow> string \<Rightarrow> bool" where
  "str_le [] t = True"
| "str_le (a # s) [] = False"
| "str_le (a # s) (b # t) \<longleftrightarrow> byte_of a < (byte_of b :: nat) \<or> (a = b \<and> str_le s t)"

record sha256 =
  engine_input :: "u8 list"
  total_len :: u64

definition sha256_new :: sha256 where
  "sha256_new = \<lparr>engine_input = [], total_len = 0\<rparr>"

definition u64_len :: "u8 list \<Rightarrow> u64 option" where
  "u64_len bytes = (if length bytes < 2 ^ 64 then Some (of_nat (length bytes)) else None)"

definition sha256_update :: "sha256 \<Rightarrow> u8 list \<Rightarrow> (sha256, core_error) rres" where
  "sha256_update h bytes =
     rbind (ok_or (invalid_request ''SHA-256 input length exceeds u64'') (u64_len bytes)) (\<lambda>len.
     rbind (ok_or (invalid_request ''SHA-256 input length exhausted'')
              (case checked_add (total_len h) len of
                 None \<Rightarrow> None
               | Some t \<Rightarrow> if unat t \<le> (2 ^ 64 - 1) div 8 then Some t else None)) (\<lambda>new_total.
     Ok \<lparr>engine_input = engine_input h @ bytes, total_len = new_total\<rparr>))"

definition update_length_prefixed :: "sha256 \<Rightarrow> u8 list \<Rightarrow> (sha256, core_error) rres" where
  "update_length_prefixed h bytes =
     rbind (ok_or (invalid_request ''canonical field length exceeds u64'') (u64_len bytes)) (\<lambda>len.
     rbind (sha256_update h (u64_be len)) (\<lambda>h'. sha256_update h' bytes))"

definition hex_digits :: string where "hex_digits = ''0123456789abcdef''"

definition finish_hex :: "(u8 list \<Rightarrow> u8 list) \<Rightarrow> sha256 \<Rightarrow> string" where
  "finish_hex sha h =
     concat (map (\<lambda>byte. [hex_digits ! unat (drop_bit 4 byte), hex_digits ! unat (byte AND 15)])
       (sha (engine_input h)))"

record canonical_hasher =
  ch_sha256 :: sha256
  previous_field :: "string option"
  field_count :: u64

definition hasher_new :: "string \<Rightarrow> (canonical_hasher, core_error) rres" where
  "hasher_new domain =
     rbind (update_length_prefixed sha256_new (as_bytes domain)) (\<lambda>s.
     Ok \<lparr>ch_sha256 = s, previous_field = None, field_count = 0\<rparr>)"

definition hasher_field ::
  "canonical_hasher \<Rightarrow> string \<Rightarrow> u8 list \<Rightarrow> (canonical_hasher, core_error) rres" where
  "hasher_field h name value =
     (if (case previous_field h of None \<Rightarrow> False | Some previous \<Rightarrow> str_le name previous)
      then Err (invalid_request
             (''canonical field names must be unique and strictly increasing: '' @ name))
      else
        rbind (update_length_prefixed (ch_sha256 h) (as_bytes name)) (\<lambda>s1.
        rbind (update_length_prefixed s1 value) (\<lambda>s2.
        rbind (ok_or (invalid_request ''canonical field count exhausted'')
                 (checked_add (field_count h) 1)) (\<lambda>count.
        Ok \<lparr>ch_sha256 = s2, previous_field = Some name, field_count = count\<rparr>))))"

definition hasher_finish ::
  "(u8 list \<Rightarrow> u8 list) \<Rightarrow> canonical_hasher \<Rightarrow> (string, core_error) rres" where
  "hasher_finish sha h =
     rbind (sha256_update (ch_sha256 h) [255]) (\<lambda>s1.
     rbind (sha256_update s1 (u64_be (field_count h))) (\<lambda>s2.
     Ok (finish_hex sha s2)))"

text \<open>A run of \<open>hasher.field(..)?\<close> calls.\<close>

fun hasher_fields ::
  "(string \<times> u8 list) list \<Rightarrow> canonical_hasher \<Rightarrow> (canonical_hasher, core_error) rres" where
  "hasher_fields [] h = Ok h"
| "hasher_fields ((name, value) # rest) h =
     rbind (hasher_field h name value) (hasher_fields rest)"

definition canonical_digest ::
  "(u8 list \<Rightarrow> u8 list) \<Rightarrow> string \<Rightarrow> (string \<times> u8 list) list \<Rightarrow> (string, core_error) rres" where
  "canonical_digest sha domain fs =
     rbind (hasher_new domain) (\<lambda>h. rbind (hasher_fields fs h) (hasher_finish sha))"

definition is_name_start :: "string \<Rightarrow> bool" where
  "is_name_start ch \<longleftrightarrow> (case ch of [c] \<Rightarrow> is_ascii_lowercase c \<or> is_ascii_digit c | _ \<Rightarrow> False)"

definition is_name_char :: "string \<Rightarrow> bool" where
  "is_name_char ch \<longleftrightarrow> is_name_start ch \<or> ch \<in> {''-'', ''_'', ''.''}"

definition validate_canonical_field_name :: "string \<Rightarrow> (unit, core_error) rres" where
  "validate_canonical_field_name name =
     (case chars_of name of
        first # rest \<Rightarrow> ensure (is_name_start first \<and> list_all is_name_char rest)
          (InvalidValue ''canonical_field_name'' (Text name) ''must be a lowercase ASCII identifier'')
      | [] \<Rightarrow> Err (InvalidValue ''canonical_field_name'' (Text name)
                ''must be a lowercase ASCII identifier''))"

fun validated_fields ::
  "(string \<times> u8 list) list \<Rightarrow> canonical_hasher \<Rightarrow> (canonical_hasher, core_error) rres" where
  "validated_fields [] h = Ok h"
| "validated_fields ((name, value) # rest) h =
     rbind (validate_canonical_field_name name) (\<lambda>_.
     rbind (hasher_field h name value) (validated_fields rest))"

definition canonical_fields_digest ::
  "(u8 list \<Rightarrow> u8 list) \<Rightarrow> string \<Rightarrow> string \<Rightarrow> (string \<times> u8 list) list \<Rightarrow> (string, core_error) rres" where
  "canonical_fields_digest sha domain context fs =
     (if fs = [] then Err (invalid_request
         (context @ '' must contain at least one canonical field''))
      else rbind (hasher_new domain) (\<lambda>h. rbind (validated_fields fs h) (hasher_finish sha)))"

definition validate_sha256_hex :: "string \<Rightarrow> string \<Rightarrow> (unit, core_error) rres" where
  "validate_sha256_hex field value =
     ensure (length value = 64 \<and> list_all is_lower_hex value)
       (InvalidValue field (Text value)
          ''must be exactly 64 lowercase hexadecimal SHA-256 characters'')"

text \<open>The macro \<open>digest_wire_type!\<close> and its instances.\<close>

definition from_validated_hex ::
  "(string \<Rightarrow> 'a) \<Rightarrow> string \<Rightarrow> string \<Rightarrow> ('a, core_error) rres" where
  "from_validated_hex con field value =
     rbind (validate_sha256_hex field value) (\<lambda>_. Ok (con value))"

datatype anomaly_rule_digest = AnomalyRuleDigest (rule_digest_str: string)
datatype rule_input_digest = RuleInputDigest (rule_input_str: string)
datatype anomaly_input_digest = AnomalyInputDigest (input_digest_str: string)
datatype market_event_id = MarketEventId (event_id_str: string)

definition anomaly_rule_digest_of ::
  "(u8 list \<Rightarrow> u8 list) \<Rightarrow> (string \<times> u8 list) list \<Rightarrow> (anomaly_rule_digest, core_error) rres" where
  "anomaly_rule_digest_of sha fs =
     rbind (canonical_fields_digest sha ''magic-market/anomaly-rule-definition/v1''
              ''anomaly rule definition'' fs)
       (from_validated_hex AnomalyRuleDigest ''anomaly_rule_digest'')"

definition rule_input_digest_of ::
  "(u8 list \<Rightarrow> u8 list) \<Rightarrow> (string \<times> u8 list) list \<Rightarrow> (rule_input_digest, core_error) rres" where
  "rule_input_digest_of sha fs =
     rbind (canonical_fields_digest sha ''magic-market/anomaly-rule-inputs/v1''
              ''anomaly rule inputs'' fs)
       (from_validated_hex RuleInputDigest ''rule_input_digest'')"


section \<open>Rule identity\<close>

definition validated_rule_id :: "string \<Rightarrow> (non_empty_text, core_error) rres" where
  "validated_rule_id value =
     rbind (non_empty_text_new value) (\<lambda>id.
     case chars_of (text_str id) of
       [] \<Rightarrow> Err (InvalidValue ''anomaly_rule_id'' (Text (text_str id)) ''must not be empty'')
     | first # rest \<Rightarrow>
         if \<not> is_name_start first
         then Err (InvalidValue ''anomaly_rule_id'' (Text (text_str id))
                ''must start with a lowercase ASCII letter or digit'')
         else if list_ex (\<lambda>c. \<not> is_name_char c) rest
         then Err (InvalidValue ''anomaly_rule_id'' (Text (text_str id))
                (''must contain only lowercase ASCII letters, digits, '' @ [char_of (39 :: nat)]
                 @ ''-'' @ [char_of (39 :: nat)] @ '', '' @ [char_of (39 :: nat)] @ ''_''
                 @ [char_of (39 :: nat)] @ '' or '' @ [char_of (39 :: nat)] @ ''.''
                 @ [char_of (39 :: nat)]))
         else Ok id)"

record anomaly_rule_identity =
  ri_id :: non_empty_text
  ri_revision :: positive_u32
  ri_definition_digest :: anomaly_rule_digest

definition anomaly_rule_identity_new ::
  "string \<Rightarrow> u32 \<Rightarrow> anomaly_rule_digest \<Rightarrow> (anomaly_rule_identity, core_error) rres" where
  "anomaly_rule_identity_new raw revision digest =
     rbind (validated_rule_id raw) (\<lambda>id.
     rbind (positive_u32_new revision) (\<lambda>rev.
     Ok \<lparr>ri_id = id, ri_revision = rev, ri_definition_digest = digest\<rparr>))"

definition from_canonical_definition ::
  "(u8 list \<Rightarrow> u8 list) \<Rightarrow> string \<Rightarrow> u32 \<Rightarrow> (string \<times> u8 list) list
     \<Rightarrow> (anomaly_rule_identity, core_error) rres" where
  "from_canonical_definition sha rule_id revision fs =
     rbind (anomaly_rule_digest_of sha fs) (anomaly_rule_identity_new rule_id revision)"

datatype anomaly_transition = Triggered | Escalated | Rearmed

record stream_continuity =
  ct_observation :: continuity_state
  ct_source :: continuity_state

section \<open>Wire names\<close>

fun exchange_name :: "exchange \<Rightarrow> string" where
  "exchange_name Shanghai = ''Shanghai''"
| "exchange_name Shenzhen = ''Shenzhen''"
| "exchange_name Beijing = ''Beijing''"

fun asset_class_name :: "asset_class \<Rightarrow> string" where
  "asset_class_name Equity = ''Equity''"
| "asset_class_name Index = ''Index''"
| "asset_class_name Fund = ''Fund''"
| "asset_class_name Bond = ''Bond''"
| "asset_class_name Option = ''Option''"

fun time_basis_name :: "observation_time_basis \<Rightarrow> string" where
  "time_basis_name ProviderSourceTime = ''provider_source_time''"
| "time_basis_name LocalObservationTime = ''local_observation_time''"

fun continuity_name :: "continuity_state \<Rightarrow> string" where
  "continuity_name Continuous = ''continuous''"
| "continuity_name Unknown = ''unknown''"
| "continuity_name PossibleGap = ''possible_gap''"
| "continuity_name KnownGap = ''known_gap''"

fun transition_name :: "anomaly_transition \<Rightarrow> string" where
  "transition_name Triggered = ''triggered''"
| "transition_name Escalated = ''escalated''"
| "transition_name Rearmed = ''rearmed''"

datatype source_status_kind =
  Disconnected | Recovered | PossibleDataGap | KnownDataGap | ContinuityReset

fun source_status_name :: "source_status_kind \<Rightarrow> string" where
  "source_status_name Disconnected = ''disconnected''"
| "source_status_name Recovered = ''recovered''"
| "source_status_name PossibleDataGap = ''possible_data_gap''"
| "source_status_name KnownDataGap = ''known_data_gap''"
| "source_status_name ContinuityReset = ''continuity_reset''"

definition provider_name :: "provider_id \<Rightarrow> string" where
  "provider_name p = (if p = LocalTerminal then ''LocalTerminal'' else ''unsupported'')"

definition encode_optional_text :: "string option \<Rightarrow> u8 list" where
  "encode_optional_text value =
     (case value of Some t \<Rightarrow> 1 # as_bytes t | None \<Rightarrow> [0])"

section \<open>Anomaly input evidence\<close>

record anomaly_input_evidence =
  ie_instrument :: instrument_id
  ie_terminal :: local_terminal_evidence
  ie_first_cursor :: stream_cursor
  ie_last_cursor :: stream_cursor
  ie_time_basis :: observation_time_basis
  ie_continuity :: stream_continuity
  ie_rule_inputs_digest :: rule_input_digest
  ie_canonical_digest :: anomaly_input_digest

definition validate_input_range ::
  "local_terminal_evidence \<Rightarrow> stream_cursor \<Rightarrow> stream_cursor \<Rightarrow> observation_time_basis
     \<Rightarrow> (unit, core_error) rres" where
  "validate_input_range terminal first_cursor last_cursor time_basis =
     rbind (parse_instant (observed_at_of (lt_first terminal))) (\<lambda>first_observed.
     rbind (parse_instant (observed_at_of (lt_last terminal))) (\<lambda>last_observed.
     if duration_since last_observed first_observed = None
     then Err (invalid_request ''anomaly input observation times must be non-decreasing'')
     else if sc_generation first_cursor \<noteq> sc_generation last_cursor
     then Err (invalid_request ''anomaly input cursor range must use one stream generation'')
     else if sequence_get (sc_sequence last_cursor) < sequence_get (sc_sequence first_cursor)
     then Err (invalid_request ''anomaly input cursor range must be non-decreasing'')
     else if time_basis = ProviderSourceTime
          \<and> (source_at_of (lt_first terminal) = None \<or> source_at_of (lt_last terminal) = None)
     then Err (invalid_request
            ''provider-source-time input requires source time on both endpoint observations'')
     else if time_basis = ProviderSourceTime
     then rbind (expect_some ''presence checked above'' (source_at_of (lt_first terminal))) (\<lambda>s1.
          rbind (parse_instant s1) (\<lambda>first_source.
          rbind (expect_some ''presence checked above'' (source_at_of (lt_last terminal))) (\<lambda>s2.
          rbind (parse_instant s2) (\<lambda>last_source.
          if duration_since last_source first_source = None
          then Err (invalid_request ''anomaly input provider source times must be non-decreasing'')
          else Ok ()))))
     else Ok ()))"

definition anomaly_input_fields ::
  "instrument_id \<Rightarrow> local_terminal_evidence \<Rightarrow> stream_cursor \<Rightarrow> stream_cursor
     \<Rightarrow> observation_time_basis \<Rightarrow> stream_continuity \<Rightarrow> rule_input_digest \<Rightarrow> (string \<times> u8 list) list" where
  "anomaly_input_fields instrument terminal first_cursor last_cursor time_basis continuity digest =
    [(''first_cursor.generation'', as_bytes (generation_str (sc_generation first_cursor))),
     (''first_cursor.sequence'', u64_be (sequence_get (sc_sequence first_cursor))),
     (''first_evidence.batch_id'', as_bytes (batch_id_of (lt_first terminal))),
     (''first_evidence.observed_at'', as_bytes (observed_at_of (lt_first terminal))),
     (''first_evidence.provider'', as_bytes ''LocalTerminal''),
     (''first_evidence.source_at'', encode_optional_text (source_at_of (lt_first terminal))),
     (''instrument.asset_class'', as_bytes (asset_class_name (ii_asset_class instrument))),
     (''instrument.code'', as_bytes (ii_code instrument)),
     (''instrument.exchange'', as_bytes (exchange_name (ii_exchange instrument))),
     (''last_cursor.generation'', as_bytes (generation_str (sc_generation last_cursor))),
     (''last_cursor.sequence'', u64_be (sequence_get (sc_sequence last_cursor))),
     (''last_evidence.batch_id'', as_bytes (batch_id_of (lt_last terminal))),
     (''last_evidence.observed_at'', as_bytes (observed_at_of (lt_last terminal))),
     (''last_evidence.provider'', as_bytes ''LocalTerminal''),
     (''last_evidence.source_at'', encode_optional_text (source_at_of (lt_last terminal))),
     (''observation_continuity'', as_bytes (continuity_name (ct_observation continuity))),
     (''rule_inputs_digest'', as_bytes (rule_input_str digest)),
     (''source_continuity'', as_bytes (continuity_name (ct_source continuity))),
     (''time_basis'', as_bytes (time_basis_name time_basis))]"

definition compute_anomaly_input_digest ::
  "(u8 list \<Rightarrow> u8 list) \<Rightarrow> instrument_id \<Rightarrow> local_terminal_evidence \<Rightarrow> stream_cursor \<Rightarrow> stream_cursor
     \<Rightarrow> observation_time_basis \<Rightarrow> stream_continuity \<Rightarrow> rule_input_digest
     \<Rightarrow> (anomaly_input_digest, core_error) rres" where
  "compute_anomaly_input_digest sha i terminal c1 c2 basis continuity digest =
     rbind (canonical_digest sha ''magic-market/anomaly-input-evidence/v1''
              (anomaly_input_fields i terminal c1 c2 basis continuity digest))
       (from_validated_hex AnomalyInputDigest ''anomaly_input_digest'')"

definition anomaly_input_evidence_new ::
  "(u8 list \<Rightarrow> u8 list) \<Rightarrow> instrument_id \<Rightarrow> local_terminal_evidence \<Rightarrow> stream_cursor \<Rightarrow> stream_cursor
     \<Rightarrow> observation_time_basis \<Rightarrow> stream_continuity \<Rightarrow> rule_input_digest
     \<Rightarrow> (anomaly_input_evidence, core_error) rres" where
  "anomaly_input_evidence_new sha i terminal c1 c2 basis continuity digest =
     rbind (validate_input_range terminal c1 c2 basis) (\<lambda>_.
     rbind (compute_anomaly_input_digest sha i terminal c1 c2 basis continuity digest) (\<lambda>canonical.
     Ok \<lparr>ie_instrument = i, ie_terminal = terminal, ie_first_cursor = c1, ie_last_cursor = c2,
         ie_time_basis = basis, ie_continuity = continuity, ie_rule_inputs_digest = digest,
         ie_canonical_digest = canonical\<rparr>))"

text \<open>An error of a \<open>Deserialize\<close> implementation: a core error it wraps, or its own
  text. The wire structs hold the same fields as the value, each already decoded.\<close>

datatype de_error = DeCore core_error | DeCustom string

definition anomaly_input_evidence_deserialize ::
  "(u8 list \<Rightarrow> u8 list) \<Rightarrow> anomaly_input_evidence \<Rightarrow> (anomaly_input_evidence, de_error) rres" where
  "anomaly_input_evidence_deserialize sha wire =
     rbind (map_err DeCore (anomaly_input_evidence_new sha (ie_instrument wire) (ie_terminal wire)
              (ie_first_cursor wire) (ie_last_cursor wire) (ie_time_basis wire) (ie_continuity wire)
              (ie_rule_inputs_digest wire))) (\<lambda>validated.
     if ie_canonical_digest validated \<noteq> ie_canonical_digest wire
     then Err (DeCustom ''anomaly input canonical digest does not match its evidence'')
     else Ok validated)"

section \<open>Anomaly events\<close>

definition event_schema_version :: u16 where "event_schema_version = 1"

record anomaly_event =
  ae_schema_version :: u16
  ae_event_id :: market_event_id
  ae_instrument :: instrument_id
  ae_rule :: anomaly_rule_identity
  ae_transition :: anomaly_transition
  ae_stream :: stream_cursor
  ae_input_evidence :: anomaly_input_evidence
  ae_derived_evidence :: source_evidence

definition validate_derived_observation_time ::
  "string \<Rightarrow> anomaly_input_evidence \<Rightarrow> (unit, core_error) rres" where
  "validate_derived_observation_time derived_observed_at inp =
     rbind (parse_instant derived_observed_at) (\<lambda>derived.
     rbind (parse_instant (observed_at_of (lt_last (ie_terminal inp)))) (\<lambda>last_input.
     if duration_since derived last_input = None
     then Err (invalid_request ''anomaly derivation observation time must not precede its last input'')
     else Ok ()))"

definition validate_event_generation ::
  "stream_cursor \<Rightarrow> anomaly_input_evidence \<Rightarrow> (unit, core_error) rres" where
  "validate_event_generation stream inp =
     ensure (sc_generation stream = sc_generation (ie_last_cursor inp))
       (invalid_request ''anomaly event and input range must use the same stream generation'')"

definition validate_event_identity ::
  "instrument_id \<Rightarrow> stream_cursor \<Rightarrow> anomaly_input_evidence \<Rightarrow> (unit, core_error) rres" where
  "validate_event_identity instrument stream inp =
     rbind (validate_event_generation stream inp) (\<lambda>_.
     ensure (instrument = ie_instrument inp)
       (invalid_request ''anomaly event instrument must equal its input evidence instrument''))"

definition anomaly_event_fields ::
  "instrument_id \<Rightarrow> anomaly_rule_identity \<Rightarrow> anomaly_transition \<Rightarrow> stream_cursor
     \<Rightarrow> anomaly_input_digest \<Rightarrow> (string \<times> u8 list) list" where
  "anomaly_event_fields instrument rule transition stream digest =
    [(''input_digest'', as_bytes (input_digest_str digest)),
     (''instrument.asset_class'', as_bytes (asset_class_name (ii_asset_class instrument))),
     (''instrument.code'', as_bytes (ii_code instrument)),
     (''instrument.exchange'', as_bytes (exchange_name (ii_exchange instrument))),
     (''rule.definition_digest'', as_bytes (rule_digest_str (ri_definition_digest rule))),
     (''rule.id'', as_bytes (text_str (ri_id rule))),
     (''rule.revision'', u32_be (positive_u32_get (ri_revision rule))),
     (''stream.generation'', as_bytes (generation_str (sc_generation stream))),
     (''stream.sequence'', u64_be (sequence_get (sc_sequence stream))),
     (''transition'', as_bytes (transition_name transition))]"

definition compute_anomaly_event_id ::
  "(u8 list \<Rightarrow> u8 list) \<Rightarrow> instrument_id \<Rightarrow> anomaly_rule_identity \<Rightarrow> anomaly_transition
     \<Rightarrow> stream_cursor \<Rightarrow> anomaly_input_digest \<Rightarrow> (market_event_id, core_error) rres" where
  "compute_anomaly_event_id sha instrument rule transition stream digest =
     rbind (canonical_digest sha ''magic-market/anomaly-event/v1''
              (anomaly_event_fields instrument rule transition stream digest))
       (from_validated_hex MarketEventId ''market_event_id'')"

definition anomaly_event_new ::
  "(u8 list \<Rightarrow> u8 list) \<Rightarrow> instrument_id \<Rightarrow> anomaly_rule_identity \<Rightarrow> anomaly_transition
     \<Rightarrow> stream_cursor \<Rightarrow> anomaly_input_evidence \<Rightarrow> string \<Rightarrow> (anomaly_event, core_error) rres" where
  "anomaly_event_new sha instrument rule transition stream inp derived_observed_at =
     rbind (validate_event_identity instrument stream inp) (\<lambda>_.
     rbind (validate_derived_observation_time derived_observed_at inp) (\<lambda>_.
     rbind (compute_anomaly_event_id sha instrument rule transition stream
              (ie_canonical_digest inp)) (\<lambda>event_id.
     rbind (source_evidence_new LocalAnalysis derived_observed_at (event_id_str event_id)) (\<lambda>derived.
     Ok \<lparr>ae_schema_version = event_schema_version, ae_event_id = event_id,
         ae_instrument = instrument, ae_rule = rule, ae_transition = transition,
         ae_stream = stream, ae_input_evidence = inp, ae_derived_evidence = derived\<rparr>))))"

definition anomaly_event_deserialize ::
  "(u8 list \<Rightarrow> u8 list) \<Rightarrow> anomaly_event \<Rightarrow> (anomaly_event, de_error) rres" where
  "anomaly_event_deserialize sha wire =
     (if ae_schema_version wire \<noteq> event_schema_version
      then Err (DeCustom (''unsupported market event schema version ''
             @ dec (unat (ae_schema_version wire))))
      else
        rbind (map_err DeCore (validate_event_identity (ae_instrument wire) (ae_stream wire)
                 (ae_input_evidence wire))) (\<lambda>_.
        rbind (map_err DeCore (validate_provider ''anomaly derived evidence''
                 (ae_derived_evidence wire) LocalAnalysis)) (\<lambda>_.
        if source_at_of (ae_derived_evidence wire) \<noteq> None
        then Err (DeCustom ''LocalAnalysis derived evidence must not fabricate provider source time'')
        else
          rbind (map_err DeCore (validate_derived_observation_time
                   (observed_at_of (ae_derived_evidence wire)) (ae_input_evidence wire))) (\<lambda>_.
          rbind (map_err DeCore (compute_anomaly_event_id sha (ae_instrument wire) (ae_rule wire)
                   (ae_transition wire) (ae_stream wire)
                   (ie_canonical_digest (ae_input_evidence wire)))) (\<lambda>expected.
          if ae_event_id wire \<noteq> expected
          then Err (DeCustom ''anomaly event ID does not match its canonical identity'')
          else if batch_id_of (ae_derived_evidence wire) \<noteq> event_id_str (ae_event_id wire)
          then Err (DeCustom ''anomaly derived batch ID must equal the canonical event ID'')
          else Ok wire)))))"

section \<open>Source status events\<close>

record source_status_event =
  ss_schema_version :: u16
  ss_event_id :: market_event_id
  ss_source_provider :: provider_id
  ss_status :: source_status_kind
  ss_instrument :: "instrument_id option"
  ss_stream :: stream_cursor
  ss_previous_generation :: "stream_generation option"
  ss_observed_at :: non_empty_text
  ss_continuity :: stream_continuity

definition has_gap :: "stream_continuity \<Rightarrow> bool" where
  "has_gap c \<longleftrightarrow> ct_observation c \<in> {PossibleGap, KnownGap} \<or> ct_source c \<in> {PossibleGap, KnownGap}"

definition validate_source_status ::
  "source_status_kind \<Rightarrow> stream_cursor \<Rightarrow> stream_generation option \<Rightarrow> stream_continuity
     \<Rightarrow> (unit, core_error) rres" where
  "validate_source_status status stream previous_generation continuity =
     rbind
       (if status = Recovered then
          rbind (ok_or (invalid_request
                   ''source recovery must identify the previous stream generation'')
                   previous_generation) (\<lambda>previous.
          if previous = sc_generation stream
          then Err (invalid_request ''source recovery must move to a different stream generation'')
          else if \<not> has_gap continuity
          then Err (invalid_request ''source recovery must report a possible or known gap'')
          else Ok ())
        else if previous_generation \<noteq> None
        then Err (invalid_request ''only source recovery may carry a previous stream generation'')
        else Ok ())
       (\<lambda>_.
        if status = PossibleDataGap \<and> \<not> has_gap continuity
        then Err (invalid_request ''possible-gap status requires possible or known gap continuity'')
        else if status = KnownDataGap
             \<and> ct_observation continuity \<noteq> KnownGap \<and> ct_source continuity \<noteq> KnownGap
        then Err (invalid_request ''known-gap status requires known-gap continuity'')
        else if status \<in> {Disconnected, ContinuityReset}
             \<and> ct_observation continuity = Continuous \<and> ct_source continuity = Continuous
        then Err (invalid_request ''disconnect/reset status cannot report fully continuous input'')
        else Ok ())"

definition source_status_fields ::
  "provider_id \<Rightarrow> source_status_kind \<Rightarrow> instrument_id option \<Rightarrow> stream_cursor
     \<Rightarrow> stream_generation option \<Rightarrow> string \<Rightarrow> stream_continuity \<Rightarrow> (string \<times> u8 list) list" where
  "source_status_fields provider status instrument stream previous_generation observed_at continuity =
    [(''instrument.asset_class'',
        encode_optional_text (map_option (\<lambda>i. asset_class_name (ii_asset_class i)) instrument)),
     (''instrument.code'', encode_optional_text (map_option ii_code instrument)),
     (''instrument.exchange'',
        encode_optional_text (map_option (\<lambda>i. exchange_name (ii_exchange i)) instrument)),
     (''observation_continuity'', as_bytes (continuity_name (ct_observation continuity))),
     (''observed_at'', as_bytes observed_at),
     (''previous_generation'', encode_optional_text (map_option generation_str previous_generation)),
     (''source_continuity'', as_bytes (continuity_name (ct_source continuity))),
     (''source_provider'', as_bytes (provider_name provider)),
     (''status'', as_bytes (source_status_name status)),
     (''stream.generation'', as_bytes (generation_str (sc_generation stream))),
     (''stream.sequence'', u64_be (sequence_get (sc_sequence stream)))]"

definition compute_source_status_event_id ::
  "(u8 list \<Rightarrow> u8 list) \<Rightarrow> provider_id \<Rightarrow> source_status_kind \<Rightarrow> instrument_id option \<Rightarrow> stream_cursor
     \<Rightarrow> stream_generation option \<Rightarrow> string \<Rightarrow> stream_continuity \<Rightarrow> (market_event_id, core_error) rres" where
  "compute_source_status_event_id sha provider status instrument stream previous observed continuity =
     rbind (canonical_digest sha ''magic-market/source-status-event/v1''
              (source_status_fields provider status instrument stream previous observed continuity))
       (from_validated_hex MarketEventId ''market_event_id'')"

definition source_status_event_new ::
  "(u8 list \<Rightarrow> u8 list) \<Rightarrow> source_status_kind \<Rightarrow> instrument_id option \<Rightarrow> stream_cursor
     \<Rightarrow> stream_generation option \<Rightarrow> string \<Rightarrow> stream_continuity
     \<Rightarrow> (source_status_event, core_error) rres" where
  "source_status_event_new sha status instrument stream previous raw_observed_at continuity =
     rbind (validate_source_status status stream previous continuity) (\<lambda>_.
     rbind (non_empty_text_new raw_observed_at) (\<lambda>observed_at.
     rbind (parse_instant (text_str observed_at)) (\<lambda>_.
     rbind (compute_source_status_event_id sha LocalTerminal status instrument stream previous
              (text_str observed_at) continuity) (\<lambda>event_id.
     Ok \<lparr>ss_schema_version = event_schema_version, ss_event_id = event_id,
         ss_source_provider = LocalTerminal, ss_status = status, ss_instrument = instrument,
         ss_stream = stream, ss_previous_generation = previous, ss_observed_at = observed_at,
         ss_continuity = continuity\<rparr>))))"

text \<open>The wire value has \<open>observed_at\<close> as raw text; the other fields are those of the event.\<close>

definition source_status_event_deserialize ::
  "(u8 list \<Rightarrow> u8 list) \<Rightarrow> source_status_event \<Rightarrow> string \<Rightarrow> (source_status_event, de_error) rres" where
  "source_status_event_deserialize sha wire observed_at =
     (if ss_schema_version wire \<noteq> event_schema_version
      then Err (DeCustom (''unsupported market event schema version ''
             @ dec (unat (ss_schema_version wire))))
      else if ss_source_provider wire \<noteq> LocalTerminal
      then Err (DeCustom ''local source status must use LocalTerminal'')
      else
        rbind (map_err DeCore (source_status_event_new sha (ss_status wire) (ss_instrument wire)
                 (ss_stream wire) (ss_previous_generation wire) observed_at
                 (ss_continuity wire))) (\<lambda>validated.
        if ss_event_id validated \<noteq> ss_event_id wire
        then Err (DeCustom ''source status event ID does not match its canonical identity'')
        else Ok validated))"

datatype market_event = MarketAnomaly anomaly_event | SourceStatus source_status_event

fun event_id_of :: "market_event \<Rightarrow> market_event_id" where
  "event_id_of (MarketAnomaly e) = ae_event_id e"
| "event_id_of (SourceStatus e) = ss_event_id e"

fun event_stream_of :: "market_event \<Rightarrow> stream_cursor" where
  "event_stream_of (MarketAnomaly e) = ae_stream e"
| "event_stream_of (SourceStatus e) = ss_stream e"

section \<open>What the hasher digests\<close>

text \<open>The abstract view: the whole byte string a sequence of fields feeds to the
  engine. Each piece is preceded by its length in eight bytes, the fields are closed by
  a byte no length begins with and by their number.\<close>

definition length_prefixed :: "u8 list \<Rightarrow> u8 list" where
  "length_prefixed bytes = u64_be (of_nat (length bytes)) @ bytes"

definition encode_fields :: "(string \<times> u8 list) list \<Rightarrow> u8 list" where
  "encode_fields fs = concat (map (\<lambda>(n, v). length_prefixed (as_bytes n) @ length_prefixed v) fs)"

definition preimage :: "string \<Rightarrow> (string \<times> u8 list) list \<Rightarrow> u8 list" where
  "preimage domain fs =
     length_prefixed (as_bytes domain) @ encode_fields fs @ [255] @ u64_be (of_nat (length fs))"

definition max_input :: nat where "max_input = (2 ^ 64 - 1) div 8"

definition increasing :: "string option \<Rightarrow> string list \<Rightarrow> bool" where
  "increasing p names \<longleftrightarrow>
     successively (\<lambda>a b. \<not> str_le b a) ((case p of None \<Rightarrow> [] | Some x \<Rightarrow> [x]) @ names)"

definition fed :: "u8 list \<Rightarrow> sha256" where
  "fed xs = \<lparr>engine_input = xs, total_len = of_nat (length xs)\<rparr>"

definition hashed :: "u8 list \<Rightarrow> string option \<Rightarrow> nat \<Rightarrow> canonical_hasher" where
  "hashed xs p n = \<lparr>ch_sha256 = fed xs, previous_field = p, field_count = of_nat n\<rparr>"

lemma max_input_eq: "max_input = 2305843009213693951"
  by (simp add: max_input_def)

lemma unat_of_nat_small: "n \<le> max_input \<Longrightarrow> unat (of_nat n :: u64) = n"
  by (simp add: max_input_eq unat_of_nat)

lemma length_length_prefixed [simp]: "length (length_prefixed b) = 8 + length b"
  by (simp add: length_prefixed_def)

lemma update_fed:
  assumes "length xs \<le> max_input"
  shows "sha256_update (fed xs) b = Ok h \<longleftrightarrow> length xs + length b \<le> max_input \<and> h = fed (xs @ b)"
proof (cases "length b \<le> max_input")
  case True
  have b: "length b < 2 ^ 64" using True by (simp add: max_input_eq)
  have u: "unat (of_nat (length xs) :: u64) = length xs" "unat (of_nat (length b) :: u64) = length b"
    using assms True by (auto intro: unat_of_nat_small)
  have add: "checked_add (of_nat (length xs)) (of_nat (length b) :: u64)
      = Some (of_nat (length xs) + of_nat (length b))"
    using assms True by (simp add: checked_add_def u max_input_eq)
  have sum: "unat (of_nat (length xs) + of_nat (length b) :: u64) = length xs + length b"
    using checked_add_unat [OF add] by (simp add: u)
  show ?thesis
    unfolding sha256_update_def fed_def u64_len_def
    using b by (simp add: add sum ok_or_def max_input_eq) auto
next
  case False
  then show ?thesis
  proof (cases "length b < 2 ^ 64")
    case True
    have u: "unat (of_nat (length xs) :: u64) = length xs" by (rule unat_of_nat_small [OF assms])
    have u': "unat (of_nat (length b) :: u64) = length b" using True by (simp add: unat_of_nat)
    have "\<not> length xs + length b \<le> max_input" using False by simp
    moreover have "unat c \<le> max_input \<Longrightarrow> False"
      if "checked_add (of_nat (length xs)) (of_nat (length b) :: u64) = Some c" for c
      using checked_add_unat [OF that] False by (simp add: u u')
    ultimately show ?thesis
      unfolding sha256_update_def fed_def u64_len_def
      using True by (auto simp: ok_or_def max_input_def split: option.splits)
  qed (auto simp: sha256_update_def u64_len_def ok_or_def)
qed

lemma update_length_prefixed_fed:
  assumes "length xs \<le> max_input"
  shows "update_length_prefixed (fed xs) b = Ok h \<longleftrightarrow>
     length xs + length (length_prefixed b) \<le> max_input \<and> h = fed (xs @ length_prefixed b)"
proof -
  have "update_length_prefixed (fed xs) b = Ok h \<longleftrightarrow> length b < 2 ^ 64 \<and>
    (\<exists>h'. sha256_update (fed xs) (u64_be (of_nat (length b))) = Ok h' \<and> sha256_update h' b = Ok h)"
    by (auto simp: update_length_prefixed_def res_simps u64_len_def)
  also have "\<dots> \<longleftrightarrow> length b < 2 ^ 64 \<and> length xs + 8 \<le> max_input
      \<and> sha256_update (fed (xs @ u64_be (of_nat (length b)))) b = Ok h"
    using assms by (auto simp: update_fed)
  also have "\<dots> \<longleftrightarrow> length xs + (8 + length b) \<le> max_input \<and> h = fed (xs @ length_prefixed b)"
    by (auto simp: update_fed length_prefixed_def max_input_eq)
  finally show ?thesis by simp
qed

lemma hasher_new_eq_Ok:
  "hasher_new d = Ok h \<longleftrightarrow> 8 + length d \<le> max_input
     \<and> h = hashed (length_prefixed (as_bytes d)) None 0"
proof -
  have new: "sha256_new = fed []" by (simp add: sha256_new_def fed_def)
  show ?thesis
    unfolding hasher_new_def new by (auto simp: res_simps update_length_prefixed_fed hashed_def)
qed

lemma hasher_field_eq_Ok:
  assumes "length xs \<le> max_input" "n \<le> length xs"
  shows "hasher_field (hashed xs p n) name v = Ok h \<longleftrightarrow>
     increasing p [name] \<and> length xs + length (encode_fields [(name, v)]) \<le> max_input
     \<and> h = hashed (xs @ encode_fields [(name, v)]) (Some name) (Suc n)"
proof -
  have count: "checked_add (of_nat n) (1 :: u64) = Some (of_nat (Suc n))"
  proof -
    have n: "unat (of_nat n :: u64) = n" using assms by (intro unat_of_nat_small) simp
    have "n + 1 < 2 ^ 64" using assms by (simp add: max_input_eq)
    with n have "checked_add (of_nat n) (1 :: u64) = Some (of_nat n + 1)"
      by (simp add: checked_add_def)
    then show ?thesis by (simp add: add.commute)
  qed
  let ?n = "length_prefixed (as_bytes name)" and ?v = "length_prefixed v"
  have "hasher_field (hashed xs p n) name v = Ok h \<longleftrightarrow> increasing p [name] \<and>
     (\<exists>s1 s2. update_length_prefixed (fed xs) (as_bytes name) = Ok s1 \<and>
       update_length_prefixed s1 v = Ok s2 \<and>
       h = \<lparr>ch_sha256 = s2, previous_field = Some name, field_count = of_nat (Suc n)\<rparr>)"
    unfolding hasher_field_def hashed_def canonical_hasher.simps count
    by (cases p) (auto simp: res_simps increasing_def)
  also have "\<dots> \<longleftrightarrow> increasing p [name] \<and> length xs + length ?n \<le> max_input \<and>
     (\<exists>s2. update_length_prefixed (fed (xs @ ?n)) v = Ok s2 \<and>
       h = \<lparr>ch_sha256 = s2, previous_field = Some name, field_count = of_nat (Suc n)\<rparr>)"
    by (simp only: update_length_prefixed_fed [OF assms(1)]) blast
  also have "\<dots> \<longleftrightarrow> increasing p [name] \<and> length xs + length ?n \<le> max_input \<and>
     length xs + length ?n + length ?v \<le> max_input \<and> h = hashed (xs @ ?n @ ?v) (Some name) (Suc n)"
    using update_length_prefixed_fed [of "xs @ ?n" v]
    by (auto simp del: length_length_prefixed simp: hashed_def)
  also have "\<dots> \<longleftrightarrow> increasing p [name] \<and> length xs + length (encode_fields [(name, v)]) \<le> max_input
     \<and> h = hashed (xs @ encode_fields [(name, v)]) (Some name) (Suc n)"
    by (auto simp: encode_fields_def)
  finally show ?thesis .
qed

lemma encode_fields_simps [simp]:
  "encode_fields [] = []"
  "encode_fields ((n, v) # fs) = length_prefixed (as_bytes n) @ length_prefixed v @ encode_fields fs"
  by (simp_all add: encode_fields_def)

lemma increasing_Cons:
  "increasing p (name # names) \<longleftrightarrow> increasing p [name] \<and> increasing (Some name) names"
  by (cases p) (auto simp: increasing_def)

lemma increasing_Nil [simp]: "increasing p []"
  by (cases p) (simp_all add: increasing_def)

lemma hasher_fields_eq_Ok:
  assumes "length xs \<le> max_input" "n \<le> length xs"
  shows "hasher_fields fs (hashed xs p n) = Ok h \<longleftrightarrow>
     increasing p (map fst fs) \<and> length xs + length (encode_fields fs) \<le> max_input
     \<and> h = hashed (xs @ encode_fields fs)
             (if fs = [] then p else Some (fst (List.last fs))) (n + length fs)"
  using assms
proof (induction fs arbitrary: xs p n)
  case (Cons f fs)
  obtain name v where f: "f = (name, v)" by (cases f)
  let ?e = "encode_fields [(name, v)]"
  have "hasher_fields (f # fs) (hashed xs p n) = Ok h \<longleftrightarrow>
    increasing p [name] \<and> length xs + length ?e \<le> max_input \<and>
    hasher_fields fs (hashed (xs @ ?e) (Some name) (Suc n)) = Ok h"
    using Cons.prems by (auto simp: f res_simps hasher_field_eq_Ok)
  also have "\<dots> \<longleftrightarrow> increasing p [name] \<and> length xs + length ?e \<le> max_input \<and>
    increasing (Some name) (map fst fs) \<and> length (xs @ ?e) + length (encode_fields fs) \<le> max_input
    \<and> h = hashed ((xs @ ?e) @ encode_fields fs)
            (if fs = [] then Some name else Some (fst (List.last fs))) (Suc n + length fs)"
    using Cons.IH [of "xs @ ?e" "Suc n" "Some name"] Cons.prems by auto
  finally show ?case
    by (auto simp: f increasing_Cons [of p name "map fst fs"])
qed auto

lemma hasher_finish_eq_Ok:
  assumes "length xs \<le> max_input"
  shows "hasher_finish sha (hashed xs p n) = Ok r \<longleftrightarrow>
     length xs + 9 \<le> max_input \<and> r = finish_hex sha (fed (xs @ [255] @ u64_be (of_nat n)))"
  using assms by (auto simp: hasher_finish_def hashed_def res_simps update_fed)

text \<open>The digest of ordered fields is the digest of their canonical bytes.\<close>

lemma canonical_digest_eq_Ok:
  "canonical_digest sha d fs = Ok r \<longleftrightarrow>
     increasing None (map fst fs) \<and> length (preimage d fs) \<le> max_input
     \<and> r = finish_hex sha (fed (preimage d fs))"
proof -
  let ?d = "length_prefixed (as_bytes d)"
  have "canonical_digest sha d fs = Ok r \<longleftrightarrow> 8 + length d \<le> max_input \<and>
     (\<exists>h. hasher_fields fs (hashed ?d None 0) = Ok h \<and> hasher_finish sha h = Ok r)"
    by (auto simp: canonical_digest_def res_simps hasher_new_eq_Ok)
  also have "\<dots> \<longleftrightarrow> increasing None (map fst fs) \<and> length (?d @ encode_fields fs) \<le> max_input \<and>
     hasher_finish sha (hashed (?d @ encode_fields fs)
       (if fs = [] then None else Some (fst (List.last fs))) (length fs)) = Ok r"
    by (auto simp: hasher_fields_eq_Ok)
  also have "\<dots> \<longleftrightarrow> increasing None (map fst fs) \<and> length (preimage d fs) \<le> max_input
     \<and> r = finish_hex sha (fed (preimage d fs))"
    by (auto simp: hasher_finish_eq_Ok preimage_def)
  finally show ?thesis .
qed

lemma validated_fields_eq:
  "(\<forall>f\<in>set fs. validate_canonical_field_name (fst f) = Ok ()) \<Longrightarrow>
     validated_fields fs h = hasher_fields fs h"
proof (induction fs arbitrary: h)
  case (Cons f fs)
  then show ?case by (cases f; cases "hasher_field h (fst f) (snd f)") auto
qed simp


section \<open>The canonical bytes determine the fields\<close>

lemma length_prefixed_split:
  assumes eq: "length_prefixed a @ xs = length_prefixed b @ ys"
    and a: "length a \<le> max_input" and b: "length b \<le> max_input"
  shows "a = b \<and> xs = ys"
proof -
  from eq have "u64_be (of_nat (length a)) = u64_be (of_nat (length b))"
    and rest: "a @ xs = b @ ys"
    by (simp_all add: length_prefixed_def)
  then have "(of_nat (length a) :: u64) = of_nat (length b)" by (simp only: u64_be_inject)
  then have "length a = length b" using unat_of_nat_small [OF a] unat_of_nat_small [OF b] by metis
  with rest show ?thesis by simp
qed

text \<open>A length begins with a byte below 255, so the terminator is not a length.\<close>

lemma unat_drop_bit_div: "unat (drop_bit n w) = unat w div 2 ^ n" for w :: "'a::len word"
  by (subst unat_drop_bit_eq) (rule drop_bit_eq_div)

lemma length_prefixed_hd:
  assumes "length a \<le> max_input" shows "hd (length_prefixed a @ xs) \<noteq> 255"
proof -
  have "hd (length_prefixed a @ xs) = ucast (drop_bit 56 (of_nat (length a) :: u64))"
    by (simp add: length_prefixed_def be_bytes_def upt_rec)
  moreover have "unat (drop_bit 56 (of_nat (length a) :: u64)) < 255"
    using assms by (simp only: unat_drop_bit_div unat_of_nat_small [OF assms] max_input_eq) simp
  then have "unat (ucast (drop_bit 56 (of_nat (length a) :: u64)) :: u8) < 255"
    by (simp add: unsigned_ucast_eq take_bit_eq_mod)
  ultimately show ?thesis by auto
qed

lemma encode_fields_inject:
  assumes "encode_fields fs @ [255] @ xs = encode_fields gs @ [255] @ ys"
    and "length (encode_fields fs) \<le> max_input" "length (encode_fields gs) \<le> max_input"
  shows "fs = gs"
  using assms
proof (induction fs arbitrary: gs)
  case Nil
  show ?case
  proof (cases gs)
    case (Cons g gs')
    obtain n v where g: "g = (n, v)" by (cases g)
    have "hd (encode_fields gs @ [255] @ ys) \<noteq> 255"
      using length_prefixed_hd [of "as_bytes n"] Nil.prems(3) by (simp add: Cons g)
    with Nil.prems(1) show ?thesis by (metis append_Cons append_Nil encode_fields_simps(1) list.sel(1))
  qed simp
next
  case (Cons f fs)
  obtain n v where f: "f = (n, v)" by (cases f)
  show ?case
  proof (cases gs)
    case Nil
    have "hd (encode_fields (f # fs) @ [255] @ xs) \<noteq> 255"
      using length_prefixed_hd [of "as_bytes n"] Cons.prems(2) by (simp add: f)
    with Cons.prems(1) Nil show ?thesis
      by (metis append_Cons append_Nil encode_fields_simps(1) list.sel(1))
  next
    case gs: (Cons g gs')
    obtain m w where g: "g = (m, w)" by (cases g)
    have "length_prefixed (as_bytes n) @ (length_prefixed v @ encode_fields fs @ [255] @ xs)
        = length_prefixed (as_bytes m) @ (length_prefixed w @ encode_fields gs' @ [255] @ ys)"
      using Cons.prems(1) by (simp add: f g gs)
    from length_prefixed_split [OF this] have nm: "as_bytes n = as_bytes m"
      and r: "length_prefixed v @ encode_fields fs @ [255] @ xs
        = length_prefixed w @ encode_fields gs' @ [255] @ ys"
      using Cons.prems(2,3) by (auto simp: f g gs)
    from length_prefixed_split [OF r] have vw: "v = w"
      and rest: "encode_fields fs @ [255] @ xs = encode_fields gs' @ [255] @ ys"
      using Cons.prems(2,3) by (auto simp: f g gs)
    have "fs = gs'" using Cons.IH [OF rest] Cons.prems(2,3) by (simp add: f g gs)
    with nm vw show ?thesis by (simp add: f g gs)
  qed
qed

lemma preimage_inject:
  assumes "preimage d fs = preimage d' fs'"
    and len: "length (preimage d fs) \<le> max_input" "length (preimage d' fs') \<le> max_input"
  shows "d = d' \<and> fs = fs'"
proof -
  have eq: "length_prefixed (as_bytes d) @ (encode_fields fs @ [255] @ u64_be (of_nat (length fs)))
      = length_prefixed (as_bytes d') @ (encode_fields fs' @ [255] @ u64_be (of_nat (length fs')))"
    using assms(1) by (simp only: preimage_def append_assoc)
  have "as_bytes d = as_bytes d'"
    and "encode_fields fs @ [255] @ u64_be (of_nat (length fs))
      = encode_fields fs' @ [255] @ u64_be (of_nat (length fs'))"
    using length_prefixed_split [OF eq] len by (auto simp: preimage_def)
  then show ?thesis using encode_fields_inject [of fs _ fs'] len by (auto simp: preimage_def)
qed

section \<open>Hexadecimal output\<close>

lemma hex_digit_char:
  assumes "k < 16" shows "is_lower_hex (hex_digits ! k)"
proof -
  have "\<forall>c\<in>set hex_digits. is_lower_hex c"
    by (simp add: hex_digits_def is_lower_hex_def is_ascii_digit_def)
  moreover have "length hex_digits = 16" by (simp add: hex_digits_def)
  then have "hex_digits ! k \<in> set hex_digits" using assms by (intro nth_mem) simp
  ultimately show ?thesis by blast
qed

lemma nibbles:
  fixes b :: u8
  shows "unat (drop_bit 4 b) < 16" "unat (b AND 15) < 16"
    "unat b = 16 * unat (drop_bit 4 b) + unat (b AND 15)"
proof -
  have hi: "unat (drop_bit 4 b) = unat b div 16" by (simp only: unat_drop_bit_div) simp
  have "b AND 15 = take_bit 4 b" by (simp add: take_bit_eq_mask mask_eq_exp_minus_1)
  then have lo: "unat (b AND 15) = unat b mod 16"
    by (simp only: unsigned_take_bit_eq) (simp add: take_bit_eq_mod)
  have "unat b < 256" using unsigned_less [of b] by simp
  then show "unat (drop_bit 4 b) < 16" "unat (b AND 15) < 16"
    "unat b = 16 * unat (drop_bit 4 b) + unat (b AND 15)"
    unfolding hi lo by auto
qed

lemma hex_digits_distinct: "j < 16 \<Longrightarrow> k < 16 \<Longrightarrow> hex_digits ! j = hex_digits ! k \<Longrightarrow> j = k"
proof -
  have "distinct hex_digits" "length hex_digits = 16" by (simp_all add: hex_digits_def)
  then show "j < 16 \<Longrightarrow> k < 16 \<Longrightarrow> hex_digits ! j = hex_digits ! k \<Longrightarrow> j = k"
    using nth_eq_iff_index_eq by metis
qed

definition hex_of :: "u8 list \<Rightarrow> string" where
  "hex_of bs = concat (map (\<lambda>b. [hex_digits ! unat (drop_bit 4 b), hex_digits ! unat (b AND 15)]) bs)"

lemma length_hex_of [simp]: "length (hex_of bs) = 2 * length bs"
  by (induction bs) (simp_all add: hex_of_def)

lemma hex_of_lower: "list_all is_lower_hex (hex_of bs)"
  by (induction bs) (simp_all add: hex_of_def hex_digit_char nibbles(1,2))

lemma hex_of_inject: "hex_of bs = hex_of cs \<Longrightarrow> bs = cs"
proof (induction bs arbitrary: cs)
  case Nil
  then show ?case by (cases cs) (auto simp: hex_of_def)
next
  case (Cons b bs)
  then obtain c cs' where cs: "cs = c # cs'" by (cases cs) (auto simp: hex_of_def)
  have "unat (drop_bit 4 b) = unat (drop_bit 4 c)" "unat (b AND 15) = unat (c AND 15)"
    using Cons.prems by (auto simp: cs hex_of_def intro!: hex_digits_distinct nibbles(1,2))
  then have "unat b = unat c" by (simp only: nibbles(3) [of b] nibbles(3) [of c])
  then have "b = c" by (simp only: word_unat_eq_iff)
  moreover have "bs = cs'" using Cons by (simp add: cs hex_of_def)
  ultimately show ?case by (simp add: cs)
qed

lemma finish_hex_fed: "finish_hex sha (fed xs) = hex_of (sha xs)"
  by (simp add: finish_hex_def fed_def hex_of_def)

section \<open>Digests of an engine with 32-byte outputs\<close>

definition digest_engine :: "(u8 list \<Rightarrow> u8 list) \<Rightarrow> bool" where
  "digest_engine sha \<longleftrightarrow> (\<forall>x. length (sha x) = 32)"

definition no_collision :: "(u8 list \<Rightarrow> u8 list) \<Rightarrow> u8 list \<Rightarrow> u8 list \<Rightarrow> bool" where
  "no_collision sha x y \<longleftrightarrow> (sha x = sha y \<longrightarrow> x = y)"

lemma from_validated_hex_eq_Ok:
  "from_validated_hex con f v = Ok x \<longleftrightarrow> length v = 64 \<and> list_all is_lower_hex v \<and> x = con v"
  by (auto simp: from_validated_hex_def validate_sha256_hex_def res_simps)

lemma digest_eq_Ok:
  "rbind (canonical_digest sha d fs) (from_validated_hex con f) = Ok x \<longleftrightarrow>
     increasing None (map fst fs) \<and> length (preimage d fs) \<le> max_input
     \<and> length (sha (preimage d fs)) = 32 \<and> x = con (hex_of (sha (preimage d fs)))"
  by (auto simp: res_simps canonical_digest_eq_Ok from_validated_hex_eq_Ok finish_hex_fed
      hex_of_lower)

text \<open>Equal digests of two canonical encodings come from the same domain and fields.\<close>

lemma digest_inject:
  assumes "rbind (canonical_digest sha d fs) (from_validated_hex con f) = Ok (con r)"
    and "rbind (canonical_digest sha d' fs') (from_validated_hex con f) = Ok (con r)"
    and inj: "\<And>a b. con a = con b \<Longrightarrow> a = b"
    and nc: "no_collision sha (preimage d fs) (preimage d' fs')"
  shows "d = d' \<and> fs = fs'"
proof -
  have "hex_of (sha (preimage d fs)) = hex_of (sha (preimage d' fs'))"
    using assms(1,2) inj by (metis digest_eq_Ok)
  then have "preimage d fs = preimage d' fs'"
    using hex_of_inject nc by (auto simp: no_collision_def)
  then show ?thesis using assms(1,2) by (intro preimage_inject) (auto simp: digest_eq_Ok)
qed

lemma lower_hex_trim:
  assumes "list_all is_lower_hex s" "s \<noteq> []" shows "trim s = s"
proof -
  have c: "byte_of c < (128 :: nat) \<and> \<not> is_whitespace [c]" if "is_lower_hex c" for c
    using that digit_ascii [of c] by (auto simp: is_lower_hex_def is_whitespace_def Let_def)
  then have "is_ascii_text s" using assms(1) by (auto simp: is_ascii_text_def list_all_iff)
  then show ?thesis using c assms by (intro trim_ascii) (auto simp: list_all_iff)
qed

section \<open>Names are distinct\<close>

lemma exchange_name_inject [simp]: "exchange_name a = exchange_name b \<longleftrightarrow> a = b"
  by (cases a; cases b) simp_all

lemma asset_class_name_inject [simp]: "asset_class_name a = asset_class_name b \<longleftrightarrow> a = b"
  by (cases a; cases b) simp_all

lemma time_basis_name_inject [simp]: "time_basis_name a = time_basis_name b \<longleftrightarrow> a = b"
  by (cases a; cases b) simp_all

lemma continuity_name_inject [simp]: "continuity_name a = continuity_name b \<longleftrightarrow> a = b"
  by (cases a; cases b) simp_all

lemma transition_name_inject [simp]: "transition_name a = transition_name b \<longleftrightarrow> a = b"
  by (cases a; cases b) simp_all

lemma source_status_name_inject [simp]: "source_status_name a = source_status_name b \<longleftrightarrow> a = b"
  by (cases a; cases b) simp_all

lemma encode_optional_text_inject [simp]:
  "encode_optional_text a = encode_optional_text b \<longleftrightarrow> a = b"
  by (cases a; cases b) (auto simp: encode_optional_text_def)

lemma text_str_inject [simp]: "text_str a = text_str b \<longleftrightarrow> a = b"
  by (cases a; cases b) simp

lemma generation_str_inject [simp]: "generation_str a = generation_str b \<longleftrightarrow> a = b"
  by (cases a; cases b) simp

lemma sequence_get_inject [simp]: "sequence_get a = sequence_get b \<longleftrightarrow> a = b"
  by (cases a; cases b) simp

lemma option_text_inject: "map_option text_str a = map_option text_str b \<longleftrightarrow> a = b"
  by (cases a; cases b) simp_all

section \<open>Event identity\<close>

lemma anomaly_event_fields_inject:
  assumes "anomaly_event_fields i r t s d = anomaly_event_fields i' r' t' s' d'"
  shows "i = i' \<and> r = r' \<and> t = t' \<and> s = s' \<and> d = d'"
  using assms
  by (auto simp: anomaly_event_fields_def intro!: instrument_id.equality stream_cursor.equality
      anomaly_rule_identity.equality positive_u32.expand anomaly_rule_digest.expand
      anomaly_input_digest.expand)

lemma anomaly_input_fields_inject:
  assumes "anomaly_input_fields i t c1 c2 b k d = anomaly_input_fields i' t' c1' c2' b' k' d'"
  shows "i = i' \<and> c1 = c1' \<and> c2 = c2' \<and> b = b' \<and> k = k' \<and> d = d'
    \<and> (se_provider (lt_first t) = se_provider (lt_first t')
       \<and> se_provider (lt_last t) = se_provider (lt_last t') \<longrightarrow> t = t')"
  using assms
  by (auto simp: anomaly_input_fields_def source_at_of_def observed_at_of_def batch_id_of_def
      option_text_inject
      intro!: instrument_id.equality stream_cursor.equality stream_continuity.equality
        rule_input_digest.expand local_terminal_evidence.equality source_evidence.equality)

lemma source_status_fields_inject:
  assumes "source_status_fields p st i s g ob k = source_status_fields p st' i' s' g' ob' k'"
  shows "st = st' \<and> i = i' \<and> s = s' \<and> g = g' \<and> ob = ob' \<and> k = k'"
proof -
  have opt: "map_option f a = map_option f b \<Longrightarrow> map_option g' a = map_option g' b
      \<Longrightarrow> map_option h a = map_option h b
      \<Longrightarrow> (\<And>x y. f x = f y \<Longrightarrow> g' x = g' y \<Longrightarrow> h x = h y \<Longrightarrow> x = y) \<Longrightarrow> a = b"
    for f :: "'x \<Rightarrow> 'y" and g' :: "'x \<Rightarrow> 'z" and h :: "'x \<Rightarrow> 'w" and a b
    by (cases a; cases b) auto
  have "i = i'"
    using assms
    by (intro opt [of "\<lambda>i. asset_class_name (ii_asset_class i)" _ _ ii_code
          "\<lambda>i. exchange_name (ii_exchange i)"])
       (auto simp: source_status_fields_def intro!: instrument_id.equality)
  moreover have "g = g'"
    using assms
    by (cases g; cases g') (auto simp: source_status_fields_def)
  ultimately show ?thesis
    using assms
    by (auto simp: source_status_fields_def intro!: stream_cursor.equality stream_continuity.equality)
qed

section \<open>Construction and deserialization agree\<close>

lemma hex_event_id:
  assumes "compute_anomaly_event_id sha i r t s d = Ok x"
  shows "trim (event_id_str x) = event_id_str x"
proof -
  have "list_all is_lower_hex (event_id_str x) \<and> event_id_str x \<noteq> []"
    using assms by (auto simp: compute_anomaly_event_id_def res_simps from_validated_hex_eq_Ok)
  then show ?thesis by (simp add: lower_hex_trim)
qed

lemma anomaly_event_new_eq_Ok:
  "anomaly_event_new sha i r t s inp obs = Ok e \<longleftrightarrow>
     validate_event_identity i s inp = Ok () \<and> validate_derived_observation_time obs inp = Ok () \<and>
     (\<exists>x d. compute_anomaly_event_id sha i r t s (ie_canonical_digest inp) = Ok x \<and>
       source_evidence_new LocalAnalysis obs (event_id_str x) = Ok d \<and>
       e = \<lparr>ae_schema_version = event_schema_version, ae_event_id = x, ae_instrument = i,
            ae_rule = r, ae_transition = t, ae_stream = s, ae_input_evidence = inp,
            ae_derived_evidence = d\<rparr>)"
  by (auto simp: anomaly_event_new_def res_simps)

lemma derived_time_trim:
  "validate_derived_observation_time obs inp = Ok () \<Longrightarrow> trim obs = obs"
  by (auto simp: validate_derived_observation_time_def res_simps dest: parse_instant_trim)

lemma anomaly_event_facts:
  assumes "anomaly_event_new sha i r t s inp obs = Ok e"
  shows "ae_instrument e = ie_instrument inp"
    "sc_generation (ae_stream e) = sc_generation (ie_last_cursor inp)"
    "se_provider (ae_derived_evidence e) = LocalAnalysis" "se_source_at (ae_derived_evidence e) = None"
    "batch_id_of (ae_derived_evidence e) = event_id_str (ae_event_id e)"
    "observed_at_of (ae_derived_evidence e) = obs"
    "\<exists>x y n. parse_instant obs = Ok x
       \<and> parse_instant (observed_at_of (lt_last (ie_terminal inp))) = Ok y
       \<and> duration_since x y = Some n"
proof -
  obtain x d where id: "validate_event_identity i s inp = Ok ()"
    and time: "validate_derived_observation_time obs inp = Ok ()"
    and x: "compute_anomaly_event_id sha i r t s (ie_canonical_digest inp) = Ok x"
    and d: "source_evidence_new LocalAnalysis obs (event_id_str x) = Ok d"
    and e: "e = \<lparr>ae_schema_version = event_schema_version, ae_event_id = x, ae_instrument = i,
            ae_rule = r, ae_transition = t, ae_stream = s, ae_input_evidence = inp,
            ae_derived_evidence = d\<rparr>"
    using assms by (auto simp: anomaly_event_new_eq_Ok)
  note ev = source_evidence_new_ok [OF d]
  show "ae_instrument e = ie_instrument inp"
    "sc_generation (ae_stream e) = sc_generation (ie_last_cursor inp)"
    using id by (auto simp: e validate_event_identity_def validate_event_generation_def res_simps)
  show "se_provider (ae_derived_evidence e) = LocalAnalysis" "se_source_at (ae_derived_evidence e) = None"
    using ev by (simp_all add: e)
  show "batch_id_of (ae_derived_evidence e) = event_id_str (ae_event_id e)"
    using ev hex_event_id [OF x] by (simp add: e)
  show "observed_at_of (ae_derived_evidence e) = obs"
    using ev derived_time_trim [OF time] by (simp add: e)
  show "\<exists>x y n. parse_instant obs = Ok x
       \<and> parse_instant (observed_at_of (lt_last (ie_terminal inp))) = Ok y
       \<and> duration_since x y = Some n"
    using time by (auto simp: validate_derived_observation_time_def res_simps split: if_splits)
qed

lemma anomaly_input_evidence_eq_Ok:
  "anomaly_input_evidence_new sha i t c1 c2 b k d = Ok e \<longleftrightarrow>
     validate_input_range t c1 c2 b = Ok () \<and>
     (\<exists>x. compute_anomaly_input_digest sha i t c1 c2 b k d = Ok x \<and>
       e = \<lparr>ie_instrument = i, ie_terminal = t, ie_first_cursor = c1, ie_last_cursor = c2,
            ie_time_basis = b, ie_continuity = k, ie_rule_inputs_digest = d,
            ie_canonical_digest = x\<rparr>)"
  by (auto simp: anomaly_input_evidence_new_def res_simps)

lemma anomaly_input_evidence_deserialize_eq_Ok:
  "anomaly_input_evidence_deserialize sha w = Ok e \<longleftrightarrow> e = w \<and>
     anomaly_input_evidence_new sha (ie_instrument w) (ie_terminal w) (ie_first_cursor w)
       (ie_last_cursor w) (ie_time_basis w) (ie_continuity w) (ie_rule_inputs_digest w) = Ok w"
  by (auto simp: anomaly_input_evidence_deserialize_def anomaly_input_evidence_eq_Ok res_simps
      split: if_splits intro!: anomaly_input_evidence.equality)

lemma source_status_event_new_eq_Ok:
  "source_status_event_new sha st i s g raw k = Ok e \<longleftrightarrow>
     validate_source_status st s g k = Ok () \<and>
     (\<exists>t x id. non_empty_text_new raw = Ok t \<and> parse_instant (text_str t) = Ok x \<and>
       compute_source_status_event_id sha LocalTerminal st i s g (text_str t) k = Ok id \<and>
       e = \<lparr>ss_schema_version = event_schema_version, ss_event_id = id,
            ss_source_provider = LocalTerminal, ss_status = st, ss_instrument = i, ss_stream = s,
            ss_previous_generation = g, ss_observed_at = t, ss_continuity = k\<rparr>)"
  by (auto simp: source_status_event_new_def res_simps)

lemma source_status_deserialize:
  assumes "source_status_event_new sha st i s g raw k = Ok e"
  shows "source_status_event_deserialize sha e (text_str (ss_observed_at e)) = Ok e"
proof -
  have "source_status_event_new sha (ss_status e) (ss_instrument e) (ss_stream e)
      (ss_previous_generation e) (text_str (ss_observed_at e)) (ss_continuity e) = Ok e"
    using assms by (auto simp: source_status_event_new_eq_Ok non_empty_text_new_str
        non_empty_text_new_eq_Ok)
  moreover have "ss_schema_version e = event_schema_version" "ss_source_provider e = LocalTerminal"
    using assms by (auto simp: source_status_event_new_eq_Ok)
  ultimately show ?thesis by (simp add: source_status_event_deserialize_def)
qed

lemma source_status_identity:
  assumes a: "source_status_event_new sha st i s g raw k = Ok a"
    and b: "source_status_event_new sha st' i' s' g' raw' k' = Ok b"
    and nc: "no_collision sha
      (preimage ''magic-market/source-status-event/v1''
        (source_status_fields LocalTerminal st i s g (text_str (ss_observed_at a)) k))
      (preimage ''magic-market/source-status-event/v1''
        (source_status_fields LocalTerminal st' i' s' g' (text_str (ss_observed_at b)) k'))"
  shows "ss_event_id a = ss_event_id b \<longleftrightarrow> a = b"
proof
  assume eq: "ss_event_id a = ss_event_id b"
  have "compute_source_status_event_id sha LocalTerminal st i s g (text_str (ss_observed_at a)) k
      = Ok (MarketEventId (event_id_str (ss_event_id a)))"
    "compute_source_status_event_id sha LocalTerminal st' i' s' g' (text_str (ss_observed_at b)) k'
      = Ok (MarketEventId (event_id_str (ss_event_id a)))"
    using a b eq by (auto simp: source_status_event_new_eq_Ok)
  then have "source_status_fields LocalTerminal st i s g (text_str (ss_observed_at a)) k
      = source_status_fields LocalTerminal st' i' s' g' (text_str (ss_observed_at b)) k'"
    unfolding compute_source_status_event_id_def using nc
    by (blast dest: digest_inject [where con = MarketEventId])
  from source_status_fields_inject [OF this] show "a = b"
    using a b eq by (auto simp: source_status_event_new_eq_Ok)
qed simp

section \<open>Stream positions\<close>

lemma checked_next_eq_Ok:
  "checked_next s = Ok t \<longleftrightarrow> unat (sequence_get s) + 1 < 2 ^ 64
     \<and> unat (sequence_get t) = unat (sequence_get s) + 1"
proof -
  have one: "unat (1 :: u64) = 1" by simp
  have "checked_next s = Ok t \<longleftrightarrow> (\<exists>n. checked_add (sequence_get s) 1 = Some n \<and> n \<noteq> 0 \<and> t = StreamSequence n)"
    by (auto simp: checked_next_def res_simps stream_sequence_new_def)
  also have "\<dots> \<longleftrightarrow> unat (sequence_get s) + 1 < 2 ^ 64 \<and> sequence_get t = sequence_get s + 1"
  proof -
    have "sequence_get s + 1 \<noteq> 0" if "unat (sequence_get s) + 1 < 2 ^ 64"
    proof
      assume "sequence_get s + 1 = 0"
      then have "unat (sequence_get s + 1) = 0" by simp
      moreover have "unat (sequence_get s + 1) = unat (sequence_get s) + 1"
        using unat_add_no_overflow [of "sequence_get s" 1] that by simp
      ultimately show False by simp
    qed
    then show ?thesis by (cases t) (auto simp: checked_add_def)
  qed
  also have "\<dots> \<longleftrightarrow> unat (sequence_get s) + 1 < 2 ^ 64
     \<and> unat (sequence_get t) = unat (sequence_get s) + 1"
    using unat_add_no_overflow [of "sequence_get s" 1] by (auto simp: word_unat_eq_iff)
  finally show ?thesis .
qed

section \<open>Digests of caller-supplied fields\<close>

lemma validated_fields_hasher: "validated_fields fs h = Ok h' \<Longrightarrow> hasher_fields fs h = Ok h'"
  by (induction fs h rule: validated_fields.induct) (auto simp: res_simps)

lemma canonical_fields_digest_canonical:
  "canonical_fields_digest sha d context fs = Ok r \<Longrightarrow> canonical_digest sha d fs = Ok r"
  by (auto simp: canonical_fields_digest_def canonical_digest_def res_simps
      dest: validated_fields_hasher split: if_splits)

lemma rule_digest_inject:
  assumes "anomaly_rule_digest_of sha fs = Ok d" "anomaly_rule_digest_of sha gs = Ok d"
    and nc: "no_collision sha (preimage ''magic-market/anomaly-rule-definition/v1'' fs)
      (preimage ''magic-market/anomaly-rule-definition/v1'' gs)"
  shows "fs = gs"
proof -
  have "rbind (canonical_digest sha ''magic-market/anomaly-rule-definition/v1'' hs)
      (from_validated_hex AnomalyRuleDigest ''anomaly_rule_digest'') = Ok (AnomalyRuleDigest (rule_digest_str d))"
    if "anomaly_rule_digest_of sha hs = Ok d" for hs
    using that by (auto simp: anomaly_rule_digest_of_def res_simps dest: canonical_fields_digest_canonical)
  from digest_inject [OF this this, OF assms(1,2) _ nc] show ?thesis by simp
qed

lemma rule_identity_inject:
  assumes a: "from_canonical_definition sha rule_id v fs = Ok a"
    and b: "from_canonical_definition sha rule_id v' gs = Ok b"
    and nc: "no_collision sha (preimage ''magic-market/anomaly-rule-definition/v1'' fs)
      (preimage ''magic-market/anomaly-rule-definition/v1'' gs)"
  shows "a = b \<longleftrightarrow> v = v' \<and> fs = gs"
proof
  assume eq: "a = b"
  have "anomaly_rule_digest_of sha fs = Ok (ri_definition_digest a)" "ri_revision a = PositiveU32 v"
    "anomaly_rule_digest_of sha gs = Ok (ri_definition_digest b)" "ri_revision b = PositiveU32 v'"
    using a b by (auto simp: from_canonical_definition_def anomaly_rule_identity_new_def res_simps)
  then show "v = v' \<and> fs = gs" using eq rule_digest_inject nc by auto
qed (use a b in auto)

lemma event_deserialize_aux:
  assumes "anomaly_event_new sha i r t s inp obs = Ok e"
  shows "anomaly_event_deserialize sha e = Ok e"
proof -
  obtain x d where id: "validate_event_identity i s inp = Ok ()"
    and time: "validate_derived_observation_time obs inp = Ok ()"
    and x: "compute_anomaly_event_id sha i r t s (ie_canonical_digest inp) = Ok x"
    and d: "source_evidence_new LocalAnalysis obs (event_id_str x) = Ok d"
    and e: "e = \<lparr>ae_schema_version = event_schema_version, ae_event_id = x, ae_instrument = i,
            ae_rule = r, ae_transition = t, ae_stream = s, ae_input_evidence = inp,
            ae_derived_evidence = d\<rparr>"
    using assms by (auto simp: anomaly_event_new_eq_Ok)
  note ev = source_evidence_new_ok [OF d]
  have "observed_at_of d = obs" using ev derived_time_trim [OF time] by simp
  moreover have "batch_id_of d = event_id_str x" using ev hex_event_id [OF x] by simp
  ultimately show ?thesis
    using ev id time x
    by (simp add: anomaly_event_deserialize_def e validate_provider_def source_at_of_def)
qed

end
