(* ===== verification/Monitor_Types.thy ===== *)
theory Monitor_Types
  imports Market_Event
begin

text \<open>
  The vocabulary the monitors of \<open>magic-market-monitor\<close> share, from \<open>price.rs\<close>:
  limits, injected observations, rule states, errors, and the endpoint evidence a
  monitor hands out. \<open>arrival_millis\<close> and the other machine integers are words.
\<close>

section \<open>Errors and limits\<close>

datatype observation_family = PriceFamily | CumulativeAmount | CumulativeVolume
datatype source_quantity_unit = Lot | Share

datatype monitor_error =
    InvalidConfiguration string
  | InvalidObservation string
  | FamilyUnavailable observation_family
  | UnitUnavailable observation_family
  | SourceQuantityUnitMismatch (expected_unit: source_quantity_unit) (actual_unit: source_quantity_unit)
  | InstrumentLimit u16
  | DuplicateObservation u64
  | OutOfOrderObservation (previous_arrival: u64) (actual_arrival: u64)
  | WindowOverflow u16
  | PriceChangeOverflow
  | CumulativeDeltaOverflow

fun unit_str :: "source_quantity_unit \<Rightarrow> string" where
  "unit_str Lot = ''lot''"
| "unit_str Share = ''share''"

fun family_str :: "observation_family \<Rightarrow> string" where
  "family_str PriceFamily = ''price''"
| "family_str CumulativeAmount = ''cumulative_amount''"
| "family_str CumulativeVolume = ''cumulative_volume''"

record monitor_limits =
  max_instruments :: u16
  window_capacity :: u16

definition monitor_limits_new :: "u16 \<Rightarrow> u16 \<Rightarrow> (monitor_limits, monitor_error) rres" where
  "monitor_limits_new instruments capacity =
     (if instruments = 0 then Err (InvalidConfiguration ''max instruments must be positive'')
      else if capacity < 2 then Err (InvalidConfiguration ''window capacity must be at least two'')
      else Ok \<lparr>max_instruments = instruments, window_capacity = capacity\<rparr>)"

section \<open>Observations\<close>

record injected_observation =
  ob_instrument :: instrument_id
  ob_evidence :: source_evidence
  ob_arrival_millis :: u64
  ob_price :: "price option"
  ob_cumulative_amount :: "money option"
  ob_cumulative_volume :: "quantity option"
  ob_cumulative_volume_unit :: "source_quantity_unit option"
  ob_source_record_count :: "u64 option"
  ob_stream_cursor :: "stream_cursor option"
  ob_continuity :: continuity_state

definition observation_from_families ::
  "instrument_id \<Rightarrow> source_evidence \<Rightarrow> u64 \<Rightarrow> price option \<Rightarrow> money option \<Rightarrow> quantity option
     \<Rightarrow> source_quantity_unit option \<Rightarrow> continuity_state
     \<Rightarrow> (injected_observation, monitor_error) rres" where
  "observation_from_families instrument evidence arrival price amount volume unit continuity =
     (if se_provider evidence \<noteq> LocalTerminal
      then Err (InvalidObservation ''observation evidence must use LocalTerminal'')
      else if (case amount of None \<Rightarrow> False | Some a \<Rightarrow> f64_lt (money_get a) f64_zero)
      then Err (InvalidObservation ''cumulative amount must be non-negative'')
      else Ok \<lparr>ob_instrument = instrument, ob_evidence = evidence, ob_arrival_millis = arrival,
               ob_price = price, ob_cumulative_amount = amount, ob_cumulative_volume = volume,
               ob_cumulative_volume_unit = unit, ob_source_record_count = None,
               ob_stream_cursor = None, ob_continuity = continuity\<rparr>)"

definition observation_new ::
  "instrument_id \<Rightarrow> source_evidence \<Rightarrow> u64 \<Rightarrow> price \<Rightarrow> money \<Rightarrow> quantity
     \<Rightarrow> source_quantity_unit \<Rightarrow> continuity_state \<Rightarrow> (injected_observation, monitor_error) rres" where
  "observation_new instrument evidence arrival price amount volume unit continuity =
     observation_from_families instrument evidence arrival (Some price) (Some amount)
       (Some volume) (Some unit) continuity"

definition with_source_record_count :: "injected_observation \<Rightarrow> u64 \<Rightarrow> injected_observation" where
  "with_source_record_count ob count = ob\<lparr>ob_source_record_count := Some count\<rparr>"

definition with_stream_cursor :: "injected_observation \<Rightarrow> stream_cursor \<Rightarrow> injected_observation" where
  "with_stream_cursor ob cursor = ob\<lparr>ob_stream_cursor := Some cursor\<rparr>"

definition require_family ::
  "injected_observation \<Rightarrow> observation_family \<Rightarrow> (unit, monitor_error) rres" where
  "require_family ob family =
     (let available = (case family of
          PriceFamily \<Rightarrow> ob_price ob \<noteq> None
        | CumulativeAmount \<Rightarrow> ob_cumulative_amount ob \<noteq> None
        | CumulativeVolume \<Rightarrow> ob_cumulative_volume ob \<noteq> None)
      in if available then Ok () else Err (FamilyUnavailable family))"

text \<open>What every constructor guarantees of an observation.\<close>

definition observation_ok :: "injected_observation \<Rightarrow> bool" where
  "observation_ok ob \<longleftrightarrow>
     se_provider (ob_evidence ob) = LocalTerminal
     \<and> (case ob_price ob of None \<Rightarrow> True | Some p \<Rightarrow> price_ok p)
     \<and> (case ob_cumulative_amount ob of None \<Rightarrow> True
        | Some a \<Rightarrow> money_ok a \<and> f64_le f64_zero (money_get a))
     \<and> (case ob_cumulative_volume ob of None \<Rightarrow> True | Some v \<Rightarrow> quantity_ok v)"

section \<open>Rule states\<close>

datatype rule_state = WarmingUp | Armed | Triggered | CoolingDown

datatype reset_reason =
    NonContinuous continuity_state
  | CumulativeAmountRollback
  | CumulativeVolumeRollback
  | SourceRecordCountRollback
  | SamplingGap
  | TradingDateChanged
  | SessionBoundary
  | MiddayBreak

datatype injected_reset_signal = SignalTradingDateChanged | SignalSessionBoundary | SignalMiddayBreak

fun reset_reason_of :: "injected_reset_signal \<Rightarrow> reset_reason" where
  "reset_reason_of SignalTradingDateChanged = TradingDateChanged"
| "reset_reason_of SignalSessionBoundary = SessionBoundary"
| "reset_reason_of SignalMiddayBreak = MiddayBreak"

text \<open>The loop of \<open>prune_for\<close>: while a second point is at or before the cutoff, the
  first is dropped.\<close>

fun drop_expired :: "u64 \<Rightarrow> injected_observation list \<Rightarrow> injected_observation list" where
  "drop_expired cutoff (p # q # w) =
     (if ob_arrival_millis q \<le> cutoff then drop_expired cutoff (q # w) else p # q # w)"
| "drop_expired cutoff w = w"

section \<open>Endpoint evidence\<close>

record window_evidence =
  we_instrument :: instrument_id
  we_first :: source_evidence
  we_last :: source_evidence
  we_first_arrival :: u64
  we_last_arrival :: u64
  we_first_record_count :: "u64 option"
  we_last_record_count :: "u64 option"
  we_first_cursor :: "stream_cursor option"
  we_last_cursor :: "stream_cursor option"
  we_first_price_bits :: "u64 option"
  we_last_price_bits :: "u64 option"
  we_first_amount_bits :: "u64 option"
  we_last_amount_bits :: "u64 option"
  we_first_volume_bits :: "u64 option"
  we_last_volume_bits :: "u64 option"
  we_first_volume_unit :: "source_quantity_unit option"
  we_last_volume_unit :: "source_quantity_unit option"

definition window_evidence_new ::
  "injected_observation \<Rightarrow> injected_observation \<Rightarrow> window_evidence" where
  "window_evidence_new a b =
     \<lparr>we_instrument = ob_instrument a, we_first = ob_evidence a, we_last = ob_evidence b,
      we_first_arrival = ob_arrival_millis a, we_last_arrival = ob_arrival_millis b,
      we_first_record_count = ob_source_record_count a,
      we_last_record_count = ob_source_record_count b,
      we_first_cursor = ob_stream_cursor a, we_last_cursor = ob_stream_cursor b,
      we_first_price_bits = map_option (\<lambda>v. to_bits (price_get v)) (ob_price a),
      we_last_price_bits = map_option (\<lambda>v. to_bits (price_get v)) (ob_price b),
      we_first_amount_bits = map_option (\<lambda>v. to_bits (money_get v)) (ob_cumulative_amount a),
      we_last_amount_bits = map_option (\<lambda>v. to_bits (money_get v)) (ob_cumulative_amount b),
      we_first_volume_bits = map_option (\<lambda>v. to_bits (quantity_get v)) (ob_cumulative_volume a),
      we_last_volume_bits = map_option (\<lambda>v. to_bits (quantity_get v)) (ob_cumulative_volume b),
      we_first_volume_unit = ob_cumulative_volume_unit a,
      we_last_volume_unit = ob_cumulative_volume_unit b\<rparr>"

text \<open>The typed getters: \<open>bits.map(|b| T::new(f64::from_bits(b)).expect(..))\<close>.\<close>

definition retained ::
  "(f64 \<Rightarrow> ('a, core_error) rres) \<Rightarrow> string \<Rightarrow> u64 option \<Rightarrow> ('a option, 'e) rres" where
  "retained con message bits =
     (case bits of None \<Rightarrow> Ok None | Some b \<Rightarrow> map_ok Some (expect_ok message (con (F64 b))))"

abbreviation retained_price :: "u64 option \<Rightarrow> (price option, 'e) rres" where
  "retained_price \<equiv> retained price_new ''retained optional price was validated''"

abbreviation retained_amount :: "u64 option \<Rightarrow> (money option, 'e) rres" where
  "retained_amount \<equiv> retained money_new ''retained optional amount was validated''"

abbreviation retained_volume :: "u64 option \<Rightarrow> (quantity option, 'e) rres" where
  "retained_volume \<equiv> retained quantity_new ''retained optional volume was validated''"

definition first_price :: "window_evidence \<Rightarrow> (price option, 'e) rres" where
  "first_price e = retained_price (we_first_price_bits e)"

definition last_price :: "window_evidence \<Rightarrow> (price option, 'e) rres" where
  "last_price e = retained_price (we_last_price_bits e)"

definition first_cumulative_amount :: "window_evidence \<Rightarrow> (money option, 'e) rres" where
  "first_cumulative_amount e = retained_amount (we_first_amount_bits e)"

definition last_cumulative_amount :: "window_evidence \<Rightarrow> (money option, 'e) rres" where
  "last_cumulative_amount e = retained_amount (we_last_amount_bits e)"

definition first_cumulative_volume :: "window_evidence \<Rightarrow> (quantity option, 'e) rres" where
  "first_cumulative_volume e = retained_volume (we_first_volume_bits e)"

definition last_cumulative_volume :: "window_evidence \<Rightarrow> (quantity option, 'e) rres" where
  "last_cumulative_volume e = retained_volume (we_last_volume_bits e)"

definition observed_source_record_count :: "window_evidence \<Rightarrow> u64 option" where
  "observed_source_record_count e =
     (case we_last_record_count e of None \<Rightarrow> None
      | Some l \<Rightarrow> (case we_first_record_count e of None \<Rightarrow> None | Some f \<Rightarrow> checked_sub l f))"

definition encode_optional_u64 :: "u64 option \<Rightarrow> u8 list" where
  "encode_optional_u64 value =
     (case value of Some v \<Rightarrow> 1 # u64_be v | None \<Rightarrow> replicate 9 0)"

definition core_input_evidence :: "window_evidence \<Rightarrow> (local_terminal_evidence, core_error) rres" where
  "core_input_evidence e = local_terminal_evidence_new (we_first e) (we_last e)"

definition core_event_evidence ::
  "window_evidence \<Rightarrow> source_evidence \<Rightarrow> (local_analysis_evidence, core_error) rres" where
  "core_event_evidence e derived =
     rbind (core_input_evidence e) (\<lambda>inp. local_analysis_evidence_new inp derived)"

definition core_anomaly_input_evidence ::
  "(u8 list \<Rightarrow> u8 list) \<Rightarrow> window_evidence \<Rightarrow> observation_time_basis \<Rightarrow> stream_continuity
     \<Rightarrow> rule_input_digest \<Rightarrow> (anomaly_input_evidence, core_error) rres" where
  "core_anomaly_input_evidence sha e time_basis continuity digest =
     rbind (ok_or (invalid_request ''anomaly endpoint is missing its first stream cursor'')
              (we_first_cursor e)) (\<lambda>first_cursor.
     rbind (ok_or (invalid_request ''anomaly endpoint is missing its last stream cursor'')
              (we_last_cursor e)) (\<lambda>last_cursor.
     rbind (core_input_evidence e) (\<lambda>inp.
     anomaly_input_evidence_new sha (we_instrument e) inp first_cursor last_cursor
       time_basis continuity digest)))"

section \<open>Facts\<close>

lemma observation_from_families_ok:
  assumes "observation_from_families i ev t p a v u c = Ok ob"
    and "\<And>x. p = Some x \<Longrightarrow> price_ok x" "\<And>x. a = Some x \<Longrightarrow> money_ok x"
    and "\<And>x. v = Some x \<Longrightarrow> quantity_ok x"
  shows "observation_ok ob"
proof -
  have z: "\<not> is_nan f64_zero" by (simp add: is_nan_def inf_mag_def)
  show ?thesis
    using assms z
    by (auto simp: observation_from_families_def observation_ok_def money_ok_def f64_not_lt
        is_nan_not_finite split: if_splits option.splits)
qed

lemma observation_ok_with [simp]:
  "observation_ok (with_source_record_count ob n) = observation_ok ob"
  "observation_ok (with_stream_cursor ob c) = observation_ok ob"
  by (simp_all add: observation_ok_def with_source_record_count_def with_stream_cursor_def)

lemma F64_to_bits [simp]: "F64 (to_bits x) = x"
  by (cases x) simp

text \<open>The values retained as bits come back as they went in.\<close>

lemma retained_bits:
  assumes "observation_ok a" "observation_ok b"
  shows "first_price (window_evidence_new a b) = Ok (ob_price a)"
    "last_price (window_evidence_new a b) = Ok (ob_price b)"
    "first_cumulative_amount (window_evidence_new a b) = Ok (ob_cumulative_amount a)"
    "last_cumulative_amount (window_evidence_new a b) = Ok (ob_cumulative_amount b)"
    "first_cumulative_volume (window_evidence_new a b) = Ok (ob_cumulative_volume a)"
    "last_cumulative_volume (window_evidence_new a b) = Ok (ob_cumulative_volume b)"
  using assms
  by (auto simp: observation_ok_def window_evidence_new_def retained_def first_price_def
      last_price_def first_cumulative_amount_def last_cumulative_amount_def
      first_cumulative_volume_def last_cumulative_volume_def
      price_new_get money_new_get quantity_new_get split: option.splits)

text \<open>Points of a window arrive in strictly increasing order.\<close>

definition arrivals_increase :: "injected_observation list \<Rightarrow> bool" where
  "arrivals_increase w \<longleftrightarrow> sorted_wrt (\<lambda>p q. ob_arrival_millis p < ob_arrival_millis q) w"

lemma arrivals_increase_simps [simp]:
  "arrivals_increase []" "arrivals_increase [p]"
  "arrivals_increase (p # w) \<longleftrightarrow>
     (\<forall>q\<in>set w. ob_arrival_millis p < ob_arrival_millis q) \<and> arrivals_increase w"
  by (simp_all add: arrivals_increase_def)

lemma arrivals_increase_snoc:
  "arrivals_increase (w @ [q]) \<longleftrightarrow>
     arrivals_increase w \<and> (\<forall>p\<in>set w. ob_arrival_millis p < ob_arrival_millis q)"
  by (simp add: arrivals_increase_def sorted_wrt_append)

text \<open>Pruning keeps a suffix: the last point at or before the cutoff, when there is
  one, and every later point.\<close>

lemma drop_expired_suffix: "\<exists>v. w = v @ drop_expired c w"
proof (induction c w rule: drop_expired.induct)
  case (1 c p q w)
  show ?case
  proof (cases "ob_arrival_millis q \<le> c")
    case True
    with 1 obtain v where "q # w = v @ drop_expired c (q # w)" by blast
    then have "p # q # w = (p # v) @ drop_expired c (p # q # w)" using True by simp
    then show ?thesis by blast
  qed simp
qed simp_all

lemma drop_expired_set: "set (drop_expired c w) \<subseteq> set w"
  by (metis drop_expired_suffix set_append sup.cobounded2)

lemma drop_expired_length: "length (drop_expired c w) \<le> length w"
  by (metis drop_expired_suffix le_add2 length_append)

lemma drop_expired_Nil [simp]: "drop_expired c w = [] \<longleftrightarrow> w = []"
  by (induction c w rule: drop_expired.induct) auto

lemma drop_expired_last: "w \<noteq> [] \<Longrightarrow> List.last (drop_expired c w) = List.last w"
  by (induction c w rule: drop_expired.induct) auto

lemma drop_expired_increase: "arrivals_increase w \<Longrightarrow> arrivals_increase (drop_expired c w)"
  by (metis arrivals_increase_def drop_expired_suffix sorted_wrt_append)

lemma drop_expired_spec:
  assumes "arrivals_increase w"
  shows "drop_expired c w =
     (case filter (\<lambda>p. ob_arrival_millis p \<le> c) w of
        [] \<Rightarrow> w
      | es \<Rightarrow> List.last es # filter (\<lambda>p. c < ob_arrival_millis p) w)"
  using assms
proof (induction c w rule: drop_expired.induct)
  case (1 c p q w)
  show ?case
  proof (cases "ob_arrival_millis q \<le> c")
    case True
    with "1.prems" have "ob_arrival_millis p \<le> c" by auto
    with 1 True show ?thesis by (auto split: list.splits)
  next
    case False
    with "1.prems" have later: "\<forall>x\<in>set (q # w). c < ob_arrival_millis x" by force
    then have "filter (\<lambda>p. ob_arrival_millis p \<le> c) (q # w) = []"
      and "filter (\<lambda>p. c < ob_arrival_millis p) (q # w) = q # w"
      by (auto simp: filter_empty_conv filter_id_conv)
    with False show ?thesis by (cases "ob_arrival_millis p \<le> c") auto
  qed
qed auto

section \<open>Boundaries and endpoint evidence\<close>

lemma is_nan_zero [simp]: "\<not> is_nan f64_zero"
  by (simp add: is_nan_def inf_mag_def)

text \<open>The boundary of the window an observation is measured against: the latest point at
  or before the cutoff, within the tolerance.\<close>

definition is_boundary ::
  "u64 \<Rightarrow> u64 \<Rightarrow> injected_observation list \<Rightarrow> injected_observation \<Rightarrow> bool" where
  "is_boundary cutoff tolerance w b \<longleftrightarrow> b \<in> set w \<and> ob_arrival_millis b \<le> cutoff
     \<and> cutoff - ob_arrival_millis b \<le> tolerance
     \<and> (\<forall>q\<in>set w. ob_arrival_millis q \<le> cutoff \<longrightarrow> ob_arrival_millis q \<le> ob_arrival_millis b)"

lemma drop_expired_hd:
  assumes inc: "arrivals_increase w" and hd: "drop_expired c w = b # v" and b: "ob_arrival_millis b \<le> c"
  shows "b \<in> set w \<and> (\<forall>q\<in>set w. ob_arrival_millis q \<le> c \<longrightarrow> ob_arrival_millis q \<le> ob_arrival_millis b)"
proof -
  have "b \<in> set w" using drop_expired_set [of c w] hd by auto
  moreover have "ob_arrival_millis q \<le> ob_arrival_millis b"
    if q: "q \<in> set w" "ob_arrival_millis q \<le> c" for q
  proof -
    obtain u where w: "w = u @ b # v" using drop_expired_suffix [of w c] hd by auto
    have "\<forall>x\<in>set v. c < ob_arrival_millis x"
    proof -
      have "filter (\<lambda>p. ob_arrival_millis p \<le> c) w \<noteq> []" using \<open>b \<in> set w\<close> b
        by (auto simp: filter_empty_conv)
      then obtain e es where es: "filter (\<lambda>p. ob_arrival_millis p \<le> c) w = e # es"
        by (cases "filter (\<lambda>p. ob_arrival_millis p \<le> c) w") auto
      have "v = filter (\<lambda>p. c < ob_arrival_millis p) w"
        using drop_expired_spec [OF inc, of c] hd es by simp
      then show ?thesis by auto
    qed
    then have "q \<in> set u \<or> q = b" using q w by (auto simp: not_less [symmetric])
    then show ?thesis using inc w by (auto simp: arrivals_increase_def sorted_wrt_append less_imp_le)
  qed
  ultimately show ?thesis by blast
qed

lemma core_anomaly_input_evidence_eq_Ok:
  "core_anomaly_input_evidence sha (window_evidence_new a b) basis k d = Ok inp \<longleftrightarrow>
     (\<exists>c1 c2. ob_stream_cursor a = Some c1 \<and> ob_stream_cursor b = Some c2
       \<and> se_provider (ob_evidence a) = LocalTerminal \<and> se_provider (ob_evidence b) = LocalTerminal
       \<and> anomaly_input_evidence_new sha (ob_instrument a)
           \<lparr>lt_first = ob_evidence a, lt_last = ob_evidence b\<rparr> c1 c2 basis k d = Ok inp)"
  by (auto simp: core_anomaly_input_evidence_def core_input_evidence_def window_evidence_new_def
      local_terminal_evidence_new_def validate_provider_def res_simps)

end
