(* ===== verification/Rule_Machine.thy ===== *)
theory Rule_Machine
  imports Monitor_Types
begin

text \<open>
  The abstract machine of an anomaly rule, which the price monitor and the
  amount and volume monitors refine: a rule warms up, is armed, triggers on a measured
  value at or above its trigger, cools down, and is armed again by a value at or below
  its rearm level once the cooldown has passed since the trigger. A restart returns it to
  warming up. The locale \<open>rule_machine\<close> is the contract of an implementation; what holds
  of every trace is proved once in it.
\<close>

section \<open>The abstract machine\<close>

record rule_params =
  rp_trigger :: f64
  rp_rearm :: f64
  rp_cooldown :: u64

datatype rule_action = Stay | Restart | Warm | Trigger f64 | Cool | Rearm f64

type_synonym rule_position = "rule_state \<times> u64 option"

inductive rule_step ::
  "rule_params \<Rightarrow> u64 \<Rightarrow> rule_position \<Rightarrow> rule_action \<Rightarrow> rule_position \<Rightarrow> bool"
  for P :: rule_params and t :: u64 where
  stay: "rule_step P t s Stay s"
| restart: "rule_step P t s Restart (WarmingUp, None)"
| warm: "rule_step P t (WarmingUp, None) Warm (Armed, None)"
| trigger: "f64_ge x (rp_trigger P) \<Longrightarrow>
    rule_step P t (Armed, None) (Trigger x) (Triggered, Some t)"
| cool: "rule_step P t (Triggered, Some u) Cool (CoolingDown, Some u)"
| rearm: "u \<le> t \<Longrightarrow> rp_cooldown P \<le> t - u \<Longrightarrow> f64_le x (rp_rearm P) \<Longrightarrow>
    rule_step P t (CoolingDown, Some u) (Rearm x) (Armed, None)"

inductive_simps rule_step_simps:
  "rule_step P t s Stay s'"
  "rule_step P t s Restart s'"
  "rule_step P t s Warm s'"
  "rule_step P t s (Trigger x) s'"
  "rule_step P t s Cool s'"
  "rule_step P t s (Rearm x) s'"

text \<open>A path: the labels are times and actions, in order.\<close>

fun rule_path ::
  "rule_params \<Rightarrow> rule_position \<Rightarrow> (u64 \<times> rule_action) list \<Rightarrow> rule_position \<Rightarrow> bool" where
  "rule_path P s [] s' \<longleftrightarrow> s' = s"
| "rule_path P s ((t, a) # xs) s' \<longleftrightarrow> (\<exists>m. rule_step P t s a m \<and> rule_path P m xs s')"

lemma rule_path_append:
  "rule_path P s (xs @ ys) s' \<longleftrightarrow> (\<exists>m. rule_path P s xs m \<and> rule_path P m ys s')"
proof (induction xs arbitrary: s)
  case (Cons l xs)
  then show ?case by (cases l) (simp del: split_paired_Ex, blast)
qed simp

lemma rule_path_fired:
  assumes "rule_path P s xs s'" "s = (Triggered, Some u) \<or> s = (CoolingDown, Some u)"
    and "Restart \<notin> snd ` set xs" "\<And>t x. (t, Rearm x) \<notin> set xs"
  shows "s' = (Triggered, Some u) \<or> s' = (CoolingDown, Some u)"
  using assms
proof (induction xs arbitrary: s)
  case (Cons l xs)
  obtain t a where l: "l = (t, a)" by (cases l)
  with Cons.prems(1) obtain m where m: "rule_step P t s a m" "rule_path P m xs s'" by auto
  have "m = (Triggered, Some u) \<or> m = (CoolingDown, Some u)"
    using m(1) Cons.prems(2-4) by cases (auto simp: l)
  then show ?case using Cons.IH [OF m(2)] Cons.prems(3,4) by auto
qed simp

text \<open>Between two triggers the rule was restarted, or was rearmed by a value at or below
  the rearm level, after at least the cooldown.\<close>

lemma rule_path_between_triggers:
  assumes path: "rule_path P s (xs @ (t1, Trigger x) # ys @ (t2, Trigger y) # zs) s'"
  shows "Restart \<in> snd ` set ys \<or>
    (\<exists>t z. (t, Rearm z) \<in> set ys \<and> t1 \<le> t \<and> rp_cooldown P \<le> t - t1 \<and> f64_le z (rp_rearm P))"
proof -
  obtain m1 where m1: "rule_path P (Triggered, Some t1) ys m1"
    and m2: "\<exists>m2. rule_step P t2 m1 (Trigger y) m2"
    using path by (auto simp: rule_path_append rule_step_simps)
  have armed: "fst m1 = Armed" using m2 by (auto simp: rule_step_simps)
  have gen: "Restart \<in> snd ` set ys \<or>
    (\<exists>t z. (t, Rearm z) \<in> set ys \<and> t1 \<le> t \<and> rp_cooldown P \<le> t - t1 \<and> f64_le z (rp_rearm P))"
    if "rule_path P p ys q" "p = (Triggered, Some t1) \<or> p = (CoolingDown, Some t1)" "fst q = Armed"
    for p q
    using that
  proof (induction ys arbitrary: p)
    case (Cons l ys)
    obtain t a where l: "l = (t, a)" by (cases l)
    with Cons.prems(1) obtain m where m: "rule_step P t p a m" "rule_path P m ys q" by auto
    show ?case
    proof (cases "m = (Triggered, Some t1) \<or> m = (CoolingDown, Some t1)")
      case True
      with Cons.IH [OF m(2)] Cons.prems(3) show ?thesis by auto
    next
      case False
      with m(1) Cons.prems(2) show ?thesis by cases (auto simp: l)
    qed
  qed auto
  show ?thesis by (rule gen [OF m1 _ armed]) simp
qed

section \<open>The contract of an implementation\<close>

locale rule_machine =
  fixes step :: "'s \<Rightarrow> injected_observation \<Rightarrow> 's \<times> ('r, monitor_error) rres"
    and inv :: "'s \<Rightarrow> bool"
    and accepts :: "injected_observation \<Rightarrow> bool"
    and position :: "'s \<Rightarrow> rule_position"
    and action :: "('r, monitor_error) rres \<Rightarrow> rule_action"
    and params :: rule_params
  assumes step_inv: "inv s \<Longrightarrow> accepts ob \<Longrightarrow> inv (fst (step s ob))"
    and step_no_panic: "inv s \<Longrightarrow> accepts ob \<Longrightarrow> no_panic (snd (step s ob))"
    and step_refines: "inv s \<Longrightarrow> accepts ob \<Longrightarrow>
      rule_step params (ob_arrival_millis ob) (position s) (action (snd (step s ob)))
        (position (fst (step s ob)))"
begin

fun run :: "'s \<Rightarrow> injected_observation list \<Rightarrow> 's" where
  "run s [] = s"
| "run s (ob # obs) = run (fst (step s ob)) obs"

fun results :: "'s \<Rightarrow> injected_observation list \<Rightarrow> ('r, monitor_error) rres list" where
  "results s [] = []"
| "results s (ob # obs) = snd (step s ob) # results (fst (step s ob)) obs"

definition labels ::
  "'s \<Rightarrow> injected_observation list \<Rightarrow> (u64 \<times> rule_action) list" where
  "labels s obs = zip (map ob_arrival_millis obs) (map action (results s obs))"

lemma length_results [simp]: "length (results s obs) = length obs"
  by (induction obs arbitrary: s) auto

lemma run_inv: "inv s \<Longrightarrow> list_all accepts obs \<Longrightarrow> inv (run s obs)"
  by (induction obs arbitrary: s) (auto intro: step_inv)

lemma run_no_panic: "inv s \<Longrightarrow> list_all accepts obs \<Longrightarrow> list_all no_panic (results s obs)"
  by (induction obs arbitrary: s) (auto intro: step_inv step_no_panic)

lemma run_refines:
  "inv s \<Longrightarrow> list_all accepts obs \<Longrightarrow>
     rule_path params (position s) (labels s obs) (position (run s obs))"
proof (induction obs arbitrary: s)
  case (Cons ob obs)
  then show ?case
    using step_refines [of s ob] step_inv [of s ob]
    by (auto simp: labels_def simp del: split_paired_Ex)
qed (simp add: labels_def)

lemma between_triggers:
  assumes "inv s" "list_all accepts obs"
    and "labels s obs = xs @ (t1, Trigger x) # ys @ (t2, Trigger y) # zs"
  shows "Restart \<in> snd ` set ys \<or>
    (\<exists>t z. (t, Rearm z) \<in> set ys \<and> t1 \<le> t \<and> rp_cooldown params \<le> t - t1
       \<and> f64_le z (rp_rearm params))"
  using run_refines [OF assms(1,2)] rule_path_between_triggers unfolding assms(3) by blast

end

end
