(* ===== verification/Keyed_Monitor.thy ===== *)
theory Keyed_Monitor
  imports Rule_Machine "HOL-Library.Mapping" "HOL-Library.AList_Mapping"
begin

text \<open>
  What a monitor over many instruments adds to one rule machine: a table from instruments
  to states, bounded in size, in which an observation touches the entry of its own
  instrument only. The locale \<open>keyed_monitor\<close> states this as a contract; the lemmas give
  the bound, the invariant of every entry, and the independence of the instruments
  from how their observations are interleaved. Both \<open>DeterministicPriceMonitor\<close> and
  \<open>DeltaMonitor\<close> interpret it.
\<close>

datatype monitor_input =
    Observe injected_observation
  | InjectReset instrument_id injected_reset_signal

locale keyed_monitor =
  fixes table :: "'m \<Rightarrow> (instrument_id, 's) mapping"
    and cfg :: "'m \<Rightarrow> 'c"
    and limit :: "'m \<Rightarrow> nat"
    and fresh :: 's
    and admits :: "'c \<Rightarrow> injected_observation \<Rightarrow> bool"
    and step :: "'c \<Rightarrow> 's \<Rightarrow> injected_observation \<Rightarrow> 's \<times> ('r, monitor_error) rres"
    and reset :: "'s \<Rightarrow> 's"
    and process :: "'m \<Rightarrow> injected_observation \<Rightarrow> 'm \<times> ('r, monitor_error) rres"
    and inject :: "'m \<Rightarrow> instrument_id \<Rightarrow> injected_reset_signal \<Rightarrow> 'm"
    and entry_inv :: "'c \<Rightarrow> 's \<Rightarrow> bool"
    and cfg_ok :: "'c \<Rightarrow> bool"
  assumes process_cfg: "cfg (fst (process m ob)) = cfg m" "limit (fst (process m ob)) = limit m"
    and inject_cfg: "cfg (inject m i g) = cfg m" "limit (inject m i g) = limit m"
    and process_refused: "\<not> admits (cfg m) ob \<Longrightarrow>
      fst (process m ob) = m \<and> (\<exists>e. snd (process m ob) = Err e)"
    and process_full: "admits (cfg m) ob \<Longrightarrow> Mapping.lookup (table m) (ob_instrument ob) = None \<Longrightarrow>
      limit m \<le> Mapping.size (table m) \<Longrightarrow>
      fst (process m ob) = m \<and> (\<exists>e. snd (process m ob) = Err e)"
    and process_entry: "admits (cfg m) ob \<Longrightarrow>
      Mapping.lookup (table m) (ob_instrument ob) \<noteq> None \<or> Mapping.size (table m) < limit m \<Longrightarrow>
      table (fst (process m ob)) = Mapping.update (ob_instrument ob)
        (fst (step (cfg m) (Mapping.lookup_default fresh (table m) (ob_instrument ob)) ob)) (table m)
      \<and> snd (process m ob)
          = snd (step (cfg m) (Mapping.lookup_default fresh (table m) (ob_instrument ob)) ob)"
    and inject_table: "table (inject m i g) =
      (case Mapping.lookup (table m) i of None \<Rightarrow> table m
       | Some s \<Rightarrow> Mapping.update i (reset s) (table m))"
    and fresh_inv: "cfg_ok c \<Longrightarrow> entry_inv c fresh"
    and step_inv: "cfg_ok c \<Longrightarrow> entry_inv c s \<Longrightarrow> admits c ob \<Longrightarrow> observation_ok ob \<Longrightarrow>
      entry_inv c (fst (step c s ob)) \<and> no_panic (snd (step c s ob))"
    and reset_inv: "entry_inv c s \<Longrightarrow> entry_inv c (reset s)"
begin

definition feed :: "'m \<Rightarrow> monitor_input \<Rightarrow> 'm" where
  "feed m x = (case x of Observe ob \<Rightarrow> fst (process m ob) | InjectReset i g \<Rightarrow> inject m i g)"

definition feeds :: "monitor_input list \<Rightarrow> 'm \<Rightarrow> 'm" where
  "feeds xs m = fold (\<lambda>x m. feed m x) xs m"

definition input_ok :: "monitor_input \<Rightarrow> bool" where
  "input_ok x = (case x of Observe ob \<Rightarrow> observation_ok ob | InjectReset i g \<Rightarrow> True)"

definition monitor_inv :: "'m \<Rightarrow> bool" where
  "monitor_inv m \<longleftrightarrow> cfg_ok (cfg m) \<and> finite (Mapping.keys (table m)) \<and> Mapping.size (table m) \<le> limit m
     \<and> (\<forall>i s. Mapping.lookup (table m) i = Some s \<longrightarrow> entry_inv (cfg m) s)"

lemma process_cases:
  obtains (unchanged) e where "fst (process m ob) = m" "snd (process m ob) = Err e"
  | (entry) "admits (cfg m) ob"
      "Mapping.lookup (table m) (ob_instrument ob) \<noteq> None \<or> Mapping.size (table m) < limit m"
proof (cases "admits (cfg m) ob")
  case False then show thesis using process_refused unchanged by blast
next
  case True
  show thesis
  proof (cases "Mapping.lookup (table m) (ob_instrument ob) = None \<and> limit m \<le> Mapping.size (table m)")
    case True
    with \<open>admits (cfg m) ob\<close> show thesis using process_full unchanged by blast
  next
    case False
    then show thesis using \<open>admits (cfg m) ob\<close> entry by force
  qed
qed

lemma lookup_default_inv:
  "monitor_inv m \<Longrightarrow> entry_inv (cfg m) (Mapping.lookup_default fresh (table m) i)"
  by (auto simp: monitor_inv_def Mapping.lookup_default_def fresh_inv split: option.splits)

lemma update_inv:
  assumes inv: "monitor_inv m" and s: "entry_inv (cfg m) s"
    and room: "Mapping.lookup (table m) i \<noteq> None \<or> Mapping.size (table m) < limit m"
    and m': "table m' = Mapping.update i s (table m)" "cfg m' = cfg m" "limit m' = limit m"
  shows "monitor_inv m'"
proof -
  have fin: "finite (Mapping.keys (table m))" using inv by (simp add: monitor_inv_def)
  have keys: "i \<in> Mapping.keys (table m) \<longleftrightarrow> Mapping.lookup (table m) i \<noteq> None"
    by (auto simp: keys_dom_lookup)
  have "Mapping.size (Mapping.update i s (table m)) \<le> limit m"
    using inv room fin keys by (auto simp: size_update monitor_inv_def)
  then show ?thesis using inv s fin
    by (auto simp: monitor_inv_def m' lookup_update')
qed

lemma process_entry_inv:
  assumes inv: "monitor_inv m" and ob: "observation_ok ob" and a: "admits (cfg m) ob"
    and room: "Mapping.lookup (table m) (ob_instrument ob) \<noteq> None \<or> Mapping.size (table m) < limit m"
  shows "monitor_inv (fst (process m ob)) \<and> no_panic (snd (process m ob))"
proof -
  let ?s = "Mapping.lookup_default fresh (table m) (ob_instrument ob)"
  have s: "entry_inv (cfg m) (fst (step (cfg m) ?s ob)) \<and> no_panic (snd (step (cfg m) ?s ob))"
    using inv by (intro step_inv lookup_default_inv a ob) (auto simp: monitor_inv_def)
  note t = process_entry [OF a room]
  have "monitor_inv (fst (process m ob))"
    by (rule update_inv [OF inv conjunct1 [OF s] room conjunct1 [OF t] process_cfg])
  moreover have "no_panic (snd (process m ob))"
    unfolding conjunct2 [OF t] by (rule conjunct2 [OF s])
  ultimately show ?thesis by (rule conjI)
qed

lemma process_keeps:
  assumes inv: "monitor_inv m" and ob: "observation_ok ob"
  shows "monitor_inv (fst (process m ob)) \<and> no_panic (snd (process m ob))"
proof (cases rule: process_cases [of m ob])
  case (unchanged e)
  show ?thesis unfolding unchanged using inv by simp
next
  case entry
  show ?thesis by (rule process_entry_inv [OF inv ob entry])
qed

lemmas process_inv = conjunct1 [OF process_keeps]
lemmas process_no_panic = conjunct2 [OF process_keeps]

lemma inject_inv: "monitor_inv m \<Longrightarrow> monitor_inv (inject m i g)"
proof (cases "Mapping.lookup (table m) i")
  case None
  then show "monitor_inv m \<Longrightarrow> monitor_inv (inject m i g)"
    using inject_table [of m i g] by (simp add: monitor_inv_def inject_cfg)
next
  case (Some s)
  assume inv: "monitor_inv m"
  then have "entry_inv (cfg m) (reset s)" using Some by (auto simp: monitor_inv_def intro: reset_inv)
  moreover have "table (inject m i g) = Mapping.update i (reset s) (table m)"
    by (simp add: inject_table Some)
  moreover have "Mapping.lookup (table m) i \<noteq> None \<or> Mapping.size (table m) < limit m"
    by (simp add: Some)
  ultimately show "monitor_inv (inject m i g)"
    by (intro update_inv [OF inv _ _ _ inject_cfg])
qed

lemma feed_inv: "monitor_inv m \<Longrightarrow> input_ok x \<Longrightarrow> monitor_inv (feed m x)"
  by (cases x) (auto simp: feed_def input_ok_def process_inv inject_inv)

lemma feeds_inv: "monitor_inv m \<Longrightarrow> list_all input_ok xs \<Longrightarrow> monitor_inv (feeds xs m)"
  unfolding feeds_def by (induction xs arbitrary: m) (auto intro: feed_inv)

lemma feed_cfg [simp]: "cfg (feed m x) = cfg m" "limit (feed m x) = limit m"
  by (cases x; simp add: feed_def process_cfg inject_cfg)+

text \<open>Another instrument's entry is untouched.\<close>

lemma process_other:
  "j \<noteq> ob_instrument ob \<Longrightarrow>
     Mapping.lookup (table (fst (process m ob))) j = Mapping.lookup (table m) j"
  by (rule process_cases [of m ob]) (auto simp: process_entry lookup_update')

lemma process_own:
  "Mapping.lookup (table m) (ob_instrument ob) = Some s \<Longrightarrow>
     Mapping.lookup (table (fst (process m ob))) (ob_instrument ob)
       = Some (if admits (cfg m) ob then fst (step (cfg m) s ob) else s)"
  using process_entry [of m ob] process_refused [of m ob]
  by (auto simp: lookup_update' Mapping.lookup_default_def)

lemma inject_lookup:
  "Mapping.lookup (table (inject m i g)) j =
     (if j = i then map_option reset (Mapping.lookup (table m) i) else Mapping.lookup (table m) j)"
  by (auto simp: inject_table lookup_update' split: option.splits)

text \<open>The state of one instrument after any interleaving is what its own inputs produce.\<close>

definition own_step :: "'c \<Rightarrow> instrument_id \<Rightarrow> monitor_input \<Rightarrow> 's \<Rightarrow> 's" where
  "own_step c i x s =
     (case x of
        Observe ob \<Rightarrow> if ob_instrument ob = i \<and> admits c ob then fst (step c s ob) else s
      | InjectReset j g \<Rightarrow> if j = i then reset s else s)"

lemma feed_own:
  "Mapping.lookup (table m) i = Some s \<Longrightarrow>
     Mapping.lookup (table (feed m x)) i = Some (own_step (cfg m) i x s)"
proof (cases x)
  case (Observe ob)
  then show "Mapping.lookup (table m) i = Some s \<Longrightarrow>
     Mapping.lookup (table (feed m x)) i = Some (own_step (cfg m) i x s)"
    using process_own [of m ob s] process_other [of i ob m]
    by (cases "ob_instrument ob = i") (auto simp: feed_def own_step_def)
next
  case (InjectReset j g)
  then show "Mapping.lookup (table m) i = Some s \<Longrightarrow>
     Mapping.lookup (table (feed m x)) i = Some (own_step (cfg m) i x s)"
    by (auto simp: feed_def own_step_def inject_lookup)
qed

lemma feeds_own:
  "Mapping.lookup (table m) i = Some s \<Longrightarrow>
     Mapping.lookup (table (feeds xs m)) i = Some (fold (own_step (cfg m) i) xs s)"
  unfolding feeds_def
proof (induction xs arbitrary: m s)
  case (Cons x xs)
  from Cons.IH [OF feed_own [OF Cons.prems, of x]] show ?case by simp
qed simp

definition concerns :: "instrument_id \<Rightarrow> monitor_input \<Rightarrow> bool" where
  "concerns i x = (case x of Observe ob \<Rightarrow> ob_instrument ob = i | InjectReset j g \<Rightarrow> j = i)"

lemma own_step_concerns: "\<not> concerns i x \<Longrightarrow> own_step c i x s = s"
  by (cases x) (auto simp: concerns_def own_step_def)

lemma feeds_independent:
  assumes "Mapping.lookup (table m) i = Some s"
  shows "Mapping.lookup (table (feeds xs m)) i
       = Mapping.lookup (table (feeds (filter (concerns i) xs) m)) i"
proof -
  have "fold (own_step (cfg m) i) xs s = fold (own_step (cfg m) i) (filter (concerns i) xs) s"
    by (induction xs arbitrary: s) (auto simp: own_step_concerns)
  then show ?thesis by (simp add: feeds_own [OF assms])
qed

end

end
