(* ===== verification/Price_Monitor.thy ===== *)
theory Price_Monitor
  imports Keyed_Monitor
begin

text \<open>
  \<open>DeterministicPriceMonitor\<close> of \<open>price.rs\<close>: the policy of a price-change rule, the
  per-instrument state machine \<open>InstrumentState\<close>, and the monitor that keeps one such
  state per instrument. A method on \<open>&mut self\<close> that returns a \<open>Result\<close> is a function
  from the state to the state it leaves and the result, on errors too.
\<close>

section \<open>The rule\<close>

record price_change_rule =
  pr_window_millis :: u64
  pr_boundary_tolerance_millis :: u64
  pr_trigger_ratio :: f64
  pr_rearm_ratio :: f64
  pr_cooldown_millis :: u64

definition price_change_rule_new ::
  "u64 \<Rightarrow> u64 \<Rightarrow> f64 \<Rightarrow> f64 \<Rightarrow> u64 \<Rightarrow> (price_change_rule, monitor_error) rres" where
  "price_change_rule_new window tolerance trigger rearm cooldown =
     (if window = 0
      then Err (InvalidConfiguration ''price window duration must be positive'')
      else if window < tolerance
      then Err (InvalidConfiguration ''boundary tolerance must not exceed the price window'')
      else if \<not> is_finite trigger \<or> f64_le trigger f64_zero
      then Err (InvalidConfiguration ''trigger ratio must be finite and positive'')
      else if \<not> is_finite rearm \<or> f64_lt rearm f64_zero \<or> f64_ge rearm trigger
      then Err (InvalidConfiguration
             ''rearm ratio must be finite, non-negative, and below the trigger ratio'')
      else Ok \<lparr>pr_window_millis = window, pr_boundary_tolerance_millis = tolerance,
               pr_trigger_ratio = trigger, pr_rearm_ratio = rearm,
               pr_cooldown_millis = cooldown\<rparr>)"

definition price_rule_fields :: "price_change_rule \<Rightarrow> (string \<times> u8 list) list" where
  "price_rule_fields rule =
     [(''accepted_continuity'', as_bytes ''continuous''),
      (''boundary_tolerance_millis'', u64_be (pr_boundary_tolerance_millis rule)),
      (''cooldown_millis'', u64_be (pr_cooldown_millis rule)),
      (''family'', as_bytes ''price''),
      (''rearm_ratio_bits'', u64_be (to_bits (pr_rearm_ratio rule))),
      (''session_reset_policy'', as_bytes ''explicit_injected_signal''),
      (''time_basis'', as_bytes ''local_observation_time''),
      (''trigger_ratio_bits'', u64_be (to_bits (pr_trigger_ratio rule))),
      (''unit'', as_bytes ''cny_per_share''),
      (''window_millis'', u64_be (pr_window_millis rule))]"

definition price_core_identity ::
  "(u8 list \<Rightarrow> u8 list) \<Rightarrow> price_change_rule \<Rightarrow> u32 \<Rightarrow> (anomaly_rule_identity, core_error) rres" where
  "price_core_identity sha rule version =
     from_canonical_definition sha ''local_price_change'' version (price_rule_fields rule)"

section \<open>One instrument\<close>

datatype monitor_transition =
    WarmedUp
  | Triggered f64
  | EnteredCoolingDown
  | Rearmed f64
  | Reset reset_reason

record process_outcome =
  po_state :: rule_state
  po_transition :: "monitor_transition option"

record instrument_state =
  ps_rule_state :: rule_state
  ps_window :: "injected_observation list"
  ps_last_arrival :: "u64 option"
  ps_last_record_count :: "u64 option"
  ps_triggered_at :: "u64 option"

definition instrument_state_new :: instrument_state where
  "instrument_state_new =
     \<lparr>ps_rule_state = WarmingUp, ps_window = [], ps_last_arrival = None,
      ps_last_record_count = None, ps_triggered_at = None\<rparr>"

definition price_validate_order :: "instrument_state \<Rightarrow> u64 \<Rightarrow> (unit, monitor_error) rres" where
  "price_validate_order s arrival =
     (case ps_last_arrival s of
        None \<Rightarrow> Ok ()
      | Some previous \<Rightarrow>
          if arrival = previous then Err (DuplicateObservation arrival)
          else if arrival < previous then Err (OutOfOrderObservation previous arrival)
          else Ok ())"

definition price_reset_reason ::
  "instrument_state \<Rightarrow> injected_observation \<Rightarrow> reset_reason option" where
  "price_reset_reason s ob =
     (if ob_continuity ob \<noteq> Continuous then Some (NonContinuous (ob_continuity ob))
      else if (case (ps_last_record_count s, ob_source_record_count ob) of
                 (Some previous, Some actual) \<Rightarrow> actual < previous | _ \<Rightarrow> False)
      then Some SourceRecordCountRollback
      else None)"

definition price_prune_for :: "instrument_state \<Rightarrow> u64 \<Rightarrow> u64 \<Rightarrow> instrument_state" where
  "price_prune_for s arrival window_millis =
     (case checked_sub arrival window_millis of
        None \<Rightarrow> s
      | Some cutoff \<Rightarrow> s\<lparr>ps_window := drop_expired cutoff (ps_window s)\<rparr>)"

definition price_change ::
  "instrument_state \<Rightarrow> u64 \<Rightarrow> price_change_rule \<Rightarrow> (f64 option, monitor_error) rres" where
  "price_change s arrival rule =
     (case checked_sub arrival (pr_window_millis rule) of
        None \<Rightarrow> Ok None
      | Some cutoff \<Rightarrow>
          (case ps_window s of
             [] \<Rightarrow> Ok None
           | boundary # _ \<Rightarrow>
               if cutoff < ob_arrival_millis boundary
                  \<or> pr_boundary_tolerance_millis rule < cutoff - ob_arrival_millis boundary
               then Ok None
               else
                 let current = last (ps_window s) in
                 rbind (ok_or (FamilyUnavailable PriceFamily) (ob_price boundary)) (\<lambda>b.
                 rbind (ok_or (FamilyUnavailable PriceFamily) (ob_price current)) (\<lambda>c.
                 let change_ratio = f64_div (f64_sub (price_get c) (price_get b)) (price_get b) in
                 if \<not> is_finite change_ratio then Err PriceChangeOverflow
                 else Ok (Some change_ratio)))))"

definition price_reset_without_seed :: "instrument_state \<Rightarrow> instrument_state" where
  "price_reset_without_seed s =
     s\<lparr>ps_rule_state := WarmingUp, ps_window := [], ps_last_arrival := None,
       ps_last_record_count := None, ps_triggered_at := None\<rparr>"

definition price_seed :: "instrument_state \<Rightarrow> injected_observation \<Rightarrow> instrument_state" where
  "price_seed s ob =
     s\<lparr>ps_window := ps_window s @ [ob], ps_last_arrival := Some (ob_arrival_millis ob),
       ps_last_record_count := ob_source_record_count ob\<rparr>"

definition price_reset_and_seed :: "instrument_state \<Rightarrow> injected_observation \<Rightarrow> instrument_state" where
  "price_reset_and_seed s ob = price_seed (price_reset_without_seed s) ob"

definition price_outcome :: "instrument_state \<Rightarrow> monitor_transition option \<Rightarrow> process_outcome" where
  "price_outcome s transition = \<lparr>po_state = ps_rule_state s, po_transition = transition\<rparr>"

text \<open>The final \<open>match self.rule_state\<close> of \<open>process\<close>.\<close>

definition price_advance ::
  "instrument_state \<Rightarrow> u64 \<Rightarrow> price_change_rule \<Rightarrow> f64
     \<Rightarrow> instrument_state \<times> (process_outcome, monitor_error) rres" where
  "price_advance s arrival rule ratio =
     (case ps_rule_state s of
        WarmingUp \<Rightarrow>
          let s' = s\<lparr>ps_rule_state := Armed\<rparr> in (s', Ok (price_outcome s' (Some WarmedUp)))
      | Armed \<Rightarrow>
          if f64_ge ratio (pr_trigger_ratio rule)
          then let s' = s\<lparr>ps_rule_state := rule_state.Triggered, ps_triggered_at := Some arrival\<rparr>
               in (s', Ok (price_outcome s' (Some (Triggered ratio))))
          else (s, Ok (price_outcome s None))
      | rule_state.Triggered \<Rightarrow>
          let s' = s\<lparr>ps_rule_state := CoolingDown\<rparr>
          in (s', Ok (price_outcome s' (Some EnteredCoolingDown)))
      | CoolingDown \<Rightarrow>
          (case ps_triggered_at s of
             None \<Rightarrow> (s, Err (InvalidObservation ''cooling state has no trigger time''))
           | Some triggered_at \<Rightarrow>
               (case checked_sub arrival triggered_at of
                  None \<Rightarrow> (s, Panic ''attempt to subtract with overflow'')
                | Some elapsed \<Rightarrow>
                    if pr_cooldown_millis rule \<le> elapsed \<and> f64_le ratio (pr_rearm_ratio rule)
                    then let s' = s\<lparr>ps_rule_state := Armed, ps_triggered_at := None\<rparr>
                         in (s', Ok (price_outcome s' (Some (Rearmed ratio))))
                    else (s, Ok (price_outcome s None)))))"

definition price_process ::
  "price_change_rule \<Rightarrow> u16 \<Rightarrow> instrument_state \<Rightarrow> injected_observation
     \<Rightarrow> instrument_state \<times> (process_outcome, monitor_error) rres" where
  "price_process rule capacity s ob =
     (case price_validate_order s (ob_arrival_millis ob) of
        Err e \<Rightarrow> (s, Err e)
      | Panic p \<Rightarrow> (s, Panic p)
      | Ok _ \<Rightarrow>
          (case price_reset_reason s ob of
             Some reason \<Rightarrow>
               let s' = price_reset_and_seed s ob
               in (s', Ok (price_outcome s' (Some (Reset reason))))
           | None \<Rightarrow>
               let s1 = price_prune_for s (ob_arrival_millis ob) (pr_window_millis rule) in
               if unat capacity \<le> length (ps_window s1)
               then (price_reset_and_seed s1 ob, Err (WindowOverflow capacity))
               else
                 let s2 = price_seed s1 ob in
                 (case price_change s2 (ob_arrival_millis ob) rule of
                    Err e \<Rightarrow> (price_reset_and_seed s2 ob, Err e)
                  | Panic p \<Rightarrow> (s2, Panic p)
                  | Ok None \<Rightarrow>
                      if ps_rule_state s2 \<noteq> WarmingUp
                      then let s' = price_reset_and_seed s2 ob
                           in (s', Ok (price_outcome s' (Some (Reset SamplingGap))))
                      else (s2, Ok (price_outcome s2 None))
                  | Ok (Some ratio) \<Rightarrow> price_advance s2 (ob_arrival_millis ob) rule ratio)))"

section \<open>The monitor\<close>

record price_monitor =
  pm_limits :: monitor_limits
  pm_rule :: price_change_rule
  pm_instruments :: "(instrument_id, instrument_state) mapping"

definition price_monitor_new :: "monitor_limits \<Rightarrow> price_change_rule \<Rightarrow> price_monitor" where
  "price_monitor_new limits rule =
     \<lparr>pm_limits = limits, pm_rule = rule, pm_instruments = Mapping.empty\<rparr>"

definition price_monitor_process ::
  "price_monitor \<Rightarrow> injected_observation
     \<Rightarrow> price_monitor \<times> (process_outcome, monitor_error) rres" where
  "price_monitor_process m ob =
     (case require_family ob PriceFamily of
        Err e \<Rightarrow> (m, Err e)
      | Panic p \<Rightarrow> (m, Panic p)
      | Ok _ \<Rightarrow>
          let instrument = ob_instrument ob in
          if Mapping.lookup (pm_instruments m) instrument = None
             \<and> unat (max_instruments (pm_limits m)) \<le> Mapping.size (pm_instruments m)
          then (m, Err (InstrumentLimit (max_instruments (pm_limits m))))
          else
            let entry = Mapping.lookup_default instrument_state_new (pm_instruments m) instrument;
                (s', result) = price_process (pm_rule m) (window_capacity (pm_limits m)) entry ob
            in (m\<lparr>pm_instruments := Mapping.update instrument s' (pm_instruments m)\<rparr>, result))"

definition price_monitor_inject_reset ::
  "price_monitor \<Rightarrow> instrument_id \<Rightarrow> injected_reset_signal
     \<Rightarrow> price_monitor \<times> process_outcome option" where
  "price_monitor_inject_reset m instrument signal =
     (case Mapping.lookup (pm_instruments m) instrument of
        None \<Rightarrow> (m, None)
      | Some s \<Rightarrow>
          let s' = price_reset_without_seed s in
          (m\<lparr>pm_instruments := Mapping.update instrument s' (pm_instruments m)\<rparr>,
           Some (price_outcome s' (Some (Reset (reset_reason_of signal))))))"

definition price_monitor_state :: "price_monitor \<Rightarrow> instrument_id \<Rightarrow> rule_state option" where
  "price_monitor_state m instrument =
     map_option ps_rule_state (Mapping.lookup (pm_instruments m) instrument)"

definition price_monitor_window_len :: "price_monitor \<Rightarrow> instrument_id \<Rightarrow> nat option" where
  "price_monitor_window_len m instrument =
     map_option (\<lambda>s. length (ps_window s)) (Mapping.lookup (pm_instruments m) instrument)"

definition price_monitor_window_endpoints ::
  "price_monitor \<Rightarrow> instrument_id \<Rightarrow> (injected_observation \<times> injected_observation) option" where
  "price_monitor_window_endpoints m instrument =
     (case Mapping.lookup (pm_instruments m) instrument of
        None \<Rightarrow> None
      | Some s \<Rightarrow> (case ps_window s of [] \<Rightarrow> None | p # w \<Rightarrow> Some (p, last (p # w))))"

definition price_monitor_window_evidence ::
  "price_monitor \<Rightarrow> instrument_id \<Rightarrow> window_evidence option" where
  "price_monitor_window_evidence m instrument =
     map_option (\<lambda>(a, b). window_evidence_new a b) (price_monitor_window_endpoints m instrument)"

section \<open>The event of a transition\<close>

definition price_input_fields ::
  "window_evidence \<Rightarrow> f64 \<Rightarrow> price \<Rightarrow> price \<Rightarrow> (string \<times> u8 list) list" where
  "price_input_fields e change_ratio first latest =
     [(''change_ratio_bits'', u64_be (to_bits change_ratio)),
      (''first_arrival_millis'', u64_be (we_first_arrival e)),
      (''first_price_bits'', u64_be (to_bits (price_get first))),
      (''last_arrival_millis'', u64_be (we_last_arrival e)),
      (''last_price_bits'', u64_be (to_bits (price_get latest))),
      (''observed_source_record_count'', encode_optional_u64 (observed_source_record_count e)),
      (''unit'', as_bytes ''cny_per_share'')]"

definition price_core_event ::
  "(u8 list \<Rightarrow> u8 list) \<Rightarrow> window_evidence \<Rightarrow> price_change_rule \<Rightarrow> u32 \<Rightarrow> monitor_transition
     \<Rightarrow> stream_cursor \<Rightarrow> stream_continuity \<Rightarrow> string \<Rightarrow> (anomaly_event, core_error) rres" where
  "price_core_event sha e rule version transition stream continuity derived_observed_at =
     rbind (case transition of
              Triggered ratio \<Rightarrow> Ok (anomaly_transition.Triggered, ratio)
            | Rearmed ratio \<Rightarrow> Ok (anomaly_transition.Rearmed, ratio)
            | _ \<Rightarrow> Err (invalid_request ''price outcome has no public anomaly transition''))
       (\<lambda>(kind, change_ratio).
     rbind (first_price e) (\<lambda>first_opt.
     rbind (ok_or (invalid_request ''price window has no first value'') first_opt) (\<lambda>first.
     rbind (last_price e) (\<lambda>last_opt.
     rbind (ok_or (invalid_request ''price window has no last value'') last_opt) (\<lambda>latest.
     rbind (rule_input_digest_of sha (price_input_fields e change_ratio first latest)) (\<lambda>inputs.
     rbind (core_anomaly_input_evidence sha e LocalObservationTime continuity inputs) (\<lambda>inp.
     rbind (price_core_identity sha rule version) (\<lambda>identity.
     anomaly_event_new sha (we_instrument e) identity kind stream inp derived_observed_at))))))))"

section \<open>The invariant of one instrument's state\<close>

definition price_inv :: "u16 \<Rightarrow> instrument_state \<Rightarrow> bool" where
  "price_inv capacity s \<longleftrightarrow>
     length (ps_window s) \<le> unat capacity
     \<and> arrivals_increase (ps_window s)
     \<and> (\<forall>ob\<in>set (ps_window s). observation_ok ob \<and> ob_price ob \<noteq> None)
     \<and> ps_last_arrival s
         = (if ps_window s = [] then None else Some (ob_arrival_millis (last (ps_window s))))
     \<and> ps_last_record_count s
         = (if ps_window s = [] then None else ob_source_record_count (last (ps_window s)))
     \<and> (case ps_triggered_at s of
          None \<Rightarrow> ps_rule_state s \<in> {WarmingUp, Armed}
        | Some u \<Rightarrow> ps_rule_state s \<in> {rule_state.Triggered, CoolingDown}
            \<and> ps_window s \<noteq> [] \<and> u \<le> ob_arrival_millis (last (ps_window s)))
     \<and> (ps_window s = [] \<longrightarrow> ps_rule_state s = WarmingUp)"

definition price_admits :: "injected_observation \<Rightarrow> bool" where
  "price_admits ob \<longleftrightarrow> observation_ok ob \<and> ob_price ob \<noteq> None"

lemma price_inv_new: "price_inv c instrument_state_new"
  by (simp add: price_inv_def instrument_state_new_def)

lemma price_inv_reset: "price_inv c (price_reset_without_seed s)"
  by (simp add: price_inv_def price_reset_without_seed_def)

lemma price_inv_reset_and_seed:
  "2 \<le> unat c \<Longrightarrow> price_admits ob \<Longrightarrow> price_inv c (price_reset_and_seed s ob)"
  by (auto simp: price_inv_def price_reset_and_seed_def price_reset_without_seed_def
      price_seed_def price_admits_def)

lemma price_order_ok:
  "price_validate_order s t = Ok u \<longleftrightarrow>
     (case ps_last_arrival s of None \<Rightarrow> True | Some previous \<Rightarrow> previous < t)"
  by (auto simp: price_validate_order_def split: option.splits)

lemma price_order_later:
  assumes "price_inv c s" "price_validate_order s t = Ok u" "p \<in> set (ps_window s)"
  shows "ob_arrival_millis p < t"
proof -
  have w: "ps_window s \<noteq> []" using assms(3) by auto
  then have last: "ob_arrival_millis (last (ps_window s)) < t"
    using assms(1,2) by (auto simp: price_inv_def price_order_ok)
  show ?thesis
  proof (cases "p = last (ps_window s)")
    case False
    then have "p \<in> set (butlast (ps_window s))" using assms(3) w
      by (metis append_butlast_last_id in_set_conv_decomp set_ConsD split_list rotate1.simps(2) set_rotate1)
    then have "ob_arrival_millis p < ob_arrival_millis (last (ps_window s))"
      using assms(1) arrivals_increase_snoc [of "butlast (ps_window s)" "last (ps_window s)"] w
      by (simp add: price_inv_def)
    with last show ?thesis by simp
  qed (use last in simp)
qed

text \<open>Pruning and seeding, with the point just seeded last.\<close>

definition price_ready :: "price_change_rule \<Rightarrow> instrument_state \<Rightarrow> injected_observation \<Rightarrow> instrument_state" where
  "price_ready rule s ob =
     price_seed (price_prune_for s (ob_arrival_millis ob) (pr_window_millis rule)) ob"

lemma price_prune_simps [simp]:
  "ps_rule_state (price_prune_for s t w) = ps_rule_state s"
  "ps_last_arrival (price_prune_for s t w) = ps_last_arrival s"
  "ps_last_record_count (price_prune_for s t w) = ps_last_record_count s"
  "ps_triggered_at (price_prune_for s t w) = ps_triggered_at s"
  by (simp_all add: price_prune_for_def split: option.splits)

lemma price_prune_window:
  "ps_window (price_prune_for s t w) =
     (case checked_sub t w of None \<Rightarrow> ps_window s | Some cutoff \<Rightarrow> drop_expired cutoff (ps_window s))"
  by (simp add: price_prune_for_def split: option.splits)

lemma price_ready_simps [simp]:
  "ps_rule_state (price_ready rule s ob) = ps_rule_state s"
  "ps_triggered_at (price_ready rule s ob) = ps_triggered_at s"
  "ps_last_arrival (price_ready rule s ob) = Some (ob_arrival_millis ob)"
  "ps_last_record_count (price_ready rule s ob) = ob_source_record_count ob"
  "last (ps_window (price_ready rule s ob)) = ob"
  "ps_window (price_ready rule s ob) \<noteq> []"
  by (simp_all add: price_ready_def price_seed_def)

lemma price_inv_ready:
  assumes inv: "price_inv c s" and order: "price_validate_order s (ob_arrival_millis ob) = Ok u"
    and ob: "price_admits ob"
    and room: "length (ps_window (price_prune_for s (ob_arrival_millis ob) (pr_window_millis rule)))
      < unat c"
  shows "price_inv c (price_ready rule s ob)"
proof -
  let ?w = "ps_window (price_prune_for s (ob_arrival_millis ob) (pr_window_millis rule))"
  have sub: "set ?w \<subseteq> set (ps_window s)"
    using drop_expired_set by (auto simp: price_prune_window split: option.splits)
  have inc: "arrivals_increase ?w"
    using inv drop_expired_increase by (auto simp: price_prune_window price_inv_def split: option.splits)
  have later: "\<forall>p\<in>set ?w. ob_arrival_millis p < ob_arrival_millis ob"
    using price_order_later [OF inv order] sub by blast
  have t: "\<forall>u. ps_triggered_at s = Some u \<longrightarrow> u \<le> ob_arrival_millis ob"
    using inv price_order_later [OF inv order, of "last (ps_window s)"]
    by (auto simp: price_inv_def split: option.splits)
  show ?thesis
    using inv sub inc later t room ob
    by (auto simp: price_inv_def price_ready_def price_seed_def arrivals_increase_snoc
        price_admits_def split: option.splits)
qed

lemma price_process_unfold:
  "price_process rule c s ob =
     (case price_validate_order s (ob_arrival_millis ob) of
        Err e \<Rightarrow> (s, Err e)
      | Panic p \<Rightarrow> (s, Panic p)
      | Ok _ \<Rightarrow>
          (case price_reset_reason s ob of
             Some reason \<Rightarrow> (price_reset_and_seed s ob,
               Ok \<lparr>po_state = WarmingUp, po_transition = Some (Reset reason)\<rparr>)
           | None \<Rightarrow>
               if unat c \<le> length (ps_window
                    (price_prune_for s (ob_arrival_millis ob) (pr_window_millis rule)))
               then (price_reset_and_seed s ob, Err (WindowOverflow c))
               else
                 (case price_change (price_ready rule s ob) (ob_arrival_millis ob) rule of
                    Err e \<Rightarrow> (price_reset_and_seed s ob, Err e)
                  | Panic p \<Rightarrow> (price_ready rule s ob, Panic p)
                  | Ok None \<Rightarrow>
                      if ps_rule_state s \<noteq> WarmingUp
                      then (price_reset_and_seed s ob,
                        Ok \<lparr>po_state = WarmingUp, po_transition = Some (Reset SamplingGap)\<rparr>)
                      else (price_ready rule s ob,
                        Ok \<lparr>po_state = WarmingUp, po_transition = None\<rparr>)
                  | Ok (Some ratio) \<Rightarrow>
                      price_advance (price_ready rule s ob) (ob_arrival_millis ob) rule ratio)))"
proof -
  have r: "price_reset_and_seed (price_prune_for s t w) ob = price_reset_and_seed s ob"
    "price_reset_and_seed (price_ready rule s ob) ob = price_reset_and_seed s ob" for t w
    by (simp_all add: price_reset_and_seed_def price_reset_without_seed_def price_prune_for_def
        price_ready_def price_seed_def split: option.splits)
  have o': "ps_rule_state (price_reset_and_seed s ob) = WarmingUp"
    by (simp add: price_reset_and_seed_def price_reset_without_seed_def price_seed_def)
  show ?thesis
    unfolding price_process_def Let_def price_ready_def [symmetric] r
    by (auto simp: price_outcome_def o' split: rres.splits option.splits)
qed

lemma price_change_total:
  assumes "\<forall>p\<in>set (ps_window s). ob_price p \<noteq> None"
  shows "(\<exists>r. price_change s t rule = Ok r) \<or> price_change s t rule = Err PriceChangeOverflow"
proof (cases "ps_window s")
  case (Cons p w)
  have "last (ps_window s) \<in> set (ps_window s)" using Cons by simp
  then obtain b c where "ob_price p = Some b" "ob_price (last (ps_window s)) = Some c"
    using assms Cons by fastforce
  then show ?thesis using Cons
    by (auto simp: price_change_def Let_def ok_or_def split: option.splits)
qed (auto simp: price_change_def split: option.splits)

section \<open>The state machine refines the abstract rule\<close>

definition price_params :: "price_change_rule \<Rightarrow> rule_params" where
  "price_params rule = \<lparr>rp_trigger = pr_trigger_ratio rule, rp_rearm = pr_rearm_ratio rule,
     rp_cooldown = pr_cooldown_millis rule\<rparr>"

definition price_position :: "instrument_state \<Rightarrow> rule_position" where
  "price_position s = (ps_rule_state s, ps_triggered_at s)"

fun price_action :: "(process_outcome, monitor_error) rres \<Rightarrow> rule_action" where
  "price_action (Ok out) =
     (case po_transition out of
        None \<Rightarrow> Stay
      | Some WarmedUp \<Rightarrow> Warm
      | Some (Triggered x) \<Rightarrow> Trigger x
      | Some EnteredCoolingDown \<Rightarrow> Cool
      | Some (Rearmed x) \<Rightarrow> Rearm x
      | Some (Reset _) \<Rightarrow> Restart)"
| "price_action (Err (WindowOverflow _)) = Restart"
| "price_action (Err PriceChangeOverflow) = Restart"
| "price_action _ = Stay"

lemma price_advance_refines:
  assumes "price_inv c s" "ps_window s \<noteq> []" "ob_arrival_millis (last (ps_window s)) = t"
  shows "price_inv c (fst (price_advance s t rule x))
    \<and> no_panic (snd (price_advance s t rule x))
    \<and> rule_step (price_params rule) t (price_position s)
        (price_action (snd (price_advance s t rule x)))
        (price_position (fst (price_advance s t rule x)))"
proof (cases "ps_rule_state s")
  case WarmingUp
  with assms show ?thesis
    by (auto simp: price_advance_def price_outcome_def price_inv_def price_position_def Let_def
        rule_step_simps split: option.splits)
next
  case Armed
  with assms show ?thesis
    by (auto simp: price_advance_def price_outcome_def price_inv_def price_position_def Let_def
        rule_step_simps price_params_def split: option.splits)
next
  case Triggered
  with assms show ?thesis
    by (auto simp: price_advance_def price_outcome_def price_inv_def price_position_def Let_def
        rule_step_simps split: option.splits)
next
  case CoolingDown
  with assms obtain u where "ps_triggered_at s = Some u" "u \<le> t"
    by (auto simp: price_inv_def split: option.splits)
  with CoolingDown assms show ?thesis
    by (auto simp: price_advance_def price_outcome_def price_inv_def price_position_def Let_def
        rule_step_simps price_params_def checked_sub_def)
qed

lemma price_process_refines:
  assumes inv: "price_inv c s" and ob: "price_admits ob" and c: "2 \<le> unat c"
  shows "price_inv c (fst (price_process rule c s ob))
    \<and> no_panic (snd (price_process rule c s ob))
    \<and> rule_step (price_params rule) (ob_arrival_millis ob) (price_position s)
        (price_action (snd (price_process rule c s ob)))
        (price_position (fst (price_process rule c s ob)))"
proof -
  have rs: "price_position (price_reset_and_seed s ob) = (WarmingUp, None)"
    by (simp add: price_position_def price_reset_and_seed_def price_reset_without_seed_def price_seed_def)
  note rinv = price_inv_reset_and_seed [OF c ob, of s]
  show ?thesis
  proof (cases "price_validate_order s (ob_arrival_millis ob)")
    case (Err e)
    then have "price_action (Err e :: (process_outcome, monitor_error) rres) = Stay"
      by (auto simp: price_validate_order_def split: option.splits if_splits)
    then show ?thesis using inv Err by (simp add: price_process_unfold rule_step_simps)
  next
    case (Panic p)
    then show ?thesis by (auto simp: price_validate_order_def split: option.splits if_splits)
  next
    case order: (Ok u)
    show ?thesis
    proof (cases "price_reset_reason s ob")
      case (Some r)
      then show ?thesis using rinv rs order by (simp add: price_process_unfold rule_step_simps)
    next
      case cont: None
      let ?w = "ps_window (price_prune_for s (ob_arrival_millis ob) (pr_window_millis rule))"
      let ?s = "price_ready rule s ob"
      show ?thesis
      proof (cases "unat c \<le> length ?w")
        case True
        then show ?thesis using rinv rs order cont
          by (simp add: price_process_unfold rule_step_simps)
      next
        case room: False
        then have ready: "price_inv c ?s" using inv order ob by (intro price_inv_ready) auto
        then have "\<forall>p\<in>set (ps_window ?s). ob_price p \<noteq> None" by (simp add: price_inv_def)
        from price_change_total [OF this] consider
          (none) "price_change ?s (ob_arrival_millis ob) rule = Ok None"
          | (ratio) x where "price_change ?s (ob_arrival_millis ob) rule = Ok (Some x)"
          | (overflow) "price_change ?s (ob_arrival_millis ob) rule = Err PriceChangeOverflow"
          by (metis option.exhaust)
        then show ?thesis
        proof cases
          case none
          then show ?thesis using rinv rs order cont room ready
            by (simp add: price_process_unfold rule_step_simps) (simp add: price_position_def rule_step_simps)
        next
          case ratio
          have "price_position ?s = price_position s" by (simp add: price_position_def)
          then show ?thesis
            using ratio order cont room price_advance_refines [OF ready, of "ob_arrival_millis ob" rule x]
            by (simp add: price_process_unfold)
        next
          case overflow
          then show ?thesis using rinv rs order cont room
            by (simp add: price_process_unfold rule_step_simps)
        qed
      qed
    qed
  qed
qed

section \<open>The contracts interpreted\<close>

interpretation price_rule: rule_machine "price_process rule c"
  "\<lambda>s. 2 \<le> unat c \<and> price_inv c s" price_admits price_position price_action "price_params rule"
  for rule c
proof unfold_locales
  fix s ob assume s: "2 \<le> unat c \<and> price_inv c s" and ob: "price_admits ob"
  note r = price_process_refines [OF conjunct2 [OF s] ob conjunct1 [OF s], of rule]
  show "2 \<le> unat c \<and> price_inv c (fst (price_process rule c s ob))" using s r by simp
  show "no_panic (snd (price_process rule c s ob))" using r by simp
  show "rule_step (price_params rule) (ob_arrival_millis ob) (price_position s)
      (price_action (snd (price_process rule c s ob)))
      (price_position (fst (price_process rule c s ob)))" using r by simp
qed

definition price_cfg :: "price_monitor \<Rightarrow> price_change_rule \<times> u16" where
  "price_cfg m = (pm_rule m, window_capacity (pm_limits m))"

definition price_inject :: "price_monitor \<Rightarrow> instrument_id \<Rightarrow> injected_reset_signal \<Rightarrow> price_monitor" where
  "price_inject m i g = fst (price_monitor_inject_reset m i g)"

lemma price_monitor_process_eq:
  "price_monitor_process m ob =
     (if ob_price ob = None then (m, Err (FamilyUnavailable PriceFamily))
      else if Mapping.lookup (pm_instruments m) (ob_instrument ob) = None
           \<and> unat (max_instruments (pm_limits m)) \<le> Mapping.size (pm_instruments m)
      then (m, Err (InstrumentLimit (max_instruments (pm_limits m))))
      else let r = price_process (pm_rule m) (window_capacity (pm_limits m))
             (Mapping.lookup_default instrument_state_new (pm_instruments m) (ob_instrument ob)) ob
           in (m\<lparr>pm_instruments := Mapping.update (ob_instrument ob) (fst r) (pm_instruments m)\<rparr>, snd r))"
  by (auto simp: price_monitor_process_def require_family_def Let_def split: prod.splits)

interpretation price_keyed: keyed_monitor pm_instruments price_cfg
  "\<lambda>m. unat (max_instruments (pm_limits m))" instrument_state_new "\<lambda>c ob. ob_price ob \<noteq> None"
  "\<lambda>c. price_process (fst c) (snd c)" price_reset_without_seed price_monitor_process price_inject
  "\<lambda>c. price_inv (snd c)" "\<lambda>c. 2 \<le> unat (snd c)"
proof unfold_locales
  fix m i g
  show "price_cfg (price_inject m i g) = price_cfg m"
    "unat (max_instruments (pm_limits (price_inject m i g))) = unat (max_instruments (pm_limits m))"
    "pm_instruments (price_inject m i g) =
      (case Mapping.lookup (pm_instruments m) i of None \<Rightarrow> pm_instruments m
       | Some s \<Rightarrow> Mapping.update i (price_reset_without_seed s) (pm_instruments m))"
    by (auto simp: price_inject_def price_monitor_inject_reset_def price_cfg_def Let_def
        split: option.splits)
next
  fix c :: "price_change_rule \<times> u16" and s ob
  assume "2 \<le> unat (snd c)" "price_inv (snd c) s" "ob_price ob \<noteq> None" "observation_ok ob"
  then show "price_inv (snd c) (fst (price_process (fst c) (snd c) s ob))
      \<and> no_panic (snd (price_process (fst c) (snd c) s ob))"
    using price_process_refines by (auto simp: price_admits_def)
qed (auto simp: price_monitor_process_eq price_cfg_def Let_def price_inv_new price_inv_reset)

section \<open>What a trigger and an error mean\<close>

definition price_rule_ok :: "price_change_rule \<Rightarrow> bool" where
  "price_rule_ok rule \<longleftrightarrow> 0 < pr_window_millis rule
     \<and> pr_boundary_tolerance_millis rule \<le> pr_window_millis rule
     \<and> is_finite (pr_trigger_ratio rule) \<and> f64_lt f64_zero (pr_trigger_ratio rule)
     \<and> is_finite (pr_rearm_ratio rule) \<and> f64_le f64_zero (pr_rearm_ratio rule)
     \<and> f64_lt (pr_rearm_ratio rule) (pr_trigger_ratio rule)"

lemma price_change_rule_new_eq_Ok:
  "price_change_rule_new w t x y cd = Ok rule \<longleftrightarrow>
     rule = \<lparr>pr_window_millis = w, pr_boundary_tolerance_millis = t, pr_trigger_ratio = x,
             pr_rearm_ratio = y, pr_cooldown_millis = cd\<rparr> \<and> price_rule_ok rule"
  by (auto simp: price_change_rule_new_def price_rule_ok_def is_nan_not_finite
      word_gt_0 not_less f64_not_lt dest: f64_lt_asym split: if_splits)
     (auto simp: f64_le_def f64_lt_def is_nan_not_finite)

lemma price_change_eq:
  assumes inv: "price_inv c s" and w: "0 < pr_window_millis rule"
    and order: "price_validate_order s (ob_arrival_millis ob) = Ok u"
    and x: "price_change (price_ready rule s ob) (ob_arrival_millis ob) rule = Ok (Some x)"
  shows "\<exists>b p q. pr_window_millis rule \<le> ob_arrival_millis ob
     \<and> is_boundary (ob_arrival_millis ob - pr_window_millis rule)
          (pr_boundary_tolerance_millis rule) (ps_window s) b
     \<and> ob_price b = Some p \<and> ob_price ob = Some q \<and> is_finite x
     \<and> x = f64_div (f64_sub (price_get q) (price_get p)) (price_get p)"
proof -
  let ?t = "ob_arrival_millis ob"
  define cutoff where "cutoff = ?t - pr_window_millis rule"
  have le: "pr_window_millis rule \<le> ?t"
    using x by (auto simp: price_change_def checked_sub_def split: if_splits)
  then have sub: "checked_sub ?t (pr_window_millis rule) = Some cutoff"
    by (simp add: checked_sub_def cutoff_def)
  have win: "ps_window (price_ready rule s ob) = drop_expired cutoff (ps_window s) @ [ob]"
    by (simp add: price_ready_def price_seed_def price_prune_window sub)
  have lt: "cutoff < ?t"
    using le w by (simp add: cutoff_def word_less_nat_alt word_le_nat_alt unat_sub_word)
  obtain b v where bv: "ps_window (price_ready rule s ob) = b # v" by (cases "ps_window (price_ready rule s ob)") auto
  have last: "last (b # v) = ob" using price_ready_simps(5) [of rule s ob] by (simp only: bv)
  obtain p q where pq: "ob_price b = Some p" "ob_price ob = Some q"
    and bounds: "ob_arrival_millis b \<le> cutoff" "cutoff - ob_arrival_millis b \<le> pr_boundary_tolerance_millis rule"
    and xv: "is_finite x" "x = f64_div (f64_sub (price_get q) (price_get p)) (price_get p)"
    using x by (auto simp: price_change_def sub bv last Let_def res_simps not_less
        simp del: last.simps split: if_splits)
  have "drop_expired cutoff (ps_window s) \<noteq> []"
    using win bv bounds(1) lt by (cases "drop_expired cutoff (ps_window s)") auto
  then obtain v' where "drop_expired cutoff (ps_window s) = b # v'"
    using win bv by (cases "drop_expired cutoff (ps_window s)") auto
  with drop_expired_hd [OF _ this bounds(1)] inv
  have "is_boundary cutoff (pr_boundary_tolerance_millis rule) (ps_window s) b"
    using bounds by (auto simp: is_boundary_def price_inv_def)
  then show ?thesis using le pq xv by (auto simp: cutoff_def)
qed

section \<open>Events\<close>

lemma price_rule_fields_inject: "price_rule_fields r = price_rule_fields r' \<longleftrightarrow> r = r'"
  by (cases r; cases r') (auto simp: price_rule_fields_def f64.expand)

lemma price_identity_inject:
  assumes a: "price_core_identity sha r v = Ok a" and b: "price_core_identity sha r' v' = Ok b"
    and nc: "no_collision sha
      (preimage ''magic-market/anomaly-rule-definition/v1'' (price_rule_fields r))
      (preimage ''magic-market/anomaly-rule-definition/v1'' (price_rule_fields r'))"
  shows "a = b \<longleftrightarrow> r = r' \<and> v = v'"
  using rule_identity_inject [OF a [unfolded price_core_identity_def] b [unfolded price_core_identity_def] nc]
  by (auto simp: price_rule_fields_inject)

end
