(* ===== verification/Delta_Monitor.thy ===== *)
theory Delta_Monitor
  imports Keyed_Monitor
begin

text \<open>
  \<open>turnover.rs\<close>: the amount-spike and volume-spike monitors. Both wrap \<open>DeltaMonitor\<close>,
  which keeps a \<open>DeltaState\<close> per instrument and measures how much a cumulative value
  grew across a window. Unlike the price machine, an error of \<open>delta\<close> leaves the point
  just seeded in place.
\<close>

section \<open>Rules\<close>

record delta_rule =
  dr_version :: u32
  dr_window_millis :: u64
  dr_boundary_tolerance_millis :: u64
  dr_trigger_delta :: f64
  dr_rearm_delta :: f64
  dr_cooldown_millis :: u64

definition delta_rule_new ::
  "u32 \<Rightarrow> u64 \<Rightarrow> u64 \<Rightarrow> f64 \<Rightarrow> f64 \<Rightarrow> u64 \<Rightarrow> (delta_rule, monitor_error) rres" where
  "delta_rule_new version window tolerance trigger rearm cooldown =
     (if version = 0 then Err (InvalidConfiguration ''rule version must be positive'')
      else if window = 0
      then Err (InvalidConfiguration ''cumulative-delta window duration must be positive'')
      else if window < tolerance
      then Err (InvalidConfiguration
             ''boundary tolerance must not exceed the cumulative-delta window'')
      else if \<not> is_finite trigger \<or> f64_le trigger f64_zero
      then Err (InvalidConfiguration ''cumulative-delta trigger must be finite and positive'')
      else if \<not> is_finite rearm \<or> f64_lt rearm f64_zero \<or> f64_ge rearm trigger
      then Err (InvalidConfiguration
             ''cumulative-delta rearm must be finite, non-negative, and below the trigger'')
      else Ok \<lparr>dr_version = version, dr_window_millis = window,
               dr_boundary_tolerance_millis = tolerance, dr_trigger_delta = trigger,
               dr_rearm_delta = rearm, dr_cooldown_millis = cooldown\<rparr>)"

datatype amount_spike_rule = AmountSpikeRule (amount_rule: delta_rule)

definition amount_spike_rule_new ::
  "u32 \<Rightarrow> u64 \<Rightarrow> u64 \<Rightarrow> money \<Rightarrow> money \<Rightarrow> u64 \<Rightarrow> (amount_spike_rule, monitor_error) rres" where
  "amount_spike_rule_new version window tolerance trigger rearm cooldown =
     map_ok AmountSpikeRule
       (delta_rule_new version window tolerance (money_get trigger) (money_get rearm) cooldown)"

record volume_spike_rule =
  vr_rule :: delta_rule
  vr_unit :: source_quantity_unit

definition volume_spike_rule_new ::
  "u32 \<Rightarrow> u64 \<Rightarrow> u64 \<Rightarrow> quantity \<Rightarrow> quantity \<Rightarrow> source_quantity_unit \<Rightarrow> u64
     \<Rightarrow> (volume_spike_rule, monitor_error) rres" where
  "volume_spike_rule_new version window tolerance trigger rearm unit cooldown =
     map_ok (\<lambda>r. \<lparr>vr_rule = r, vr_unit = unit\<rparr>)
       (delta_rule_new version window tolerance (quantity_get trigger) (quantity_get rearm) cooldown)"

text \<open>The getters that rebuild the typed thresholds.\<close>

definition amount_trigger_delta :: "amount_spike_rule \<Rightarrow> (money, 'e) rres" where
  "amount_trigger_delta r =
     expect_ok ''validated amount trigger'' (money_new (dr_trigger_delta (amount_rule r)))"

definition amount_rearm_delta :: "amount_spike_rule \<Rightarrow> (money, 'e) rres" where
  "amount_rearm_delta r =
     expect_ok ''validated amount rearm'' (money_new (dr_rearm_delta (amount_rule r)))"

definition volume_trigger_delta :: "volume_spike_rule \<Rightarrow> (quantity, 'e) rres" where
  "volume_trigger_delta r =
     expect_ok ''validated volume trigger'' (quantity_new (dr_trigger_delta (vr_rule r)))"

definition volume_rearm_delta :: "volume_spike_rule \<Rightarrow> (quantity, 'e) rres" where
  "volume_rearm_delta r =
     expect_ok ''validated volume rearm'' (quantity_new (dr_rearm_delta (vr_rule r)))"

definition delta_rule_fields :: "delta_rule \<Rightarrow> u8 list \<Rightarrow> u8 list \<Rightarrow> (string \<times> u8 list) list" where
  "delta_rule_fields rule family unit =
     [(''accepted_continuity'', as_bytes ''continuous''),
      (''boundary_tolerance_millis'', u64_be (dr_boundary_tolerance_millis rule)),
      (''cooldown_millis'', u64_be (dr_cooldown_millis rule)),
      (''family'', family),
      (''rearm_delta_bits'', u64_be (to_bits (dr_rearm_delta rule))),
      (''session_reset_policy'', as_bytes ''explicit_injected_signal''),
      (''time_basis'', as_bytes ''local_observation_time''),
      (''trigger_delta_bits'', u64_be (to_bits (dr_trigger_delta rule))),
      (''unit'', unit),
      (''window_millis'', u64_be (dr_window_millis rule))]"

definition core_rule_identity ::
  "(u8 list \<Rightarrow> u8 list) \<Rightarrow> string \<Rightarrow> delta_rule \<Rightarrow> u8 list \<Rightarrow> u8 list
     \<Rightarrow> (anomaly_rule_identity, core_error) rres" where
  "core_rule_identity sha rule_id rule family unit =
     from_canonical_definition sha rule_id (dr_version rule) (delta_rule_fields rule family unit)"

definition amount_core_identity ::
  "(u8 list \<Rightarrow> u8 list) \<Rightarrow> amount_spike_rule \<Rightarrow> (anomaly_rule_identity, core_error) rres" where
  "amount_core_identity sha r =
     core_rule_identity sha ''local_amount_spike'' (amount_rule r)
       (as_bytes ''amount'') (as_bytes ''cny_yuan'')"

definition volume_core_identity ::
  "(u8 list \<Rightarrow> u8 list) \<Rightarrow> volume_spike_rule \<Rightarrow> (anomaly_rule_identity, core_error) rres" where
  "volume_core_identity sha r =
     core_rule_identity sha ''local_volume_spike'' (vr_rule r)
       (as_bytes ''volume'') (as_bytes (unit_str (vr_unit r)))"

section \<open>Families\<close>

datatype delta_family = Amount | Volume source_quantity_unit

fun observation_family_of :: "delta_family \<Rightarrow> observation_family" where
  "observation_family_of Amount = CumulativeAmount"
| "observation_family_of (Volume _) = CumulativeVolume"

definition validate_observation ::
  "delta_family \<Rightarrow> injected_observation \<Rightarrow> (unit, monitor_error) rres" where
  "validate_observation family ob =
     rbind (require_family ob (observation_family_of family)) (\<lambda>_.
     case family of
       Amount \<Rightarrow> Ok ()
     | Volume expected \<Rightarrow>
         rbind (ok_or (UnitUnavailable CumulativeVolume) (ob_cumulative_volume_unit ob)) (\<lambda>actual.
         if actual \<noteq> expected then Err (SourceQuantityUnitMismatch expected actual) else Ok ()))"

fun unit_name :: "delta_family \<Rightarrow> string" where
  "unit_name Amount = ''cny_yuan''"
| "unit_name (Volume unit) = unit_str unit"

definition cumulative :: "delta_family \<Rightarrow> injected_observation \<Rightarrow> (f64, monitor_error) rres" where
  "cumulative family ob =
     (case family of
        Amount \<Rightarrow> ok_or (FamilyUnavailable CumulativeAmount)
          (map_option money_get (ob_cumulative_amount ob))
      | Volume _ \<Rightarrow> ok_or (FamilyUnavailable CumulativeVolume)
          (map_option quantity_get (ob_cumulative_volume ob)))"

fun rollback_reason :: "delta_family \<Rightarrow> reset_reason" where
  "rollback_reason Amount = CumulativeAmountRollback"
| "rollback_reason (Volume _) = CumulativeVolumeRollback"

definition unit_filtered ::
  "source_quantity_unit \<Rightarrow> quantity option \<Rightarrow> source_quantity_unit option \<Rightarrow> f64 option" where
  "unit_filtered expected value unit =
     (case (value, unit) of
        (Some v, Some actual) \<Rightarrow> if actual = expected then Some (quantity_get v) else None
      | _ \<Rightarrow> None)"

definition cumulative_evidence ::
  "delta_family \<Rightarrow> window_evidence \<Rightarrow> bool \<Rightarrow> (f64, core_error) rres" where
  "cumulative_evidence family e first =
     rbind (case (family, first) of
         (Amount, True) \<Rightarrow> map_ok (map_option money_get) (first_cumulative_amount e)
       | (Amount, False) \<Rightarrow> map_ok (map_option money_get) (last_cumulative_amount e)
       | (Volume expected, True) \<Rightarrow>
           map_ok (\<lambda>v. unit_filtered expected v (we_first_volume_unit e)) (first_cumulative_volume e)
       | (Volume expected, False) \<Rightarrow>
           map_ok (\<lambda>v. unit_filtered expected v (we_last_volume_unit e)) (last_cumulative_volume e))
     (ok_or (invalid_request (family_str (observation_family_of family)
        @ '' endpoint evidence is unavailable'')))"

section \<open>One instrument\<close>

datatype delta_transition =
    WarmedUp
  | Triggered f64
  | EnteredCoolingDown
  | Rearmed f64
  | Reset reset_reason

record delta_outcome =
  do_state :: rule_state
  do_transition :: "delta_transition option"
  do_evidence :: "window_evidence option"

record delta_state =
  ds_rule_state :: rule_state
  ds_window :: "injected_observation list"
  ds_last_arrival :: "u64 option"
  ds_last_cumulative :: "f64 option"
  ds_last_record_count :: "u64 option"
  ds_triggered_at :: "u64 option"

definition delta_state_new :: delta_state where
  "delta_state_new =
     \<lparr>ds_rule_state = WarmingUp, ds_window = [], ds_last_arrival = None, ds_last_cumulative = None,
      ds_last_record_count = None, ds_triggered_at = None\<rparr>"

definition delta_validate_order :: "delta_state \<Rightarrow> u64 \<Rightarrow> (unit, monitor_error) rres" where
  "delta_validate_order s arrival =
     (case ds_last_arrival s of
        None \<Rightarrow> Ok ()
      | Some previous \<Rightarrow>
          if arrival = previous then Err (DuplicateObservation arrival)
          else if arrival < previous then Err (OutOfOrderObservation previous arrival)
          else Ok ())"

definition delta_reset_reason ::
  "delta_state \<Rightarrow> injected_observation \<Rightarrow> delta_family \<Rightarrow> (reset_reason option, monitor_error) rres" where
  "delta_reset_reason s ob family =
     (if ob_continuity ob \<noteq> Continuous then Ok (Some (NonContinuous (ob_continuity ob)))
      else if (case (ds_last_record_count s, ob_source_record_count ob) of
                 (Some previous, Some actual) \<Rightarrow> actual < previous | _ \<Rightarrow> False)
      then Ok (Some SourceRecordCountRollback)
      else rbind (cumulative family ob) (\<lambda>current.
        Ok (if (case ds_last_cumulative s of None \<Rightarrow> False | Some previous \<Rightarrow> f64_lt current previous)
            then Some (rollback_reason family) else None)))"

definition delta_prune_for :: "delta_state \<Rightarrow> u64 \<Rightarrow> u64 \<Rightarrow> delta_state" where
  "delta_prune_for s arrival window_millis =
     (case checked_sub arrival window_millis of
        None \<Rightarrow> s
      | Some cutoff \<Rightarrow> s\<lparr>ds_window := drop_expired cutoff (ds_window s)\<rparr>)"

definition delta_measure ::
  "delta_state \<Rightarrow> u64 \<Rightarrow> delta_rule \<Rightarrow> delta_family \<Rightarrow> (f64 option, monitor_error) rres" where
  "delta_measure s arrival rule family =
     (case checked_sub arrival (dr_window_millis rule) of
        None \<Rightarrow> Ok None
      | Some cutoff \<Rightarrow>
          (case ds_window s of
             [] \<Rightarrow> Ok None
           | boundary # _ \<Rightarrow>
               if cutoff < ob_arrival_millis boundary
                  \<or> dr_boundary_tolerance_millis rule < cutoff - ob_arrival_millis boundary
               then Ok None
               else
                 rbind (cumulative family (last (ds_window s))) (\<lambda>c.
                 rbind (cumulative family boundary) (\<lambda>b.
                 let delta = f64_sub c b in
                 if \<not> is_finite delta \<or> f64_lt delta f64_zero then Err CumulativeDeltaOverflow
                 else Ok (Some delta)))))"

definition delta_reset_without_seed :: "delta_state \<Rightarrow> delta_state" where
  "delta_reset_without_seed s =
     s\<lparr>ds_rule_state := WarmingUp, ds_window := [], ds_last_arrival := None,
       ds_last_cumulative := None, ds_last_record_count := None, ds_triggered_at := None\<rparr>"

definition delta_seed ::
  "delta_family \<Rightarrow> delta_state \<Rightarrow> injected_observation \<Rightarrow> delta_state \<times> (unit, monitor_error) rres" where
  "delta_seed family s ob =
     (case cumulative family ob of
        Ok c \<Rightarrow>
          (s\<lparr>ds_window := ds_window s @ [ob], ds_last_arrival := Some (ob_arrival_millis ob),
             ds_last_cumulative := Some c, ds_last_record_count := ob_source_record_count ob\<rparr>, Ok ())
      | Err e \<Rightarrow> (s, Err e)
      | Panic p \<Rightarrow> (s, Panic p))"

definition delta_reset_and_seed ::
  "delta_family \<Rightarrow> delta_state \<Rightarrow> injected_observation \<Rightarrow> delta_state \<times> (unit, monitor_error) rres" where
  "delta_reset_and_seed family s ob = delta_seed family (delta_reset_without_seed s) ob"

text \<open>\<open>outcome\<close>: with \<open>retain_evidence\<close> it expects the window to have endpoints.\<close>

definition delta_outcome_of ::
  "delta_state \<Rightarrow> delta_transition option \<Rightarrow> bool \<Rightarrow> (delta_outcome, monitor_error) rres" where
  "delta_outcome_of s transition retain_evidence =
     (if retain_evidence then
        (case ds_window s of
           [] \<Rightarrow> Panic ''transition window has a boundary''
         | p # w \<Rightarrow> Ok \<lparr>do_state = ds_rule_state s, do_transition = transition,
                        do_evidence = Some (window_evidence_new p (last (p # w)))\<rparr>)
      else Ok \<lparr>do_state = ds_rule_state s, do_transition = transition, do_evidence = None\<rparr>)"

definition delta_advance ::
  "delta_state \<Rightarrow> u64 \<Rightarrow> delta_rule \<Rightarrow> f64 \<Rightarrow> delta_state \<times> (delta_outcome, monitor_error) rres" where
  "delta_advance s arrival rule delta =
     (case ds_rule_state s of
        WarmingUp \<Rightarrow>
          let s' = s\<lparr>ds_rule_state := Armed\<rparr> in (s', delta_outcome_of s' (Some WarmedUp) True)
      | Armed \<Rightarrow>
          if f64_ge delta (dr_trigger_delta rule)
          then let s' = s\<lparr>ds_rule_state := rule_state.Triggered, ds_triggered_at := Some arrival\<rparr>
               in (s', delta_outcome_of s' (Some (Triggered delta)) True)
          else (s, delta_outcome_of s None False)
      | rule_state.Triggered \<Rightarrow>
          let s' = s\<lparr>ds_rule_state := CoolingDown\<rparr>
          in (s', delta_outcome_of s' (Some EnteredCoolingDown) True)
      | CoolingDown \<Rightarrow>
          (case ds_triggered_at s of
             None \<Rightarrow> (s, Err (InvalidObservation ''cooling state has no trigger time''))
           | Some triggered_at \<Rightarrow>
               (case checked_sub arrival triggered_at of
                  None \<Rightarrow> (s, Panic ''attempt to subtract with overflow'')
                | Some elapsed \<Rightarrow>
                    if dr_cooldown_millis rule \<le> elapsed \<and> f64_le delta (dr_rearm_delta rule)
                    then let s' = s\<lparr>ds_rule_state := Armed, ds_triggered_at := None\<rparr>
                         in (s', delta_outcome_of s' (Some (Rearmed delta)) True)
                    else (s, delta_outcome_of s None False))))"

definition delta_process ::
  "delta_rule \<Rightarrow> delta_family \<Rightarrow> u16 \<Rightarrow> delta_state \<Rightarrow> injected_observation
     \<Rightarrow> delta_state \<times> (delta_outcome, monitor_error) rres" where
  "delta_process rule family capacity s ob =
     sbind (s, delta_validate_order s (ob_arrival_millis ob)) (\<lambda>s _.
     sbind (s, delta_reset_reason s ob family) (\<lambda>s reason.
     case reason of
       Some r \<Rightarrow>
         sbind (delta_reset_and_seed family s ob) (\<lambda>s _.
         (s, delta_outcome_of s (Some (Reset r)) False))
     | None \<Rightarrow>
         let s = delta_prune_for s (ob_arrival_millis ob) (dr_window_millis rule) in
         if unat capacity \<le> length (ds_window s)
         then sbind (delta_reset_and_seed family s ob) (\<lambda>s _. (s, Err (WindowOverflow capacity)))
         else
           sbind (delta_seed family s ob) (\<lambda>s _.
           sbind (s, delta_measure s (ob_arrival_millis ob) rule family) (\<lambda>s measured.
           case measured of
             None \<Rightarrow>
               if ds_rule_state s \<noteq> WarmingUp
               then sbind (delta_reset_and_seed family s ob) (\<lambda>s _.
                    (s, delta_outcome_of s (Some (Reset SamplingGap)) False))
               else (s, delta_outcome_of s None False)
           | Some delta \<Rightarrow> delta_advance s (ob_arrival_millis ob) rule delta))))"

section \<open>The monitor over instruments\<close>

record delta_monitor =
  dm_limits :: monitor_limits
  dm_rule :: delta_rule
  dm_family :: delta_family
  dm_instruments :: "(instrument_id, delta_state) mapping"

definition delta_monitor_new :: "monitor_limits \<Rightarrow> delta_rule \<Rightarrow> delta_family \<Rightarrow> delta_monitor" where
  "delta_monitor_new limits rule family =
     \<lparr>dm_limits = limits, dm_rule = rule, dm_family = family, dm_instruments = Mapping.empty\<rparr>"

definition delta_monitor_process ::
  "delta_monitor \<Rightarrow> injected_observation \<Rightarrow> delta_monitor \<times> (delta_outcome, monitor_error) rres" where
  "delta_monitor_process m ob =
     sbind (m, validate_observation (dm_family m) ob) (\<lambda>m _.
     let instrument = ob_instrument ob in
     if Mapping.lookup (dm_instruments m) instrument = None
        \<and> unat (max_instruments (dm_limits m)) \<le> Mapping.size (dm_instruments m)
     then (m, Err (InstrumentLimit (max_instruments (dm_limits m))))
     else
       let entry = Mapping.lookup_default delta_state_new (dm_instruments m) instrument;
           (s', result) = delta_process (dm_rule m) (dm_family m) (window_capacity (dm_limits m)) entry ob
       in (m\<lparr>dm_instruments := Mapping.update instrument s' (dm_instruments m)\<rparr>, result))"

definition delta_monitor_inject_reset ::
  "delta_monitor \<Rightarrow> instrument_id \<Rightarrow> injected_reset_signal \<Rightarrow> delta_monitor \<times> delta_outcome option" where
  "delta_monitor_inject_reset m instrument signal =
     (case Mapping.lookup (dm_instruments m) instrument of
        None \<Rightarrow> (m, None)
      | Some s \<Rightarrow>
          let s' = delta_reset_without_seed s in
          (m\<lparr>dm_instruments := Mapping.update instrument s' (dm_instruments m)\<rparr>,
           Some \<lparr>do_state = ds_rule_state s',
                 do_transition = Some (Reset (reset_reason_of signal)), do_evidence = None\<rparr>))"

definition delta_monitor_state :: "delta_monitor \<Rightarrow> instrument_id \<Rightarrow> rule_state option" where
  "delta_monitor_state m instrument =
     map_option ds_rule_state (Mapping.lookup (dm_instruments m) instrument)"

definition delta_monitor_window_len :: "delta_monitor \<Rightarrow> instrument_id \<Rightarrow> nat option" where
  "delta_monitor_window_len m instrument =
     map_option (\<lambda>s. length (ds_window s)) (Mapping.lookup (dm_instruments m) instrument)"

definition delta_monitor_window_evidence :: "delta_monitor \<Rightarrow> instrument_id \<Rightarrow> window_evidence option" where
  "delta_monitor_window_evidence m instrument =
     (case Mapping.lookup (dm_instruments m) instrument of
        None \<Rightarrow> None
      | Some s \<Rightarrow>
          (case ds_window s of [] \<Rightarrow> None | p # w \<Rightarrow> Some (window_evidence_new p (last (p # w)))))"

section \<open>The typed monitors\<close>

datatype amount_transition =
    AmountWarmedUp
  | AmountTriggered (amount_delta: money)
  | AmountEnteredCoolingDown
  | AmountRearmed money
  | AmountReset reset_reason

record amount_outcome =
  ao_state :: rule_state
  ao_transition :: "amount_transition option"
  ao_evidence :: "window_evidence option"

datatype volume_transition =
    VolumeWarmedUp
  | VolumeTriggered quantity source_quantity_unit
  | VolumeEnteredCoolingDown
  | VolumeRearmed quantity source_quantity_unit
  | VolumeReset reset_reason

record volume_outcome =
  vo_state :: rule_state
  vo_transition :: "volume_transition option"
  vo_evidence :: "window_evidence option"

fun amount_transition_of :: "delta_transition \<Rightarrow> (amount_transition, monitor_error) rres" where
  "amount_transition_of WarmedUp = Ok AmountWarmedUp"
| "amount_transition_of (Triggered delta) =
     map_ok AmountTriggered (expect_ok ''validated amount delta'' (money_new delta))"
| "amount_transition_of EnteredCoolingDown = Ok AmountEnteredCoolingDown"
| "amount_transition_of (Rearmed delta) =
     map_ok AmountRearmed (expect_ok ''validated amount delta'' (money_new delta))"
| "amount_transition_of (Reset reason) = Ok (AmountReset reason)"

fun volume_transition_of ::
  "source_quantity_unit \<Rightarrow> delta_transition \<Rightarrow> (volume_transition, monitor_error) rres" where
  "volume_transition_of unit WarmedUp = Ok VolumeWarmedUp"
| "volume_transition_of unit (Triggered delta) =
     map_ok (\<lambda>q. VolumeTriggered q unit) (expect_ok ''validated volume delta'' (quantity_new delta))"
| "volume_transition_of unit EnteredCoolingDown = Ok VolumeEnteredCoolingDown"
| "volume_transition_of unit (Rearmed delta) =
     map_ok (\<lambda>q. VolumeRearmed q unit) (expect_ok ''validated volume delta'' (quantity_new delta))"
| "volume_transition_of unit (Reset reason) = Ok (VolumeReset reason)"

definition map_transition ::
  "('a \<Rightarrow> ('b, 'e) rres) \<Rightarrow> 'a option \<Rightarrow> ('b option, 'e) rres" where
  "map_transition f t = (case t of None \<Rightarrow> Ok None | Some x \<Rightarrow> map_ok Some (f x))"

datatype amount_monitor = AmountMonitor (amount_inner: delta_monitor)
datatype volume_monitor = VolumeMonitor (volume_inner: delta_monitor)

definition amount_monitor_new :: "monitor_limits \<Rightarrow> amount_spike_rule \<Rightarrow> amount_monitor" where
  "amount_monitor_new limits rule = AmountMonitor (delta_monitor_new limits (amount_rule rule) Amount)"

definition volume_monitor_new :: "monitor_limits \<Rightarrow> volume_spike_rule \<Rightarrow> volume_monitor" where
  "volume_monitor_new limits rule =
     VolumeMonitor (delta_monitor_new limits (vr_rule rule) (Volume (vr_unit rule)))"

definition amount_monitor_process ::
  "amount_monitor \<Rightarrow> injected_observation \<Rightarrow> amount_monitor \<times> (amount_outcome, monitor_error) rres" where
  "amount_monitor_process m ob =
     (case delta_monitor_process (amount_inner m) ob of (inner, result) \<Rightarrow>
        (AmountMonitor inner,
         rbind result (\<lambda>outcome.
         rbind (map_transition amount_transition_of (do_transition outcome)) (\<lambda>t.
         Ok \<lparr>ao_state = do_state outcome, ao_transition = t, ao_evidence = do_evidence outcome\<rparr>))))"

definition volume_monitor_process ::
  "volume_monitor \<Rightarrow> injected_observation \<Rightarrow> volume_monitor \<times> (volume_outcome, monitor_error) rres" where
  "volume_monitor_process m ob =
     (case dm_family (volume_inner m) of
        Amount \<Rightarrow> (m, Err (InvalidConfiguration ''volume monitor has an amount family''))
      | Volume unit \<Rightarrow>
          (case delta_monitor_process (volume_inner m) ob of (inner, result) \<Rightarrow>
             (VolumeMonitor inner,
              rbind result (\<lambda>outcome.
              rbind (map_transition (volume_transition_of unit) (do_transition outcome)) (\<lambda>t.
              Ok \<lparr>vo_state = do_state outcome, vo_transition = t, vo_evidence = do_evidence outcome\<rparr>)))))"

definition amount_monitor_inject_reset ::
  "amount_monitor \<Rightarrow> instrument_id \<Rightarrow> injected_reset_signal
     \<Rightarrow> amount_monitor \<times> (amount_outcome option, monitor_error) rres" where
  "amount_monitor_inject_reset m instrument signal =
     (case delta_monitor_inject_reset (amount_inner m) instrument signal of
        (inner, None) \<Rightarrow> (AmountMonitor inner, Ok None)
      | (inner, Some outcome) \<Rightarrow>
          (AmountMonitor inner,
           rbind (map_transition (\<lambda>t. case t of Reset reason \<Rightarrow> Ok (AmountReset reason)
                    | _ \<Rightarrow> Panic ''injected reset only emits reset'') (do_transition outcome)) (\<lambda>t.
           Ok (Some \<lparr>ao_state = do_state outcome, ao_transition = t,
                     ao_evidence = do_evidence outcome\<rparr>))))"

definition volume_monitor_inject_reset ::
  "volume_monitor \<Rightarrow> instrument_id \<Rightarrow> injected_reset_signal
     \<Rightarrow> volume_monitor \<times> (volume_outcome option, monitor_error) rres" where
  "volume_monitor_inject_reset m instrument signal =
     (case delta_monitor_inject_reset (volume_inner m) instrument signal of
        (inner, None) \<Rightarrow> (VolumeMonitor inner, Ok None)
      | (inner, Some outcome) \<Rightarrow>
          (VolumeMonitor inner,
           rbind (map_transition (\<lambda>t. case t of Reset reason \<Rightarrow> Ok (VolumeReset reason)
                    | _ \<Rightarrow> Panic ''injected reset only emits reset'') (do_transition outcome)) (\<lambda>t.
           Ok (Some \<lparr>vo_state = do_state outcome, vo_transition = t,
                     vo_evidence = do_evidence outcome\<rparr>))))"

section \<open>Events\<close>

definition delta_input_fields ::
  "delta_family \<Rightarrow> window_evidence \<Rightarrow> f64 \<Rightarrow> f64 \<Rightarrow> f64 \<Rightarrow> (string \<times> u8 list) list" where
  "delta_input_fields family e delta first_value last_value =
     [(''delta_bits'', u64_be (to_bits delta)),
      (''first_arrival_millis'', u64_be (we_first_arrival e)),
      (''first_cumulative_bits'', u64_be (to_bits first_value)),
      (''last_arrival_millis'', u64_be (we_last_arrival e)),
      (''last_cumulative_bits'', u64_be (to_bits last_value)),
      (''observed_source_record_count'', encode_optional_u64 (observed_source_record_count e)),
      (''unit'', as_bytes (unit_name family))]"

definition delta_core_event ::
  "(u8 list \<Rightarrow> u8 list) \<Rightarrow> instrument_id \<Rightarrow> anomaly_rule_identity \<Rightarrow> anomaly_transition
     \<Rightarrow> stream_cursor \<Rightarrow> window_evidence option \<Rightarrow> stream_continuity \<Rightarrow> delta_family \<Rightarrow> f64 \<Rightarrow> string
     \<Rightarrow> (anomaly_event, core_error) rres" where
  "delta_core_event sha instrument rule transition stream evidence continuity family delta observed =
     rbind (ok_or (invalid_request ''anomaly transition is missing endpoint evidence'') evidence) (\<lambda>e.
     rbind (cumulative_evidence family e True) (\<lambda>first_value.
     rbind (cumulative_evidence family e False) (\<lambda>last_value.
     rbind (rule_input_digest_of sha (delta_input_fields family e delta first_value last_value)) (\<lambda>inputs.
     rbind (core_anomaly_input_evidence sha e LocalObservationTime continuity inputs) (\<lambda>inp.
     anomaly_event_new sha instrument rule transition stream inp observed)))))"

definition amount_core_event ::
  "(u8 list \<Rightarrow> u8 list) \<Rightarrow> amount_outcome \<Rightarrow> instrument_id \<Rightarrow> amount_spike_rule \<Rightarrow> stream_cursor
     \<Rightarrow> stream_continuity \<Rightarrow> string \<Rightarrow> (anomaly_event, core_error) rres" where
  "amount_core_event sha outcome instrument rule stream continuity observed =
     rbind (case ao_transition outcome of
              Some (AmountTriggered d) \<Rightarrow> Ok (anomaly_transition.Triggered, money_get d)
            | Some (AmountRearmed d) \<Rightarrow> Ok (anomaly_transition.Rearmed, money_get d)
            | _ \<Rightarrow> Err (invalid_request ''amount outcome has no public anomaly transition''))
       (\<lambda>(kind, delta).
     rbind (amount_core_identity sha rule) (\<lambda>identity.
     delta_core_event sha instrument identity kind stream (ao_evidence outcome) continuity
       Amount delta observed))"

definition volume_core_event ::
  "(u8 list \<Rightarrow> u8 list) \<Rightarrow> volume_outcome \<Rightarrow> instrument_id \<Rightarrow> volume_spike_rule \<Rightarrow> stream_cursor
     \<Rightarrow> stream_continuity \<Rightarrow> string \<Rightarrow> (anomaly_event, core_error) rres" where
  "volume_core_event sha outcome instrument rule stream continuity observed =
     (let mismatch = Err (invalid_request ''volume transition unit does not match its rule'') in
     rbind (case vo_transition outcome of
              Some (VolumeTriggered d unit) \<Rightarrow>
                if unit \<noteq> vr_unit rule then mismatch
                else Ok (anomaly_transition.Triggered, quantity_get d)
            | Some (VolumeRearmed d unit) \<Rightarrow>
                if unit \<noteq> vr_unit rule then mismatch
                else Ok (anomaly_transition.Rearmed, quantity_get d)
            | _ \<Rightarrow> Err (invalid_request ''volume outcome has no public anomaly transition''))
       (\<lambda>(kind, delta).
     rbind (volume_core_identity sha rule) (\<lambda>identity.
     delta_core_event sha instrument identity kind stream (vo_evidence outcome) continuity
       (Volume (vr_unit rule)) delta observed)))"

section \<open>The invariant of one instrument's state\<close>

definition delta_admits :: "delta_family \<Rightarrow> injected_observation \<Rightarrow> bool" where
  "delta_admits family ob \<longleftrightarrow> observation_ok ob \<and> validate_observation family ob = Ok ()"

text \<open>The cumulative value of an admitted observation.\<close>

definition cumulative_value :: "delta_family \<Rightarrow> injected_observation \<Rightarrow> f64" where
  "cumulative_value family ob =
     (case family of
        Amount \<Rightarrow> (case ob_cumulative_amount ob of Some a \<Rightarrow> money_get a | None \<Rightarrow> f64_zero)
      | Volume _ \<Rightarrow> (case ob_cumulative_volume ob of Some v \<Rightarrow> quantity_get v | None \<Rightarrow> f64_zero))"

lemma cumulative_admitted:
  assumes "delta_admits family ob"
  shows "cumulative family ob = Ok (cumulative_value family ob)"
    "is_finite (cumulative_value family ob)" "f64_le f64_zero (cumulative_value family ob)"
  using assms
  by (auto simp: delta_admits_def validate_observation_def require_family_def cumulative_def
      cumulative_value_def observation_ok_def money_ok_def quantity_ok_def ok_or_def res_simps
      split: delta_family.splits option.splits)

definition delta_inv :: "delta_family \<Rightarrow> u16 \<Rightarrow> delta_state \<Rightarrow> bool" where
  "delta_inv family capacity s \<longleftrightarrow>
     length (ds_window s) \<le> unat capacity
     \<and> arrivals_increase (ds_window s)
     \<and> sorted_wrt (\<lambda>p q. f64_le (cumulative_value family p) (cumulative_value family q)) (ds_window s)
     \<and> (\<forall>ob\<in>set (ds_window s). delta_admits family ob)
     \<and> ds_last_arrival s
         = (if ds_window s = [] then None else Some (ob_arrival_millis (last (ds_window s))))
     \<and> ds_last_cumulative s
         = (if ds_window s = [] then None else Some (cumulative_value family (last (ds_window s))))
     \<and> ds_last_record_count s
         = (if ds_window s = [] then None else ob_source_record_count (last (ds_window s)))
     \<and> (case ds_triggered_at s of
          None \<Rightarrow> ds_rule_state s \<in> {WarmingUp, Armed}
        | Some u \<Rightarrow> ds_rule_state s \<in> {rule_state.Triggered, CoolingDown}
            \<and> ds_window s \<noteq> [] \<and> u \<le> ob_arrival_millis (last (ds_window s)))
     \<and> (ds_window s = [] \<longrightarrow> ds_rule_state s = WarmingUp)"

definition delta_seeded :: "delta_family \<Rightarrow> delta_state \<Rightarrow> injected_observation \<Rightarrow> delta_state" where
  "delta_seeded family s ob =
     s\<lparr>ds_window := ds_window s @ [ob], ds_last_arrival := Some (ob_arrival_millis ob),
       ds_last_cumulative := Some (cumulative_value family ob),
       ds_last_record_count := ob_source_record_count ob\<rparr>"

definition delta_restarted :: "delta_family \<Rightarrow> delta_state \<Rightarrow> injected_observation \<Rightarrow> delta_state" where
  "delta_restarted family s ob = delta_seeded family (delta_reset_without_seed s) ob"

definition delta_ready ::
  "delta_rule \<Rightarrow> delta_family \<Rightarrow> delta_state \<Rightarrow> injected_observation \<Rightarrow> delta_state" where
  "delta_ready rule family s ob =
     delta_seeded family (delta_prune_for s (ob_arrival_millis ob) (dr_window_millis rule)) ob"

lemma delta_seed_eq: "delta_admits family ob \<Longrightarrow> delta_seed family s ob = (delta_seeded family s ob, Ok ())"
  by (simp add: delta_seed_def delta_seeded_def cumulative_admitted)

lemma delta_inv_new: "delta_inv family c delta_state_new"
  by (simp add: delta_inv_def delta_state_new_def)

lemma delta_inv_reset: "delta_inv family c (delta_reset_without_seed s)"
  by (simp add: delta_inv_def delta_reset_without_seed_def)

lemma delta_inv_restarted:
  "2 \<le> unat c \<Longrightarrow> delta_admits family ob \<Longrightarrow> delta_inv family c (delta_restarted family s ob)"
  by (simp add: delta_inv_def delta_restarted_def delta_seeded_def delta_reset_without_seed_def)

lemma delta_restarted_again [simp]:
  "delta_restarted family (delta_prune_for s t w) ob = delta_restarted family s ob"
  "delta_restarted family (delta_ready rule family s ob) ob = delta_restarted family s ob"
  by (simp_all add: delta_restarted_def delta_reset_without_seed_def delta_seeded_def delta_ready_def
      delta_prune_for_def split: option.splits)

lemma delta_prune_simps [simp]:
  "ds_rule_state (delta_prune_for s t w) = ds_rule_state s"
  "ds_triggered_at (delta_prune_for s t w) = ds_triggered_at s"
  by (simp_all add: delta_prune_for_def split: option.splits)

lemma delta_prune_window:
  "ds_window (delta_prune_for s t w) =
     (case checked_sub t w of None \<Rightarrow> ds_window s | Some cutoff \<Rightarrow> drop_expired cutoff (ds_window s))"
  by (simp add: delta_prune_for_def split: option.splits)

lemma delta_ready_simps [simp]:
  "ds_rule_state (delta_ready rule family s ob) = ds_rule_state s"
  "ds_triggered_at (delta_ready rule family s ob) = ds_triggered_at s"
  "last (ds_window (delta_ready rule family s ob)) = ob"
  "ds_window (delta_ready rule family s ob) \<noteq> []"
  by (simp_all add: delta_ready_def delta_seeded_def)

lemma delta_order_ok:
  "delta_validate_order s t = Ok u \<longleftrightarrow>
     (case ds_last_arrival s of None \<Rightarrow> True | Some previous \<Rightarrow> previous < t)"
  by (auto simp: delta_validate_order_def split: option.splits)

lemma sorted_wrt_last:
  assumes "sorted_wrt R w" "p \<in> set w" shows "p = last w \<or> R p (last w)"
proof -
  have "w = butlast w @ [last w]" using assms(2) by (cases w) auto
  then show ?thesis using assms
    by (metis Un_iff empty_iff empty_set set_ConsD set_append sorted_wrt_append list.set_intros(1))
qed

lemma delta_order_later:
  assumes "delta_inv family c s" "delta_validate_order s t = Ok u" "p \<in> set (ds_window s)"
  shows "ob_arrival_millis p < t"
proof -
  have "ds_window s \<noteq> []" using assms(3) by auto
  then have "ob_arrival_millis (last (ds_window s)) < t"
    using assms(1,2) by (auto simp: delta_inv_def delta_order_ok)
  moreover have "ob_arrival_millis p \<le> ob_arrival_millis (last (ds_window s))"
    using sorted_wrt_last [of "\<lambda>p q. ob_arrival_millis p < ob_arrival_millis q" "ds_window s" p] assms
    by (auto simp: delta_inv_def arrivals_increase_def less_imp_le)
  ultimately show ?thesis by simp
qed

lemma delta_cumulative_later:
  assumes inv: "delta_inv family c s" and ob: "delta_admits family ob"
    and r: "delta_reset_reason s ob family = Ok None" and p: "p \<in> set (ds_window s)"
  shows "f64_le (cumulative_value family p) (cumulative_value family ob)"
proof -
  have w: "ds_window s \<noteq> []" using p by auto
  let ?l = "last (ds_window s)"
  have adm: "delta_admits family ?l" "delta_admits family p" using inv p w by (auto simp: delta_inv_def)
  have "\<not> f64_lt (cumulative_value family ob) (cumulative_value family ?l)"
    using r w inv by (auto simp: delta_reset_reason_def cumulative_admitted [OF ob] delta_inv_def
        split: if_splits)
  then have "f64_le (cumulative_value family ?l) (cumulative_value family ob)"
    using cumulative_admitted(2) [OF ob] cumulative_admitted(2) [OF adm(1)]
    by (simp add: f64_not_lt is_nan_not_finite)
  moreover have "f64_le (cumulative_value family p) (cumulative_value family ?l)"
    using sorted_wrt_last [of "\<lambda>p q. f64_le (cumulative_value family p) (cumulative_value family q)" "ds_window s" p]
      inv p cumulative_admitted(2) [OF adm(1)]
    by (auto simp: delta_inv_def f64_le_refl is_nan_not_finite)
  ultimately show ?thesis by (rule f64_le_trans [rotated])
qed

lemma delta_inv_ready:
  assumes inv: "delta_inv family c s" and order: "delta_validate_order s (ob_arrival_millis ob) = Ok u"
    and ob: "delta_admits family ob" and r: "delta_reset_reason s ob family = Ok None"
    and room: "length (ds_window (delta_prune_for s (ob_arrival_millis ob) (dr_window_millis rule)))
      < unat c"
  shows "delta_inv family c (delta_ready rule family s ob)"
proof -
  let ?w = "ds_window (delta_prune_for s (ob_arrival_millis ob) (dr_window_millis rule))"
  have "\<exists>v. ds_window s = v @ ?w"
    using drop_expired_suffix [of "ds_window s"] by (simp add: delta_prune_window split: option.split)
  then obtain v where v: "ds_window s = v @ ?w" by blast
  have sub: "set ?w \<subseteq> set (ds_window s)" by (subst v) auto
  have inc: "arrivals_increase ?w"
    "sorted_wrt (\<lambda>p q. f64_le (cumulative_value family p) (cumulative_value family q)) ?w"
    using inv by (auto simp: delta_inv_def arrivals_increase_def v sorted_wrt_append)
  have later: "\<forall>p\<in>set ?w. ob_arrival_millis p < ob_arrival_millis ob"
    using delta_order_later [OF inv order] sub by blast
  have grows: "\<forall>p\<in>set ?w. f64_le (cumulative_value family p) (cumulative_value family ob)"
    using delta_cumulative_later [OF inv ob r] sub by blast
  have t: "\<forall>u. ds_triggered_at s = Some u \<longrightarrow> u \<le> ob_arrival_millis ob"
    using inv delta_order_later [OF inv order, of "last (ds_window s)"]
    by (auto simp: delta_inv_def split: option.splits)
  have adm: "\<forall>p\<in>set ?w. delta_admits family p" using inv sub by (auto simp: delta_inv_def)
  show ?thesis
    using inv inc later grows t room ob adm
    by (auto simp: delta_inv_def delta_ready_def delta_seeded_def arrivals_increase_snoc
        sorted_wrt_append split: option.splits)
qed

lemma delta_process_unfold:
  assumes "delta_admits family ob"
  shows "delta_process rule family c s ob =
     (case delta_validate_order s (ob_arrival_millis ob) of
        Err e \<Rightarrow> (s, Err e)
      | Panic p \<Rightarrow> (s, Panic p)
      | Ok _ \<Rightarrow>
          (case delta_reset_reason s ob family of
             Err e \<Rightarrow> (s, Err e)
           | Panic p \<Rightarrow> (s, Panic p)
           | Ok (Some reason) \<Rightarrow> (delta_restarted family s ob,
               Ok \<lparr>do_state = WarmingUp, do_transition = Some (Reset reason), do_evidence = None\<rparr>)
           | Ok None \<Rightarrow>
               if unat c \<le> length (ds_window
                    (delta_prune_for s (ob_arrival_millis ob) (dr_window_millis rule)))
               then (delta_restarted family s ob, Err (WindowOverflow c))
               else
                 (case delta_measure (delta_ready rule family s ob) (ob_arrival_millis ob) rule family of
                    Err e \<Rightarrow> (delta_ready rule family s ob, Err e)
                  | Panic p \<Rightarrow> (delta_ready rule family s ob, Panic p)
                  | Ok None \<Rightarrow>
                      if ds_rule_state s \<noteq> WarmingUp
                      then (delta_restarted family s ob,
                        Ok \<lparr>do_state = WarmingUp, do_transition = Some (Reset SamplingGap),
                            do_evidence = None\<rparr>)
                      else (delta_ready rule family s ob,
                        Ok \<lparr>do_state = WarmingUp, do_transition = None, do_evidence = None\<rparr>)
                  | Ok (Some delta) \<Rightarrow>
                      delta_advance (delta_ready rule family s ob) (ob_arrival_millis ob) rule delta)))"
proof -
  have o': "ds_rule_state (delta_restarted family s ob) = WarmingUp" for s
    by (simp add: delta_restarted_def delta_reset_without_seed_def delta_seeded_def)
  have rs: "delta_reset_and_seed family s ob = (delta_restarted family s ob, Ok ())" for s
    by (simp add: delta_reset_and_seed_def delta_seed_eq [OF assms] delta_restarted_def)
  show ?thesis
    unfolding delta_process_def rs delta_seed_eq [OF assms] Let_def sbind.simps
      delta_ready_def [symmetric]
    by (auto simp: delta_outcome_of_def o' split: rres.splits option.splits)
qed

text \<open>In a window the invariant holds of, the difference is a finite non-negative number:
  the overflow error of \<open>delta\<close> cannot happen.\<close>

lemma delta_measure_total:
  assumes inv: "delta_inv family c s"
  shows "\<exists>r. delta_measure s t rule family = Ok r
     \<and> (\<forall>x. r = Some x \<longrightarrow> is_finite x \<and> f64_le f64_zero x)"
proof (cases "ds_window s")
  case (Cons p w)
  have last: "last (ds_window s) \<in> set (ds_window s)" and p: "p \<in> set (ds_window s)" using Cons by simp_all
  then have adm: "delta_admits family p" "delta_admits family (last (ds_window s))"
    using inv by (auto simp: delta_inv_def)
  have "f64_le (cumulative_value family p) (cumulative_value family (last (ds_window s)))"
    using sorted_wrt_last [of "\<lambda>p q. f64_le (cumulative_value family p) (cumulative_value family q)" "ds_window s" p]
      inv p cumulative_admitted(2) [OF adm(1)]
    by (auto simp: delta_inv_def f64_le_refl is_nan_not_finite)
  with f64_sub_nonneg [OF cumulative_admitted(2) [OF adm(2)] cumulative_admitted(2) [OF adm(1)]
      cumulative_admitted(3) [OF adm(1)]]
  have d: "is_finite (f64_sub (cumulative_value family (last (ds_window s))) (cumulative_value family p))"
    "f64_le f64_zero (f64_sub (cumulative_value family (last (ds_window s))) (cumulative_value family p))"
    by auto
  then have "\<not> f64_lt (f64_sub (cumulative_value family (last (ds_window s))) (cumulative_value family p)) f64_zero"
    using f64_lt_asym by blast
  with d show ?thesis
    using cumulative_admitted(1) [OF adm(1)] cumulative_admitted(1) [OF adm(2)] Cons
    by (auto simp: delta_measure_def Let_def simp del: last.simps split: option.splits)
qed (auto simp: delta_measure_def split: option.splits)

section \<open>The state machine refines the abstract rule\<close>

definition delta_params :: "delta_rule \<Rightarrow> rule_params" where
  "delta_params rule = \<lparr>rp_trigger = dr_trigger_delta rule, rp_rearm = dr_rearm_delta rule,
     rp_cooldown = dr_cooldown_millis rule\<rparr>"

definition delta_position :: "delta_state \<Rightarrow> rule_position" where
  "delta_position s = (ds_rule_state s, ds_triggered_at s)"

fun delta_action :: "(delta_outcome, monitor_error) rres \<Rightarrow> rule_action" where
  "delta_action (Ok out) =
     (case do_transition out of
        None \<Rightarrow> Stay
      | Some WarmedUp \<Rightarrow> Warm
      | Some (Triggered x) \<Rightarrow> Trigger x
      | Some EnteredCoolingDown \<Rightarrow> Cool
      | Some (Rearmed x) \<Rightarrow> Rearm x
      | Some (Reset _) \<Rightarrow> Restart)"
| "delta_action (Err (WindowOverflow _)) = Restart"
| "delta_action _ = Stay"

lemma delta_outcome_evidence:
  "ds_window s \<noteq> [] \<Longrightarrow> delta_outcome_of s tr True =
     Ok \<lparr>do_state = ds_rule_state s, do_transition = tr,
         do_evidence = Some (window_evidence_new (hd (ds_window s)) (last (ds_window s)))\<rparr>"
  "delta_outcome_of s tr False =
     Ok \<lparr>do_state = ds_rule_state s, do_transition = tr, do_evidence = None\<rparr>"
  by (auto simp: delta_outcome_of_def neq_Nil_conv)

lemma delta_advance_refines:
  assumes "delta_inv family c s" "ds_window s \<noteq> []" "ob_arrival_millis (last (ds_window s)) = t"
  shows "delta_inv family c (fst (delta_advance s t rule x))
    \<and> no_panic (snd (delta_advance s t rule x))
    \<and> rule_step (delta_params rule) t (delta_position s)
        (delta_action (snd (delta_advance s t rule x)))
        (delta_position (fst (delta_advance s t rule x)))"
proof (cases "ds_rule_state s")
  case CoolingDown
  with assms obtain u where "ds_triggered_at s = Some u" "u \<le> t"
    by (auto simp: delta_inv_def split: option.splits)
  with CoolingDown assms show ?thesis
    by (auto simp: delta_advance_def delta_outcome_evidence delta_inv_def delta_position_def Let_def
        rule_step_simps delta_params_def checked_sub_def)
qed (use assms in \<open>auto simp: delta_advance_def delta_outcome_evidence delta_inv_def
       delta_position_def Let_def rule_step_simps delta_params_def split: option.splits\<close>)

lemma delta_process_refines:
  assumes inv: "delta_inv family c s" and ob: "delta_admits family ob" and c: "2 \<le> unat c"
  shows "delta_inv family c (fst (delta_process rule family c s ob))
    \<and> no_panic (snd (delta_process rule family c s ob))
    \<and> rule_step (delta_params rule) (ob_arrival_millis ob) (delta_position s)
        (delta_action (snd (delta_process rule family c s ob)))
        (delta_position (fst (delta_process rule family c s ob)))"
proof -
  have rs: "delta_position (delta_restarted family s ob) = (WarmingUp, None)"
    by (simp add: delta_position_def delta_restarted_def delta_reset_without_seed_def delta_seeded_def)
  note rinv = delta_inv_restarted [OF c ob, of s]
  note unf = delta_process_unfold [OF ob]
  show ?thesis
  proof (cases "delta_validate_order s (ob_arrival_millis ob)")
    case (Err e)
    then have "delta_action (Err e :: (delta_outcome, monitor_error) rres) = Stay"
      by (auto simp: delta_validate_order_def split: option.splits if_splits)
    then show ?thesis using inv Err by (simp add: unf rule_step_simps)
  next
    case (Panic p)
    then show ?thesis by (auto simp: delta_validate_order_def split: option.splits if_splits)
  next
    case order: (Ok u)
    have "\<exists>rr. delta_reset_reason s ob family = Ok rr"
      using cumulative_admitted(1) [OF ob] by (simp add: delta_reset_reason_def)
    then obtain rr where rr: "delta_reset_reason s ob family = Ok rr" by blast
    show ?thesis
    proof (cases rr)
      case (Some r)
      then show ?thesis using rinv rs order rr by (simp add: unf rule_step_simps)
    next
      case cont: None
      let ?w = "ds_window (delta_prune_for s (ob_arrival_millis ob) (dr_window_millis rule))"
      let ?s = "delta_ready rule family s ob"
      show ?thesis
      proof (cases "unat c \<le> length ?w")
        case True
        then show ?thesis using rinv rs order cont rr by (simp add: unf rule_step_simps)
      next
        case room: False
        then have ready: "delta_inv family c ?s"
          using inv order ob cont rr by (intro delta_inv_ready) auto
        obtain m where m: "delta_measure ?s (ob_arrival_millis ob) rule family = Ok m"
          using delta_measure_total [OF ready] by blast
        have pos: "delta_position ?s = delta_position s" by (simp add: delta_position_def)
        show ?thesis
        proof (cases m)
          case None
          then show ?thesis using rinv rs order cont room ready m rr
            by (simp add: unf) (simp add: rule_step_simps delta_position_def)
        next
          case (Some x)
          then show ?thesis
            using m order cont room pos rr
              delta_advance_refines [OF ready, of "ob_arrival_millis ob" rule x]
            by (simp add: unf)
        qed
      qed
    qed
  qed
qed

section \<open>The contracts interpreted\<close>

interpretation delta_rules: rule_machine "delta_process rule family c"
  "\<lambda>s. 2 \<le> unat c \<and> delta_inv family c s" "delta_admits family" delta_position delta_action
  "delta_params rule"
  for rule family c
proof unfold_locales
  fix s ob assume s: "2 \<le> unat c \<and> delta_inv family c s" and ob: "delta_admits family ob"
  note r = delta_process_refines [OF conjunct2 [OF s] ob conjunct1 [OF s], of rule]
  show "2 \<le> unat c \<and> delta_inv family c (fst (delta_process rule family c s ob))" using s r by simp
  show "no_panic (snd (delta_process rule family c s ob))" using r by simp
  show "rule_step (delta_params rule) (ob_arrival_millis ob) (delta_position s)
      (delta_action (snd (delta_process rule family c s ob)))
      (delta_position (fst (delta_process rule family c s ob)))" using r by simp
qed

definition delta_cfg :: "delta_monitor \<Rightarrow> delta_rule \<times> delta_family \<times> u16" where
  "delta_cfg m = (dm_rule m, dm_family m, window_capacity (dm_limits m))"

definition delta_inject :: "delta_monitor \<Rightarrow> instrument_id \<Rightarrow> injected_reset_signal \<Rightarrow> delta_monitor" where
  "delta_inject m i g = fst (delta_monitor_inject_reset m i g)"

lemma validate_observation_cases:
  "validate_observation family ob = Ok () \<or> (\<exists>e. validate_observation family ob = Err e)"
  by (cases "validate_observation family ob")
     (auto simp: validate_observation_def require_family_def Let_def res_simps
        split: delta_family.splits if_splits)

lemma delta_monitor_process_eq:
  "validate_observation (dm_family m) ob = Ok () \<Longrightarrow> delta_monitor_process m ob =
     (if Mapping.lookup (dm_instruments m) (ob_instrument ob) = None
           \<and> unat (max_instruments (dm_limits m)) \<le> Mapping.size (dm_instruments m)
      then (m, Err (InstrumentLimit (max_instruments (dm_limits m))))
      else let r = delta_process (dm_rule m) (dm_family m) (window_capacity (dm_limits m))
             (Mapping.lookup_default delta_state_new (dm_instruments m) (ob_instrument ob)) ob
           in (m\<lparr>dm_instruments := Mapping.update (ob_instrument ob) (fst r) (dm_instruments m)\<rparr>, snd r))"
  by (auto simp: delta_monitor_process_def Let_def split: prod.splits)

lemma delta_monitor_process_refused:
  "validate_observation (dm_family m) ob = Err e \<Longrightarrow> delta_monitor_process m ob = (m, Err e)"
  by (simp add: delta_monitor_process_def)

lemma delta_monitor_process_cfg:
  "dm_limits (fst (delta_monitor_process m ob)) = dm_limits m"
  "dm_rule (fst (delta_monitor_process m ob)) = dm_rule m"
  "dm_family (fst (delta_monitor_process m ob)) = dm_family m"
  using validate_observation_cases [of "dm_family m" ob]
  by (auto simp: delta_monitor_process_eq delta_monitor_process_refused Let_def)

interpretation delta_keyed: keyed_monitor dm_instruments delta_cfg
  "\<lambda>m. unat (max_instruments (dm_limits m))" delta_state_new
  "\<lambda>c ob. validate_observation (fst (snd c)) ob = Ok ()"
  "\<lambda>c. delta_process (fst c) (fst (snd c)) (snd (snd c))" delta_reset_without_seed
  delta_monitor_process delta_inject "\<lambda>c. delta_inv (fst (snd c)) (snd (snd c))"
  "\<lambda>c. 2 \<le> unat (snd (snd c))"
proof unfold_locales
  fix m i g
  show "delta_cfg (delta_inject m i g) = delta_cfg m"
    "unat (max_instruments (dm_limits (delta_inject m i g))) = unat (max_instruments (dm_limits m))"
    "dm_instruments (delta_inject m i g) =
      (case Mapping.lookup (dm_instruments m) i of None \<Rightarrow> dm_instruments m
       | Some s \<Rightarrow> Mapping.update i (delta_reset_without_seed s) (dm_instruments m))"
    by (auto simp: delta_inject_def delta_monitor_inject_reset_def delta_cfg_def Let_def
        split: option.splits)
next
  fix m ob
  show "delta_cfg (fst (delta_monitor_process m ob)) = delta_cfg m"
    "unat (max_instruments (dm_limits (fst (delta_monitor_process m ob))))
      = unat (max_instruments (dm_limits m))"
    by (simp_all add: delta_cfg_def delta_monitor_process_cfg)
next
  fix m ob assume "\<not> validate_observation (fst (snd (delta_cfg m))) ob = Ok ()"
  then show "fst (delta_monitor_process m ob) = m \<and> (\<exists>e. snd (delta_monitor_process m ob) = Err e)"
    using validate_observation_cases [of "dm_family m" ob]
    by (auto simp: delta_cfg_def delta_monitor_process_refused)
next
  fix c :: "delta_rule \<times> delta_family \<times> u16" and s ob
  assume "2 \<le> unat (snd (snd c))" "delta_inv (fst (snd c)) (snd (snd c)) s"
    "validate_observation (fst (snd c)) ob = Ok ()" "observation_ok ob"
  then show "delta_inv (fst (snd c)) (snd (snd c)) (fst (delta_process (fst c) (fst (snd c)) (snd (snd c)) s ob))
      \<and> no_panic (snd (delta_process (fst c) (fst (snd c)) (snd (snd c)) s ob))"
    using delta_process_refines by (auto simp: delta_admits_def)
qed (auto simp: delta_monitor_process_eq delta_cfg_def Let_def delta_inv_new delta_inv_reset)

section \<open>What a trigger and an error mean\<close>

lemma delta_measured:
  assumes inv: "delta_inv family c s" and ob: "delta_admits family ob" and w: "0 < dr_window_millis rule"
    and order: "delta_validate_order s (ob_arrival_millis ob) = Ok u"
    and x: "delta_measure (delta_ready rule family s ob) (ob_arrival_millis ob) rule family = Ok (Some x)"
  shows "\<exists>b. dr_window_millis rule \<le> ob_arrival_millis ob
     \<and> is_boundary (ob_arrival_millis ob - dr_window_millis rule)
          (dr_boundary_tolerance_millis rule) (ds_window s) b
     \<and> hd (ds_window (delta_ready rule family s ob)) = b
     \<and> is_finite x \<and> f64_le f64_zero x
     \<and> x = f64_sub (cumulative_value family ob) (cumulative_value family b)"
proof -
  let ?t = "ob_arrival_millis ob"
  define cutoff where "cutoff = ?t - dr_window_millis rule"
  have le: "dr_window_millis rule \<le> ?t"
    using x by (auto simp: delta_measure_def checked_sub_def split: if_splits)
  then have sub: "checked_sub ?t (dr_window_millis rule) = Some cutoff"
    by (simp add: checked_sub_def cutoff_def)
  have win: "ds_window (delta_ready rule family s ob) = drop_expired cutoff (ds_window s) @ [ob]"
    by (simp add: delta_ready_def delta_seeded_def delta_prune_window sub)
  have lt: "cutoff < ?t"
    using le w by (simp add: cutoff_def word_less_nat_alt word_le_nat_alt unat_sub_word)
  obtain b v where bv: "ds_window (delta_ready rule family s ob) = b # v"
    by (cases "ds_window (delta_ready rule family s ob)") auto
  have last: "last (b # v) = ob" using delta_ready_simps(3) [of rule family s ob] by (simp only: bv)
  have bounds: "ob_arrival_millis b \<le> cutoff" "cutoff - ob_arrival_millis b \<le> dr_boundary_tolerance_millis rule"
    using x by (auto simp: delta_measure_def sub bv last Let_def res_simps not_less
        simp del: last.simps split: if_splits)
  have "drop_expired cutoff (ds_window s) \<noteq> []"
    using win bv bounds(1) lt by (cases "drop_expired cutoff (ds_window s)") auto
  then obtain v' where bd: "drop_expired cutoff (ds_window s) = b # v'"
    using win bv by (cases "drop_expired cutoff (ds_window s)") auto
  then have "b \<in> set (ds_window s)" using drop_expired_set [of cutoff "ds_window s"] by auto
  then have adm: "delta_admits family b" using inv by (simp add: delta_inv_def)
  have xv: "is_finite x" "\<not> f64_lt x f64_zero" "x = f64_sub (cumulative_value family ob) (cumulative_value family b)"
    using x bounds
    by (auto simp: delta_measure_def sub bv last Let_def res_simps not_less cumulative_admitted(1) [OF ob]
        cumulative_admitted(1) [OF adm] simp del: last.simps split: if_splits)
  have "\<not> is_nan f64_zero" by (simp add: is_nan_def inf_mag_def)
  then have "f64_le f64_zero x" using xv by (simp add: f64_not_lt is_nan_not_finite)
  with drop_expired_hd [OF _ bd bounds(1)] inv xv bv le bounds
  show ?thesis by (auto simp: is_boundary_def delta_inv_def cutoff_def)
qed

lemma delta_advanced:
  assumes ob: "delta_admits family ob"
    and p: "delta_process rule family c s ob = (s', Ok out)"
      "do_transition out = Some (Triggered x) \<or> do_transition out = Some (Rearmed x)"
  shows "\<exists>y. delta_validate_order s (ob_arrival_millis ob) = Ok ()
     \<and> delta_reset_reason s ob family = Ok None
     \<and> \<not> unat c \<le> length (ds_window (delta_prune_for s (ob_arrival_millis ob) (dr_window_millis rule)))
     \<and> delta_measure (delta_ready rule family s ob) (ob_arrival_millis ob) rule family = Ok (Some y)
     \<and> delta_advance (delta_ready rule family s ob) (ob_arrival_millis ob) rule y = (s', Ok out)"
proof (cases "delta_validate_order s (ob_arrival_millis ob)")
  case order: (Ok u)
  show ?thesis
  proof (cases "delta_reset_reason s ob family")
    case rr: (Ok r)
    show ?thesis
    proof (cases r)
      case None
      show ?thesis
      proof (cases "unat c \<le> length (ds_window (delta_prune_for s (ob_arrival_millis ob) (dr_window_millis rule)))")
        case True
        then show ?thesis using p order rr None by (simp add: delta_process_unfold [OF ob])
      next
        case False
        show ?thesis
        proof (cases "delta_measure (delta_ready rule family s ob) (ob_arrival_millis ob) rule family")
          case (Ok m)
          then show ?thesis using p order rr None False
            by (cases m) (auto simp: delta_process_unfold [OF ob] split: if_splits)
        qed (use p order rr None False in \<open>simp_all add: delta_process_unfold [OF ob]\<close>)
      qed
    next
      case (Some r)
      then show ?thesis using p order rr by (auto simp: delta_process_unfold [OF ob])
    qed
  qed (use p order in \<open>simp_all add: delta_process_unfold [OF ob]\<close>)
qed (use p in \<open>simp_all add: delta_process_unfold [OF ob]\<close>)

section \<open>The typed monitors\<close>

lemma delta_advance_transition:
  assumes "delta_advance s t rule x = (s', Ok out)" "do_transition out = Some tr"
  shows "tr = WarmedUp \<or> tr = EnteredCoolingDown \<or> tr = Triggered x \<or> tr = Rearmed x"
  using assms
  by (auto simp: delta_advance_def delta_outcome_of_def Let_def
      split: rule_state.splits if_splits option.splits list.splits)

text \<open>Every delta a transition reports is finite and non-negative, so the typed
  wrappers can rebuild it.\<close>

lemma delta_transition_value:
  assumes inv: "delta_inv family c s" and ob: "delta_admits family ob"
    and p: "delta_process rule family c s ob = (s', Ok out)"
      "do_transition out = Some (Triggered x) \<or> do_transition out = Some (Rearmed x)"
  shows "is_finite x \<and> f64_le f64_zero x"
proof -
  obtain y where order: "delta_validate_order s (ob_arrival_millis ob) = Ok ()"
    and r: "delta_reset_reason s ob family = Ok None"
    and room: "\<not> unat c \<le> length (ds_window (delta_prune_for s (ob_arrival_millis ob) (dr_window_millis rule)))"
    and y: "delta_measure (delta_ready rule family s ob) (ob_arrival_millis ob) rule family = Ok (Some y)"
    and adv: "delta_advance (delta_ready rule family s ob) (ob_arrival_millis ob) rule y = (s', Ok out)"
    using delta_advanced [OF ob p] by blast
  have "delta_inv family c (delta_ready rule family s ob)"
    using inv order ob r room by (intro delta_inv_ready) auto
  from delta_measure_total [OF this, of "ob_arrival_millis ob" rule] y
  have "is_finite y \<and> f64_le f64_zero y" by auto
  moreover have "x = y" using delta_advance_transition [OF adv] p(2) by auto
  ultimately show ?thesis by simp
qed

lemma amount_transition_total:
  assumes "\<And>x. tr = Triggered x \<or> tr = Rearmed x \<Longrightarrow> is_finite x"
  shows "\<exists>a. amount_transition_of tr = Ok a"
  using assms by (cases tr) (auto simp: money_new_eq_Ok money_ok_def money_new_def finite_new_def)

lemma volume_transition_total:
  assumes "\<And>x. tr = Triggered x \<or> tr = Rearmed x \<Longrightarrow> is_finite x \<and> f64_le f64_zero x"
  shows "\<exists>a. volume_transition_of u tr = Ok a"
  using assms by (cases tr) (auto simp: quantity_new_def finite_new_def)

lemma delta_monitor_transition_value:
  assumes inv: "delta_keyed.monitor_inv m" and ob: "observation_ok ob"
    and p: "snd (delta_monitor_process m ob) = Ok out"
    and tr: "do_transition out = Some (Triggered x) \<or> do_transition out = Some (Rearmed x)"
  shows "is_finite x \<and> f64_le f64_zero x"
proof (cases "validate_observation (dm_family m) ob")
  case (Ok u)
  let ?s = "Mapping.lookup_default delta_state_new (dm_instruments m) (ob_instrument ob)"
  let ?c = "window_capacity (dm_limits m)"
  have adm: "delta_admits (dm_family m) ob" using ob Ok by (simp add: delta_admits_def)
  have "delta_inv (dm_family m) ?c ?s"
    using delta_keyed.lookup_default_inv [OF inv, of "ob_instrument ob"] by (simp add: delta_cfg_def)
  moreover have "snd (delta_process (dm_rule m) (dm_family m) ?c ?s ob) = Ok out"
    using p Ok by (simp add: delta_monitor_process_eq Let_def split: if_splits)
  then have "delta_process (dm_rule m) (dm_family m) ?c ?s ob
      = (fst (delta_process (dm_rule m) (dm_family m) ?c ?s ob), Ok out)"
    by (metis prod.collapse)
  ultimately show ?thesis using delta_transition_value adm tr by blast
qed (use p in \<open>simp_all add: delta_monitor_process_def\<close>)

lemma map_transition_total:
  "(\<And>x. t = Some x \<Longrightarrow> \<exists>a. f x = Ok a) \<Longrightarrow> \<exists>a. map_transition f t = Ok a"
  by (cases t) (auto simp: map_transition_def)

lemma no_panic_expect_typed:
  assumes "\<exists>a. f = Ok a" shows "no_panic (rbind f (\<lambda>t. Ok (g t)))"
  using assms by auto

lemma amount_process_total:
  assumes inv: "delta_keyed.monitor_inv (amount_inner m)" and ob: "observation_ok ob"
  shows "no_panic (snd (amount_monitor_process m ob))"
proof (cases "snd (delta_monitor_process (amount_inner m) ob)")
  case (Ok out)
  have "\<exists>a. map_transition amount_transition_of (do_transition out) = Ok a"
    using delta_monitor_transition_value [OF inv ob Ok]
    by (intro map_transition_total amount_transition_total) auto
  then show ?thesis using Ok by (auto simp: amount_monitor_process_def split: prod.splits)
next
  case (Panic p)
  then show ?thesis using delta_keyed.process_no_panic [OF inv ob] by simp
qed (auto simp: amount_monitor_process_def split: prod.splits)

lemma volume_process_total:
  assumes inv: "delta_keyed.monitor_inv (volume_inner m)" and ob: "observation_ok ob"
  shows "no_panic (snd (volume_monitor_process m ob))"
proof (cases "snd (delta_monitor_process (volume_inner m) ob)")
  case (Ok out)
  have "\<exists>a. map_transition (volume_transition_of u) (do_transition out) = Ok a" for u
    using delta_monitor_transition_value [OF inv ob Ok]
    by (intro map_transition_total volume_transition_total) auto
  then show ?thesis using Ok
    by (auto simp: volume_monitor_process_def no_panic_iff res_simps split: prod.splits delta_family.splits)
       (metis rres.distinct(3))+
next
  case (Panic p)
  then show ?thesis using delta_keyed.process_no_panic [OF inv ob] by simp
qed (auto simp add: volume_monitor_process_def split: prod.splits delta_family.splits)

lemma inject_reset_total:
  "no_panic (snd (amount_monitor_inject_reset m i g))"
  "no_panic (snd (volume_monitor_inject_reset v i g))"
  by (auto simp: amount_monitor_inject_reset_def volume_monitor_inject_reset_def map_transition_def
      delta_monitor_inject_reset_def Let_def split: option.splits)

section \<open>Events\<close>

lemma delta_rule_fields_inject:
  "delta_rule_fields r f u = delta_rule_fields r' f' u' \<longleftrightarrow>
     r\<lparr>dr_version := v\<rparr> = r'\<lparr>dr_version := v\<rparr> \<and> f = f' \<and> u = u'"
  by (cases r; cases r') (auto simp: delta_rule_fields_def f64.expand)

lemma core_rule_identity_inject:
  assumes a: "core_rule_identity sha i r f u = Ok a" and b: "core_rule_identity sha i r' f' u' = Ok b"
    and nc: "no_collision sha
      (preimage ''magic-market/anomaly-rule-definition/v1'' (delta_rule_fields r f u))
      (preimage ''magic-market/anomaly-rule-definition/v1'' (delta_rule_fields r' f' u'))"
  shows "a = b \<longleftrightarrow> r = r' \<and> f = f' \<and> u = u'"
proof -
  have "a = b \<longleftrightarrow> dr_version r = dr_version r' \<and> delta_rule_fields r f u = delta_rule_fields r' f' u'"
    using rule_identity_inject [OF a [unfolded core_rule_identity_def] b [unfolded core_rule_identity_def] nc]
    by simp
  also have "\<dots> \<longleftrightarrow> r = r' \<and> f = f' \<and> u = u'"
    unfolding delta_rule_fields_inject [where v = 0] by (cases r; cases r') auto
  finally show ?thesis .
qed

lemma delta_core_event_facts:
  assumes a: "observation_ok a" and b: "observation_ok b"
    and e: "delta_core_event sha i rule tr stream (Some (window_evidence_new a b)) k family d obs = Ok e"
  shows "\<exists>x y. cumulative_evidence family (window_evidence_new a b) True = Ok x
     \<and> cumulative_evidence family (window_evidence_new a b) False = Ok y
     \<and> rule_input_digest_of sha (delta_input_fields family (window_evidence_new a b) d x y)
         = Ok (ie_rule_inputs_digest (ae_input_evidence e))
     \<and> ae_transition e = tr \<and> ae_rule e = rule
     \<and> ae_instrument e = i \<and> ob_instrument a = i \<and> ae_stream e = stream
     \<and> lt_first (ie_terminal (ae_input_evidence e)) = ob_evidence a
     \<and> lt_last (ie_terminal (ae_input_evidence e)) = ob_evidence b
     \<and> ob_stream_cursor a = Some (ie_first_cursor (ae_input_evidence e))
     \<and> ob_stream_cursor b = Some (ie_last_cursor (ae_input_evidence e))"
  using e
  by (auto simp: delta_core_event_def res_simps
          core_anomaly_input_evidence_eq_Ok anomaly_event_new_eq_Ok anomaly_input_evidence_eq_Ok)
     (auto simp: validate_event_identity_def res_simps split: if_splits)

end
