(* ===== verification/Retained_Log.thy ===== *)
theory Retained_Log
  imports MM_Prelude
begin

text \<open>
  The contract of a bounded event log. Two parts of the program keep one: the monitor's
  \<open>ReplayLog\<close> and the server's \<open>EventHub\<close>. Both accept events with consecutive sequence
  numbers, drop the oldest ones when a count or a byte limit is exceeded, and replay what
  follows an acknowledged sequence. \<open>retain\<close> is what such a log keeps of a history; the
  locale \<open>retained_log\<close> states what one insertion promises, and its lemmas what a log
  holds after any run of insertions and why a replay from it has no gaps.
\<close>

section \<open>The longest suffix within both limits\<close>

fun retain :: "('e \<Rightarrow> nat) \<Rightarrow> nat \<Rightarrow> nat \<Rightarrow> 'e list \<Rightarrow> 'e list" where
  "retain w n b [] = []"
| "retain w n b (x # xs) =
     (if length (x # xs) \<le> n \<and> sum_list (map w (x # xs)) \<le> b then x # xs else retain w n b xs)"

definition fits :: "('e \<Rightarrow> nat) \<Rightarrow> nat \<Rightarrow> nat \<Rightarrow> 'e list \<Rightarrow> bool" where
  "fits w n b xs \<longleftrightarrow> length xs \<le> n \<and> sum_list (map w xs) \<le> b"

lemma fits_Nil [simp]: "fits w n b []"
  by (simp add: fits_def)

lemma fits_retain [simp]: "fits w n b (retain w n b xs)"
  by (induction xs) (auto simp: fits_def)

lemma retain_fits: "fits w n b xs \<Longrightarrow> retain w n b xs = xs"
  by (cases xs) (auto simp: fits_def)

lemma retain_suffix: "\<exists>ys. xs = ys @ retain w n b xs"
proof (induction xs)
  case (Cons x xs)
  then show ?case by (auto intro: exI [where x = "[]"] exI [where x = "x # ys" for ys])
qed simp

lemma retain_longest: "xs = ys @ zs \<Longrightarrow> fits w n b zs \<Longrightarrow> length zs \<le> length (retain w n b xs)"
proof (induction xs arbitrary: ys)
  case (Cons x xs)
  show ?case
  proof (cases "fits w n b (x # xs)")
    case True
    then show ?thesis using Cons.prems(1) retain_fits by fastforce
  next
    case False
    then have "ys \<noteq> []" using Cons.prems by auto
    then show ?thesis using Cons False by (cases ys) (auto simp: fits_def)
  qed
qed simp

lemma retain_append: "retain w n b (retain w n b xs @ ys) = retain w n b (xs @ ys)"
proof (induction xs)
  case (Cons x xs)
  show ?case
  proof (cases "fits w n b (x # xs)")
    case True
    then show ?thesis by (simp only: retain_fits)
  next
    case False
    then have "retain w n b (x # xs) = retain w n b xs"
      and "retain w n b ((x # xs) @ ys) = retain w n b (xs @ ys)"
      by (auto simp: fits_def)
    then show ?thesis using Cons by simp
  qed
qed simp

lemma retain_snoc_last: "w x \<le> b \<Longrightarrow> 0 < n \<Longrightarrow> \<exists>ys. retain w n b (xs @ [x]) = ys @ [x]"
  by (induction xs) auto

section \<open>Consecutive sequence numbers\<close>

fun consecutive :: "('e \<Rightarrow> nat) \<Rightarrow> 'e list \<Rightarrow> bool" where
  "consecutive s [] = True"
| "consecutive s [x] = True"
| "consecutive s (x # y # zs) \<longleftrightarrow> s y = Suc (s x) \<and> consecutive s (y # zs)"

lemma consecutive_append:
  "consecutive s (xs @ ys) \<longleftrightarrow> consecutive s xs \<and> consecutive s ys
     \<and> (xs \<noteq> [] \<longrightarrow> ys \<noteq> [] \<longrightarrow> s (hd ys) = Suc (s (last xs)))"
proof (induction s xs rule: consecutive.induct)
  case (2 s x)
  then show ?case by (cases ys) auto
qed auto

lemma consecutive_less: "consecutive s (x # xs) \<Longrightarrow> y \<in> set xs \<Longrightarrow> s x < s y"
proof (induction xs arbitrary: x)
  case (Cons z zs)
  have z: "s x < s z" "consecutive s (z # zs)" using Cons.prems(1) by simp_all
  show ?case
  proof (cases "y = z")
    case False
    then have "s z < s y" using Cons.IH [OF z(2)] Cons.prems(2) by simp
    then show ?thesis using z(1) by simp
  qed (use z in simp)
qed simp

lemma consecutive_append_less:
  assumes "consecutive s (xs @ ys)" "x \<in> set xs" "y \<in> set ys" shows "s x < s y"
proof -
  obtain us vs where "xs = us @ x # vs" using assms(2) by (auto simp: in_set_conv_decomp)
  then show ?thesis using assms(1,3) consecutive_less [of s x "vs @ ys" y]
    by (simp add: consecutive_append)
qed

lemma consecutive_sorted: "consecutive s xs \<Longrightarrow> sorted_wrt (\<lambda>x y. s x < s y) xs"
proof (induction xs)
  case (Cons x xs)
  have "consecutive s xs" using Cons.prems by (cases xs) auto
  then show ?case using Cons consecutive_less [of s x xs] by auto
qed simp

text \<open>What follows sequence \<open>n\<close> in a history is all retained when the oldest retained
  sequence is at most one past \<open>n\<close>.\<close>

lemma retained_suffix_complete:
  assumes cons: "consecutive s (ys @ zs)" and first: "zs \<noteq> [] \<Longrightarrow> s (hd zs) \<le> Suc n"
    and some: "zs = [] \<Longrightarrow> ys = []"
  shows "filter (\<lambda>e. n < s e) (ys @ zs) = filter (\<lambda>e. n < s e) zs"
proof (cases zs)
  case Nil
  then show ?thesis using some by simp
next
  case (Cons z zs')
  have "\<not> n < s y" if "y \<in> set ys" for y
    using consecutive_append_less [OF cons that, of z] first Cons by simp
  then show ?thesis by (simp add: filter_empty_conv)
qed

section \<open>The contract\<close>

locale retained_log =
  fixes inv :: "'s \<Rightarrow> bool"
    and entries :: "'s \<Rightarrow> 'e list"
    and seq :: "'e \<Rightarrow> nat"
    and weight :: "'e \<Rightarrow> nat"
    and max_count :: "'s \<Rightarrow> nat"
    and max_weight :: "'s \<Rightarrow> nat"
    and push :: "'s \<Rightarrow> 'e \<Rightarrow> 's \<times> ('r, 'err) rres"
  assumes push_inv: "inv s \<Longrightarrow> inv (fst (push s e))"
    and push_limits: "max_count (fst (push s e)) = max_count s" "max_weight (fst (push s e)) = max_weight s"
    and push_accept: "inv s \<Longrightarrow> is_ok (snd (push s e)) \<Longrightarrow>
      entries (fst (push s e)) = retain weight (max_count s) (max_weight s) (entries s @ [e])
      \<and> weight e \<le> max_weight s \<and> 0 < max_count s"
    and push_reject: "inv s \<Longrightarrow> \<not> is_ok (snd (push s e)) \<Longrightarrow> entries (fst (push s e)) = entries s"
    and push_next: "inv s \<Longrightarrow> is_ok (snd (push s e)) \<Longrightarrow> entries s \<noteq> [] \<Longrightarrow>
      seq e = Suc (seq (last (entries s)))"
    and inv_fits: "inv s \<Longrightarrow> fits weight (max_count s) (max_weight s) (entries s)"
    and inv_consecutive: "inv s \<Longrightarrow> consecutive seq (entries s)"
begin

fun run :: "'s \<Rightarrow> 'e list \<Rightarrow> 's" where
  "run s [] = s"
| "run s (e # es) = run (fst (push s e)) es"

fun accepted :: "'s \<Rightarrow> 'e list \<Rightarrow> 'e list" where
  "accepted s [] = []"
| "accepted s (e # es) =
     (if is_ok (snd (push s e)) then [e] else []) @ accepted (fst (push s e)) es"

definition history :: "'s \<Rightarrow> 'e list \<Rightarrow> 'e list" where
  "history s es = entries s @ accepted s es"

lemma run_inv: "inv s \<Longrightarrow> inv (run s es)"
  by (induction es arbitrary: s) (auto intro: push_inv)

lemma run_limits: "max_count (run s es) = max_count s" "max_weight (run s es) = max_weight s"
  by (induction es arbitrary: s) (auto simp: push_limits)

text \<open>After any run the log holds the longest suffix of the history its limits allow.\<close>

lemma run_entries:
  "inv s \<Longrightarrow> entries (run s es) = retain weight (max_count s) (max_weight s) (history s es)"
proof (induction es arbitrary: s)
  case Nil
  then show ?case by (simp add: history_def retain_fits inv_fits)
next
  case (Cons e es)
  let ?s = "fst (push s e)"
  have ih: "entries (run s (e # es)) = retain weight (max_count s) (max_weight s) (entries ?s @ accepted ?s es)"
    using Cons.IH [OF push_inv [OF Cons.prems]] by (simp add: push_limits history_def)
  show ?case
  proof (cases "is_ok (snd (push s e))")
    case True
    then have "entries ?s = retain weight (max_count s) (max_weight s) (entries s @ [e])"
      using push_accept Cons.prems by blast
    then show ?thesis using ih True by (simp add: retain_append history_def)
  next
    case False
    then show ?thesis using ih push_reject [OF Cons.prems] by (simp add: history_def)
  qed
qed

text \<open>The last accepted event is always retained.\<close>

lemma push_keeps_last: "inv s \<Longrightarrow> is_ok (snd (push s e)) \<Longrightarrow> \<exists>ys. entries (fst (push s e)) = ys @ [e]"
  using push_accept retain_snoc_last by metis

lemma accepted_consecutive:
  "inv s \<Longrightarrow> consecutive seq (accepted s es)
     \<and> (entries s \<noteq> [] \<longrightarrow> accepted s es \<noteq> [] \<longrightarrow>
          seq (hd (accepted s es)) = Suc (seq (last (entries s))))"
proof (induction es arbitrary: s)
  case (Cons e es)
  let ?s = "fst (push s e)"
  note ih = Cons.IH [OF push_inv [OF Cons.prems, of e]]
  show ?case
  proof (cases "is_ok (snd (push s e))")
    case True
    then obtain ys where "entries ?s = ys @ [e]" using push_keeps_last Cons.prems by blast
    then show ?thesis using True ih push_next [OF Cons.prems True]
      by (cases "accepted ?s es") auto
  next
    case False
    then show ?thesis using ih push_reject [OF Cons.prems] by simp
  qed
qed simp

lemma history_consecutive: "inv s \<Longrightarrow> consecutive seq (history s es)"
  using accepted_consecutive [of s es] inv_consecutive [of s] by (auto simp: history_def consecutive_append)

lemma history_retained: "inv s \<Longrightarrow> history s es \<noteq> [] \<Longrightarrow> entries (run s es) \<noteq> []"
proof (induction es arbitrary: s)
  case (Cons e es)
  show ?case
  proof (cases "is_ok (snd (push s e))")
    case True
    then obtain ys where "entries (fst (push s e)) = ys @ [e]" using push_keeps_last Cons.prems by blast
    then show ?thesis using Cons push_inv by (simp add: history_def)
  next
    case False
    then show ?thesis using Cons push_inv push_reject [of s e] by (simp add: history_def)
  qed
qed (simp add: history_def)

text \<open>A replay after an acknowledged sequence misses nothing of the history.\<close>

lemma replay_complete:
  assumes inv: "inv s"
    and first: "entries (run s es) \<noteq> [] \<Longrightarrow> seq (hd (entries (run s es))) \<le> Suc n"
  shows "filter (\<lambda>e. n < seq e) (entries (run s es)) = filter (\<lambda>e. n < seq e) (history s es)"
proof -
  obtain ys where "history s es = ys @ entries (run s es)"
    using retain_suffix run_entries [OF inv] by metis
  note h = this
  have "filter (\<lambda>e. n < seq e) (ys @ entries (run s es)) = filter (\<lambda>e. n < seq e) (entries (run s es))"
  proof (rule retained_suffix_complete)
    show "consecutive seq (ys @ entries (run s es))" using history_consecutive [OF inv, of es] h by simp
    show "ys = []" if "entries (run s es) = []"
      using history_retained [OF inv, of es] h that by auto
  qed (rule first)
  then show ?thesis by (simp only: h)
qed

end

end
