(* ===== verification/Replay_Log.thy ===== *)
theory Replay_Log
  imports Retained_Log Market_Event
begin

text \<open>
  \<open>replay.rs\<close> of \<open>magic-market-monitor\<close>: the count-and-byte bounded log of one stream
  generation. The deque is a list, oldest entry first; \<open>retained_bytes\<close> is a \<open>u64\<close> kept by
  checked arithmetic.
\<close>

section \<open>Limits, entries and errors\<close>

record replay_limits =
  max_events :: u32
  max_bytes :: u64

record 'a replay_entry =
  re_cursor :: stream_cursor
  re_payload :: 'a
  re_encoded_len :: u64

datatype replay_unavailable =
    WrongGenerationRequested
  | CursorTooOld stream_cursor stream_cursor
  | CursorAhead stream_cursor stream_cursor

datatype replay_error =
    InvalidReplayConfiguration string
  | InvalidEncodedLength
  | EventTooLarge u64 u64
  | WrongGeneration
  | DuplicateSequence u64
  | OutOfOrderSequence u64 u64
  | SequenceOverflow
  | ByteCountOverflow
  | ReplayUnavailable replay_unavailable

definition replay_limits_new :: "u32 \<Rightarrow> u64 \<Rightarrow> (replay_limits, replay_error) rres" where
  "replay_limits_new events bytes =
     (if events = 0
      then Err (InvalidReplayConfiguration ''maximum replay event count must be positive'')
      else if bytes = 0
      then Err (InvalidReplayConfiguration ''maximum replay bytes must be positive'')
      else Ok \<lparr>max_events = events, max_bytes = bytes\<rparr>)"

definition replay_entry_new ::
  "stream_cursor \<Rightarrow> 'a \<Rightarrow> u64 \<Rightarrow> ('a replay_entry, replay_error) rres" where
  "replay_entry_new cursor payload encoded_len =
     (if encoded_len = 0 then Err InvalidEncodedLength
      else Ok \<lparr>re_cursor = cursor, re_payload = payload, re_encoded_len = encoded_len\<rparr>)"

section \<open>The log\<close>

record 'a replay_log =
  rl_generation :: stream_generation
  rl_limits :: replay_limits
  rl_entries :: "'a replay_entry list"
  rl_retained_bytes :: u64
  rl_last_inserted_sequence :: "stream_sequence option"

definition replay_log_new :: "stream_generation \<Rightarrow> replay_limits \<Rightarrow> 'a replay_log" where
  "replay_log_new generation limits =
     \<lparr>rl_generation = generation, rl_limits = limits, rl_entries = [], rl_retained_bytes = 0,
      rl_last_inserted_sequence = None\<rparr>"

definition oldest_cursor :: "'a replay_log \<Rightarrow> stream_cursor option" where
  "oldest_cursor l = (case rl_entries l of [] \<Rightarrow> None | e # _ \<Rightarrow> Some (re_cursor e))"

definition newest_cursor :: "'a replay_log \<Rightarrow> stream_cursor option" where
  "newest_cursor l = (case rl_entries l of [] \<Rightarrow> None | e # es \<Rightarrow> Some (re_cursor (last (e # es))))"

abbreviation entry_seq :: "'a replay_entry \<Rightarrow> u64" where
  "entry_seq e \<equiv> sequence_get (sc_sequence (re_cursor e))"

text \<open>The loop that drops entries from the front until both limits hold.\<close>

fun evict ::
  "replay_limits \<Rightarrow> 'a replay_entry list \<Rightarrow> u64 \<Rightarrow> ('a replay_entry list \<times> u64) \<times> (unit, replay_error) rres" where
  "evict limits [] bytes =
     (if max_bytes limits < bytes then (([], bytes), Err ByteCountOverflow) else (([], bytes), Ok ()))"
| "evict limits (e # es) bytes =
     (if unat (max_events limits) < length (e # es) \<or> max_bytes limits < bytes
      then (case checked_sub bytes (re_encoded_len e) of
              None \<Rightarrow> ((es, bytes), Err ByteCountOverflow)
            | Some rest \<Rightarrow> evict limits es rest)
      else ((e # es, bytes), Ok ()))"

definition check_sequence ::
  "stream_sequence option \<Rightarrow> stream_sequence \<Rightarrow> (unit, replay_error) rres" where
  "check_sequence previous_insert actual =
     (case previous_insert of
        None \<Rightarrow> Ok ()
      | Some previous \<Rightarrow>
          if actual = previous then Err (DuplicateSequence (sequence_get actual))
          else if sequence_get actual < sequence_get previous
          then Err (OutOfOrderSequence (sequence_get previous) (sequence_get actual))
          else rbind (map_err (\<lambda>_. SequenceOverflow) (checked_next previous)) (\<lambda>expected.
               if expected \<noteq> actual
               then Err (OutOfOrderSequence (sequence_get previous) (sequence_get actual))
               else Ok ()))"

definition insert_entry ::
  "'a replay_log \<Rightarrow> 'a replay_entry \<Rightarrow> 'a replay_log \<times> (unit, replay_error) rres" where
  "insert_entry l e =
     (if sc_generation (re_cursor e) \<noteq> rl_generation l then (l, Err WrongGeneration)
      else if max_bytes (rl_limits l) < re_encoded_len e
      then (l, Err (EventTooLarge (re_encoded_len e) (max_bytes (rl_limits l))))
      else if entry_seq e = - 1 then (l, Err SequenceOverflow)
      else sbind (l, check_sequence (rl_last_inserted_sequence l) (sc_sequence (re_cursor e))) (\<lambda>l _.
           sbind (l, ok_or ByteCountOverflow
             (checked_add (rl_retained_bytes l) (re_encoded_len e))) (\<lambda>l new_bytes.
           case evict (rl_limits l) (rl_entries l @ [e]) new_bytes of
             ((es, bytes), result) \<Rightarrow>
               (l\<lparr>rl_entries := es, rl_retained_bytes := bytes,
                  rl_last_inserted_sequence := Some (sc_sequence (re_cursor e))\<rparr>, result))))"

fun position_of :: "('a \<Rightarrow> bool) \<Rightarrow> 'a list \<Rightarrow> nat option" where
  "position_of p [] = None"
| "position_of p (x # xs) = (if p x then Some 0 else map_option Suc (position_of p xs))"

definition replay_start :: "'a replay_log \<Rightarrow> stream_cursor \<Rightarrow> (nat, replay_error) rres" where
  "replay_start l cursor =
     (if sc_generation cursor \<noteq> rl_generation l
      then Err (ReplayUnavailable WrongGenerationRequested)
      else case rl_entries l of
        [] \<Rightarrow> Ok 0
      | oldest # es \<Rightarrow>
          let newest = last (oldest # es);
              requested = sequence_get (sc_sequence cursor);
              first_acknowledgeable = saturating_sub (entry_seq oldest) 1
          in if requested < first_acknowledgeable
             then Err (ReplayUnavailable (CursorTooOld cursor (re_cursor oldest)))
             else if entry_seq newest < requested
             then Err (ReplayUnavailable (CursorAhead cursor (re_cursor newest)))
             else Ok (case position_of (\<lambda>e. requested < entry_seq e) (rl_entries l) of
                        None \<Rightarrow> length (rl_entries l)
                      | Some k \<Rightarrow> k))"

definition replay_after ::
  "'a replay_log \<Rightarrow> stream_cursor option \<Rightarrow> ('a replay_entry list, replay_error) rres" where
  "replay_after l cursor =
     rbind (case cursor of None \<Rightarrow> Ok 0 | Some c \<Rightarrow> replay_start l c) (\<lambda>start.
     Ok (drop start (rl_entries l)))"

section \<open>The invariant\<close>

abbreviation seq_of :: "'a replay_entry \<Rightarrow> nat" where "seq_of e \<equiv> unat (entry_seq e)"
abbreviation byte_len :: "'a replay_entry \<Rightarrow> nat" where "byte_len e \<equiv> unat (re_encoded_len e)"

definition limits_ok :: "replay_limits \<Rightarrow> bool" where
  "limits_ok limits \<longleftrightarrow> 0 < unat (max_events limits) \<and> 0 < unat (max_bytes limits)"

text \<open>Bytes are accounted for exactly, both limits hold, sequences are consecutive, and
  the last inserted sequence is that of the newest entry.\<close>

definition log_inv :: "'a replay_log \<Rightarrow> bool" where
  "log_inv l \<longleftrightarrow> limits_ok (rl_limits l)
     \<and> unat (rl_retained_bytes l) = sum_list (map byte_len (rl_entries l))
     \<and> fits byte_len (unat (max_events (rl_limits l))) (unat (max_bytes (rl_limits l))) (rl_entries l)
     \<and> consecutive seq_of (rl_entries l)
     \<and> list_all (\<lambda>e. sc_generation (re_cursor e) = rl_generation l) (rl_entries l)
     \<and> rl_last_inserted_sequence l
         = (if rl_entries l = [] then None else Some (sc_sequence (re_cursor (last (rl_entries l)))))"

lemma replay_limits_new_eq_Ok:
  "replay_limits_new n b = Ok limits \<longleftrightarrow> limits = \<lparr>max_events = n, max_bytes = b\<rparr> \<and> limits_ok limits"
  by (auto simp: replay_limits_new_def limits_ok_def unat_gt_0 word_gt_0)

lemma log_inv_new: "limits_ok limits \<Longrightarrow> log_inv (replay_log_new g limits)"
  by (simp add: log_inv_def replay_log_new_def)

lemma evict_retain:
  "unat bytes = sum_list (map byte_len es) \<Longrightarrow>
     \<exists>b. evict limits es bytes
         = ((retain byte_len (unat (max_events limits)) (unat (max_bytes limits)) es, b), Ok ())
       \<and> unat b = sum_list (map byte_len
           (retain byte_len (unat (max_events limits)) (unat (max_bytes limits)) es))"
proof (induction es arbitrary: bytes)
  case Nil
  then show ?case by (auto simp: word_less_nat_alt)
next
  case (Cons e es)
  show ?case
  proof (cases "unat (max_events limits) < length (e # es) \<or> max_bytes limits < bytes")
    case True
    have le: "re_encoded_len e \<le> bytes" using Cons.prems by (simp add: word_le_nat_alt)
    then have "unat (bytes - re_encoded_len e) = sum_list (map byte_len es)"
      using Cons.prems by (simp add: unat_sub_word)
    from Cons.IH [OF this] show ?thesis using True le Cons.prems
      by (auto simp: checked_sub_def word_less_nat_alt)
  next
    case False
    then show ?thesis using Cons.prems by (auto simp: word_less_nat_alt not_less)
  qed
qed

lemma check_sequence_next:
  "check_sequence previous_insert actual = Ok () \<longleftrightarrow>
     (case previous_insert of None \<Rightarrow> True
      | Some p \<Rightarrow> unat (sequence_get actual) = Suc (unat (sequence_get p)))"
proof (cases previous_insert)
  case (Some p)
  have "unat (sequence_get actual) < 2 ^ 64"
    using unsigned_less [of "sequence_get actual"] by simp
  then have "checked_next p = Ok actual \<longleftrightarrow> unat (sequence_get actual) = Suc (unat (sequence_get p))"
    by (cases actual) (auto simp: checked_next_eq_Ok)
  then show ?thesis using Some
    by (auto simp: check_sequence_def res_simps word_less_nat_alt)
qed (simp add: check_sequence_def)

lemma insert_accepted:
  assumes inv: "log_inv l" and ok: "is_ok (snd (insert_entry l e))"
  shows "sc_generation (re_cursor e) = rl_generation l"
    and "byte_len e \<le> unat (max_bytes (rl_limits l))"
    and "rl_entries l \<noteq> [] \<Longrightarrow> seq_of e = Suc (seq_of (last (rl_entries l)))"
    and "rl_entries (fst (insert_entry l e)) = retain byte_len (unat (max_events (rl_limits l)))
        (unat (max_bytes (rl_limits l))) (rl_entries l @ [e])"
    and "unat (rl_retained_bytes (fst (insert_entry l e)))
        = sum_list (map byte_len (rl_entries (fst (insert_entry l e))))"
    and "rl_last_inserted_sequence (fst (insert_entry l e)) = Some (sc_sequence (re_cursor e))"
proof -
  have g: "sc_generation (re_cursor e) = rl_generation l" "\<not> max_bytes (rl_limits l) < re_encoded_len e"
    "entry_seq e \<noteq> - 1"
    using ok by (auto simp: insert_entry_def split: if_splits)
  have chk: "check_sequence (rl_last_inserted_sequence l) (sc_sequence (re_cursor e)) = Ok ()"
    using ok g by (cases "check_sequence (rl_last_inserted_sequence l) (sc_sequence (re_cursor e))")
      (auto simp: insert_entry_def)
  obtain nb where nb: "checked_add (rl_retained_bytes l) (re_encoded_len e) = Some nb"
    using ok g chk
    by (cases "checked_add (rl_retained_bytes l) (re_encoded_len e)") (auto simp: insert_entry_def ok_or_def)
  have "unat nb = sum_list (map byte_len (rl_entries l @ [e]))"
    using checked_add_unat [OF nb] inv by (simp add: log_inv_def)
  from evict_retain [OF this, of "rl_limits l"] obtain b where
    ev: "evict (rl_limits l) (rl_entries l @ [e]) nb
      = ((retain byte_len (unat (max_events (rl_limits l))) (unat (max_bytes (rl_limits l)))
          (rl_entries l @ [e]), b), Ok ())"
    and b: "unat b = sum_list (map byte_len (retain byte_len (unat (max_events (rl_limits l)))
          (unat (max_bytes (rl_limits l))) (rl_entries l @ [e])))" by blast
  show "sc_generation (re_cursor e) = rl_generation l" by (rule g)
  show "byte_len e \<le> unat (max_bytes (rl_limits l))" using g by (simp add: word_less_nat_alt)
  show "rl_entries l \<noteq> [] \<Longrightarrow> seq_of e = Suc (seq_of (last (rl_entries l)))"
    using chk inv by (simp add: check_sequence_next log_inv_def)
  show "rl_entries (fst (insert_entry l e)) = retain byte_len (unat (max_events (rl_limits l)))
        (unat (max_bytes (rl_limits l))) (rl_entries l @ [e])"
    "unat (rl_retained_bytes (fst (insert_entry l e)))
        = sum_list (map byte_len (rl_entries (fst (insert_entry l e))))"
    "rl_last_inserted_sequence (fst (insert_entry l e)) = Some (sc_sequence (re_cursor e))"
    using g chk nb ev b by (auto simp: insert_entry_def ok_or_def)
qed

lemma insert_refused:
  assumes inv: "log_inv l" and no: "\<not> is_ok (snd (insert_entry l e))"
  shows "fst (insert_entry l e) = l \<and> no_panic (snd (insert_entry l e))"
proof (cases "sc_generation (re_cursor e) = rl_generation l \<and> \<not> max_bytes (rl_limits l) < re_encoded_len e
    \<and> entry_seq e \<noteq> - 1")
  case g: True
  let ?chk = "check_sequence (rl_last_inserted_sequence l) (sc_sequence (re_cursor e))"
  have np: "no_panic ?chk"
    by (auto simp: check_sequence_def checked_next_def stream_sequence_new_def res_simps no_panic_iff
        map_err_eq_Panic split: option.splits)
  show ?thesis
  proof (cases ?chk)
    case chk: (Ok u)
    show ?thesis
    proof (cases "checked_add (rl_retained_bytes l) (re_encoded_len e)")
      case None
      then show ?thesis using g chk by (simp add: insert_entry_def ok_or_def)
    next
      case (Some nb)
      have "unat nb = sum_list (map byte_len (rl_entries l @ [e]))"
        using checked_add_unat [OF Some] inv by (simp add: log_inv_def)
      from evict_retain [OF this, of "rl_limits l"] have "is_ok (snd (insert_entry l e))"
        using g chk Some by (auto simp: insert_entry_def ok_or_def)
      then show ?thesis using no by simp
    qed
  qed (use g np in \<open>auto simp: insert_entry_def\<close>)
qed (auto simp: insert_entry_def)

lemma insert_limits [simp]:
  "rl_limits (fst (insert_entry l e)) = rl_limits l"
  "rl_generation (fst (insert_entry l e)) = rl_generation l"
  by (cases "check_sequence (rl_last_inserted_sequence l) (sc_sequence (re_cursor e))";
      cases "checked_add (rl_retained_bytes l) (re_encoded_len e)";
      auto simp: insert_entry_def ok_or_def split: prod.splits)+

lemma log_inv_insert: "log_inv l \<Longrightarrow> log_inv (fst (insert_entry l e))"
proof (cases "is_ok (snd (insert_entry l e))")
  case False
  then show "log_inv l \<Longrightarrow> ?thesis" using insert_refused by metis
next
  case ok: True
  assume inv: "log_inv l"
  note a = insert_accepted [OF inv ok]
  have lim: "limits_ok (rl_limits l)" using inv by (simp add: log_inv_def)
  have "consecutive seq_of (rl_entries l @ [e])"
    using a(3) inv by (auto simp: log_inv_def consecutive_append)
  moreover obtain ys where ys: "rl_entries l @ [e] = ys @ rl_entries (fst (insert_entry l e))"
    using retain_suffix a(4) by metis
  ultimately have cons: "consecutive seq_of (rl_entries (fst (insert_entry l e)))"
    by (simp add: consecutive_append)
  have gen: "list_all (\<lambda>e. sc_generation (re_cursor e) = rl_generation l) (rl_entries (fst (insert_entry l e)))"
    using arg_cong [OF ys, of "list_all (\<lambda>e. sc_generation (re_cursor e) = rl_generation l)"] inv a(1)
    by (simp add: log_inv_def)
  obtain zs where zs: "rl_entries (fst (insert_entry l e)) = zs @ [e]"
    using retain_snoc_last [of byte_len e "unat (max_bytes (rl_limits l))" "unat (max_events (rl_limits l))"]
      a(2,4) lim by (auto simp: limits_ok_def)
  have "fits byte_len (unat (max_events (rl_limits l))) (unat (max_bytes (rl_limits l)))
      (rl_entries (fst (insert_entry l e)))"
    by (simp only: a(4) fits_retain)
  then show ?thesis
    using lim cons gen a(5,6) zs unfolding log_inv_def by simp
qed

interpretation replay: retained_log log_inv rl_entries seq_of byte_len
  "\<lambda>l. unat (max_events (rl_limits l))" "\<lambda>l. unat (max_bytes (rl_limits l))" insert_entry
proof unfold_locales
  fix l :: "'a replay_log" and e
  show "log_inv l \<Longrightarrow> log_inv (fst (insert_entry l e))" by (rule log_inv_insert)
  show "log_inv l \<Longrightarrow> is_ok (snd (insert_entry l e)) \<Longrightarrow>
      rl_entries (fst (insert_entry l e)) = retain byte_len (unat (max_events (rl_limits l)))
        (unat (max_bytes (rl_limits l))) (rl_entries l @ [e])
      \<and> byte_len e \<le> unat (max_bytes (rl_limits l)) \<and> 0 < unat (max_events (rl_limits l))"
    using insert_accepted(2,4) by (auto simp: log_inv_def limits_ok_def)
  show "log_inv l \<Longrightarrow> \<not> is_ok (snd (insert_entry l e)) \<Longrightarrow> rl_entries (fst (insert_entry l e)) = rl_entries l"
    using insert_refused by metis
  show "log_inv l \<Longrightarrow> is_ok (snd (insert_entry l e)) \<Longrightarrow> rl_entries l \<noteq> [] \<Longrightarrow>
      seq_of e = Suc (seq_of (last (rl_entries l)))"
    by (rule insert_accepted(3))
qed (auto simp: log_inv_def)

section \<open>Replay\<close>

lemma position_drop:
  "sorted_wrt (\<lambda>x y. seq_of x < seq_of y) es \<Longrightarrow>
     drop (case position_of (\<lambda>e. n < entry_seq e) es of None \<Rightarrow> length es | Some k \<Rightarrow> k) es
       = filter (\<lambda>e. n < entry_seq e) es"
proof (induction es)
  case (Cons x es)
  show ?case
  proof (cases "n < entry_seq x")
    case True
    then have "\<forall>e\<in>set (x # es). n < entry_seq e" using Cons.prems by (force simp: word_less_nat_alt)
    then show ?thesis using True by simp
  next
    case False
    then show ?thesis using Cons by (auto split: option.splits)
  qed
qed simp

text \<open>What a replay after a cursor returns, and when it refuses.\<close>

lemma replay_after_eq:
  assumes inv: "log_inv l"
  shows "replay_after l (Some c) =
    (if sc_generation c \<noteq> rl_generation l then Err (ReplayUnavailable WrongGenerationRequested)
     else case (oldest_cursor l, newest_cursor l) of
       (Some old, Some new) \<Rightarrow>
         if Suc (unat (sequence_get (sc_sequence c))) < unat (sequence_get (sc_sequence old))
         then Err (ReplayUnavailable (CursorTooOld c old))
         else if sequence_get (sc_sequence new) < sequence_get (sc_sequence c)
         then Err (ReplayUnavailable (CursorAhead c new))
         else Ok (filter (\<lambda>e. sequence_get (sc_sequence c) < entry_seq e) (rl_entries l))
     | _ \<Rightarrow> Ok [])"
proof (cases "rl_entries l")
  case Nil
  then show ?thesis by (simp add: replay_after_def replay_start_def oldest_cursor_def newest_cursor_def)
next
  case (Cons o1 es)
  let ?n = "sequence_get (sc_sequence c)"
  have sat: "?n < saturating_sub w 1 \<longleftrightarrow> Suc (unat ?n) < unat w" for w :: u64
  proof (cases "w = 0")
    case True
    then show ?thesis by (simp add: saturating_sub_def)
  next
    case False
    then have "1 \<le> w" by (simp add: word_le_nat_alt unat_gt_0 Suc_le_eq)
    then show ?thesis by (auto simp: saturating_sub_def word_less_nat_alt unat_sub_word)
  qed
  have "sorted_wrt (\<lambda>x y. seq_of x < seq_of y) (rl_entries l)"
    using inv by (intro consecutive_sorted) (simp add: log_inv_def)
  note pd = position_drop [OF this, of ?n]
  have old: "oldest_cursor l = Some (re_cursor o1)" and new: "newest_cursor l = Some (re_cursor (last (o1 # es)))"
    using Cons by (simp_all add: oldest_cursor_def newest_cursor_def)
  have "replay_start l c =
    (if sc_generation c \<noteq> rl_generation l then Err (ReplayUnavailable WrongGenerationRequested)
     else if Suc (unat ?n) < seq_of o1 then Err (ReplayUnavailable (CursorTooOld c (re_cursor o1)))
     else if entry_seq (last (o1 # es)) < ?n
     then Err (ReplayUnavailable (CursorAhead c (re_cursor (last (o1 # es)))))
     else Ok (case position_of (\<lambda>e. ?n < entry_seq e) (rl_entries l) of
                None \<Rightarrow> length (rl_entries l) | Some k \<Rightarrow> k))"
    unfolding replay_start_def Let_def sat by (simp only: Cons list.case)
  then show ?thesis by (simp add: replay_after_def old new pd)
qed

lemma replay_after_all: "replay_after l None = Ok (rl_entries l)"
  by (simp add: replay_after_def)

text \<open>A replay that succeeds returns every accepted entry after the cursor, whatever was
  evicted since.\<close>

lemma replay_no_gap:
  assumes lim: "limits_ok limits"
    and r: "replay_after (replay.run (replay_log_new g limits) es) (Some c) = Ok out"
  shows "out = filter (\<lambda>e. sequence_get (sc_sequence c) < entry_seq e)
    (replay.accepted (replay_log_new g limits) es)"
proof -
  let ?new = "replay_log_new g limits :: 'a replay_log"
  let ?l = "replay.run ?new es"
  let ?n = "sequence_get (sc_sequence c)"
  note inv0 = log_inv_new [OF lim, of g]
  note inv = replay.run_inv [OF inv0, of es]
  have first: "seq_of (hd (rl_entries ?l)) \<le> Suc (unat ?n)" if "rl_entries ?l \<noteq> []"
    using r that by (cases "rl_entries ?l")
      (auto simp: replay_after_eq [OF inv] oldest_cursor_def newest_cursor_def split: if_splits)
  have "out = filter (\<lambda>e. ?n < entry_seq e) (rl_entries ?l)"
    using r by (cases "rl_entries ?l")
      (auto simp: replay_after_eq [OF inv] oldest_cursor_def newest_cursor_def split: if_splits)
  also have "\<dots> = filter (\<lambda>e. ?n < entry_seq e) (replay.history ?new es)"
    using replay.replay_complete [OF inv0 first] by (simp add: word_less_nat_alt)
  also have "replay.history ?new es = replay.accepted ?new es"
    by (simp add: replay.history_def replay_log_new_def)
  finally show ?thesis .
qed

lemma check_sequence_errors:
  assumes "check_sequence previous_insert actual = Err err"
  shows "\<exists>p. previous_insert = Some p \<and>
    (err = DuplicateSequence (sequence_get actual) \<and> sequence_get actual = sequence_get p
     \<or> err = OutOfOrderSequence (sequence_get p) (sequence_get actual)
         \<and> unat (sequence_get actual) \<noteq> Suc (unat (sequence_get p)))"
proof -
  obtain p where p: "previous_insert = Some p"
    using assms by (auto simp: check_sequence_def split: option.splits)
  have nx: "unat (sequence_get actual) \<noteq> Suc (unat (sequence_get p))"
    using assms check_sequence_next [of previous_insert actual] p by auto
  consider "actual = p" | "sequence_get actual < sequence_get p" | (later) "sequence_get p < sequence_get actual"
    using stream_sequence.expand by fastforce
  then show ?thesis
  proof cases
    case later
    have "unat (sequence_get actual) < 2 ^ 64" using unsigned_less [of "sequence_get actual"] by simp
    then have "unat (sequence_get p) + unat (1 :: u64) < 2 ^ 64" using later by (simp add: word_less_nat_alt)
    then have "\<exists>t. checked_next p = Ok t"
      using unat_add_no_overflow [of "sequence_get p" 1]
        checked_next_eq_Ok [of p "StreamSequence (sequence_get p + 1)"] by auto
    then show ?thesis using assms p nx later by (auto simp: check_sequence_def split: if_splits)
  qed (use assms p nx in \<open>auto simp: check_sequence_def split: if_splits\<close>)
qed

lemma insert_errors:
  assumes inv: "log_inv l" and e: "snd (insert_entry l e) = Err err"
  shows "fst (insert_entry l e) = l \<and>
    (err = WrongGeneration \<and> sc_generation (re_cursor e) \<noteq> rl_generation l
     \<or> err = EventTooLarge (re_encoded_len e) (max_bytes (rl_limits l))
         \<and> max_bytes (rl_limits l) < re_encoded_len e
     \<or> err = SequenceOverflow \<and> entry_seq e = - 1
     \<or> (\<exists>p. rl_last_inserted_sequence l = Some p \<and> err = DuplicateSequence (entry_seq e)
         \<and> entry_seq e = sequence_get p)
     \<or> (\<exists>p. rl_last_inserted_sequence l = Some p \<and> err = OutOfOrderSequence (sequence_get p) (entry_seq e)
         \<and> seq_of e \<noteq> Suc (unat (sequence_get p)))
     \<or> err = ByteCountOverflow \<and> 2 ^ 64 \<le> unat (rl_retained_bytes l) + byte_len e)"
proof -
  have st: "fst (insert_entry l e) = l" using insert_refused [OF inv, of e] e by simp
  show ?thesis
  proof (cases "sc_generation (re_cursor e) = rl_generation l \<and> \<not> max_bytes (rl_limits l) < re_encoded_len e
      \<and> entry_seq e \<noteq> - 1")
    case False
    then show ?thesis using e st by (auto simp: insert_entry_def split: if_splits)
  next
    case g: True
    show ?thesis
    proof (cases "check_sequence (rl_last_inserted_sequence l) (sc_sequence (re_cursor e))")
      case (Ok u)
      then have "checked_add (rl_retained_bytes l) (re_encoded_len e) = None"
      proof (cases "checked_add (rl_retained_bytes l) (re_encoded_len e)")
        case (Some nb)
        have "unat nb = sum_list (map byte_len (rl_entries l @ [e]))"
          using checked_add_unat [OF Some] inv by (simp add: log_inv_def)
        from evict_retain [OF this, of "rl_limits l"] show ?thesis
          using g Ok Some e by (auto simp: insert_entry_def ok_or_def)
      qed
      note none = this
      have "err = ByteCountOverflow" using g Ok e none by (simp add: insert_entry_def ok_or_def)
      moreover have "2 ^ 64 \<le> unat (rl_retained_bytes l) + byte_len e"
        using none by (simp add: checked_add_eq_None)
      ultimately show ?thesis using st by blast
    next
      case (Err err')
      then have "err = err'" using e g by (simp add: insert_entry_def)
      with check_sequence_errors [OF Err] st show ?thesis by blast
    next
      case (Panic q)
      then show ?thesis using e g by (simp add: insert_entry_def)
    qed
  qed
qed

end
