(* ===== verification/Sample_Inputs.thy ===== *)
theory Sample_Inputs
  imports Price_Monitor Delta_Monitor Replay_Log
begin

text \<open>
  Concrete inputs on which the properties are evaluated: an instrument, evidence, the
  observations of one instrument whose price and cumulative amount move enough to trigger
  a rule twice, and a replay log of three entries with room for two.
\<close>

section \<open>Numbers\<close>

abbreviation lit_one :: f64 where "lit_one \<equiv> F64 4607182418800017408"
abbreviation lit_ten :: f64 where "lit_ten \<equiv> F64 4621819117588971520"
abbreviation lit_eleven :: f64 where "lit_eleven \<equiv> F64 4622382067542392832"
abbreviation lit_twenty_two :: f64 where "lit_twenty_two \<equiv> F64 4626885667169763328"
abbreviation lit_tenth :: f64 where "lit_tenth \<equiv> F64 4591870180066957722"
abbreviation lit_twentieth :: f64 where "lit_twentieth \<equiv> F64 4587366580439587226"
abbreviation lit_hundredth :: f64 where "lit_hundredth \<equiv> F64 4576918229304087675"

lemma sample_differences:
  "f64_sub lit_eleven lit_ten = lit_one" "f64_sub lit_ten lit_ten = F64 0"
  "f64_sub lit_eleven lit_eleven = F64 0" "f64_sub lit_twenty_two lit_eleven = lit_eleven"
  by (simp_all add: f64_eval cong: let_weak_cong split del: if_split)

lemma sample_quotients:
  "f64_div lit_one lit_ten = lit_tenth" "f64_div (F64 0) lit_ten = F64 0"
  "f64_div (F64 0) lit_eleven = F64 0" "f64_div lit_eleven lit_eleven = lit_one"
  by (simp_all add: f64_eval cong: let_weak_cong split del: if_split)

lemma sample_finite:
  "is_finite (F64 0)" "is_finite lit_tenth" "is_finite lit_one" "is_finite lit_ten"
  "is_finite lit_eleven" "is_finite lit_twenty_two" "is_finite lit_twentieth" "is_finite lit_hundredth"
  by (simp_all add: f64_eval)

lemma sample_order:
  "f64_le lit_twentieth lit_tenth" "f64_le lit_twentieth lit_one" "\<not> f64_le lit_twentieth (F64 0)"
  "f64_le (F64 0) lit_hundredth" "f64_le lit_one lit_one" "f64_le lit_one lit_eleven"
  "\<not> f64_le lit_one (F64 0)" "f64_le (F64 0) lit_tenth" "f64_lt (F64 0) lit_ten"
  "f64_lt (F64 0) lit_eleven" "f64_lt (F64 0) lit_twenty_two" "f64_le (F64 0) lit_ten"
  "f64_le (F64 0) lit_eleven" "f64_le (F64 0) lit_twenty_two" "\<not> f64_lt lit_ten lit_ten"
  "\<not> f64_lt lit_eleven lit_ten" "\<not> f64_lt lit_eleven lit_eleven" "\<not> f64_lt lit_twenty_two lit_eleven"
  "\<not> f64_lt lit_one (F64 0)" "\<not> f64_lt lit_eleven (F64 0)" "\<not> f64_lt (F64 0) (F64 0)"
  by (simp_all add: f64_eval)

section \<open>Observations\<close>

definition sample_instrument :: instrument_id where
  "sample_instrument = \<lparr>ii_exchange = Shanghai, ii_code = ''600000'', ii_asset_class = Equity\<rparr>"

definition sample_evidence :: source_evidence where
  "sample_evidence = \<lparr>se_provider = LocalTerminal, se_source_at = None,
     se_observed_at = NonEmptyText ''2026-01-05T09:30:00+08:00'', se_batch_id = NonEmptyText ''b''\<rparr>"

definition sample_observation :: "u64 \<Rightarrow> f64 \<Rightarrow> injected_observation" where
  "sample_observation t x =
     \<lparr>ob_instrument = sample_instrument, ob_evidence = sample_evidence, ob_arrival_millis = t,
      ob_price = Some (Price x), ob_cumulative_amount = Some (Money x), ob_cumulative_volume = None,
      ob_cumulative_volume_unit = None, ob_source_record_count = None, ob_stream_cursor = None,
      ob_continuity = Continuous\<rparr>"

definition sample_run :: "injected_observation list" where
  "sample_run =
     [sample_observation 1000 lit_ten, sample_observation 2000 lit_ten,
      sample_observation 3000 lit_eleven, sample_observation 4000 lit_eleven,
      sample_observation 5000 lit_eleven, sample_observation 6000 lit_twenty_two]"

definition sample_price_rule :: price_change_rule where
  "sample_price_rule =
     \<lparr>pr_window_millis = 1000, pr_boundary_tolerance_millis = 500,
      pr_trigger_ratio = lit_twentieth, pr_rearm_ratio = lit_hundredth, pr_cooldown_millis = 1000\<rparr>"

definition sample_delta_rule :: delta_rule where
  "sample_delta_rule =
     \<lparr>dr_version = 1, dr_window_millis = 1000, dr_boundary_tolerance_millis = 500,
      dr_trigger_delta = lit_one, dr_rearm_delta = lit_hundredth, dr_cooldown_millis = 1000\<rparr>"

lemmas sample_run_simps =
  sample_run_def sample_observation_def sample_differences sample_quotients sample_finite
  sample_order f64_lit_zero checked_sub_def ok_or_def word_le_nat_alt word_less_nat_alt Let_def

lemmas price_run_simps =
  price_process_def price_validate_order_def price_reset_reason_def price_prune_for_def price_seed_def
  price_change_def price_advance_def price_outcome_def price_reset_and_seed_def
  price_reset_without_seed_def instrument_state_new_def sample_price_rule_def

lemmas delta_run_simps =
  delta_process_def delta_validate_order_def delta_reset_reason_def delta_prune_for_def delta_seed_def
  delta_measure_def delta_advance_def delta_outcome_of_def delta_reset_and_seed_def
  delta_reset_without_seed_def delta_state_new_def sample_delta_rule_def cumulative_def

lemmas run_congs =
  let_weak_cong option.case_cong_weak list.case_cong_weak rres.case_cong_weak rule_state.case_cong_weak

lemma sample_observation_ok:
  "x \<in> {lit_ten, lit_eleven, lit_twenty_two} \<Longrightarrow> observation_ok (sample_observation t x)"
  by (auto simp: observation_ok_def sample_observation_def sample_evidence_def price_ok_def money_ok_def
      sample_finite sample_order f64_lit_zero)

lemma sample_admitted:
  "list_all price_admits sample_run" "list_all (delta_admits Amount) sample_run"
  by (simp_all add: sample_run_def price_admits_def delta_admits_def sample_observation_ok
      validate_observation_def require_family_def Let_def)
     (simp_all add: sample_observation_def)

lemma sample_price_labels:
  "price_rule.labels sample_price_rule 8 instrument_state_new sample_run =
     [(1000, Stay), (2000, Warm), (3000, Trigger lit_tenth), (4000, Cool), (5000, Rearm (F64 0)),
      (6000, Trigger lit_one)]"
  by (simp add: price_rule.labels_def price_run_simps sample_run_simps cong: run_congs split del: if_split)

lemma sample_delta_labels:
  "delta_rules.labels sample_delta_rule Amount 8 delta_state_new sample_run =
     [(1000, Stay), (2000, Warm), (3000, Trigger lit_one), (4000, Cool), (5000, Rearm (F64 0)),
      (6000, Trigger lit_eleven)]"
  by (simp add: delta_rules.labels_def delta_run_simps sample_run_simps cong: run_congs split del: if_split)

section \<open>Times\<close>

lemma sample_time: "parse_instant ''1767576600'' = Ok (EvidenceTimestamp 1767576600000000000)"
  by (simp add: parse_instant_def evidence_timestamp_parse_def parse_evidence_time_def strip_prefix_def
      split_once_def is_epoch_seconds_def is_ascii_digit_def parse_i64_def parse_dec_def digit_val_def
      fit_i64_def fit_i128_def nanos_per_second_def ok_or_def is_unambiguous_instant_def)

end
