(* ===== verification/Event_Totality.thy ===== *)
theory Event_Totality
  imports Price_Monitor Delta_Monitor
begin

text \<open>
  When the constructors of events succeed: the field lists of the program are accepted by the
  canonical hasher whatever their values, so a rule always has an identity and a public
  transition of the price monitor always yields an event. \<open>sha\<close> is any engine with digests
  of 32 bytes.
\<close>

section \<open>Printable text\<close>

definition printable :: "string \<Rightarrow> bool" where
  "printable s \<longleftrightarrow> s \<noteq> [] \<and> list_all (\<lambda>c. 33 \<le> byte_of c \<and> byte_of c < (127 :: nat)) s"

lemma printable_text:
  assumes "printable s"
  shows "trim s = s" "chars_of s = map (\<lambda>c. [c]) s" "\<not> list_ex is_control (chars_of s)"
proof -
  have b: "33 \<le> byte_of c \<and> byte_of c < (127 :: nat)" if "c \<in> set s" for c
    using assms that by (auto simp: printable_def list_all_iff)
  have asc: "is_ascii_text s" using b by (force simp: is_ascii_text_def list_all_iff)
  have ws: "\<not> is_whitespace [c]" if "c \<in> set s" for c
    using b [OF that] by (auto simp: is_whitespace_def Let_def)
  show "trim s = s" using asc ws by (intro trim_ascii) auto
  show ch: "chars_of s = map (\<lambda>c. [c]) s" by (rule chars_of_ascii [OF asc])
  show "\<not> list_ex is_control (chars_of s)"
    using b by (force simp: ch list_ex_iff is_control_def Let_def)
qed

lemma printable_new:
  "printable s \<Longrightarrow> length s \<le> 16384 \<Longrightarrow> non_empty_text_new s = Ok (NonEmptyText s)"
  using printable_text [of s] by (auto simp: non_empty_text_new_def max_text_chars_def printable_def)

lemma rule_ids_valid:
  "validated_rule_id ''local_price_change'' = Ok (NonEmptyText ''local_price_change'')"
  "validated_rule_id ''local_amount_spike'' = Ok (NonEmptyText ''local_amount_spike'')"
proof -
  have p: "printable ''local_price_change''" "printable ''local_amount_spike''" by (simp_all add: printable_def)
  show "validated_rule_id ''local_price_change'' = Ok (NonEmptyText ''local_price_change'')"
    "validated_rule_id ''local_amount_spike'' = Ok (NonEmptyText ''local_amount_spike'')"
    unfolding validated_rule_id_def
    by (simp_all add: printable_new p printable_text(2) is_name_char_def is_name_start_def
        is_ascii_lowercase_def is_ascii_digit_def utf8_width_def)
qed

text \<open>Any digest engine accepts the field lists of the program: their names ascend and
  their encodings are short.\<close>

lemma length_prefixed_length: "length (length_prefixed xs) = 8 + length xs"
  by (simp add: length_prefixed_def)

lemmas field_lengths = preimage_def encode_fields_def length_prefixed_length max_input_def

lemma rule_fields_accepted:
  "increasing None (map fst (price_rule_fields r))"
  "increasing None (map fst (delta_rule_fields d f u))"
  "length (preimage ''magic-market/anomaly-rule-definition/v1'' (price_rule_fields r)) \<le> max_input"
  "length f < 1000 \<Longrightarrow> length u < 1000 \<Longrightarrow>
     length (preimage ''magic-market/anomaly-rule-definition/v1'' (delta_rule_fields d f u)) \<le> max_input"
  by (simp_all add: increasing_def price_rule_fields_def delta_rule_fields_def field_lengths)

lemma rule_names_valid:
  "list_all (\<lambda>(n, v). validate_canonical_field_name n = Ok ()) (price_rule_fields r)"
  "list_all (\<lambda>(n, v). validate_canonical_field_name n = Ok ()) (delta_rule_fields d f u)"
  by (simp_all add: price_rule_fields_def delta_rule_fields_def validate_canonical_field_name_def
      is_name_char_def is_name_start_def is_ascii_lowercase_def is_ascii_digit_def utf8_width_def ensure_def)

lemma rule_digest_total:
  assumes "\<And>x. length (sha x) = 32" and ne: "fs \<noteq> []"
    and "list_all (\<lambda>(n, v). validate_canonical_field_name n = Ok ()) fs" "increasing None (map fst fs)"
    and "length (preimage ''magic-market/anomaly-rule-definition/v1'' fs) \<le> max_input"
  shows "anomaly_rule_digest_of sha fs = Ok (AnomalyRuleDigest
      (hex_of (sha (preimage ''magic-market/anomaly-rule-definition/v1'' fs))))"
proof -
  have "canonical_fields_digest sha ''magic-market/anomaly-rule-definition/v1'' c fs
      = canonical_digest sha ''magic-market/anomaly-rule-definition/v1'' fs" for c
  proof -
    have "\<forall>f\<in>set fs. validate_canonical_field_name (fst f) = Ok ()"
      using assms(3) by (auto simp: list_all_iff)
    then show ?thesis
      using ne by (simp add: canonical_fields_digest_def canonical_digest_def validated_fields_eq)
  qed
  then show ?thesis using assms by (simp add: anomaly_rule_digest_of_def digest_eq_Ok)
qed

lemma price_identity_total:
  assumes "\<And>x. length (sha x) = 32" "v \<noteq> 0"
  shows "price_core_identity sha r v = Ok \<lparr>ri_id = NonEmptyText ''local_price_change'',
    ri_revision = PositiveU32 v, ri_definition_digest = AnomalyRuleDigest
      (hex_of (sha (preimage ''magic-market/anomaly-rule-definition/v1'' (price_rule_fields r))))\<rparr>"
proof -
  have "price_rule_fields r \<noteq> []" by (simp add: price_rule_fields_def)
  from rule_digest_total [OF assms(1) this rule_names_valid(1) rule_fields_accepted(1,3)] assms(2)
  show ?thesis
    by (simp add: price_core_identity_def from_canonical_definition_def anomaly_rule_identity_new_def
        rule_ids_valid positive_u32_new_def)
qed

lemma amount_identity_total:
  assumes "\<And>x. length (sha x) = 32" "dr_version (amount_rule r) \<noteq> 0"
  shows "\<exists>a. amount_core_identity sha r = Ok a"
proof -
  let ?fs = "delta_rule_fields (amount_rule r) (as_bytes ''amount'') (as_bytes ''cny_yuan'')"
  have "?fs \<noteq> []" by (simp add: delta_rule_fields_def)
  from rule_digest_total [OF assms(1) this rule_names_valid(2) rule_fields_accepted(2,4)] assms(2)
  show ?thesis
    by (simp add: amount_core_identity_def core_rule_identity_def from_canonical_definition_def
        anomaly_rule_identity_new_def rule_ids_valid positive_u32_new_def)
qed


lemma price_input_names_valid:
  "\<forall>f\<in>set (price_input_fields e x p q). validate_canonical_field_name (fst f) = Ok ()"
  "increasing None (map fst (price_input_fields e x p q))"
  "length (preimage ''magic-market/anomaly-rule-inputs/v1'' (price_input_fields e x p q)) \<le> max_input"
  by (simp_all add: price_input_fields_def validate_canonical_field_name_def increasing_def field_lengths
      is_name_char_def is_name_start_def is_ascii_lowercase_def is_ascii_digit_def utf8_width_def ensure_def
      encode_optional_u64_def split: option.splits)

lemma price_input_digest_total:
  assumes "\<And>x. length (sha x) = 32"
  shows "\<exists>d. rule_input_digest_of sha (price_input_fields e x p q) = Ok d"
proof -
  let ?fs = "price_input_fields e x p q"
  have "canonical_fields_digest sha ''magic-market/anomaly-rule-inputs/v1'' c ?fs
      = canonical_digest sha ''magic-market/anomaly-rule-inputs/v1'' ?fs" for c
    using price_input_names_valid(1) [of e x p q]
    by (simp add: canonical_fields_digest_def canonical_digest_def validated_fields_eq)
       (simp add: price_input_fields_def)
  then show ?thesis using assms price_input_names_valid(2,3)
    by (simp add: rule_input_digest_of_def digest_eq_Ok)
qed

lemma input_and_event_names:
  "increasing None (map fst (anomaly_input_fields i t c1 c2 b k d))"
  "increasing None (map fst (anomaly_event_fields i r tr st dg))"
  by (simp_all add: increasing_def anomaly_input_fields_def anomaly_event_fields_def)

lemma hex_event_evidence:
  assumes "length (sha x) = 32" "non_empty_text_new obs = Ok u"
  shows "\<exists>d. source_evidence_new LocalAnalysis obs (hex_of (sha x)) = Ok d"
proof -
  have hex: "list_all is_lower_hex (hex_of (sha x))" "length (hex_of (sha x)) = 64"
    using assms by (simp_all add: hex_of_lower)
  have "33 \<le> byte_of c \<and> byte_of c < (127 :: nat)" if "is_lower_hex c" for c
    using that by (auto simp: is_lower_hex_def is_ascii_digit_def)
  moreover have "hex_of (sha x) \<noteq> []" using hex(2) by (metis list.size(3) zero_neq_numeral)
  ultimately have "printable (hex_of (sha x))"
    using hex(1) unfolding printable_def list_all_iff by blast
  then show ?thesis using hex assms by (simp add: source_evidence_new_def printable_new)
qed

text \<open>When the endpoints of a window carry cursors of one generation in order and times in
  order, and the derivation time does not precede the last one, a public transition always
  yields an event.\<close>

definition endpoints_ok :: "injected_observation \<Rightarrow> injected_observation \<Rightarrow> stream_cursor \<Rightarrow> string \<Rightarrow> bool" where
  "endpoints_ok a b stream obs \<longleftrightarrow> observation_ok a \<and> observation_ok b
     \<and> (\<exists>c1 c2 x y z n k u. ob_stream_cursor a = Some c1 \<and> ob_stream_cursor b = Some c2
        \<and> sc_generation c1 = sc_generation c2 \<and> sc_generation stream = sc_generation c2
        \<and> sequence_get (sc_sequence c1) \<le> sequence_get (sc_sequence c2)
        \<and> parse_instant (observed_at_of (ob_evidence a)) = Ok x
        \<and> parse_instant (observed_at_of (ob_evidence b)) = Ok y
        \<and> parse_instant obs = Ok z \<and> duration_since y x = Some n \<and> duration_since z y = Some k
        \<and> non_empty_text_new obs = Ok u)"

definition encodable :: "injected_observation \<Rightarrow> injected_observation \<Rightarrow> bool" where
  "encodable a b \<longleftrightarrow>
     list_all (\<lambda>s. length s < 2 ^ 32)
       [batch_id_of (ob_evidence a), observed_at_of (ob_evidence a), batch_id_of (ob_evidence b),
        observed_at_of (ob_evidence b), ii_code (ob_instrument a)]
     \<and> (\<forall>o'\<in>{a, b}. case source_at_of (ob_evidence o') of None \<Rightarrow> True | Some s \<Rightarrow> length s < 2 ^ 32)
     \<and> (\<forall>o'\<in>{a, b}. case ob_stream_cursor o' of None \<Rightarrow> True
          | Some c \<Rightarrow> length (generation_str (sc_generation c)) < 2 ^ 32)"

lemma name_lengths:
  "length (asset_class_name x) < 100" "length (exchange_name y) < 100" "length (continuity_name z) < 100"
  "length (time_basis_name w) < 100" "length (transition_name t) < 100"
  by (cases x; cases y; cases z; cases w; cases t; simp)+

lemma input_fields_short:
  assumes "length (generation_str (sc_generation c1)) < 2 ^ 32" "length (generation_str (sc_generation c2)) < 2 ^ 32"
    and "length (batch_id_of (lt_first t)) < 2 ^ 32" "length (batch_id_of (lt_last t)) < 2 ^ 32"
    and "length (observed_at_of (lt_first t)) < 2 ^ 32" "length (observed_at_of (lt_last t)) < 2 ^ 32"
    and "case source_at_of (lt_first t) of None \<Rightarrow> True | Some s \<Rightarrow> length s < 2 ^ 32"
    and "case source_at_of (lt_last t) of None \<Rightarrow> True | Some s \<Rightarrow> length s < 2 ^ 32"
    and "length (ii_code i) < 2 ^ 32" "length (rule_input_str d) = 64"
  shows "length (preimage ''magic-market/anomaly-input-evidence/v1'' (anomaly_input_fields i t c1 c2 b k d)) \<le> max_input"
  using assms name_lengths(1) [of "ii_asset_class i"] name_lengths(2) [of "ii_exchange i"]
    name_lengths(3) [of "ct_observation k"] name_lengths(3) [of "ct_source k"] name_lengths(4) [of b]
  by (cases "source_at_of (lt_first t)"; cases "source_at_of (lt_last t)")
     (simp_all add: anomaly_input_fields_def field_lengths encode_optional_text_def)

lemma event_fields_short:
  assumes "length (generation_str (sc_generation st)) < 2 ^ 32" "length (ii_code i) < 2 ^ 32"
    and "length (rule_digest_str (ri_definition_digest r)) = 64" "length (text_str (ri_id r)) = 18"
    and "length (input_digest_str d) = 64"
  shows "length (preimage ''magic-market/anomaly-event/v1'' (anomaly_event_fields i r tr st d)) \<le> max_input"
  using assms name_lengths(1) [of "ii_asset_class i"] name_lengths(2) [of "ii_exchange i"] name_lengths(5) [of tr]
  by (simp add: anomaly_event_fields_def field_lengths)

lemma price_event_total:
  assumes sha: "\<And>x. length (sha x) = 32" and v: "v \<noteq> 0"
    and ends: "endpoints_ok a b stream obs" and enc: "encodable a b"
    and p: "ob_price a = Some p" "ob_price b = Some q"
    and tr: "tr = monitor_transition.Triggered x \<or> tr = monitor_transition.Rearmed x"
  shows "\<exists>e. price_core_event sha (window_evidence_new a b) rule v tr stream k obs = Ok e"
proof -
  from ends have ok: "observation_ok a" "observation_ok b" by (auto simp: endpoints_ok_def)
  obtain c1 c2 t1 t2 t3 n m u where c: "ob_stream_cursor a = Some c1" "ob_stream_cursor b = Some c2"
    "sc_generation c1 = sc_generation c2" "sc_generation stream = sc_generation c2"
    "sequence_get (sc_sequence c1) \<le> sequence_get (sc_sequence c2)"
    and t: "parse_instant (observed_at_of (ob_evidence a)) = Ok t1"
      "parse_instant (observed_at_of (ob_evidence b)) = Ok t2" "parse_instant obs = Ok t3"
      "duration_since t2 t1 = Some n" "duration_since t3 t2 = Some m" "non_empty_text_new obs = Ok u"
    using ends unfolding endpoints_ok_def by blast
  define kind where "kind = (case tr of monitor_transition.Triggered _ \<Rightarrow> anomaly_transition.Triggered
      | _ \<Rightarrow> anomaly_transition.Rearmed)"
  let ?w = "window_evidence_new a b" and ?t = "\<lparr>lt_first = ob_evidence a, lt_last = ob_evidence b\<rparr>"
  obtain d where d: "rule_input_digest_of sha (price_input_fields ?w x p q) = Ok d"
    using price_input_digest_total [of sha ?w x p q] sha by blast
  have dl: "length (rule_input_str d) = 64"
    using d sha by (auto simp: rule_input_digest_of_def res_simps dest: canonical_fields_digest_canonical)
      (simp add: from_validated_hex_eq_Ok)
  have prov: "se_provider (ob_evidence a) = LocalTerminal" "se_provider (ob_evidence b) = LocalTerminal"
    using ok by (simp_all add: observation_ok_def)
  have range: "validate_input_range ?t c1 c2 LocalObservationTime = Ok ()"
    using c t by (simp add: validate_input_range_def)
  have "length (preimage ''magic-market/anomaly-input-evidence/v1''
      (anomaly_input_fields (ob_instrument a) ?t c1 c2 LocalObservationTime k d)) \<le> max_input"
    using enc c dl by (intro input_fields_short) (auto simp: encodable_def)
  then obtain dg where dg: "compute_anomaly_input_digest sha (ob_instrument a) ?t c1 c2 LocalObservationTime k d = Ok dg"
    using sha input_and_event_names(1) by (simp add: compute_anomaly_input_digest_def digest_eq_Ok)
  then have dgl: "length (input_digest_str dg) = 64"
    using sha by (auto simp: compute_anomaly_input_digest_def digest_eq_Ok)
  define inp where "inp = \<lparr>ie_instrument = ob_instrument a, ie_terminal = ?t, ie_first_cursor = c1,
      ie_last_cursor = c2, ie_time_basis = LocalObservationTime, ie_continuity = k,
      ie_rule_inputs_digest = d, ie_canonical_digest = dg\<rparr>"
  have inp: "core_anomaly_input_evidence sha ?w LocalObservationTime k d = Ok inp"
    using c prov range dg
    by (simp add: core_anomaly_input_evidence_eq_Ok anomaly_input_evidence_eq_Ok inp_def)
  obtain r where r: "price_core_identity sha rule v = Ok r" "length (rule_digest_str (ri_definition_digest r)) = 64"
    "length (text_str (ri_id r)) = 18"
    using price_identity_total [of sha v rule] sha v by simp
  have "length (preimage ''magic-market/anomaly-event/v1'' (anomaly_event_fields (ob_instrument a) r kind stream dg)) \<le> max_input"
    using enc c r(2,3) dgl by (intro event_fields_short) (auto simp: encodable_def)
  then obtain y where y: "compute_anomaly_event_id sha (ob_instrument a) r kind stream dg
      = Ok (MarketEventId (hex_of (sha y)))"
    using sha input_and_event_names(2) by (auto simp: compute_anomaly_event_id_def digest_eq_Ok)
  obtain ev where ev: "source_evidence_new LocalAnalysis obs (hex_of (sha y)) = Ok ev"
    using hex_event_evidence [of sha y obs u] sha t(6) by blast
  have "validate_event_identity (ob_instrument a) stream inp = Ok ()"
    using c by (simp add: validate_event_identity_def validate_event_generation_def inp_def ensure_def)
  moreover have "validate_derived_observation_time obs inp = Ok ()"
    using t by (simp add: validate_derived_observation_time_def inp_def)
  moreover have "ie_canonical_digest inp = dg" by (simp add: inp_def)
  ultimately have "\<exists>e. anomaly_event_new sha (ob_instrument a) r kind stream inp obs = Ok e"
    using y ev unfolding anomaly_event_new_eq_Ok by (metis market_event_id.sel)
  moreover have "we_instrument ?w = ob_instrument a" by (simp add: window_evidence_new_def)
  moreover have "(case tr of monitor_transition.Triggered ratio \<Rightarrow> Ok (anomaly_transition.Triggered, ratio)
      | monitor_transition.Rearmed ratio \<Rightarrow> Ok (anomaly_transition.Rearmed, ratio)
      | _ \<Rightarrow> Err (invalid_request ''price outcome has no public anomaly transition''))
      = (Ok (kind, x) :: (anomaly_transition \<times> f64, core_error) rres)"
    using tr by (auto simp: kind_def)
  ultimately show ?thesis
    unfolding price_core_event_def retained_bits(1,2) [OF ok] p
    by (simp add: ok_or_def d inp r(1))
qed

end
