(* ===== verification/Monitor_Properties.thy ===== *)
theory Monitor_Properties
  imports Sample_Inputs Event_Totality
begin

text \<open>
  What the monitors of \<open>magic-market-monitor\<close> promise, each property with the concrete
  input its hypotheses hold of.
\<close>

section \<open>The price monitor\<close>

text \<open>C2: Whatever admitted observations a price state is fed, its results read as a path of
  the abstract rule machine from the state's position to the position it ends in; the window
  invariant is kept and no call panics.\<close>

theorem price_run_refines:
  assumes "2 \<le> unat c" "price_inv c s" "list_all price_admits obs"
  shows "rule_path (price_params rule) (price_position s) (price_rule.labels rule c s obs)
       (price_position (price_rule.run rule c s obs))
     \<and> price_inv c (price_rule.run rule c s obs)
     \<and> list_all no_panic (price_rule.results rule c s obs)"
  using price_rule.run_refines [of c s obs rule] price_rule.run_inv [of c s obs rule]
    price_rule.run_no_panic [of c s obs rule] assms by simp

theorem price_run_refines_witness:
  "rule_path (price_params sample_price_rule) (WarmingUp, None)
     (price_rule.labels sample_price_rule 8 instrument_state_new sample_run)
     (price_position (price_rule.run sample_price_rule 8 instrument_state_new sample_run))"
  using price_run_refines [of 8 instrument_state_new sample_run sample_price_rule]
  by (simp add: price_inv_new sample_admitted) (simp add: price_position_def instrument_state_new_def)

text \<open>C11: Between two triggers of a price state the rule was reset, or it was rearmed by a
  change at or below the rearm ratio, no earlier than the cooldown after the first trigger.\<close>

theorem price_triggers_separated:
  assumes "2 \<le> unat c" "price_inv c s" "list_all price_admits obs"
    and "price_rule.labels rule c s obs = xs @ (t1, Trigger x) # ys @ (t2, Trigger y) # zs"
  shows "Restart \<in> snd ` set ys \<or>
    (\<exists>t z. (t, Rearm z) \<in> set ys \<and> t1 \<le> t \<and> pr_cooldown_millis rule \<le> t - t1
       \<and> f64_le z (pr_rearm_ratio rule))"
  using price_rule.between_triggers [of c s obs rule xs t1 x ys t2 y zs] assms
  by (simp add: price_params_def)

theorem price_triggers_separated_witness:
  "Restart \<in> snd ` set [(4000 :: u64, Cool), (5000, Rearm (F64 0))] \<or>
    (\<exists>t z. (t, Rearm z) \<in> set [(4000, Cool), (5000, Rearm (F64 0))] \<and> 3000 \<le> t
       \<and> pr_cooldown_millis sample_price_rule \<le> t - 3000 \<and> f64_le z (pr_rearm_ratio sample_price_rule))"
  by (rule price_triggers_separated [of 8 instrument_state_new sample_run sample_price_rule
        "[(1000, Stay), (2000, Warm)]" 3000 lit_tenth "[(4000, Cool), (5000, Rearm (F64 0))]"
        6000 lit_one "[]"])
     (simp_all add: price_inv_new sample_admitted sample_price_labels)

text \<open>A price observation that triggers found the rule armed. The reported ratio is at
  least the trigger ratio and is the relative change from the latest window point at or before
  the cutoff, within the boundary tolerance, to the observation.\<close>

lemma price_triggered:
  assumes inv: "price_inv c s" and w: "0 < pr_window_millis rule"
    and p: "price_process rule c s ob = (s', Ok out)" "po_transition out = Some (monitor_transition.Triggered x)"
  shows "ps_rule_state s = Armed \<and> ps_rule_state s' = rule_state.Triggered
     \<and> ps_triggered_at s' = Some (ob_arrival_millis ob) \<and> f64_ge x (pr_trigger_ratio rule)
     \<and> (\<exists>b p q. pr_window_millis rule \<le> ob_arrival_millis ob
       \<and> is_boundary (ob_arrival_millis ob - pr_window_millis rule)
            (pr_boundary_tolerance_millis rule) (ps_window s) b
       \<and> ob_price b = Some p \<and> ob_price ob = Some q \<and> is_finite x
       \<and> x = f64_div (f64_sub (price_get q) (price_get p)) (price_get p))"
proof -
  obtain u y where order: "price_validate_order s (ob_arrival_millis ob) = Ok u"
    and y: "price_change (price_ready rule s ob) (ob_arrival_millis ob) rule = Ok (Some y)"
    and adv: "price_advance (price_ready rule s ob) (ob_arrival_millis ob) rule y = (s', Ok out)"
    using p by (auto simp: price_process_unfold split: rres.splits option.splits if_splits)
  have "y = x \<and> ps_rule_state s = Armed \<and> ps_rule_state s' = rule_state.Triggered
     \<and> ps_triggered_at s' = Some (ob_arrival_millis ob) \<and> f64_ge x (pr_trigger_ratio rule)"
    using adv p(2) by (auto simp: price_advance_def price_outcome_def Let_def
        split: rule_state.splits if_splits option.splits)
  then show ?thesis using price_change_eq [OF inv w order] y by blast
qed

theorem price_triggered_witness:
  "\<exists>b. is_boundary 2000 500
      (ps_window (price_rule.run sample_price_rule 8 instrument_state_new (take 2 sample_run))) b"
proof -
  let ?s = "price_rule.run sample_price_rule 8 instrument_state_new (take 2 sample_run)"
  let ?ob = "sample_observation 3000 lit_eleven"
  have inv: "price_inv 8 ?s"
    using price_rule.run_inv [of 8 instrument_state_new "take 2 sample_run"] sample_admitted(1)
    by (simp add: price_inv_new sample_run_def)
  have "snd (price_process sample_price_rule 8 ?s ?ob)
      = Ok \<lparr>po_state = rule_state.Triggered, po_transition = Some (monitor_transition.Triggered lit_tenth)\<rparr>"
    by (simp add: price_run_simps sample_run_simps cong: run_congs split del: if_split)
  then have p: "price_process sample_price_rule 8 ?s ?ob = (fst (price_process sample_price_rule 8 ?s ?ob),
      Ok \<lparr>po_state = rule_state.Triggered, po_transition = Some (monitor_transition.Triggered lit_tenth)\<rparr>)"
    by (metis prod.collapse)
  have "0 < pr_window_millis sample_price_rule" by (simp add: sample_price_rule_def)
  from price_triggered [OF inv this p, of lit_tenth] show ?thesis
    by (auto simp: sample_price_rule_def sample_observation_def)
qed

text \<open>A price observation is refused with an error in three ways: a repeated or earlier
  arrival, which leaves the state as it was, and a full window or an overflowing change, after
  which the state restarts from the observation.\<close>

lemma price_errors:
  assumes inv: "price_inv c s" and ob: "price_admits ob" and p: "price_process rule c s ob = (s', Err e)"
  shows "(\<exists>t. ps_last_arrival s = Some t \<and> s' = s
       \<and> (ob_arrival_millis ob = t \<and> e = DuplicateObservation t
          \<or> ob_arrival_millis ob < t \<and> e = OutOfOrderObservation t (ob_arrival_millis ob)))
     \<or> (e = WindowOverflow c \<or> e = PriceChangeOverflow) \<and> s' = price_reset_and_seed s ob"
proof (cases "price_validate_order s (ob_arrival_millis ob)")
  case (Err e')
  then show ?thesis using p
    by (auto simp: price_process_unfold price_validate_order_def split: option.splits if_splits)
next
  case (Panic q)
  then show ?thesis by (auto simp: price_validate_order_def split: option.splits if_splits)
next
  case order: (Ok u)
  show ?thesis
  proof (cases "unat c \<le> length (ps_window (price_prune_for s (ob_arrival_millis ob) (pr_window_millis rule)))")
    case True
    then show ?thesis using p order by (auto simp: price_process_unfold split: option.splits)
  next
    case False
    then have ready: "price_inv c (price_ready rule s ob)"
      using inv order ob by (intro price_inv_ready) auto
    then have tot: "\<forall>p\<in>set (ps_window (price_ready rule s ob)). ob_price p \<noteq> None"
      by (simp add: price_inv_def)
    have "snd (price_advance (price_ready rule s ob) t rule x) \<noteq> Err e" for t x
      using ready by (auto simp: price_advance_def price_outcome_def price_inv_def Let_def
          split: rule_state.splits option.splits)
    then show ?thesis
      using p order False price_change_total [OF tot, of "ob_arrival_millis ob" rule]
      by (auto simp: price_process_unfold split: option.splits if_splits rres.splits)
        (metis snd_conv)+
  qed
qed

theorem price_errors_witness:
  "\<exists>t. ps_last_arrival (price_rule.run sample_price_rule 8 instrument_state_new (take 2 sample_run)) = Some t
     \<and> t = 2000"
proof -
  let ?s = "price_rule.run sample_price_rule 8 instrument_state_new (take 2 sample_run)"
  let ?ob = "sample_observation 2000 lit_ten"
  have inv: "price_inv 8 ?s"
    using price_rule.run_inv [of 8 instrument_state_new "take 2 sample_run"] sample_admitted(1)
    by (simp add: price_inv_new sample_run_def)
  have ob: "price_admits ?ob" by (simp add: price_admits_def sample_observation_ok) (simp add: sample_observation_def)
  have "price_process sample_price_rule 8 ?s ?ob = (?s, Err (DuplicateObservation 2000))"
    by (simp add: price_run_simps sample_run_simps cong: run_congs split del: if_split)
  from price_errors [OF inv ob this] show ?thesis by auto
qed

section \<open>The cumulative-delta monitors\<close>

text \<open>C12: Whatever admitted observations a cumulative-delta state is fed, its results read as
  a path of the same abstract rule machine; the window invariant is kept and no call panics.\<close>

theorem delta_run_refines:
  assumes "2 \<le> unat c" "delta_inv family c s" "list_all (delta_admits family) obs"
  shows "rule_path (delta_params rule) (delta_position s) (delta_rules.labels rule family c s obs)
       (delta_position (delta_rules.run rule family c s obs))
     \<and> delta_inv family c (delta_rules.run rule family c s obs)
     \<and> list_all no_panic (delta_rules.results rule family c s obs)"
  using delta_rules.run_refines [of c family s obs rule] delta_rules.run_inv [of c family s obs rule]
    delta_rules.run_no_panic [of c family s obs rule] assms by simp

theorem delta_run_refines_witness:
  "rule_path (delta_params sample_delta_rule) (WarmingUp, None)
     (delta_rules.labels sample_delta_rule Amount 8 delta_state_new sample_run)
     (delta_position (delta_rules.run sample_delta_rule Amount 8 delta_state_new sample_run))"
  using delta_run_refines [of 8 Amount delta_state_new sample_run sample_delta_rule]
  by (simp add: delta_inv_new sample_admitted) (simp add: delta_position_def delta_state_new_def)

text \<open>C13: Between two triggers of a cumulative-delta state the rule was reset, or it was
  rearmed by a growth at or below the rearm delta, no earlier than the cooldown after the first
  trigger.\<close>

theorem delta_triggers_separated:
  assumes "2 \<le> unat c" "delta_inv family c s" "list_all (delta_admits family) obs"
    and "delta_rules.labels rule family c s obs = xs @ (t1, Trigger x) # ys @ (t2, Trigger y) # zs"
  shows "Restart \<in> snd ` set ys \<or>
    (\<exists>t z. (t, Rearm z) \<in> set ys \<and> t1 \<le> t \<and> dr_cooldown_millis rule \<le> t - t1
       \<and> f64_le z (dr_rearm_delta rule))"
  using delta_rules.between_triggers [of c family s obs rule xs t1 x ys t2 y zs] assms
  by (simp add: delta_params_def)

theorem delta_triggers_separated_witness:
  "Restart \<in> snd ` set [(4000 :: u64, Cool), (5000, Rearm (F64 0))] \<or>
    (\<exists>t z. (t, Rearm z) \<in> set [(4000, Cool), (5000, Rearm (F64 0))] \<and> 3000 \<le> t
       \<and> dr_cooldown_millis sample_delta_rule \<le> t - 3000 \<and> f64_le z (dr_rearm_delta sample_delta_rule))"
  by (rule delta_triggers_separated [of 8 Amount delta_state_new sample_run sample_delta_rule
        "[(1000, Stay), (2000, Warm)]" 3000 lit_one "[(4000, Cool), (5000, Rearm (F64 0))]"
        6000 lit_eleven "[]"])
     (simp_all add: delta_inv_new sample_admitted sample_delta_labels)

text \<open>A cumulative-delta observation that triggers found the rule armed. The reported
  delta is finite, at least the trigger delta, and is the growth from the latest window point
  at or before the cutoff, within the tolerance; the retained evidence is that point and the
  observation.\<close>

lemma delta_triggered:
  assumes inv: "delta_inv family c s" and ob: "delta_admits family ob" and w: "0 < dr_window_millis rule"
    and p: "delta_process rule family c s ob = (s', Ok out)" "do_transition out = Some (delta_transition.Triggered x)"
  shows "ds_rule_state s = Armed \<and> ds_rule_state s' = rule_state.Triggered
     \<and> ds_triggered_at s' = Some (ob_arrival_millis ob) \<and> f64_ge x (dr_trigger_delta rule)
     \<and> (\<exists>b. dr_window_millis rule \<le> ob_arrival_millis ob
       \<and> is_boundary (ob_arrival_millis ob - dr_window_millis rule)
            (dr_boundary_tolerance_millis rule) (ds_window s) b
       \<and> is_finite x \<and> x = f64_sub (cumulative_value family ob) (cumulative_value family b)
       \<and> do_evidence out = Some (window_evidence_new b ob))"
proof -
  obtain y where order: "delta_validate_order s (ob_arrival_millis ob) = Ok ()"
    and y: "delta_measure (delta_ready rule family s ob) (ob_arrival_millis ob) rule family = Ok (Some y)"
    and adv: "delta_advance (delta_ready rule family s ob) (ob_arrival_millis ob) rule y = (s', Ok out)"
    using delta_advanced [OF ob p(1) disjI1 [OF p(2)]] by blast
  have "y = x \<and> ds_rule_state s = Armed \<and> ds_rule_state s' = rule_state.Triggered
     \<and> ds_triggered_at s' = Some (ob_arrival_millis ob) \<and> f64_ge x (dr_trigger_delta rule)
     \<and> do_evidence out = Some (window_evidence_new (hd (ds_window (delta_ready rule family s ob))) ob)"
    using adv p(2) by (auto simp: delta_advance_def delta_outcome_evidence Let_def
        split: rule_state.splits if_splits option.splits)
  then show ?thesis using delta_measured [OF inv ob w order] y by blast
qed

theorem delta_triggered_witness:
  "\<exists>b. is_boundary 2000 500
      (ds_window (delta_rules.run sample_delta_rule Amount 8 delta_state_new (take 2 sample_run))) b"
proof -
  let ?s = "delta_rules.run sample_delta_rule Amount 8 delta_state_new (take 2 sample_run)"
  let ?ob = "sample_observation 3000 lit_eleven"
  have inv: "delta_inv Amount 8 ?s"
    using delta_rules.run_inv [of 8 Amount delta_state_new "take 2 sample_run"] sample_admitted(2)
    by (simp add: delta_inv_new sample_run_def)
  have ob: "delta_admits Amount ?ob" using sample_admitted(2) by (simp add: sample_run_def)
  have "\<exists>out. snd (delta_process sample_delta_rule Amount 8 ?s ?ob) = Ok out
      \<and> do_transition out = Some (delta_transition.Triggered lit_one)"
    by (simp add: delta_run_simps sample_run_simps cong: run_congs split del: if_split)
  then obtain out where p: "delta_process sample_delta_rule Amount 8 ?s ?ob
      = (fst (delta_process sample_delta_rule Amount 8 ?s ?ob), Ok out)"
    and tr: "do_transition out = Some (delta_transition.Triggered lit_one)"
    by (metis prod.collapse)
  have "0 < dr_window_millis sample_delta_rule" by (simp add: sample_delta_rule_def)
  from delta_triggered [OF inv ob this p tr] show ?thesis
    by (auto simp: sample_delta_rule_def sample_observation_def)
qed

text \<open>A cumulative-delta observation is refused in two ways only: a repeated or earlier
  arrival, which leaves the state as it was, and a full window, after which the state restarts
  from the observation. The overflow error of the code is unreachable.\<close>

lemma delta_errors:
  assumes inv: "delta_inv family c s" and ob: "delta_admits family ob"
    and p: "delta_process rule family c s ob = (s', Err e)"
  shows "(\<exists>t. ds_last_arrival s = Some t \<and> s' = s
       \<and> (ob_arrival_millis ob = t \<and> e = DuplicateObservation t
          \<or> ob_arrival_millis ob < t \<and> e = OutOfOrderObservation t (ob_arrival_millis ob)))
     \<or> e = WindowOverflow c \<and> s' = delta_restarted family s ob"
proof (cases "delta_validate_order s (ob_arrival_millis ob)")
  case (Err e')
  then show ?thesis using p
    by (auto simp: delta_process_unfold [OF ob] delta_validate_order_def split: option.splits if_splits)
next
  case (Panic q)
  then show ?thesis by (auto simp: delta_validate_order_def split: option.splits if_splits)
next
  case order: (Ok u)
  have "\<exists>rr. delta_reset_reason s ob family = Ok rr"
    using cumulative_admitted(1) [OF ob] by (simp add: delta_reset_reason_def)
  then obtain rr where rr: "delta_reset_reason s ob family = Ok rr" by blast
  show ?thesis
  proof (cases "unat c \<le> length (ds_window (delta_prune_for s (ob_arrival_millis ob) (dr_window_millis rule)))")
    case True
    then show ?thesis using p order rr
      by (auto simp: delta_process_unfold [OF ob] split: option.splits)
  next
    case False
    show ?thesis
    proof (cases rr)
      case (Some r)
      then show ?thesis using p order rr by (simp add: delta_process_unfold [OF ob])
    next
      case None
      then have ready: "delta_inv family c (delta_ready rule family s ob)"
        using inv order ob False rr by (intro delta_inv_ready) auto
      have adv: "snd (delta_advance (delta_ready rule family s ob) t rule x) \<noteq> Err e" for t x
        using ready by (auto simp: delta_advance_def delta_outcome_evidence delta_inv_def Let_def
            split: rule_state.splits option.splits)
      obtain m where "delta_measure (delta_ready rule family s ob) (ob_arrival_millis ob) rule family = Ok m"
        using delta_measure_total [OF ready] by blast
      then have "(case m of None \<Rightarrow> False | Some x \<Rightarrow>
          delta_advance (delta_ready rule family s ob) (ob_arrival_millis ob) rule x = (s', Err e))"
        using p order False rr None
        by (simp add: delta_process_unfold [OF ob] split: option.splits if_splits)
      then show ?thesis using adv by (auto split: option.splits) (metis snd_conv)+
    qed
  qed
qed

theorem delta_errors_witness:
  "ds_last_arrival (delta_rules.run sample_delta_rule Amount 8 delta_state_new (take 2 sample_run))
     = Some 2000"
proof -
  let ?s = "delta_rules.run sample_delta_rule Amount 8 delta_state_new (take 2 sample_run)"
  let ?ob = "sample_observation 2000 lit_ten"
  have inv: "delta_inv Amount 8 ?s"
    using delta_rules.run_inv [of 8 Amount delta_state_new "take 2 sample_run"] sample_admitted(2)
    by (simp add: delta_inv_new sample_run_def)
  have ob: "delta_admits Amount ?ob" using sample_admitted(2) by (simp add: sample_run_def)
  have "delta_process sample_delta_rule Amount 8 ?s ?ob = (?s, Err (DuplicateObservation 2000))"
    by (simp add: delta_run_simps sample_run_simps cong: run_congs split del: if_split)
  from delta_errors [OF inv ob this] show ?thesis by auto
qed

text \<open>The typed amount and volume monitors never panic: every delta their machine reports
  passes the validation that rebuilds it as a money or a quantity.\<close>

theorem typed_monitors_total:
  assumes "delta_keyed.monitor_inv (amount_inner m)" "delta_keyed.monitor_inv (volume_inner v)"
    and "observation_ok ob"
  shows "no_panic (snd (amount_monitor_process m ob)) \<and> no_panic (snd (volume_monitor_process v ob))
     \<and> no_panic (snd (amount_monitor_inject_reset m i g)) \<and> no_panic (snd (volume_monitor_inject_reset v i g))"
  using assms by (simp add: amount_process_total volume_process_total inject_reset_total)

theorem typed_monitors_total_witness:
  "no_panic (snd (amount_monitor_process
     (amount_monitor_new \<lparr>max_instruments = 3, window_capacity = 8\<rparr> (AmountSpikeRule sample_delta_rule))
     (sample_observation 1000 lit_ten)))"
proof -
  let ?l = "\<lparr>max_instruments = 3, window_capacity = 8\<rparr>"
  have "delta_keyed.monitor_inv (delta_monitor_new ?l sample_delta_rule f)" for f
    by (simp add: delta_keyed.monitor_inv_def delta_monitor_new_def delta_cfg_def)
  then show ?thesis
    using typed_monitors_total [of "amount_monitor_new ?l (AmountSpikeRule sample_delta_rule)"
        "volume_monitor_new ?l \<lparr>vr_rule = sample_delta_rule, vr_unit = Lot\<rparr>" "sample_observation 1000 lit_ten"]
    by (simp add: amount_monitor_new_def volume_monitor_new_def sample_observation_ok)
qed

section \<open>Many instruments\<close>

definition sample_limits :: monitor_limits where
  "sample_limits = \<lparr>max_instruments = 3, window_capacity = 8\<rparr>"

text \<open>What the price monitor holds for an instrument after any interleaving of
  observations and injected resets is what the inputs of that instrument alone produce.\<close>

theorem price_instruments_independent:
  assumes "Mapping.lookup (pm_instruments m) i = Some s"
  shows "Mapping.lookup (pm_instruments (price_keyed.feeds xs m)) i
       = Mapping.lookup (pm_instruments (price_keyed.feeds (filter (price_keyed.concerns i) xs) m)) i"
  using price_keyed.feeds_independent [OF assms] .

theorem price_instruments_independent_witness:
  "Mapping.lookup (pm_instruments (price_keyed.feeds [InjectReset sample_instrument SignalMiddayBreak]
      \<lparr>pm_limits = sample_limits, pm_rule = sample_price_rule,
       pm_instruments = Mapping.update sample_instrument instrument_state_new Mapping.empty\<rparr>)) sample_instrument
   = Mapping.lookup (pm_instruments (price_keyed.feeds
      [InjectReset sample_instrument SignalMiddayBreak,
       Observe (sample_observation 1000 lit_ten\<lparr>ob_instrument := sample_instrument\<lparr>ii_code := ''600001''\<rparr>\<rparr>)]
      \<lparr>pm_limits = sample_limits, pm_rule = sample_price_rule,
       pm_instruments = Mapping.update sample_instrument instrument_state_new Mapping.empty\<rparr>)) sample_instrument"
proof -
  let ?m = "\<lparr>pm_limits = sample_limits, pm_rule = sample_price_rule,
       pm_instruments = Mapping.update sample_instrument instrument_state_new Mapping.empty\<rparr>"
  have "Mapping.lookup (pm_instruments ?m) sample_instrument = Some instrument_state_new"
    by (simp add: lookup_update')
  from price_instruments_independent [OF this, of "[InjectReset sample_instrument SignalMiddayBreak,
       Observe (sample_observation 1000 lit_ten\<lparr>ob_instrument := sample_instrument\<lparr>ii_code := ''600001''\<rparr>\<rparr>)]"]
  show ?thesis by (simp add: price_keyed.concerns_def sample_instrument_def)
qed

text \<open>The amount and volume monitors isolate instruments in the same way.\<close>

theorem delta_instruments_independent:
  assumes "Mapping.lookup (dm_instruments m) i = Some s"
  shows "Mapping.lookup (dm_instruments (delta_keyed.feeds xs m)) i
       = Mapping.lookup (dm_instruments (delta_keyed.feeds (filter (delta_keyed.concerns i) xs) m)) i"
  using delta_keyed.feeds_independent [OF assms] .

theorem delta_instruments_independent_witness:
  "Mapping.lookup (dm_instruments (delta_keyed.feeds [Observe (sample_observation 1000 lit_ten)]
      (delta_monitor_new sample_limits sample_delta_rule Amount
         \<lparr>dm_instruments := Mapping.update sample_instrument delta_state_new Mapping.empty\<rparr>))) sample_instrument
   = Mapping.lookup (dm_instruments (delta_keyed.feeds
      [InjectReset (sample_instrument\<lparr>ii_code := ''600001''\<rparr>) SignalMiddayBreak,
       Observe (sample_observation 1000 lit_ten)]
      (delta_monitor_new sample_limits sample_delta_rule Amount
         \<lparr>dm_instruments := Mapping.update sample_instrument delta_state_new Mapping.empty\<rparr>))) sample_instrument"
proof -
  let ?m = "delta_monitor_new sample_limits sample_delta_rule Amount
         \<lparr>dm_instruments := Mapping.update sample_instrument delta_state_new Mapping.empty\<rparr>"
  have "Mapping.lookup (dm_instruments ?m) sample_instrument = Some delta_state_new"
    by (simp add: lookup_update')
  from delta_instruments_independent [OF this, of "[InjectReset (sample_instrument\<lparr>ii_code := ''600001''\<rparr>)
      SignalMiddayBreak, Observe (sample_observation 1000 lit_ten)]"]
  show ?thesis by (simp add: delta_keyed.concerns_def sample_instrument_def sample_observation_def)
qed

text \<open>No input makes the monitors track more instruments than their limit, or a window
  outgrow its capacity: the invariant of every entry survives any run of valid inputs.\<close>

theorem monitors_bounded:
  assumes "price_keyed.monitor_inv m" "delta_keyed.monitor_inv d"
    and "list_all price_keyed.input_ok xs" "list_all delta_keyed.input_ok ys"
  shows "Mapping.size (pm_instruments (price_keyed.feeds xs m)) \<le> unat (max_instruments (pm_limits (price_keyed.feeds xs m)))
     \<and> Mapping.size (dm_instruments (delta_keyed.feeds ys d)) \<le> unat (max_instruments (dm_limits (delta_keyed.feeds ys d)))
     \<and> (\<forall>i n. price_monitor_window_len (price_keyed.feeds xs m) i = Some n
          \<longrightarrow> n \<le> unat (window_capacity (pm_limits (price_keyed.feeds xs m))))
     \<and> (\<forall>i n. delta_monitor_window_len (delta_keyed.feeds ys d) i = Some n
          \<longrightarrow> n \<le> unat (window_capacity (dm_limits (delta_keyed.feeds ys d))))"
proof -
  note p = price_keyed.feeds_inv [OF assms(1,3)] and q = delta_keyed.feeds_inv [OF assms(2,4)]
  have "n \<le> unat (window_capacity (pm_limits (price_keyed.feeds xs m)))"
    if "price_monitor_window_len (price_keyed.feeds xs m) i = Some n" for i n
    using p that unfolding price_keyed.monitor_inv_def
    by (force simp: price_monitor_window_len_def price_inv_def price_cfg_def)
  moreover have "n \<le> unat (window_capacity (dm_limits (delta_keyed.feeds ys d)))"
    if "delta_monitor_window_len (delta_keyed.feeds ys d) i = Some n" for i n
    using q that unfolding delta_keyed.monitor_inv_def
    by (force simp: delta_monitor_window_len_def delta_inv_def delta_cfg_def)
  ultimately show ?thesis
    using p q unfolding price_keyed.monitor_inv_def delta_keyed.monitor_inv_def by blast
qed

theorem monitors_bounded_witness:
  "Mapping.size (pm_instruments (price_keyed.feeds (map Observe sample_run)
      (price_monitor_new sample_limits sample_price_rule))) \<le> unat (max_instruments (pm_limits
      (price_keyed.feeds (map Observe sample_run) (price_monitor_new sample_limits sample_price_rule))))"
proof -
  have "price_keyed.monitor_inv (price_monitor_new sample_limits sample_price_rule)"
    by (simp add: price_keyed.monitor_inv_def price_monitor_new_def price_cfg_def sample_limits_def)
  moreover have "delta_keyed.monitor_inv (delta_monitor_new sample_limits sample_delta_rule Amount)"
    by (simp add: delta_keyed.monitor_inv_def delta_monitor_new_def delta_cfg_def sample_limits_def)
  moreover have "list_all price_keyed.input_ok (map Observe sample_run)"
    using sample_admitted(1) by (auto simp: list_all_iff price_keyed.input_ok_def price_admits_def)
  moreover have "list_all delta_keyed.input_ok []" by simp
  ultimately show ?thesis by (rule monitors_bounded [THEN conjunct1])
qed

section \<open>Windows\<close>

text \<open>Pruning a window keeps exactly the latest point at or before the cutoff and every
  later point; a window with no such point is kept whole.\<close>

theorem pruning_keeps_boundary:
  assumes "arrivals_increase w"
  shows "drop_expired c w =
     (case filter (\<lambda>p. ob_arrival_millis p \<le> c) w of
        [] \<Rightarrow> w
      | es \<Rightarrow> List.last es # filter (\<lambda>p. c < ob_arrival_millis p) w)"
  using drop_expired_spec [OF assms] .

theorem pruning_keeps_boundary_witness:
  "map ob_arrival_millis (drop_expired 3500 sample_run) = [3000, 4000, 5000, 6000]"
proof -
  have "arrivals_increase sample_run"
    by (simp add: arrivals_increase_def sample_run_def sample_observation_def)
  from pruning_keeps_boundary [OF this, of 3500] show ?thesis
    by (simp add: sample_run_def sample_observation_def word_le_nat_alt word_less_nat_alt)
qed

section \<open>Rule identities\<close>

text \<open>Two price rules have the same identity exactly when policy and version agree, unless
  the digest collides on their encodings; the same holds for the rules of the cumulative-delta
  monitors, with their family and unit.\<close>

theorem rule_identities_inject:
  assumes "price_core_identity sha r v = Ok a" "price_core_identity sha r' v' = Ok b"
    and "no_collision sha
      (preimage ''magic-market/anomaly-rule-definition/v1'' (price_rule_fields r))
      (preimage ''magic-market/anomaly-rule-definition/v1'' (price_rule_fields r'))"
    and "core_rule_identity sha n d f u = Ok a'" "core_rule_identity sha n d' f' u' = Ok b'"
    and "no_collision sha
      (preimage ''magic-market/anomaly-rule-definition/v1'' (delta_rule_fields d f u))
      (preimage ''magic-market/anomaly-rule-definition/v1'' (delta_rule_fields d' f' u'))"
  shows "(a = b \<longleftrightarrow> r = r' \<and> v = v') \<and> (a' = b' \<longleftrightarrow> d = d' \<and> f = f' \<and> u = u')"
  using price_identity_inject [OF assms(1-3)] core_rule_identity_inject [OF assms(4-6)] by (rule conjI)

theorem rule_identities_inject_witness:
  "\<exists>a b. price_core_identity (\<lambda>x. replicate 32 0) sample_price_rule 1 = Ok a
     \<and> price_core_identity (\<lambda>x. replicate 32 0) sample_price_rule 2 = Ok b \<and> a \<noteq> b"
proof -
  let ?sha = "\<lambda>x :: u8 list. replicate 32 (0 :: u8)"
  obtain a b where p: "price_core_identity ?sha sample_price_rule 1 = Ok a"
    "price_core_identity ?sha sample_price_rule 2 = Ok b"
    using price_identity_total [of ?sha] by simp
  obtain d where d: "amount_core_identity ?sha (AmountSpikeRule sample_delta_rule) = Ok d"
    using amount_identity_total [of ?sha "AmountSpikeRule sample_delta_rule"]
    by (auto simp: sample_delta_rule_def)
  note d' = d [unfolded amount_core_identity_def amount_spike_rule.sel]
  have nc: "no_collision ?sha x x" for x by (simp add: no_collision_def)
  from rule_identities_inject [OF p nc d' d' nc] p show ?thesis by auto
qed

section \<open>Events\<close>

definition sample_cursor :: "u64 \<Rightarrow> stream_cursor" where
  "sample_cursor n =
     \<lparr>sc_generation = StreamGeneration ''123e4567-e89b-42d3-a456-426614174000'',
      sc_sequence = StreamSequence n\<rparr>"

definition sample_endpoint :: "u64 \<Rightarrow> f64 \<Rightarrow> injected_observation" where
  "sample_endpoint t x = (with_stream_cursor (sample_observation t x) (sample_cursor t))
     \<lparr>ob_evidence := sample_evidence\<lparr>se_observed_at := NonEmptyText ''1767576600''\<rparr>\<rparr>"

lemma sample_endpoints:
  "endpoints_ok (sample_endpoint 2000 lit_ten) (sample_endpoint 3000 lit_eleven) (sample_cursor 4000) ''1767576600''"
  "encodable (sample_endpoint 2000 lit_ten) (sample_endpoint 3000 lit_eleven)"
proof -
  have ok: "observation_ok (sample_endpoint 2000 lit_ten)" "observation_ok (sample_endpoint 3000 lit_eleven)"
    using sample_observation_ok [of lit_ten 2000] sample_observation_ok [of lit_eleven 3000]
    by (simp_all add: sample_endpoint_def with_stream_cursor_def observation_ok_def sample_evidence_def)
  have "duration_since (EvidenceTimestamp t) (EvidenceTimestamp t) = Some 0" for t
    by (simp add: duration_since_eq_Some)
  moreover have "non_empty_text_new ''1767576600'' = Ok (NonEmptyText ''1767576600'')"
    by (rule printable_new) (simp_all add: printable_def)
  ultimately show "endpoints_ok (sample_endpoint 2000 lit_ten) (sample_endpoint 3000 lit_eleven)
      (sample_cursor 4000) ''1767576600''"
    using ok unfolding endpoints_ok_def
    by (auto simp: sample_endpoint_def with_stream_cursor_def sample_cursor_def observed_at_of_def
        sample_evidence_def sample_observation_def sample_time word_le_nat_alt)
  show "encodable (sample_endpoint 2000 lit_ten) (sample_endpoint 3000 lit_eleven)"
    by (simp add: encodable_def sample_endpoint_def with_stream_cursor_def sample_cursor_def
        observed_at_of_def batch_id_of_def source_at_of_def sample_evidence_def sample_observation_def
        sample_instrument_def)
qed

text \<open>C39: A trigger or rearm of the price monitor can always be published: when the window
  endpoints carry cursors of one generation in order and readable times in order, the event is
  built, with no error left to any digest, limit or validation on the way.\<close>

theorem price_event_published:
  assumes sha: "\<And>x. length (sha x) = 32" and v: "v \<noteq> 0"
    and ends: "endpoints_ok a b stream obs" and enc: "encodable a b"
    and p: "ob_price a = Some p" "ob_price b = Some q"
    and tr: "tr = monitor_transition.Triggered x \<or> tr = monitor_transition.Rearmed x"
  shows "\<exists>e. price_core_event sha (window_evidence_new a b) rule v tr stream k obs = Ok e"
  using price_event_total [OF sha v ends enc p tr] .

theorem price_event_published_witness:
  "\<exists>e. price_core_event (\<lambda>x. replicate 32 0)
     (window_evidence_new (sample_endpoint 2000 lit_ten) (sample_endpoint 3000 lit_eleven))
     sample_price_rule 1 (monitor_transition.Triggered lit_tenth) (sample_cursor 4000)
     \<lparr>ct_observation = Continuous, ct_source = Unknown\<rparr> ''1767576600'' = Ok e"
  by (rule price_event_published [OF _ _ sample_endpoints])
     (simp_all add: sample_endpoint_def with_stream_cursor_def sample_observation_def)

definition sample_continuity :: stream_continuity where
  "sample_continuity = \<lparr>ct_observation = Continuous, ct_source = Unknown\<rparr>"

lemma sample_event:
  "\<exists>e. price_core_event (\<lambda>x. replicate 32 0)
     (window_evidence_new (sample_endpoint 2000 lit_ten) (sample_endpoint 3000 lit_eleven))
     sample_price_rule 1 (monitor_transition.Triggered lit_tenth) (sample_cursor 4000)
     sample_continuity ''1767576600'' = Ok e"
  by (rule price_event_total [OF _ _ sample_endpoints])
     (simp_all add: sample_endpoint_def with_stream_cursor_def sample_observation_def)

text \<open>The event of a price transition says what happened: its rule is the identity of the
  monitor's rule, its digest covers the change ratio and the two prices it was computed from,
  and its terminal evidence and cursors are those of the window endpoints.\<close>

lemma price_core_event_facts:
  assumes a: "observation_ok a" and b: "observation_ok b"
    and e: "price_core_event sha (window_evidence_new a b) rule v tr stream k obs = Ok e"
  shows "\<exists>x p q. (tr = monitor_transition.Triggered x \<and> ae_transition e = anomaly_transition.Triggered
         \<or> tr = monitor_transition.Rearmed x \<and> ae_transition e = anomaly_transition.Rearmed)
     \<and> ob_price a = Some p \<and> ob_price b = Some q
     \<and> rule_input_digest_of sha (price_input_fields (window_evidence_new a b) x p q)
         = Ok (ie_rule_inputs_digest (ae_input_evidence e))
     \<and> price_core_identity sha rule v = Ok (ae_rule e)
     \<and> ae_instrument e = ob_instrument a \<and> ae_stream e = stream
     \<and> lt_first (ie_terminal (ae_input_evidence e)) = ob_evidence a
     \<and> lt_last (ie_terminal (ae_input_evidence e)) = ob_evidence b
     \<and> ob_stream_cursor a = Some (ie_first_cursor (ae_input_evidence e))
     \<and> ob_stream_cursor b = Some (ie_last_cursor (ae_input_evidence e))"
proof -
  have i: "we_instrument (window_evidence_new a b) = ob_instrument a"
    by (simp add: window_evidence_new_def)
  show ?thesis
    using e
    by (cases tr)
       (auto simp: price_core_event_def retained_bits [OF a b] res_simps i
          core_anomaly_input_evidence_eq_Ok anomaly_event_new_eq_Ok anomaly_input_evidence_eq_Ok)
qed

theorem price_core_event_facts_witness:
  "\<exists>e :: anomaly_event. ae_transition e = anomaly_transition.Triggered \<and> ae_instrument e = sample_instrument
     \<and> ob_stream_cursor (sample_endpoint 3000 lit_eleven) = Some (ie_last_cursor (ae_input_evidence e))"
proof -
  obtain e where e: "price_core_event (\<lambda>x. replicate 32 0)
     (window_evidence_new (sample_endpoint 2000 lit_ten) (sample_endpoint 3000 lit_eleven))
     sample_price_rule 1 (monitor_transition.Triggered lit_tenth) (sample_cursor 4000)
     sample_continuity ''1767576600'' = Ok e"
    using sample_event by blast
  have "observation_ok (sample_endpoint 2000 lit_ten)" "observation_ok (sample_endpoint 3000 lit_eleven)"
    using sample_endpoints(1) by (auto simp: endpoints_ok_def)
  from price_core_event_facts [OF this e]
  have "ae_transition e = anomaly_transition.Triggered \<and> ae_instrument e = sample_instrument
     \<and> ob_stream_cursor (sample_endpoint 3000 lit_eleven) = Some (ie_last_cursor (ae_input_evidence e))"
    by (auto simp: sample_endpoint_def with_stream_cursor_def sample_observation_def)
  then show ?thesis by blast
qed

end
