(* ===== verification/Core_Properties.thy ===== *)
theory Core_Properties
  imports Monitor_Properties
begin

text \<open>
  What \<open>magic-market-core\<close> promises of times, evidence and events, each property with the
  concrete input its hypotheses hold of.
\<close>

section \<open>Times\<close>

text \<open>The calendar conversions are inverse: the day number of a valid date of the years 1
  to 9999 is the one \<open>civil_from_days\<close> turns back into that date, and consecutive dates have
  consecutive day numbers.\<close>

theorem calendar_inverse:
  assumes "valid_date (y, m, d)" "1 \<le> y" "y \<le> 9999"
  shows "\<exists>n. days_from_civil y m d = Some n \<and> civil_from_days n = Ok (y, m, d)
     \<and> (next_day (y, m, d) = (y', m', d') \<longrightarrow> y' \<le> 9999 \<longrightarrow> days_from_civil y' m' d' = Some (n + 1))"
proof -
  have after: "valid_date (next_day (y, m, d)) \<and> fst (next_day (y, m, d)) \<ge> y"
    using assms by (auto simp: valid_date_def next_day_def days_in_month_def)
  then have "days_from_civil y' m' d' = Some (civil_days (y, m, d) + 1)"
    if "next_day (y, m, d) = (y', m', d')" "y' \<le> 9999"
    using that assms civil_days_next [OF assms(1)] days_from_civil_eq [of y' m' d'] by simp
  then show ?thesis
    using days_from_civil_eq [OF assms(1)] civil_from_days_eq_Ok [of "civil_days (y, m, d)" y m d] assms
    by auto
qed

theorem calendar_inverse_witness:
  "\<exists>n. days_from_civil 2024 2 29 = Some n \<and> civil_from_days n = Ok (2024, 2, 29)
     \<and> days_from_civil 2024 3 1 = Some (n + 1)"
proof -
  have "valid_date (2024, 2, 29)" by (simp add: valid_date_def days_in_month_def)
  from calendar_inverse [OF this, of 2024 3 1] show ?thesis
    by (simp add: next_day_def days_in_month_def)
qed

text \<open>The fields of a second of the day.\<close>

lemma clock_parts: "x div 3600 * 3600 + x mod 3600 div 60 * 60 + x mod 60 = x" for x :: int
proof -
  have "x mod 3600 mod 60 = x mod 60" by (simp add: mod_mod_cancel)
  moreover have "x mod 3600 div 60 * 60 + x mod 3600 mod 60 = x mod 3600" by (rule div_mult_mod_eq)
  moreover have "x div 3600 * 3600 + x mod 3600 = x" by (rule div_mult_mod_eq)
  ultimately show ?thesis by (simp only: add.assoc)
qed

lemma clock_ranges:
  fixes r :: int
  assumes "0 \<le> r" "r < 86400"
  shows "0 \<le> r div 3600" "r div 3600 \<le> 23" "0 \<le> r mod 3600 div 60" "r mod 3600 div 60 \<le> 59"
    "0 \<le> r mod 60" "r mod 60 \<le> 59"
  using assms by linarith+

text \<open>C37: Every timestamp the printer produces is an unambiguous instant the parser reads back
  as the same number of nanoseconds.\<close>

lemma rfc3339_parse_print:
  assumes "unix_seconds_to_fixed_offset_rfc3339 seconds offset = Ok tx"
  shows "parse_instant tx = Ok (EvidenceTimestamp (seconds * 1000000000))"
proof -
  define local where "local = seconds + offset"
  from assms obtain y m d where off: "offset mod 60 = 0" "- 86340 \<le> offset" "offset \<le> 86340"
    and civil: "civil_from_days (local div 86400) = Ok (y, m, d)"
    and tx: "tx = rfc3339_text y m d (local mod 86400 div 3600) (local mod 86400 mod 3600 div 60)
      (local mod 86400 mod 60) (if offset < 0 then ''-'' else ''+'')
      (\<bar>offset\<bar> div 3600) (\<bar>offset\<bar> mod 3600 div 60)"
    by (auto simp: unix_seconds_to_fixed_offset_rfc3339_def res_simps Let_def local_def
        rfc3339_text_def split: if_splits dest!: fit_i64_bound)
  note date = civil [unfolded civil_from_days_eq_Ok]
  define r where "r = local mod 86400"
  have r: "0 \<le> r" "r < 86400" by (simp_all add: r_def)
  define w where "w = \<bar>offset\<bar>"
  have w: "0 \<le> w" "w \<le> 86340" "w mod 60 = 0" using off by (auto simp: w_def abs_if)
  define c where "c = (if offset < 0 then CHR ''-'' else CHR ''+'')"
  have w': "w < 86400" using w(2) by linarith
  note parts = clock_ranges [OF r] clock_ranges(1-4) [OF w(1) w']
  have whole: "r div 3600 * 3600 + r mod 3600 div 60 * 60 + r mod 60 = r"
    "w div 3600 * 3600 + w mod 3600 div 60 * 60 = w"
    using clock_parts [of r] clock_parts [of w] w(3) by (simp_all only: add_0_right)
  have sign: "(if offset < 0 then ''-'' else ''+'') = [c]" "c = CHR ''+'' \<or> c = CHR ''-''"
    by (simp_all add: c_def)
  have bound: "\<bar>civil_days (y, m, d)\<bar> \<le> 4000000" using date by (intro civil_days_bound) auto
  note parse = parse_rfc3339_text [OF _ _ _ parts sign bound, folded r_def w_def]
  have day: "civil_days (y, m, d) * 86400 + r = local"
  proof -
    have "civil_days (y, m, d) = local div 86400" using date by simp
    then show ?thesis by (simp only: r_def div_mult_mod_eq)
  qed
  have total: "civil_days (y, m, d) * 86400 + h + i + s = local" if "h + i + s = r" for h i s
    using that day by simp
  have "local - (if c = CHR ''-'' then - w else w) = seconds"
    by (simp add: c_def w_def local_def)
  then have secs: "civil_days (y, m, d) * 86400 + r div 3600 * 3600 + r mod 3600 div 60 * 60 + r mod 60
      - (if c = CHR ''-'' then - (w div 3600 * 3600 + w mod 3600 div 60 * 60)
         else w div 3600 * 3600 + w mod 3600 div 60 * 60) = seconds"
    by (simp only: whole(2) total [OF whole(1)])
  have p: "valid_date (y, m, d)" "0 \<le> y" "y \<le> 9999" using date by auto
  have "parse_evidence_time tx = Some (seconds * 1000000000)"
    unfolding tx r_def [symmetric] w_def [symmetric] using parse(1) [OF p] by (simp only: secs)
  moreover have "is_unambiguous_instant tx"
    unfolding tx r_def [symmetric] w_def [symmetric] by (rule parse(2) [OF p])
  ultimately show ?thesis
    by (simp only: parse_instant_def evidence_timestamp_parse_def ok_or_def option.map option.case
        rbind.simps if_True)
qed

text \<open>A clock time parses exactly when it is the canonical display of a second of the day,
  and the parsed value is that second.\<close>

lemma clock_parse_eq_Ok:
  "clock_time_parse s = Ok t \<longleftrightarrow> seconds_since_midnight t < 86400 \<and> s = clock_display t"
proof
  assume ok: "clock_time_parse s = Ok t"
  then have "length s = 8" by (simp add: clock_time_parse_def split: if_splits)
  then obtain a b c d e f g h where s: "s = [a, b, c, d, e, f, g, h]" by (rule length8)
  have digits: "is_ascii_digit a" "is_ascii_digit b" "is_ascii_digit d" "is_ascii_digit e"
    "is_ascii_digit g" "is_ascii_digit h" "c = CHR '':''" "f = CHR '':''"
    and fields: "parse_two_digits a b \<le> 23" "parse_two_digits d e \<le> 59" "parse_two_digits g h \<le> 59"
    and t: "t = ClockTime (parse_two_digits a b * 3600 + parse_two_digits d e * 60 + parse_two_digits g h)"
    using ok by (auto simp: s clock_time_parse_def Let_def upt_rec numeral_eq_Suc split: if_splits)
  note f = clock_fields [OF fields(2,3), of "parse_two_digits a b"]
  have "clock_display t = s"
    using digits unfolding clock_display_def clock_hour_def clock_minute_def clock_second_def t
      clock_time.sel f
    by (simp add: dec_pad2_digits s)
  moreover have "seconds_since_midnight t < 86400" using fields by (simp add: t)
  ultimately show "seconds_since_midnight t < 86400 \<and> s = clock_display t" by simp
next
  assume a: "seconds_since_midnight t < 86400 \<and> s = clock_display t"
  have two: "\<exists>x y. dec_pad 2 n = [x, y] \<and> is_ascii_digit x \<and> is_ascii_digit y
      \<and> parse_two_digits x y = n" if "n < 100" for n
  proof -
    have "length (dec_pad 2 n) = 2" using that by (simp add: length_dec_pad)
    then obtain x y where xy: "dec_pad 2 n = [x, y]" by (auto simp: numeral_2_eq_2 length_Suc_conv)
    moreover have "parse_dec (dec_pad 2 n) = n" "list_all is_ascii_digit (dec_pad 2 n)"
      by (simp_all add: dec_pad_digits)
    ultimately show ?thesis by (auto simp: parse_dec_def parse_two_digits_def)
  qed
  define n where "n = seconds_since_midnight t"
  have n: "n div 3600 \<le> 23" "n mod 3600 div 60 \<le> 59" "n mod 60 \<le> 59"
  proof -
    have "n < 86400" using a by (simp add: n_def)
    then show "n div 3600 \<le> 23" by linarith
    show "n mod 3600 div 60 \<le> 59" "n mod 60 \<le> 59" by linarith+
  qed
  obtain a b d e g h where p: "dec_pad 2 (n div 3600) = [a, b]" "is_ascii_digit a" "is_ascii_digit b"
    "parse_two_digits a b = n div 3600" "dec_pad 2 (n mod 3600 div 60) = [d, e]" "is_ascii_digit d"
    "is_ascii_digit e" "parse_two_digits d e = n mod 3600 div 60" "dec_pad 2 (n mod 60) = [g, h]"
    "is_ascii_digit g" "is_ascii_digit h" "parse_two_digits g h = n mod 60"
    using two [of "n div 3600"] two [of "n mod 3600 div 60"] two [of "n mod 60"] n by auto
  have s: "s = [a, b, CHR '':'', d, e, CHR '':'', g, h]"
    using a by (simp add: clock_display_def clock_hour_def clock_minute_def clock_second_def p flip: n_def)
  have whole: "n div 3600 * 3600 + n mod 3600 div 60 * 60 + n mod 60 = n"
  proof -
    have "n mod 3600 mod 60 = n mod 60" by (simp add: mod_mod_cancel)
    moreover have "n mod 3600 div 60 * 60 + n mod 3600 mod 60 = n mod 3600" by (rule div_mult_mod_eq)
    moreover have "n div 3600 * 3600 + n mod 3600 = n" by (rule div_mult_mod_eq)
    ultimately show ?thesis by (simp only: add.assoc)
  qed
  have shape: "length s = 8" "s ! 2 = CHR '':''" "s ! 5 = CHR '':''"
    "list_all (\<lambda>(index, byte). index \<in> {2, 5} \<or> is_ascii_digit byte) (zip [0..<length s] s)"
    using p(2,3,6,7,10,11) by (simp_all add: s upt_rec numeral_eq_Suc)
  have fields: "parse_two_digits (s ! 0) (s ! 1) = n div 3600"
    "parse_two_digits (s ! 3) (s ! 4) = n mod 3600 div 60" "parse_two_digits (s ! 6) (s ! 7) = n mod 60"
    by (simp_all add: s p(4,8,12))
  have t: "ClockTime n = t" by (simp add: n_def)
  have "\<not> (n div 3600 > 23 \<or> n mod 3600 div 60 > 59 \<or> n mod 60 > 59)" using n by simp
  then show "clock_time_parse s = Ok t"
    using shape by (simp only: clock_time_parse_def Let_def fields whole t) simp
qed

theorem rfc3339_parse_print_witness:
  "\<exists>tx. unix_seconds_to_fixed_offset_rfc3339 0 3600 = Ok tx
     \<and> parse_instant tx = Ok (EvidenceTimestamp 0)"
proof -
  have "valid_date (1970, 1, 1)" "civil_days (1970, 1, 1) = 0"
    by (simp_all add: valid_date_def days_in_month_def civil_days_def march_day_def)
  then have "civil_from_days 0 = Ok (1970, 1, 1)" by (simp add: civil_from_days_eq_Ok)
  then obtain tx where tx: "unix_seconds_to_fixed_offset_rfc3339 0 3600 = Ok tx"
    by (simp add: unix_seconds_to_fixed_offset_rfc3339_def fit_i64_def ok_or_def Let_def)
  from rfc3339_parse_print [OF this] tx show ?thesis by simp
qed

section \<open>Evidence\<close>

lemma text_ok_printable: "printable s \<Longrightarrow> length s \<le> 16384 \<Longrightarrow> text_ok (NonEmptyText s)"
  using printable_text [of s] by (auto simp: text_ok_def max_text_chars_def printable_def)

text \<open>Evidence that satisfies its invariant survives serialization: its wire fields
  deserialize to it; so does an instrument through its constructor.\<close>

theorem evidence_roundtrip:
  assumes "evidence_ok e" "instrument_ok i"
  shows "source_evidence_deserialize (se_provider e) (source_at_of e) (observed_at_of e) (batch_id_of e) = Ok e
     \<and> instrument_id_new (ii_exchange i) (ii_code i) (ii_asset_class i) = Ok i"
  using source_evidence_roundtrip_aux [OF assms(1)] instrument_id_roundtrip [OF assms(2)] by (rule conjI)

theorem evidence_roundtrip_witness:
  "instrument_id_new Shanghai ''600000'' Equity = Ok sample_instrument"
proof -
  have e: "evidence_ok (sample_evidence\<lparr>se_observed_at := NonEmptyText ''1767576600''\<rparr>)"
    by (simp add: evidence_ok_def sample_evidence_def text_ok_printable printable_def)
  have "printable ''600000''" by (simp add: printable_def)
  from printable_text [OF this] have i: "instrument_ok sample_instrument"
    by (simp add: instrument_ok_def sample_instrument_def max_text_chars_def del: chars_of.simps)
  from evidence_roundtrip [OF e i] show ?thesis by (simp add: sample_instrument_def)
qed

section \<open>Anomaly events\<close>

text \<open>An event the constructor built deserializes to itself.\<close>

theorem anomaly_event_new_deserialize:
  assumes "anomaly_event_new sha i r t s inp obs = Ok e"
  shows "anomaly_event_deserialize sha e = Ok e"
  using event_deserialize_aux [OF assms] .

theorem anomaly_event_new_deserialize_witness:
  "\<exists>e. anomaly_event_deserialize (\<lambda>x. replicate 32 0) e = Ok e"
proof -
  obtain i r t s inp obs e where "anomaly_event_new (\<lambda>x. replicate 32 0) i r t s inp obs = Ok e"
    using sample_event unfolding price_core_event_def by (auto simp: res_simps)
  from anomaly_event_new_deserialize [OF this] show ?thesis by blast
qed

text \<open>C34: Deserialization admits no forged event: what it accepts is the wire value itself, and
  the constructor rebuilds it from its parts.\<close>

lemma anomaly_event_deserialize_new:
  assumes w: "anomaly_event_deserialize sha w = Ok e" and ev: "evidence_ok (ae_derived_evidence w)"
  shows "e = w \<and> anomaly_event_new sha (ae_instrument w) (ae_rule w) (ae_transition w)
     (ae_stream w) (ae_input_evidence w) (observed_at_of (ae_derived_evidence w)) = Ok w"
proof -
  let ?d = "ae_derived_evidence w"
  have p: "se_provider ?d = LocalAnalysis" "se_source_at ?d = None"
    and b: "batch_id_of ?d = event_id_str (ae_event_id w)"
    and id: "validate_event_identity (ae_instrument w) (ae_stream w) (ae_input_evidence w) = Ok ()"
    and time: "validate_derived_observation_time (observed_at_of ?d) (ae_input_evidence w) = Ok ()"
    and x: "compute_anomaly_event_id sha (ae_instrument w) (ae_rule w) (ae_transition w)
        (ae_stream w) (ie_canonical_digest (ae_input_evidence w)) = Ok (ae_event_id w)"
    and v: "ae_schema_version w = event_schema_version" and e: "e = w"
    using w by (auto simp: anomaly_event_deserialize_def res_simps validate_provider_def
        source_at_of_def split: if_splits)
  have "source_evidence_new LocalAnalysis (observed_at_of ?d) (event_id_str (ae_event_id w)) = Ok ?d"
    using ev p b
    by (auto simp: source_evidence_new_def evidence_ok_def observed_at_of_def batch_id_of_def
        non_empty_text_new_str simp flip: b)
  with id time x v e show ?thesis by (auto simp: anomaly_event_new_eq_Ok)
qed

theorem anomaly_event_deserialize_new_witness:
  "\<exists>w. anomaly_event_new (\<lambda>x. replicate 32 0) (ae_instrument w) (ae_rule w) (ae_transition w)
     (ae_stream w) (ae_input_evidence w) (observed_at_of (ae_derived_evidence w)) = Ok w"
proof -
  let ?sha = "\<lambda>x :: u8 list. replicate 32 (0 :: u8)"
  obtain i r t s inp obs e where e: "anomaly_event_new ?sha i r t s inp obs = Ok e"
    using sample_event unfolding price_core_event_def by (auto simp: res_simps)
  then have "anomaly_event_deserialize ?sha e = Ok e" by (rule event_deserialize_aux)
  moreover have "evidence_ok (ae_derived_evidence e)"
    using e by (auto simp: anomaly_event_new_eq_Ok dest: source_evidence_new_ok)
  ultimately show ?thesis using anomaly_event_deserialize_new by blast
qed

text \<open>C35: Two events have the same identifier exactly when instrument, rule, transition, stream
  cursor and input digest agree, unless the digest collides on their encodings.\<close>

lemma anomaly_event_identity:
  assumes a: "anomaly_event_new sha i r t s inp obs = Ok a"
    and b: "anomaly_event_new sha i' r' t' s' inp' obs' = Ok b"
    and nc: "no_collision sha
      (preimage ''magic-market/anomaly-event/v1'' (anomaly_event_fields i r t s (ie_canonical_digest inp)))
      (preimage ''magic-market/anomaly-event/v1'' (anomaly_event_fields i' r' t' s' (ie_canonical_digest inp')))"
  shows "ae_event_id a = ae_event_id b \<longleftrightarrow>
     i = i' \<and> r = r' \<and> t = t' \<and> s = s' \<and> ie_canonical_digest inp = ie_canonical_digest inp'"
proof
  assume eq: "ae_event_id a = ae_event_id b"
  have "compute_anomaly_event_id sha i r t s (ie_canonical_digest inp)
      = Ok (MarketEventId (event_id_str (ae_event_id a)))"
    "compute_anomaly_event_id sha i' r' t' s' (ie_canonical_digest inp')
      = Ok (MarketEventId (event_id_str (ae_event_id a)))"
    using a b eq by (auto simp: anomaly_event_new_eq_Ok)
  then have "anomaly_event_fields i r t s (ie_canonical_digest inp)
      = anomaly_event_fields i' r' t' s' (ie_canonical_digest inp')"
    unfolding compute_anomaly_event_id_def using nc
    by (blast dest: digest_inject [where con = MarketEventId])
  then show "i = i' \<and> r = r' \<and> t = t' \<and> s = s' \<and> ie_canonical_digest inp = ie_canonical_digest inp'"
    by (rule anomaly_event_fields_inject)
qed (use a b in \<open>auto simp: anomaly_event_new_eq_Ok\<close>)

definition tail_digest :: "u8 list \<Rightarrow> u8 list" where
  "tail_digest x = take 32 (drop 44 (rev x) @ replicate 32 0)"

text \<open>An engine that reads the stream sequence of an event's encoding.\<close>

lemma tail_digest_sequence:
  assumes t: "transition_name t = ''triggered''"
    and eq: "tail_digest (preimage d (anomaly_event_fields i r t s x))
      = tail_digest (preimage d' (anomaly_event_fields i' r' t s' x'))"
  shows "sequence_get (sc_sequence s) = sequence_get (sc_sequence s')"
proof -
  define tl where "tl = length_prefixed (as_bytes ''transition'') @ length_prefixed (as_bytes ''triggered'')
      @ [255] @ u64_be (10 :: u64)"
  have len: "length tl = 44" by (simp add: tl_def length_prefixed_length)
  have seq: "\<exists>p. preimage d (anomaly_event_fields i r t s x) = p @ u64_be (sequence_get (sc_sequence s)) @ tl"
    for d i r s x
  proof -
    let ?fs = "take 8 (anomaly_event_fields i r t s x)"
    let ?n = "u64_be (of_nat (length (u64_be (sequence_get (sc_sequence s))))) :: u8 list"
    have "preimage d (anomaly_event_fields i r t s x) = (length_prefixed (as_bytes d) @ encode_fields ?fs
        @ length_prefixed (as_bytes ''stream.sequence'') @ ?n) @ u64_be (sequence_get (sc_sequence s)) @ tl"
      using t by (simp add: preimage_def encode_fields_def anomaly_event_fields_def tl_def length_prefixed_def)
    then show ?thesis by blast
  qed
  have tail: "take 8 (tail_digest (p @ u64_be n @ tl)) = rev (u64_be n)" for p and n :: u64
    by (simp add: tail_digest_def len)
  from seq [of d i r s x] seq [of d' i' r' s' x'] eq
  have "rev (u64_be (sequence_get (sc_sequence s))) = rev (u64_be (sequence_get (sc_sequence s')))"
    by (metis tail)
  then show ?thesis by simp
qed

theorem anomaly_event_identity_witness:
  "\<exists>(a :: anomaly_event) (b :: anomaly_event). ae_event_id a \<noteq> ae_event_id b \<and> ae_rule a = ae_rule b \<and> ae_instrument a = ae_instrument b"
proof -
  have sha: "length (tail_digest x) = 32" for x by (simp add: tail_digest_def)
  let ?w = "window_evidence_new (sample_endpoint 2000 lit_ten) (sample_endpoint 3000 lit_eleven)"
  have ends: "endpoints_ok (sample_endpoint 2000 lit_ten) (sample_endpoint 3000 lit_eleven)
      (sample_cursor n) ''1767576600''" for n
    using sample_endpoints(1) by (simp add: endpoints_ok_def sample_cursor_def)
  have "\<exists>e. price_core_event tail_digest ?w sample_price_rule 1 (monitor_transition.Triggered lit_tenth)
      (sample_cursor n) sample_continuity ''1767576600'' = Ok e" for n
    by (rule price_event_total [OF sha _ ends sample_endpoints(2)])
       (simp_all add: sample_endpoint_def with_stream_cursor_def sample_observation_def)
  then obtain a b where
    a: "price_core_event tail_digest ?w sample_price_rule 1 (monitor_transition.Triggered lit_tenth)
      (sample_cursor 4000) sample_continuity ''1767576600'' = Ok a"
    and b: "price_core_event tail_digest ?w sample_price_rule 1 (monitor_transition.Triggered lit_tenth)
      (sample_cursor 4001) sample_continuity ''1767576600'' = Ok b" by blast
  obtain r inp where
    "anomaly_event_new tail_digest sample_instrument r anomaly_transition.Triggered (sample_cursor 4000)
       inp ''1767576600'' = Ok a"
    "anomaly_event_new tail_digest sample_instrument r anomaly_transition.Triggered (sample_cursor 4001)
       inp ''1767576600'' = Ok b"
    using a b unfolding price_core_event_def
    by (auto simp: res_simps window_evidence_new_def sample_endpoint_def with_stream_cursor_def
        sample_observation_def)
  note ev = this
  have "no_collision tail_digest
      (preimage ''magic-market/anomaly-event/v1''
        (anomaly_event_fields sample_instrument r anomaly_transition.Triggered (sample_cursor 4000) (ie_canonical_digest inp)))
      (preimage ''magic-market/anomaly-event/v1''
        (anomaly_event_fields sample_instrument r anomaly_transition.Triggered (sample_cursor 4001) (ie_canonical_digest inp)))"
    unfolding no_collision_def using tail_digest_sequence by (force simp: sample_cursor_def)
  from anomaly_event_identity [OF ev this] have "ae_event_id a \<noteq> ae_event_id b"
    by (simp add: sample_cursor_def)
  moreover have "ae_rule a = ae_rule b \<and> ae_instrument a = ae_instrument b"
    using ev by (auto simp: anomaly_event_new_eq_Ok)
  ultimately show ?thesis by blast
qed

text \<open>Two pieces of input evidence have the same digest exactly when they are equal, unless
  the digest collides on their encodings.\<close>

lemma anomaly_input_identity:
  assumes a: "anomaly_input_evidence_new sha i t c1 c2 b k d = Ok x"
    and b: "anomaly_input_evidence_new sha i' t' c1' c2' b' k' d' = Ok y"
    and terminal: "se_provider (lt_first t) = se_provider (lt_first t')"
      "se_provider (lt_last t) = se_provider (lt_last t')"
    and nc: "no_collision sha
      (preimage ''magic-market/anomaly-input-evidence/v1'' (anomaly_input_fields i t c1 c2 b k d))
      (preimage ''magic-market/anomaly-input-evidence/v1'' (anomaly_input_fields i' t' c1' c2' b' k' d'))"
  shows "ie_canonical_digest x = ie_canonical_digest y \<longleftrightarrow> x = y"
proof
  assume eq: "ie_canonical_digest x = ie_canonical_digest y"
  have "compute_anomaly_input_digest sha i t c1 c2 b k d
      = Ok (AnomalyInputDigest (input_digest_str (ie_canonical_digest x)))"
    "compute_anomaly_input_digest sha i' t' c1' c2' b' k' d'
      = Ok (AnomalyInputDigest (input_digest_str (ie_canonical_digest x)))"
    using a b eq by (auto simp: anomaly_input_evidence_eq_Ok)
  then have "anomaly_input_fields i t c1 c2 b k d = anomaly_input_fields i' t' c1' c2' b' k' d'"
    unfolding compute_anomaly_input_digest_def using nc
    by (blast dest: digest_inject [where con = AnomalyInputDigest])
  from anomaly_input_fields_inject [OF this] show "x = y"
    using a b eq terminal by (auto simp: anomaly_input_evidence_eq_Ok)
qed simp

theorem anomaly_input_identity_witness:
  "\<exists>x y. anomaly_input_evidence_new (\<lambda>x. replicate 32 0) (ie_instrument x) (ie_terminal x)
       (ie_first_cursor x) (ie_last_cursor x) (ie_time_basis x) (ie_continuity x) (ie_rule_inputs_digest x) = Ok x
     \<and> (ie_canonical_digest x = ie_canonical_digest y \<longleftrightarrow> x = y)"
proof -
  let ?sha = "\<lambda>x :: u8 list. replicate 32 (0 :: u8)"
  obtain i t c1 c2 b k d x where x: "anomaly_input_evidence_new ?sha i t c1 c2 b k d = Ok x"
    using sample_event unfolding price_core_event_def core_anomaly_input_evidence_def
    by (auto simp: res_simps)
  have nc: "no_collision ?sha p p" for p by (simp add: no_collision_def)
  have "anomaly_input_evidence_new ?sha (ie_instrument x) (ie_terminal x) (ie_first_cursor x)
      (ie_last_cursor x) (ie_time_basis x) (ie_continuity x) (ie_rule_inputs_digest x) = Ok x"
    using x by (auto simp: anomaly_input_evidence_eq_Ok)
  then show ?thesis using anomaly_input_identity [OF x x refl refl nc] by blast
qed

text \<open>C36: A canonical digest identifies its domain and its named fields: the hasher computes the
  digest of one injective encoding, so two calls give the same digest exactly when domain and
  fields agree, unless the digest collides on the two encodings.\<close>

theorem canonical_digest_identifies:
  assumes a: "canonical_fields_digest sha d c fs = Ok x" and b: "canonical_fields_digest sha d' c' fs' = Ok y"
    and nc: "no_collision sha (preimage d fs) (preimage d' fs')"
  shows "x = hex_of (sha (preimage d fs)) \<and> (x = y \<longleftrightarrow> d = d' \<and> fs = fs')"
proof -
  have a': "x = hex_of (sha (preimage d fs))" "length (preimage d fs) \<le> max_input"
    using canonical_fields_digest_canonical [OF a] by (simp_all add: canonical_digest_eq_Ok finish_hex_fed)
  have b': "y = hex_of (sha (preimage d' fs'))" "length (preimage d' fs') \<le> max_input"
    using canonical_fields_digest_canonical [OF b] by (simp_all add: canonical_digest_eq_Ok finish_hex_fed)
  have "d = d' \<and> fs = fs'" if "x = y"
    using that a' b' nc hex_of_inject preimage_inject unfolding no_collision_def by metis
  then show ?thesis using a'(1) b'(1) by auto
qed

lemma sample_fields_digest:
  "\<exists>x. canonical_fields_digest (\<lambda>x. replicate 32 0) ''d'' ''sample'' [(''a'', [n])] = Ok x"
proof -
  have "canonical_digest (\<lambda>x. replicate 32 0) ''d'' [(''a'', [n])]
      = Ok (finish_hex (\<lambda>x. replicate 32 0) (fed (preimage ''d'' [(''a'', [n])])))"
    by (simp add: canonical_digest_eq_Ok increasing_def field_lengths)
  moreover have "validate_canonical_field_name ''a'' = Ok ()"
    by (simp add: validate_canonical_field_name_def is_name_start_def is_name_char_def utf8_width_def is_ascii_lowercase_def res_simps)
  moreover have "validated_fields [] = hasher_fields []" by (rule ext) simp
  ultimately show ?thesis
    by (simp add: canonical_fields_digest_def canonical_digest_def)
qed

theorem canonical_digest_identifies_witness:
  "\<exists>x. canonical_fields_digest (\<lambda>x. replicate 32 0) ''d'' ''sample'' [(''a'', [1])] = Ok x
     \<and> x = hex_of (replicate 32 0)"
proof -
  obtain x where x: "canonical_fields_digest (\<lambda>x. replicate 32 0) ''d'' ''sample'' [(''a'', [1])] = Ok x"
    using sample_fields_digest by blast
  have "no_collision (\<lambda>x. replicate 32 0) p p" for p by (simp add: no_collision_def)
  from canonical_digest_identifies [OF x x this] x show ?thesis by blast
qed

section \<open>Source status events\<close>

text \<open>The statuses a source may report: a recovery names a different previous generation
  and reports a gap, no other status names one; a gap status has the gap it claims; a disconnect
  or reset is not fully continuous.\<close>

lemma validate_source_status_eq_Ok:
  "validate_source_status st s g k = Ok () \<longleftrightarrow>
     (if st = Recovered then \<exists>p. g = Some p \<and> p \<noteq> sc_generation s \<and> has_gap k else g = None)
     \<and> (st = PossibleDataGap \<longrightarrow> has_gap k)
     \<and> (st = KnownDataGap \<longrightarrow> ct_observation k = KnownGap \<or> ct_source k = KnownGap)
     \<and> (st = Disconnected \<or> st = ContinuityReset \<longrightarrow>
          \<not> (ct_observation k = Continuous \<and> ct_source k = Continuous))"
  by (cases st; cases g) (auto simp: validate_source_status_def res_simps)

theorem validate_source_status_eq_Ok_witness:
  "validate_source_status Recovered (sample_cursor 7) (Some (StreamGeneration ''other''))
       \<lparr>ct_observation = KnownGap, ct_source = Unknown\<rparr> = Ok ()
     \<and> validate_source_status Recovered (sample_cursor 7) None \<lparr>ct_observation = KnownGap, ct_source = Unknown\<rparr> \<noteq> Ok ()"
  using validate_source_status_eq_Ok [of Recovered "sample_cursor 7" "Some (StreamGeneration ''other'')"
      "\<lparr>ct_observation = KnownGap, ct_source = Unknown\<rparr>"]
    validate_source_status_eq_Ok [of Recovered "sample_cursor 7" None
      "\<lparr>ct_observation = KnownGap, ct_source = Unknown\<rparr>"]
  by (simp add: has_gap_def sample_cursor_def)

text \<open>A source status event deserializes to itself, and two of them have the same
  identifier exactly when they are equal, unless the digest collides on their encodings.\<close>

theorem source_status_wire:
  assumes a: "source_status_event_new sha st i s g raw k = Ok a"
    and b: "source_status_event_new sha st' i' s' g' raw' k' = Ok b"
    and nc: "no_collision sha
      (preimage ''magic-market/source-status-event/v1''
        (source_status_fields LocalTerminal st i s g (text_str (ss_observed_at a)) k))
      (preimage ''magic-market/source-status-event/v1''
        (source_status_fields LocalTerminal st' i' s' g' (text_str (ss_observed_at b)) k'))"
  shows "source_status_event_deserialize sha a (text_str (ss_observed_at a)) = Ok a
     \<and> (ss_event_id a = ss_event_id b \<longleftrightarrow> a = b)"
  using source_status_deserialize [OF a] source_status_identity [OF a b nc] by (rule conjI)

lemma status_fields_short:
  "increasing None (map fst (source_status_fields p st i s g obs k))"
  "length obs < 2 ^ 32 \<Longrightarrow> length (generation_str (sc_generation s)) < 2 ^ 32 \<Longrightarrow>
     length (preimage ''magic-market/source-status-event/v1''
       (source_status_fields LocalTerminal st None s None obs k)) \<le> max_input"
proof -
  show "increasing None (map fst (source_status_fields p st i s g obs k))"
    by (simp add: increasing_def source_status_fields_def)
  show "length obs < 2 ^ 32 \<Longrightarrow> length (generation_str (sc_generation s)) < 2 ^ 32 \<Longrightarrow>
     length (preimage ''magic-market/source-status-event/v1''
       (source_status_fields LocalTerminal st None s None obs k)) \<le> max_input"
    using name_lengths(3) [of "ct_observation k"] name_lengths(3) [of "ct_source k"]
    by (cases st) (simp_all add: source_status_fields_def field_lengths encode_optional_text_def provider_name_def)
qed

theorem source_status_wire_witness:
  "\<exists>a. source_status_event_new (\<lambda>x. replicate 32 0) Disconnected None (sample_cursor 7) None
       ''1767576600'' sample_continuity = Ok a
     \<and> source_status_event_deserialize (\<lambda>x. replicate 32 0) a (text_str (ss_observed_at a)) = Ok a"
proof -
  let ?sha = "\<lambda>x :: u8 list. replicate 32 (0 :: u8)"
  have "non_empty_text_new ''1767576600'' = Ok (NonEmptyText ''1767576600'')"
    by (rule printable_new) (simp_all add: printable_def)
  moreover have "validate_source_status Disconnected (sample_cursor 7) None sample_continuity = Ok ()"
    by (simp add: validate_source_status_def sample_continuity_def)
  moreover have "\<exists>x. compute_source_status_event_id ?sha LocalTerminal Disconnected None (sample_cursor 7)
      None ''1767576600'' sample_continuity = Ok x"
    using status_fields_short(2) [of "''1767576600''" "sample_cursor 7" Disconnected sample_continuity]
    by (simp add: compute_source_status_event_id_def digest_eq_Ok sample_cursor_def status_fields_short(1))
  ultimately obtain a where a: "source_status_event_new ?sha Disconnected None (sample_cursor 7) None
       ''1767576600'' sample_continuity = Ok a"
    by (auto simp: source_status_event_new_def sample_time)
  have "no_collision ?sha p p" for p by (simp add: no_collision_def)
  from source_status_wire [OF a a this] a show ?thesis by blast
qed

end
