(* ===== verification/Log_Properties.thy ===== *)
theory Log_Properties
  imports Replay_Log Sample_Inputs
begin

text \<open>
  The properties of the replay log of \<open>replay.rs\<close>, each from an interpretation fact of
  \<open>Replay_Log\<close>, with a concrete log of two retained events out of three.
\<close>

definition sample_entry :: "u64 \<Rightarrow> char replay_entry" where
  "sample_entry n =
     \<lparr>re_cursor = \<lparr>sc_generation = StreamGeneration ''g'', sc_sequence = StreamSequence n\<rparr>,
      re_payload = CHR ''x'', re_encoded_len = 4\<rparr>"

definition sample_replay_limits :: replay_limits where
  "sample_replay_limits = \<lparr>max_events = 2, max_bytes = 100\<rparr>"

definition sample_log :: "char replay_log" where
  "sample_log = replay_log_new (StreamGeneration ''g'') sample_replay_limits"

lemma sample_limits_ok: "limits_ok sample_replay_limits"
  by (simp add: limits_ok_def sample_replay_limits_def)

lemmas sample_log_simps = sample_log_def sample_entry_def sample_replay_limits_def replay_log_new_def
  insert_entry_def check_sequence_def checked_next_def stream_sequence_new_def checked_add_def
  ok_or_def checked_sub_def replay_after_def replay_start_def saturating_sub_def


lemma sample_run:
  "replay.run sample_log [sample_entry 1, sample_entry 2, sample_entry 2, sample_entry 3]
     = sample_log\<lparr>rl_entries := [sample_entry 2, sample_entry 3], rl_retained_bytes := 8,
         rl_last_inserted_sequence := Some (StreamSequence 3)\<rparr>"
  by (simp add: sample_log_simps)

lemma sample_accepted:
  "replay.accepted sample_log [sample_entry 1, sample_entry 2, sample_entry 2, sample_entry 3]
     = [sample_entry 1, sample_entry 2, sample_entry 3]"
  by (simp add: sample_log_simps)

section \<open>Retention\<close>

text \<open>C26: After any run of insertions into a new log, the log holds the longest suffix of the
  accepted entries within both limits, counts its bytes exactly, and keeps its sequences
  consecutive.\<close>

lemma replay_log_retention:
  assumes lim: "limits_ok limits"
    and l_def: "l = replay.run (replay_log_new g limits) es"
    and h_def: "h = replay.accepted (replay_log_new g limits) es"
  shows "rl_entries l = retain byte_len (unat (max_events limits)) (unat (max_bytes limits)) h
    \<and> (\<forall>ys zs. h = ys @ zs \<longrightarrow> fits byte_len (unat (max_events limits)) (unat (max_bytes limits)) zs
         \<longrightarrow> length zs \<le> length (rl_entries l))
    \<and> fits byte_len (unat (max_events limits)) (unat (max_bytes limits)) (rl_entries l)
    \<and> unat (rl_retained_bytes l) = sum_list (map byte_len (rl_entries l))
    \<and> consecutive seq_of h"
proof (intro conjI allI impI)
  note inv0 = log_inv_new [OF lim, of g]
  have h: "h = replay.history (replay_log_new g limits) es"
    by (simp add: h_def replay.history_def replay_log_new_def)
  show e: "rl_entries l = retain byte_len (unat (max_events limits)) (unat (max_bytes limits)) h"
    using replay.run_entries [OF inv0, of es] by (simp add: l_def h replay_log_new_def)
  show "length zs \<le> length (rl_entries l)"
    if "h = ys @ zs" "fits byte_len (unat (max_events limits)) (unat (max_bytes limits)) zs" for ys zs
    unfolding e by (rule retain_longest [OF that])
  show "fits byte_len (unat (max_events limits)) (unat (max_bytes limits)) (rl_entries l)"
    by (simp add: e)
  show "unat (rl_retained_bytes l) = sum_list (map byte_len (rl_entries l))"
    using replay.run_inv [OF inv0, of es] by (simp add: l_def log_inv_def)
  show "consecutive seq_of h"
    unfolding h by (rule replay.history_consecutive [OF inv0])
qed

theorem replay_log_retention_witness:
  "retain byte_len 2 100 [sample_entry 1, sample_entry 2, sample_entry 3] = [sample_entry 2, sample_entry 3]"
  using replay_log_retention [OF sample_limits_ok refl refl, of "StreamGeneration ''g''"
      "[sample_entry 1, sample_entry 2, sample_entry 2, sample_entry 3]"]
  unfolding sample_log_def [symmetric] sample_run sample_accepted
  by (simp add: sample_replay_limits_def)

section \<open>Replay\<close>

text \<open>C25: A replay after a cursor that succeeds returns every entry ever accepted after that
  cursor, in order, whatever the log evicted in between.\<close>

lemma replay_without_gap:
  assumes "limits_ok limits"
    and "replay_after (replay.run (replay_log_new g limits) es) (Some c) = Ok out"
  shows "out = filter (\<lambda>e. sequence_get (sc_sequence c) < entry_seq e)
    (replay.accepted (replay_log_new g limits) es)"
  using assms by (rule replay_no_gap)

theorem replay_without_gap_witness:
  "filter (\<lambda>e. 2 < entry_seq e) [sample_entry 1, sample_entry 2, sample_entry 3] = [sample_entry 3]"
proof -
  let ?es = "[sample_entry 1, sample_entry 2, sample_entry 2, sample_entry 3]"
  have "replay_after (replay.run (replay_log_new (StreamGeneration ''g'') sample_replay_limits) ?es)
      (Some (re_cursor (sample_entry 2))) = Ok [sample_entry 3]"
    unfolding sample_log_def [symmetric] sample_run by (simp add: sample_log_simps)
  from replay_without_gap [OF sample_limits_ok this]
  show ?thesis
    unfolding sample_log_def [symmetric] sample_accepted by (simp add: sample_entry_def)
qed

text \<open>A replay of a well-formed log refuses exactly a foreign generation, a cursor whose
  successor was evicted, and a cursor past the newest entry; otherwise it returns the retained
  entries after the cursor, and all of them when no cursor is given.\<close>

lemma replay_after_outcome:
  assumes "log_inv l"
  shows "replay_after l None = Ok (rl_entries l) \<and> replay_after l (Some c) =
    (if sc_generation c \<noteq> rl_generation l then Err (ReplayUnavailable WrongGenerationRequested)
     else case (oldest_cursor l, newest_cursor l) of
       (Some old, Some new) \<Rightarrow>
         if Suc (unat (sequence_get (sc_sequence c))) < unat (sequence_get (sc_sequence old))
         then Err (ReplayUnavailable (CursorTooOld c old))
         else if sequence_get (sc_sequence new) < sequence_get (sc_sequence c)
         then Err (ReplayUnavailable (CursorAhead c new))
         else Ok (filter (\<lambda>e. sequence_get (sc_sequence c) < entry_seq e) (rl_entries l))
     | _ \<Rightarrow> Ok [])"
  using replay_after_all replay_after_eq [OF assms] by (rule conjI)

theorem replay_after_outcome_witness:
  "replay_after (sample_log\<lparr>rl_entries := [sample_entry 2, sample_entry 3], rl_retained_bytes := 8,
         rl_last_inserted_sequence := Some (StreamSequence 3)\<rparr>) (Some (re_cursor (sample_entry 4)))
     = Err (ReplayUnavailable (CursorAhead (re_cursor (sample_entry 4)) (re_cursor (sample_entry 3))))"
proof -
  have "log_inv (sample_log\<lparr>rl_entries := [sample_entry 2, sample_entry 3], rl_retained_bytes := 8,
         rl_last_inserted_sequence := Some (StreamSequence 3)\<rparr>)"
    by (simp add: log_inv_def sample_log_simps limits_ok_def fits_def)
  from replay_after_outcome [OF this, of "re_cursor (sample_entry 4)"] show ?thesis
    by (simp add: sample_log_simps oldest_cursor_def newest_cursor_def)
qed

text \<open>An insertion that is refused leaves the log unchanged, and each error is reported
  only for its own cause: generation, size, exhausted sequence, duplicate, gap or regression,
  and byte-count overflow.\<close>

lemma replay_insert_errors:
  assumes "log_inv l" and "snd (insert_entry l e) = Err err"
  shows "fst (insert_entry l e) = l \<and>
    (err = WrongGeneration \<and> sc_generation (re_cursor e) \<noteq> rl_generation l
     \<or> err = EventTooLarge (re_encoded_len e) (max_bytes (rl_limits l))
         \<and> max_bytes (rl_limits l) < re_encoded_len e
     \<or> err = SequenceOverflow \<and> entry_seq e = - 1
     \<or> (\<exists>p. rl_last_inserted_sequence l = Some p \<and> err = DuplicateSequence (entry_seq e)
         \<and> entry_seq e = sequence_get p)
     \<or> (\<exists>p. rl_last_inserted_sequence l = Some p \<and> err = OutOfOrderSequence (sequence_get p) (entry_seq e)
         \<and> seq_of e \<noteq> Suc (unat (sequence_get p)))
     \<or> err = ByteCountOverflow \<and> 2 ^ 64 \<le> unat (rl_retained_bytes l) + byte_len e)"
  using assms by (rule insert_errors)

theorem replay_insert_errors_witness:
  "fst (insert_entry (replay.run sample_log [sample_entry 1]) (sample_entry 5))
     = replay.run sample_log [sample_entry 1]"
proof -
  have inv: "log_inv (replay.run sample_log [sample_entry 1])"
    unfolding sample_log_def by (rule replay.run_inv [OF log_inv_new [OF sample_limits_ok]])
  have "snd (insert_entry (replay.run sample_log [sample_entry 1]) (sample_entry 5))
      = Err (OutOfOrderSequence 1 5)"
    by (simp add: sample_log_simps)
  from replay_insert_errors [OF inv this] show ?thesis by blast
qed

end
