(* ===== verification/Data_Batch.thy ===== *)
theory Data_Batch
  imports Evidence_Time
begin

text \<open>
  The batches providers return: \<open>provenance.rs\<close> and \<open>batch.rs\<close> of \<open>magic-market-core\<close>, and the
  trait \<open>SourcedRecord\<close> of \<open>provider.rs\<close>. The process-wide batch counter is passed as a state.
\<close>

section \<open>Provenance\<close>

record provenance =
  pv_source :: string
  pv_source_at :: "string option"
  pv_fetched_at :: string
  pv_batch_id :: "string option"

text \<open>The static \<open>NEXT_BATCH_SEQUENCE\<close> starts at 1; \<open>fetch_update\<close> returns the old value.\<close>

definition next_batch_sequence :: u64 where "next_batch_sequence = 1"

definition provenance_new ::
  "u64 \<Rightarrow> string \<Rightarrow> string \<Rightarrow> u64 \<times> (provenance, core_error) rres" where
  "provenance_new counter source fetched_at =
     sbind (counter, checked_text ''source'' source) (\<lambda>counter source.
     sbind (counter, checked_text ''fetched_at'' fetched_at) (\<lambda>counter fetched_at.
     case checked_add counter 1 of
       None \<Rightarrow> (counter, Err (invalid_request ''batch identifier sequence exhausted''))
     | Some later \<Rightarrow>
         (later, Ok \<lparr>pv_source = source, pv_source_at = None, pv_fetched_at = fetched_at,
            pv_batch_id = Some (source @ '':'' @ fetched_at @ '':'' @ dec (unat counter))\<rparr>)))"

definition provenance_with_source_at :: "provenance \<Rightarrow> string \<Rightarrow> (provenance, core_error) rres" where
  "provenance_with_source_at p v =
     rbind (checked_text ''source_at'' v) (\<lambda>t. Ok (p\<lparr>pv_source_at := Some t\<rparr>))"

definition provenance_with_batch_id :: "provenance \<Rightarrow> string \<Rightarrow> (provenance, core_error) rres" where
  "provenance_with_batch_id p v =
     rbind (checked_text ''batch_id'' v) (\<lambda>t. Ok (p\<lparr>pv_batch_id := Some t\<rparr>))"

definition provenance_deserialize ::
  "u64 \<Rightarrow> string \<Rightarrow> string option \<Rightarrow> string \<Rightarrow> string \<Rightarrow> u64 \<times> (provenance, core_error) rres" where
  "provenance_deserialize counter source source_at fetched_at batch_id =
     sbind (provenance_new counter source fetched_at) (\<lambda>counter value.
     sbind (counter, case source_at of None \<Rightarrow> Ok value
                     | Some t \<Rightarrow> provenance_with_source_at value t) (\<lambda>counter value.
     (counter, provenance_with_batch_id value batch_id)))"

section \<open>Quality\<close>

record quality_report =
  qr_complete :: bool
  qr_issues :: "string list"

fun checked_issues :: "string list \<Rightarrow> (string list, core_error) rres" where
  "checked_issues [] = Ok []"
| "checked_issues (issue # issues) =
     (let trimmed = trim issue in
      if trimmed = ''''
      then Err (InvalidValue ''quality_issue'' (Text issue) ''must not be empty'')
      else if list_ex is_control (chars_of trimmed)
      then Err (InvalidValue ''quality_issue'' (Text issue) ''must not contain control characters'')
      else rbind (checked_issues issues) (\<lambda>checked. Ok (trimmed # checked)))"

definition quality_report_new :: "string list \<Rightarrow> (quality_report, core_error) rres" where
  "quality_report_new issues =
     rbind (checked_issues issues) (\<lambda>checked.
     Ok \<lparr>qr_complete = (checked = []), qr_issues = checked\<rparr>)"

definition quality_report_default :: quality_report where
  "quality_report_default = \<lparr>qr_complete = True, qr_issues = []\<rparr>"

datatype quality_de_error = QualityCore core_error | QualityFlag string

definition quality_report_deserialize ::
  "bool \<Rightarrow> string list \<Rightarrow> (quality_report, quality_de_error) rres" where
  "quality_report_deserialize flag issues =
     rbind (map_err QualityCore (quality_report_new issues)) (\<lambda>value.
     if qr_complete value \<noteq> flag
     then Err (QualityFlag ''quality complete flag contradicts issue list'')
     else Ok value)"

section \<open>Batches\<close>

record 'r data_batch =
  db_records :: "'r list"
  db_provenance :: provenance
  db_quality :: quality_report

definition batch_strict :: "'r list \<Rightarrow> provenance \<Rightarrow> 'r data_batch" where
  "batch_strict records provenance =
     \<lparr>db_records = records, db_provenance = provenance, db_quality = quality_report_default\<rparr>"

definition batch_best_effort ::
  "'r list \<Rightarrow> provenance \<Rightarrow> string list \<Rightarrow> ('r data_batch, core_error) rres" where
  "batch_best_effort records provenance issues =
     rbind (quality_report_new issues) (\<lambda>quality.
     Ok \<lparr>db_records = records, db_provenance = provenance, db_quality = quality\<rparr>)"

text \<open>The methods of the trait \<open>SourcedRecord\<close>, passed as a dictionary.\<close>

record 'r sourced_record =
  sr_provider_id :: "'r \<Rightarrow> provider_id"
  sr_batch_id :: "'r \<Rightarrow> string"
  sr_source_at :: "'r \<Rightarrow> string option"
  sr_observed_at :: "'r \<Rightarrow> string option"
  sr_status :: "'r \<Rightarrow> data_status option"

section \<open>Facts\<close>

lemma provenance_new_eq_Ok:
  "provenance_new k source fetched_at = (k', Ok p) \<longleftrightarrow>
     checked_text ''source'' source = Ok (pv_source p)
     \<and> checked_text ''fetched_at'' fetched_at = Ok (pv_fetched_at p)
     \<and> checked_add k 1 = Some k' \<and> pv_source_at p = None
     \<and> pv_batch_id p = Some (pv_source p @ '':'' @ pv_fetched_at p @ '':'' @ dec (unat k))"
  by (cases "checked_text ''source'' source"; cases "checked_text ''fetched_at'' fetched_at";
      cases p; auto simp: provenance_new_def split: option.splits)

lemma checked_issues_eq_Ok:
  "checked_issues issues = Ok ts \<longleftrightarrow>
     ts = map trim issues \<and> (\<forall>t\<in>set issues. trim t \<noteq> '''' \<and> \<not> list_ex is_control (chars_of (trim t)))"
  by (induction issues arbitrary: ts) (auto simp: Let_def res_simps)

definition quality_ok :: "quality_report \<Rightarrow> bool" where
  "quality_ok q \<longleftrightarrow> qr_complete q = (qr_issues q = [])"

lemma quality_ok_intros:
  "quality_ok quality_report_default"
  "quality_report_new issues = Ok q \<Longrightarrow> quality_ok q"
  "quality_report_deserialize c issues = Ok q \<Longrightarrow> quality_ok q"
  by (auto simp: quality_ok_def quality_report_default_def quality_report_new_def
      quality_report_deserialize_def res_simps split: if_splits)

text \<open>The counter of a generated batch identifier is what follows its last colon.\<close>

definition batch_counter :: "provenance \<Rightarrow> nat" where
  "batch_counter p =
     parse_dec (rev (takeWhile (\<lambda>c. c \<noteq> CHR '':'') (rev (the (pv_batch_id p)))))"

lemma batch_counter_new:
  assumes new: "provenance_new k source fetched_at = (k', Ok p)"
  shows "batch_counter p = unat k" "unat k' = Suc (unat k)"
proof -
  have "\<forall>c\<in>set (rev (dec (unat k))). c \<noteq> CHR '':''"
    using dec_digits [of "unat k"] by (auto simp: list_all_iff is_ascii_digit_def)
  then have "takeWhile (\<lambda>c. c \<noteq> CHR '':'') (rev (dec (unat k)) @ CHR '':'' # rest) = rev (dec (unat k))" for rest
    by (subst takeWhile_append2) auto
  then show "batch_counter p = unat k"
    using new by (simp add: batch_counter_def provenance_new_eq_Ok)
  show "unat k' = Suc (unat k)"
    using new checked_add_unat [of k 1 k'] by (simp add: provenance_new_eq_Ok)
qed

lemma provenance_new_failed:
  "provenance_new k source fetched_at = (k', r) \<Longrightarrow> \<not> is_ok r \<Longrightarrow> k' = k"
  by (cases "checked_text ''source'' source"; cases "checked_text ''fetched_at'' fetched_at";
      auto simp: provenance_new_def split: option.splits)

fun provenances :: "u64 \<Rightarrow> (string \<times> string) list \<Rightarrow> provenance list" where
  "provenances k [] = []"
| "provenances k (x # xs) =
     (case provenance_new k (fst x) (snd x) of
        (k', Ok p) \<Rightarrow> p # provenances k' xs
      | (k', _) \<Rightarrow> provenances k' xs)"

lemma provenances_counters:
  "sorted_wrt (<) (map batch_counter (provenances k xs))
     \<and> (\<forall>p\<in>set (provenances k xs). unat k \<le> batch_counter p \<and> pv_batch_id p \<noteq> None)"
proof (induction xs arbitrary: k)
  case (Cons x xs)
  obtain k' r where n: "provenance_new k (fst x) (snd x) = (k', r)" by fastforce
  show ?case
  proof (cases r)
    case (Ok p)
    note c = batch_counter_new [OF n [unfolded Ok]]
    have "pv_batch_id p \<noteq> None" using n Ok by (auto simp: provenance_new_eq_Ok)
    then show ?thesis using n Ok c Cons.IH [of k'] by (auto simp: Suc_le_eq intro: less_imp_le)
  qed (use n provenance_new_failed [OF n] Cons.IH [of k] in auto)
qed simp

end
