(* ===== verification/Router.thy ===== *)
theory Router
  imports Data_Batch Market_Event
begin

text \<open>
  The failover router: \<open>error.rs\<close>, \<open>source.rs\<close> and \<open>router.rs\<close> of \<open>magic-market-router\<close>. A chain
  tries its sources in order, records what became of each, and selects the first batch its
  policy accepts. A source is its identifier and the function from a request to its answer.
\<close>

section \<open>Failures and sources\<close>

datatype failure_kind =
    InvalidRequest | Unsupported | Transport | Timeout | RateLimited | NoData | Protocol
  | Quality | Evidence | Provider

datatype failure_action = Stop | TryNext

record source_error =
  sx_kind :: failure_kind
  sx_action :: failure_action
  sx_message :: string

definition source_error_new :: "failure_kind \<Rightarrow> failure_action \<Rightarrow> string \<Rightarrow> source_error" where
  "source_error_new kind action message =
     \<lparr>sx_kind = kind, sx_action = action, sx_message = message\<rparr>"

definition source_error_stop :: "failure_kind \<Rightarrow> string \<Rightarrow> source_error" where
  "source_error_stop kind message = source_error_new kind Stop message"

definition source_error_try_next :: "failure_kind \<Rightarrow> string \<Rightarrow> source_error" where
  "source_error_try_next kind message = source_error_new kind TryNext message"

record ('q, 'r) routed_source =
  rs_provider_id :: provider_id
  rs_fetch :: "'q \<Rightarrow> ('r data_batch, source_error) rres"

definition source_fn_new ::
  "provider_id \<Rightarrow> ('q \<Rightarrow> ('r data_batch, source_error) rres) \<Rightarrow> ('q, 'r) routed_source" where
  "source_fn_new provider_id fetch = \<lparr>rs_provider_id = provider_id, rs_fetch = fetch\<rparr>"

section \<open>Acceptance policy\<close>

text \<open>A \<open>Duration\<close> is its nanoseconds.\<close>

record acceptance_policy =
  ap_require_complete :: bool
  ap_require_source_at :: bool
  ap_accept_complete_empty :: bool
  ap_require_available_records :: bool
  ap_max_source_age :: "nat option"

text \<open>A message is its literal parts and the texts it shows with \<open>{:?}\<close>.\<close>

datatype message_part = Lit string | DebugStr string

datatype attempt_status =
    Failed failure_kind failure_action string
  | Rejected failure_kind "message_part list"
  | Selected

record route_attempt =
  ra_provider_id :: provider_id
  ra_status :: attempt_status

datatype router_error =
    InvalidConfiguration string
  | Stopped "route_attempt list"
  | Exhausted "route_attempt list"

definition policy_new :: acceptance_policy where
  "policy_new =
     \<lparr>ap_require_complete = False, ap_require_source_at = False, ap_accept_complete_empty = False,
      ap_require_available_records = False, ap_max_source_age = None\<rparr>"

definition with_require_complete :: "acceptance_policy \<Rightarrow> bool \<Rightarrow> acceptance_policy" where
  "with_require_complete p required = p\<lparr>ap_require_complete := required\<rparr>"

definition with_require_source_at :: "acceptance_policy \<Rightarrow> bool \<Rightarrow> acceptance_policy" where
  "with_require_source_at p required =
     p\<lparr>ap_require_source_at := required \<or> ap_max_source_age p \<noteq> None\<rparr>"

definition with_max_source_age ::
  "acceptance_policy \<Rightarrow> nat \<Rightarrow> (acceptance_policy, router_error) rres" where
  "with_max_source_age p maximum =
     (if maximum = 0 then Err (InvalidConfiguration ''maximum source age must be positive'')
      else Ok (p\<lparr>ap_require_source_at := True, ap_max_source_age := Some maximum\<rparr>))"

definition with_accept_complete_empty :: "acceptance_policy \<Rightarrow> bool \<Rightarrow> acceptance_policy" where
  "with_accept_complete_empty p accepted = p\<lparr>ap_accept_complete_empty := accepted\<rparr>"

definition with_require_available_records :: "acceptance_policy \<Rightarrow> bool \<Rightarrow> acceptance_policy" where
  "with_require_available_records p required = p\<lparr>ap_require_available_records := required\<rparr>"

section \<open>Rejection of a batch\<close>

type_synonym rejection = "failure_kind \<times> message_part list"

fun join :: "string \<Rightarrow> string list \<Rightarrow> string" where
  "join sep [] = ''''"
| "join sep [s] = s"
| "join sep (s # t # ts) = s @ sep @ join sep (t # ts)"

fun status_debug :: "data_status \<Rightarrow> string" where
  "status_debug Available = ''Available''"
| "status_debug Unavailable = ''Unavailable''"
| "status_debug Stale = ''Stale''"
| "status_debug Conflicted = ''Conflicted''"
| "status_debug data_status.Unsupported = ''Unsupported''"

definition display_duration :: "nat \<Rightarrow> string" where
  "display_duration duration =
     (let secs = duration div 1000000000; nanos = duration mod 1000000000 in
      if nanos = 0 then dec secs @ ''s''
      else dec secs @ ''.'' @ rev (dropWhile (\<lambda>c. c = CHR ''0'') (rev (dec_pad 9 nanos))) @ ''s'')"

definition min_time :: "evidence_timestamp \<Rightarrow> evidence_timestamp \<Rightarrow> evidence_timestamp" where
  "min_time a b = (if unix_nanos b < unix_nanos a then b else a)"

text \<open>The loop over the records; an error is the rejection.\<close>

fun freshness_records ::
  "'r sourced_record \<Rightarrow> string \<Rightarrow> evidence_timestamp \<Rightarrow> evidence_timestamp option \<Rightarrow> 'r list
     \<Rightarrow> (evidence_timestamp option, rejection) rres" where
  "freshness_records sr observed_at observed_time oldest [] = Ok oldest"
| "freshness_records sr observed_at observed_time oldest (r # rs) =
     (if sr_observed_at sr r \<noteq> Some observed_at
      then Err (Evidence,
             [Lit ''record observed timestamp does not match batch observation timestamp''])
      else case sr_source_at sr r of
        None \<Rightarrow> Err (Evidence, [Lit ''record source timestamp is unavailable''])
      | Some source_at \<Rightarrow>
          (case parse_instant source_at of
             Ok source_time \<Rightarrow>
               if duration_since observed_time source_time = None
               then Err (Evidence,
                      [Lit ''record source timestamp is later than its observed timestamp''])
               else freshness_records sr observed_at observed_time
                      (Some (case oldest of None \<Rightarrow> source_time | Some t \<Rightarrow> min_time t source_time)) rs
           | _ \<Rightarrow> Err (Evidence, [Lit ''record source timestamp is malformed''])))"

definition freshness_rejection ::
  "'r sourced_record \<Rightarrow> 'r data_batch \<Rightarrow> nat \<Rightarrow> rejection option" where
  "freshness_rejection sr batch maximum =
     (let observed_at = pv_fetched_at (db_provenance batch) in
      case parse_instant observed_at of
        Ok observed_time \<Rightarrow>
          (case freshness_records sr observed_at observed_time None (db_records batch) of
             Ok oldest_record \<Rightarrow>
               (case pv_source_at (db_provenance batch) of
                  None \<Rightarrow> Some (Evidence, [Lit ''batch source timestamp is unavailable''])
                | Some batch_source_at \<Rightarrow>
                    (case parse_instant batch_source_at of
                       Ok batch_source_time \<Rightarrow>
                         if oldest_record \<noteq> None \<and> oldest_record \<noteq> Some batch_source_time
                         then Some (Evidence, [Lit
                           ''batch source timestamp does not equal the oldest record source timestamp''])
                         else (case duration_since observed_time batch_source_time of
                             None \<Rightarrow> Some (Evidence, [Lit
                               ''batch source timestamp is later than its observation timestamp''])
                           | Some age \<Rightarrow>
                               if maximum < age
                               then Some (Quality, [Lit (''batch source timestamp is stale by ''
                                 @ display_duration age @ ''; maximum allowed age is ''
                                 @ display_duration maximum)])
                               else None)
                     | _ \<Rightarrow> Some (Evidence, [Lit ''batch source timestamp is malformed''])))
           | Err rejection \<Rightarrow> Some rejection
           | Panic _ \<Rightarrow> None)
      | _ \<Rightarrow> Some (Evidence, [Lit ''batch observation timestamp is malformed'']))"

definition unroutable :: "data_status option \<Rightarrow> bool" where
  "unroutable s \<longleftrightarrow> s \<in> {Some Stale, Some Conflicted, Some data_status.Unsupported}"

definition rejected_batch ::
  "'r sourced_record \<Rightarrow> acceptance_policy \<Rightarrow> provider_id \<Rightarrow> 'r data_batch \<Rightarrow> rejection option" where
  "rejected_batch sr policy provider_id batch =
     (if db_records batch = [] \<and> \<not> ap_accept_complete_empty policy
      then Some (NoData, [Lit ''provider returned an empty successful batch''])
      else if ap_require_complete policy \<and> \<not> qr_complete (db_quality batch)
      then Some (Quality, [Lit (''batch quality is incomplete: ''
             @ join ''; '' (qr_issues (db_quality batch)))])
      else if ap_require_source_at policy \<and> pv_source_at (db_provenance batch) = None
      then Some (Quality, [Lit ''batch source timestamp is unavailable''])
      else case pv_batch_id (db_provenance batch) of
        None \<Rightarrow> Some (Evidence, [Lit ''batch provenance has no batch ID''])
      | Some batch_id \<Rightarrow>
          (case find (\<lambda>r. sr_provider_id sr r \<noteq> provider_id) (db_records batch) of
             Some r \<Rightarrow> Some (Evidence, [Lit (''record provider '' @ provider_debug (sr_provider_id sr r)
                 @ '' does not match registered provider '' @ provider_debug provider_id)])
           | None \<Rightarrow>
          (case find (\<lambda>r. unroutable (sr_status sr r)) (db_records batch) of
             Some r \<Rightarrow> Some (Quality, [Lit (''record status ''
                 @ status_debug (the (sr_status sr r)) @ '' is not routable'')])
           | None \<Rightarrow>
          if ap_require_available_records policy
             \<and> list_ex (\<lambda>r. sr_status sr r \<noteq> Some Available) (db_records batch)
          then Some (Quality, [Lit ''record status is not Available under the configured policy''])
          else (case find (\<lambda>r. sr_batch_id sr r \<noteq> batch_id) (db_records batch) of
             Some r \<Rightarrow> Some (Evidence, [Lit ''record batch ID '', DebugStr (sr_batch_id sr r),
                 Lit '' does not match provenance batch ID '', DebugStr batch_id])
           | None \<Rightarrow>
          (case ap_max_source_age policy of
             None \<Rightarrow> None
           | Some maximum \<Rightarrow> freshness_rejection sr batch maximum)))))"

section \<open>The chain\<close>

record 'r route_outcome =
  ro_selected_provider :: provider_id
  ro_batch :: "'r data_batch"
  ro_attempts :: "route_attempt list"

record ('q, 'r) failover_chain =
  fc_policy :: acceptance_policy
  fc_sources :: "('q, 'r) routed_source list"

definition chain_new :: "acceptance_policy \<Rightarrow> ('q, 'r) failover_chain" where
  "chain_new policy = \<lparr>fc_policy = policy, fc_sources = []\<rparr>"

definition register ::
  "('q, 'r) failover_chain \<Rightarrow> ('q, 'r) routed_source \<Rightarrow> ('q, 'r) failover_chain \<times> (unit, router_error) rres" where
  "register chain source =
     (if list_ex (\<lambda>registered. rs_provider_id registered = rs_provider_id source) (fc_sources chain)
      then (chain, Err (InvalidConfiguration
              (''provider '' @ provider_debug (rs_provider_id source) @ '' is already registered'')))
      else (chain\<lparr>fc_sources := fc_sources chain @ [source]\<rparr>, Ok ()))"

definition provider_ids :: "('q, 'r) failover_chain \<Rightarrow> provider_id list" where
  "provider_ids chain = map rs_provider_id (fc_sources chain)"

definition attempt_failed :: "provider_id \<Rightarrow> source_error \<Rightarrow> route_attempt" where
  "attempt_failed provider_id e =
     \<lparr>ra_provider_id = provider_id, ra_status = Failed (sx_kind e) (sx_action e) (sx_message e)\<rparr>"

definition attempt_rejected :: "provider_id \<Rightarrow> rejection \<Rightarrow> route_attempt" where
  "attempt_rejected provider_id r =
     \<lparr>ra_provider_id = provider_id, ra_status = Rejected (fst r) (snd r)\<rparr>"

definition attempt_selected :: "provider_id \<Rightarrow> route_attempt" where
  "attempt_selected provider_id = \<lparr>ra_provider_id = provider_id, ra_status = Selected\<rparr>"

fun route_sources ::
  "'r sourced_record \<Rightarrow> acceptance_policy \<Rightarrow> 'q \<Rightarrow> route_attempt list \<Rightarrow> ('q, 'r) routed_source list
     \<Rightarrow> ('r route_outcome, router_error) rres" where
  "route_sources sr policy request attempts [] = Err (Exhausted attempts)"
| "route_sources sr policy request attempts (source # sources) =
     (let provider_id = rs_provider_id source in
      case rs_fetch source request of
        Err e \<Rightarrow>
          (let attempts = attempts @ [attempt_failed provider_id e] in
           if sx_action e = Stop then Err (Stopped attempts)
           else route_sources sr policy request attempts sources)
      | Panic m \<Rightarrow> Panic m
      | Ok batch \<Rightarrow>
          (case rejected_batch sr policy provider_id batch of
             Some rejection \<Rightarrow>
               route_sources sr policy request (attempts @ [attempt_rejected provider_id rejection]) sources
           | None \<Rightarrow>
               Ok \<lparr>ro_selected_provider = provider_id, ro_batch = batch,
                   ro_attempts = attempts @ [attempt_selected provider_id]\<rparr>))"

definition route ::
  "'r sourced_record \<Rightarrow> ('q, 'r) failover_chain \<Rightarrow> 'q \<Rightarrow> ('r route_outcome, router_error) rres" where
  "route sr chain request =
     (if fc_sources chain = []
      then Err (InvalidConfiguration ''at least one source must be registered'')
      else route_sources sr (fc_policy chain) request [] (fc_sources chain))"

fun attempts_of :: "router_error \<Rightarrow> route_attempt list" where
  "attempts_of (InvalidConfiguration m) = []"
| "attempts_of (Stopped attempts) = attempts"
| "attempts_of (Exhausted attempts) = attempts"

section \<open>What a policy accepts\<close>

definition record_time :: "'r sourced_record \<Rightarrow> 'r \<Rightarrow> int" where
  "record_time sr r =
     (case sr_source_at sr r of None \<Rightarrow> 0
      | Some s \<Rightarrow> (case parse_instant s of Ok t \<Rightarrow> unix_nanos t | _ \<Rightarrow> 0))"

definition timely :: "'r sourced_record \<Rightarrow> string \<Rightarrow> evidence_timestamp \<Rightarrow> 'r \<Rightarrow> bool" where
  "timely sr observed_at observed r \<longleftrightarrow> sr_observed_at sr r = Some observed_at
     \<and> (\<exists>s t. sr_source_at sr r = Some s \<and> parse_instant s = Ok t \<and> duration_since observed t \<noteq> None)"

text \<open>A fresh batch: the records were observed when the batch was fetched, none of them claims a
  later source time, the batch time is the oldest of theirs, and it is not older than allowed.\<close>

definition fresh :: "'r sourced_record \<Rightarrow> nat \<Rightarrow> 'r data_batch \<Rightarrow> bool" where
  "fresh sr maximum batch \<longleftrightarrow>
     (\<exists>observed b t age. parse_instant (pv_fetched_at (db_provenance batch)) = Ok observed
        \<and> list_all (timely sr (pv_fetched_at (db_provenance batch)) observed) (db_records batch)
        \<and> pv_source_at (db_provenance batch) = Some b \<and> parse_instant b = Ok t
        \<and> (db_records batch \<noteq> [] \<longrightarrow> unix_nanos t = Min (record_time sr ` set (db_records batch)))
        \<and> duration_since observed t = Some age \<and> age \<le> maximum)"

definition acceptable ::
  "'r sourced_record \<Rightarrow> acceptance_policy \<Rightarrow> provider_id \<Rightarrow> 'r data_batch \<Rightarrow> bool" where
  "acceptable sr policy provider_id batch \<longleftrightarrow>
     (db_records batch = [] \<longrightarrow> ap_accept_complete_empty policy)
     \<and> (ap_require_complete policy \<longrightarrow> qr_complete (db_quality batch))
     \<and> (ap_require_source_at policy \<longrightarrow> pv_source_at (db_provenance batch) \<noteq> None)
     \<and> (\<exists>batch_id. pv_batch_id (db_provenance batch) = Some batch_id
          \<and> list_all (\<lambda>r. sr_batch_id sr r = batch_id) (db_records batch))
     \<and> list_all (\<lambda>r. sr_provider_id sr r = provider_id \<and> \<not> unroutable (sr_status sr r)
          \<and> (ap_require_available_records policy \<longrightarrow> sr_status sr r = Some Available)) (db_records batch)
     \<and> (case ap_max_source_age policy of None \<Rightarrow> True | Some maximum \<Rightarrow> fresh sr maximum batch)"

definition oldest_of :: "'r sourced_record \<Rightarrow> evidence_timestamp option \<Rightarrow> 'r list \<Rightarrow> evidence_timestamp option" where
  "oldest_of sr = foldl (\<lambda>m r. Some (case m of None \<Rightarrow> EvidenceTimestamp (record_time sr r)
     | Some t \<Rightarrow> min_time t (EvidenceTimestamp (record_time sr r))))"

lemma freshness_records_eq_Ok:
  "freshness_records sr o1 ot m rs = Ok x \<longleftrightarrow> list_all (timely sr o1 ot) rs \<and> x = oldest_of sr m rs"
proof (induction rs arbitrary: m)
  case Nil
  then show ?case by (auto simp: oldest_of_def)
next
  case (Cons r rs)
  show ?case
    by (cases "sr_source_at sr r"; cases "parse_instant (the (sr_source_at sr r))")
       (auto simp: timely_def Cons.IH oldest_of_def record_time_def split: option.splits)
qed

lemma freshness_records_no_panic: "freshness_records sr o1 ot m rs \<noteq> Panic p"
  by (induction rs arbitrary: m) (auto split: option.splits rres.splits)

lemma oldest_of_Some:
  "oldest_of sr (Some t) rs = Some (EvidenceTimestamp (Min (insert (unix_nanos t) (record_time sr ` set rs))))"
proof (induction rs arbitrary: t)
  case (Cons r rs)
  have "oldest_of sr (Some t) (r # rs)
      = oldest_of sr (Some (min_time t (EvidenceTimestamp (record_time sr r)))) rs"
    by (simp add: oldest_of_def)
  also have "unix_nanos (min_time t (EvidenceTimestamp (record_time sr r))) = min (unix_nanos t) (record_time sr r)"
    by (simp add: min_time_def)
  then have "Min (insert (unix_nanos (min_time t (EvidenceTimestamp (record_time sr r)))) (record_time sr ` set rs))
      = Min (insert (unix_nanos t) (record_time sr ` set (r # rs)))"
    by (cases "rs = []") (simp_all add: min.assoc)
  ultimately show ?case using Cons.IH by simp
qed (simp add: oldest_of_def)

lemma oldest_of_None:
  "oldest_of sr None rs
     = (if rs = [] then None else Some (EvidenceTimestamp (Min (record_time sr ` set rs))))"
proof (cases rs)
  case (Cons r rs')
  have "oldest_of sr None (r # rs') = oldest_of sr (Some (EvidenceTimestamp (record_time sr r))) rs'"
    by (simp add: oldest_of_def)
  then show ?thesis by (simp add: Cons oldest_of_Some)
qed (simp add: oldest_of_def)

lemma freshness_rejection_eq_None: "freshness_rejection sr batch maximum = None \<longleftrightarrow> fresh sr maximum batch"
proof (cases "parse_instant (pv_fetched_at (db_provenance batch))")
  case (Ok observed)
  let ?f = "freshness_records sr (pv_fetched_at (db_provenance batch)) observed None (db_records batch)"
  show ?thesis
  proof (cases ?f)
    case f: (Ok m)
    then have m: "m = (if db_records batch = [] then None
        else Some (EvidenceTimestamp (Min (record_time sr ` set (db_records batch)))))"
      and t: "list_all (timely sr (pv_fetched_at (db_provenance batch)) observed) (db_records batch)"
      by (simp_all add: freshness_records_eq_Ok oldest_of_None)
    have eq: "EvidenceTimestamp n = x \<longleftrightarrow> unix_nanos x = n" for n x by (cases x) auto
    show ?thesis
      by (auto simp: freshness_rejection_def fresh_def Ok f t Let_def m eq not_less split: option.splits rres.splits)
  next
    case f: (Err e)
    then have "\<not> list_all (timely sr (pv_fetched_at (db_provenance batch)) observed) (db_records batch)"
      using freshness_records_eq_Ok [of sr "pv_fetched_at (db_provenance batch)" observed None
          "db_records batch" "oldest_of sr None (db_records batch)"] by simp
    then show ?thesis by (simp add: freshness_rejection_def fresh_def Ok f Let_def)
  qed (simp add: freshness_records_no_panic)
qed (simp_all add: freshness_rejection_def fresh_def Let_def)

lemma none_cases:
  "(case x of None \<Rightarrow> y | Some r \<Rightarrow> Some (f r)) = None \<longleftrightarrow> x = None \<and> y = None"
  "(if c then Some a else y) = None \<longleftrightarrow> \<not> c \<and> y = None"
  "(case z of None \<Rightarrow> None | Some m \<Rightarrow> g m) = None \<longleftrightarrow> (case z of None \<Rightarrow> True | Some m \<Rightarrow> g m = None)"
  by (auto split: option.splits)

lemma rejected_batch_eq_None: "rejected_batch sr policy p batch = None \<longleftrightarrow> acceptable sr policy p batch"
proof (cases "pv_batch_id (db_provenance batch)")
  case None
  then show ?thesis by (simp add: rejected_batch_def acceptable_def)
next
  case (Some i)
  have f: "find P xs = None \<longleftrightarrow> list_all (\<lambda>x. \<not> P x) xs" for P and xs :: "'a list"
    by (auto simp: find_None_iff list_all_iff)
  show ?thesis
    unfolding rejected_batch_def acceptable_def
    by (simp add: Some none_cases f freshness_rejection_eq_None)
       (auto simp: list_all_iff list_ex_iff freshness_rejection_eq_None split: option.splits)
qed

section \<open>The chain against its reference\<close>

definition attempt_of ::
  "'r sourced_record \<Rightarrow> acceptance_policy \<Rightarrow> 'q \<Rightarrow> ('q, 'r) routed_source \<Rightarrow> route_attempt" where
  "attempt_of sr policy request s =
     (case rs_fetch s request of
        Ok batch \<Rightarrow>
          (case rejected_batch sr policy (rs_provider_id s) batch of
             None \<Rightarrow> attempt_selected (rs_provider_id s)
           | Some rejection \<Rightarrow> attempt_rejected (rs_provider_id s) rejection)
      | Err e \<Rightarrow> attempt_failed (rs_provider_id s) e
      | Panic _ \<Rightarrow> attempt_selected (rs_provider_id s))"

text \<open>The sources a route goes past: a failure that allows the next one, or a batch the policy
  does not accept.\<close>

definition passed_over ::
  "'r sourced_record \<Rightarrow> acceptance_policy \<Rightarrow> 'q \<Rightarrow> ('q, 'r) routed_source \<Rightarrow> bool" where
  "passed_over sr policy request s \<longleftrightarrow>
     (case rs_fetch s request of
        Ok batch \<Rightarrow> \<not> acceptable sr policy (rs_provider_id s) batch
      | Err e \<Rightarrow> sx_action e = TryNext
      | Panic _ \<Rightarrow> False)"

definition route_reference ::
  "'r sourced_record \<Rightarrow> acceptance_policy \<Rightarrow> 'q \<Rightarrow> ('q, 'r) routed_source list
     \<Rightarrow> ('r route_outcome, router_error) rres" where
  "route_reference sr policy request sources =
     (let trail = map (attempt_of sr policy request) (takeWhile (passed_over sr policy request) sources) in
      case dropWhile (passed_over sr policy request) sources of
        [] \<Rightarrow> Err (Exhausted trail)
      | s # _ \<Rightarrow>
          (case rs_fetch s request of
             Ok batch \<Rightarrow> Ok \<lparr>ro_selected_provider = rs_provider_id s, ro_batch = batch,
                            ro_attempts = trail @ [attempt_of sr policy request s]\<rparr>
           | Err e \<Rightarrow> Err (Stopped (trail @ [attempt_of sr policy request s]))
           | Panic m \<Rightarrow> Panic m))"

lemma route_sources_passed:
  assumes "passed_over sr policy request s"
  shows "route_sources sr policy request attempts (s # sources)
    = route_sources sr policy request (attempts @ [attempt_of sr policy request s]) sources"
proof (cases "rs_fetch s request")
  case (Ok batch)
  then obtain r where "rejected_batch sr policy (rs_provider_id s) batch = Some r"
    using assms by (auto simp: passed_over_def simp flip: rejected_batch_eq_None)
  then show ?thesis by (simp add: Ok attempt_of_def Let_def)
qed (use assms in \<open>simp_all add: passed_over_def attempt_of_def Let_def\<close>)

lemma route_sources_ends:
  assumes "\<not> passed_over sr policy request s"
  shows "route_sources sr policy request attempts (s # sources) =
    (case rs_fetch s request of
       Ok batch \<Rightarrow> Ok \<lparr>ro_selected_provider = rs_provider_id s, ro_batch = batch,
                      ro_attempts = attempts @ [attempt_of sr policy request s]\<rparr>
     | Err e \<Rightarrow> Err (Stopped (attempts @ [attempt_of sr policy request s]))
     | Panic m \<Rightarrow> Panic m)"
proof (cases "rs_fetch s request")
  case (Ok batch)
  then have "rejected_batch sr policy (rs_provider_id s) batch = None"
    using assms by (simp add: passed_over_def rejected_batch_eq_None)
  then show ?thesis by (simp add: Ok attempt_of_def Let_def)
next
  case (Err e)
  then have "sx_action e = Stop" using assms by (cases "sx_action e") (simp_all add: passed_over_def)
  then show ?thesis by (simp add: Err attempt_of_def Let_def)
qed simp

lemma route_sources_reference:
  "route_sources sr policy request attempts sources =
     (let trail = attempts @ map (attempt_of sr policy request) (takeWhile (passed_over sr policy request) sources) in
      case dropWhile (passed_over sr policy request) sources of
        [] \<Rightarrow> Err (Exhausted trail)
      | s # _ \<Rightarrow>
          (case rs_fetch s request of
             Ok batch \<Rightarrow> Ok \<lparr>ro_selected_provider = rs_provider_id s, ro_batch = batch,
                            ro_attempts = trail @ [attempt_of sr policy request s]\<rparr>
           | Err e \<Rightarrow> Err (Stopped (trail @ [attempt_of sr policy request s]))
           | Panic m \<Rightarrow> Panic m))"
proof (induction sources arbitrary: attempts)
  case (Cons s sources)
  show ?case
  proof (cases "passed_over sr policy request s")
    case True
    then show ?thesis by (simp only: route_sources_passed Cons.IH) (simp add: Let_def)
  next
    case False
    then show ?thesis by (subst route_sources_ends) (simp_all add: Let_def)
  qed
qed simp

lemma route_eq_reference:
  "fc_sources chain \<noteq> [] \<Longrightarrow> route sr chain request = route_reference sr (fc_policy chain) request (fc_sources chain)"
  by (simp add: route_def route_sources_reference route_reference_def)

section \<open>Consequences\<close>

definition chain_ok :: "('q, 'r) failover_chain \<Rightarrow> bool" where
  "chain_ok chain \<longleftrightarrow> distinct (provider_ids chain)"

definition policy_ok :: "acceptance_policy \<Rightarrow> bool" where
  "policy_ok p \<longleftrightarrow> (ap_max_source_age p \<noteq> None \<longrightarrow> ap_require_source_at p) \<and> ap_max_source_age p \<noteq> Some 0"

lemma policy_ok_intros:
  "policy_ok policy_new"
  "policy_ok p \<Longrightarrow> policy_ok (with_require_complete p b)"
  "policy_ok p \<Longrightarrow> policy_ok (with_require_source_at p b)"
  "policy_ok p \<Longrightarrow> with_max_source_age p n = Ok p' \<Longrightarrow> policy_ok p'"
  "policy_ok p \<Longrightarrow> policy_ok (with_accept_complete_empty p b)"
  "policy_ok p \<Longrightarrow> policy_ok (with_require_available_records p b)"
  by (auto simp: policy_ok_def policy_new_def with_require_complete_def with_require_source_at_def
      with_max_source_age_def with_accept_complete_empty_def with_require_available_records_def
      split: if_splits)

lemma chain_ok_new: "chain_ok (chain_new policy)"
  by (simp add: chain_ok_def chain_new_def provider_ids_def)

lemma register_cases:
  "register chain source =
     (if rs_provider_id source \<in> set (provider_ids chain)
      then (chain, Err (InvalidConfiguration
              (''provider '' @ provider_debug (rs_provider_id source) @ '' is already registered'')))
      else (chain\<lparr>fc_sources := fc_sources chain @ [source]\<rparr>, Ok ()))"
  by (auto simp: register_def provider_ids_def list_ex_iff image_iff) metis+

lemma chain_ok_register: "chain_ok chain \<Longrightarrow> chain_ok (fst (register chain source))"
  by (auto simp: register_cases chain_ok_def provider_ids_def)

lemma attempt_of_provider [simp]: "ra_provider_id (attempt_of sr policy request s) = rs_provider_id s"
  by (auto simp: attempt_of_def attempt_selected_def attempt_rejected_def attempt_failed_def
      split: rres.splits option.splits)

lemma route_selected:
  assumes "route sr chain request = Ok out"
  obtains xs s ys where "fc_sources chain = xs @ s # ys"
    and "list_all (passed_over sr (fc_policy chain) request) xs"
    and "rs_fetch s request = Ok (ro_batch out)"
    and "acceptable sr (fc_policy chain) (rs_provider_id s) (ro_batch out)"
    and "ro_selected_provider out = rs_provider_id s"
    and "ro_attempts out = map (attempt_of sr (fc_policy chain) request) xs @ [attempt_selected (rs_provider_id s)]"
proof -
  let ?p = "passed_over sr (fc_policy chain) request"
  have ne: "fc_sources chain \<noteq> []" using assms by (auto simp: route_def)
  from assms have ref: "route_reference sr (fc_policy chain) request (fc_sources chain) = Ok out"
    by (simp add: route_eq_reference [OF ne])
  then obtain s ys b where d: "dropWhile ?p (fc_sources chain) = s # ys" "rs_fetch s request = Ok b"
    and out: "out = \<lparr>ro_selected_provider = rs_provider_id s, ro_batch = b,
        ro_attempts = map (attempt_of sr (fc_policy chain) request) (takeWhile ?p (fc_sources chain))
          @ [attempt_of sr (fc_policy chain) request s]\<rparr>"
    by (auto simp: route_reference_def Let_def split: list.splits rres.splits)
  have "\<not> ?p s" using d(1) hd_dropWhile [of ?p "fc_sources chain"] by simp
  then have acc: "acceptable sr (fc_policy chain) (rs_provider_id s) b"
    using d(2) by (simp add: passed_over_def)
  then have sel: "attempt_of sr (fc_policy chain) request s = attempt_selected (rs_provider_id s)"
    using d(2) by (simp add: attempt_of_def rejected_batch_eq_None [THEN iffD2])
  show ?thesis
  proof (rule that [of "takeWhile ?p (fc_sources chain)" s ys])
    show "fc_sources chain = takeWhile ?p (fc_sources chain) @ s # ys"
      using takeWhile_dropWhile_id [of ?p "fc_sources chain"] d(1) by simp
    show "list_all ?p (takeWhile ?p (fc_sources chain))"
      by (auto simp: list_all_iff dest: set_takeWhileD)
  qed (use d acc sel out in simp_all)
qed

end
