(* ===== verification/Router_Properties.thy ===== *)
theory Router_Properties
  imports Sample_Inputs Router "HOL-Library.Sublist"
begin

text \<open>
  The properties of the failover router and of the batches it judges, with a chain of three
  sample sources: one fails, one returns an empty batch, one a batch of a single record.
\<close>

section \<open>Samples\<close>

definition evidence_records :: "source_evidence sourced_record" where
  "evidence_records =
     \<lparr>sr_provider_id = se_provider, sr_batch_id = batch_id_of, sr_source_at = source_at_of,
      sr_observed_at = (\<lambda>e. Some (observed_at_of e)), sr_status = (\<lambda>_. None)\<rparr>"

definition sample_provenance :: provenance where
  "sample_provenance = \<lparr>pv_source = ''Sina'', pv_source_at = Some ''1767576600'',
     pv_fetched_at = ''1767576600'', pv_batch_id = Some ''b1''\<rparr>"

definition sample_record :: source_evidence where
  "sample_record = \<lparr>se_provider = Sina, se_source_at = Some (NonEmptyText ''1767576600''),
     se_observed_at = NonEmptyText ''1767576600'', se_batch_id = NonEmptyText ''b1''\<rparr>"

definition sample_policy :: acceptance_policy where
  "sample_policy = \<lparr>ap_require_complete = True, ap_require_source_at = True,
     ap_accept_complete_empty = False, ap_require_available_records = False,
     ap_max_source_age = Some 1000000000\<rparr>"

definition failing_source :: "(unit, source_evidence) routed_source" where
  "failing_source = source_fn_new Tdx (\<lambda>_. Err (source_error_try_next Timeout ''no answer''))"

definition stopping_source :: "(unit, source_evidence) routed_source" where
  "stopping_source = source_fn_new Baidu (\<lambda>_. Err (source_error_stop failure_kind.InvalidRequest ''bad''))"

definition empty_source :: "(unit, source_evidence) routed_source" where
  "empty_source = source_fn_new Tencent (\<lambda>_. Ok (batch_strict [] sample_provenance))"

definition good_source :: "(unit, source_evidence) routed_source" where
  "good_source = source_fn_new Sina (\<lambda>_. Ok (batch_strict [sample_record] sample_provenance))"

definition sample_chain :: "(unit, source_evidence) failover_chain" where
  "sample_chain = \<lparr>fc_policy = sample_policy, fc_sources = [failing_source, empty_source, good_source]\<rparr>"

lemma sample_age: "duration_since (EvidenceTimestamp n) (EvidenceTimestamp n) = Some 0"
  by (simp add: duration_since_eq_Some)

lemma sample_acceptable:
  "acceptable evidence_records sample_policy Sina (batch_strict [sample_record] sample_provenance)"
  by (simp add: acceptable_def fresh_def timely_def record_time_def evidence_records_def sample_policy_def
      sample_record_def sample_provenance_def batch_strict_def quality_report_default_def batch_id_of_def
      source_at_of_def observed_at_of_def sample_time sample_age unroutable_def)

lemma sample_rejected:
  "rejected_batch evidence_records sample_policy p (batch_strict [] sample_provenance)
     = Some (NoData, [Lit ''provider returned an empty successful batch''])"
  by (simp add: rejected_batch_def batch_strict_def sample_policy_def)

lemmas sample_sources = failing_source_def empty_source_def good_source_def stopping_source_def
  source_fn_new_def source_error_try_next_def source_error_stop_def source_error_new_def

lemma sample_route:
  "route evidence_records sample_chain () =
     Ok \<lparr>ro_selected_provider = Sina, ro_batch = batch_strict [sample_record] sample_provenance,
         ro_attempts = [\<lparr>ra_provider_id = Tdx, ra_status = Failed Timeout TryNext ''no answer''\<rparr>,
           \<lparr>ra_provider_id = Tencent, ra_status = Rejected NoData
              [Lit ''provider returned an empty successful batch'']\<rparr>,
           \<lparr>ra_provider_id = Sina, ra_status = Selected\<rparr>]\<rparr>"
  by (simp add: route_def sample_chain_def sample_sources sample_rejected
      sample_acceptable [folded rejected_batch_eq_None] attempt_failed_def attempt_rejected_def attempt_selected_def)

section \<open>Routing\<close>

text \<open>C1: A route equals its reference: it goes past the sources that fail recoverably or return
  a batch the policy does not accept, ends at the first other source with its batch or its
  terminal failure, and traces one attempt per source it consulted; an empty chain is an error.\<close>

theorem route_first_acceptable:
  "route sr chain request =
     (if fc_sources chain = []
      then Err (InvalidConfiguration ''at least one source must be registered'')
      else route_reference sr (fc_policy chain) request (fc_sources chain))"
  using route_eq_reference [of chain sr request] by (simp add: route_def)

text \<open>The checks that reject a batch are exactly the acceptance conditions: content or an
  allowed empty batch, completeness and source time when required, one batch identifier and one
  provider on every record, routable record states, and freshness when a maximum age is set.\<close>

theorem rejected_batch_exact:
  "rejected_batch sr policy provider_id batch = None \<longleftrightarrow> acceptable sr policy provider_id batch"
  by (rule rejected_batch_eq_None)

text \<open>C10: What a route selects was fetched from a registered source under that source's
  identifier and is acceptable, so every record names the selected provider and the batch; every
  source before it was passed over.\<close>

theorem route_selection_sound:
  assumes "route sr chain request = Ok out"
  shows "\<exists>xs s ys. fc_sources chain = xs @ s # ys \<and> rs_fetch s request = Ok (ro_batch out)
     \<and> ro_selected_provider out = rs_provider_id s
     \<and> acceptable sr (fc_policy chain) (ro_selected_provider out) (ro_batch out)
     \<and> list_all (\<lambda>r. sr_provider_id sr r = ro_selected_provider out
          \<and> Some (sr_batch_id sr r) = pv_batch_id (db_provenance (ro_batch out))) (db_records (ro_batch out))
     \<and> list_all (passed_over sr (fc_policy chain) request) xs
     \<and> map ra_provider_id (ro_attempts out) = map rs_provider_id (xs @ [s])"
  using assms
proof (rule route_selected)
  fix xs s ys
  assume a: "fc_sources chain = xs @ s # ys" "list_all (passed_over sr (fc_policy chain) request) xs"
    "rs_fetch s request = Ok (ro_batch out)"
    "acceptable sr (fc_policy chain) (rs_provider_id s) (ro_batch out)"
    "ro_selected_provider out = rs_provider_id s"
    "ro_attempts out = map (attempt_of sr (fc_policy chain) request) xs @ [attempt_selected (rs_provider_id s)]"
  then have "list_all (\<lambda>r. sr_provider_id sr r = ro_selected_provider out
      \<and> Some (sr_batch_id sr r) = pv_batch_id (db_provenance (ro_batch out))) (db_records (ro_batch out))"
    by (auto simp: acceptable_def list_all_iff)
  moreover have "map ra_provider_id (ro_attempts out) = map rs_provider_id (xs @ [s])"
    using a(6) by (simp add: attempt_selected_def)
  ultimately show ?thesis using a by (intro exI [of _ xs] exI [of _ s] exI [of _ ys]) simp
qed

theorem route_selection_sound_witness:
  "acceptable evidence_records sample_policy Sina (batch_strict [sample_record] sample_provenance)
     \<and> se_provider sample_record = Sina"
proof -
  obtain xs s ys where "acceptable evidence_records (fc_policy sample_chain) Sina
      (batch_strict [sample_record] sample_provenance)"
    "list_all (\<lambda>r. sr_provider_id evidence_records r = Sina
       \<and> Some (sr_batch_id evidence_records r) = pv_batch_id sample_provenance) [sample_record]"
    using route_selection_sound [OF sample_route] by (auto simp: batch_strict_def)
  then show ?thesis by (simp add: sample_chain_def evidence_records_def)
qed

text \<open>A source that ends the route hides everything registered after it: the result does not
  depend on the later sources.\<close>

theorem route_ignores_later_sources:
  assumes "\<not> passed_over sr policy request s"
  shows "route sr \<lparr>fc_policy = policy, fc_sources = xs @ s # ys\<rparr> request
       = route sr \<lparr>fc_policy = policy, fc_sources = xs @ s # zs\<rparr> request"
proof -
  have "\<exists>t us vs. dropWhile (passed_over sr policy request) (xs @ s # ys) = t # us
      \<and> dropWhile (passed_over sr policy request) (xs @ s # zs) = t # vs
      \<and> takeWhile (passed_over sr policy request) (xs @ s # ys)
          = takeWhile (passed_over sr policy request) (xs @ s # zs)"
    using assms by (induction xs) auto
  then show ?thesis by (auto simp: route_eq_reference route_reference_def)
qed

theorem route_ignores_later_sources_witness:
  "route evidence_records \<lparr>fc_policy = sample_policy, fc_sources = [failing_source] @ stopping_source # [good_source]\<rparr> ()
     = route evidence_records \<lparr>fc_policy = sample_policy, fc_sources = [failing_source] @ stopping_source # []\<rparr> ()"
  by (rule route_ignores_later_sources) (simp add: passed_over_def sample_sources)

section \<open>Registration, policies and batches\<close>

lemma route_trace_prefix:
  "prefix (map ra_provider_id (case route sr chain request of
      Ok out \<Rightarrow> ro_attempts out | Err e \<Rightarrow> attempts_of e | Panic m \<Rightarrow> [])) (provider_ids chain)"
proof (cases "fc_sources chain = []")
  case False
  let ?p = "passed_over sr (fc_policy chain) request" and ?ss = "fc_sources chain"
  let ?a = "attempt_of sr (fc_policy chain) request"
  have ids: "map ra_provider_id (map ?a xs) = map rs_provider_id xs" for xs by simp
  have split: "?ss = takeWhile ?p ?ss @ dropWhile ?p ?ss" by simp
  show ?thesis
  proof (cases "dropWhile ?p ?ss")
    case Nil
    then show ?thesis
      using False map_mono_prefix [OF takeWhile_is_prefix [of ?p ?ss], of rs_provider_id]
      by (simp add: route_eq_reference route_reference_def Let_def provider_ids_def comp_def
          del: dropWhile_eq_Nil_conv)
  next
    case (Cons s ys)
    then have "prefix (takeWhile ?p ?ss @ [s]) ?ss"
      using split by (intro prefixI [of _ _ ys]) simp
    from map_mono_prefix [OF this, of rs_provider_id] show ?thesis
      using False Cons by (simp add: route_eq_reference route_reference_def Let_def provider_ids_def comp_def
          split: rres.splits)
  qed
qed (simp add: route_def)

definition registered ::
  "acceptance_policy \<Rightarrow> ('q, 'r) routed_source list \<Rightarrow> ('q, 'r) failover_chain" where
  "registered policy sources = fold (\<lambda>s c. fst (register c s)) sources (chain_new policy)"

text \<open>However sources are registered, a chain holds the first source offered under each
  identifier, in order; its identifiers are distinct, and every route traces a prefix of them.\<close>

theorem registration_order:
  fixes sources :: "('q, 'r) routed_source list"
  shows "provider_ids (registered policy sources) = rev (remdups (rev (map rs_provider_id sources)))
     \<and> chain_ok (registered policy sources) \<and> fc_policy (registered policy sources) = policy
     \<and> prefix (map ra_provider_id (case route sr (registered policy sources) request of
          Ok out \<Rightarrow> ro_attempts out | Err e \<Rightarrow> attempts_of e | Panic m \<Rightarrow> [])) (provider_ids (registered policy sources))"
proof (intro conjI)
  have step: "provider_ids (fold (\<lambda>s c. fst (register c s)) xs c)
      = foldl (\<lambda>ids i. if i \<in> set ids then ids else ids @ [i]) (provider_ids c) (map rs_provider_id xs)"
    "fc_policy (fold (\<lambda>s c. fst (register c s)) xs c) = fc_policy c"
    "chain_ok c \<Longrightarrow> chain_ok (fold (\<lambda>s c. fst (register c s)) xs c)"
    for xs and c :: "('q, 'r) failover_chain"
    by (induction xs arbitrary: c)
       (auto simp: register_cases provider_ids_def chain_ok_def split: if_splits)
  show "chain_ok (registered policy sources)" unfolding registered_def by (rule step(3) [OF chain_ok_new])
  show "fc_policy (registered policy sources) = policy" by (simp add: registered_def step(2) chain_new_def)
  have first: "foldl (\<lambda>ids i. if i \<in> set ids then ids else ids @ [i]) [] is = rev (remdups (rev is))"
    for "is" :: "provider_id list"
    by (induction "is" rule: rev_induct) auto
  show "provider_ids (registered policy sources) = rev (remdups (rev (map rs_provider_id sources)))"
    using step(1) [of sources "chain_new policy"] first [of "map rs_provider_id sources"]
    by (simp add: registered_def chain_new_def provider_ids_def)
  show "prefix (map ra_provider_id (case route sr (registered policy sources) request of
          Ok out \<Rightarrow> ro_attempts out | Err e \<Rightarrow> attempts_of e | Panic m \<Rightarrow> [])) (provider_ids (registered policy sources))"
    by (rule route_trace_prefix)
qed

text \<open>Every policy the builder calls can make asks for a source time whenever it bounds the
  source age, and never has a zero bound, in whatever order the calls come.\<close>

inductive built :: "acceptance_policy \<Rightarrow> bool" where
  "built policy_new"
| "built p \<Longrightarrow> built (with_require_complete p b)"
| "built p \<Longrightarrow> built (with_require_source_at p b)"
| "built p \<Longrightarrow> with_max_source_age p n = Ok q \<Longrightarrow> built q"
| "built p \<Longrightarrow> built (with_accept_complete_empty p b)"
| "built p \<Longrightarrow> built (with_require_available_records p b)"

theorem policies_consistent:
  assumes "built p"
  shows "(ap_max_source_age p \<noteq> None \<longrightarrow> ap_require_source_at p) \<and> ap_max_source_age p \<noteq> Some 0"
  using assms unfolding policy_ok_def [symmetric]
  by (induction rule: built.induct) (auto intro: policy_ok_intros)

theorem policies_consistent_witness:
  "ap_require_source_at (with_require_source_at (policy_new\<lparr>ap_require_source_at := True,
     ap_max_source_age := Some 5\<rparr>) False)"
proof -
  have "built (policy_new\<lparr>ap_require_source_at := True, ap_max_source_age := Some 5\<rparr>)"
    by (rule built.intros(4) [OF built.intros(1), of 5]) (simp add: with_max_source_age_def)
  from policies_consistent [OF built.intros(3) [OF this, of False]] show ?thesis
    by (simp add: with_require_source_at_def)
qed

text \<open>The batch identifiers generated in one process are pairwise distinct, whatever sources
  and times they are made from and whichever calls fail in between.\<close>

theorem batch_ids_distinct:
  "distinct (map pv_batch_id (provenances k xs)) \<and> list_all (\<lambda>p. pv_batch_id p \<noteq> None) (provenances k xs)"
proof -
  have "distinct (map batch_counter (provenances k xs))"
    using provenances_counters [of k xs] strict_sorted_iff by blast
  then have "distinct (map pv_batch_id (provenances k xs))"
    unfolding distinct_map inj_on_def by (auto simp: batch_counter_def)
  then show ?thesis using provenances_counters [of k xs] by (simp add: list_all_iff)
qed

text \<open>The option to accept complete empty batches does not ask for completeness: on its own it
  also accepts an empty batch that reports quality issues.\<close>

theorem empty_batch_accepted_incomplete:
  "acceptable sr (with_accept_complete_empty policy_new True) provider_id
     \<lparr>db_records = [], db_provenance = prov, db_quality = \<lparr>qr_complete = False, qr_issues = issues\<rparr>\<rparr>
   \<longleftrightarrow> pv_batch_id prov \<noteq> None"
  by (auto simp: acceptable_def with_accept_complete_empty_def policy_new_def)

end
