(* ===== verification/Grpc_Contracts.thy ===== *)
theory Grpc_Contracts
  imports Rust_Text
begin

text \<open>
  The external contract: the messages of \<open>market.proto\<close> the server handles and the validation of
  \<open>magic-market-grpc-contracts\<close> \<open>lib.rs\<close>. A message is the record \<open>prost\<close> generates from the
  \<open>.proto\<close> file: an absent submessage is \<open>None\<close>, an enumeration field an integer. Lengths are
  \<open>usize\<close>, 64 bits wide.
\<close>

type_synonym usize = u64

definition protocol_version :: u32 where "protocol_version = 1"

definition canonical_json_content_type :: string where
  "canonical_json_content_type = ''application/json; charset=utf-8''"

section \<open>Messages\<close>

record request_context =
  rc_protocol_version :: u32
  rc_request_id :: string

record canonical_payload =
  cp_schema :: string
  cp_schema_version :: u32
  cp_content_type :: string
  cp_data :: "u8 list"

record query_request =
  qq_context :: "request_context option"
  qq_preferred_provider :: string
  qq_payload :: "canonical_payload option"
  qq_allow_unadmitted :: bool

record event_cursor =
  ec_generation :: string
  ec_sequence :: u64

record event_filter_message =
  fm_instruments :: "string list"
  fm_event_kinds :: "string list"

record envelope =
  en_protocol_version :: u32
  en_event_id :: string
  en_cursor :: "event_cursor option"
  en_event_kind :: string
  en_provider :: string
  en_instrument :: string
  en_observed_at :: string
  en_source_at :: string
  en_admission :: int
  en_payload :: "canonical_payload option"

record agent_hello =
  ah_protocol_version :: u32
  ah_agent_id :: string
  ah_terminal_generation :: string
  ah_terminal_evidence :: "canonical_payload option"
  ah_watchlist_revision :: u64
  ah_watchlist_instruments :: "string list"
  ah_maximum_watchlist_instruments :: u32

record configure_watchlist =
  cw_revision :: u64
  cw_instruments :: "string list"

datatype agent_command =
    Ack string u64
  | StopAgent string
  | ConfigureWatchlist configure_watchlist

datatype admission_state = AdmissionUnspecified | Admitted | Unadmitted

definition admission_state_of :: "int \<Rightarrow> admission_state option" where
  "admission_state_of n =
     (if n = 0 then Some AdmissionUnspecified else if n = 1 then Some Admitted
      else if n = 2 then Some Unadmitted else None)"

section \<open>Validation\<close>

datatype contract_error =
    MissingContext
  | WrongProtocolVersion u32
  | MissingRequestId
  | MissingPayload
  | MissingSchema
  | InvalidSchemaVersion
  | WrongContentType
  | EmptyPayload
  | PayloadTooLarge usize usize

datatype watchlist_error =
    InvalidMaximum
  | EmptyWatchlist
  | TooMany usize usize
  | InvalidInstrument string
  | DuplicateInstrument string

fun watchlist_error_display :: "watchlist_error \<Rightarrow> string" where
  "watchlist_error_display InvalidMaximum = ''watchlist maximum must be positive''"
| "watchlist_error_display EmptyWatchlist = ''watchlist must not be empty''"
| "watchlist_error_display (TooMany actual maximum) =
     ''watchlist has '' @ dec (unat actual) @ '' entries; maximum is '' @ dec (unat maximum)"
| "watchlist_error_display (InvalidInstrument value) =
     ''invalid watchlist instrument '' @ value @ ''; expected EQUITY:SH|SZ|BJ:NNNNNN''"
| "watchlist_error_display (DuplicateInstrument value) = ''duplicate watchlist instrument '' @ value"

fun contract_error_display :: "contract_error \<Rightarrow> string" where
  "contract_error_display MissingContext = ''request context is required''"
| "contract_error_display (WrongProtocolVersion actual) =
     ''unsupported protocol version '' @ dec (unat actual)"
| "contract_error_display MissingRequestId = ''request_id is required''"
| "contract_error_display MissingPayload = ''canonical payload is required''"
| "contract_error_display MissingSchema = ''payload schema is required''"
| "contract_error_display InvalidSchemaVersion = ''payload schema version must be positive''"
| "contract_error_display WrongContentType = ''payload content type must be canonical JSON''"
| "contract_error_display EmptyPayload = ''payload bytes are required''"
| "contract_error_display (PayloadTooLarge actual maximum) =
     ''payload size '' @ dec (unat actual) @ '' exceeds maximum '' @ dec (unat maximum)"

definition validate_payload :: "canonical_payload \<Rightarrow> usize \<Rightarrow> (unit, contract_error) rres" where
  "validate_payload payload maximum =
     (if trim (cp_schema payload) = '''' then Err MissingSchema
      else if cp_schema_version payload = 0 then Err InvalidSchemaVersion
      else if cp_content_type payload \<noteq> canonical_json_content_type then Err WrongContentType
      else if cp_data payload = [] then Err EmptyPayload
      else if maximum = 0 \<or> unat maximum < length (cp_data payload)
      then Err (PayloadTooLarge (of_nat (length (cp_data payload))) maximum)
      else Ok ())"

definition validate_query_request :: "query_request \<Rightarrow> usize \<Rightarrow> (unit, contract_error) rres" where
  "validate_query_request request maximum =
     rbind (ok_or MissingContext (qq_context request)) (\<lambda>context.
     if rc_protocol_version context \<noteq> protocol_version
     then Err (WrongProtocolVersion (rc_protocol_version context))
     else if trim (rc_request_id context) = '''' then Err MissingRequestId
     else rbind (ok_or MissingPayload (qq_payload request)) (\<lambda>payload.
          validate_payload payload maximum))"

text \<open>\<open>str::split\<close> on a character.\<close>

fun split_on :: "char \<Rightarrow> string \<Rightarrow> string list" where
  "split_on c [] = [[]]"
| "split_on c (x # xs) =
     (if x = c then [] # split_on c xs
      else case split_on c xs of p # ps \<Rightarrow> (x # p) # ps | [] \<Rightarrow> [[x]])"

definition valid_instrument :: "string \<Rightarrow> bool" where
  "valid_instrument instrument \<longleftrightarrow>
     (case split_on (CHR '':'') instrument of
        [asset, exchange, code] \<Rightarrow> asset = ''EQUITY'' \<and> exchange \<in> {''SH'', ''SZ'', ''BJ''}
          \<and> length code = 6 \<and> list_all is_ascii_digit code
      | _ \<Rightarrow> False)"

fun check_instruments :: "string list \<Rightarrow> string list \<Rightarrow> (unit, watchlist_error) rres" where
  "check_instruments seen [] = Ok ()"
| "check_instruments seen (instrument # instruments) =
     (if \<not> valid_instrument instrument \<or> trim instrument \<noteq> instrument
      then Err (InvalidInstrument instrument)
      else if instrument \<in> set seen then Err (DuplicateInstrument instrument)
      else check_instruments (instrument # seen) instruments)"

definition validate_monitor_watchlist :: "string list \<Rightarrow> usize \<Rightarrow> (unit, watchlist_error) rres" where
  "validate_monitor_watchlist instruments maximum =
     (if maximum = 0 then Err InvalidMaximum
      else if instruments = [] then Err EmptyWatchlist
      else if unat maximum < length instruments
      then Err (TooMany (of_nat (length instruments)) maximum)
      else check_instruments [] instruments)"

section \<open>Facts\<close>

definition watchlist_ok :: "string list \<Rightarrow> bool" where
  "watchlist_ok instruments \<longleftrightarrow> instruments \<noteq> [] \<and> distinct instruments
     \<and> (\<forall>i\<in>set instruments. valid_instrument i \<and> trim i = i)"

lemma check_instruments_eq_Ok:
  "check_instruments seen xs = Ok u \<longleftrightarrow>
     distinct xs \<and> set xs \<inter> set seen = {} \<and> (\<forall>i\<in>set xs. valid_instrument i \<and> trim i = i)"
  by (induction xs arbitrary: seen) auto

lemma validate_monitor_watchlist_eq_Ok:
  "validate_monitor_watchlist xs m = Ok u \<longleftrightarrow> watchlist_ok xs \<and> length xs \<le> unat m"
  by (auto simp: validate_monitor_watchlist_def check_instruments_eq_Ok watchlist_ok_def unat_gt_0
      not_less dest: sym)

lemma contract_no_panic [simp]:
  "no_panic (validate_payload p m)" "no_panic (check_instruments seen xs)"
  "no_panic (validate_monitor_watchlist xs m)"
proof -
  show "no_panic (validate_payload p m)" by (simp add: validate_payload_def)
  show *: "no_panic (check_instruments seen xs)" for seen xs by (induction xs arbitrary: seen) auto
  show "no_panic (validate_monitor_watchlist xs m)" using * by (simp add: validate_monitor_watchlist_def)
qed

end
