(* ===== verification/Event_Admission.thy ===== *)
theory Event_Admission
  imports Grpc_Contracts Market_Event
begin

text \<open>
  What the event hub of \<open>magic-market-grpc-server\<close> (\<open>events.rs\<close>) admits: the checks on an agent's
  hello, on the events an agent publishes and on the events of the server itself. \<open>serde_json\<close> is
  a library: its parser and accessors are a dictionary of functions on values of any type.
\<close>

section \<open>Status\<close>

datatype status_code =
    InvalidArgument | FailedPrecondition | AlreadyExists | ResourceExhausted | Unavailable
  | Internal | OutOfRange | PermissionDenied | DeadlineExceeded | Cancelled | UnknownCode | NotFound
  | Aborted | DataLoss | Unauthenticated | Unimplemented

record status =
  st_code :: status_code
  st_message :: string

definition status_of :: "status_code \<Rightarrow> string \<Rightarrow> status" where
  "status_of c m = \<lparr>st_code = c, st_message = m\<rparr>"

abbreviation invalid_argument :: "string \<Rightarrow> status" where
  "invalid_argument \<equiv> status_of InvalidArgument"
abbreviation failed_precondition :: "string \<Rightarrow> status" where
  "failed_precondition \<equiv> status_of FailedPrecondition"
abbreviation resource_exhausted :: "string \<Rightarrow> status" where
  "resource_exhausted \<equiv> status_of ResourceExhausted"

section \<open>JSON documents\<close>

record 'j serde_lib =
  sj_from_slice :: "u8 list \<Rightarrow> 'j option"
  sj_get :: "'j \<Rightarrow> string \<Rightarrow> 'j option"
  sj_as_str :: "'j \<Rightarrow> string option"
  sj_as_bool :: "'j \<Rightarrow> bool option"
  sj_as_u64 :: "'j \<Rightarrow> u64 option"
  sj_as_object :: "'j \<Rightarrow> (string \<Rightarrow> 'j option) option"
  sj_anomaly_wire :: "'j \<Rightarrow> anomaly_event option"

definition get_str :: "'j serde_lib \<Rightarrow> 'j \<Rightarrow> string \<Rightarrow> string option" where
  "get_str js document field = Option.bind (sj_get js document field) (sj_as_str js)"

definition get_bool :: "'j serde_lib \<Rightarrow> 'j \<Rightarrow> string \<Rightarrow> bool option" where
  "get_bool js document field = Option.bind (sj_get js document field) (sj_as_bool js)"

definition admitted_json_field ::
  "'j serde_lib \<Rightarrow> 'j \<Rightarrow> string \<Rightarrow> string \<Rightarrow> (bool, status) rres" where
  "admitted_json_field js document admission_field value_field =
     rbind (ok_or (invalid_argument ''TDX admission marker is missing'')
              (get_bool js document admission_field)) (\<lambda>admitted.
     if admitted \<and> get_str js document value_field = None
     then Err (invalid_argument ''TDX admitted family value is missing'')
     else Ok admitted)"

definition admitted_json_fields ::
  "'j serde_lib \<Rightarrow> 'j \<Rightarrow> string \<Rightarrow> string list \<Rightarrow> (bool, status) rres" where
  "admitted_json_fields js document admission_field value_fields =
     rbind (ok_or (invalid_argument ''TDX admission marker is missing'')
              (get_bool js document admission_field)) (\<lambda>admitted.
     if admitted \<and> \<not> list_all (\<lambda>f. get_str js document f \<noteq> None) value_fields
     then Err (invalid_argument ''TDX admitted family values are incomplete'')
     else Ok admitted)"

section \<open>Admitted events\<close>

definition canonical_equity_label :: "instrument_id \<Rightarrow> string" where
  "canonical_equity_label instrument =
     (let exchange = (case ii_exchange instrument of
            Shanghai \<Rightarrow> ''SH'' | Shenzhen \<Rightarrow> ''SZ'' | Beijing \<Rightarrow> ''BJ'');
          asset_class = (case ii_asset_class instrument of Equity \<Rightarrow> ''EQUITY'' | _ \<Rightarrow> ''INVALID'')
      in asset_class @ '':'' @ exchange @ '':'' @ ii_code instrument)"

text \<open>\<open>serde_json::from_value::<AnomalyEvent>\<close>: the library reads the fields, the deserializer of
  the event checks them.\<close>

definition anomaly_from_value ::
  "(u8 list \<Rightarrow> u8 list) \<Rightarrow> 'j serde_lib \<Rightarrow> 'j \<Rightarrow> (anomaly_event, status) rres" where
  "anomaly_from_value sha js v =
     (case sj_anomaly_wire js v of
        None \<Rightarrow> Err (invalid_argument ''analysis anomaly_event is invalid'')
      | Some wire \<Rightarrow>
          map_err (\<lambda>_. invalid_argument ''analysis anomaly_event is invalid'')
            (anomaly_event_deserialize sha wire))"

definition expected_rule_of :: "string \<Rightarrow> (string, status) rres" where
  "expected_rule_of family =
     (if family = ''price'' then Ok ''local_price_change''
      else if family = ''amount'' then Ok ''local_amount_spike''
      else if family = ''volume'' then Ok ''local_volume_spike''
      else Err (invalid_argument ''analysis family is invalid''))"

definition validate_admitted_analysis_event ::
  "(u8 list \<Rightarrow> u8 list) \<Rightarrow> 'j serde_lib \<Rightarrow> envelope \<Rightarrow> 'j \<Rightarrow> (unit, status) rres" where
  "validate_admitted_analysis_event sha js e document =
     (if en_event_kind e \<noteq> ''analysis'' \<or> en_source_at e \<noteq> ''''
         \<or> get_bool js document ''admitted'' \<noteq> Some True
      then Err (failed_precondition
             ''admitted LocalAnalysis requires an observation-time analysis payload'')
      else
        rbind (ok_or (invalid_argument ''analysis update is missing'')
                 (Option.bind (sj_get js document ''update'') (sj_as_object js))) (\<lambda>update.
        rbind (ok_or (invalid_argument ''analysis family is missing'')
                 (Option.bind (update ''family'') (sj_as_str js))) (\<lambda>family.
        rbind (ok_or (invalid_argument ''analysis rule version is missing'')
                 (Option.bind (update ''rule_version'') (sj_as_u64 js))) (\<lambda>revision.
        rbind (ok_or (invalid_argument ''analysis anomaly_event is missing'') (update ''anomaly_event'')) (\<lambda>v.
        rbind (anomaly_from_value sha js v) (\<lambda>anomaly.
        rbind (expected_rule_of family) (\<lambda>expected_rule.
        if text_str (ri_id (ae_rule anomaly)) \<noteq> expected_rule
           \<or> ucast (positive_u32_get (ri_revision (ae_rule anomaly))) \<noteq> revision
           \<or> ae_transition anomaly \<notin> {anomaly_transition.Triggered, anomaly_transition.Rearmed}
           \<or> canonical_equity_label (ae_instrument anomaly) \<noteq> en_instrument e
           \<or> event_id_str (ae_event_id anomaly) \<noteq> en_event_id e
           \<or> observed_at_of (ae_derived_evidence anomaly) \<noteq> en_observed_at e
        then Err (invalid_argument ''analysis anomaly identity does not match its envelope'')
        else Ok ())))))))"

definition validate_admitted_tdx_event ::
  "(u8 list \<Rightarrow> u8 list) \<Rightarrow> 'j serde_lib \<Rightarrow> envelope \<Rightarrow> canonical_payload \<Rightarrow> (unit, status) rres" where
  "validate_admitted_tdx_event sha js e payload =
     (if cp_schema payload \<noteq> ''magic.market.monitor.'' @ en_event_kind e \<or> cp_schema_version payload \<noteq> 1
      then Err (invalid_argument ''admitted TDX payload schema does not match its event kind'')
      else
        rbind (ok_or (invalid_argument ''admitted TDX payload is not JSON'')
                 (sj_from_slice js (cp_data payload))) (\<lambda>document.
        if get_str js document ''type'' \<noteq> Some (en_event_kind e)
           \<or> get_str js document ''instrument'' \<noteq> Some (en_instrument e)
        then Err (invalid_argument ''admitted TDX payload identity does not match the envelope'')
        else if en_provider e = ''LocalAnalysis''
        then validate_admitted_analysis_event sha js e document
        else if en_provider e \<noteq> ''LocalTerminal''
        then Err (failed_precondition ''admitted TDX provider is outside the local terminal boundary'')
        else
          rbind (if en_event_kind e = ''observation'' then
                   rbind (admitted_json_field js document ''price_admitted'' ''price'') (\<lambda>price.
                   rbind (admitted_json_field js document ''volume_admitted'' ''cumulative_volume'') (\<lambda>volume.
                   Ok (price \<or> volume)))
                 else if en_event_kind e = ''snapshot_observation'' then
                   rbind (admitted_json_field js document ''amount_admitted'' ''cumulative_amount'') (\<lambda>amount.
                   rbind (admitted_json_field js document ''previous_close_admitted'' ''previous_close'')
                     (\<lambda>previous_close.
                   rbind (admitted_json_fields js document ''ohlc_admitted'' [''open'', ''high'', ''low'']) (\<lambda>ohlc.
                   Ok (amount \<or> previous_close \<or> ohlc))))
                 else Ok False) (\<lambda>admitted.
          if admitted then Ok ()
          else Err (failed_precondition ''TDX event kind or family is not repository-admitted''))))"

section \<open>Envelopes, hellos and request contexts\<close>

definition envelope_identity_ok :: "envelope \<Rightarrow> bool" where
  "envelope_identity_ok e \<longleftrightarrow> \<not> (en_protocol_version e \<noteq> protocol_version
     \<or> trim (en_event_id e) = '''' \<or> trim (en_event_kind e) = '''' \<or> trim (en_instrument e) = ''''
     \<or> trim (en_observed_at e) = '''')"

definition validate_envelope_parts :: "envelope \<Rightarrow> usize \<Rightarrow> (canonical_payload, status) rres" where
  "validate_envelope_parts e maximum =
     rbind (ok_or (invalid_argument ''event cursor is required'') (en_cursor e)) (\<lambda>cursor.
     if trim (ec_generation cursor) = '''' \<or> ec_sequence cursor = 0
     then Err (invalid_argument ''event cursor is invalid'')
     else
       rbind (ok_or (invalid_argument ''event payload is required'') (en_payload e)) (\<lambda>payload.
       rbind (map_err (\<lambda>x. invalid_argument (contract_error_display x))
                (validate_payload payload maximum)) (\<lambda>_. Ok payload)))"

definition validate_local_event :: "envelope \<Rightarrow> usize \<Rightarrow> (unit, status) rres" where
  "validate_local_event e maximum =
     (if \<not> envelope_identity_ok e then Err (invalid_argument ''event identity fields are invalid'')
      else
        rbind (validate_envelope_parts e maximum) (\<lambda>_.
        if admission_state_of (en_admission e) \<in> {Some Admitted, Some Unadmitted} then Ok ()
        else Err (invalid_argument ''event admission state is invalid'')))"

definition validate_event ::
  "(u8 list \<Rightarrow> u8 list) \<Rightarrow> 'j serde_lib \<Rightarrow> envelope \<Rightarrow> usize \<Rightarrow> (unit, status) rres" where
  "validate_event sha js e maximum =
     (if \<not> envelope_identity_ok e then Err (invalid_argument ''event identity fields are invalid'')
      else if en_provider e \<noteq> ''LocalTerminal'' \<and> en_provider e \<noteq> ''LocalAnalysis''
      then Err (status_of PermissionDenied ''TDX agent provider is outside its boundary'')
      else
        rbind (validate_envelope_parts e maximum) (\<lambda>payload.
        case admission_state_of (en_admission e) of
          Some Admitted \<Rightarrow> validate_admitted_tdx_event sha js e payload
        | Some Unadmitted \<Rightarrow> Ok ()
        | _ \<Rightarrow> Err (invalid_argument ''event admission state is invalid'')))"

definition validate_hello :: "agent_hello \<Rightarrow> usize \<Rightarrow> (unit, status) rres" where
  "validate_hello hello maximum_payload_bytes =
     (if ah_protocol_version hello \<noteq> protocol_version
      then Err (invalid_argument ''unsupported agent protocol version'')
      else if trim (ah_agent_id hello) = '''' \<or> trim (ah_terminal_generation hello) = ''''
      then Err (invalid_argument ''agent_id and terminal_generation are required'')
      else
        rbind (ok_or (invalid_argument ''terminal evidence is required'') (ah_terminal_evidence hello))
          (\<lambda>evidence.
        rbind (map_err (\<lambda>x. invalid_argument (contract_error_display x))
                 (validate_payload evidence maximum_payload_bytes)) (\<lambda>_.
        map_err (\<lambda>x. invalid_argument (watchlist_error_display x))
          (validate_monitor_watchlist (ah_watchlist_instruments hello)
             (ucast (ah_maximum_watchlist_instruments hello))))))"

definition validate_context :: "request_context option \<Rightarrow> (request_context, status) rres" where
  "validate_context context =
     rbind (ok_or (invalid_argument ''request context is required'') context) (\<lambda>context.
     if rc_protocol_version context \<noteq> protocol_version \<or> trim (rc_request_id context) = ''''
     then Err (invalid_argument ''request context is invalid'')
     else Ok context)"

end
