(* ===== verification/Event_Hub.thy ===== *)
theory Event_Hub
  imports Event_Admission Retained_Log
begin

text \<open>
  The event hub of \<open>magic-market-grpc-server\<close> (\<open>events.rs\<close>). Its state sits behind one lock, so
  every operation is one step from a state to a state and a result. Parameters of the model: the
  encoded length \<open>prost\<close> computes for an envelope (\<open>elen\<close>), SHA-256 and \<open>serde_json\<close>. The
  bounded command channel of the agent and the number of live receivers are part of the state;
  the broadcast channel itself is not.
\<close>

section \<open>Configuration and state\<close>

record event_hub =
  eh_max_subscribers :: usize
  eh_replay_max_events :: usize
  eh_replay_max_bytes :: usize
  eh_maximum_payload_bytes :: usize
  eh_agent_command_capacity :: usize
  eh_agent_heartbeat_timeout :: nat

text \<open>A bounded \<open>mpsc\<close> channel: its queue, and whether the receiver is gone.\<close>

record command_channel =
  cc_capacity :: usize
  cc_queue :: "agent_command list"
  cc_closed :: bool

definition channel_new :: "usize \<Rightarrow> command_channel" where
  "channel_new capacity = \<lparr>cc_capacity = capacity, cc_queue = [], cc_closed = False\<rparr>"

definition try_send :: "command_channel \<Rightarrow> agent_command \<Rightarrow> command_channel option" where
  "try_send ch command =
     (if cc_closed ch \<or> unat (cc_capacity ch) \<le> length (cc_queue ch) then None
      else Some (ch\<lparr>cc_queue := cc_queue ch @ [command]\<rparr>))"

record hub_state =
  hs_generation :: "string option"
  hs_latest_sequence :: u64
  hs_local_sequence :: u64
  hs_replay_bytes :: usize
  hs_replay :: "envelope list"
  hs_agent_session :: "u64 option"
  hs_agent_commands :: "command_channel option"
  hs_maximum_watchlist_instruments :: u32
  hs_desired_watchlist_revision :: u64
  hs_desired_instruments :: "string list"
  hs_applied_watchlist_revision :: u64
  hs_applied_instruments :: "string list"
  hs_next_session :: u64
  hs_agent_connections_total :: u64
  hs_agent_disconnects_total :: u64
  hs_events_published_total :: u64
  hs_replay_evictions_total :: u64
  hs_receivers :: usize

definition hub_state_new :: hub_state where
  "hub_state_new =
     \<lparr>hs_generation = None, hs_latest_sequence = 0, hs_local_sequence = 0, hs_replay_bytes = 0,
      hs_replay = [], hs_agent_session = None, hs_agent_commands = None,
      hs_maximum_watchlist_instruments = 0, hs_desired_watchlist_revision = 0,
      hs_desired_instruments = [], hs_applied_watchlist_revision = 0, hs_applied_instruments = [],
      hs_next_session = 1, hs_agent_connections_total = 0, hs_agent_disconnects_total = 0,
      hs_events_published_total = 0, hs_replay_evictions_total = 0, hs_receivers = 0\<rparr>"

definition event_hub_new ::
  "usize \<Rightarrow> usize \<Rightarrow> usize \<Rightarrow> usize \<Rightarrow> usize \<Rightarrow> usize \<Rightarrow> nat \<Rightarrow> (event_hub \<times> hub_state, string) rres" where
  "event_hub_new max_subscribers subscriber_queue_capacity replay_max_events replay_max_bytes
       maximum_payload_bytes agent_command_capacity agent_heartbeat_timeout =
     (if max_subscribers = 0 \<or> subscriber_queue_capacity = 0 \<or> replay_max_events = 0
         \<or> replay_max_bytes = 0 \<or> maximum_payload_bytes = 0 \<or> agent_command_capacity = 0
         \<or> agent_heartbeat_timeout = 0
      then Err ''event hub limits must be positive''
      else Ok (\<lparr>eh_max_subscribers = max_subscribers, eh_replay_max_events = replay_max_events,
                eh_replay_max_bytes = replay_max_bytes, eh_maximum_payload_bytes = maximum_payload_bytes,
                eh_agent_command_capacity = agent_command_capacity,
                eh_agent_heartbeat_timeout = agent_heartbeat_timeout\<rparr>, hub_state_new))"

section \<open>Agents\<close>

definition same_generation :: "hub_state \<Rightarrow> string \<Rightarrow> bool" where
  "same_generation s generation \<longleftrightarrow> hs_generation s = Some generation"

text \<open>A hello of another generation starts an empty replay lane.\<close>

definition enter_generation :: "hub_state \<Rightarrow> string \<Rightarrow> hub_state" where
  "enter_generation s generation =
     (if same_generation s generation then s
      else s\<lparr>hs_replay_evictions_total :=
               saturating_add (hs_replay_evictions_total s) (of_nat (length (hs_replay s))),
             hs_generation := Some generation, hs_latest_sequence := 0, hs_replay_bytes := 0,
             hs_replay := []\<rparr>)"

definition connect_agent ::
  "event_hub \<Rightarrow> hub_state \<Rightarrow> agent_hello \<Rightarrow> command_channel
     \<Rightarrow> hub_state \<times> (u64 \<times> u64 \<times> configure_watchlist option, status) rres" where
  "connect_agent hub s hello commands =
     sbind (s, validate_hello hello (eh_maximum_payload_bytes hub)) (\<lambda>s _.
     if hs_agent_session s \<noteq> None
     then (s, Err (status_of AlreadyExists ''a TDX agent stream is already active''))
     else
       let adopts = (hs_desired_instruments s = []) in
       if \<not> adopts \<and> hs_desired_watchlist_revision s < ah_watchlist_revision hello
       then (s, Err (failed_precondition ''agent watchlist revision is ahead of the server revision''))
       else if \<not> adopts \<and> ah_watchlist_revision hello = hs_desired_watchlist_revision s
               \<and> ah_watchlist_instruments hello \<noteq> hs_desired_instruments s
       then (s, Err (failed_precondition ''agent watchlist contradicts the server revision''))
       else
         let s = enter_generation s (ah_terminal_generation hello); session = hs_next_session s in
         (case checked_add session 1 of
            None \<Rightarrow> (s, Err (resource_exhausted ''agent session identifier exhausted''))
          | Some next_session \<Rightarrow>
              let s = s\<lparr>hs_next_session := next_session, hs_agent_session := Some session,
                        hs_agent_connections_total := saturating_add (hs_agent_connections_total s) 1,
                        hs_agent_commands := Some commands,
                        hs_maximum_watchlist_instruments := ah_maximum_watchlist_instruments hello\<rparr>;
                  s = (if adopts
                       then s\<lparr>hs_desired_watchlist_revision := ah_watchlist_revision hello,
                              hs_desired_instruments := ah_watchlist_instruments hello\<rparr> else s);
                  s = s\<lparr>hs_applied_watchlist_revision := ah_watchlist_revision hello,
                        hs_applied_instruments := ah_watchlist_instruments hello\<rparr>;
                  configure =
                    (if hs_applied_watchlist_revision s \<noteq> hs_desired_watchlist_revision s
                        \<or> hs_applied_instruments s \<noteq> hs_desired_instruments s
                     then Some \<lparr>cw_revision = hs_desired_watchlist_revision s,
                                cw_instruments = hs_desired_instruments s\<rparr>
                     else None)
              in (s, Ok (session, hs_latest_sequence s, configure))))"

definition disconnect_agent :: "hub_state \<Rightarrow> u64 \<Rightarrow> hub_state" where
  "disconnect_agent s session =
     (if hs_agent_session s = Some session
      then s\<lparr>hs_agent_session := None, hs_agent_commands := None,
             hs_maximum_watchlist_instruments := 0,
             hs_agent_disconnects_total := saturating_add (hs_agent_disconnects_total s) 1\<rparr>
      else s)"

record set_watchlist_response =
  sw_request_id :: string
  sw_desired_revision :: u64
  sw_state :: string
  sw_instruments :: "string list"

definition set_watchlist ::
  "hub_state \<Rightarrow> string \<Rightarrow> string list \<Rightarrow> hub_state \<times> (set_watchlist_response, status) rres" where
  "set_watchlist s request_id instruments =
     (if hs_agent_session s = None \<or> hs_maximum_watchlist_instruments s = 0
      then (s, Err (status_of Unavailable ''no TDX agent is active''))
      else
        sbind (s, map_err (\<lambda>e. invalid_argument (watchlist_error_display e))
                 (validate_monitor_watchlist instruments (ucast (hs_maximum_watchlist_instruments s)))) (\<lambda>s _.
        if instruments = hs_desired_instruments s
        then (s, Ok \<lparr>sw_request_id = request_id,
                     sw_desired_revision = hs_desired_watchlist_revision s,
                     sw_state = ''unchanged'', sw_instruments = instruments\<rparr>)
        else
          sbind (s, ok_or (resource_exhausted ''watchlist revision exhausted'')
                   (checked_add (hs_desired_watchlist_revision s) 1)) (\<lambda>s revision.
          let command = ConfigureWatchlist \<lparr>cw_revision = revision, cw_instruments = instruments\<rparr> in
          sbind (s, ok_or (status_of Unavailable ''TDX agent command stream is unavailable'')
                   (hs_agent_commands s)) (\<lambda>s commands.
          sbind (s, ok_or (resource_exhausted ''TDX agent command queue is unavailable'')
                   (try_send commands command)) (\<lambda>s commands.
          (s\<lparr>hs_agent_commands := Some commands, hs_desired_watchlist_revision := revision,
             hs_desired_instruments := instruments\<rparr>,
           Ok \<lparr>sw_request_id = request_id, sw_desired_revision = revision,
               sw_state = ''restarting'', sw_instruments = instruments\<rparr>))))))"

definition heartbeat :: "hub_state \<Rightarrow> u64 \<Rightarrow> string \<Rightarrow> u64 \<Rightarrow> (u64, status) rres" where
  "heartbeat s session generation last_sequence =
     (if hs_agent_session s \<noteq> Some session \<or> \<not> same_generation s generation
      then Err (failed_precondition ''heartbeat does not match the active agent generation'')
      else if last_sequence \<noteq> hs_latest_sequence s
      then Err (failed_precondition ''heartbeat cursor does not equal the server cursor'')
      else Ok (hs_latest_sequence s))"

section \<open>Publication\<close>

text \<open>The eviction loop. It does not end when the bytes exceed the limit of an empty log, so it
  is a partial function; its result is the retained events, their bytes and the number dropped.\<close>

partial_function (option) evict_events ::
  "(envelope \<Rightarrow> usize) \<Rightarrow> event_hub \<Rightarrow> envelope list \<Rightarrow> usize \<Rightarrow> u64 \<Rightarrow> (envelope list \<times> usize \<times> u64) option"
where
  "evict_events elen hub replay bytes evictions =
     (if unat (eh_replay_max_events hub) < length replay \<or> eh_replay_max_bytes hub < bytes
      then (case replay of
              [] \<Rightarrow> evict_events elen hub replay bytes evictions
            | removed # rest \<Rightarrow>
                evict_events elen hub rest (saturating_sub bytes (elen removed)) (saturating_add evictions 1))
      else Some (replay, bytes, evictions))"

definition cursor_of :: "envelope \<Rightarrow> event_cursor" where
  "cursor_of e = the (en_cursor e)"

text \<open>The result \<open>None\<close> is a call that never returns.\<close>

definition publish ::
  "(u8 list \<Rightarrow> u8 list) \<Rightarrow> 'j serde_lib \<Rightarrow> (envelope \<Rightarrow> usize) \<Rightarrow> event_hub \<Rightarrow> u64 \<Rightarrow> hub_state \<Rightarrow> envelope
     \<Rightarrow> (hub_state \<times> (u64, status) rres) option" where
  "publish sha js elen hub session s event =
     (case validate_event sha js event (eh_maximum_payload_bytes hub) of
        Err x \<Rightarrow> Some (s, Err x)
      | Panic p \<Rightarrow> Some (s, Panic p)
      | Ok _ \<Rightarrow>
     (case en_cursor event of
        None \<Rightarrow> Some (s, Err (invalid_argument ''event cursor is required''))
      | Some cursor \<Rightarrow>
      let encoded_len = elen event in
      if eh_replay_max_bytes hub < encoded_len
      then Some (s, Err (resource_exhausted ''event exceeds the complete replay byte budget''))
      else if hs_agent_session s \<noteq> Some session
      then Some (s, Err (failed_precondition ''agent session is no longer active''))
      else if \<not> same_generation s (ec_generation cursor)
      then Some (s, Err (failed_precondition ''event generation does not match agent hello''))
      else (case checked_add (hs_latest_sequence s) 1 of
        None \<Rightarrow> Some (s, Err (resource_exhausted ''event sequence exhausted''))
      | Some expected \<Rightarrow>
      if ec_sequence cursor \<noteq> expected
      then Some (s, Err (failed_precondition (''event sequence must be exactly '' @ dec (unat expected))))
      else
        let s = s\<lparr>hs_latest_sequence := ec_sequence cursor,
                  hs_events_published_total := saturating_add (hs_events_published_total s) 1\<rparr> in
        (case checked_add (hs_replay_bytes s) encoded_len of
           None \<Rightarrow> Some (s, Err (resource_exhausted ''replay byte accounting overflow''))
         | Some bytes \<Rightarrow>
             map_option (\<lambda>(replay, bytes, evictions).
                 (s\<lparr>hs_replay := replay, hs_replay_bytes := bytes, hs_replay_evictions_total := evictions\<rparr>,
                  Ok (ec_sequence cursor)))
               (evict_events elen hub (hs_replay s @ [event]) bytes (hs_replay_evictions_total s))))))"

definition local_event_generation :: string where
  "local_event_generation = ''server-internal''"

text \<open>The server's own events. The result carries the event as it is broadcast.\<close>

definition publish_local ::
  "(envelope \<Rightarrow> usize) \<Rightarrow> event_hub \<Rightarrow> hub_state \<Rightarrow> envelope \<Rightarrow> hub_state \<times> (u64 \<times> envelope, status) rres" where
  "publish_local elen hub s event =
     (case checked_add (hs_local_sequence s) 1 of
        None \<Rightarrow> (s, Err (resource_exhausted ''local event sequence exhausted''))
      | Some sequence \<Rightarrow>
          let s = s\<lparr>hs_local_sequence := sequence\<rparr> in
          (case en_cursor event of
             None \<Rightarrow> (s, Err (invalid_argument ''event cursor is required''))
           | Some cursor \<Rightarrow>
               let event = event\<lparr>en_cursor := Some (cursor\<lparr>ec_sequence := sequence,
                                   ec_generation := local_event_generation\<rparr>)\<rparr> in
               sbind (s, validate_local_event event (eh_maximum_payload_bytes hub)) (\<lambda>s _.
               if eh_replay_max_bytes hub < elen event
               then (s, Err (resource_exhausted ''event exceeds the complete replay byte budget''))
               else (s\<lparr>hs_events_published_total := saturating_add (hs_events_published_total s) 1\<rparr>,
                     Ok (sequence, event)))))"

section \<open>Subscription and replay\<close>

record event_filter =
  ef_instruments :: "string list"
  ef_event_kinds :: "string list"

definition filter_from_wire :: "event_filter_message option \<Rightarrow> (event_filter, status) rres" where
  "filter_from_wire m =
     (let f = (case m of None \<Rightarrow> \<lparr>fm_instruments = [], fm_event_kinds = []\<rparr> | Some f \<Rightarrow> f) in
      if list_ex (\<lambda>v. trim v = '''') (fm_instruments f) \<or> list_ex (\<lambda>v. trim v = '''') (fm_event_kinds f)
      then Err (invalid_argument ''event filter values must not be empty'')
      else Ok \<lparr>ef_instruments = fm_instruments f, ef_event_kinds = fm_event_kinds f\<rparr>)"

definition filter_matches :: "event_filter \<Rightarrow> envelope \<Rightarrow> bool" where
  "filter_matches f e \<longleftrightarrow> (ef_instruments f = [] \<or> en_instrument e \<in> set (ef_instruments f))
     \<and> (ef_event_kinds f = [] \<or> en_event_kind e \<in> set (ef_event_kinds f))"

definition validate_live_cursor :: "event_cursor option \<Rightarrow> hub_state \<Rightarrow> (unit, status) rres" where
  "validate_live_cursor after s =
     (case after of
        None \<Rightarrow> Ok ()
      | Some c \<Rightarrow>
          (case hs_generation s of
             None \<Rightarrow> Err (failed_precondition ''no TDX terminal generation is active'')
           | Some generation \<Rightarrow>
               if ec_generation c \<noteq> generation
               then Err (failed_precondition ''subscription generation does not match'')
               else if ec_sequence c \<noteq> hs_latest_sequence s
               then Err (failed_precondition
                      ''subscription cursor must equal the current cursor; replay gaps first'')
               else Ok ()))"

record subscriber_stream =
  ss_filter :: event_filter
  ss_last_cursor :: "event_cursor option"
  ss_terminated :: bool

definition subscribe_from ::
  "event_hub \<Rightarrow> hub_state \<Rightarrow> event_cursor option \<Rightarrow> event_filter
     \<Rightarrow> hub_state \<times> (subscriber_stream, status) rres" where
  "subscribe_from hub s after flt =
     (if eh_max_subscribers hub \<le> hs_receivers s
      then (s, Err (resource_exhausted ''maximum subscriber count reached''))
      else
        sbind (s, validate_live_cursor after s) (\<lambda>s _.
        (s\<lparr>hs_receivers := hs_receivers s + 1\<rparr>,
         Ok \<lparr>ss_filter = flt, ss_last_cursor = after, ss_terminated = False\<rparr>)))"

definition drop_subscriber :: "hub_state \<Rightarrow> hub_state" where
  "drop_subscriber s = s\<lparr>hs_receivers := saturating_sub (hs_receivers s) 1\<rparr>"

text \<open>What the broadcast receiver gives when it is polled, and what the stream gives.\<close>

datatype broadcast_poll = Received envelope | Lagged u64 | Closed | PollPending
datatype stream_poll = Item envelope | Failed status | Ended | Pending

definition cursor_label :: "event_cursor option \<Rightarrow> string" where
  "cursor_label c = (case c of None \<Rightarrow> ''none''
     | Some v \<Rightarrow> ec_generation v @ '':'' @ dec (unat (ec_sequence v)))"

text \<open>The loop polls the receiver until an event passes the filter; the polls still to come are
  a list, and an exhausted list is a receiver with nothing to give yet.\<close>

fun poll_loop ::
  "subscriber_stream \<Rightarrow> broadcast_poll list \<Rightarrow> subscriber_stream \<times> broadcast_poll list \<times> stream_poll" where
  "poll_loop st [] = (st, [], Pending)"
| "poll_loop st (Received e # ps) =
     (if filter_matches (ss_filter st) e
      then (st\<lparr>ss_last_cursor := en_cursor e\<rparr>, ps, Item e) else poll_loop st ps)"
| "poll_loop st (Lagged skipped # ps) =
     (st\<lparr>ss_terminated := True\<rparr>, ps,
      Failed (resource_exhausted (''subscriber queue lagged by '' @ dec (unat skipped)
        @ '' events; last_cursor='' @ cursor_label (ss_last_cursor st))))"
| "poll_loop st (Closed # ps) = (st, Closed # ps, Ended)"
| "poll_loop st (PollPending # ps) = (st, ps, Pending)"

definition poll_next ::
  "subscriber_stream \<Rightarrow> broadcast_poll list \<Rightarrow> subscriber_stream \<times> broadcast_poll list \<times> stream_poll" where
  "poll_next st ps = (if ss_terminated st then (st, ps, Ended) else poll_loop st ps)"

definition hub_replay_after ::
  "hub_state \<Rightarrow> event_cursor option \<Rightarrow> event_filter \<Rightarrow> (envelope list, status) rres" where
  "hub_replay_after s after flt =
     (case hs_generation s of
        None \<Rightarrow> Err (failed_precondition ''no TDX terminal generation is active'')
      | Some generation \<Rightarrow>
          rbind (case after of
              None \<Rightarrow> Ok 0
            | Some cursor \<Rightarrow>
                if ec_generation cursor \<noteq> generation
                then Err (failed_precondition ''replay generation does not match'')
                else if hs_latest_sequence s < ec_sequence cursor
                then Err (failed_precondition ''replay cursor is ahead of the stream'')
                else if (case hs_replay s of
                           [] \<Rightarrow> False
                         | e # _ \<Rightarrow>
                             (case en_cursor e of
                                None \<Rightarrow> False
                              | Some first \<Rightarrow> saturating_add (ec_sequence cursor) 1 < ec_sequence first))
                then Err (status_of OutOfRange ''replay cursor is older than retained data'')
                else Ok (ec_sequence cursor)) (\<lambda>after_sequence.
          Ok (List.filter (\<lambda>e. (case en_cursor e of None \<Rightarrow> False | Some c \<Rightarrow> after_sequence < ec_sequence c)
                 \<and> filter_matches flt e) (hs_replay s))))"

section \<open>The agent stream\<close>

text \<open>The first message of a stream: none in time, a transport error, the end of the stream, or a
  message, which is a hello or not.\<close>

datatype first_message = HelloTimeout | TransportFailed status | StreamEnded | Hello agent_hello | NotHello

definition send_command :: "hub_state \<Rightarrow> agent_command \<Rightarrow> (hub_state, unit) rres" where
  "send_command s command =
     (case hs_agent_commands s of
        None \<Rightarrow> Err ()
      | Some ch \<Rightarrow> (case try_send ch command of
                      None \<Rightarrow> Err ()
                    | Some ch \<Rightarrow> Ok (s\<lparr>hs_agent_commands := Some ch\<rparr>)))"

text \<open>An error returned after the agent is connected drops the receiver of the channel.\<close>

definition close_receiver :: "hub_state \<Rightarrow> hub_state" where
  "close_receiver s = s\<lparr>hs_agent_commands := map_option (\<lambda>ch. ch\<lparr>cc_closed := True\<rparr>) (hs_agent_commands s)\<rparr>"

text \<open>Opening a stream is three steps, since the lock of the state is released after the agent is
  connected and \<open>try_send\<close> takes no lock: the agent is connected, its acknowledgement is queued,
  and the pending configuration is queued. Other requests may run between them. The first step
  leaves what the handler keeps for the other two.\<close>

record stream_opening =
  op_session :: u64
  op_generation :: string
  op_accepted_sequence :: u64
  op_configuration :: "configure_watchlist option"

definition open_connect ::
  "event_hub \<Rightarrow> hub_state \<Rightarrow> first_message \<Rightarrow> hub_state \<times> (stream_opening, status) rres" where
  "open_connect hub s first =
     (case first of
        HelloTimeout \<Rightarrow> (s, Err (status_of DeadlineExceeded ''agent hello deadline exceeded''))
      | TransportFailed x \<Rightarrow> (s, Err x)
      | StreamEnded \<Rightarrow> (s, Err (invalid_argument ''agent hello is required''))
      | NotHello \<Rightarrow> (s, Err (invalid_argument ''first agent message must be hello''))
      | Hello hello \<Rightarrow>
          sbind (connect_agent hub s hello (channel_new (eh_agent_command_capacity hub)))
            (\<lambda>s (session, accepted_sequence, pending_configuration).
          (s, Ok \<lparr>op_session = session, op_generation = ah_terminal_generation hello,
                  op_accepted_sequence = accepted_sequence, op_configuration = pending_configuration\<rparr>)))"

definition open_send :: "hub_state \<Rightarrow> agent_command \<Rightarrow> hub_state \<times> (unit, status) rres" where
  "open_send s command =
     (case send_command s command of
        Ok s \<Rightarrow> (s, Ok ())
      | _ \<Rightarrow> (close_receiver s, Err (resource_exhausted ''agent command queue is unavailable'')))"

definition open_acknowledge :: "hub_state \<Rightarrow> stream_opening \<Rightarrow> hub_state \<times> (unit, status) rres" where
  "open_acknowledge s opened = open_send s (Ack (op_generation opened) (op_accepted_sequence opened))"

definition open_configure :: "hub_state \<Rightarrow> stream_opening \<Rightarrow> hub_state \<times> (u64 \<times> string, status) rres" where
  "open_configure s opened =
     sbind (case op_configuration opened of
              None \<Rightarrow> (s, Ok ())
            | Some configuration \<Rightarrow> open_send s (ConfigureWatchlist configuration)) (\<lambda>s _.
     (s, Ok (op_session opened, op_generation opened)))"

text \<open>The whole handler when no other request runs between its steps.\<close>

definition open_stream ::
  "event_hub \<Rightarrow> hub_state \<Rightarrow> first_message \<Rightarrow> hub_state \<times> (u64 \<times> string, status) rres" where
  "open_stream hub s first =
     sbind (open_connect hub s first) (\<lambda>s opened.
     sbind (open_acknowledge s opened) (\<lambda>s _.
     open_configure s opened))"

lemmas open_stream_defs = open_stream_def open_connect_def open_acknowledge_def open_configure_def open_send_def

text \<open>One turn of the task that serves an open stream. The result says whether the loop goes on;
  when it does not, the agent is disconnected.\<close>

datatype agent_message = AgentEvent envelope | AgentHeartbeat string u64 | AgentOther | AgentGone

definition answer_agent ::
  "hub_state \<Rightarrow> u64 \<Rightarrow> string \<Rightarrow> (u64, status) rres \<Rightarrow> (hub_state \<times> bool, status) rres" where
  "answer_agent s session generation outcome =
     (case outcome of
        Ok sequence \<Rightarrow>
          (case send_command s (Ack generation sequence) of
             Ok s \<Rightarrow> Ok (s, True)
           | _ \<Rightarrow> Ok (disconnect_agent s session, False))
      | Err x \<Rightarrow>
          (case send_command s (StopAgent (st_message x)) of
             Ok s \<Rightarrow> Ok (disconnect_agent s session, False)
           | _ \<Rightarrow> Ok (disconnect_agent s session, False))
      | Panic p \<Rightarrow> Panic p)"

definition serve_agent ::
  "(u8 list \<Rightarrow> u8 list) \<Rightarrow> 'j serde_lib \<Rightarrow> (envelope \<Rightarrow> usize) \<Rightarrow> event_hub \<Rightarrow> hub_state \<Rightarrow> u64 \<Rightarrow> string
     \<Rightarrow> agent_message \<Rightarrow> (hub_state \<times> bool, status) rres option" where
  "serve_agent sha js elen hub s session generation message =
     (case message of
        AgentGone \<Rightarrow> Some (Ok (disconnect_agent s session, False))
      | AgentEvent event \<Rightarrow>
          map_option (\<lambda>(s, outcome). answer_agent s session generation outcome)
            (publish sha js elen hub session s event)
      | AgentHeartbeat g n \<Rightarrow> Some (answer_agent s session generation (heartbeat s session g n))
      | AgentOther \<Rightarrow> Some (answer_agent s session generation
          (Err (invalid_argument ''agent stream message is invalid''))))"

section \<open>Status\<close>

record listener_status_response =
  ls_request_id :: string
  ls_state :: string
  ls_terminal_generation :: string
  ls_latest :: "event_cursor option"
  ls_desired_watchlist_revision :: u64
  ls_desired_instruments :: "string list"
  ls_applied_watchlist_revision :: u64
  ls_applied_instruments :: "string list"
  ls_maximum_watchlist_instruments :: u32
  ls_admitted_event_families :: "string list"
  ls_replay_oldest :: "event_cursor option"
  ls_replay_event_count :: u64
  ls_replay_bytes :: u64
  ls_active_subscribers :: u64
  ls_agent_connections_total :: u64
  ls_agent_disconnects_total :: u64
  ls_events_published_total :: u64
  ls_replay_evictions_total :: u64

definition listener_status :: "hub_state \<Rightarrow> string \<Rightarrow> listener_status_response" where
  "listener_status s request_id =
     \<lparr>ls_request_id = request_id,
      ls_state = (if hs_agent_session s \<noteq> None then ''agent_connected_production''
                  else if hs_generation s \<noteq> None then ''agent_disconnected'' else ''waiting_for_agent''),
      ls_terminal_generation = (case hs_generation s of None \<Rightarrow> '''' | Some g \<Rightarrow> g),
      ls_latest = map_option (\<lambda>g. \<lparr>ec_generation = g, ec_sequence = hs_latest_sequence s\<rparr>) (hs_generation s),
      ls_desired_watchlist_revision = hs_desired_watchlist_revision s,
      ls_desired_instruments = hs_desired_instruments s,
      ls_applied_watchlist_revision = hs_applied_watchlist_revision s,
      ls_applied_instruments = hs_applied_instruments s,
      ls_maximum_watchlist_instruments = hs_maximum_watchlist_instruments s,
      ls_admitted_event_families =
        [''local_terminal_price'', ''local_terminal_cumulative_volume'',
         ''local_terminal_cumulative_amount'', ''local_terminal_previous_close'',
         ''local_terminal_ohlc'', ''local_price_change_anomaly'', ''local_amount_change_anomaly'',
         ''local_volume_change_anomaly''],
      ls_replay_oldest = (case hs_replay s of [] \<Rightarrow> None | e # _ \<Rightarrow> en_cursor e),
      ls_replay_event_count = of_nat (length (hs_replay s)), ls_replay_bytes = hs_replay_bytes s,
      ls_active_subscribers = hs_receivers s,
      ls_agent_connections_total = hs_agent_connections_total s,
      ls_agent_disconnects_total = hs_agent_disconnects_total s,
      ls_events_published_total = hs_events_published_total s,
      ls_replay_evictions_total = hs_replay_evictions_total s\<rparr>"

section \<open>Requests\<close>

definition handle_subscribe ::
  "event_hub \<Rightarrow> hub_state \<Rightarrow> request_context option \<Rightarrow> event_filter_message option \<Rightarrow> event_cursor option
     \<Rightarrow> hub_state \<times> (subscriber_stream, status) rres" where
  "handle_subscribe hub s context flt after =
     sbind (s, validate_context context) (\<lambda>s _.
     sbind (s, filter_from_wire flt) (\<lambda>s flt. subscribe_from hub s after flt))"

definition handle_replay ::
  "hub_state \<Rightarrow> request_context option \<Rightarrow> event_filter_message option \<Rightarrow> event_cursor option
     \<Rightarrow> (envelope list, status) rres" where
  "handle_replay s context flt after =
     rbind (validate_context context) (\<lambda>_.
     rbind (filter_from_wire flt) (\<lambda>flt. hub_replay_after s after flt))"

definition handle_listener_status ::
  "hub_state \<Rightarrow> request_context option \<Rightarrow> (listener_status_response, status) rres" where
  "handle_listener_status s context =
     rbind (validate_context context) (\<lambda>context. Ok (listener_status s (rc_request_id context)))"

definition handle_set_watchlist ::
  "hub_state \<Rightarrow> request_context option \<Rightarrow> string list \<Rightarrow> hub_state \<times> (set_watchlist_response, status) rres" where
  "handle_set_watchlist s context instruments =
     sbind (s, validate_context context) (\<lambda>s context.
     set_watchlist s (rc_request_id context) instruments)"

end
