(* ===== verification/Hub_Invariant.thy ===== *)
theory Hub_Invariant
  imports Event_Hub
begin

text \<open>
  The invariant of the event hub and what each operation does to it. The replay lane is a
  retained log: the locale of \<open>Retained_Log\<close> is interpreted on \<open>publish\<close>.
\<close>

section \<open>The invariant\<close>

abbreviation event_seq :: "envelope \<Rightarrow> nat" where
  "event_seq e \<equiv> unat (ec_sequence (cursor_of e))"

text \<open>The byte limit is below half of the address space, so that the sum of two lengths the hub
  accepts fits a word.\<close>

definition hub_limits_ok :: "event_hub \<Rightarrow> bool" where
  "hub_limits_ok hub \<longleftrightarrow> 0 < unat (eh_replay_max_events hub)
     \<and> 2 * unat (eh_replay_max_bytes hub) < 2 ^ 64"

definition lane_ok :: "(envelope \<Rightarrow> usize) \<Rightarrow> event_hub \<Rightarrow> hub_state \<Rightarrow> bool" where
  "lane_ok elen hub s \<longleftrightarrow>
     unat (hs_replay_bytes s) = sum_list (map (\<lambda>e. unat (elen e)) (hs_replay s))
     \<and> fits (\<lambda>e. unat (elen e)) (unat (eh_replay_max_events hub)) (unat (eh_replay_max_bytes hub)) (hs_replay s)
     \<and> consecutive event_seq (hs_replay s)
     \<and> list_all (\<lambda>e. en_cursor e \<noteq> None \<and> hs_generation s = Some (ec_generation (cursor_of e))) (hs_replay s)
     \<and> hs_latest_sequence s = (if hs_replay s = [] then 0 else ec_sequence (cursor_of (last (hs_replay s))))"

definition agent_ok :: "hub_state \<Rightarrow> bool" where
  "agent_ok s \<longleftrightarrow>
     (hs_agent_session s = None \<longrightarrow> hs_agent_commands s = None \<and> hs_maximum_watchlist_instruments s = 0)
     \<and> (\<forall>session. hs_agent_session s = Some session \<longrightarrow> hs_agent_commands s \<noteq> None
          \<and> session < hs_next_session s \<and> hs_generation s \<noteq> None \<and> hs_desired_instruments s \<noteq> [])
     \<and> (hs_desired_instruments s \<noteq> [] \<longrightarrow> watchlist_ok (hs_desired_instruments s))"

definition hub_inv :: "(envelope \<Rightarrow> usize) \<Rightarrow> event_hub \<Rightarrow> hub_state \<Rightarrow> bool" where
  "hub_inv elen hub s \<longleftrightarrow> hub_limits_ok hub \<and> lane_ok elen hub s \<and> agent_ok s
     \<and> hs_receivers s \<le> eh_max_subscribers hub"

lemma hub_inv_new: "hub_limits_ok hub \<Longrightarrow> hub_inv elen hub hub_state_new"
  by (simp add: hub_inv_def lane_ok_def agent_ok_def hub_state_new_def)

section \<open>Publication\<close>

lemma saturating_sub_unat: "unat (saturating_sub a b) = unat a - unat b"
  by (simp add: saturating_sub_def unat_sub_word word_le_nat_alt not_le)

lemma evict_events_retain:
  assumes "unat bytes = sum_list (map (\<lambda>e. unat (elen e)) es)"
  shows "\<exists>b n. evict_events elen hub es bytes evictions
      = Some (retain (\<lambda>e. unat (elen e)) (unat (eh_replay_max_events hub)) (unat (eh_replay_max_bytes hub)) es, b, n)
    \<and> unat b = sum_list (map (\<lambda>e. unat (elen e))
        (retain (\<lambda>e. unat (elen e)) (unat (eh_replay_max_events hub)) (unat (eh_replay_max_bytes hub)) es))"
  using assms
proof (induction es arbitrary: bytes evictions)
  case Nil
  then show ?case by (subst evict_events.simps) (simp add: word_less_nat_alt)
next
  case (Cons e es)
  show ?case
  proof (cases "unat (eh_replay_max_events hub) < length (e # es) \<or> eh_replay_max_bytes hub < bytes")
    case True
    have "unat (saturating_sub bytes (elen e)) = sum_list (map (\<lambda>e. unat (elen e)) es)"
      using Cons.prems by (simp add: saturating_sub_unat)
    from Cons.IH [OF this, of "saturating_add evictions 1"] obtain b n where
      "evict_events elen hub es (saturating_sub bytes (elen e)) (saturating_add evictions 1)
        = Some (retain (\<lambda>e. unat (elen e)) (unat (eh_replay_max_events hub)) (unat (eh_replay_max_bytes hub)) es, b, n)"
      "unat b = sum_list (map (\<lambda>e. unat (elen e))
          (retain (\<lambda>e. unat (elen e)) (unat (eh_replay_max_events hub)) (unat (eh_replay_max_bytes hub)) es))"
      by blast
    then show ?thesis
      using True Cons.prems by (subst evict_events.simps) (auto simp: word_less_nat_alt not_le)
  next
    case False
    then show ?thesis
      using Cons.prems by (subst evict_events.simps) (auto simp: word_less_nat_alt not_less)
  qed
qed

definition is_next_event ::
  "(u8 list \<Rightarrow> u8 list) \<Rightarrow> 'j serde_lib \<Rightarrow> (envelope \<Rightarrow> usize) \<Rightarrow> event_hub \<Rightarrow> u64 \<Rightarrow> hub_state \<Rightarrow> envelope \<Rightarrow> bool"
where
  "is_next_event sha js elen hub session s e \<longleftrightarrow>
     validate_event sha js e (eh_maximum_payload_bytes hub) = Ok ()
     \<and> hs_agent_session s = Some session \<and> en_cursor e = Some (cursor_of e)
     \<and> hs_generation s = Some (ec_generation (cursor_of e))
     \<and> event_seq e = Suc (unat (hs_latest_sequence s))
     \<and> unat (elen e) \<le> unat (eh_replay_max_bytes hub)"

lemma checked_add_Suc: "checked_add w 1 = Some v \<longleftrightarrow> unat v = Suc (unat w)" for v w :: u64
proof
  assume "checked_add w 1 = Some v"
  from checked_add_unat [OF this] show "unat v = Suc (unat w)" by simp
next
  assume v: "unat v = Suc (unat w)"
  have "unat v < 2 ^ LENGTH(64)" by (rule unsigned_less)
  then have lt: "unat w + unat (1 :: u64) < 2 ^ LENGTH(64)" using v by simp
  from unat_add_no_overflow [OF this] v have "w + 1 = v" by (simp add: word_unat_eq_iff)
  then show "checked_add w 1 = Some v" using lt by (simp only: checked_add_def if_True)
qed

text \<open>In every state of the invariant a call returns. It accepts exactly the next event of the
  active session and generation, and a refused call changes nothing.\<close>

lemma publish_outcome:
  assumes inv: "hub_inv elen hub s"
  obtains s' r where "publish sha js elen hub session s e = Some (s', r)"
    and "is_ok r \<longleftrightarrow> is_next_event sha js elen hub session s e"
    and "is_ok r \<Longrightarrow> r = Ok (ec_sequence (cursor_of e))
       \<and> (\<exists>b n. s' = s\<lparr>hs_latest_sequence := ec_sequence (cursor_of e),
              hs_events_published_total := saturating_add (hs_events_published_total s) 1,
              hs_replay := retain (\<lambda>e. unat (elen e)) (unat (eh_replay_max_events hub))
                 (unat (eh_replay_max_bytes hub)) (hs_replay s @ [e]),
              hs_replay_bytes := b, hs_replay_evictions_total := n\<rparr>
            \<and> unat b = sum_list (map (\<lambda>e. unat (elen e)) (retain (\<lambda>e. unat (elen e))
                 (unat (eh_replay_max_events hub)) (unat (eh_replay_max_bytes hub)) (hs_replay s @ [e]))))"
    and "\<not> is_ok r \<Longrightarrow> s' = s"
proof (cases "validate_event sha js e (eh_maximum_payload_bytes hub)")
  case (Err x)
  then show ?thesis by (intro that [of s "Err x"]) (simp_all add: publish_def is_next_event_def)
next
  case (Panic p)
  then show ?thesis by (intro that [of s "Panic p"]) (simp_all add: publish_def is_next_event_def)
next
  case v: (Ok u)
  show ?thesis
  proof (cases "en_cursor e")
    case None
    then show ?thesis using v by (intro that [of s "Err (invalid_argument ''event cursor is required'')"])
      (simp_all add: publish_def is_next_event_def)
  next
    case c: (Some c)
    then have cc: "cursor_of e = c" by (simp add: cursor_of_def)
    let ?guard = "\<not> eh_replay_max_bytes hub < elen e \<and> hs_agent_session s = Some session
      \<and> same_generation s (ec_generation c) \<and> checked_add (hs_latest_sequence s) 1 = Some (ec_sequence c)"
    have guard: "?guard \<longleftrightarrow> is_next_event sha js elen hub session s e"
      using v c cc by (simp add: is_next_event_def same_generation_def checked_add_Suc word_le_nat_alt not_less) blast
    show ?thesis
    proof (cases ?guard)
      case False
      then have "\<exists>x. publish sha js elen hub session s e = Some (s, Err x)"
        by (cases "checked_add (hs_latest_sequence s) 1") (auto simp: publish_def v c Let_def)
      then obtain x where "publish sha js elen hub session s e = Some (s, Err x)" ..
      then show ?thesis using False guard by (intro that [of s "Err x"]) simp_all
    next
      case g: True
      then have small: "unat (elen e) \<le> unat (eh_replay_max_bytes hub)"
        by (simp add: word_less_nat_alt not_less)
      have used: "unat (hs_replay_bytes s) \<le> unat (eh_replay_max_bytes hub)"
        "2 * unat (eh_replay_max_bytes hub) < 2 ^ 64"
        "unat (hs_replay_bytes s) = sum_list (map (\<lambda>e. unat (elen e)) (hs_replay s))"
        using inv by (auto simp: hub_inv_def lane_ok_def fits_def hub_limits_ok_def)
      then obtain nb where nb: "checked_add (hs_replay_bytes s) (elen e) = Some nb"
        using small by (auto simp: checked_add_def)
      have "unat nb = sum_list (map (\<lambda>e. unat (elen e)) (hs_replay s @ [e]))"
        using checked_add_unat [OF nb] used(3) by simp
      from evict_events_retain [OF this, of hub "hs_replay_evictions_total s"] obtain b n where
        ev: "evict_events elen hub (hs_replay s @ [e]) nb (hs_replay_evictions_total s)
          = Some (retain (\<lambda>e. unat (elen e)) (unat (eh_replay_max_events hub))
             (unat (eh_replay_max_bytes hub)) (hs_replay s @ [e]), b, n)"
        and b: "unat b = sum_list (map (\<lambda>e. unat (elen e)) (retain (\<lambda>e. unat (elen e))
             (unat (eh_replay_max_events hub)) (unat (eh_replay_max_bytes hub)) (hs_replay s @ [e])))"
        by blast
      from g guard small ev b v c cc nb show ?thesis
        by (intro that [of "s\<lparr>hs_latest_sequence := ec_sequence c,
              hs_events_published_total := saturating_add (hs_events_published_total s) 1,
              hs_replay := retain (\<lambda>e. unat (elen e)) (unat (eh_replay_max_events hub))
                 (unat (eh_replay_max_bytes hub)) (hs_replay s @ [e]),
              hs_replay_bytes := b, hs_replay_evictions_total := n\<rparr>" "Ok (ec_sequence c)"])
           (auto simp: publish_def same_generation_def Let_def)
    qed
  qed
qed

lemma lane_ok_publish:
  assumes inv: "hub_inv elen hub s" and p: "publish sha js elen hub session s e = Some (s', r)"
  shows "hub_inv elen hub s'"
proof -
  let ?w = "\<lambda>e. unat (elen e)" and ?n = "unat (eh_replay_max_events hub)" and ?m = "unat (eh_replay_max_bytes hub)"
  from inv have lim: "hub_limits_ok hub" and lane: "lane_ok elen hub s" by (simp_all add: hub_inv_def)
  show ?thesis
  proof (rule publish_outcome [OF inv, of sha js session e])
    fix s1 r1
    assume out: "publish sha js elen hub session s e = Some (s1, r1)"
      and next_event: "is_ok r1 \<longleftrightarrow> is_next_event sha js elen hub session s e"
      and acc: "is_ok r1 \<Longrightarrow> r1 = Ok (ec_sequence (cursor_of e))
       \<and> (\<exists>b n. s1 = s\<lparr>hs_latest_sequence := ec_sequence (cursor_of e),
              hs_events_published_total := saturating_add (hs_events_published_total s) 1,
              hs_replay := retain ?w ?n ?m (hs_replay s @ [e]),
              hs_replay_bytes := b, hs_replay_evictions_total := n\<rparr>
            \<and> unat b = sum_list (map ?w (retain ?w ?n ?m (hs_replay s @ [e]))))"
      and ref: "\<not> is_ok r1 \<Longrightarrow> s1 = s"
    have s': "s' = s1" "r = r1" using p out by simp_all
    show ?thesis
    proof (cases "is_ok r1")
      case False
      then show ?thesis using ref inv s' by simp
    next
      case True
      obtain b n where st: "s1 = s\<lparr>hs_latest_sequence := ec_sequence (cursor_of e),
              hs_events_published_total := saturating_add (hs_events_published_total s) 1,
              hs_replay := retain ?w ?n ?m (hs_replay s @ [e]),
              hs_replay_bytes := b, hs_replay_evictions_total := n\<rparr>"
        and b: "unat b = sum_list (map ?w (retain ?w ?n ?m (hs_replay s @ [e])))"
        using acc [OF True] by blast
      have g: "hs_generation s = Some (ec_generation (cursor_of e))" "en_cursor e = Some (cursor_of e)"
          "event_seq e = Suc (unat (hs_latest_sequence s))" "?w e \<le> ?m"
        using next_event True by (simp_all add: is_next_event_def)
      obtain ys where ys: "retain ?w ?n ?m (hs_replay s @ [e]) = ys @ [e]"
        using retain_snoc_last [of ?w e ?m ?n "hs_replay s"] g(4) lim by (auto simp: hub_limits_ok_def)
      obtain zs where zs: "hs_replay s @ [e] = zs @ retain ?w ?n ?m (hs_replay s @ [e])"
        using retain_suffix by metis
      have "consecutive event_seq (hs_replay s @ [e])"
        using lane g(3) by (auto simp: lane_ok_def consecutive_append)
      then have cons: "consecutive event_seq (retain ?w ?n ?m (hs_replay s @ [e]))"
        using zs consecutive_append by metis
      have all: "list_all (\<lambda>e. en_cursor e \<noteq> None \<and> hs_generation s = Some (ec_generation (cursor_of e)))
          (retain ?w ?n ?m (hs_replay s @ [e]))"
        using lane g arg_cong [OF zs, of "list_all (\<lambda>e. en_cursor e \<noteq> None
            \<and> hs_generation s = Some (ec_generation (cursor_of e)))"]
        by (simp add: lane_ok_def)
      have ne: "retain ?w ?n ?m (hs_replay s @ [e]) \<noteq> []" "last (retain ?w ?n ?m (hs_replay s @ [e])) = e"
        using ys by simp_all
      have "lane_ok elen hub s1"
        unfolding lane_ok_def st hub_state.simps using b cons all ne by simp
      moreover have "agent_ok s1 \<and> hs_receivers s1 \<le> eh_max_subscribers hub"
        using inv by (simp add: st hub_inv_def agent_ok_def)
      ultimately show ?thesis using lim s' by (simp add: hub_inv_def)
    qed
  qed
qed

text \<open>A call as the step of a log; \<open>publish_outcome\<close> shows that it always returns.\<close>

definition publish_step ::
  "(u8 list \<Rightarrow> u8 list) \<Rightarrow> 'j serde_lib \<Rightarrow> (envelope \<Rightarrow> usize) \<Rightarrow> event_hub \<Rightarrow> u64 \<Rightarrow> hub_state \<Rightarrow> envelope
     \<Rightarrow> hub_state \<times> (u64, status) rres" where
  "publish_step sha js elen hub session s e =
     (case publish sha js elen hub session s e of
        Some result \<Rightarrow> result
      | None \<Rightarrow> (s, Panic ''the eviction loop does not end''))"

lemma publish_step_inv: "hub_inv elen hub s \<Longrightarrow> hub_inv elen hub (fst (publish_step sha js elen hub session s e))"
  using lane_ok_publish [of elen hub s sha js session e]
  by (cases "publish sha js elen hub session s e") (auto simp: publish_step_def)

interpretation hub_log: retained_log "hub_inv elen hub" hs_replay event_seq "\<lambda>e. unat (elen e)"
  "\<lambda>_. unat (eh_replay_max_events hub)" "\<lambda>_. unat (eh_replay_max_bytes hub)"
  "publish_step sha js elen hub session"
proof unfold_locales
  fix s e
  let ?w = "\<lambda>e. unat (elen e)" and ?n = "unat (eh_replay_max_events hub)" and ?m = "unat (eh_replay_max_bytes hub)"
  let ?p = "publish_step sha js elen hub session s e"
  show "hub_inv elen hub s \<Longrightarrow> hub_inv elen hub (fst ?p)" by (rule publish_step_inv)
  have step: "is_ok (snd ?p) \<Longrightarrow> hs_replay (fst ?p) = retain ?w ?n ?m (hs_replay s @ [e])
      \<and> event_seq e = Suc (unat (hs_latest_sequence s)) \<and> ?w e \<le> ?m"
    "\<not> is_ok (snd ?p) \<Longrightarrow> fst ?p = s" if inv: "hub_inv elen hub s"
    by (rule publish_outcome [OF inv, of sha js session e], auto simp: publish_step_def is_next_event_def)+
  show "hub_inv elen hub s \<Longrightarrow> is_ok (snd ?p) \<Longrightarrow>
      hs_replay (fst ?p) = retain ?w ?n ?m (hs_replay s @ [e]) \<and> ?w e \<le> ?m \<and> 0 < ?n"
    using step by (simp add: hub_inv_def hub_limits_ok_def)
  show "hub_inv elen hub s \<Longrightarrow> \<not> is_ok (snd ?p) \<Longrightarrow> hs_replay (fst ?p) = hs_replay s"
    using step by simp
  show "hub_inv elen hub s \<Longrightarrow> is_ok (snd ?p) \<Longrightarrow> hs_replay s \<noteq> [] \<Longrightarrow>
      event_seq e = Suc (event_seq (last (hs_replay s)))"
    using step(1) by (simp add: hub_inv_def lane_ok_def)
qed (auto simp: hub_inv_def lane_ok_def)

section \<open>The other operations\<close>

lemma hello_watchlist:
  "validate_hello hello m = Ok u \<Longrightarrow> watchlist_ok (ah_watchlist_instruments hello)"
  by (auto simp: validate_hello_def res_simps validate_monitor_watchlist_eq_Ok split: if_splits)

lemma enter_generation_lane: "lane_ok elen hub s \<Longrightarrow> lane_ok elen hub (enter_generation s g)"
  by (simp add: enter_generation_def lane_ok_def)

lemma enter_generation_simps [simp]:
  "hs_generation (enter_generation s g) = Some g"
  "hs_agent_session (enter_generation s g) = hs_agent_session s"
  "hs_agent_commands (enter_generation s g) = hs_agent_commands s"
  "hs_next_session (enter_generation s g) = hs_next_session s"
  "hs_desired_instruments (enter_generation s g) = hs_desired_instruments s"
  "hs_desired_watchlist_revision (enter_generation s g) = hs_desired_watchlist_revision s"
  "hs_maximum_watchlist_instruments (enter_generation s g) = hs_maximum_watchlist_instruments s"
  "hs_receivers (enter_generation s g) = hs_receivers s"
  by (auto simp: enter_generation_def same_generation_def)

text \<open>What an accepted hello leaves, and that a refused one leaves no session.\<close>

lemma connect_agent_cases:
  assumes "connect_agent hub s hello commands = (s', r)"
  obtains (refused) x where "r = Err x" "s' = s \<or> s' = enter_generation s (ah_terminal_generation hello)"
      "s' \<noteq> s \<Longrightarrow> hs_agent_session s = None"
    | (panicked) p where "r = Panic p" "s' = s"
    | (accepted) next_session configure where
      "validate_hello hello (eh_maximum_payload_bytes hub) = Ok ()" "hs_agent_session s = None"
      "checked_add (hs_next_session s) 1 = Some next_session"
      "r = Ok (hs_next_session s, hs_latest_sequence (enter_generation s (ah_terminal_generation hello)), configure)"
      "s' = (enter_generation s (ah_terminal_generation hello))
         \<lparr>hs_next_session := next_session, hs_agent_session := Some (hs_next_session s),
          hs_agent_connections_total :=
            saturating_add (hs_agent_connections_total (enter_generation s (ah_terminal_generation hello))) 1,
          hs_agent_commands := Some commands,
          hs_maximum_watchlist_instruments := ah_maximum_watchlist_instruments hello,
          hs_desired_watchlist_revision := hs_desired_watchlist_revision s',
          hs_desired_instruments := hs_desired_instruments s',
          hs_applied_watchlist_revision := ah_watchlist_revision hello,
          hs_applied_instruments := ah_watchlist_instruments hello\<rparr>"
      "hs_desired_instruments s' = (if hs_desired_instruments s = [] then ah_watchlist_instruments hello
         else hs_desired_instruments s)"
      "hs_desired_watchlist_revision s' = (if hs_desired_instruments s = [] then ah_watchlist_revision hello
         else hs_desired_watchlist_revision s)"
      "configure = (if ah_watchlist_revision hello = hs_desired_watchlist_revision s'
           \<and> ah_watchlist_instruments hello = hs_desired_instruments s' then None
         else Some \<lparr>cw_revision = hs_desired_watchlist_revision s', cw_instruments = hs_desired_instruments s'\<rparr>)"
proof (cases "validate_hello hello (eh_maximum_payload_bytes hub)")
  case (Err x)
  then show ?thesis using assms refused [of x] by (simp add: connect_agent_def)
next
  case (Panic p)
  then show ?thesis using assms panicked [of p] by (simp add: connect_agent_def)
next
  case v: (Ok u)
  let ?pre = "hs_agent_session s = None
    \<and> \<not> (hs_desired_instruments s \<noteq> [] \<and> hs_desired_watchlist_revision s < ah_watchlist_revision hello)
    \<and> \<not> (hs_desired_instruments s \<noteq> [] \<and> ah_watchlist_revision hello = hs_desired_watchlist_revision s
         \<and> ah_watchlist_instruments hello \<noteq> hs_desired_instruments s)"
  show ?thesis
  proof (cases ?pre)
    case False
    then show ?thesis using assms v refused by (auto simp: connect_agent_def Let_def split: if_splits)
  next
    case pre: True
    show ?thesis
    proof (cases "checked_add (hs_next_session s) 1")
      case None
      then show ?thesis using assms v pre refused by (auto simp: connect_agent_def Let_def)
    next
      case (Some n)
      show ?thesis
        by (rule accepted [OF _ _ Some])
           (use assms v pre Some in \<open>auto simp: connect_agent_def Let_def split: if_splits\<close>)
    qed
  qed
qed

lemma hub_inv_connect:
  assumes inv: "hub_inv elen hub s" and c: "connect_agent hub s hello commands = (s', r)"
  shows "hub_inv elen hub s'"
  using c
proof (cases rule: connect_agent_cases)
  case refused
  have "hub_inv elen hub (enter_generation s g)" if "hs_agent_session s = None" for g
    using inv that by (simp add: hub_inv_def agent_ok_def enter_generation_lane)
  then show ?thesis using refused inv by (cases "s' = s") auto
next
  case accepted
  have "lane_ok elen hub (enter_generation s (ah_terminal_generation hello))"
    using inv by (simp add: hub_inv_def enter_generation_lane)
  then have "lane_ok elen hub s'" by (subst accepted(5)) (simp add: lane_ok_def)
  moreover have "hs_next_session s < hs_next_session s'"
    using checked_add_unat [OF accepted(3)] by (subst accepted(5)) (simp add: word_less_nat_alt)
  moreover have "watchlist_ok (hs_desired_instruments s')"
    using accepted(6) hello_watchlist [OF accepted(1)] inv by (simp add: hub_inv_def agent_ok_def)
  moreover have "hs_agent_session s' = Some (hs_next_session s)" "hs_agent_commands s' = Some commands"
    "hs_generation s' \<noteq> None" "hs_receivers s' = hs_receivers s"
    by (subst accepted(5), simp)+
  ultimately show ?thesis using inv by (auto simp: hub_inv_def agent_ok_def watchlist_ok_def)
qed (use inv in simp)

lemma send_command_cases:
  assumes "send_command s c = r"
  obtains (sent) ch where "hs_agent_commands s = Some ch" "\<not> cc_closed ch"
      "length (cc_queue ch) < unat (cc_capacity ch)"
      "r = Ok (s\<lparr>hs_agent_commands := Some (ch\<lparr>cc_queue := cc_queue ch @ [c]\<rparr>)\<rparr>)"
    | (full) "r = Err ()"
        "\<forall>ch. hs_agent_commands s = Some ch \<longrightarrow> cc_closed ch \<or> unat (cc_capacity ch) \<le> length (cc_queue ch)"
  using assms by (auto simp: send_command_def try_send_def not_le split: option.splits if_splits)

lemma hub_inv_commands:
  "hub_inv elen hub s \<Longrightarrow> hs_agent_session s \<noteq> None \<Longrightarrow> hub_inv elen hub (s\<lparr>hs_agent_commands := Some ch\<rparr>)"
  by (auto simp: hub_inv_def agent_ok_def lane_ok_def)

lemma hub_inv_send:
  assumes inv: "hub_inv elen hub s" and send: "send_command s c = Ok s'"
  shows "hub_inv elen hub s'"
  using send
proof (cases rule: send_command_cases)
  case (sent ch)
  have "hs_agent_session s \<noteq> None" using inv sent(1) by (auto simp: hub_inv_def agent_ok_def)
  from hub_inv_commands [OF inv this] show ?thesis using sent(4) by simp
qed simp

lemma send_command_simps:
  assumes "send_command s c = Ok s'"
  shows "hs_agent_session s' = hs_agent_session s" "hs_generation s' = hs_generation s"
    "hs_next_session s' = hs_next_session s" "hs_replay s' = hs_replay s"
    "hs_latest_sequence s' = hs_latest_sequence s"
  using assms by (auto elim!: send_command_cases)

lemma hub_inv_disconnect: "hub_inv elen hub s \<Longrightarrow> hub_inv elen hub (disconnect_agent s session)"
  by (auto simp: disconnect_agent_def hub_inv_def agent_ok_def lane_ok_def)

lemma hub_inv_close: "hub_inv elen hub s \<Longrightarrow> hub_inv elen hub (close_receiver s)"
  by (auto simp: close_receiver_def hub_inv_def agent_ok_def lane_ok_def)

lemma close_receiver_simps [simp]:
  "hs_agent_session (close_receiver s) = hs_agent_session s"
  "hs_generation (close_receiver s) = hs_generation s"
  "hs_next_session (close_receiver s) = hs_next_session s"
  by (simp_all add: close_receiver_def)

lemma unat_ucast_u32: "unat (ucast w :: u64) = unat w" for w :: u32
proof -
  have "unat w < 2 ^ 64" using unsigned_less [of w, where ?'a = nat] by simp
  then show ?thesis by (simp add: unsigned_ucast_eq take_bit_nat_eq_self)
qed

lemma unat_not_top: "unat w + 1 < 2 ^ 64 \<longleftrightarrow> w \<noteq> - 1" for w :: u64
proof -
  have "unat (- 1 :: u64) = 2 ^ 64 - 1" by (simp add: unsigned_minus_1_eq_mask mask_eq_exp_minus_1)
  moreover have "unat w < 2 ^ 64" using unsigned_less [of w, where ?'a = nat] by simp
  ultimately show ?thesis by (auto simp: word_unat_eq_iff)
qed

lemma checked_add_one: "checked_add w 1 = (if w = - 1 then None else Some (w + 1))" for w :: u64
  using unat_not_top [of w] by (auto simp: checked_add_def)

lemma set_watchlist_cases:
  assumes "set_watchlist s request_id instruments = (s', r)"
  obtains (refused) x where "r = Err x" "s' = s"
    | (unchanged) "s' = s" "instruments = hs_desired_instruments s" "is_ok r"
    | (dispatched) ch revision where "hs_agent_session s \<noteq> None" "watchlist_ok instruments"
        "length instruments \<le> unat (hs_maximum_watchlist_instruments s)"
        "checked_add (hs_desired_watchlist_revision s) 1 = Some revision"
        "hs_agent_commands s = Some ch" "\<not> cc_closed ch" "length (cc_queue ch) < unat (cc_capacity ch)"
        "s' = s\<lparr>hs_agent_commands := Some (ch\<lparr>cc_queue := cc_queue ch
             @ [ConfigureWatchlist \<lparr>cw_revision = revision, cw_instruments = instruments\<rparr>]\<rparr>),
           hs_desired_watchlist_revision := revision, hs_desired_instruments := instruments\<rparr>"
        "r = Ok \<lparr>sw_request_id = request_id, sw_desired_revision = revision,
           sw_state = ''restarting'', sw_instruments = instruments\<rparr>"
proof (cases "hs_agent_session s = None \<or> hs_maximum_watchlist_instruments s = 0")
  case True
  then show ?thesis using assms refused by (auto simp: set_watchlist_def)
next
  case active: False
  let ?v = "validate_monitor_watchlist instruments (ucast (hs_maximum_watchlist_instruments s))"
  have np: "no_panic ?v" by simp
  show ?thesis
  proof (cases ?v)
    case (Err x)
    then show ?thesis using assms refused active by (auto simp: set_watchlist_def)
  next
    case (Panic p)
    then show ?thesis using np by simp
  next
    case v: (Ok u)
    have len: "watchlist_ok instruments" "length instruments \<le> unat (hs_maximum_watchlist_instruments s)"
      using v by (simp_all add: validate_monitor_watchlist_eq_Ok unat_ucast_u32)
    show ?thesis
    proof (cases "instruments = hs_desired_instruments s")
      case True
      then show ?thesis using assms unchanged active v by (auto simp: set_watchlist_def)
    next
      case new: False
      show ?thesis
      proof (cases "checked_add (hs_desired_watchlist_revision s) 1")
        case None
        then show ?thesis using assms refused active v new by (auto simp: set_watchlist_def ok_or_def)
      next
        case rev: (Some revision)
        show ?thesis
        proof (cases "hs_agent_commands s")
          case None
          then show ?thesis using assms refused active v new rev
            by (auto simp: set_watchlist_def ok_or_def Let_def)
        next
          case ch: (Some ch)
          show ?thesis
          proof (cases "cc_closed ch \<or> unat (cc_capacity ch) \<le> length (cc_queue ch)")
            case True
            then show ?thesis using assms refused active v new rev ch
              by (auto simp: set_watchlist_def ok_or_def Let_def try_send_def)
          next
            case False
            show ?thesis
              by (rule dispatched [OF _ len rev ch])
                 (use assms active v new rev ch False in
                   \<open>auto simp: set_watchlist_def ok_or_def Let_def try_send_def\<close>)
          qed
        qed
      qed
    qed
  qed
qed

lemma hub_inv_set_watchlist:
  assumes inv: "hub_inv elen hub s" and w: "set_watchlist s request_id instruments = (s', r)"
  shows "hub_inv elen hub s'"
  using w by (cases rule: set_watchlist_cases)
    (use inv in \<open>auto simp: hub_inv_def agent_ok_def lane_ok_def watchlist_ok_def\<close>)

lemma publish_local_cases:
  assumes "publish_local elen hub s e = (s', r)"
  obtains (exhausted) x where "r = Err x" "s' = s" "hs_local_sequence s = - 1"
    | (refused) "\<not> is_ok r" "s' = s\<lparr>hs_local_sequence := hs_local_sequence s + 1\<rparr>" "hs_local_sequence s \<noteq> - 1"
    | (published) c where "hs_local_sequence s \<noteq> - 1" "en_cursor e = Some c"
        "s' = s\<lparr>hs_local_sequence := hs_local_sequence s + 1,
           hs_events_published_total := saturating_add (hs_events_published_total s) 1\<rparr>"
        "r = Ok (hs_local_sequence s + 1, e\<lparr>en_cursor := Some
           (c\<lparr>ec_sequence := hs_local_sequence s + 1, ec_generation := local_event_generation\<rparr>)\<rparr>)"
proof -
  show ?thesis
  proof (cases "hs_local_sequence s = - 1")
    case True
    then show ?thesis using assms exhausted by (auto simp: publish_local_def checked_add_one)
  next
    case False
    have add: "checked_add (hs_local_sequence s) 1 = Some (hs_local_sequence s + 1)"
      using False by (simp add: checked_add_one)
    show ?thesis
    proof (cases "en_cursor e")
      case None
      then show ?thesis using assms refused add False by (auto simp: publish_local_def)
    next
      case c: (Some c)
      let ?e = "e\<lparr>en_cursor := Some (c\<lparr>ec_sequence := hs_local_sequence s + 1, ec_generation := local_event_generation\<rparr>)\<rparr>"
      show ?thesis
      proof (cases "validate_local_event ?e (eh_maximum_payload_bytes hub) = Ok () \<and> \<not> eh_replay_max_bytes hub < elen ?e")
        case True
        then show ?thesis using assms published add c False by (auto simp: publish_local_def)
      next
        case no: False
        then show ?thesis using assms refused add c False
          by (cases "validate_local_event ?e (eh_maximum_payload_bytes hub)") (auto simp: publish_local_def)
      qed
    qed
  qed
qed

lemma hub_inv_publish_local:
  assumes inv: "hub_inv elen hub s" and p: "publish_local elen hub s e = (s', r)"
  shows "hub_inv elen hub s'"
  using p by (cases rule: publish_local_cases) (use inv in \<open>auto simp: hub_inv_def agent_ok_def lane_ok_def\<close>)

lemma hub_inv_subscribe:
  assumes inv: "hub_inv elen hub s" and p: "subscribe_from hub s after flt = (s', r)"
  shows "hub_inv elen hub s'"
proof (cases "eh_max_subscribers hub \<le> hs_receivers s")
  case True
  then show ?thesis using inv p by (simp add: subscribe_from_def)
next
  case False
  then have "hs_receivers s + 1 \<le> eh_max_subscribers hub" by (simp add: inc_le not_le)
  then show ?thesis using inv p False
    by (cases "validate_live_cursor after s") (auto simp: subscribe_from_def hub_inv_def agent_ok_def lane_ok_def)
qed

lemma hub_inv_drop: "hub_inv elen hub s \<Longrightarrow> hub_inv elen hub (drop_subscriber s)"
  by (auto simp: drop_subscriber_def hub_inv_def agent_ok_def lane_ok_def word_le_nat_alt saturating_sub_unat)

section \<open>The steps that open a stream\<close>

text \<open>The first step refuses the agent or leaves a session with a channel of its own; the other two
  touch nothing but the channel.\<close>

lemma open_connect_cases:
  assumes "open_connect hub s first = (s', r)"
  obtains (refused) "\<not> is_ok r" "s' = s \<or> (\<exists>g. s' = enter_generation s g)" "s' \<noteq> s \<Longrightarrow> hs_agent_session s = None"
    | (connected) hello opened where "first = Hello hello" "r = Ok opened"
        "connect_agent hub s hello (channel_new (eh_agent_command_capacity hub))
           = (s', Ok (op_session opened, op_accepted_sequence opened, op_configuration opened))"
        "op_generation opened = ah_terminal_generation hello"
proof (cases first)
  case (Hello hello)
  obtain s1 r1 where c: "connect_agent hub s hello (channel_new (eh_agent_command_capacity hub)) = (s1, r1)"
    by fastforce
  show ?thesis
  proof (cases r1)
    case (Ok x)
    then obtain session seq configure where "r1 = Ok (session, seq, configure)" by (cases x) auto
    then show ?thesis
      using connected [OF Hello, of "\<lparr>op_session = session, op_generation = ah_terminal_generation hello,
          op_accepted_sequence = seq, op_configuration = configure\<rparr>"] assms Hello c
      by (auto simp: open_connect_def)
  next
    case (Err e)
    from c have "s1 = s \<or> s1 = enter_generation s (ah_terminal_generation hello)"
      "s1 \<noteq> s \<Longrightarrow> hs_agent_session s = None"
      by (cases rule: connect_agent_cases; use Err in simp)+
    moreover have "s' = s1" "\<not> is_ok r" using assms Hello c Err by (auto simp: open_connect_def)
    ultimately show ?thesis using refused by blast
  next
    case (Panic p)
    from c have "s1 = s" by (cases rule: connect_agent_cases) (use Panic in simp_all)
    then show ?thesis using refused assms Hello c Panic by (auto simp: open_connect_def)
  qed
qed (use assms refused in \<open>auto simp: open_connect_def\<close>)

lemma open_send_cases:
  assumes "open_send s command = (s', r)"
  obtains (sent) "send_command s command = Ok s'" "r = Ok ()"
    | (unavailable) "\<And>x. send_command s command \<noteq> Ok x" "s' = close_receiver s"
        "r = Err (resource_exhausted ''agent command queue is unavailable'')"
  using assms by (auto simp: open_send_def split: rres.splits)

lemma open_acknowledge_cases:
  assumes "open_acknowledge s opened = (s', r)"
  obtains (sent) "send_command s (Ack (op_generation opened) (op_accepted_sequence opened)) = Ok s'" "r = Ok ()"
    | (unavailable) "\<And>x. send_command s (Ack (op_generation opened) (op_accepted_sequence opened)) \<noteq> Ok x"
        "s' = close_receiver s" "r = Err (resource_exhausted ''agent command queue is unavailable'')"
  using assms unfolding open_acknowledge_def by (cases rule: open_send_cases) auto

lemma open_configure_cases:
  assumes "open_configure s opened = (s', r)"
  obtains (agreed) "op_configuration opened = None" "s' = s" "r = Ok (op_session opened, op_generation opened)"
    | (sent) c where "op_configuration opened = Some c" "send_command s (ConfigureWatchlist c) = Ok s'"
        "r = Ok (op_session opened, op_generation opened)"
    | (unavailable) c where "op_configuration opened = Some c"
        "\<And>x. send_command s (ConfigureWatchlist c) \<noteq> Ok x"
        "s' = close_receiver s" "r = Err (resource_exhausted ''agent command queue is unavailable'')"
proof (cases "op_configuration opened")
  case None
  then show ?thesis using assms agreed by (simp add: open_configure_def)
next
  case (Some c)
  obtain s1 r1 where p: "open_send s (ConfigureWatchlist c) = (s1, r1)" by fastforce
  then show ?thesis
    by (cases rule: open_send_cases) (use assms Some p sent unavailable in \<open>auto simp: open_configure_def\<close>)
qed

lemma hub_inv_open_connect:
  assumes inv: "hub_inv elen hub s" and o: "open_connect hub s first = (s', r)"
  shows "hub_inv elen hub s'"
  using o
proof (cases rule: open_connect_cases)
  case refused
  have "hub_inv elen hub (enter_generation s g)" if "hs_agent_session s = None" for g
    using inv that by (simp add: hub_inv_def agent_ok_def enter_generation_lane)
  then show ?thesis using refused inv by (cases "s' = s") auto
qed (use hub_inv_connect [OF inv] in blast)

text \<open>The lane, the session and the watchlists, which the later steps leave as they are.\<close>

definition same_front :: "hub_state \<Rightarrow> hub_state \<Rightarrow> bool" where
  "same_front s s' \<longleftrightarrow> s' = s\<lparr>hs_agent_commands := hs_agent_commands s'\<rparr>"

lemma same_front_close: "same_front s (close_receiver s)"
  by (simp add: same_front_def close_receiver_def)

lemma same_front_send: "send_command s c = Ok s' \<Longrightarrow> same_front s s'"
  by (elim send_command_cases) (simp_all add: same_front_def)

lemma same_front_simps:
  assumes "same_front s s'"
  shows "hs_agent_session s' = hs_agent_session s" "hs_generation s' = hs_generation s"
    "hs_latest_sequence s' = hs_latest_sequence s" "hs_replay s' = hs_replay s"
    "hs_desired_watchlist_revision s' = hs_desired_watchlist_revision s"
    "hs_desired_instruments s' = hs_desired_instruments s" "hs_next_session s' = hs_next_session s"
  by (subst assms [unfolded same_front_def], simp)+

lemma same_front_refl [simp]: "same_front s s"
  by (simp add: same_front_def)

lemma hub_inv_open_send:
  assumes "open_send s command = (s', r)" and "hub_inv elen hub s"
  shows "hub_inv elen hub s' \<and> same_front s s'"
  using assms(1)
proof (cases rule: open_send_cases)
  case sent
  then show ?thesis using hub_inv_send [OF assms(2)] same_front_send by blast
next
  case unavailable
  then show ?thesis using hub_inv_close [OF assms(2)] same_front_close by simp
qed

lemma hub_inv_open_acknowledge:
  assumes "hub_inv elen hub s" and "open_acknowledge s opened = (s', r)"
  shows "hub_inv elen hub s'" "same_front s s'"
  using hub_inv_open_send [OF assms(2) [unfolded open_acknowledge_def] assms(1)] by blast+

lemma hub_inv_open_configure:
  assumes "hub_inv elen hub s" and "open_configure s opened = (s', r)"
  shows "hub_inv elen hub s'" "same_front s s'"
proof -
  have "hub_inv elen hub s' \<and> same_front s s'"
    using assms(2)
  proof (cases rule: open_configure_cases)
    case agreed
    then show ?thesis using assms(1) by simp
  next
    case (sent c)
    then show ?thesis using hub_inv_send [OF assms(1)] same_front_send by blast
  next
    case (unavailable c)
    then show ?thesis using hub_inv_close [OF assms(1)] same_front_close by simp
  qed
  then show "hub_inv elen hub s'" "same_front s s'" by blast+
qed

end
