(* ===== verification/Hub_System.thy ===== *)
theory Hub_System
  imports Hub_Invariant
begin

text \<open>
  The event hub with the handlers that open agent streams and the tasks that serve the open ones.
  A step is one locked section of the hub, one send to the command queue, or a move of the agent's
  side of the queue, so every interleaving of the server's handlers is a path of steps.
\<close>

section \<open>The other requests\<close>

inductive hub_request :: "(envelope \<Rightarrow> usize) \<Rightarrow> event_hub \<Rightarrow> hub_state \<Rightarrow> hub_state \<Rightarrow> bool"
  for elen hub
where
  rq_watchlist: "set_watchlist s request_id instruments = (s', r) \<Longrightarrow> hub_request elen hub s s'"
| rq_local: "publish_local elen hub s e = (s', r') \<Longrightarrow> hub_request elen hub s s'"
| rq_subscribe: "subscribe_from hub s after flt = (s', r'') \<Longrightarrow> hub_request elen hub s s'"
| rq_drop: "hub_request elen hub s (drop_subscriber s)"

abbreviation hub_requests :: "(envelope \<Rightarrow> usize) \<Rightarrow> event_hub \<Rightarrow> hub_state \<Rightarrow> hub_state \<Rightarrow> bool" where
  "hub_requests elen hub \<equiv> (hub_request elen hub)\<^sup>*\<^sup>*"

lemma request_keeps:
  assumes "hub_request elen hub s s'" and "hub_inv elen hub s"
  shows "hub_inv elen hub s'" "hs_generation s' = hs_generation s"
    "hs_agent_session s' = hs_agent_session s" "hs_latest_sequence s' = hs_latest_sequence s"
    "hs_replay s' = hs_replay s"
proof -
  have "hub_inv elen hub s' \<and> hs_generation s' = hs_generation s
    \<and> hs_agent_session s' = hs_agent_session s \<and> hs_latest_sequence s' = hs_latest_sequence s
    \<and> hs_replay s' = hs_replay s"
    using assms
  proof (induction rule: hub_request.induct)
    case (rq_watchlist s request_id instruments s' r)
    from hub_inv_set_watchlist [OF rq_watchlist(2,1)] rq_watchlist(1) show ?case
      by (auto elim: set_watchlist_cases)
  next
    case (rq_local s e s' r')
    from hub_inv_publish_local [OF rq_local(2,1)] rq_local(1) show ?case
      by (auto elim: publish_local_cases)
  next
    case (rq_subscribe s after flt s' r'')
    from hub_inv_subscribe [OF rq_subscribe(2,1)] rq_subscribe(1) show ?case
      by (cases "validate_live_cursor after s") (auto simp: subscribe_from_def split: if_splits)
  next
    case (rq_drop s)
    then show ?case by (intro conjI) (simp_all add: hub_inv_drop, simp_all add: drop_subscriber_def)
  qed
  then show "hub_inv elen hub s'" "hs_generation s' = hs_generation s"
    "hs_agent_session s' = hs_agent_session s" "hs_latest_sequence s' = hs_latest_sequence s"
    "hs_replay s' = hs_replay s" by blast+
qed

lemma requests_keep:
  assumes "hub_requests elen hub s s'" and "hub_inv elen hub s"
  shows "hub_inv elen hub s' \<and> hs_generation s' = hs_generation s
    \<and> hs_agent_session s' = hs_agent_session s \<and> hs_latest_sequence s' = hs_latest_sequence s
    \<and> hs_replay s' = hs_replay s"
  using assms by (induction rule: rtranclp_induct) (auto simp: request_keeps)

text \<open>What other requests queue: newer and newer configurations, the last of which is the one the
  hub then desires.\<close>

definition desired_configuration :: "hub_state \<Rightarrow> configure_watchlist" where
  "desired_configuration s =
     \<lparr>cw_revision = hs_desired_watchlist_revision s, cw_instruments = hs_desired_instruments s\<rparr>"

definition queues :: "hub_state \<Rightarrow> configure_watchlist list \<Rightarrow> hub_state \<Rightarrow> bool" where
  "queues s new s' \<longleftrightarrow> sorted_wrt (<) (map cw_revision (desired_configuration s # new))
     \<and> desired_configuration s' = last (desired_configuration s # new)
     \<and> hs_agent_commands s' = map_option
         (\<lambda>ch. ch\<lparr>cc_queue := cc_queue ch @ map ConfigureWatchlist new\<rparr>) (hs_agent_commands s)
     \<and> (\<forall>ch. hs_agent_commands s = Some ch \<longrightarrow> new \<noteq> []
          \<longrightarrow> \<not> cc_closed ch \<and> length (cc_queue ch) + length new \<le> unat (cc_capacity ch))"

lemma queues_nothing:
  "desired_configuration s' = desired_configuration s \<Longrightarrow> hs_agent_commands s' = hs_agent_commands s
     \<Longrightarrow> queues s [] s'"
  by (cases "hs_agent_commands s") (simp_all add: queues_def)

lemma sorted_last_le: "sorted_wrt (<) xs \<Longrightarrow> x \<in> set xs \<Longrightarrow> x \<le> last xs" for x :: "'a::linorder"
  by (induction xs) (auto dest: less_imp_le)

lemma newer_append:
  assumes "sorted_wrt (<) (map cw_revision (d # xs))" "sorted_wrt (<) (map cw_revision (last (d # xs) # ys))"
  shows "sorted_wrt (<) (map cw_revision (d # xs @ ys))"
proof -
  have "cw_revision x \<le> cw_revision (last (d # xs))" if "x \<in> set (d # xs)" for x
    using sorted_last_le [of "map cw_revision (d # xs)" "cw_revision x"] that assms(1)
    by (metis (no_types, lifting) image_eqI last_map list.map_disc_iff list.distinct(1) set_map)
  then have "cw_revision x < cw_revision y" if "x \<in> set (d # xs)" "y \<in> set ys" for x y
    using assms(2) that le_less_trans
    by (metis (no_types, lifting) image_eqI list.set_map list.simps(9) sorted_wrt.simps(2))
  moreover have "sorted_wrt (<) (map cw_revision ys)" using assms(2) by simp
  ultimately have "sorted_wrt (<) (map cw_revision ((d # xs) @ ys))"
    using assms(1) unfolding map_append sorted_wrt_append set_map by blast
  then show ?thesis by simp
qed

lemma queues_trans:
  assumes a: "queues s xs s'" and b: "queues s' ys s''"
  shows "queues s (xs @ ys) s''"
proof -
  let ?d = "desired_configuration s"
  have "sorted_wrt (<) (map cw_revision (?d # xs @ ys))"
    by (rule newer_append) (use a b in \<open>simp_all add: queues_def\<close>)
  moreover have "desired_configuration s'' = last (?d # xs @ ys)"
    using a b by (cases ys) (auto simp: queues_def)
  moreover have "hs_agent_commands s'' = map_option
      (\<lambda>ch. ch\<lparr>cc_queue := cc_queue ch @ map ConfigureWatchlist (xs @ ys)\<rparr>) (hs_agent_commands s)"
    using a b by (simp add: queues_def option.map_comp o_def)
  ultimately show ?thesis using a b by (cases "hs_agent_commands s") (auto simp: queues_def)
qed

lemma request_queues:
  assumes "hub_request elen hub s s'"
  shows "\<exists>new. queues s new s'"
  using assms
proof cases
  case (rq_watchlist request_id instruments r)
  from rq_watchlist show ?thesis
  proof (cases rule: set_watchlist_cases)
    case (dispatched ch revision)
    have "hs_desired_watchlist_revision s < revision"
      using checked_add_unat [OF dispatched(4)] by (simp add: word_less_nat_alt)
    then have "queues s [\<lparr>cw_revision = revision, cw_instruments = instruments\<rparr>] s'"
      using dispatched by (simp add: queues_def desired_configuration_def)
    then show ?thesis ..
  qed (use queues_nothing in blast)+
next
  case (rq_local e r')
  then have "queues s [] s'" by (intro queues_nothing) (auto elim!: publish_local_cases simp: desired_configuration_def)
  then show ?thesis ..
next
  case (rq_subscribe after flt r'')
  then have "queues s [] s'"
    by (intro queues_nothing; cases "validate_live_cursor after s")
       (auto simp: subscribe_from_def desired_configuration_def split: if_splits)
  then show ?thesis ..
next
  case rq_drop
  then have "queues s [] s'" by (simp add: queues_nothing drop_subscriber_def desired_configuration_def)
  then show ?thesis ..
qed

lemma requests_queue:
  assumes "hub_requests elen hub s s'"
  shows "\<exists>new. queues s new s'"
  using assms
proof (induction rule: rtranclp_induct)
  case base
  show ?case using queues_nothing by blast
next
  case (step u v)
  then show ?case using queues_trans request_queues by blast
qed

section \<open>The system\<close>

record hub_system =
  sy_hub :: hub_state
  sy_tasks :: "(u64 \<times> string) set"
  sy_connected :: "stream_opening set"
  sy_acknowledged :: "stream_opening set"

abbreviation system_of :: "hub_state \<Rightarrow> (u64 \<times> string) set \<Rightarrow> hub_system" where
  "system_of s T \<equiv> \<lparr>sy_hub = s, sy_tasks = T, sy_connected = {}, sy_acknowledged = {}\<rparr>"

definition drain_command :: "hub_state \<Rightarrow> hub_state" where
  "drain_command s =
     s\<lparr>hs_agent_commands := map_option (\<lambda>ch. ch\<lparr>cc_queue := tl (cc_queue ch)\<rparr>) (hs_agent_commands s)\<rparr>"

text \<open>The reader of a command queue is handed to the agent when its stream is open: until then
  nothing is taken from the queue and the agent cannot hang it up.\<close>

inductive hub_step ::
  "(u8 list \<Rightarrow> u8 list) \<Rightarrow> 'j serde_lib \<Rightarrow> (envelope \<Rightarrow> usize) \<Rightarrow> event_hub \<Rightarrow> hub_system \<Rightarrow> hub_system \<Rightarrow> bool"
  for sha js elen hub
where
  step_connect: "open_connect hub (sy_hub y) first = (s', Ok opened) \<Longrightarrow>
    hub_step sha js elen hub y (y\<lparr>sy_hub := s', sy_connected := insert opened (sy_connected y)\<rparr>)"
| step_connect_fails: "open_connect hub (sy_hub y) first = (s', r) \<Longrightarrow> \<not> is_ok r \<Longrightarrow>
    hub_step sha js elen hub y (y\<lparr>sy_hub := s'\<rparr>)"
| step_acknowledge: "opened \<in> sy_connected y \<Longrightarrow> open_acknowledge (sy_hub y) opened = (s', r') \<Longrightarrow>
    hub_step sha js elen hub y (y\<lparr>sy_hub := s', sy_connected := sy_connected y - {opened},
      sy_acknowledged := (if is_ok r' then insert opened else (\<lambda>X. X)) (sy_acknowledged y)\<rparr>)"
| step_configure: "opened \<in> sy_acknowledged y \<Longrightarrow> open_configure (sy_hub y) opened = (s', Ok task) \<Longrightarrow>
    hub_step sha js elen hub y (y\<lparr>sy_hub := s', sy_acknowledged := sy_acknowledged y - {opened},
      sy_tasks := insert task (sy_tasks y)\<rparr>)"
| step_configure_fails: "opened \<in> sy_acknowledged y \<Longrightarrow> open_configure (sy_hub y) opened = (s', r'') \<Longrightarrow>
    \<not> is_ok r'' \<Longrightarrow>
    hub_step sha js elen hub y (y\<lparr>sy_hub := s', sy_acknowledged := sy_acknowledged y - {opened}\<rparr>)"
| step_publish: "(session, g) \<in> sy_tasks y \<Longrightarrow> publish sha js elen hub session (sy_hub y) e = Some (s', answer) \<Longrightarrow>
    hub_step sha js elen hub y (y\<lparr>sy_hub := s'\<rparr>)"
| step_answer: "(session, g) \<in> sy_tasks y \<Longrightarrow> answer_agent (sy_hub y) session g answer = Ok (s', go) \<Longrightarrow>
    hub_step sha js elen hub y
      (y\<lparr>sy_hub := s', sy_tasks := (if go then sy_tasks y else sy_tasks y - {(session, g)})\<rparr>)"
| step_gone: "(session, g) \<in> sy_tasks y \<Longrightarrow>
    hub_step sha js elen hub y
      (y\<lparr>sy_hub := disconnect_agent (sy_hub y) session, sy_tasks := sy_tasks y - {(session, g)}\<rparr>)"
| step_drain: "sy_connected y = {} \<Longrightarrow> sy_acknowledged y = {} \<Longrightarrow>
    hub_step sha js elen hub y (y\<lparr>sy_hub := drain_command (sy_hub y)\<rparr>)"
| step_hang_up: "sy_connected y = {} \<Longrightarrow> sy_acknowledged y = {} \<Longrightarrow>
    hub_step sha js elen hub y (y\<lparr>sy_hub := close_receiver (sy_hub y)\<rparr>)"
| step_request: "hub_request elen hub (sy_hub y) s' \<Longrightarrow> hub_step sha js elen hub y (y\<lparr>sy_hub := s'\<rparr>)"

abbreviation hub_reaches ::
  "(u8 list \<Rightarrow> u8 list) \<Rightarrow> 'j serde_lib \<Rightarrow> (envelope \<Rightarrow> usize) \<Rightarrow> event_hub \<Rightarrow> hub_system \<Rightarrow> hub_system \<Rightarrow> bool"
where
  "hub_reaches sha js elen hub \<equiv> (hub_step sha js elen hub)\<^sup>*\<^sup>*"

text \<open>A session has one holder: a task, or a handler that opens its stream.\<close>

definition holders :: "hub_system \<Rightarrow> (u64 \<times> string) set" where
  "holders y = sy_tasks y \<union> (\<lambda>opened. (op_session opened, op_generation opened)) ` (sy_connected y \<union> sy_acknowledged y)"

definition one_holder :: "hub_system \<Rightarrow> bool" where
  "one_holder y \<longleftrightarrow> (sy_tasks y = {} \<and> sy_connected y = {} \<and> sy_acknowledged y = {})
     \<or> (\<exists>t. sy_tasks y = {t} \<and> sy_connected y = {} \<and> sy_acknowledged y = {})
     \<or> (\<exists>opened. sy_tasks y = {} \<and> sy_connected y = {opened} \<and> sy_acknowledged y = {})
     \<or> (\<exists>opened. sy_tasks y = {} \<and> sy_connected y = {} \<and> sy_acknowledged y = {opened})"

definition system_inv :: "(envelope \<Rightarrow> usize) \<Rightarrow> event_hub \<Rightarrow> hub_system \<Rightarrow> bool" where
  "system_inv elen hub y \<longleftrightarrow> hub_inv elen hub (sy_hub y) \<and> one_holder y
     \<and> (\<forall>(session, g)\<in>holders y. hs_agent_session (sy_hub y) = Some session \<and> hs_generation (sy_hub y) = Some g)"

lemma system_inv_new: "hub_limits_ok hub \<Longrightarrow> system_inv elen hub (system_of hub_state_new {})"
  by (simp add: system_inv_def hub_inv_new one_holder_def holders_def)

lemma publish_keeps:
  assumes "hub_inv elen hub s" "publish sha js elen hub session s e = Some (s', r)"
  shows "hs_agent_session s' = hs_agent_session s" "hs_generation s' = hs_generation s"
  by (rule publish_outcome [OF assms(1), of sha js session e], use assms(2) in \<open>cases "is_ok r"; auto\<close>)+

lemma connect_accepted_simps:
  assumes "connect_agent hub s hello commands = (s', Ok (session, seq, configure))"
  shows "hs_agent_session s = None" "hs_agent_session s' = Some session"
    "hs_generation s' = Some (ah_terminal_generation hello)" "hs_agent_commands s' = Some commands"
    "session = hs_next_session s" "seq = hs_latest_sequence s'"
    "configure = (if ah_watchlist_revision hello = hs_desired_watchlist_revision s'
           \<and> ah_watchlist_instruments hello = hs_desired_instruments s' then None
         else Some \<lparr>cw_revision = hs_desired_watchlist_revision s', cw_instruments = hs_desired_instruments s'\<rparr>)"
proof -
  have "hs_agent_session s = None \<and> hs_agent_session s' = Some session
    \<and> hs_generation s' = Some (ah_terminal_generation hello) \<and> hs_agent_commands s' = Some commands
    \<and> session = hs_next_session s \<and> seq = hs_latest_sequence s'
    \<and> configure = (if ah_watchlist_revision hello = hs_desired_watchlist_revision s'
           \<and> ah_watchlist_instruments hello = hs_desired_instruments s' then None
         else Some \<lparr>cw_revision = hs_desired_watchlist_revision s', cw_instruments = hs_desired_instruments s'\<rparr>)"
    using assms
  proof (cases rule: connect_agent_cases)
    case (accepted n c)
    have "hs_agent_session s' = Some (hs_next_session s) \<and> hs_agent_commands s' = Some commands
      \<and> hs_generation s' = Some (ah_terminal_generation hello)
      \<and> hs_latest_sequence s' = hs_latest_sequence (enter_generation s (ah_terminal_generation hello))"
      by (subst (1 2 3 4) accepted(5)) simp
    then show ?thesis using accepted by simp
  qed simp_all
  then show "hs_agent_session s = None" "hs_agent_session s' = Some session"
    "hs_generation s' = Some (ah_terminal_generation hello)" "hs_agent_commands s' = Some commands"
    "session = hs_next_session s" "seq = hs_latest_sequence s'"
    "configure = (if ah_watchlist_revision hello = hs_desired_watchlist_revision s'
           \<and> ah_watchlist_instruments hello = hs_desired_instruments s' then None
         else Some \<lparr>cw_revision = hs_desired_watchlist_revision s', cw_instruments = hs_desired_instruments s'\<rparr>)"
    by blast+
qed

lemma answer_agent_cases:
  assumes "answer_agent s session g outcome = Ok (s', go)"
  obtains (goes_on) c where "go" "send_command s c = Ok s'"
    | (stops) s1 where "\<not> go" "s1 = s \<or> (\<exists>c. send_command s c = Ok s1)" "s' = disconnect_agent s1 session"
  using assms by (auto simp: answer_agent_def split: rres.splits)

lemma idle_holders:
  assumes "system_inv elen hub y" "hs_agent_session (sy_hub y) = None"
  shows "sy_tasks y = {}" "sy_connected y = {}" "sy_acknowledged y = {}"
  using assms by (fastforce simp: system_inv_def holders_def one_holder_def)+

lemma single_holder:
  assumes "system_inv elen hub y"
  shows "t \<in> sy_tasks y \<Longrightarrow> sy_tasks y = {t} \<and> sy_connected y = {} \<and> sy_acknowledged y = {}"
    "opened \<in> sy_connected y \<Longrightarrow> sy_tasks y = {} \<and> sy_connected y = {opened} \<and> sy_acknowledged y = {}"
    "opened \<in> sy_acknowledged y \<Longrightarrow> sy_tasks y = {} \<and> sy_connected y = {} \<and> sy_acknowledged y = {opened}"
  using assms by (auto simp: system_inv_def one_holder_def)

lemma system_inv_keep:
  assumes "system_inv elen hub y" "hub_inv elen hub s'"
    and "hs_agent_session s' = hs_agent_session (sy_hub y)" "hs_generation s' = hs_generation (sy_hub y)"
  shows "system_inv elen hub (y\<lparr>sy_hub := s'\<rparr>)"
  using assms by (auto simp: system_inv_def one_holder_def holders_def)

text \<open>The holders, and the sets of the three kinds of them, after a step.\<close>

lemma system_inv_hold:
  assumes "hub_inv elen hub s'" "one_holder z" "sy_hub z = s'"
    and "\<And>session g. (session, g) \<in> holders z \<Longrightarrow> hs_agent_session s' = Some session \<and> hs_generation s' = Some g"
  shows "system_inv elen hub z"
  using assms by (auto simp: system_inv_def)

section \<open>Opening a stream\<close>

lemma open_connect_session:
  assumes "open_connect hub s first = (s', Ok opened)"
  shows "hs_agent_session s = None" "hs_agent_session s' = Some (op_session opened)"
    "hs_generation s' = Some (op_generation opened)"
proof -
  have "hs_agent_session s = None \<and> hs_agent_session s' = Some (op_session opened)
    \<and> hs_generation s' = Some (op_generation opened)"
    using assms
  proof (cases rule: open_connect_cases)
    case (connected hello o1)
    then show ?thesis using connect_accepted_simps(1-3) [OF connected(3)] by simp
  qed simp
  then show "hs_agent_session s = None" "hs_agent_session s' = Some (op_session opened)"
    "hs_generation s' = Some (op_generation opened)" by blast+
qed

lemma open_connect_active:
  assumes "open_connect hub s first = (s', r)" "hs_agent_session s \<noteq> None"
  shows "\<not> is_ok r" "s' = s"
proof -
  have "\<not> is_ok r \<and> s' = s"
    using assms(1)
  proof (cases rule: open_connect_cases)
    case (connected hello opened)
    then show ?thesis using connect_accepted_simps(1) [OF connected(3)] assms(2) by simp
  qed (use assms(2) in auto)
  then show "\<not> is_ok r" "s' = s" by blast+
qed

text \<open>How a stream opens while other requests run between the steps of its handler: the results
  that \<open>open_stream\<close> has when none does are among them.\<close>

inductive stream_opens ::
  "(envelope \<Rightarrow> usize) \<Rightarrow> event_hub \<Rightarrow> hub_state \<Rightarrow> first_message \<Rightarrow> hub_state
     \<Rightarrow> (u64 \<times> string, status) rres \<Rightarrow> bool"
  for elen hub
where
  so_refused: "open_connect hub s first = (s', Err x) \<Longrightarrow> stream_opens elen hub s first s' (Err x)"
| so_panics: "open_connect hub s first = (s', Panic p) \<Longrightarrow> stream_opens elen hub s first s' (Panic p)"
| so_unacknowledged: "open_connect hub s first = (s1, Ok opened) \<Longrightarrow> hub_requests elen hub s1 s2
    \<Longrightarrow> open_acknowledge s2 opened = (s', Err x) \<Longrightarrow> stream_opens elen hub s first s' (Err x)"
| so_configured: "open_connect hub s first = (s1, Ok opened) \<Longrightarrow> hub_requests elen hub s1 s2
    \<Longrightarrow> open_acknowledge s2 opened = (s3, Ok ()) \<Longrightarrow> hub_requests elen hub s3 s4
    \<Longrightarrow> open_configure s4 opened = (s', r) \<Longrightarrow> stream_opens elen hub s first s' r"

lemma open_stream_opens:
  assumes "open_stream hub s first = (s', r)"
  shows "stream_opens elen hub s first s' r"
proof -
  obtain s1 r1 where c: "open_connect hub s first = (s1, r1)" by fastforce
  show ?thesis
  proof (cases r1)
    case (Ok opened)
    obtain s2 r2 where a: "open_acknowledge s1 opened = (s2, r2)" by fastforce
    from a show ?thesis
    proof (cases rule: open_acknowledge_cases)
      case sent
      with assms c a Ok have "open_configure s2 opened = (s', r)" by (simp add: open_stream_def)
      then show ?thesis using so_configured c a sent Ok by blast
    next
      case unavailable
      then show ?thesis using so_unacknowledged [OF _ rtranclp.rtrancl_refl] assms c a Ok
        by (fastforce simp: open_stream_def)
    qed
  qed (use assms c so_refused so_panics in \<open>auto simp: open_stream_def\<close>)
qed

lemma stream_opens_front:
  assumes o: "stream_opens elen hub s first s' r" and inv: "hub_inv elen hub s"
  obtains (unconnected) r1 where "\<not> is_ok r" "open_connect hub s first = (s', r1)" "\<not> is_ok r1"
  | (connected) s1 opened where "open_connect hub s first = (s1, Ok opened)"
      "hub_inv elen hub s'" "hs_agent_session s' = hs_agent_session s1" "hs_generation s' = hs_generation s1"
      "hs_latest_sequence s' = hs_latest_sequence s1" "hs_replay s' = hs_replay s1"
      "is_ok r \<Longrightarrow> r = Ok (op_session opened, op_generation opened)"
  using o
proof cases
  case (so_unacknowledged s1 opened s2 x)
  have "hub_inv elen hub s1" by (rule hub_inv_open_connect [OF inv so_unacknowledged(2)])
  note k = requests_keep [OF so_unacknowledged(3) this]
  then have "hub_inv elen hub s2" by blast
  note a = hub_inv_open_acknowledge [OF this so_unacknowledged(4)]
  show ?thesis
    by (rule connected [OF so_unacknowledged(2) a(1)])
      (use k same_front_simps [OF a(2)] so_unacknowledged(1) in simp_all)
next
  case (so_configured s1 opened s2 s3 s4)
  have "hub_inv elen hub s1" by (rule hub_inv_open_connect [OF inv so_configured(1)])
  note k = requests_keep [OF so_configured(2) this]
  then have "hub_inv elen hub s2" by blast
  note a = hub_inv_open_acknowledge [OF this so_configured(3)]
  note k' = requests_keep [OF so_configured(4) a(1)]
  then have "hub_inv elen hub s4" by blast
  note c = hub_inv_open_configure [OF this so_configured(5)]
  have "is_ok r \<Longrightarrow> r = Ok (op_session opened, op_generation opened)"
    using so_configured(5) by (cases rule: open_configure_cases) simp_all
  then show ?thesis
    by (intro connected [OF so_configured(1) c(1)])
      (use k k' same_front_simps [OF a(2)] same_front_simps [OF c(2)] in simp_all)
qed (use unconnected in simp_all)

lemma stream_opens_inv:
  assumes "stream_opens elen hub s first s' r" and "hub_inv elen hub s"
  shows "hub_inv elen hub s'"
  using assms by (cases rule: stream_opens_front) (use assms(2) hub_inv_open_connect in blast)+

lemma stream_opens_session:
  assumes "stream_opens elen hub s first s' (Ok (session, g))" and "hub_inv elen hub s"
  shows "hs_agent_session s = None" "hs_agent_session s' = Some session" "hs_generation s' = Some g"
proof -
  have "hs_agent_session s = None \<and> hs_agent_session s' = Some session \<and> hs_generation s' = Some g"
    using assms by (cases rule: stream_opens_front) (simp_all add: open_connect_session)
  then show "hs_agent_session s = None" "hs_agent_session s' = Some session" "hs_generation s' = Some g"
    by blast+
qed

lemma stream_opens_active:
  assumes "stream_opens elen hub s first s' r" "hub_inv elen hub s" "hs_agent_session s \<noteq> None"
  shows "\<not> is_ok r" "s' = s"
proof -
  have "\<not> is_ok r \<and> s' = s"
    using assms(1,2)
  proof (cases rule: stream_opens_front)
    case (unconnected r1)
    then show ?thesis using open_connect_active(2) [OF unconnected(2) assms(3)] by simp
  next
    case (connected s1 opened)
    then show ?thesis using open_connect_session(1) [OF connected(1)] assms(3) by simp
  qed
  then show "\<not> is_ok r" "s' = s" by blast+
qed

lemma open_stream_active:
  assumes "open_stream hub s first = (s', r)" "hs_agent_session s \<noteq> None"
  shows "\<not> is_ok r" "s' = s"
proof -
  obtain s1 r1 where c: "open_connect hub s first = (s1, r1)" by fastforce
  note a = open_connect_active [OF c assms(2)]
  then show "\<not> is_ok r" "s' = s" using assms(1) c by (cases r1; auto simp: open_stream_def)+
qed

section \<open>The invariant\<close>

lemma system_inv_step:
  assumes "hub_step sha js elen hub y z" "system_inv elen hub y"
  shows "system_inv elen hub z"
  using assms
proof (induction rule: hub_step.induct)
  case (step_connect y first s' opened)
  note o = open_connect_session [OF step_connect.hyps]
  from idle_holders [OF step_connect.prems o(1)] o hub_inv_open_connect [OF _ step_connect.hyps] step_connect.prems
  show ?case by (simp add: system_inv_def one_holder_def holders_def)
next
  case (step_connect_fails y first s' r)
  have inv: "hub_inv elen hub s'"
    using hub_inv_open_connect [OF _ step_connect_fails.hyps(1)] step_connect_fails.prems by (simp add: system_inv_def)
  show ?case
  proof (cases "hs_agent_session (sy_hub y) = None")
    case True
    from idle_holders [OF step_connect_fails.prems this] inv show ?thesis
      by (simp add: system_inv_def one_holder_def holders_def)
  next
    case False
    then show ?thesis using open_connect_active(2) [OF step_connect_fails.hyps(1)] step_connect_fails.prems by simp
  qed
next
  case (step_acknowledge opened y s' r')
  note h = single_holder(2) [OF step_acknowledge.prems step_acknowledge.hyps(1)]
  have "hub_inv elen hub (sy_hub y)" using step_acknowledge.prems by (simp add: system_inv_def)
  note k = hub_inv_open_acknowledge [OF this step_acknowledge.hyps(2)]
  show ?case
    using k(1) same_front_simps(1,2) [OF k(2)] h step_acknowledge.prems
    by (simp add: system_inv_def one_holder_def holders_def)
next
  case (step_configure opened y s' task)
  note h = single_holder(3) [OF step_configure.prems step_configure.hyps(1)]
  have "hub_inv elen hub (sy_hub y)" using step_configure.prems by (simp add: system_inv_def)
  note k = hub_inv_open_configure [OF this step_configure.hyps(2)]
  have "task = (op_session opened, op_generation opened)"
    using step_configure.hyps(2) by (cases rule: open_configure_cases) simp_all
  then show ?case
    using k(1) same_front_simps(1,2) [OF k(2)] h step_configure.prems
    by (simp add: system_inv_def one_holder_def holders_def)
next
  case (step_configure_fails opened y s' r'')
  note h = single_holder(3) [OF step_configure_fails.prems step_configure_fails.hyps(1)]
  have "hub_inv elen hub (sy_hub y)" using step_configure_fails.prems by (simp add: system_inv_def)
  note k = hub_inv_open_configure [OF this step_configure_fails.hyps(2)]
  show ?case
    using k(1) h by (simp add: system_inv_def one_holder_def holders_def)
next
  case (step_publish session g y e s' answer)
  then have inv: "hub_inv elen hub (sy_hub y)" by (simp add: system_inv_def)
  show ?case
    by (rule system_inv_keep [OF step_publish.prems lane_ok_publish [OF inv step_publish.hyps(2)]
          publish_keeps [OF inv step_publish.hyps(2)]])
next
  case (step_answer session g y answer s' go)
  then have inv: "hub_inv elen hub (sy_hub y)" by (simp add: system_inv_def)
  show ?case
    using step_answer.hyps(2)
  proof (cases rule: answer_agent_cases)
    case (goes_on c)
    then show ?thesis
      using system_inv_keep [OF step_answer.prems hub_inv_send [OF inv goes_on(2)]]
        send_command_simps [OF goes_on(2)] by simp
  next
    case (stops s1)
    have "hub_inv elen hub s'" using stops inv hub_inv_send hub_inv_disconnect by metis
    then show ?thesis
      using single_holder(1) [OF step_answer.prems step_answer.hyps(1)] stops(1)
      by (simp add: system_inv_def one_holder_def holders_def)
  qed
next
  case (step_gone session g y)
  have "hub_inv elen hub (disconnect_agent (sy_hub y) session)"
    using step_gone.prems by (simp add: system_inv_def hub_inv_disconnect)
  then show ?case
    using single_holder(1) [OF step_gone.prems step_gone.hyps]
    by (simp add: system_inv_def one_holder_def holders_def)
next
  case (step_drain y)
  show ?case
    by (rule system_inv_keep [OF step_drain.prems])
       (use step_drain.prems in \<open>auto simp: system_inv_def drain_command_def hub_inv_def agent_ok_def lane_ok_def\<close>)
next
  case (step_hang_up y)
  show ?case
    by (rule system_inv_keep [OF step_hang_up.prems])
       (use step_hang_up.prems in \<open>auto simp: system_inv_def hub_inv_close\<close>)
next
  case (step_request y s')
  then have "hub_inv elen hub (sy_hub y)" by (simp add: system_inv_def)
  note k = request_keeps [OF step_request.hyps this]
  show ?case by (rule system_inv_keep [OF step_request.prems k(1,3,2)])
qed

lemma system_inv_reaches:
  assumes "hub_reaches sha js elen hub y z" "system_inv elen hub y"
  shows "system_inv elen hub z"
  using assms by (induction rule: rtranclp_induct) (auto intro: system_inv_step)

section \<open>An opening stream in the system\<close>

lemma requests_reach:
  "hub_requests elen hub s s' \<Longrightarrow> hub_reaches sha js elen hub (y\<lparr>sy_hub := s\<rparr>) (y\<lparr>sy_hub := s'\<rparr>)"
proof (induction rule: rtranclp_induct)
  case (step u v)
  have "hub_step sha js elen hub (y\<lparr>sy_hub := u\<rparr>) (y\<lparr>sy_hub := v\<rparr>)"
    using step_request [of elen hub "y\<lparr>sy_hub := u\<rparr>" v sha js] step.hyps by simp
  with step.IH show ?case by (rule rtranclp.rtrancl_into_rtrancl)
qed simp

lemma stream_opens_reaches:
  assumes "stream_opens elen hub s first s' r"
  shows "hub_reaches sha js elen hub (system_of s {}) (system_of s' (case r of Ok task \<Rightarrow> {task} | _ \<Rightarrow> {}))"
  using assms
proof cases
  case (so_refused x)
  then show ?thesis using step_connect_fails [of hub "system_of s {}"] by (fastforce intro: r_into_rtranclp)
next
  case (so_panics p)
  then show ?thesis using step_connect_fails [of hub "system_of s {}"] by (fastforce intro: r_into_rtranclp)
next
  case (so_unacknowledged s1 opened s2 x)
  let ?c = "\<lambda>s. \<lparr>sy_hub = s, sy_tasks = {}, sy_connected = {opened}, sy_acknowledged = {}\<rparr>"
  have "hub_step sha js elen hub (system_of s {}) (?c s1)"
    using step_connect [of hub "system_of s {}"] so_unacknowledged(2) by fastforce
  also have "hub_reaches sha js elen hub (?c s1) (?c s2)"
    using requests_reach [OF so_unacknowledged(3), of sha js "?c s1"] by simp
  also have "hub_step sha js elen hub (?c s2) (system_of s' {})"
    using step_acknowledge [of opened "?c s2"] so_unacknowledged(4) by fastforce
  finally show ?thesis using so_unacknowledged(1) by simp
next
  case (so_configured s1 opened s2 s3 s4)
  let ?c = "\<lambda>s. \<lparr>sy_hub = s, sy_tasks = {}, sy_connected = {opened}, sy_acknowledged = {}\<rparr>"
  let ?a = "\<lambda>s. \<lparr>sy_hub = s, sy_tasks = {}, sy_connected = {}, sy_acknowledged = {opened}\<rparr>"
  have "hub_step sha js elen hub (system_of s {}) (?c s1)"
    using step_connect [of hub "system_of s {}"] so_configured(1) by fastforce
  also have "hub_reaches sha js elen hub (?c s1) (?c s2)"
    using requests_reach [OF so_configured(2), of sha js "?c s1"] by simp
  also have "hub_step sha js elen hub (?c s2) (?a s3)"
    using step_acknowledge [of opened "?c s2"] so_configured(3) by fastforce
  also have "hub_reaches sha js elen hub (?a s3) (?a s4)"
    using requests_reach [OF so_configured(4), of sha js "?a s3"] by simp
  also have "hub_step sha js elen hub (?a s4) (system_of s' (case r of Ok task \<Rightarrow> {task} | _ \<Rightarrow> {}))"
    using step_configure [of opened "?a s4"] step_configure_fails [of opened "?a s4"] so_configured(5)
    by (cases r) fastforce+
  finally show ?thesis .
qed

section \<open>A session nobody serves\<close>

definition leaked_session :: "u64 \<Rightarrow> hub_system \<Rightarrow> bool" where
  "leaked_session session y \<longleftrightarrow> hs_agent_session (sy_hub y) = Some session \<and> holders y = {}"

lemma leaked_step:
  assumes "hub_step sha js elen hub y z" "leaked_session session y"
  shows "leaked_session session z"
  using assms
proof (induction rule: hub_step.induct)
  case (step_connect y first s' opened)
  then show ?case using open_connect_session(1) [OF step_connect.hyps] by (simp add: leaked_session_def)
next
  case (step_connect_fails y first s' r)
  then show ?case using open_connect_active(2) [OF step_connect_fails.hyps(1)] by (simp add: leaked_session_def)
next
  case (step_request y s')
  from step_request.hyps have "hs_agent_session s' = hs_agent_session (sy_hub y)"
  proof cases
    case (rq_watchlist request_id instruments r)
    then show ?thesis by (auto elim: set_watchlist_cases)
  next
    case (rq_local e r')
    then show ?thesis by (auto elim: publish_local_cases)
  next
    case (rq_subscribe after flt r'')
    then show ?thesis
      by (cases "validate_live_cursor after (sy_hub y)") (auto simp: subscribe_from_def split: if_splits)
  qed (simp add: drop_subscriber_def)
  then show ?case using step_request.prems by (simp add: leaked_session_def holders_def)
qed (auto simp: leaked_session_def drain_command_def holders_def)

lemma leaked_forever:
  "hub_reaches sha js elen hub y z \<Longrightarrow> leaked_session session y \<Longrightarrow> leaked_session session z"
  by (induction rule: rtranclp_induct) (auto intro: leaked_step)

end
