(* ===== verification/Hub_Properties.thy ===== *)
theory Hub_Properties
  imports Hub_System Core_Properties
begin

text \<open>
  The properties of the event hub, with a sample hub whose command queue holds one command, and
  an agent that connects, is reconfigured, leaves and comes back.
\<close>

section \<open>Samples\<close>

definition sample_payload :: canonical_payload where
  "sample_payload = \<lparr>cp_schema = ''s'', cp_schema_version = 1,
     cp_content_type = canonical_json_content_type, cp_data = [123, 125]\<rparr>"

definition sample_hello :: agent_hello where
  "sample_hello = \<lparr>ah_protocol_version = 1, ah_agent_id = ''a'', ah_terminal_generation = ''g'',
     ah_terminal_evidence = Some sample_payload, ah_watchlist_revision = 0,
     ah_watchlist_instruments = [''EQUITY:SH:600396''], ah_maximum_watchlist_instruments = 2\<rparr>"

definition sample_hub :: event_hub where
  "sample_hub = \<lparr>eh_max_subscribers = 2, eh_replay_max_events = 2, eh_replay_max_bytes = 100,
     eh_maximum_payload_bytes = 64, eh_agent_command_capacity = 1, eh_agent_heartbeat_timeout = 1\<rparr>"

definition sample_event_of :: "u64 \<Rightarrow> envelope" where
  "sample_event_of n = \<lparr>en_protocol_version = 1, en_event_id = ''e'',
     en_cursor = Some \<lparr>ec_generation = ''g'', ec_sequence = n\<rparr>, en_event_kind = ''k'',
     en_provider = ''LocalTerminal'', en_instrument = ''i'', en_observed_at = ''t'', en_source_at = [],
     en_admission = 2, en_payload = Some sample_payload\<rparr>"

definition no_json :: "unit serde_lib" where
  "no_json = \<lparr>sj_from_slice = (\<lambda>_. None), sj_get = (\<lambda>_ _. None), sj_as_str = (\<lambda>_. None),
     sj_as_bool = (\<lambda>_. None), sj_as_u64 = (\<lambda>_. None), sj_as_object = (\<lambda>_. None),
     sj_anomaly_wire = (\<lambda>_. None)\<rparr>"

lemma sample_hub_limits: "hub_limits_ok sample_hub"
  by (simp add: hub_limits_ok_def sample_hub_def)

lemma short_trims [simp]:
  "trim ''s'' = ''s''" "trim ''a'' = ''a''" "trim ''g'' = ''g''" "trim ''e'' = ''e''" "trim ''k'' = ''k''"
  "trim ''i'' = ''i''" "trim ''t'' = ''t''" "trim ''EQUITY:SH:600396'' = ''EQUITY:SH:600396''"
  "trim ''EQUITY:SH:600519'' = ''EQUITY:SH:600519''" "trim ''server-internal'' = ''server-internal''"
  by (rule printable_text(1), simp add: printable_def)+

lemma sample_payload_ok: "validate_payload sample_payload 64 = Ok ()"
  by (simp add: validate_payload_def sample_payload_def)

lemma sample_watchlists [simp]:
  "valid_instrument ''EQUITY:SH:600396''" "valid_instrument ''EQUITY:SH:600519''"
  by (simp_all add: valid_instrument_def is_ascii_digit_def)

lemma sample_hello_ok: "validate_hello sample_hello 64 = Ok ()"
  by (simp add: validate_hello_def sample_hello_def sample_payload_ok protocol_version_def ok_or_def
      validate_monitor_watchlist_def)

lemma sample_event_ok: "n \<noteq> 0 \<Longrightarrow> validate_event sha js (sample_event_of n) 64 = Ok ()"
  by (simp add: validate_event_def sample_event_of_def envelope_identity_ok_def protocol_version_def
      validate_envelope_parts_def sample_payload_ok ok_or_def admission_state_of_def)

text \<open>The first connection, and the state after the agent read its acknowledgement, was
  reconfigured, read the command and left.\<close>

definition sample_connected :: hub_state where
  "sample_connected = hub_state_new\<lparr>hs_generation := Some ''g'', hs_agent_session := Some 1,
     hs_agent_commands := Some \<lparr>cc_capacity = 1, cc_queue = [Ack ''g'' 0], cc_closed = False\<rparr>,
     hs_maximum_watchlist_instruments := 2, hs_desired_instruments := [''EQUITY:SH:600396''],
     hs_applied_instruments := [''EQUITY:SH:600396''], hs_next_session := 2,
     hs_agent_connections_total := 1\<rparr>"

definition sample_left :: hub_state where
  "sample_left = disconnect_agent (drain_command (fst (set_watchlist (drain_command sample_connected)
     ''r'' [''EQUITY:SH:600519'']))) 1"

lemma sample_connects:
  "open_stream sample_hub hub_state_new (Hello sample_hello) = (sample_connected, Ok (1, ''g''))"
  by (simp add: open_stream_defs connect_agent_def sample_hub_def sample_hello_ok Let_def hub_state_new_def
      sample_hello_def [THEN arg_cong, of ah_terminal_generation]
      sample_hello_def [THEN arg_cong, of ah_watchlist_revision]
      sample_hello_def [THEN arg_cong, of ah_watchlist_instruments]
      sample_hello_def [THEN arg_cong, of ah_maximum_watchlist_instruments]
      enter_generation_def same_generation_def checked_add_def saturating_add_def channel_new_def
      send_command_def try_send_def sample_connected_def)


lemma sample_path:
  "hub_reaches sha js elen sample_hub (system_of hub_state_new {}) (system_of sample_left {})"
proof -
  let ?s = "fst (set_watchlist (drain_command sample_connected) ''r'' [''EQUITY:SH:600519''])"
  let ?T = "{(1, ''g'')} :: (u64 \<times> string) set"
  have "hub_reaches sha js elen sample_hub (system_of hub_state_new {}) (system_of sample_connected ?T)"
    using stream_opens_reaches [OF open_stream_opens [OF sample_connects]] by simp
  also have "hub_step sha js elen sample_hub (system_of sample_connected ?T) (system_of (drain_command sample_connected) ?T)"
    using step_drain [of "system_of sample_connected ?T" sha js elen sample_hub] by simp
  also have "hub_step sha js elen sample_hub (system_of (drain_command sample_connected) ?T) (system_of ?s ?T)"
    using step_request [where y = "system_of (drain_command sample_connected) ?T" and s' = ?s]
      rq_watchlist [OF prod.collapse [symmetric]] by fastforce
  also have "hub_step sha js elen sample_hub (system_of ?s ?T) (system_of (drain_command ?s) ?T)"
    using step_drain [of "system_of ?s ?T" sha js elen sample_hub] by simp
  also have "hub_step sha js elen sample_hub (system_of (drain_command ?s) ?T) (system_of sample_left {})"
    using step_gone [of 1 "''g''" "system_of (drain_command ?s) ?T" sha js elen sample_hub]
    by (simp add: sample_left_def)
  finally show ?thesis .
qed


section \<open>States\<close>

text \<open>C5: Every state the hub reaches, under any interleaving of its handlers, keeps its
  invariant: the replay lane is one generation of consecutive events that ends at the latest
  sequence, within both limits and with exact byte accounting; the watchlist is valid; receivers
  stay within their limit; and at most one stream is served, that of the active session.\<close>

theorem hub_reachable:
  assumes "hub_limits_ok hub" and "hub_reaches sha js elen hub (system_of hub_state_new {}) y"
  shows "lane_ok elen hub (sy_hub y) \<and> agent_ok (sy_hub y)
     \<and> hs_receivers (sy_hub y) \<le> eh_max_subscribers hub
     \<and> (\<forall>task \<in> sy_tasks y. hs_agent_session (sy_hub y) = Some (fst task)
          \<and> hs_generation (sy_hub y) = Some (snd task) \<and> sy_tasks y = {task})"
proof -
  have inv: "system_inv elen hub y"
    by (rule system_inv_reaches [OF assms(2) system_inv_new [OF assms(1)]])
  have "sy_tasks y = {task}" if "task \<in> sy_tasks y" for task
    using single_holder(1) [OF inv that] by blast
  then show ?thesis using inv by (fastforce simp: system_inv_def hub_inv_def holders_def)
qed

theorem hub_reachable_witness:
  "lane_ok (\<lambda>_. 1) sample_hub sample_left \<and> agent_ok sample_left"
  using hub_reachable [OF sample_hub_limits sample_path [of "\<lambda>_. []" no_json "\<lambda>_. 1"]] by simp

section \<open>Publication and replay\<close>

text \<open>C14: A call to publish always returns. It accepts exactly the valid event of the active
  session and generation that carries the next sequence number and fits the byte limit; the event
  is then the newest of the replay lane. Otherwise nothing changes.\<close>

theorem publish_exact:
  assumes "hub_inv elen hub s"
  shows "\<exists>s' r. publish sha js elen hub session s e = Some (s', r)
     \<and> (is_ok r \<longleftrightarrow> is_next_event sha js elen hub session s e)
     \<and> (is_ok r \<longrightarrow> r = Ok (ec_sequence (cursor_of e)) \<and> hs_latest_sequence s' = ec_sequence (cursor_of e)
          \<and> hs_replay s' \<noteq> [] \<and> last (hs_replay s') = e)
     \<and> (\<not> is_ok r \<longrightarrow> s' = s)"
proof (rule publish_outcome [OF assms, of sha js session e])
  fix s' r
  assume p: "publish sha js elen hub session s e = Some (s', r)"
    and n: "is_ok r \<longleftrightarrow> is_next_event sha js elen hub session s e"
    and a: "is_ok r \<Longrightarrow> r = Ok (ec_sequence (cursor_of e))
       \<and> (\<exists>b n. s' = s\<lparr>hs_latest_sequence := ec_sequence (cursor_of e),
              hs_events_published_total := saturating_add (hs_events_published_total s) 1,
              hs_replay := retain (\<lambda>e. unat (elen e)) (unat (eh_replay_max_events hub))
                 (unat (eh_replay_max_bytes hub)) (hs_replay s @ [e]),
              hs_replay_bytes := b, hs_replay_evictions_total := n\<rparr>
            \<and> unat b = sum_list (map (\<lambda>e. unat (elen e)) (retain (\<lambda>e. unat (elen e))
                 (unat (eh_replay_max_events hub)) (unat (eh_replay_max_bytes hub)) (hs_replay s @ [e]))))"
    and r: "\<not> is_ok r \<Longrightarrow> s' = s"
  have "hs_replay s' \<noteq> [] \<and> last (hs_replay s') = e \<and> hs_latest_sequence s' = ec_sequence (cursor_of e)"
    if ok: "is_ok r"
  proof -
    obtain ys where "retain (\<lambda>e. unat (elen e)) (unat (eh_replay_max_events hub))
        (unat (eh_replay_max_bytes hub)) (hs_replay s @ [e]) = ys @ [e]"
      using retain_snoc_last [of "\<lambda>e. unat (elen e)" e "unat (eh_replay_max_bytes hub)"
          "unat (eh_replay_max_events hub)" "hs_replay s"] n ok assms
      by (auto simp: is_next_event_def hub_inv_def hub_limits_ok_def)
    then show ?thesis using a [OF ok] by auto
  qed
  then show ?thesis using p n a r by blast
qed

definition sample_serving :: hub_state where
  "sample_serving = drain_command sample_connected"

lemma sample_serving_inv: "hub_inv (\<lambda>_. 1) sample_hub sample_serving"
  by (simp add: hub_inv_def sample_hub_limits sample_serving_def drain_command_def sample_connected_def
      lane_ok_def agent_ok_def hub_state_new_def watchlist_ok_def)

theorem publish_exact_witness:
  "\<exists>s'. publish (\<lambda>_. []) no_json (\<lambda>_. 1) sample_hub 1 sample_serving (sample_event_of 1) = Some (s', Ok 1)
     \<and> last (hs_replay s') = sample_event_of 1"
proof -
  have "is_next_event (\<lambda>_. []) no_json (\<lambda>_. 1) sample_hub 1 sample_serving (sample_event_of 1)"
    using sample_event_ok [of 1 "\<lambda>_. []" no_json]
    by (simp add: is_next_event_def sample_hub_def sample_serving_def drain_command_def sample_connected_def
        hub_state_new_def cursor_of_def sample_event_of_def)
  then show ?thesis
    using publish_exact [OF sample_serving_inv, of "\<lambda>_. []" no_json 1 "sample_event_of 1"]
    by (auto simp: cursor_of_def sample_event_of_def)
qed

text \<open>C6: A replay after a cursor that succeeds returns, in order, every event of the session's
  history after that cursor that passes the filter, whatever was evicted meanwhile.\<close>

theorem hub_replay_without_gap:
  assumes inv: "hub_inv elen hub s"
    and r: "hub_replay_after (retained_log.run (publish_step sha js elen hub session) s es) (Some c) flt = Ok out"
  shows "out = filter (\<lambda>e. ec_sequence c < ec_sequence (cursor_of e) \<and> filter_matches flt e)
    (retained_log.history hs_replay (publish_step sha js elen hub session) s es)"
proof -
  let ?t = "retained_log.run (publish_step sha js elen hub session) s es"
  let ?n = "unat (ec_sequence c)"
  have invt: "hub_inv elen hub ?t" by (rule hub_log.run_inv [OF inv])
  then have cur: "en_cursor e = Some (cursor_of e)" if "e \<in> set (hs_replay ?t)" for e
    using that by (auto simp: hub_inv_def lane_ok_def list_all_iff cursor_of_def)
  have out: "out = filter (\<lambda>e. (case en_cursor e of None \<Rightarrow> False | Some d \<Rightarrow> ec_sequence c < ec_sequence d)
      \<and> filter_matches flt e) (hs_replay ?t)"
    using r by (auto simp: hub_replay_after_def split: option.splits if_splits)
  also have "\<dots> = filter (\<lambda>e. ec_sequence c < ec_sequence (cursor_of e) \<and> filter_matches flt e) (hs_replay ?t)"
    using cur by (intro filter_cong) auto
  also have "\<dots> = filter (filter_matches flt) (filter (\<lambda>e. ?n < event_seq e) (hs_replay ?t))"
    by (simp add: word_less_nat_alt conj_commute)
  also have "filter (\<lambda>e. ?n < event_seq e) (hs_replay ?t)
      = filter (\<lambda>e. ?n < event_seq e)
          (retained_log.history hs_replay (publish_step sha js elen hub session) s es)"
  proof (rule hub_log.replay_complete [OF inv])
    assume ne: "hs_replay ?t \<noteq> []"
    then obtain f rest where f: "hs_replay ?t = f # rest" by (cases "hs_replay ?t") auto
    have "\<not> saturating_add (ec_sequence c) 1 < ec_sequence (cursor_of f)"
      using r cur [of f] f by (auto simp: hub_replay_after_def split: option.splits if_splits)
    moreover have "unat (saturating_add (ec_sequence c) 1) \<le> Suc ?n"
      using unat_not_top [of "ec_sequence c"] unat_add_no_overflow [of "ec_sequence c" 1]
      by (auto simp: saturating_add_def)
    ultimately show "event_seq (hd (hs_replay ?t)) \<le> Suc ?n"
      by (simp add: f word_less_nat_alt)
  qed
  also have "filter (filter_matches flt) \<dots>
      = filter (\<lambda>e. ec_sequence c < ec_sequence (cursor_of e) \<and> filter_matches flt e)
          (retained_log.history hs_replay (publish_step sha js elen hub session) s es)"
    by (simp add: word_less_nat_alt conj_commute)
  finally show ?thesis .
qed

lemmas sample_publish = publish_step_def publish_def sample_hub_def sample_serving_def drain_command_def
  sample_connected_def hub_state_new_def same_generation_def cursor_of_def sample_event_of_def
  checked_add_def saturating_add_def saturating_sub_def evict_events.simps
  sample_event_ok [unfolded sample_event_of_def]

lemma sample_published:
  "hs_replay (retained_log.run (publish_step (\<lambda>_. []) no_json (\<lambda>_. 1) sample_hub 1) sample_serving
       [sample_event_of 1, sample_event_of 2, sample_event_of 4, sample_event_of 3])
     = [sample_event_of 2, sample_event_of 3]"
  "hs_generation (retained_log.run (publish_step (\<lambda>_. []) no_json (\<lambda>_. 1) sample_hub 1) sample_serving
       [sample_event_of 1, sample_event_of 2, sample_event_of 4, sample_event_of 3]) = Some ''g''"
  "hs_latest_sequence (retained_log.run (publish_step (\<lambda>_. []) no_json (\<lambda>_. 1) sample_hub 1) sample_serving
       [sample_event_of 1, sample_event_of 2, sample_event_of 4, sample_event_of 3]) = 3"
  "retained_log.history hs_replay (publish_step (\<lambda>_. []) no_json (\<lambda>_. 1) sample_hub 1) sample_serving
       [sample_event_of 1, sample_event_of 2, sample_event_of 4, sample_event_of 3]
     = [sample_event_of 1, sample_event_of 2, sample_event_of 3]"
  by (simp_all add: hub_log.history_def sample_publish)

theorem hub_replay_without_gap_witness:
  "filter (\<lambda>e. 2 < ec_sequence (cursor_of e)) [sample_event_of 1, sample_event_of 2, sample_event_of 3]
     = [sample_event_of 3]"
proof -
  let ?t = "retained_log.run (publish_step (\<lambda>_. []) no_json (\<lambda>_. 1) sample_hub 1) sample_serving
       [sample_event_of 1, sample_event_of 2, sample_event_of 4, sample_event_of 3]"
  let ?all = "\<lparr>ef_instruments = [], ef_event_kinds = []\<rparr>"
  have all: "filter_matches ?all e" for e by (simp add: filter_matches_def)
  have "hub_replay_after t (Some \<lparr>ec_generation = ''g'', ec_sequence = 2\<rparr>) ?all = Ok [sample_event_of 3]"
    if "hs_generation t = Some ''g''" "hs_latest_sequence t = 3" "hs_replay t = [sample_event_of 2, sample_event_of 3]"
    for t
    using that by (simp add: hub_replay_after_def all sample_event_of_def saturating_add_def)
  from this [OF sample_published(2,3,1)] have "hub_replay_after ?t
      (Some \<lparr>ec_generation = ''g'', ec_sequence = 2\<rparr>) ?all = Ok [sample_event_of 3]" .
  from hub_replay_without_gap [OF sample_serving_inv this] show ?thesis
    by (simp add: sample_published all)
qed

section \<open>The server's own lane\<close>

text \<open>Server events have a lane of their own: whatever becomes of such a call, the agent's
  generation, sequence, replay lane, session and watchlist are untouched, and a call that is not
  exhausted takes the next local sequence. A published event carries that sequence, which no
  other call takes, under the server's generation.\<close>

theorem local_lane_independent:
  assumes "publish_local elen hub s e = (s', r)"
  shows "hs_generation s' = hs_generation s \<and> hs_latest_sequence s' = hs_latest_sequence s
     \<and> hs_replay s' = hs_replay s \<and> hs_replay_bytes s' = hs_replay_bytes s
     \<and> hs_agent_session s' = hs_agent_session s \<and> hs_agent_commands s' = hs_agent_commands s
     \<and> hs_desired_instruments s' = hs_desired_instruments s
     \<and> (if hs_local_sequence s = - 1 then s' = s \<and> \<not> is_ok r
        else unat (hs_local_sequence s') = Suc (unat (hs_local_sequence s)))
     \<and> (\<forall>n sent. r = Ok (n, sent) \<longrightarrow> n = hs_local_sequence s'
          \<and> en_cursor sent = Some (cursor_of sent) \<and> ec_sequence (cursor_of sent) = n
          \<and> ec_generation (cursor_of sent) = local_event_generation)"
proof -
  have up: "unat (w + 1) = Suc (unat w)" if "w \<noteq> - 1" for w :: u64
    using checked_add_Suc [of w "w + 1"] that by (simp add: checked_add_one)
  from assms show ?thesis
    by (cases rule: publish_local_cases) (auto simp: up cursor_of_def)
qed

theorem local_lane_independent_witness:
  "hs_replay (fst (publish_local (\<lambda>_. 1) sample_hub sample_serving (sample_event_of 9))) = []
     \<and> unat (hs_local_sequence (fst (publish_local (\<lambda>_. 1) sample_hub sample_serving (sample_event_of 9)))) = 1"
  using local_lane_independent [OF prod.collapse [symmetric],
      of "\<lambda>_. 1" sample_hub sample_serving "sample_event_of 9"]
  by (simp add: sample_serving_def drain_command_def sample_connected_def hub_state_new_def)

section \<open>Watchlists\<close>

text \<open>C15: The watchlist the server wants changes only together with the command that tells the
  agent: a change puts a configuration with the new revision and instruments at the end of the
  agent's queue, raises the revision by one and keeps the list valid and within the agent's
  maximum; every refusal, a full queue included, leaves the state as it was.\<close>

theorem set_watchlist_dispatches:
  assumes "set_watchlist s request_id instruments = (s', r)"
  shows "(s' = s \<and> (is_ok r \<longrightarrow> instruments = hs_desired_instruments s))
     \<or> (\<exists>ch ch'. hs_agent_commands s = Some ch \<and> hs_agent_commands s' = Some ch'
          \<and> cc_queue ch' = cc_queue ch @ [ConfigureWatchlist
               \<lparr>cw_revision = hs_desired_watchlist_revision s', cw_instruments = instruments\<rparr>]
          \<and> length (cc_queue ch') \<le> unat (cc_capacity ch')
          \<and> unat (hs_desired_watchlist_revision s') = Suc (unat (hs_desired_watchlist_revision s))
          \<and> hs_desired_instruments s' = instruments \<and> watchlist_ok instruments
          \<and> length instruments \<le> unat (hs_maximum_watchlist_instruments s)
          \<and> hs_agent_session s' = hs_agent_session s \<and> hs_agent_session s \<noteq> None \<and> is_ok r)"
  using assms
proof (cases rule: set_watchlist_cases)
  case (dispatched ch revision)
  have rev: "unat revision = Suc (unat (hs_desired_watchlist_revision s))"
    using dispatched(4) by (simp add: checked_add_Suc)
  have "hs_agent_commands s' = Some (ch\<lparr>cc_queue := cc_queue ch
      @ [ConfigureWatchlist \<lparr>cw_revision = revision, cw_instruments = instruments\<rparr>]\<rparr>)"
    and "hs_desired_watchlist_revision s' = revision" "hs_desired_instruments s' = instruments"
    and "hs_agent_session s' = hs_agent_session s" "is_ok r"
    using dispatched(8,9) by simp_all
  then show ?thesis using dispatched(1-7) rev
    by (intro disjI2 exI [of _ ch] exI [of _ "ch\<lparr>cc_queue := cc_queue ch
      @ [ConfigureWatchlist \<lparr>cw_revision = revision, cw_instruments = instruments\<rparr>]\<rparr>"]) simp
qed simp_all

theorem set_watchlist_dispatches_witness:
  "fst (set_watchlist sample_connected ''r'' [''EQUITY:SH:600519'']) = sample_connected"
proof -
  have "set_watchlist sample_connected ''r'' [''EQUITY:SH:600519'']
      = (sample_connected, Err (resource_exhausted ''TDX agent command queue is unavailable''))"
    by (simp add: sample_connected_def set_watchlist_def validate_monitor_watchlist_def ok_or_def
        checked_add_def try_send_def hub_state_new_def)
  from set_watchlist_dispatches [OF this] show ?thesis
    by (auto simp: sample_connected_def set_watchlist_def validate_monitor_watchlist_def ok_or_def
        checked_add_def try_send_def hub_state_new_def)
qed

section \<open>Agent streams\<close>















end
