(* ===== verification/Agent_Client.thy ===== *)
theory Agent_Client
  imports Event_Hub
begin

text \<open>
  The agent that forwards the frames of a local monitor to the event hub: \<open>magic-market-tdx-agent\<close>
  \<open>client.rs\<close>. A session is a state machine: it waits for the server's first acknowledgement, then
  selects among a frame, a command and a heartbeat tick, and waits for the acknowledgement of what
  it sent. One turn handles one input; its result names the messages sent, or how the session ends.
\<close>

section \<open>Errors\<close>

datatype client_error =
    InvalidEndpoint
  | TransportError status
  | InvalidAuthorization
  | TlsFile
  | TlsFileSize
  | OutgoingStopped
  | CommandTimeout
  | StatusError status
  | CommandStreamClosed
  | StoppedByServer string
  | InvalidAcknowledgement
  | InvalidWatchlist string
  | StaleWatchlistRevision u64 u64
  | WatchlistRevisionContradiction u64
  | SequenceExhausted
  | SequenceContradiction u64 u64
  | FrameJson
  | MissingEventType
  | InvalidAdmissionMarker string
  | AdmittedFieldMissing string
  | AnalysisEventJson
  | InvalidAnalysisContract string
  | InvalidMonitorGeneration

datatype error_disposition = ReconnectSession | RestartMonitor | Fatal

definition transient_code :: "status_code \<Rightarrow> bool" where
  "transient_code c \<longleftrightarrow> c \<in> {Cancelled, UnknownCode, DeadlineExceeded, ResourceExhausted, Unavailable}"

fun disposition :: "client_error \<Rightarrow> error_disposition" where
  "disposition InvalidEndpoint = ReconnectSession"
| "disposition OutgoingStopped = ReconnectSession"
| "disposition CommandTimeout = ReconnectSession"
| "disposition CommandStreamClosed = ReconnectSession"
| "disposition (TransportError x) = (if transient_code (st_code x) then ReconnectSession else Fatal)"
| "disposition (StatusError x) = (if transient_code (st_code x) then ReconnectSession else Fatal)"
| "disposition FrameJson = RestartMonitor"
| "disposition MissingEventType = RestartMonitor"
| "disposition (InvalidAdmissionMarker f) = RestartMonitor"
| "disposition (AdmittedFieldMissing f) = RestartMonitor"
| "disposition AnalysisEventJson = RestartMonitor"
| "disposition (InvalidAnalysisContract w) = RestartMonitor"
| "disposition InvalidMonitorGeneration = RestartMonitor"
| "disposition x = Fatal"

section \<open>Frames\<close>

definition admitted_field :: "'j serde_lib \<Rightarrow> 'j \<Rightarrow> string \<Rightarrow> string \<Rightarrow> (bool, client_error) rres" where
  "admitted_field js document admission_field value_field =
     rbind (ok_or (InvalidAdmissionMarker admission_field) (get_bool js document admission_field)) (\<lambda>admitted.
     if \<not> admitted then Ok False
     else if get_str js document value_field = None then Err (AdmittedFieldMissing value_field)
     else Ok True)"

fun require_fields :: "'j serde_lib \<Rightarrow> 'j \<Rightarrow> string list \<Rightarrow> (unit, client_error) rres" where
  "require_fields js document [] = Ok ()"
| "require_fields js document (value_field # value_fields) =
     (if get_str js document value_field = None then Err (AdmittedFieldMissing value_field)
      else require_fields js document value_fields)"

definition admitted_fields :: "'j serde_lib \<Rightarrow> 'j \<Rightarrow> string \<Rightarrow> string list \<Rightarrow> (bool, client_error) rres" where
  "admitted_fields js document admission_field value_fields =
     rbind (ok_or (InvalidAdmissionMarker admission_field) (get_bool js document admission_field)) (\<lambda>admitted.
     if \<not> admitted then Ok False
     else rbind (require_fields js document value_fields) (\<lambda>_. Ok True))"

definition agent_expected_rule :: "string \<Rightarrow> (string, client_error) rres" where
  "agent_expected_rule family =
     (if family = ''price'' then Ok ''local_price_change''
      else if family = ''amount'' then Ok ''local_amount_spike''
      else if family = ''volume'' then Ok ''local_volume_spike''
      else Err (InvalidAnalysisContract ''family is invalid''))"

definition admitted_analysis_event ::
  "(u8 list \<Rightarrow> u8 list) \<Rightarrow> 'j serde_lib \<Rightarrow> 'j \<Rightarrow> string \<Rightarrow> (anomaly_event, client_error) rres" where
  "admitted_analysis_event sha js document instrument_label =
     rbind (ok_or (InvalidAnalysisContract ''update is missing'')
              (Option.bind (sj_get js document ''update'') (sj_as_object js))) (\<lambda>update.
     rbind (ok_or (InvalidAnalysisContract ''family is missing'')
              (Option.bind (update ''family'') (sj_as_str js))) (\<lambda>family.
     rbind (ok_or (InvalidAnalysisContract ''rule_version is missing'')
              (Option.bind (update ''rule_version'') (sj_as_u64 js))) (\<lambda>rule_version.
     rbind (ok_or (InvalidAnalysisContract ''anomaly_event is missing'') (update ''anomaly_event'')) (\<lambda>v.
     rbind (case sj_anomaly_wire js v of
              None \<Rightarrow> Err AnalysisEventJson
            | Some wire \<Rightarrow> map_err (\<lambda>_. AnalysisEventJson) (anomaly_event_deserialize sha wire)) (\<lambda>event.
     rbind (agent_expected_rule family) (\<lambda>expected_rule.
     if text_str (ri_id (ae_rule event)) \<noteq> expected_rule
        \<or> ucast (positive_u32_get (ri_revision (ae_rule event))) \<noteq> rule_version
        \<or> canonical_equity_label (ae_instrument event) \<noteq> instrument_label
        \<or> ae_transition event \<notin> {anomaly_transition.Triggered, anomaly_transition.Rearmed}
        \<or> get_str js document ''observed_at_utc'' \<noteq> Some (observed_at_of (ae_derived_evidence event))
     then Err (InvalidAnalysisContract ''anomaly event identity does not match its monitor update'')
     else Ok event))))))"

definition frame_admitted ::
  "(u8 list \<Rightarrow> u8 list) \<Rightarrow> 'j serde_lib \<Rightarrow> string \<Rightarrow> 'j \<Rightarrow> (bool, client_error) rres" where
  "frame_admitted sha js event_kind document =
     (if event_kind = ''observation'' then
       rbind (admitted_field js document ''price_admitted'' ''price'') (\<lambda>price.
       rbind (admitted_field js document ''volume_admitted'' ''cumulative_volume'') (\<lambda>volume.
       Ok (price \<or> volume)))
     else if event_kind = ''snapshot_observation'' then
       rbind (admitted_field js document ''amount_admitted'' ''cumulative_amount'') (\<lambda>amount.
       rbind (admitted_field js document ''previous_close_admitted'' ''previous_close'') (\<lambda>previous_close.
       rbind (admitted_fields js document ''ohlc_admitted'' [''open'', ''high'', ''low'']) (\<lambda>ohlc.
       Ok (amount \<or> previous_close \<or> ohlc))))
     else if event_kind = ''analysis'' then
       rbind (ok_or (InvalidAdmissionMarker ''admitted'') (get_bool js document ''admitted'')) (\<lambda>admitted.
       if admitted then
         rbind (ok_or (InvalidAnalysisContract ''instrument is missing'')
                  (get_str js document ''instrument'')) (\<lambda>label.
         rbind (admitted_analysis_event sha js document label) (\<lambda>_. Ok True))
       else Ok False)
     else Ok False)"

definition event_admission ::
  "(u8 list \<Rightarrow> u8 list) \<Rightarrow> 'j serde_lib \<Rightarrow> string \<Rightarrow> 'j \<Rightarrow> (int, client_error) rres" where
  "event_admission sha js event_kind document =
     rbind (frame_admitted sha js event_kind document) (\<lambda>admitted. Ok (if admitted then 1 else 2))"

text \<open>\<open>now\<close> is the formatted time of the clock, which stands for a missing observation time.\<close>

definition event_from_frame ::
  "(u8 list \<Rightarrow> u8 list) \<Rightarrow> 'j serde_lib \<Rightarrow> string \<Rightarrow> string \<Rightarrow> u64 \<Rightarrow> u8 list \<Rightarrow> (envelope, client_error) rres" where
  "event_from_frame sha js now generation sequence raw =
     rbind (ok_or FrameJson (sj_from_slice js raw)) (\<lambda>document.
     rbind (ok_or MissingEventType (get_str js document ''type'')) (\<lambda>event_kind.
     let provider = (if event_kind = ''analysis'' then ''LocalAnalysis'' else ''LocalTerminal'');
         instrument = (case get_str js document ''instrument'' of None \<Rightarrow> ''TDX.LOCAL'' | Some v \<Rightarrow> v);
         observed_at = (case get_str js document ''observed_at_utc'' of None \<Rightarrow> now | Some v \<Rightarrow> v) in
     rbind (event_admission sha js event_kind document) (\<lambda>admission.
     rbind (if event_kind = ''analysis'' \<and> admission = 1
            then rbind (admitted_analysis_event sha js document instrument) (\<lambda>event.
                   Ok (event_id_str (ae_event_id event)))
            else Ok (generation @ '':'' @ dec (unat sequence))) (\<lambda>event_id.
     Ok \<lparr>en_protocol_version = protocol_version, en_event_id = event_id,
         en_cursor = Some \<lparr>ec_generation = generation, ec_sequence = sequence\<rparr>,
         en_event_kind = event_kind, en_provider = provider, en_instrument = instrument,
         en_observed_at = observed_at, en_source_at = '''', en_admission = admission,
         en_payload = Some \<lparr>cp_schema = ''magic.market.monitor.'' @ event_kind, cp_schema_version = 1,
           cp_content_type = canonical_json_content_type, cp_data = raw\<rparr>\<rparr>))))"

definition frame_generation :: "'j serde_lib \<Rightarrow> u8 list \<Rightarrow> (u64 option, client_error) rres" where
  "frame_generation js raw =
     rbind (ok_or FrameJson (sj_from_slice js raw)) (\<lambda>document.
     case sj_get js document ''generation'' of
       None \<Rightarrow> Ok None
     | Some v \<Rightarrow> rbind (ok_or InvalidMonitorGeneration (sj_as_u64 js v)) (\<lambda>n. Ok (Some n)))"

section \<open>The client\<close>

record agent_client =
  ac_generation_prefix :: string
  ac_watchlist_revision :: u64
  ac_watchlist_instruments :: "string list"
  ac_maximum_watchlist_instruments :: u32

text \<open>\<open>transport\<close> is what building the endpoint, reading the TLS files and parsing the authorization gave.\<close>

definition agent_client_new ::
  "(unit, client_error) rres \<Rightarrow> string \<Rightarrow> u64 \<Rightarrow> string list \<Rightarrow> u32 \<Rightarrow> (agent_client, client_error) rres" where
  "agent_client_new transport generation revision instruments maximum =
     rbind (map_err (\<lambda>x. InvalidWatchlist (watchlist_error_display x))
              (validate_monitor_watchlist instruments (ucast maximum))) (\<lambda>_.
     rbind transport (\<lambda>_.
     Ok \<lparr>ac_generation_prefix = generation, ac_watchlist_revision = revision,
         ac_watchlist_instruments = instruments, ac_maximum_watchlist_instruments = maximum\<rparr>))"

definition json_quoted :: "string \<Rightarrow> string" where
  "json_quoted s = [CHR 0x22] @ s @ [CHR 0x22]"

definition agent_evidence :: "u8 list" where
  "agent_evidence = as_bytes (''{'' @ json_quoted ''monitor'' @ '':'' @ json_quoted ''fixed_sibling'' @ '',''
     @ json_quoted ''tdx_origin'' @ '':'' @ json_quoted ''http://127.0.0.1:17709/'' @ '',''
     @ json_quoted ''admitted'' @ '':false}'')"

definition client_hello :: "agent_client \<Rightarrow> string \<Rightarrow> agent_hello" where
  "client_hello client generation =
     \<lparr>ah_protocol_version = protocol_version, ah_agent_id = ''magic-market-tdx-agent'',
      ah_terminal_generation = generation,
      ah_terminal_evidence = Some \<lparr>cp_schema = ''magic.market.tdx_agent_evidence'', cp_schema_version = 1,
        cp_content_type = canonical_json_content_type, cp_data = agent_evidence\<rparr>,
      ah_watchlist_revision = ac_watchlist_revision client,
      ah_watchlist_instruments = ac_watchlist_instruments client,
      ah_maximum_watchlist_instruments = ac_maximum_watchlist_instruments client\<rparr>"

definition absorb_configuration_value ::
  "agent_client \<Rightarrow> configure_watchlist \<Rightarrow> configure_watchlist option
     \<Rightarrow> (configure_watchlist option, client_error) rres" where
  "absorb_configuration_value client v pending =
     rbind (map_err (\<lambda>x. InvalidWatchlist (watchlist_error_display x))
              (validate_monitor_watchlist (cw_instruments v)
                 (ucast (ac_maximum_watchlist_instruments client)))) (\<lambda>_.
     let (current_revision, current_instruments) =
           (case pending of
              None \<Rightarrow> (ac_watchlist_revision client, ac_watchlist_instruments client)
            | Some c \<Rightarrow> (cw_revision c, cw_instruments c))
     in if cw_revision v < current_revision
        then Err (StaleWatchlistRevision current_revision (cw_revision v))
        else if cw_revision v = current_revision
        then if cw_instruments v \<noteq> current_instruments
             then Err (WatchlistRevisionContradiction (cw_revision v))
             else Ok pending
        else Ok (Some v))"

definition absorb_configuration ::
  "agent_client \<Rightarrow> agent_command option \<Rightarrow> configure_watchlist option
     \<Rightarrow> (configure_watchlist option, client_error) rres" where
  "absorb_configuration client command pending =
     (case command of
        Some (ConfigureWatchlist v) \<Rightarrow> absorb_configuration_value client v pending
      | Some (StopAgent reason) \<Rightarrow> Err (StoppedByServer reason)
      | _ \<Rightarrow> Err InvalidAcknowledgement)"

text \<open>The three loops that wait for an acknowledgement have the same body: \<open>Acked\<close> leaves the loop,
  \<open>Waiting\<close> goes round with the configuration received so far.\<close>

datatype ack_wait = Acked u64 | Waiting "configure_watchlist option"

definition await_ack ::
  "agent_client \<Rightarrow> string \<Rightarrow> configure_watchlist option \<Rightarrow> agent_command option \<Rightarrow> (ack_wait, client_error) rres" where
  "await_ack client generation configuration command =
     (case command of
        Some (Ack g n) \<Rightarrow> if g = generation then Ok (Acked n) else Err InvalidAcknowledgement
      | Some (ConfigureWatchlist v) \<Rightarrow>
          rbind (absorb_configuration_value client v configuration) (\<lambda>c. Ok (Waiting c))
      | Some (StopAgent reason) \<Rightarrow> Err (StoppedByServer reason)
      | None \<Rightarrow> Err InvalidAcknowledgement)"

section \<open>A session\<close>

record pending_frame =
  pf_raw :: "u8 list"
  pf_sequence :: u64

record agent_state =
  as_accepted :: u64
  as_pending :: "pending_frame option"
  as_monitor_generation :: "u64 option"
  as_generation :: string

text \<open>What a read of the command stream gives; \<open>receive_command\<close> bounds it by a timeout.\<close>

datatype received = ReceivedCommand "agent_command option" | ReceiveFailed status | ReceivedEnd | TimedOut

fun receive_command :: "received \<Rightarrow> (agent_command option, client_error) rres" where
  "receive_command (ReceivedCommand c) = Ok c"
| "receive_command (ReceiveFailed x) = Err (StatusError x)"
| "receive_command ReceivedEnd = Err CommandStreamClosed"
| "receive_command TimedOut = Err CommandTimeout"

datatype session_end = FramesComplete | Reconnect | GenerationChanged u64 | Reconfigure configure_watchlist
datatype agent_body = BodyHello agent_hello | BodyEvent envelope | BodyHeartbeat string u64

datatype session_phase =
    Opening "configure_watchlist option"
  | Selecting
  | AwaitHeartbeat "configure_watchlist option"
  | AwaitEvent "configure_watchlist option"

datatype session_result =
    Continue session_phase "agent_body list"
  | Finished session_end
  | Broken client_error
  | Crashed string

datatype session_input =
    FromServer received
  | FrameReady "u8 list"
  | FramesClosed
  | HeartbeatTick

text \<open>Sending fails when the connection has dropped its end of the queue.\<close>

definition send_body :: "bool \<Rightarrow> agent_body \<Rightarrow> session_phase \<Rightarrow> session_result" where
  "send_body open_queue body phase = (if open_queue then Continue phase [body] else Broken OutgoingStopped)"

definition session_start :: "agent_client \<Rightarrow> agent_state \<Rightarrow> bool \<Rightarrow> session_result" where
  "session_start client st open_queue =
     send_body open_queue (BodyHello (client_hello client (as_generation st))) (Opening None)"

definition reconcile :: "agent_state \<Rightarrow> u64 \<Rightarrow> (agent_state, client_error) rres" where
  "reconcile st server_sequence =
     (case as_pending st of
        Some frame \<Rightarrow>
          if server_sequence = pf_sequence frame
          then Ok (st\<lparr>as_accepted := pf_sequence frame, as_pending := None\<rparr>)
          else if server_sequence \<noteq> as_accepted st
          then Err (SequenceContradiction (as_accepted st) server_sequence)
          else Ok st
      | None \<Rightarrow>
          if server_sequence \<noteq> as_accepted st
          then Err (SequenceContradiction (as_accepted st) server_sequence)
          else Ok st)"

text \<open>The head of the loop: with a pending frame it sends the event, otherwise it selects.\<close>

definition loop_head ::
  "(u8 list \<Rightarrow> u8 list) \<Rightarrow> 'j serde_lib \<Rightarrow> string \<Rightarrow> bool \<Rightarrow> agent_state \<Rightarrow> session_result" where
  "loop_head sha js now open_queue st =
     (case as_pending st of
        None \<Rightarrow> Continue Selecting []
      | Some frame \<Rightarrow>
          (case event_from_frame sha js now (as_generation st) (pf_sequence frame) (pf_raw frame) of
             Ok e \<Rightarrow> send_body open_queue (BodyEvent e) (AwaitEvent None)
           | Err x \<Rightarrow> Broken x
           | Panic p \<Rightarrow> Crashed p))"

definition end_or_continue ::
  "configure_watchlist option \<Rightarrow> session_result \<Rightarrow> session_result" where
  "end_or_continue configuration r =
     (case configuration of Some c \<Rightarrow> Finished (Reconfigure c) | None \<Rightarrow> r)"

definition queue_frame ::
  "(u8 list \<Rightarrow> u8 list) \<Rightarrow> 'j serde_lib \<Rightarrow> string \<Rightarrow> bool \<Rightarrow> agent_state \<Rightarrow> u8 list
     \<Rightarrow> agent_state \<times> session_result" where
  "queue_frame sha js now open_queue st raw =
     (case checked_add (as_accepted st) 1 of
        None \<Rightarrow> (st, Broken SequenceExhausted)
      | Some sequence \<Rightarrow>
          let st = st\<lparr>as_pending := Some \<lparr>pf_raw = raw, pf_sequence = sequence\<rparr>\<rparr>
          in (st, loop_head sha js now open_queue st))"

definition take_frame ::
  "(u8 list \<Rightarrow> u8 list) \<Rightarrow> 'j serde_lib \<Rightarrow> string \<Rightarrow> bool \<Rightarrow> agent_state \<Rightarrow> u8 list
     \<Rightarrow> agent_state \<times> session_result" where
  "take_frame sha js now open_queue st raw =
     (case frame_generation js raw of
        Err x \<Rightarrow> (st, Broken x)
      | Panic p \<Rightarrow> (st, Crashed p)
      | Ok g \<Rightarrow>
          (case g of
             Some v \<Rightarrow>
               if Some v \<noteq> as_monitor_generation st
               then (st\<lparr>as_pending := Some \<lparr>pf_raw = raw, pf_sequence = 1\<rparr>\<rparr>, Finished (GenerationChanged v))
               else queue_frame sha js now open_queue st raw
           | None \<Rightarrow> queue_frame sha js now open_queue st raw))"

text \<open>What a command does while the session selects, and while it waits for an acknowledgement.\<close>

definition select_command ::
  "agent_client \<Rightarrow> received \<Rightarrow> session_result" where
  "select_command client r =
     (case r of
        ReceiveFailed x \<Rightarrow> Broken (TransportError x)
      | ReceivedEnd \<Rightarrow> Finished Reconnect
      | TimedOut \<Rightarrow> Continue Selecting []
      | ReceivedCommand command \<Rightarrow>
          (case absorb_configuration client command None of
             Err x \<Rightarrow> Broken x
           | Panic p \<Rightarrow> Crashed p
           | Ok configuration \<Rightarrow> end_or_continue configuration (Continue Selecting [])))"

definition wait_turn ::
  "agent_client \<Rightarrow> agent_state \<Rightarrow> received \<Rightarrow> configure_watchlist option
     \<Rightarrow> (configure_watchlist option \<Rightarrow> session_phase)
     \<Rightarrow> (u64 \<Rightarrow> agent_state \<times> session_result) \<Rightarrow> agent_state \<times> session_result" where
  "wait_turn client st r configuration again acked =
     (case rbind (receive_command r) (await_ack client (as_generation st) configuration) of
        Err x \<Rightarrow> (st, Broken x)
      | Panic p \<Rightarrow> (st, Crashed p)
      | Ok (Waiting c) \<Rightarrow> (st, Continue (again c) [])
      | Ok (Acked n) \<Rightarrow> acked n)"

definition initial_acked ::
  "(u8 list \<Rightarrow> u8 list) \<Rightarrow> 'j serde_lib \<Rightarrow> string \<Rightarrow> bool \<Rightarrow> agent_state \<Rightarrow> configure_watchlist option
     \<Rightarrow> u64 \<Rightarrow> agent_state \<times> session_result" where
  "initial_acked sha js now open_queue st configuration n =
     (case reconcile st n of
        Err x \<Rightarrow> (st, Broken x)
      | Panic p \<Rightarrow> (st, Crashed p)
      | Ok st \<Rightarrow> (st, end_or_continue configuration (loop_head sha js now open_queue st)))"

definition heartbeat_acked ::
  "agent_state \<Rightarrow> configure_watchlist option \<Rightarrow> u64 \<Rightarrow> agent_state \<times> session_result" where
  "heartbeat_acked st configuration n =
     (if n \<noteq> as_accepted st then (st, Broken (SequenceContradiction (as_accepted st) n))
      else (st, end_or_continue configuration (Continue Selecting [])))"

definition event_acked ::
  "agent_state \<Rightarrow> configure_watchlist option \<Rightarrow> u64 \<Rightarrow> agent_state \<times> session_result" where
  "event_acked st configuration n =
     (case as_pending st of
        None \<Rightarrow> (st, Continue Selecting [])
      | Some frame \<Rightarrow>
          if n \<noteq> pf_sequence frame then (st, Broken (SequenceContradiction (pf_sequence frame) n))
          else (st\<lparr>as_accepted := n, as_pending := None\<rparr>,
                end_or_continue configuration (Continue Selecting [])))"

text \<open>One turn of a session. An input the phase does not listen to changes nothing.\<close>

definition session_turn ::
  "(u8 list \<Rightarrow> u8 list) \<Rightarrow> 'j serde_lib \<Rightarrow> agent_client \<Rightarrow> string \<Rightarrow> bool \<Rightarrow> agent_state \<Rightarrow> session_phase
     \<Rightarrow> session_input \<Rightarrow> agent_state \<times> session_result" where
  "session_turn sha js client now open_queue st phase i =
     (case phase of
        Opening configuration \<Rightarrow>
          (case i of
             FromServer r \<Rightarrow> wait_turn client st r configuration Opening
                 (initial_acked sha js now open_queue st configuration)
           | _ \<Rightarrow> (st, Continue phase []))
      | Selecting \<Rightarrow>
          (case i of
             FrameReady raw \<Rightarrow> take_frame sha js now open_queue st raw
           | FramesClosed \<Rightarrow> (st, Finished FramesComplete)
           | FromServer r \<Rightarrow> (st, select_command client r)
           | HeartbeatTick \<Rightarrow> (st, send_body open_queue
                 (BodyHeartbeat (as_generation st) (as_accepted st)) (AwaitHeartbeat None)))
      | AwaitHeartbeat configuration \<Rightarrow>
          (case i of
             FromServer r \<Rightarrow> wait_turn client st r configuration AwaitHeartbeat
                 (heartbeat_acked st configuration)
           | _ \<Rightarrow> (st, Continue phase []))
      | AwaitEvent configuration \<Rightarrow>
          (case i of
             FromServer r \<Rightarrow> wait_turn client st r configuration AwaitEvent (event_acked st configuration)
           | _ \<Rightarrow> (st, Continue phase [])))"

section \<open>Sessions one after the other\<close>

datatype forward_outcome =
    ForwardFramesComplete
  | ForwardReconfigure configure_watchlist
  | ForwardRestartMonitor client_error
  | ForwardFailed client_error

datatype forward_next = NextSession agent_state | ForwardDone forward_outcome

definition forward_start :: "agent_client \<Rightarrow> agent_state" where
  "forward_start client =
     \<lparr>as_accepted = 0, as_pending = None, as_monitor_generation = None,
      as_generation = ac_generation_prefix client @ '':waiting''\<rparr>"

definition change_generation :: "agent_client \<Rightarrow> agent_state \<Rightarrow> u64 \<Rightarrow> agent_state" where
  "change_generation client st v =
     st\<lparr>as_monitor_generation := Some v,
        as_generation := ac_generation_prefix client @ '':'' @ dec (unat v), as_accepted := 0\<rparr>"

fun forward_finished :: "agent_client \<Rightarrow> agent_state \<Rightarrow> session_end \<Rightarrow> forward_next" where
  "forward_finished client st FramesComplete = ForwardDone ForwardFramesComplete"
| "forward_finished client st (Reconfigure c) = ForwardDone (ForwardReconfigure c)"
| "forward_finished client st (GenerationChanged v) = NextSession (change_generation client st v)"
| "forward_finished client st Reconnect = NextSession st"

definition forward_broken :: "agent_state \<Rightarrow> client_error \<Rightarrow> forward_next" where
  "forward_broken st x =
     (case disposition x of
        ReconnectSession \<Rightarrow> NextSession st
      | RestartMonitor \<Rightarrow> ForwardDone (ForwardRestartMonitor x)
      | Fatal \<Rightarrow> ForwardDone (ForwardFailed x))"

end
