(* ===== verification/Agent_Protocol.thy ===== *)
theory Agent_Protocol
  imports Agent_Client Hub_System
begin

text \<open>
  The agent and the hub together. A connection carries the agent's messages up and the
  acknowledgements down; it may break at any time, and the task that served it may read on until
  it notices. Every other input of the agent (commands, frames, ticks, timeouts, errors) is
  arbitrary. The states also record the frames the agent took and those the hub published since the
  monitor's generation last changed.
\<close>

section \<open>The system\<close>

record proto =
  pr_hub :: hub_state
  pr_agent :: agent_state
  pr_phase :: "session_phase option"
  pr_up :: "agent_body list"
  pr_down :: "(string \<times> u64) list"
  pr_task :: "(u64 \<times> string) option"
  pr_outcome :: "forward_outcome option"
  pr_taken :: "u8 list list"
  pr_published :: "u8 list list"

definition proto_start :: "agent_client \<Rightarrow> hub_state \<Rightarrow> proto" where
  "proto_start client s =
     \<lparr>pr_hub = s, pr_agent = forward_start client, pr_phase = None, pr_up = [], pr_down = [],
      pr_task = None, pr_outcome = None, pr_taken = [], pr_published = []\<rparr>"

text \<open>What the other requests of the hub do, and the reader of its command queue.\<close>

inductive hub_background :: "(envelope \<Rightarrow> usize) \<Rightarrow> event_hub \<Rightarrow> hub_state \<Rightarrow> hub_state \<Rightarrow> bool"
  for elen hub
where
  bg_drain: "hub_background elen hub s (drain_command s)"
| bg_hang_up: "hub_background elen hub s (close_receiver s)"
| bg_request: "hub_request elen hub s s' \<Longrightarrow> hub_background elen hub s s'"

abbreviation hub_backgrounds :: "(envelope \<Rightarrow> usize) \<Rightarrow> event_hub \<Rightarrow> hub_state \<Rightarrow> hub_state \<Rightarrow> bool" where
  "hub_backgrounds elen hub \<equiv> (hub_background elen hub)\<^sup>*\<^sup>*"

text \<open>The agent's side after a turn or a failed connection: the session goes on, the next one is
  prepared, or the client stops. A panic has no successor.\<close>

definition between_sessions :: "proto \<Rightarrow> agent_state \<Rightarrow> forward_next \<Rightarrow> proto" where
  "between_sessions x st next =
     (case next of
        ForwardDone outcome \<Rightarrow> x\<lparr>pr_agent := st, pr_phase := None, pr_down := [], pr_outcome := Some outcome\<rparr>
      | NextSession st' \<Rightarrow>
          x\<lparr>pr_agent := st', pr_phase := None, pr_down := [],
            pr_taken := (if as_generation st' = as_generation st then pr_taken x
                         else case as_pending st' of None \<Rightarrow> [] | Some f \<Rightarrow> [pf_raw f]),
            pr_published := (if as_generation st' = as_generation st then pr_published x else [])\<rparr>)"

definition took_frame :: "agent_state \<Rightarrow> agent_state \<Rightarrow> u8 list list" where
  "took_frame st st' =
     (if as_pending st = None then (case as_pending st' of None \<Rightarrow> [] | Some f \<Rightarrow> [pf_raw f]) else [])"

definition settle :: "agent_client \<Rightarrow> proto \<Rightarrow> agent_state \<Rightarrow> session_result \<Rightarrow> proto option" where
  "settle client x st r =
     (case r of
        Continue phase sent \<Rightarrow> Some (x\<lparr>pr_agent := st, pr_phase := Some phase, pr_up := pr_up x @ sent\<rparr>)
      | Finished e \<Rightarrow> Some (between_sessions x st (forward_finished client st e))
      | Broken e \<Rightarrow> Some (between_sessions x st (forward_broken st e))
      | Crashed p \<Rightarrow> None)"

definition after_turn ::
  "agent_client \<Rightarrow> proto \<Rightarrow> agent_state \<Rightarrow> session_result \<Rightarrow> proto option" where
  "after_turn client x st r =
     settle client (x\<lparr>pr_taken := pr_taken x @ took_frame (pr_agent x) st\<rparr>) st r"

definition is_ack :: "session_input \<Rightarrow> bool" where
  "is_ack i \<longleftrightarrow> (case i of FromServer (ReceivedCommand (Some (Ack g n))) \<Rightarrow> True | _ \<Rightarrow> False)"

inductive proto_step ::
  "(u8 list \<Rightarrow> u8 list) \<Rightarrow> 'j serde_lib \<Rightarrow> (envelope \<Rightarrow> usize) \<Rightarrow> event_hub \<Rightarrow> agent_client
     \<Rightarrow> proto \<Rightarrow> proto \<Rightarrow> bool"
  for sha js elen hub client
where
  p_connect: "pr_phase x = None \<Longrightarrow> pr_outcome x = None
     \<Longrightarrow> stream_opens elen hub (pr_hub x) (Hello (client_hello client (as_generation (pr_agent x)))) s (Ok (session, g))
     \<Longrightarrow> proto_step sha js elen hub client x
       (x\<lparr>pr_hub := s, pr_phase := Some (Opening None), pr_up := [],
          pr_down := [(g, hs_latest_sequence s)], pr_task := Some (session, g)\<rparr>)"
| p_connect_lost: "pr_phase x = None \<Longrightarrow> pr_outcome x = None
     \<Longrightarrow> stream_opens elen hub (pr_hub x) (Hello (client_hello client (as_generation (pr_agent x)))) s (Ok (session, g))
     \<Longrightarrow> proto_step sha js elen hub client x (x\<lparr>pr_hub := s, pr_up := [], pr_task := Some (session, g)\<rparr>)"
| p_refused: "pr_phase x = None \<Longrightarrow> pr_outcome x = None
     \<Longrightarrow> stream_opens elen hub (pr_hub x) (Hello (client_hello client (as_generation (pr_agent x)))) s (Err e)
     \<Longrightarrow> proto_step sha js elen hub client x
       (between_sessions (x\<lparr>pr_hub := s\<rparr>) (pr_agent x) (forward_broken (pr_agent x) (TransportError e)))"
| p_unreachable: "pr_phase x = None \<Longrightarrow> pr_outcome x = None \<Longrightarrow> e \<in> {InvalidEndpoint, OutgoingStopped, TransportError y}
     \<Longrightarrow> proto_step sha js elen hub client x
       (between_sessions x (pr_agent x) (forward_broken (pr_agent x) e))"
| p_event: "pr_task x = Some (session, g) \<Longrightarrow> pr_up x = BodyEvent e # rest
     \<Longrightarrow> publish sha js elen hub session (pr_hub x) e = Some (s1, r) \<Longrightarrow> hub_backgrounds elen hub s1 s
     \<Longrightarrow> answer_agent s session g r = Ok (s', go)
     \<Longrightarrow> proto_step sha js elen hub client x
       (x\<lparr>pr_hub := s', pr_up := rest, pr_task := (if go then pr_task x else None),
          pr_down := pr_down x @ (case r of Ok n \<Rightarrow> if go \<and> pr_phase x \<noteq> None then [(g, n)] else [] | _ \<Rightarrow> []),
          pr_published := pr_published x @ (if is_ok r \<and> ec_generation (cursor_of e) = as_generation (pr_agent x)
            then [cp_data (the (en_payload e))] else [])\<rparr>)"
| p_heartbeat: "pr_task x = Some (session, g) \<Longrightarrow> pr_up x = BodyHeartbeat hg n # rest
     \<Longrightarrow> hub_backgrounds elen hub (pr_hub x) s
     \<Longrightarrow> answer_agent s session g (heartbeat (pr_hub x) session hg n) = Ok (s', go)
     \<Longrightarrow> proto_step sha js elen hub client x
       (x\<lparr>pr_hub := s', pr_up := rest, pr_task := (if go then pr_task x else None),
          pr_down := pr_down x @ (if go \<and> pr_phase x \<noteq> None then [(g, hs_latest_sequence (pr_hub x))] else [])\<rparr>)"
| p_gone: "pr_task x = Some (session, g)
     \<Longrightarrow> proto_step sha js elen hub client x (x\<lparr>pr_hub := disconnect_agent (pr_hub x) session, pr_task := None\<rparr>)"
| p_background: "hub_background elen hub (pr_hub x) s
     \<Longrightarrow> proto_step sha js elen hub client x (x\<lparr>pr_hub := s\<rparr>)"
| p_acknowledged: "pr_phase x = Some phase \<Longrightarrow> pr_outcome x = None \<Longrightarrow> pr_down x = (g, n) # down
     \<Longrightarrow> session_turn sha js client now open_queue (pr_agent x) phase
          (FromServer (ReceivedCommand (Some (Ack g n)))) = (st, r)
     \<Longrightarrow> after_turn client (x\<lparr>pr_down := down\<rparr>) st r = Some y
     \<Longrightarrow> proto_step sha js elen hub client x y"
| p_turn: "pr_phase x = Some phase \<Longrightarrow> pr_outcome x = None \<Longrightarrow> \<not> is_ack i
     \<Longrightarrow> session_turn sha js client now open_queue (pr_agent x) phase i = (st, r)
     \<Longrightarrow> after_turn client x st r = Some y
     \<Longrightarrow> proto_step sha js elen hub client x y"


section \<open>The invariant\<close>

abbreviation event_data :: "envelope \<Rightarrow> u8 list" where
  "event_data e \<equiv> cp_data (the (en_payload e))"

definition frame_matches :: "agent_state \<Rightarrow> envelope \<Rightarrow> bool" where
  "frame_matches st e \<longleftrightarrow> (\<exists>f. as_pending st = Some f \<and> event_data e = pf_raw f
     \<and> en_cursor e = Some \<lparr>ec_generation = as_generation st, ec_sequence = pf_sequence f\<rparr>)"

text \<open>All frames but a pending one are acknowledged, and the hub has published the acknowledged
  ones, or those and the pending one.\<close>

definition counts_ok :: "agent_state \<Rightarrow> u8 list list \<Rightarrow> u8 list list \<Rightarrow> bool" where
  "counts_ok st taken published \<longleftrightarrow>
     (case as_pending st of
        None \<Rightarrow> published = taken \<and> length taken = unat (as_accepted st)
      | Some f \<Rightarrow> \<exists>acked. taken = acked @ [pf_raw f] \<and> length acked = unat (as_accepted st)
          \<and> unat (pf_sequence f) = Suc (unat (as_accepted st)) \<and> (published = acked \<or> published = taken))"

definition lane_matches :: "hub_state \<Rightarrow> agent_state \<Rightarrow> u8 list list \<Rightarrow> bool" where
  "lane_matches s st published \<longleftrightarrow>
     (if hs_generation s = Some (as_generation st)
      then unat (hs_latest_sequence s) = length published
        \<and> (\<exists>old. published = old @ map event_data (hs_replay s))
      else published = [] \<and> as_accepted st = 0)"

definition generation_ok :: "agent_client \<Rightarrow> agent_state \<Rightarrow> bool" where
  "generation_ok client st \<longleftrightarrow> as_generation st = ac_generation_prefix client
     @ (case as_monitor_generation st of None \<Rightarrow> '':waiting'' | Some v \<Rightarrow> '':'' @ dec (unat v))"

definition core_inv :: "(envelope \<Rightarrow> usize) \<Rightarrow> event_hub \<Rightarrow> agent_client \<Rightarrow> proto \<Rightarrow> bool" where
  "core_inv elen hub client x \<longleftrightarrow>
     hub_inv elen hub (pr_hub x)
     \<and> (\<forall>session g. pr_task x = Some (session, g) \<longrightarrow>
          hs_agent_session (pr_hub x) = Some session \<and> hs_generation (pr_hub x) = Some g)
     \<and> generation_ok client (pr_agent x)
     \<and> counts_ok (pr_agent x) (pr_taken x) (pr_published x)
     \<and> lane_matches (pr_hub x) (pr_agent x) (pr_published x)
     \<and> (\<forall>e. BodyEvent e \<in> set (pr_up x) \<longrightarrow> frame_matches (pr_agent x) e)"

definition phase_ok :: "proto \<Rightarrow> bool" where
  "phase_ok x \<longleftrightarrow> (case pr_phase x of
      None \<Rightarrow> pr_down x = []
    | Some phase \<Rightarrow>
        hs_generation (pr_hub x) = Some (as_generation (pr_agent x)) \<and>
        (case phase of
           Opening c \<Rightarrow> pr_up x = []
             \<and> pr_down x = [(as_generation (pr_agent x), hs_latest_sequence (pr_hub x))]
         | Selecting \<Rightarrow> as_pending (pr_agent x) = None \<and> pr_up x = [] \<and> pr_down x = []
         | AwaitHeartbeat c \<Rightarrow> as_pending (pr_agent x) = None
             \<and> (pr_up x = [BodyHeartbeat (as_generation (pr_agent x)) (as_accepted (pr_agent x))] \<and> pr_down x = []
              \<or> pr_up x = [] \<and> pr_down x \<in> {[], [(as_generation (pr_agent x), as_accepted (pr_agent x))]})
         | AwaitEvent c \<Rightarrow> (\<exists>f. as_pending (pr_agent x) = Some f
             \<and> ((\<exists>e. pr_up x = [BodyEvent e]) \<and> pr_down x = []
              \<or> pr_up x = [] \<and> pr_down x = []
              \<or> pr_up x = [] \<and> pr_down x = [(as_generation (pr_agent x), pf_sequence f)]
                 \<and> pr_published x = pr_taken x))))"

definition outcome_ok :: "proto \<Rightarrow> bool" where
  "outcome_ok x \<longleftrightarrow> (\<forall>i j. pr_outcome x \<noteq> Some (ForwardFailed (SequenceContradiction i j)))
     \<and> (pr_outcome x \<noteq> None \<longrightarrow> pr_phase x = None)"

definition proto_inv :: "(envelope \<Rightarrow> usize) \<Rightarrow> event_hub \<Rightarrow> agent_client \<Rightarrow> proto \<Rightarrow> bool" where
  "proto_inv elen hub client x \<longleftrightarrow> core_inv elen hub client x \<and> phase_ok x \<and> outcome_ok x"

lemma proto_inv_start:
  assumes "hub_inv elen hub s" and "hs_generation s \<noteq> Some (ac_generation_prefix client @ '':waiting'')"
  shows "proto_inv elen hub client (proto_start client s)"
  using assms
  by (simp add: proto_inv_def core_inv_def phase_ok_def outcome_ok_def proto_start_def forward_start_def
      generation_ok_def counts_ok_def lane_matches_def)

section \<open>The hub's side\<close>

lemma background_keeps:
  assumes "hub_background elen hub s s'" and "hub_inv elen hub s"
  shows "hub_inv elen hub s'" "hs_generation s' = hs_generation s"
    "hs_agent_session s' = hs_agent_session s" "hs_latest_sequence s' = hs_latest_sequence s"
    "hs_replay s' = hs_replay s"
proof -
  have "hub_inv elen hub s' \<and> hs_generation s' = hs_generation s
    \<and> hs_agent_session s' = hs_agent_session s \<and> hs_latest_sequence s' = hs_latest_sequence s
    \<and> hs_replay s' = hs_replay s"
    using assms
  proof (induction rule: hub_background.induct)
    case (bg_drain s)
    then show ?case by (auto simp: drain_command_def hub_inv_def agent_ok_def lane_ok_def)
  next
    case (bg_hang_up s)
    then show ?case by (intro conjI) (simp_all add: hub_inv_close, simp_all add: close_receiver_def)
  next
    case (bg_request s s')
    from request_keeps [OF bg_request] show ?case by simp
  qed
  then show "hub_inv elen hub s'" "hs_generation s' = hs_generation s"
    "hs_agent_session s' = hs_agent_session s" "hs_latest_sequence s' = hs_latest_sequence s"
    "hs_replay s' = hs_replay s" by blast+
qed


lemma backgrounds_keep:
  assumes "hub_backgrounds elen hub s s'" and "hub_inv elen hub s"
  shows "hub_inv elen hub s' \<and> hs_generation s' = hs_generation s
    \<and> hs_agent_session s' = hs_agent_session s \<and> hs_latest_sequence s' = hs_latest_sequence s
    \<and> hs_replay s' = hs_replay s"
  using assms by (induction rule: rtranclp_induct) (auto simp: background_keeps)

text \<open>Opening a stream leaves the lane as it was, or enters the generation of the hello.\<close>

definition same_lane :: "hub_state \<Rightarrow> hub_state \<Rightarrow> bool" where
  "same_lane s s' \<longleftrightarrow> hs_generation s' = hs_generation s \<and> hs_latest_sequence s' = hs_latest_sequence s
     \<and> hs_replay s' = hs_replay s"

lemma same_lane_trans: "same_lane s s' \<Longrightarrow> same_lane s' s'' \<Longrightarrow> same_lane s s''"
  by (simp add: same_lane_def)

lemma same_lane_refl [simp]: "same_lane s s"
  by (simp add: same_lane_def)

lemma same_lane_send: "send_command s c = Ok s' \<Longrightarrow> same_lane s s'"
  by (simp add: same_lane_def send_command_simps)

lemma same_lane_close [simp]: "same_lane s (close_receiver s') \<longleftrightarrow> same_lane s s'"
  by (simp add: same_lane_def close_receiver_def)

lemma same_lane_disconnect [simp]: "same_lane s (disconnect_agent s session)"
  by (simp add: same_lane_def disconnect_agent_def)

lemma connect_lane:
  assumes "connect_agent hub s hello ch = (s', r)"
  shows "same_lane s s' \<or> same_lane (enter_generation s (ah_terminal_generation hello)) s'"
  using assms
proof (cases rule: connect_agent_cases)
  case (refused x)
  then show ?thesis by (auto simp: same_lane_def)
next
  case (panicked p)
  then show ?thesis by (simp add: same_lane_def)
next
  case (accepted n c)
  have "same_lane (enter_generation s (ah_terminal_generation hello)) s'"
    by (subst accepted(5)) (simp add: same_lane_def)
  then show ?thesis ..
qed

lemma open_connect_lane:
  assumes "open_connect hub s (Hello hello) = (s', r)"
  shows "same_lane s s' \<or> same_lane (enter_generation s (ah_terminal_generation hello)) s'"
proof (cases "connect_agent hub s hello (channel_new (eh_agent_command_capacity hub))")
  case (Pair s1 r1)
  then have "s' = s1" using assms by (cases r1) (auto simp: open_connect_def)
  then show ?thesis using connect_lane [OF Pair] by simp
qed

lemma stream_opens_lane:
  assumes "stream_opens elen hub s (Hello hello) s' r" and "hub_inv elen hub s"
  shows "same_lane s s' \<or> same_lane (enter_generation s (ah_terminal_generation hello)) s'"
  using assms
proof (cases rule: stream_opens_front)
  case (unconnected r1)
  then show ?thesis using open_connect_lane by blast
next
  case (connected s1 opened)
  then have "same_lane s1 s'" by (simp add: same_lane_def)
  then show ?thesis using open_connect_lane [OF connected(1)] same_lane_trans by blast
qed

lemma lane_matches_same: "lane_matches s st published \<Longrightarrow> same_lane s s' \<Longrightarrow> lane_matches s' st published"
  by (simp add: lane_matches_def same_lane_def)

lemma lane_matches_enter:
  "lane_matches s st published \<Longrightarrow> lane_matches (enter_generation s (as_generation st)) st published"
  by (auto simp: lane_matches_def enter_generation_def same_generation_def Let_def)

lemma lane_matches_open:
  assumes "lane_matches s st published" and "hub_inv elen hub s"
    and "stream_opens elen hub s (Hello (client_hello client (as_generation st))) s' r"
  shows "lane_matches s' st published"
proof -
  have "ah_terminal_generation (client_hello client (as_generation st)) = as_generation st"
    by (simp add: client_hello_def)
  with stream_opens_lane [OF assms(3,2)] assms(1) show ?thesis
    by (metis lane_matches_same lane_matches_enter)
qed

lemma answer_lane:
  assumes "answer_agent s session g r = Ok (s', go)"
  shows "same_lane s s'" "hub_inv elen hub s \<Longrightarrow> hub_inv elen hub s'"
    "go \<Longrightarrow> hs_agent_session s' = hs_agent_session s"
proof -
  have "same_lane s s' \<and> (hub_inv elen hub s \<longrightarrow> hub_inv elen hub s') \<and> (go \<longrightarrow> hs_agent_session s' = hs_agent_session s)"
    using assms
  proof (cases rule: answer_agent_cases)
    case (goes_on c)
    then show ?thesis by (simp add: same_lane_send hub_inv_send send_command_simps)
  next
    case (stops s1)
    then show ?thesis
      using same_lane_send same_lane_trans same_lane_disconnect hub_inv_send hub_inv_disconnect by metis
  qed
  then show "same_lane s s'" "hub_inv elen hub s \<Longrightarrow> hub_inv elen hub s'"
    "go \<Longrightarrow> hs_agent_session s' = hs_agent_session s" by blast+
qed

text \<open>A pending frame that the hub publishes is the one it has not published yet.\<close>

lemma publish_pending:
  assumes inv: "hub_inv elen hub s" and c: "counts_ok st taken published" and l: "lane_matches s st published"
    and m: "frame_matches st e" and p: "publish sha js elen hub session s e = Some (s', r)"
  shows "if is_ok r then published @ [event_data e] = taken \<and> lane_matches s' st taken
           \<and> (\<exists>f. as_pending st = Some f \<and> r = Ok (pf_sequence f))
         else s' = s"
proof (cases "is_ok r")
  case False
  obtain s1 r1 where "publish sha js elen hub session s e = Some (s1, r1)" "\<not> is_ok r1 \<Longrightarrow> s1 = s"
    using publish_outcome [OF inv, of sha js session e] by metis
  then show ?thesis using p False by simp
next
  case True
  obtain f where f: "as_pending st = Some f" "event_data e = pf_raw f"
    "cursor_of e = \<lparr>ec_generation = as_generation st, ec_sequence = pf_sequence f\<rparr>"
    using m by (auto simp: frame_matches_def cursor_of_def)
  obtain ys where n: "is_next_event sha js elen hub session s e"
    and s': "hs_latest_sequence s' = pf_sequence f" "hs_generation s' = hs_generation s"
      "hs_replay s @ [e] = ys @ hs_replay s'" and r: "r = Ok (pf_sequence f)"
  proof (rule publish_outcome [OF inv, of sha js session e])
    fix s1 r1
    assume "publish sha js elen hub session s e = Some (s1, r1)"
      and n: "is_ok r1 \<longleftrightarrow> is_next_event sha js elen hub session s e"
      and a: "is_ok r1 \<Longrightarrow> r1 = Ok (ec_sequence (cursor_of e))
       \<and> (\<exists>b n. s1 = s\<lparr>hs_latest_sequence := ec_sequence (cursor_of e),
              hs_events_published_total := saturating_add (hs_events_published_total s) 1,
              hs_replay := retain (\<lambda>e. unat (elen e)) (unat (eh_replay_max_events hub))
                 (unat (eh_replay_max_bytes hub)) (hs_replay s @ [e]),
              hs_replay_bytes := b, hs_replay_evictions_total := n\<rparr>
            \<and> unat b = sum_list (map (\<lambda>e. unat (elen e)) (retain (\<lambda>e. unat (elen e))
                 (unat (eh_replay_max_events hub)) (unat (eh_replay_max_bytes hub)) (hs_replay s @ [e]))))"
    with p have eq: "s1 = s'" "r1 = r" by simp_all
    from retain_suffix obtain ys where "hs_replay s @ [e] = ys @ retain (\<lambda>e. unat (elen e))
      (unat (eh_replay_max_events hub)) (unat (eh_replay_max_bytes hub)) (hs_replay s @ [e])" by blast
    with n a [unfolded eq, OF True] True eq show thesis by (intro that [of ys]) (auto simp: f(3))
  qed
  have g: "hs_generation s = Some (as_generation st)" and q: "unat (pf_sequence f) = Suc (unat (hs_latest_sequence s))"
    using n f(3) by (simp_all add: is_next_event_def)
  obtain acked old where d: "taken = acked @ [pf_raw f]" "length acked = unat (as_accepted st)"
    "unat (pf_sequence f) = Suc (unat (as_accepted st))" "published = acked \<or> published = taken"
    and o: "unat (hs_latest_sequence s) = length published" "published = old @ map event_data (hs_replay s)"
    using c l f(1) g by (auto simp: counts_ok_def lane_matches_def)
  have pd: "published = acked" using d o(1) q by auto
  have "taken = (old @ map event_data ys) @ map event_data (hs_replay s')"
    using d(1) o(2) pd f(2) arg_cong [OF s'(3), of "map event_data"] by simp
  moreover have "length taken = unat (pf_sequence f)" using d(1-3) by simp
  ultimately have "lane_matches s' st taken" using g s'(1,2) unfolding lane_matches_def by auto
  then show ?thesis using True pd d(1) f(1,2) r by simp
qed


section \<open>The agent's side\<close>

definition contradiction :: "client_error \<Rightarrow> bool" where
  "contradiction x \<longleftrightarrow> (\<exists>i j. x = SequenceContradiction i j)"

lemma contradiction_simps [simp]:
  "\<not> contradiction InvalidEndpoint" "\<not> contradiction (TransportError y)" "\<not> contradiction OutgoingStopped"
  "\<not> contradiction CommandTimeout" "\<not> contradiction (StatusError y)" "\<not> contradiction CommandStreamClosed"
  "\<not> contradiction (StoppedByServer w)" "\<not> contradiction InvalidAcknowledgement"
  "\<not> contradiction (InvalidWatchlist w)" "\<not> contradiction (StaleWatchlistRevision a b)"
  "\<not> contradiction (WatchlistRevisionContradiction a)" "\<not> contradiction SequenceExhausted"
  "\<not> contradiction FrameJson" "\<not> contradiction MissingEventType" "\<not> contradiction (InvalidAdmissionMarker w)"
  "\<not> contradiction (AdmittedFieldMissing w)" "\<not> contradiction AnalysisEventJson"
  "\<not> contradiction (InvalidAnalysisContract w)" "\<not> contradiction InvalidMonitorGeneration"
  by (simp_all add: contradiction_def)

lemma configuration_errors: "absorb_configuration_value client v c = Err x \<Longrightarrow> \<not> contradiction x"
  by (auto simp: absorb_configuration_value_def rbind_eq_Err map_err_eq_Err Let_def
      split: option.splits if_splits)

lemma command_errors: "absorb_configuration client command c = Err x \<Longrightarrow> \<not> contradiction x"
  by (auto simp: absorb_configuration_def configuration_errors split: option.splits agent_command.splits)

lemma receive_errors: "receive_command r = Err x \<Longrightarrow> \<not> contradiction x"
  by (cases r) auto

lemma await_errors: "await_ack client g c command = Err x \<Longrightarrow> \<not> contradiction x"
  by (auto simp: await_ack_def rbind_eq_Err configuration_errors split: option.splits agent_command.splits if_splits)

lemma field_errors: "admitted_field js d a v = Err x \<Longrightarrow> \<not> contradiction x"
  by (auto simp: admitted_field_def rbind_eq_Err ok_or_eq split: if_splits)

lemma fields_errors: "admitted_fields js d a vs = Err x \<Longrightarrow> \<not> contradiction x"
proof -
  have "require_fields js d vs = Err x \<Longrightarrow> \<not> contradiction x" for vs
    by (induction vs) (auto split: if_splits)
  then show "admitted_fields js d a vs = Err x \<Longrightarrow> \<not> contradiction x"
    by (auto simp: admitted_fields_def rbind_eq_Err ok_or_eq split: if_splits)
qed

lemma analysis_errors:
  assumes "admitted_analysis_event sha js d l = Err x" shows "\<not> contradiction x"
proof -
  have "(case sj_anomaly_wire js v of None \<Rightarrow> Err AnalysisEventJson
      | Some wire \<Rightarrow> map_err (\<lambda>_. AnalysisEventJson) (anomaly_event_deserialize sha wire)) = Err x
      \<Longrightarrow> \<not> contradiction x" for v
    by (cases "sj_anomaly_wire js v") (auto simp: map_err_eq_Err)
  moreover have "agent_expected_rule f = Err x \<Longrightarrow> \<not> contradiction x" for f
    by (auto simp: agent_expected_rule_def split: if_splits)
  ultimately show ?thesis
    using assms unfolding admitted_analysis_event_def rbind_eq_Err ok_or_eq by (auto split: if_splits)
qed

lemma frame_errors:
  assumes "event_from_frame sha js now g n raw = Err x" shows "\<not> contradiction x"
proof -
  have "frame_admitted sha js k d = Err x \<Longrightarrow> \<not> contradiction x" for k d
    unfolding frame_admitted_def
    by (auto simp: rbind_eq_Err ok_or_eq split: if_splits dest: field_errors fields_errors analysis_errors)
  then show ?thesis
    using assms unfolding event_from_frame_def Let_def event_admission_def
    by (auto simp: rbind_eq_Err ok_or_eq split: if_splits dest: analysis_errors)
qed

lemma frame_generation_errors: "frame_generation js raw = Err x \<Longrightarrow> \<not> contradiction x"
  by (auto simp: frame_generation_def rbind_eq_Err ok_or_eq split: option.splits)

lemma event_from_frame_frame:
  assumes "event_from_frame sha js now g n raw = Ok e"
  shows "en_cursor e = Some \<lparr>ec_generation = g, ec_sequence = n\<rparr>" "event_data e = raw"
  using assms by (auto simp: event_from_frame_def rbind_eq_Ok Let_def)


text \<open>What a turn makes of the states: the client stops or prepares a session of the same
  generation, or the generation changes.\<close>

definition next_ok :: "agent_state \<Rightarrow> forward_next \<Rightarrow> bool" where
  "next_ok st next \<longleftrightarrow> next = NextSession st
     \<or> (\<exists>outcome. next = ForwardDone outcome \<and> (\<forall>e. outcome = ForwardFailed e \<longrightarrow> \<not> contradiction e))"

lemma forward_broken_ok: "\<not> contradiction e \<Longrightarrow> next_ok st (forward_broken st e)"
  by (auto simp: next_ok_def forward_broken_def split: error_disposition.splits)

lemma inv_between:
  assumes "core_inv elen hub client (x\<lparr>pr_agent := st\<rparr>)" and "next_ok st next" and "pr_outcome x = None"
  shows "proto_inv elen hub client (between_sessions x st next)"
  using assms
  by (auto simp: next_ok_def between_sessions_def proto_inv_def core_inv_def phase_ok_def outcome_ok_def
      contradiction_def)

lemma dec_inject: "dec m = dec n \<longleftrightarrow> m = n"
  by (metis parse_dec_dec)

lemma dec_not_waiting: "dec n \<noteq> ''waiting''"
proof
  assume "dec n = ''waiting''"
  with dec_digits [of n] show False by (simp add: is_ascii_digit_def)
qed

lemma generation_changes:
  assumes "generation_ok client st" and "as_monitor_generation st \<noteq> Some v"
  shows "as_generation (change_generation client st v) \<noteq> as_generation st"
  using assms dec_not_waiting [of "unat v"]
  by (auto simp: generation_ok_def change_generation_def dec_inject word_unat_eq_iff split: option.splits)

lemma inv_generation_change:
  assumes c: "core_inv elen hub client x" and up: "pr_up x = []" and v: "as_monitor_generation (pr_agent x) \<noteq> Some v"
    and g: "hs_generation (pr_hub x) = Some (as_generation (pr_agent x))" and o: "pr_outcome x = None"
    and st: "st = (pr_agent x)\<lparr>as_pending := Some \<lparr>pf_raw = raw, pf_sequence = 1\<rparr>\<rparr>"
  shows "proto_inv elen hub client (between_sessions (x\<lparr>pr_taken := t\<rparr>) st (NextSession (change_generation client st v)))"
proof -
  have ne: "as_generation (change_generation client st v) \<noteq> as_generation st"
    using generation_changes [of client st v] c v st by (simp add: core_inv_def generation_ok_def)
  have g': "as_generation st = as_generation (pr_agent x)" using st by simp
  have "as_pending (change_generation client st v) = Some \<lparr>pf_raw = raw, pf_sequence = 1\<rparr>"
    "as_accepted (change_generation client st v) = 0"
    by (simp_all add: change_generation_def st)
  moreover have "generation_ok client (change_generation client st v)"
    by (simp add: generation_ok_def change_generation_def)
  ultimately show ?thesis
    using c up g ne o g'
    by (simp add: between_sessions_def proto_inv_def core_inv_def phase_ok_def outcome_ok_def
        counts_ok_def lane_matches_def)
qed

text \<open>Sending the pending frame.\<close>

lemma inv_loop_head:
  assumes c: "core_inv elen hub client x" and x: "pr_up x = []" "pr_down x = []" "pr_outcome x = None"
    and g: "hs_generation (pr_hub x) = Some (as_generation (pr_agent x))"
    and y: "settle client x (pr_agent x) (loop_head sha js now open_queue (pr_agent x)) = Some y"
  shows "proto_inv elen hub client y"
proof (cases "as_pending (pr_agent x)")
  case None
  then show ?thesis using c x g y
    by (auto simp: loop_head_def settle_def proto_inv_def core_inv_def phase_ok_def outcome_ok_def)
next
  case (Some f)
  have same: "x\<lparr>pr_agent := pr_agent x\<rparr> = x" by simp
  note broken = inv_between [where x = x and st = "pr_agent x", unfolded same, OF c forward_broken_ok x(3)]
  show ?thesis
  proof (cases "event_from_frame sha js now (as_generation (pr_agent x)) (pf_sequence f) (pf_raw f)")
    case (Ok e)
    have "frame_matches (pr_agent x) e"
      using event_from_frame_frame [OF Ok] Some by (auto simp: frame_matches_def)
    then show ?thesis using c x g y Ok Some broken
      by (auto simp: loop_head_def settle_def send_body_def proto_inv_def core_inv_def phase_ok_def
          outcome_ok_def split: if_splits)
  next
    case (Err e)
    then show ?thesis using y Some broken [OF frame_errors [OF Err]] by (auto simp: loop_head_def settle_def)
  next
    case (Panic p)
    then show ?thesis using y Some by (simp add: loop_head_def settle_def)
  qed
qed

lemma inv_queue_frame:
  assumes i: "proto_inv elen hub client x" and p: "pr_phase x = Some Selecting"
    and q: "queue_frame sha js now open_queue (pr_agent x) raw = (st, r)"
    and y: "after_turn client x st r = Some y"
  shows "proto_inv elen hub client y"
proof -
  have c: "core_inv elen hub client x" and x: "pr_up x = []" "pr_down x = []" "pr_outcome x = None"
    and n: "as_pending (pr_agent x) = None" and g: "hs_generation (pr_hub x) = Some (as_generation (pr_agent x))"
    using i p by (auto simp: proto_inv_def phase_ok_def outcome_ok_def)
  show ?thesis
  proof (cases "checked_add (as_accepted (pr_agent x)) 1")
    case None
    then have "st = pr_agent x" "r = Broken SequenceExhausted" using q by (simp_all add: queue_frame_def)
    then show ?thesis using y inv_between [where x = x and st = "pr_agent x" and elen = elen and hub = hub and client = client] c x(3) n
        forward_broken_ok [of SequenceExhausted "pr_agent x"]
      by (auto simp: after_turn_def settle_def took_frame_def)
  next
    case (Some m)
    then have st: "st = (pr_agent x)\<lparr>as_pending := Some \<lparr>pf_raw = raw, pf_sequence = m\<rparr>\<rparr>"
      and r: "r = loop_head sha js now open_queue st" using q by (auto simp: queue_frame_def Let_def)
    let ?x = "x\<lparr>pr_agent := st, pr_taken := pr_taken x @ [raw]\<rparr>"
    have "unat m = Suc (unat (as_accepted (pr_agent x)))" using Some by (simp add: checked_add_Suc)
    then have "core_inv elen hub client ?x" using c n x(1) st
      by (auto simp: core_inv_def counts_ok_def lane_matches_def generation_ok_def)
    moreover have "settle client ?x st r = Some y"
      using y n st by (cases r) (auto simp: after_turn_def took_frame_def settle_def between_sessions_def split: forward_next.splits)
    ultimately show ?thesis
      using inv_loop_head [of elen hub client ?x sha js now open_queue y] x g st r by simp
  qed
qed


text \<open>A turn that leaves the agent's state as it was, and goes on in a phase that is still fine or
  ends the session without a contradiction.\<close>

lemma inv_same_state:
  assumes i: "proto_inv elen hub client x" and o: "pr_outcome x = None"
    and r: "(\<exists>phase sent. r = Continue phase sent
         \<and> proto_inv elen hub client (x\<lparr>pr_phase := Some phase, pr_up := pr_up x @ sent\<rparr>))
       \<or> (\<exists>e. r = Broken e \<and> \<not> contradiction e)
       \<or> (\<exists>e. r = Finished e \<and> (\<forall>v. e \<noteq> GenerationChanged v)) \<or> (\<exists>p. r = Crashed p)"
    and y: "after_turn client x (pr_agent x) r = Some y"
  shows "proto_inv elen hub client y"
proof -
  have same: "x\<lparr>pr_agent := pr_agent x\<rparr> = x" "x\<lparr>pr_taken := pr_taken x\<rparr> = x" by simp_all
  have took: "took_frame (pr_agent x) (pr_agent x) = []" by (auto simp: took_frame_def split: option.splits)
  have s: "settle client x (pr_agent x) r = Some y"
    using y by (simp add: after_turn_def took)
  have c: "core_inv elen hub client (x\<lparr>pr_agent := pr_agent x\<rparr>)" using i by (simp add: proto_inv_def)
  consider phase sent where "r = Continue phase sent"
      "proto_inv elen hub client (x\<lparr>pr_phase := Some phase, pr_up := pr_up x @ sent\<rparr>)"
    | e where "r = Broken e" "\<not> contradiction e" | e where "r = Finished e" "\<forall>v. e \<noteq> GenerationChanged v"
    | p where "r = Crashed p" using r by blast
  then show ?thesis
  proof cases
    case (1 phase sent)
    then have "y = x\<lparr>pr_phase := Some phase, pr_up := pr_up x @ sent\<rparr>" using s by (auto simp: settle_def)
    then show ?thesis using 1(2) by simp
  next
    case (2 e)
    then show ?thesis using s inv_between [OF c forward_broken_ok [OF 2(2)] o] by (simp add: settle_def)
  next
    case (3 e)
    then have "next_ok (pr_agent x) (forward_finished client (pr_agent x) e)"
      by (cases e) (auto simp: next_ok_def)
    from inv_between [OF c this o] show ?thesis using s 3(1) by (simp add: settle_def)
  next
    case 4
    then show ?thesis using s by (simp add: settle_def)
  qed
qed

lemma wait_turn_other:
  assumes "wait_turn client st r c again acked = (st', res)" and "\<not> is_ack (FromServer r)"
  shows "st' = st \<and> ((\<exists>c'. res = Continue (again c') []) \<or> (\<exists>e. res = Broken e \<and> \<not> contradiction e)
    \<or> (\<exists>p. res = Crashed p))"
proof -
  let ?w = "rbind (receive_command r) (await_ack client (as_generation st) c)"
  have no: "?w \<noteq> Ok (Acked n)" for n
    using assms(2) by (cases r) (auto simp: await_ack_def rbind_eq_Ok is_ack_def split: option.splits agent_command.splits)
  show ?thesis
  proof (cases ?w)
    case (Ok w)
    then show ?thesis using no assms(1) by (cases w) (auto simp: wait_turn_def)
  next
    case (Err e)
    then have "\<not> contradiction e" using receive_errors await_errors by (auto simp: rbind_eq_Err)
    then show ?thesis using Err assms(1) by (auto simp: wait_turn_def)
  next
    case (Panic p)
    then show ?thesis using assms(1) by (auto simp: wait_turn_def)
  qed
qed

lemma wait_turn_ack:
  "wait_turn client st (ReceivedCommand (Some (Ack (as_generation st) n))) c again acked = acked n"
  by (simp add: wait_turn_def await_ack_def)

lemma inv_turn:
  assumes i: "proto_inv elen hub client x" and p: "pr_phase x = Some phase" and o: "pr_outcome x = None"
    and a: "\<not> is_ack j" and t: "session_turn sha js client now open_queue (pr_agent x) phase j = (st, r)"
    and y: "after_turn client x st r = Some y"
  shows "proto_inv elen hub client y"
proof -
  note k = inv_same_state [OF i o]
  have same: "x\<lparr>pr_phase := Some phase\<rparr> = x" using p by simp
  have waiting: "proto_inv elen hub client y"
    if w: "wait_turn client (pr_agent x) rc c again acked = (st, r)" "j = FromServer rc"
      and ag: "\<And>c'. proto_inv elen hub client (x\<lparr>pr_phase := Some (again c')\<rparr>)" for rc c again acked
  proof -
    have na: "\<not> is_ack (FromServer rc)" using a w(2) by simp
    have st: "st = pr_agent x" and res: "(\<exists>c'. r = Continue (again c') []) \<or> (\<exists>e. r = Broken e \<and> \<not> contradiction e)
        \<or> (\<exists>p. r = Crashed p)" using wait_turn_other [OF w(1) na] by auto
    have "proto_inv elen hub client (x\<lparr>pr_phase := Some (again c'), pr_up := pr_up x @ []\<rparr>)" for c'
      using ag [of c'] by simp
    then show ?thesis using res k [OF _ y [unfolded st]] by blast
  qed
  have idle: "proto_inv elen hub client y" if "st = pr_agent x" "r = Continue phase []"
    using k [of r y] that y same i by simp
  show ?thesis
  proof (cases phase)
    case (Opening c)
    have "\<And>c'. proto_inv elen hub client (x\<lparr>pr_phase := Some (Opening c')\<rparr>)"
      using i p Opening by (auto simp: proto_inv_def core_inv_def phase_ok_def outcome_ok_def)
    then show ?thesis using t Opening waiting idle by (cases j) (auto simp: session_turn_def)
  next
    case (AwaitHeartbeat c)
    have "\<And>c'. proto_inv elen hub client (x\<lparr>pr_phase := Some (AwaitHeartbeat c')\<rparr>)"
      using i p AwaitHeartbeat by (auto simp: proto_inv_def core_inv_def phase_ok_def outcome_ok_def)
    then show ?thesis using t AwaitHeartbeat waiting idle by (cases j) (auto simp: session_turn_def)
  next
    case (AwaitEvent c)
    have "\<And>c'. proto_inv elen hub client (x\<lparr>pr_phase := Some (AwaitEvent c')\<rparr>)"
      using i p AwaitEvent by (auto simp: proto_inv_def core_inv_def phase_ok_def outcome_ok_def)
    then show ?thesis using t AwaitEvent waiting idle by (cases j) (auto simp: session_turn_def)
  next
    case Selecting
    have up: "pr_up x = []" "pr_down x = []" "as_pending (pr_agent x) = None"
      and g: "hs_generation (pr_hub x) = Some (as_generation (pr_agent x))"
      using i p Selecting by (simp_all add: proto_inv_def phase_ok_def)
    show ?thesis
    proof (cases j)
      case (FromServer rc)
      have "select_command client rc = Continue Selecting [] \<or> (\<exists>e. select_command client rc = Broken e \<and> \<not> contradiction e)
        \<or> (\<exists>e. select_command client rc = Finished e \<and> (\<forall>v. e \<noteq> GenerationChanged v))
        \<or> (\<exists>p. select_command client rc = Crashed p)"
        using command_errors by (auto simp: select_command_def end_or_continue_def split: received.splits rres.splits option.splits)
      then show ?thesis using t Selecting FromServer k [of r y] y i same by (auto simp: session_turn_def)
    next
      case FramesClosed
      then show ?thesis using t Selecting k [of r y] y by (auto simp: session_turn_def)
    next
      case HeartbeatTick
      let ?beat = "BodyHeartbeat (as_generation (pr_agent x)) (as_accepted (pr_agent x))"
      have "proto_inv elen hub client (x\<lparr>pr_phase := Some (AwaitHeartbeat None), pr_up := pr_up x @ [?beat]\<rparr>)"
        using i up g o by (auto simp: proto_inv_def core_inv_def phase_ok_def outcome_ok_def)
      then show ?thesis using t Selecting HeartbeatTick k [of r y] y
        by (auto simp: session_turn_def send_body_def split: if_splits)
    next
      case (FrameReady raw)
      then have tf: "take_frame sha js now open_queue (pr_agent x) raw = (st, r)"
        using t Selecting by (simp add: session_turn_def)
      show ?thesis
      proof (cases "frame_generation js raw")
        case (Err e)
        then show ?thesis using tf k [of r y] y frame_generation_errors [OF Err] by (auto simp: take_frame_def)
      next
        case (Panic p)
        then show ?thesis using tf k [of r y] y by (auto simp: take_frame_def)
      next
        case (Ok v)
        show ?thesis
        proof (cases "v = None \<or> v = as_monitor_generation (pr_agent x)")
          case True
          then have "queue_frame sha js now open_queue (pr_agent x) raw = (st, r)"
            using tf Ok by (auto simp: take_frame_def split: option.splits)
          from inv_queue_frame [OF i p [unfolded Selecting] this y] show ?thesis .
        next
          case False
          then obtain n where n: "v = Some n" "as_monitor_generation (pr_agent x) \<noteq> Some n" by auto
          have st: "st = (pr_agent x)\<lparr>as_pending := Some \<lparr>pf_raw = raw, pf_sequence = 1\<rparr>\<rparr>"
            and r: "r = Finished (GenerationChanged n)" using tf Ok n by (auto simp: take_frame_def)
          have c: "core_inv elen hub client x" using i by (simp add: proto_inv_def)
          from inv_generation_change [OF c up(1) n(2) g o st] y show ?thesis
            by (auto simp: after_turn_def settle_def r)
        qed
      qed
    qed
  qed
qed


text \<open>An acknowledgement of the pending frame.\<close>

lemma core_acked:
  assumes "core_inv elen hub client x" "as_pending (pr_agent x) = Some f" "pr_published x = pr_taken x" "pr_up x = []"
  shows "core_inv elen hub client
    (x\<lparr>pr_agent := (pr_agent x)\<lparr>as_accepted := pf_sequence f, as_pending := None\<rparr>\<rparr>)"
proof -
  have "length (pr_taken x) = unat (pf_sequence f)"
    using assms(1,2) by (auto simp: core_inv_def counts_ok_def)
  moreover from this have "pr_taken x \<noteq> []" using assms(1,2) by (auto simp: core_inv_def counts_ok_def)
  ultimately show ?thesis
    using assms by (simp add: core_inv_def counts_ok_def lane_matches_def generation_ok_def split: if_splits)
qed

lemma settle_same:
  assumes "took_frame (pr_agent x) st = []"
  shows "after_turn client (x\<lparr>pr_down := down\<rparr>) st r = settle client (x\<lparr>pr_down := down\<rparr>) st r"
  using assms by (simp add: after_turn_def)

lemma settle_agent:
  "settle client x st r = settle client (x\<lparr>pr_agent := st\<rparr>) st r"
  by (cases r) (auto simp: settle_def between_sessions_def split: forward_next.splits)

text \<open>After a first or an event's acknowledgement the session reconfigures, or goes on.\<close>

lemma inv_end_or_continue:
  assumes c: "core_inv elen hub client x" and o: "pr_outcome x = None"
    and go: "\<And>y. settle client x (pr_agent x) r = Some y \<Longrightarrow> proto_inv elen hub client y"
    and y: "settle client x (pr_agent x) (end_or_continue configuration r) = Some y"
  shows "proto_inv elen hub client y"
proof (cases configuration)
  case None
  then show ?thesis using go y by (simp add: end_or_continue_def)
next
  case (Some v)
  have "core_inv elen hub client (x\<lparr>pr_agent := pr_agent x\<rparr>)" using c by simp
  from inv_between [OF this _ o] Some y show ?thesis
    by (auto simp: end_or_continue_def settle_def next_ok_def)
qed

lemma reconcile_cases:
  assumes c: "counts_ok st taken published" and l: "unat n = length published"
  obtains (same) "reconcile st n = Ok st"
    | (acked) f where "as_pending st = Some f" "published = taken" "n = pf_sequence f"
        "reconcile st n = Ok (st\<lparr>as_accepted := pf_sequence f, as_pending := None\<rparr>)"
proof (cases "as_pending st")
  case None
  then have "n = as_accepted st" using c l by (simp add: counts_ok_def word_unat_eq_iff)
  then show ?thesis using None same by (simp add: reconcile_def)
next
  case (Some f)
  obtain acked where k: "taken = acked @ [pf_raw f]" "length acked = unat (as_accepted st)"
    "unat (pf_sequence f) = Suc (unat (as_accepted st))" "published = acked \<or> published = taken"
    using c Some by (auto simp: counts_ok_def)
  show ?thesis
  proof (cases "n = pf_sequence f")
    case True
    then have "published = taken" using k l by auto
    then show ?thesis using acked Some True by (simp add: reconcile_def)
  next
    case False
    then have "n = as_accepted st" using k l by (auto simp: word_unat_eq_iff)
    then show ?thesis using same Some False by (simp add: reconcile_def)
  qed
qed

lemma inv_initial_acked:
  assumes c: "core_inv elen hub client x" and x: "pr_up x = []" "pr_down x = []" "pr_outcome x = None"
    and gen: "hs_generation (pr_hub x) = Some (as_generation (pr_agent x))"
    and t: "initial_acked sha js now open_queue (pr_agent x) cf (hs_latest_sequence (pr_hub x)) = (st, r)"
    and y: "after_turn client x st r = Some y"
  shows "proto_inv elen hub client y"
proof -
  have counts: "counts_ok (pr_agent x) (pr_taken x) (pr_published x)"
    and l: "unat (hs_latest_sequence (pr_hub x)) = length (pr_published x)"
    using c gen by (auto simp: core_inv_def lane_matches_def)
  have head: "proto_inv elen hub client z"
    if "core_inv elen hub client u" "pr_up u = []" "pr_down u = []" "pr_outcome u = None"
      "hs_generation (pr_hub u) = Some (as_generation (pr_agent u))"
      "settle client u (pr_agent u) (end_or_continue cf (loop_head sha js now open_queue (pr_agent u))) = Some z" for u z
    using inv_end_or_continue [OF that(1,4) inv_loop_head [OF that(1-5)] that(6)] .
  show ?thesis
    using counts l
  proof (cases rule: reconcile_cases)
    case same
    then have "st = pr_agent x" and r: "r = end_or_continue cf (loop_head sha js now open_queue (pr_agent x))"
      using t by (auto simp: initial_acked_def)
    then have "settle client x (pr_agent x) r = Some y"
      using y by (simp add: after_turn_def took_frame_def split: option.splits)
    from head [OF c x gen this [unfolded r]] show ?thesis .
  next
    case (acked f)
    let ?st = "(pr_agent x)\<lparr>as_accepted := pf_sequence f, as_pending := None\<rparr>"
    have st: "st = ?st" and r: "r = end_or_continue cf (loop_head sha js now open_queue ?st)"
      using t acked(4) by (auto simp: initial_acked_def)
    have "settle client (x\<lparr>pr_agent := ?st\<rparr>) ?st r = Some y"
      using y st acked(1) settle_agent [of client x ?st r] by (simp add: after_turn_def took_frame_def)
    moreover have "core_inv elen hub client (x\<lparr>pr_agent := ?st\<rparr>)" using core_acked [OF c acked(1,2) x(1)] .
    ultimately show ?thesis using head [of "x\<lparr>pr_agent := ?st\<rparr>" y] x gen r by simp
  qed
qed

text \<open>Where the client's session is when an acknowledgement arrives.\<close>

lemma inv_selecting:
  assumes "core_inv elen hub client x" "pr_up x = []" "pr_down x = []" "pr_outcome x = None"
    "as_pending (pr_agent x) = None" "hs_generation (pr_hub x) = Some (as_generation (pr_agent x))"
    "settle client x (pr_agent x) (end_or_continue cf (Continue Selecting [])) = Some y"
  shows "proto_inv elen hub client y"
proof (rule inv_end_or_continue [OF assms(1,4) _ assms(7)])
  fix z assume "settle client x (pr_agent x) (Continue Selecting []) = Some z"
  then have "z = x\<lparr>pr_phase := Some Selecting\<rparr>" by (simp add: settle_def)
  then show "proto_inv elen hub client z"
    using assms(1-6) by (simp add: proto_inv_def core_inv_def phase_ok_def outcome_ok_def)
qed

lemma inv_heartbeat_acked:
  assumes c: "core_inv elen hub client x" and x: "pr_up x = []" "pr_down x = []" "pr_outcome x = None"
    and p: "as_pending (pr_agent x) = None"
    and gen: "hs_generation (pr_hub x) = Some (as_generation (pr_agent x))"
    and t: "heartbeat_acked (pr_agent x) cf (as_accepted (pr_agent x)) = (st, r)"
    and y: "after_turn client x st r = Some y"
  shows "proto_inv elen hub client y"
proof -
  have st: "st = pr_agent x" and r: "r = end_or_continue cf (Continue Selecting [])"
    using t by (auto simp: heartbeat_acked_def)
  have "x\<lparr>pr_taken := pr_taken x @ took_frame (pr_agent x) (pr_agent x)\<rparr> = x" using p by (simp add: took_frame_def)
  then have "settle client x (pr_agent x) (end_or_continue cf (Continue Selecting [])) = Some y"
    using y by (simp only: after_turn_def st r)
  from inv_selecting [OF c x p gen this] show ?thesis .
qed

lemma inv_event_acked:
  assumes c: "core_inv elen hub client x" and x: "pr_up x = []" "pr_down x = []" "pr_outcome x = None"
    and p: "as_pending (pr_agent x) = Some f" and pub: "pr_published x = pr_taken x"
    and gen: "hs_generation (pr_hub x) = Some (as_generation (pr_agent x))"
    and t: "event_acked (pr_agent x) cf (pf_sequence f) = (st, r)"
    and y: "after_turn client x st r = Some y"
  shows "proto_inv elen hub client y"
proof -
  let ?st = "(pr_agent x)\<lparr>as_accepted := pf_sequence f, as_pending := None\<rparr>"
  have st: "st = ?st" and r: "r = end_or_continue cf (Continue Selecting [])"
    using t p by (auto simp: event_acked_def)
  have "x\<lparr>pr_taken := pr_taken x @ took_frame (pr_agent x) ?st\<rparr> = x" using p by (simp add: took_frame_def)
  then have "settle client (x\<lparr>pr_agent := ?st\<rparr>) ?st r = Some y"
    using y unfolding after_turn_def st by (simp only: settle_agent [symmetric])
  then have "settle client (x\<lparr>pr_agent := ?st\<rparr>) (pr_agent (x\<lparr>pr_agent := ?st\<rparr>))
      (end_or_continue cf (Continue Selecting [])) = Some y" by (simp add: r)
  from inv_selecting [OF core_acked [OF c p pub x(1)] _ _ _ _ _ this] show ?thesis
    using x gen by simp
qed

lemma inv_acknowledged:
  assumes i: "proto_inv elen hub client x" and p: "pr_phase x = Some phase" and o: "pr_outcome x = None"
    and d: "pr_down x = (g, n) # down"
    and t: "session_turn sha js client now open_queue (pr_agent x) phase
          (FromServer (ReceivedCommand (Some (Ack g n)))) = (st, r)"
    and y: "after_turn client (x\<lparr>pr_down := down\<rparr>) st r = Some y"
  shows "proto_inv elen hub client y"
proof -
  let ?x = "x\<lparr>pr_down := down\<rparr>"
  have c: "core_inv elen hub client ?x" and gen: "hs_generation (pr_hub ?x) = Some (as_generation (pr_agent ?x))"
    using i p by (auto simp: proto_inv_def core_inv_def phase_ok_def)
  have ph: "phase_ok x" using i by (simp add: proto_inv_def)
  have w: "g = as_generation (pr_agent x)" "pr_down ?x = []" "pr_up ?x = []" "pr_outcome ?x = None"
    using ph p d o by (auto simp: phase_ok_def split: session_phase.splits)
  note t = t [unfolded w(1)]
  show ?thesis
  proof (cases phase)
    case Selecting
    then show ?thesis using ph p d by (simp add: phase_ok_def)
  next
    case (AwaitHeartbeat cf)
    then have n: "n = as_accepted (pr_agent ?x)" "as_pending (pr_agent ?x) = None"
      using ph p d by (auto simp: phase_ok_def)
    then have "heartbeat_acked (pr_agent ?x) cf (as_accepted (pr_agent ?x)) = (st, r)"
      using t AwaitHeartbeat by (simp add: session_turn_def wait_turn_ack)
    from inv_heartbeat_acked [OF c w(3,2,4) n(2) gen this y] show ?thesis .
  next
    case (AwaitEvent cf)
    then obtain f where f: "as_pending (pr_agent ?x) = Some f" "n = pf_sequence f" "pr_published ?x = pr_taken ?x"
      using ph p d w(3) by (auto simp: phase_ok_def)
    then have "event_acked (pr_agent ?x) cf (pf_sequence f) = (st, r)"
      using t AwaitEvent by (simp add: session_turn_def wait_turn_ack)
    from inv_event_acked [OF c w(3,2,4) f(1,3) gen this y] show ?thesis .
  next
    case (Opening cf)
    then have "n = hs_latest_sequence (pr_hub x)" using ph p d by (simp add: phase_ok_def)
    then have "initial_acked sha js now open_queue (pr_agent ?x) cf (hs_latest_sequence (pr_hub ?x)) = (st, r)"
      using t Opening by (simp add: session_turn_def wait_turn_ack)
    from inv_initial_acked [OF c w(3,2,4) gen this y] show ?thesis .
  qed
qed

section \<open>Every step\<close>

lemma inv_connected:
  assumes i: "proto_inv elen hub client x" and p: "pr_phase x = None"
    and o: "stream_opens elen hub (pr_hub x) (Hello (client_hello client (as_generation (pr_agent x)))) s (Ok (session, g))"
  shows "core_inv elen hub client (x\<lparr>pr_hub := s, pr_up := [], pr_task := Some (session, g)\<rparr>)"
    "g = as_generation (pr_agent x)" "hs_generation s = Some g"
proof -
  have inv: "hub_inv elen hub (pr_hub x)" using i by (simp add: proto_inv_def core_inv_def)
  note c = stream_opens_session [OF o inv]
  from o inv show g: "g = as_generation (pr_agent x)"
    by (cases rule: stream_opens_front)
       (auto elim: open_connect_cases simp: client_hello_def)
  show "hs_generation s = Some g" by (rule c(3))
  show "core_inv elen hub client (x\<lparr>pr_hub := s, pr_up := [], pr_task := Some (session, g)\<rparr>)"
    using i c stream_opens_inv [OF o inv] lane_matches_open [OF _ inv o]
    by (auto simp: proto_inv_def core_inv_def)
qed

lemma core_inv_lane:
  assumes "core_inv elen hub client x" "same_lane (pr_hub x) s" "hub_inv elen hub s"
    "task = None \<or> task = pr_task x \<and> hs_agent_session s = hs_agent_session (pr_hub x)"
    "set up \<subseteq> set (pr_up x)"
  shows "core_inv elen hub client (x\<lparr>pr_hub := s, pr_up := up, pr_task := task\<rparr>)"
  using assms lane_matches_same [OF _ assms(2)] by (auto simp: core_inv_def same_lane_def)

lemma phase_ok_lane:
  "phase_ok x \<Longrightarrow> same_lane (pr_hub x) s \<Longrightarrow> phase_ok (x\<lparr>pr_hub := s, pr_task := task\<rparr>)"
  by (cases "pr_phase x"; cases "the (pr_phase x)") (auto simp: phase_ok_def same_lane_def)

lemma heartbeat_eq_Ok: "heartbeat s session g n = Ok m \<Longrightarrow> m = n \<and> hs_latest_sequence s = n"
  by (auto simp: heartbeat_def split: if_splits)

lemma answer_goes_on: "answer_agent s session g r = Ok (s', True) \<Longrightarrow> \<exists>n. r = Ok n"
  by (auto simp: answer_agent_def split: rres.splits)

lemma inv_heartbeat_step:
  assumes i: "proto_inv elen hub client x" and t: "pr_task x = Some (session, g)"
    and u: "pr_up x = BodyHeartbeat hg n # rest"
    and b: "hub_backgrounds elen hub (pr_hub x) s"
    and an: "answer_agent s session g (heartbeat (pr_hub x) session hg n) = Ok (s', go)"
  shows "proto_inv elen hub client
       (x\<lparr>pr_hub := s', pr_up := rest, pr_task := (if go then pr_task x else None),
          pr_down := pr_down x @ (if go \<and> pr_phase x \<noteq> None then [(g, hs_latest_sequence (pr_hub x))] else [])\<rparr>)"
proof -
  have c: "core_inv elen hub client x" and ph: "phase_ok x" and oc: "outcome_ok x"
    using i by (simp_all add: proto_inv_def)
  have inv: "hub_inv elen hub (pr_hub x)" using c by (simp add: core_inv_def)
  note k = backgrounds_keep [OF b inv]
  have lane: "same_lane (pr_hub x) s'"
    using k answer_lane(1) [OF an] by (simp add: same_lane_def)
  have hub: "hub_inv elen hub s'" "go \<Longrightarrow> hs_agent_session s' = hs_agent_session (pr_hub x)"
    using k answer_lane(2,3) [OF an] by simp_all
  let ?task = "if go then pr_task x else None"
  let ?y = "x\<lparr>pr_hub := s', pr_up := rest, pr_task := ?task\<rparr>"
  let ?down = "pr_down x @ (if go \<and> pr_phase x \<noteq> None then [(g, hs_latest_sequence (pr_hub x))] else [])"
  have "core_inv elen hub client ?y"
    by (rule core_inv_lane [OF c lane hub(1)]) (use hub(2) u in auto)
  then have core: "core_inv elen hub client (?y\<lparr>pr_down := ?down\<rparr>)" by (simp add: core_inv_def)
  have n: "hs_latest_sequence (pr_hub x) = n" if go
    using answer_goes_on [of s session g _ s'] an that heartbeat_eq_Ok by metis
  have "phase_ok (?y\<lparr>pr_down := ?down\<rparr>)"
  proof (cases "pr_phase x")
    case None
    then show ?thesis using ph by (simp add: phase_ok_def)
  next
    case (Some phase)
    have g: "g = as_generation (pr_agent x)" using Some ph c t by (auto simp: phase_ok_def core_inv_def)
    have s: "hs_generation s' = Some (as_generation (pr_agent x))"
      using lane Some ph by (simp add: same_lane_def phase_ok_def)
    show ?thesis
      using ph u n s Some g by (cases phase) (simp_all add: phase_ok_def)
  qed
  with core oc show ?thesis by (simp add: proto_inv_def outcome_ok_def)
qed

lemma inv_event_step:
  assumes i: "proto_inv elen hub client x" and t: "pr_task x = Some (session, g)"
    and u: "pr_up x = BodyEvent e # rest"
    and pu: "publish sha js elen hub session (pr_hub x) e = Some (s1, r)"
    and b: "hub_backgrounds elen hub s1 s"
    and an: "answer_agent s session g r = Ok (s', go)"
  shows "proto_inv elen hub client
       (x\<lparr>pr_hub := s', pr_up := rest, pr_task := (if go then pr_task x else None),
          pr_down := pr_down x @ (case r of Ok n \<Rightarrow> if go \<and> pr_phase x \<noteq> None then [(g, n)] else [] | _ \<Rightarrow> []),
          pr_published := pr_published x @ (if is_ok r \<and> ec_generation (cursor_of e) = as_generation (pr_agent x)
            then [event_data e] else [])\<rparr>)"
proof -
  have c: "core_inv elen hub client x" and ph: "phase_ok x" and oc: "outcome_ok x"
    using i by (simp_all add: proto_inv_def)
  have inv: "hub_inv elen hub (pr_hub x)" and m: "frame_matches (pr_agent x) e"
    and cl: "counts_ok (pr_agent x) (pr_taken x) (pr_published x)"
      "lane_matches (pr_hub x) (pr_agent x) (pr_published x)"
    using c u by (auto simp: core_inv_def)
  note p = publish_pending [OF inv cl m pu] and k = publish_keeps [OF inv pu]
  note kb = backgrounds_keep [OF b lane_ok_publish [OF inv pu]]
  have lane: "same_lane s1 s'" using kb answer_lane(1) [OF an] by (simp add: same_lane_def)
  obtain f where f: "as_pending (pr_agent x) = Some f" and gen: "ec_generation (cursor_of e) = as_generation (pr_agent x)"
    using m by (auto simp: frame_matches_def cursor_of_def)
  let ?pub = "pr_published x @ (if is_ok r \<and> ec_generation (cursor_of e) = as_generation (pr_agent x)
      then [event_data e] else [])"
  have pub: "if is_ok r then ?pub = pr_taken x \<and> r = Ok (pf_sequence f) else ?pub = pr_published x \<and> s1 = pr_hub x"
    using p gen f by auto
  have "lane_matches s1 (pr_agent x) ?pub" using p pub cl(2) by (auto split: if_splits)
  then have l: "lane_matches s' (pr_agent x) ?pub" using lane lane_matches_same by blast
  have ct: "counts_ok (pr_agent x) (pr_taken x) ?pub"
    using cl(1) f pub by (auto simp: counts_ok_def split: if_splits)
  let ?down = "pr_down x @ (case r of Ok n \<Rightarrow> if go \<and> pr_phase x \<noteq> None then [(g, n)] else [] | _ \<Rightarrow> [])"
  let ?y = "x\<lparr>pr_hub := s', pr_up := rest, pr_task := (if go then pr_task x else None), pr_down := ?down,
    pr_published := ?pub\<rparr>"
  have hub: "hub_inv elen hub s'" using answer_lane(2) [OF an] kb by blast
  have task: "go \<Longrightarrow> hs_agent_session s' = hs_agent_session (pr_hub x)" "hs_generation s' = hs_generation (pr_hub x)"
    using k kb lane answer_lane(3) [OF an] by (simp_all add: same_lane_def)
  have core: "core_inv elen hub client ?y"
    using c l ct hub task u unfolding core_inv_def by simp
  have "phase_ok ?y"
  proof (cases "pr_phase x")
    case None
    then show ?thesis using ph by (simp add: phase_ok_def split: rres.splits)
  next
    case (Some phase)
    have g: "g = as_generation (pr_agent x)" using Some ph c t by (auto simp: phase_ok_def core_inv_def)
    have s: "hs_generation s' = Some (as_generation (pr_agent x))"
      using task(2) Some ph by (simp add: phase_ok_def)
    show ?thesis
    proof (cases phase)
      case (AwaitEvent cf)
      then have "rest = []" "pr_down x = []" using ph u Some by (auto simp: phase_ok_def)
      then show ?thesis using s g f pub AwaitEvent Some by (cases r) (auto simp: phase_ok_def)
    qed (use ph u Some in \<open>simp_all add: phase_ok_def\<close>)
  qed
  with core oc show ?thesis by (simp add: proto_inv_def outcome_ok_def split del: if_split)
qed

lemma proto_inv_step:
  assumes "proto_step sha js elen hub client x y" and "proto_inv elen hub client x"
  shows "proto_inv elen hub client y"
  using assms
proof (induction rule: proto_step.induct)
  case (p_connect x s session g)
  note k = inv_connected [OF p_connect.prems p_connect.hyps(1,3)]
  then show ?case using p_connect by (simp add: proto_inv_def core_inv_def phase_ok_def outcome_ok_def)
next
  case (p_connect_lost x s session g)
  note k = inv_connected [OF p_connect_lost.prems p_connect_lost.hyps(1,3)]
  then show ?case using p_connect_lost by (simp add: proto_inv_def core_inv_def phase_ok_def outcome_ok_def)
next
  case (p_refused x s e)
  note o = p_refused.hyps(3)
  have inv: "hub_inv elen hub (pr_hub x)" using p_refused.prems by (simp add: proto_inv_def core_inv_def)
  have "pr_task x = None \<or> s = pr_hub x"
    using stream_opens_active(2) [OF o inv] p_refused.prems by (cases "pr_task x") (auto simp: proto_inv_def core_inv_def)
  then have "core_inv elen hub client (x\<lparr>pr_hub := s\<rparr>)"
    using p_refused.prems stream_opens_inv [OF o inv] lane_matches_open [OF _ inv o]
    by (auto simp: proto_inv_def core_inv_def)
  then have "core_inv elen hub client (x\<lparr>pr_hub := s, pr_agent := pr_agent x\<rparr>)" by simp
  from inv_between [OF this forward_broken_ok] p_refused.hyps(2) show ?case by simp
next
  case (p_unreachable x e y')
  then have "core_inv elen hub client (x\<lparr>pr_agent := pr_agent x\<rparr>)" by (simp add: proto_inv_def)
  from inv_between [OF this forward_broken_ok] p_unreachable.hyps(2,3) show ?case by auto
next
  case (p_background x s)
  have c: "core_inv elen hub client x" using p_background.prems by (simp add: proto_inv_def)
  then have "hub_inv elen hub (pr_hub x)" by (simp add: core_inv_def)
  note k = background_keeps [OF p_background.hyps this]
  then have "same_lane (pr_hub x) s" by (simp add: same_lane_def)
  from core_inv_lane [OF c this k(1), of "pr_task x" "pr_up x"] phase_ok_lane [OF _ this, where task = "pr_task x"] show ?case
    using k p_background.prems by (simp add: proto_inv_def outcome_ok_def)
next
  case (p_gone x session g)
  have c: "core_inv elen hub client x" using p_gone.prems by (simp add: proto_inv_def)
  then have "hub_inv elen hub (disconnect_agent (pr_hub x) session)" by (simp add: core_inv_def hub_inv_disconnect)
  from core_inv_lane [OF c same_lane_disconnect this, of None "pr_up x"] show ?case
    using p_gone.prems phase_ok_lane [of x "disconnect_agent (pr_hub x) session" None]
    by (simp add: proto_inv_def outcome_ok_def)
next
  case (p_acknowledged x phase g n down now open_queue st r y)
  then show ?case using inv_acknowledged by blast
next
  case (p_turn x phase j now open_queue st r y)
  then show ?case using inv_turn by blast
next
  case (p_heartbeat x session g hg n rest s s' go)
  then show ?case using inv_heartbeat_step by blast
next
  case (p_event x session g e rest s1 r s s' go)
  then show ?case using inv_event_step by blast
qed

end
