(* ===== verification/Agent_Properties.thy ===== *)
theory Agent_Properties
  imports Agent_Client Hub_Properties
begin

text \<open>
  The properties of the agent's frames: what the agent builds from a monitor's frame is what the
  hub admits, and what the hub publishes as local analysis is a core anomaly event.
\<close>

section \<open>Visible text\<close>

definition visible_start :: "string \<Rightarrow> bool" where
  "visible_start s \<longleftrightarrow> (case s of [] \<Rightarrow> False | c # _ \<Rightarrow> utf8_width c = 1 \<and> \<not> is_whitespace [c])"

lemma visible_start_append: "visible_start s \<Longrightarrow> visible_start (s @ t)"
  by (cases s) (simp_all add: visible_start_def)

lemma trim_chars_visible:
  assumes "\<not> is_whitespace ch" shows "\<exists>r. trim_chars (ch # chs) = ch # r"
proof -
  have "\<exists>ys. dropWhile is_whitespace (xs @ [ch]) = ys @ [ch]" for xs
    using assms by (induction xs) auto
  then obtain ys where "dropWhile is_whitespace (rev chs @ [ch]) = ys @ [ch]" by blast
  then have "trim_chars (ch # chs) = ch # rev ys" using assms by (simp add: trim_chars_def)
  then show ?thesis ..
qed

lemma visible_start_trim:
  assumes "visible_start s" shows "trim s \<noteq> ''''"
proof -
  obtain c t where s: "s = c # t" "utf8_width c = 1" "\<not> is_whitespace [c]"
    using assms by (auto simp: visible_start_def split: list.splits)
  then have "chars_of s = [c] # chars_of t" by simp
  then show ?thesis using trim_chars_visible [OF s(3), of "chars_of t"] by (auto simp: trim_eq_trim_chars)
qed

section \<open>Frames\<close>

lemma visible_schema: "visible_start (''magic.market.monitor.'' @ k)"
  by (simp add: visible_start_def utf8_width_def is_whitespace_def)

lemma require_fields_eq_Ok:
  "require_fields js d fs = Ok () \<longleftrightarrow> list_all (\<lambda>f. get_str js d f \<noteq> None) fs"
  by (induction fs) auto

lemma admitted_field_agrees:
  assumes "admitted_field js d a v = Ok b" shows "admitted_json_field js d a v = Ok b"
proof (cases "get_bool js d a")
  case (Some x)
  with assms show ?thesis
    by (cases x; cases "get_str js d v") (simp_all add: admitted_field_def admitted_json_field_def ok_or_def)
qed (use assms in \<open>simp add: admitted_field_def ok_or_def\<close>)

lemma admitted_fields_agrees:
  assumes "admitted_fields js d a vs = Ok b" shows "admitted_json_fields js d a vs = Ok b"
proof (cases "get_bool js d a")
  case (Some x)
  have "require_fields js d vs = Ok u \<Longrightarrow> list_all (\<lambda>f. get_str js d f \<noteq> None) vs" for u
    using require_fields_eq_Ok [of js d vs] by simp
  with assms Some show ?thesis
    by (cases x; cases "require_fields js d vs") (simp_all add: admitted_fields_def admitted_json_fields_def ok_or_def)
qed (use assms in \<open>simp add: admitted_fields_def ok_or_def\<close>)

lemma admitted_analysis_event_eq_Ok:
  assumes "admitted_analysis_event sha js d l = Ok a"
  obtains update family v r where
    "Option.bind (sj_get js d ''update'') (sj_as_object js) = Some update"
    "Option.bind (update ''family'') (sj_as_str js) = Some family"
    "Option.bind (update ''rule_version'') (sj_as_u64 js)
       = Some (ucast (positive_u32_get (ri_revision (ae_rule a))))"
    "update ''anomaly_event'' = Some v" "anomaly_from_value sha js v = Ok a"
    "expected_rule_of family = Ok r" "text_str (ri_id (ae_rule a)) = r"
    "canonical_equity_label (ae_instrument a) = l"
    "ae_transition a \<in> {anomaly_transition.Triggered, anomaly_transition.Rearmed}"
    "get_str js d ''observed_at_utc'' = Some (observed_at_of (ae_derived_evidence a))"
proof -
  have rule: "agent_expected_rule f = Ok r \<longleftrightarrow> expected_rule_of f = Ok r" for f r
    by (simp add: agent_expected_rule_def expected_rule_of_def)
  have wire: "(case sj_anomaly_wire js v of None \<Rightarrow> Err AnalysisEventJson
      | Some wire \<Rightarrow> map_err (\<lambda>_. AnalysisEventJson) (anomaly_event_deserialize sha wire)) = Ok a
    \<longleftrightarrow> anomaly_from_value sha js v = Ok a" for v a
    by (cases "sj_anomaly_wire js v") (simp_all add: anomaly_from_value_def)
  have if_ok: "(if c then Err x else Ok y) = Ok z \<longleftrightarrow> \<not> c \<and> y = z" for c :: bool and x :: client_error and y z :: anomaly_event
    by simp
  show ?thesis
    using assms that unfolding admitted_analysis_event_def rbind_eq_Ok ok_or_eq wire rule if_ok by blast
qed

lemma analysis_agrees:
  assumes a: "admitted_analysis_event sha js d l = Ok a" and b: "get_bool js d ''admitted'' = Some True"
    and e: "en_event_kind e = ''analysis''" "en_source_at e = ''''" "en_instrument e = l"
      "en_event_id e = event_id_str (ae_event_id a)"
      "get_str js d ''observed_at_utc'' = Some (en_observed_at e)"
  shows "validate_admitted_analysis_event sha js e d = Ok ()"
  using a
proof (cases rule: admitted_analysis_event_eq_Ok)
  case (1 update family v r)
  with e b show ?thesis by (simp add: validate_admitted_analysis_event_def ok_or_def)
qed

text \<open>The hub's reading of the families of a terminal frame.\<close>

lemma event_admission_cases:
  assumes "event_admission sha js k d = Ok n"
  obtains (unadmitted) "n = 2"
    | (observation) p v where "n = 1" "k = ''observation''" "p \<or> v"
        "admitted_json_field js d ''price_admitted'' ''price'' = Ok p"
        "admitted_json_field js d ''volume_admitted'' ''cumulative_volume'' = Ok v"
    | (snapshot) a p h where "n = 1" "k = ''snapshot_observation''" "a \<or> p \<or> h"
        "admitted_json_field js d ''amount_admitted'' ''cumulative_amount'' = Ok a"
        "admitted_json_field js d ''previous_close_admitted'' ''previous_close'' = Ok p"
        "admitted_json_fields js d ''ohlc_admitted'' [''open'', ''high'', ''low''] = Ok h"
    | (analysis) l a where "n = 1" "k = ''analysis''" "get_bool js d ''admitted'' = Some True"
        "get_str js d ''instrument'' = Some l" "admitted_analysis_event sha js d l = Ok a"
proof -
  note f = admitted_field_agrees admitted_fields_agrees
  obtain b where n: "n = (if b then 1 else 2)" and b: "frame_admitted sha js k d = Ok b"
    using assms by (auto simp: event_admission_def rbind_eq_Ok)
  consider "\<not> b" | "b" "k = ''observation''" | "b" "k = ''snapshot_observation''" | "b" "k = ''analysis''"
    using b by (cases "k \<in> {''observation'', ''snapshot_observation'', ''analysis''}")
      (auto simp: frame_admitted_def)
  then show ?thesis
  proof cases
    case 1 then show ?thesis using n unadmitted by simp
  next
    case 2
    with b obtain p v where "p \<or> v" "admitted_field js d ''price_admitted'' ''price'' = Ok p"
        "admitted_field js d ''volume_admitted'' ''cumulative_volume'' = Ok v"
      by (simp add: frame_admitted_def rbind_eq_Ok) blast
    then show ?thesis using n 2 by (intro observation) (simp_all add: f)
  next
    case 3
    with b obtain a p h where "a \<or> p \<or> h"
        "admitted_field js d ''amount_admitted'' ''cumulative_amount'' = Ok a"
        "admitted_field js d ''previous_close_admitted'' ''previous_close'' = Ok p"
        "admitted_fields js d ''ohlc_admitted'' [''open'', ''high'', ''low''] = Ok h"
      by (simp add: frame_admitted_def rbind_eq_Ok) blast
    then show ?thesis using n 3 by (intro snapshot) (simp_all add: f)
  next
    case 4
    have if_ok: "(if c then r else Ok False) = Ok True \<longleftrightarrow> c \<and> r = Ok True"
      for c and r :: "(bool, client_error) rres" by simp
    from 4 b obtain l a where "get_bool js d ''admitted'' = Some True"
        "get_str js d ''instrument'' = Some l" "admitted_analysis_event sha js d l = Ok a"
      by (simp add: frame_admitted_def rbind_eq_Ok ok_or_eq if_ok) force
    then show ?thesis using n 4 by (intro analysis) simp_all
  qed
qed

lemma event_from_frame_eq_Ok:
  assumes "event_from_frame sha js now generation sequence raw = Ok e"
  obtains d n where "sj_from_slice js raw = Some d" "get_str js d ''type'' = Some (en_event_kind e)"
    "event_admission sha js (en_event_kind e) d = Ok n"
    "en_protocol_version e = protocol_version"
    "en_cursor e = Some \<lparr>ec_generation = generation, ec_sequence = sequence\<rparr>"
    "en_provider e = (if en_event_kind e = ''analysis'' then ''LocalAnalysis'' else ''LocalTerminal'')"
    "en_instrument e = (case get_str js d ''instrument'' of None \<Rightarrow> ''TDX.LOCAL'' | Some v \<Rightarrow> v)"
    "en_observed_at e = (case get_str js d ''observed_at_utc'' of None \<Rightarrow> now | Some v \<Rightarrow> v)"
    "en_source_at e = ''''" "en_admission e = n"
    "en_payload e = Some \<lparr>cp_schema = ''magic.market.monitor.'' @ en_event_kind e, cp_schema_version = 1,
       cp_content_type = canonical_json_content_type, cp_data = raw\<rparr>"
    "if en_event_kind e = ''analysis'' \<and> n = 1
     then \<exists>a. admitted_analysis_event sha js d (en_instrument e) = Ok a
       \<and> en_event_id e = event_id_str (ae_event_id a)
     else en_event_id e = generation @ '':'' @ dec (unat sequence)"
  using assms that unfolding event_from_frame_def rbind_eq_Ok ok_or_eq Let_def
  by (auto simp: rbind_eq_Ok split: if_splits)

lemma agent_admission_state:
  "admission_state_of 1 = Some Admitted" "admission_state_of 2 = Some Unadmitted"
  by (simp_all add: admission_state_of_def)

text \<open>The hub and the agent judge an admitted frame alike, once the frame names its instrument.\<close>

lemma admitted_frame_accepted:
  assumes d: "sj_from_slice js raw = Some d" "get_str js d ''type'' = Some (en_event_kind e)"
    and ad: "event_admission sha js (en_event_kind e) d = Ok 1"
    and p: "en_provider e = (if en_event_kind e = ''analysis'' then ''LocalAnalysis'' else ''LocalTerminal'')"
    and i: "en_instrument e = (case get_str js d ''instrument'' of None \<Rightarrow> ''TDX.LOCAL'' | Some v \<Rightarrow> v)"
    and o: "en_observed_at e = (case get_str js d ''observed_at_utc'' of None \<Rightarrow> now | Some v \<Rightarrow> v)"
    and sa: "en_source_at e = ''''"
    and ev: "en_event_kind e = ''analysis'' \<longrightarrow> (\<exists>a. admitted_analysis_event sha js d (en_instrument e) = Ok a
       \<and> en_event_id e = event_id_str (ae_event_id a))"
    and l: "cp_schema pl = ''magic.market.monitor.'' @ en_event_kind e" "cp_schema_version pl = 1"
      "cp_data pl = raw"
  shows "validate_admitted_tdx_event sha js e pl = Ok () \<longleftrightarrow> get_str js d ''instrument'' \<noteq> None"
proof (cases "get_str js d ''instrument''")
  case None
  then show ?thesis by (simp add: validate_admitted_tdx_event_def d l ok_or_def)
next
  case (Some v)
  then have v: "en_instrument e = v" using i by simp
  have "validate_admitted_tdx_event sha js e pl = Ok ()"
    using ad
  proof (cases rule: event_admission_cases)
    case (observation p' v')
    then show ?thesis using Some v
      by (simp add: validate_admitted_tdx_event_def d l ok_or_def p)
  next
    case (snapshot a p' h)
    then show ?thesis using Some v
      by (simp add: validate_admitted_tdx_event_def d l ok_or_def p)
  next
    case (analysis l' a)
    obtain a' where a': "admitted_analysis_event sha js d v = Ok a'" "en_event_id e = event_id_str (ae_event_id a')"
      using ev analysis(2) v by auto
    have "get_str js d ''observed_at_utc'' = Some (en_observed_at e)"
      using a'(1) by (cases rule: admitted_analysis_event_eq_Ok) (simp add: o)
    from analysis_agrees [OF a'(1) analysis(3) analysis(2) sa v a'(2) this] analysis(2)
    show ?thesis using Some v by (simp add: validate_admitted_tdx_event_def d l ok_or_def p)
  qed simp
  then show ?thesis using Some by simp
qed

lemma anomaly_from_value_identity:
  assumes "anomaly_from_value sha js v = Ok a"
  shows "compute_anomaly_event_id sha (ae_instrument a) (ae_rule a) (ae_transition a) (ae_stream a)
      (ie_canonical_digest (ae_input_evidence a)) = Ok (ae_event_id a)"
proof -
  from assms obtain wire where "anomaly_event_deserialize sha wire = Ok a"
    by (auto simp: anomaly_from_value_def res_simps split: option.splits)
  then show ?thesis by (auto simp: anomaly_event_deserialize_def res_simps split: if_splits)
qed

lemma hex_event_id_nonblank:
  assumes "compute_anomaly_event_id sha i r t s d = Ok x" shows "trim (event_id_str x) \<noteq> ''''"
proof -
  have "list_all is_lower_hex (event_id_str x) \<and> event_id_str x \<noteq> []"
    using assms by (auto simp: compute_anomaly_event_id_def res_simps from_validated_hex_eq_Ok)
  then show ?thesis by (simp add: lower_hex_trim)
qed

text \<open>C8: The hub accepts the event the agent builds from a frame exactly when the frame is not
  empty, fits the payload limit, has visible kind, instrument and observation time, and, when the
  agent admits it, names its instrument; in particular every admission of the agent that names an
  instrument is an admission of the hub.\<close>

theorem frame_event_accepted:
  assumes f: "event_from_frame sha js now generation sequence raw = Ok e"
    and g: "visible_start generation" and n: "sequence \<noteq> 0"
  shows "validate_event sha js e maximum = Ok () \<longleftrightarrow>
     raw \<noteq> [] \<and> length raw \<le> unat maximum
     \<and> trim (en_event_kind e) \<noteq> '''' \<and> trim (en_instrument e) \<noteq> '''' \<and> trim (en_observed_at e) \<noteq> ''''
     \<and> (en_admission e = 1 \<longrightarrow> (\<exists>d. sj_from_slice js raw = Some d \<and> get_str js d ''instrument'' \<noteq> None))"
  using f
proof (cases rule: event_from_frame_eq_Ok)
  case (1 d k)
  note s = 1(4-11)
  let ?pl = "\<lparr>cp_schema = ''magic.market.monitor.'' @ en_event_kind e, cp_schema_version = 1,
     cp_content_type = canonical_json_content_type, cp_data = raw\<rparr>"
  have id: "trim (en_event_id e) \<noteq> ''''"
  proof (cases "en_event_kind e = ''analysis'' \<and> k = 1")
    case True
    then obtain a where a: "admitted_analysis_event sha js d (en_instrument e) = Ok a"
      "en_event_id e = event_id_str (ae_event_id a)" using 1(12) by auto
    then have "compute_anomaly_event_id sha (ae_instrument a) (ae_rule a) (ae_transition a) (ae_stream a)
        (ie_canonical_digest (ae_input_evidence a)) = Ok (ae_event_id a)"
      by (auto elim!: admitted_analysis_event_eq_Ok dest!: anomaly_from_value_identity)
    from hex_event_id_nonblank [OF this] show ?thesis using a by simp
  next
    case False
    then have "en_event_id e = generation @ '':'' @ dec (unat sequence)" using 1(12) by auto
    then show ?thesis using visible_start_trim [OF visible_start_append [OF g]] by simp
  qed
  have parts: "validate_envelope_parts e maximum = Ok pl \<longleftrightarrow>
      pl = ?pl \<and> raw \<noteq> [] \<and> length raw \<le> unat maximum" for pl
    using visible_start_trim [OF g] visible_start_trim [OF visible_schema, of "en_event_kind e"] n
    by (auto simp: validate_envelope_parts_def s ok_or_def rbind_eq_Ok validate_payload_def)
  have k: "k = 1 \<or> k = 2" using 1(3) by (cases rule: event_admission_cases) auto
  have ad: "validate_admitted_tdx_event sha js e ?pl = Ok () \<longleftrightarrow> get_str js d ''instrument'' \<noteq> None" if "k = 1"
    using 1(12) that
    by (intro admitted_frame_accepted [OF 1(1,2) _ s(3,4,5,6)]) (use 1(3) in auto)
  show ?thesis
    using id k ad agent_admission_state
    by (auto simp: validate_event_def envelope_identity_ok_def s rbind_eq_Ok parts 1(1))
qed

section \<open>A sample analysis frame\<close>

text \<open>The wire document of an analysis frame, its values numbered: 0 is the document, 5 its update.\<close>

definition analysis_json :: "anomaly_event \<Rightarrow> nat serde_lib" where
  "analysis_json e =
     \<lparr>sj_from_slice = (\<lambda>raw. if raw = [] then None else Some 0),
      sj_get = (\<lambda>d. if d = 0 then map_of [(''type'', 1), (''instrument'', 2), (''observed_at_utc'', 3),
          (''admitted'', 4), (''update'', 5)] else Map.empty),
      sj_as_str = map_of [(1, ''analysis''), (2, canonical_equity_label (ae_instrument e)),
          (3, observed_at_of (ae_derived_evidence e)), (6, ''price'')],
      sj_as_bool = map_of [(4, True)], sj_as_u64 = map_of [(7, 1)],
      sj_as_object = map_of [(5, map_of [(''family'', 6), (''rule_version'', 7), (''anomaly_event'', 8)])],
      sj_anomaly_wire = map_of [(8, e)]\<rparr>"

definition price_event_at :: "string \<Rightarrow> anomaly_event \<Rightarrow> bool" where
  "price_event_at t e \<longleftrightarrow> anomaly_event_deserialize (\<lambda>x. replicate 32 0) e = Ok e
     \<and> text_str (ri_id (ae_rule e)) = ''local_price_change'' \<and> ri_revision (ae_rule e) = PositiveU32 1
     \<and> ae_transition e = anomaly_transition.Triggered \<and> observed_at_of (ae_derived_evidence e) = t"

lemma short_times: "trim ''1767576600'' = ''1767576600''" "trim ''local_price_change'' = ''local_price_change''"
  by (rule printable_text(1), simp add: printable_def)+

lemma validated_rule_id_text: "validated_rule_id v = Ok t \<Longrightarrow> text_str t = trim v"
  by (cases "non_empty_text_new v"; cases "chars_of (trim v)")
    (auto simp: validated_rule_id_def non_empty_text_new_eq_Ok split: if_splits)

lemma sample_price_event: "\<exists>e. price_event_at ''1767576600'' e"
proof -
  obtain e where e: "price_core_event (\<lambda>x. replicate 32 0)
     (window_evidence_new (sample_endpoint 2000 lit_ten) (sample_endpoint 3000 lit_eleven))
     sample_price_rule 1 (monitor_transition.Triggered lit_tenth) (sample_cursor 4000)
     sample_continuity ''1767576600'' = Ok e"
    using sample_event by blast
  obtain i r s inp where r: "price_core_identity (\<lambda>x. replicate 32 0) sample_price_rule 1 = Ok r"
    and n: "anomaly_event_new (\<lambda>x. replicate 32 0) i r anomaly_transition.Triggered s inp ''1767576600'' = Ok e"
    using e unfolding price_core_event_def by (auto simp: rbind_eq_Ok)
  obtain x d where d: "source_evidence_new LocalAnalysis ''1767576600'' (event_id_str x) = Ok d"
    and f: "ae_rule e = r" "ae_transition e = anomaly_transition.Triggered" "ae_derived_evidence e = d"
    using n by (auto simp: anomaly_event_new_eq_Ok)
  have "observed_at_of d = ''1767576600''" using source_evidence_new_ok [OF d] by (simp add: short_times)
  moreover have "text_str (ri_id r) = ''local_price_change''" "ri_revision r = PositiveU32 1"
    using r by (auto simp: price_core_identity_def from_canonical_definition_def anomaly_rule_identity_new_def
        res_simps short_times dest!: validated_rule_id_text)
  ultimately show ?thesis
    using event_deserialize_aux [OF n] f by (auto simp: price_event_at_def)
qed

lemma analysis_json_reads:
  "get_str (analysis_json e) 0 ''type'' = Some ''analysis''"
  "get_str (analysis_json e) 0 ''instrument'' = Some (canonical_equity_label (ae_instrument e))"
  "get_str (analysis_json e) 0 ''observed_at_utc'' = Some (observed_at_of (ae_derived_evidence e))"
  "get_bool (analysis_json e) 0 ''admitted'' = Some True"
  "raw \<noteq> [] \<Longrightarrow> sj_from_slice (analysis_json e) raw = Some 0"
  by (simp_all add: analysis_json_def get_str_def get_bool_def)

lemma analysis_json_event:
  assumes "price_event_at t e"
  shows "admitted_analysis_event (\<lambda>x. replicate 32 0) (analysis_json e) 0
    (canonical_equity_label (ae_instrument e)) = Ok e"
  using assms
  by (simp add: admitted_analysis_event_def analysis_json_reads)
     (simp add: analysis_json_def price_event_at_def ok_or_def agent_expected_rule_def)

definition sample_frame_event :: "anomaly_event \<Rightarrow> envelope" where
  "sample_frame_event e =
     \<lparr>en_protocol_version = protocol_version, en_event_id = event_id_str (ae_event_id e),
      en_cursor = Some \<lparr>ec_generation = ''g'', ec_sequence = 1\<rparr>, en_event_kind = ''analysis'',
      en_provider = ''LocalAnalysis'', en_instrument = canonical_equity_label (ae_instrument e),
      en_observed_at = observed_at_of (ae_derived_evidence e), en_source_at = '''', en_admission = 1,
      en_payload = Some \<lparr>cp_schema = ''magic.market.monitor.'' @ ''analysis'', cp_schema_version = 1,
        cp_content_type = canonical_json_content_type, cp_data = [123, 125]\<rparr>\<rparr>"

lemma sample_frame_event_eq:
  assumes "price_event_at t e"
  shows "event_from_frame (\<lambda>x. replicate 32 0) (analysis_json e) now ''g'' 1 [123, 125]
    = Ok (sample_frame_event e)"
  using analysis_json_event [OF assms]
  by (simp add: event_from_frame_def analysis_json_reads ok_or_def Let_def event_admission_def
      frame_admitted_def sample_frame_event_def)

lemma sample_frame_published:
  assumes "price_event_at ''1767576600'' e"
  shows "\<exists>s'. publish (\<lambda>x. replicate 32 0) (analysis_json e) (\<lambda>_. 1) sample_hub 1 sample_serving
    (sample_frame_event e) = Some (s', Ok 1)"
proof -
  let ?sha = "\<lambda>x :: u8 list. replicate 32 (0 :: u8)"
  have t: "observed_at_of (ae_derived_evidence e) = ''1767576600''"
    and w: "anomaly_event_deserialize ?sha e = Ok e"
    using assms by (simp_all add: price_event_at_def)
  have "anomaly_from_value ?sha (analysis_json e) 8 = Ok e"
    by (simp add: anomaly_from_value_def analysis_json_def w)
  from hex_event_id_nonblank [OF anomaly_from_value_identity [OF this]]
  have i: "trim (event_id_str (ae_event_id e)) \<noteq> ''''" .
  have l: "trim (canonical_equity_label (ae_instrument e)) \<noteq> ''''"
    by (rule visible_start_trim)
      (simp add: canonical_equity_label_def Let_def visible_start_def utf8_width_def is_whitespace_def
        split: asset_class.splits)
  have g: "trim ''analysis'' = ''analysis''" "trim ''g'' = ''g''" by (rule printable_text(1), simp add: printable_def)+
  have p: "trim (''magic.market.monitor.'' @ ''analysis'') \<noteq> ''''"
    by (rule visible_start_trim [OF visible_schema])
  have v: "validate_admitted_analysis_event ?sha (analysis_json e) (sample_frame_event e) 0 = Ok ()"
    by (rule analysis_agrees [OF analysis_json_event [OF assms]])
      (simp_all add: sample_frame_event_def analysis_json_reads)
  have "validate_event ?sha (analysis_json e) (sample_frame_event e) 64 = Ok ()"
    using v i l g p short_times t
    by (simp add: validate_event_def envelope_identity_ok_def validate_envelope_parts_def
        sample_frame_event_def ok_or_def validate_payload_def agent_admission_state
        validate_admitted_tdx_event_def analysis_json_reads)
  then have "is_next_event ?sha (analysis_json e) (\<lambda>_. 1) sample_hub 1 sample_serving (sample_frame_event e)"
    by (simp add: is_next_event_def sample_hub_def sample_serving_def drain_command_def sample_connected_def
        hub_state_new_def cursor_of_def sample_frame_event_def)
  then show ?thesis
    using publish_outcome [OF sample_serving_inv, of ?sha "analysis_json e" 1 "sample_frame_event e"]
    by (metis cursor_of_def sample_frame_event_def envelope.select_convs(3) option.sel event_cursor.select_convs(2))
qed

theorem frame_event_accepted_witness:
  "\<exists>e. price_event_at ''1767576600'' e
     \<and> validate_event (\<lambda>x. replicate 32 0) (analysis_json e) (sample_frame_event e) 64 = Ok ()
     \<and> validate_event (\<lambda>x. replicate 32 0) (analysis_json e) (sample_frame_event e) 1 \<noteq> Ok ()"
proof -
  obtain e where e: "price_event_at ''1767576600'' e" using sample_price_event by blast
  have g: "visible_start ''g''" by (simp add: visible_start_def utf8_width_def is_whitespace_def)
  have k: "trim ''analysis'' = ''analysis''" by (rule printable_text(1), simp add: printable_def)
  have l: "trim (canonical_equity_label (ae_instrument e)) \<noteq> ''''"
    by (rule visible_start_trim)
      (simp add: canonical_equity_label_def Let_def visible_start_def utf8_width_def is_whitespace_def
        split: asset_class.splits)
  show ?thesis
    using e l k short_times frame_event_accepted [OF sample_frame_event_eq [OF e, of undefined] g one_neq_zero]
    by (intro exI [of _ e]) (simp add: sample_frame_event_def price_event_at_def analysis_json_reads)
qed


section \<open>Admitted analysis events\<close>

text \<open>C16: An event of the local analysis that an agent publishes as admitted carries a core anomaly
  event: the member \<open>anomaly_event\<close> of the \<open>update\<close> object of its JSON payload. The rule of that event
  is the one of the update's family (price: \<open>local_price_change\<close>, amount: \<open>local_amount_spike\<close>,
  volume: \<open>local_volume_spike\<close>) at the update's rule version; the instrument and the time of the
  envelope are those of the anomaly event; and the identifier of the envelope is the digest of the
  anomaly event's instrument, rule, transition, stream cursor and inputs.\<close>

theorem published_analysis_event:
  assumes p: "publish sha js elen hub session s e = Some (s', Ok n)"
    and l: "en_provider e = ''LocalAnalysis''" and a: "admission_state_of (en_admission e) = Some Admitted"
  shows "\<exists>payload document update family revision v a. en_payload e = Some payload
     \<and> sj_from_slice js (cp_data payload) = Some document
     \<and> get_str js document ''type'' = Some ''analysis'' \<and> get_bool js document ''admitted'' = Some True
     \<and> get_str js document ''instrument'' = Some (en_instrument e)
     \<and> Option.bind (sj_get js document ''update'') (sj_as_object js) = Some update
     \<and> Option.bind (update ''family'') (sj_as_str js) = Some family
     \<and> Option.bind (update ''rule_version'') (sj_as_u64 js) = Some revision
     \<and> update ''anomaly_event'' = Some v \<and> anomaly_from_value sha js v = Ok a
     \<and> (family, text_str (ri_id (ae_rule a))) \<in> {(''price'', ''local_price_change''),
          (''amount'', ''local_amount_spike''), (''volume'', ''local_volume_spike'')}
     \<and> ucast (positive_u32_get (ri_revision (ae_rule a))) = revision
     \<and> compute_anomaly_event_id sha (ae_instrument a) (ae_rule a) (ae_transition a) (ae_stream a)
          (ie_canonical_digest (ae_input_evidence a)) = Ok (ae_event_id a)
     \<and> event_id_str (ae_event_id a) = en_event_id e
     \<and> canonical_equity_label (ae_instrument a) = en_instrument e
     \<and> observed_at_of (ae_derived_evidence a) = en_observed_at e
     \<and> ae_transition a \<in> {anomaly_transition.Triggered, anomaly_transition.Rearmed}"
proof -
  have "validate_event sha js e (eh_maximum_payload_bytes hub) = Ok ()"
    using p by (auto simp: publish_def split: rres.splits)
  then obtain payload where ep: "en_payload e = Some payload"
    and v: "validate_admitted_tdx_event sha js e payload = Ok ()"
    using l a by (auto simp: validate_event_def validate_envelope_parts_def res_simps split: if_splits)
  then obtain document where d: "sj_from_slice js (cp_data payload) = Some document"
      "get_str js document ''type'' = Some (en_event_kind e)" "get_str js document ''instrument'' = Some (en_instrument e)"
    and w: "validate_admitted_analysis_event sha js e document = Ok ()"
    using l by (auto simp: validate_admitted_tdx_event_def res_simps split: if_splits)
  from w have k: "en_event_kind e = ''analysis''" "get_bool js document ''admitted'' = Some True"
    by (auto simp: validate_admitted_analysis_event_def split: if_splits)
  from w obtain update family revision v rule a where
      u: "Option.bind (sj_get js document ''update'') (sj_as_object js) = Some update"
      "Option.bind (update ''family'') (sj_as_str js) = Some family"
      "Option.bind (update ''rule_version'') (sj_as_u64 js) = Some revision"
      "update ''anomaly_event'' = Some v" "expected_rule_of family = Ok rule"
    and v: "anomaly_from_value sha js v = Ok a"
    and m: "text_str (ri_id (ae_rule a)) = rule" "ucast (positive_u32_get (ri_revision (ae_rule a))) = revision"
      "canonical_equity_label (ae_instrument a) = en_instrument e"
      "event_id_str (ae_event_id a) = en_event_id e" "observed_at_of (ae_derived_evidence a) = en_observed_at e"
      "ae_transition a \<in> {anomaly_transition.Triggered, anomaly_transition.Rearmed}"
    by (auto simp: validate_admitted_analysis_event_def res_simps simp del: bind_eq_Some_conv split: if_splits)
  have "(family, rule) \<in> {(''price'', ''local_price_change''), (''amount'', ''local_amount_spike''),
      (''volume'', ''local_volume_spike'')}"
    using u(5) by (auto simp: expected_rule_of_def split: if_splits)
  with anomaly_from_value_identity [OF v] p d k u(1-4) v m show ?thesis
    using ep by (intro exI [of _ payload] exI [of _ document] exI [of _ update] exI [of _ family]
      exI [of _ revision] exI [of _ v] exI [of _ a]) simp
qed

theorem published_analysis_event_witness:
  "\<exists>(e :: anomaly_event) (a :: anomaly_event). price_event_at ''1767576600'' e \<and> event_id_str (ae_event_id a) = event_id_str (ae_event_id e)
     \<and> observed_at_of (ae_derived_evidence a) = ''1767576600''"
proof -
  obtain e where e: "price_event_at ''1767576600'' e" using sample_price_event by blast
  obtain s' where "publish (\<lambda>x. replicate 32 0) (analysis_json e) (\<lambda>_. 1) sample_hub 1 sample_serving
    (sample_frame_event e) = Some (s', Ok 1)" using sample_frame_published [OF e] by blast
  from published_analysis_event [OF this] obtain a :: anomaly_event where "event_id_str (ae_event_id a) = event_id_str (ae_event_id e)"
    "observed_at_of (ae_derived_evidence a) = ''1767576600''"
    using e by (auto simp: sample_frame_event_def agent_admission_state price_event_at_def)
  then show ?thesis using e by blast
qed

end
