(* ===== verification/Agent_Delivery.thy ===== *)
theory Agent_Delivery
  imports Agent_Protocol Agent_Properties
begin

text \<open>
  Delivery of the agent's frames over connections that break: what every reachable state of the
  agent and the hub together satisfies, with a run in which an acknowledgement is lost and the
  frame is still published once.
\<close>

section \<open>A run that loses an acknowledgement\<close>

definition run_client :: agent_client where
  "run_client = \<lparr>ac_generation_prefix = ''p'', ac_watchlist_revision = 0,
     ac_watchlist_instruments = [''EQUITY:SH:600396''], ac_maximum_watchlist_instruments = 2\<rparr>"

definition run_hub :: event_hub where
  "run_hub = sample_hub\<lparr>eh_maximum_payload_bytes := 4096, eh_agent_command_capacity := 4\<rparr>"

definition run_json :: "nat serde_lib" where
  "run_json = \<lparr>sj_from_slice = (\<lambda>raw. if raw = [] then None else Some 0),
     sj_get = (\<lambda>d f. if f = ''type'' then Some 1 else None),
     sj_as_str = (\<lambda>d. if d = 1 then Some ''k'' else None), sj_as_bool = (\<lambda>_. None),
     sj_as_u64 = (\<lambda>_. None), sj_as_object = (\<lambda>_. None), sj_anomaly_wire = (\<lambda>_. None)\<rparr>"

definition run_event :: envelope where
  "run_event = \<lparr>en_protocol_version = protocol_version, en_event_id = ''p:waiting:1'',
     en_cursor = Some \<lparr>ec_generation = ''p:waiting'', ec_sequence = 1\<rparr>, en_event_kind = ''k'',
     en_provider = ''LocalTerminal'', en_instrument = ''TDX.LOCAL'', en_observed_at = ''t'',
     en_source_at = '''', en_admission = 2,
     en_payload = Some \<lparr>cp_schema = ''magic.market.monitor.k'', cp_schema_version = 1,
       cp_content_type = canonical_json_content_type, cp_data = [123]\<rparr>\<rparr>"

lemma run_trims [simp]:
  "trim ''p:waiting'' = ''p:waiting''" "trim ''p:waiting:1'' = ''p:waiting:1''" "trim ''TDX.LOCAL'' = ''TDX.LOCAL''"
  "trim ''magic.market.monitor.k'' = ''magic.market.monitor.k''"
  "trim ''magic-market-tdx-agent'' = ''magic-market-tdx-agent''"
  "trim ''magic.market.tdx_agent_evidence'' = ''magic.market.tdx_agent_evidence''"
  by (rule printable_text(1), simp add: printable_def)+

lemma run_event_valid: "validate_event sha js run_event 4096 = Ok ()"
  by (simp add: validate_event_def run_event_def envelope_identity_ok_def validate_envelope_parts_def
      ok_or_def validate_payload_def admission_state_of_def)

lemma run_event_built:
  "event_from_frame sha run_json ''t'' ''p:waiting'' 1 [123] = Ok run_event"
  by (simp add: event_from_frame_def run_json_def get_str_def ok_or_def Let_def event_admission_def
      frame_admitted_def run_event_def dec.simps digit_char_def char_of_def bit_0)

lemma run_hello: "validate_hello (client_hello run_client ''p:waiting'') 4096 = Ok ()"
  by (simp add: validate_hello_def client_hello_def run_client_def ok_or_def validate_payload_def
      validate_monitor_watchlist_def agent_evidence_def json_quoted_def as_bytes_def)

definition run_connected :: hub_state where
  "run_connected = hub_state_new\<lparr>hs_generation := Some ''p:waiting'', hs_agent_session := Some 1,
     hs_agent_commands := Some \<lparr>cc_capacity = 4, cc_queue = [Ack ''p:waiting'' 0], cc_closed = False\<rparr>,
     hs_maximum_watchlist_instruments := 2, hs_desired_instruments := [''EQUITY:SH:600396''],
     hs_applied_instruments := [''EQUITY:SH:600396''], hs_next_session := 2,
     hs_agent_connections_total := 1\<rparr>"

lemma hello_fields [simp]:
  "ah_terminal_generation (client_hello client g) = g"
  "ah_watchlist_revision (client_hello client g) = ac_watchlist_revision client"
  "ah_watchlist_instruments (client_hello client g) = ac_watchlist_instruments client"
  "ah_maximum_watchlist_instruments (client_hello client g) = ac_maximum_watchlist_instruments client"
  by (simp_all add: client_hello_def)

lemmas open_simps = open_stream_defs connect_agent_def Let_def enter_generation_def same_generation_def
  checked_add_def saturating_add_def channel_new_def send_command_def try_send_def

lemma run_connects:
  "open_stream run_hub hub_state_new (Hello (client_hello run_client ''p:waiting''))
     = (run_connected, Ok (1, ''p:waiting''))"
  by (simp add: open_simps run_hub_def sample_hub_def run_hello run_client_def [THEN arg_cong, of ac_watchlist_revision]
      run_client_def [THEN arg_cong, of ac_watchlist_instruments]
      run_client_def [THEN arg_cong, of ac_maximum_watchlist_instruments] hub_state_new_def run_connected_def)

lemma run_connected_inv: "hub_inv (\<lambda>_. 1) run_hub run_connected"
  by (simp add: hub_inv_def hub_limits_ok_def run_hub_def sample_hub_def run_connected_def
      lane_ok_def agent_ok_def hub_state_new_def watchlist_ok_def)

definition run_published :: hub_state where
  "run_published = run_connected\<lparr>hs_latest_sequence := 1, hs_events_published_total := 1,
     hs_replay_bytes := 1, hs_replay := [run_event]\<rparr>"

lemma run_publishes:
  "publish (\<lambda>_. []) run_json (\<lambda>_. 1) run_hub 1 run_connected run_event = Some (run_published, Ok 1)"
proof -
  have e: "en_cursor run_event = Some \<lparr>ec_generation = ''p:waiting'', ec_sequence = 1\<rparr>"
    by (simp add: run_event_def)
  show ?thesis
    by (simp add: publish_def run_hub_def sample_hub_def run_event_valid e Let_def same_generation_def
        checked_add_def saturating_add_def run_connected_def hub_state_new_def evict_events.simps
        run_published_def)
qed

definition run_answered :: hub_state where
  "run_answered = run_published\<lparr>hs_agent_commands := Some \<lparr>cc_capacity = 4,
     cc_queue = [Ack ''p:waiting'' 0, Ack ''p:waiting'' 1], cc_closed = False\<rparr>\<rparr>"

lemma run_answers: "answer_agent run_published 1 ''p:waiting'' (Ok 1) = Ok (run_answered, True)"
  by (simp add: answer_agent_def send_command_def try_send_def run_published_def run_connected_def run_answered_def)

lemma run_reconnects:
  "\<exists>s. open_stream run_hub (disconnect_agent run_answered 1) (Hello (client_hello run_client ''p:waiting''))
     = (s, Ok (2, ''p:waiting'')) \<and> hs_latest_sequence s = 1"
  by (simp add: open_simps run_hub_def sample_hub_def run_hello run_client_def [THEN arg_cong, of ac_watchlist_revision]
      run_client_def [THEN arg_cong, of ac_watchlist_instruments]
      run_client_def [THEN arg_cong, of ac_maximum_watchlist_instruments] hub_state_new_def run_connected_def
      run_published_def run_answered_def disconnect_agent_def)

abbreviation proto_reaches ::
  "(u8 list \<Rightarrow> u8 list) \<Rightarrow> 'j serde_lib \<Rightarrow> (envelope \<Rightarrow> usize) \<Rightarrow> event_hub \<Rightarrow> agent_client
     \<Rightarrow> proto \<Rightarrow> proto \<Rightarrow> bool" where
  "proto_reaches sha js elen hub client \<equiv> (proto_step sha js elen hub client)\<^sup>*\<^sup>*"

definition run_start :: proto where
  "run_start = proto_start run_client hub_state_new"

definition run_frame :: pending_frame where
  "run_frame = \<lparr>pf_raw = [123], pf_sequence = 1\<rparr>"

definition run_agent :: agent_state where
  "run_agent = \<lparr>as_accepted = 0, as_pending = None, as_monitor_generation = None, as_generation = ''p:waiting''\<rparr>"

abbreviation run_step :: "proto \<Rightarrow> proto \<Rightarrow> bool" where
  "run_step \<equiv> proto_step (\<lambda>_. []) run_json (\<lambda>_. 1) run_hub run_client"

definition run_1 :: proto where
  "run_1 = \<lparr>pr_hub = run_connected, pr_agent = run_agent, pr_phase = Some (Opening None), pr_up = [],
     pr_down = [(''p:waiting'', 0)], pr_task = Some (1, ''p:waiting''), pr_outcome = None,
     pr_taken = [], pr_published = []\<rparr>"

definition run_2 :: proto where
  "run_2 = run_1\<lparr>pr_phase := Some Selecting, pr_down := []\<rparr>"

definition run_3 :: proto where
  "run_3 = run_2\<lparr>pr_agent := run_agent\<lparr>as_pending := Some run_frame\<rparr>, pr_phase := Some (AwaitEvent None),
     pr_up := [BodyEvent run_event], pr_taken := [[123]]\<rparr>"

definition run_4 :: proto where
  "run_4 = run_3\<lparr>pr_hub := run_answered, pr_up := [], pr_down := [(''p:waiting'', 1)], pr_published := [[123]]\<rparr>"

definition run_5 :: proto where
  "run_5 = run_4\<lparr>pr_phase := None, pr_down := []\<rparr>"

definition run_6 :: proto where
  "run_6 = run_5\<lparr>pr_hub := disconnect_agent run_answered 1, pr_task := None\<rparr>"

lemmas run_states = run_1_def run_2_def run_3_def run_4_def run_5_def run_6_def

lemma run_step_1: "run_step run_start run_1"
proof -
  have o: "open_stream run_hub (pr_hub run_start) (Hello (client_hello run_client (as_generation (pr_agent run_start))))
    = (run_connected, Ok (1, ''p:waiting''))"
    using run_connects by (simp add: run_start_def proto_start_def forward_start_def run_client_def)
  have "run_start\<lparr>pr_hub := run_connected, pr_phase := Some (Opening None), pr_up := [],
          pr_down := [(''p:waiting'', hs_latest_sequence run_connected)], pr_task := Some (1, ''p:waiting'')\<rparr> = run_1"
    by (simp add: run_start_def proto_start_def forward_start_def run_1_def run_agent_def run_client_def
        run_connected_def hub_state_new_def)
  with p_connect [OF _ _ open_stream_opens [OF o]] show ?thesis by (simp add: run_start_def proto_start_def)
qed

lemmas run_turn_simps = after_turn_def settle_def took_frame_def between_sessions_def session_turn_def wait_turn_def
  await_ack_def initial_acked_def reconcile_def end_or_continue_def loop_head_def send_body_def run_agent_def

lemma run_step_2: "run_step run_1 run_2"
  by (rule p_acknowledged [where phase = "Opening None" and g = "''p:waiting''" and n = 0 and down = "[]" and now = "''t''"
        and open_queue = True and st = run_agent and r = "Continue Selecting []"])
    (simp_all add: run_states run_turn_simps)

lemma run_takes:
  "take_frame (\<lambda>_. []) run_json ''t'' True run_agent [123]
     = (run_agent\<lparr>as_pending := Some run_frame\<rparr>, Continue (AwaitEvent None) [BodyEvent run_event])"
proof -
  have "frame_generation run_json [123] = Ok None"
    by (simp add: frame_generation_def run_json_def ok_or_def)
  then show ?thesis
    by (simp add: take_frame_def queue_frame_def checked_add_def run_frame_def run_agent_def loop_head_def
        send_body_def run_event_built Let_def)
qed

lemma run_step_3: "run_step run_2 run_3"
  by (rule p_turn [where phase = Selecting and i = "FrameReady [123]" and now = "''t''"
        and open_queue = True and st = "run_agent\<lparr>as_pending := Some run_frame\<rparr>"
        and r = "Continue (AwaitEvent None) [BodyEvent run_event]"])
    (simp_all add: run_states run_takes session_turn_def is_ack_def,
     simp_all add: after_turn_def settle_def took_frame_def run_agent_def run_frame_def)

lemma run_step_4: "run_step run_3 run_4"
proof -
  have d: "cp_data (the (en_payload run_event)) = [123]" "ec_generation (cursor_of run_event) = ''p:waiting''"
    by (simp_all add: run_event_def cursor_of_def)
  have p: "pr_task run_3 = Some (1, ''p:waiting'')" "pr_up run_3 = BodyEvent run_event # []"
    "pr_hub run_3 = run_connected"
    by (simp_all add: run_states)
  from p_event [OF p(1,2), unfolded p(3), OF run_publishes rtranclp.rtrancl_refl run_answers] show ?thesis
    by (simp add: run_states d run_agent_def)
qed

lemma run_step_5: "run_step run_4 run_5"
  by (rule p_turn [where phase = "AwaitEvent None" and i = "FromServer TimedOut" and now = "''t''"
        and open_queue = True and st = "run_agent\<lparr>as_pending := Some run_frame\<rparr>" and r = "Broken CommandTimeout"])
    (simp_all add: run_states run_turn_simps is_ack_def forward_broken_def)

lemma run_step_6: "run_step run_5 run_6"
proof -
  have "pr_task run_5 = Some (1, ''p:waiting'')" by (simp add: run_states)
  from p_gone [OF this] show ?thesis by (simp add: run_states)
qed

lemma proto_inv_reaches:
  assumes "proto_reaches sha js elen hub client x y" and "proto_inv elen hub client x"
  shows "proto_inv elen hub client y"
  using assms by (induction rule: rtranclp_induct) (blast intro: proto_inv_step)+

lemma run_reaches: "\<exists>s. hs_latest_sequence s = 1 \<and> proto_reaches (\<lambda>_. []) run_json (\<lambda>_. 1) run_hub run_client run_start
    (run_6\<lparr>pr_hub := s, pr_agent := run_agent\<lparr>as_accepted := 1\<rparr>, pr_phase := Some Selecting,
       pr_task := Some (2, ''p:waiting'')\<rparr>)"
proof -
  obtain s where s: "open_stream run_hub (disconnect_agent run_answered 1) (Hello (client_hello run_client ''p:waiting''))
     = (s, Ok (2, ''p:waiting''))" "hs_latest_sequence s = 1" using run_reconnects by blast
  let ?a = "run_6\<lparr>pr_hub := s, pr_phase := Some (Opening None), pr_down := [(''p:waiting'', 1)],
    pr_task := Some (2, ''p:waiting'')\<rparr>"
  let ?b = "run_6\<lparr>pr_hub := s, pr_agent := run_agent\<lparr>as_accepted := 1\<rparr>, pr_phase := Some Selecting,
       pr_task := Some (2, ''p:waiting'')\<rparr>"
  have o: "open_stream run_hub (pr_hub run_6) (Hello (client_hello run_client (as_generation (pr_agent run_6))))
     = (s, Ok (2, ''p:waiting''))"
    using s(1) by (simp add: run_states run_agent_def)
  from p_connect [OF _ _ open_stream_opens [OF o]] have "run_step run_6 ?a" by (simp add: run_states s(2))
  moreover have "run_step ?a ?b"
    by (rule p_acknowledged [where phase = "Opening None" and g = "''p:waiting''" and n = 1 and down = "[]"
          and now = "''t''" and open_queue = True and st = "run_agent\<lparr>as_accepted := 1\<rparr>"
          and r = "Continue Selecting []"])
      (simp_all add: run_states run_turn_simps run_frame_def)
  ultimately have "proto_reaches (\<lambda>_. []) run_json (\<lambda>_. 1) run_hub run_client run_start ?b"
    using run_step_1 run_step_2 run_step_3 run_step_4 run_step_5 run_step_6
    by (meson r_into_rtranclp rtranclp.rtrancl_into_rtrancl)
  with s(2) show ?thesis by blast
qed

section \<open>Delivery\<close>

text \<open>C3: every frame the agent takes reaches the hub at most once and in order, whatever
  connections break and whatever acknowledgements are lost: what the hub has published of the
  current generation is exactly what the agent took, or all of it but the one frame still pending.
  The hub's sequence counts them, and its replay holds the last of them.\<close>

theorem frames_delivered_once:
  assumes "hub_inv elen hub s" and "hs_generation s \<noteq> Some (ac_generation_prefix client @ '':waiting'')"
    and "proto_reaches sha js elen hub client (proto_start client s) y"
  shows "(pr_published y = pr_taken y
        \<or> (\<exists>f. as_pending (pr_agent y) = Some f \<and> pr_taken y = pr_published y @ [pf_raw f]))
    \<and> (as_pending (pr_agent y) = None \<longrightarrow> pr_published y = pr_taken y)
    \<and> (hs_generation (pr_hub y) = Some (as_generation (pr_agent y)) \<longrightarrow>
        unat (hs_latest_sequence (pr_hub y)) = length (pr_published y)
        \<and> (\<exists>evicted. pr_published y = evicted @ map event_data (hs_replay (pr_hub y))))"
proof -
  have "core_inv elen hub client y"
    using proto_inv_reaches [OF assms(3) proto_inv_start [OF assms(1,2)]] by (simp add: proto_inv_def)
  then have "counts_ok (pr_agent y) (pr_taken y) (pr_published y)"
    "lane_matches (pr_hub y) (pr_agent y) (pr_published y)"
    by (simp_all add: core_inv_def)
  then show ?thesis
    by (cases "as_pending (pr_agent y)") (auto simp: counts_ok_def lane_matches_def)
qed

lemma run_start_ok:
  "hub_inv (\<lambda>_. 1) run_hub hub_state_new"
  "hs_generation hub_state_new \<noteq> Some (ac_generation_prefix run_client @ '':waiting'')"
  by (simp_all add: hub_inv_def hub_limits_ok_def run_hub_def sample_hub_def lane_ok_def agent_ok_def
      hub_state_new_def watchlist_ok_def)

theorem frames_delivered_once_witness:
  "\<exists>y. proto_reaches (\<lambda>_. []) run_json (\<lambda>_. 1) run_hub run_client (proto_start run_client hub_state_new) y
    \<and> pr_published y = [[123]] \<and> pr_taken y = [[123]] \<and> hs_latest_sequence (pr_hub y) = 1"
proof -
  obtain s where s: "hs_latest_sequence s = 1"
    and r: "proto_reaches (\<lambda>_. []) run_json (\<lambda>_. 1) run_hub run_client run_start
    (run_6\<lparr>pr_hub := s, pr_agent := run_agent\<lparr>as_accepted := 1\<rparr>, pr_phase := Some Selecting,
       pr_task := Some (2, ''p:waiting'')\<rparr>)" (is "proto_reaches _ _ _ _ _ _ ?y")
    using run_reaches by blast
  note r' = r [unfolded run_start_def]
  have t: "pr_taken ?y = [[123]]" "as_pending (pr_agent ?y) = None" by (simp_all add: run_states run_agent_def)
  with frames_delivered_once [OF run_start_ok r'] have "pr_published ?y = [[123]]" by metis
  with t s r' show ?thesis by (intro exI [of _ ?y]) simp
qed

text \<open>C9: over any such run the agent never finds its count in contradiction with the hub's: the
  client does not stop with a sequence contradiction.\<close>

theorem no_sequence_contradiction:
  assumes "hub_inv elen hub s" and "hs_generation s \<noteq> Some (ac_generation_prefix client @ '':waiting'')"
    and "proto_reaches sha js elen hub client (proto_start client s) y"
  shows "pr_outcome y \<noteq> Some (ForwardFailed (SequenceContradiction i j))"
  using proto_inv_reaches [OF assms(3) proto_inv_start [OF assms(1,2)]]
  by (simp add: proto_inv_def outcome_ok_def)

theorem no_sequence_contradiction_witness:
  "\<exists>y. proto_reaches (\<lambda>_. []) run_json (\<lambda>_. 1) run_hub run_client (proto_start run_client hub_state_new) y
    \<and> as_accepted (pr_agent y) = 1 \<and> pr_outcome y \<noteq> Some (ForwardFailed (SequenceContradiction 0 1))"
proof -
  obtain s where r: "proto_reaches (\<lambda>_. []) run_json (\<lambda>_. 1) run_hub run_client run_start
    (run_6\<lparr>pr_hub := s, pr_agent := run_agent\<lparr>as_accepted := 1\<rparr>, pr_phase := Some Selecting,
       pr_task := Some (2, ''p:waiting'')\<rparr>)" (is "proto_reaches _ _ _ _ _ _ ?y")
    using run_reaches by blast
  note r' = r [unfolded run_start_def]
  have "as_accepted (pr_agent ?y) = 1" by simp
  with r' no_sequence_contradiction [OF run_start_ok r'] show ?thesis by blast
qed

text \<open>C24: an agent that reconnects while the hub still holds its previous session, because the
  hub has not seen the old connection end, is refused with already-exists; the client classifies the
  refusal as fatal, so it gives up instead of trying again.\<close>

theorem reconnect_to_held_session_fatal:
  assumes "hs_agent_session s = Some session"
    and "validate_hello (client_hello client (as_generation st)) (eh_maximum_payload_bytes hub) = Ok ()"
  shows "\<exists>x. open_stream hub s (Hello (client_hello client (as_generation st))) = (s, Err x)
    \<and> st_code x = AlreadyExists
    \<and> forward_broken st (TransportError x) = ForwardDone (ForwardFailed (TransportError x))"
  using assms by (simp add: open_stream_defs connect_agent_def forward_broken_def transient_code_def status_of_def)

theorem reconnect_to_held_session_fatal_witness:
  "\<exists>x. open_stream run_hub run_answered (Hello (client_hello run_client ''p:waiting'')) = (run_answered, Err x)
    \<and> st_code x = AlreadyExists"
proof -
  have "hs_agent_session run_answered = Some 1" by (simp add: run_answered_def run_published_def run_connected_def)
  moreover have "validate_hello (client_hello run_client (as_generation run_agent)) (eh_maximum_payload_bytes run_hub) = Ok ()"
    using run_hello by (simp add: run_agent_def run_hub_def)
  ultimately show ?thesis using reconnect_to_held_session_fatal [of run_answered 1 run_client run_agent run_hub]
    by (auto simp: run_agent_def)
qed

end
