(* ===== verification/Supervisor.thy ===== *)
theory Supervisor
  imports MM_Prelude
begin

text \<open>
  The lifecycle machine of the local terminal's bridge, \<open>magic-tdx-local-rs\<close> \<open>supervisor.rs\<close>:
  states, events and actions with the code's constructors, the transition function clause by
  clause, and the step relation of its runs.
\<close>

section \<open>The machine\<close>

datatype stop_destination = ToWaitingForTerminal | ToStopped

datatype supervisor_state =
    Disabled
  | Discovering
  | WaitingForTerminal
  | ValidatingVersion
  | Starting
  | Handshaking
  | Running
  | BackingOff
  | CircuitOpen
  | Stopping stop_destination
  | Stopped

datatype supervisor_event =
    Enable
  | Rediscover
  | DiscoveryFound
  | DiscoveryAbsent
  | DiscoveryRejected
  | DiscoveryFailed
  | ValidationAccepted
  | ValidationRejected
  | BridgeStarted
  | BridgeStartFailed
  | HelloAccepted
  | HandshakeFailed
  | RuntimeFailed
  | StabilityProved
  | BackoffElapsed
  | TerminalLost
  | StopRequested
  | StopCompleted
  | CircuitReset

datatype supervisor_action =
    NoAction
  | RunDiscoveryProbe
  | WaitForTerminal
  | ValidateVersion
  | StartBridge
  | AwaitHello
  | PublishRunning u64
  | ScheduleBackoff u32
  | OpenCircuit u32
  | StopBridge stop_destination
  | PublishStopped

record supervisor_transition =
  tr_previous :: supervisor_state
  tr_current :: supervisor_state
  tr_action :: supervisor_action

record supervisor_machine =
  sm_state :: supervisor_state
  sm_max_restart_attempts :: u32
  sm_consecutive_failures :: u32
  sm_generation :: u64

datatype transition_error = InvalidTransition supervisor_state supervisor_event | GenerationExhausted

definition supervisor_new :: "u32 \<Rightarrow> supervisor_machine" where
  "supervisor_new max_restart_attempts =
     \<lparr>sm_state = Disabled, sm_max_restart_attempts = max_restart_attempts,
      sm_consecutive_failures = 0, sm_generation = 0\<rparr>"

text \<open>Entering a state, with the record of the transition.\<close>

definition enter ::
  "supervisor_machine \<Rightarrow> supervisor_state \<Rightarrow> supervisor_action
     \<Rightarrow> supervisor_machine \<times> (supervisor_transition, transition_error) rres" where
  "enter m current action =
     (m\<lparr>sm_state := current\<rparr>,
      Ok \<lparr>tr_previous = sm_state m, tr_current = current, tr_action = action\<rparr>)"

definition restartable_failure ::
  "supervisor_machine \<Rightarrow> supervisor_machine \<times> (supervisor_transition, transition_error) rres" where
  "restartable_failure m =
     (case checked_add (sm_consecutive_failures m) 1 of
        None \<Rightarrow> enter m CircuitOpen (OpenCircuit (sm_consecutive_failures m))
      | Some count \<Rightarrow>
          let m = m\<lparr>sm_consecutive_failures := count\<rparr> in
          if sm_max_restart_attempts m < count
          then enter m CircuitOpen (OpenCircuit count)
          else enter m BackingOff (ScheduleBackoff count))"

text \<open>The states from which the loss of the terminal stops the bridge, and those from which a
  stop can be requested.\<close>

definition bridge_may_exist :: "supervisor_state \<Rightarrow> bool" where
  "bridge_may_exist s \<longleftrightarrow> s \<in> {Running, Starting, Handshaking, ValidatingVersion}"

definition stoppable :: "supervisor_state \<Rightarrow> bool" where
  "stoppable s \<longleftrightarrow> s \<in> {Discovering, WaitingForTerminal, ValidatingVersion, Starting, Handshaking,
     Running, BackingOff, CircuitOpen}"

definition transition ::
  "supervisor_machine \<Rightarrow> supervisor_event
     \<Rightarrow> supervisor_machine \<times> (supervisor_transition, transition_error) rres" where
  "transition m event =
     (let invalid = (m, Err (InvalidTransition (sm_state m) event)) in
      case (sm_state m, event) of
        (Disabled, Enable) \<Rightarrow> enter m Discovering RunDiscoveryProbe
      | (Stopped, Enable) \<Rightarrow> enter m Discovering RunDiscoveryProbe
      | (WaitingForTerminal, Rediscover) \<Rightarrow> enter m Discovering RunDiscoveryProbe
      | (Discovering, DiscoveryFound) \<Rightarrow> enter m ValidatingVersion ValidateVersion
      | (Discovering, DiscoveryAbsent) \<Rightarrow> enter m WaitingForTerminal WaitForTerminal
      | (Discovering, DiscoveryRejected) \<Rightarrow> enter m WaitingForTerminal WaitForTerminal
      | (Discovering, DiscoveryFailed) \<Rightarrow> restartable_failure m
      | (Starting, BridgeStartFailed) \<Rightarrow> restartable_failure m
      | (Handshaking, HandshakeFailed) \<Rightarrow> restartable_failure m
      | (Running, RuntimeFailed) \<Rightarrow> restartable_failure m
      | (ValidatingVersion, ValidationAccepted) \<Rightarrow> enter m Starting StartBridge
      | (ValidatingVersion, ValidationRejected) \<Rightarrow> enter m WaitingForTerminal WaitForTerminal
      | (Starting, BridgeStarted) \<Rightarrow> enter m Handshaking AwaitHello
      | (Handshaking, HelloAccepted) \<Rightarrow>
          (case checked_add (sm_generation m) 1 of
             None \<Rightarrow> (m, Err GenerationExhausted)
           | Some g \<Rightarrow> enter (m\<lparr>sm_generation := g\<rparr>) Running (PublishRunning g))
      | (Running, StabilityProved) \<Rightarrow> enter (m\<lparr>sm_consecutive_failures := 0\<rparr>) Running NoAction
      | (BackingOff, BackoffElapsed) \<Rightarrow> enter m Discovering RunDiscoveryProbe
      | (CircuitOpen, CircuitReset) \<Rightarrow>
          enter (m\<lparr>sm_consecutive_failures := 0\<rparr>) Discovering RunDiscoveryProbe
      | (s, TerminalLost) \<Rightarrow>
          if bridge_may_exist s
          then enter m (Stopping ToWaitingForTerminal) (StopBridge ToWaitingForTerminal) else invalid
      | (Disabled, StopRequested) \<Rightarrow> enter m Stopped PublishStopped
      | (Stopped, StopRequested) \<Rightarrow> enter m Stopped NoAction
      | (s, StopRequested) \<Rightarrow>
          if stoppable s then enter m (Stopping ToStopped) (StopBridge ToStopped) else invalid
      | (Stopping ToWaitingForTerminal, StopCompleted) \<Rightarrow> enter m WaitingForTerminal WaitForTerminal
      | (Stopping ToStopped, StopCompleted) \<Rightarrow> enter m Stopped PublishStopped
      | _ \<Rightarrow> invalid)"

section \<open>Runs\<close>

fun supervise ::
  "supervisor_machine \<Rightarrow> supervisor_event list
     \<Rightarrow> supervisor_machine \<times> (supervisor_transition, transition_error) rres list" where
  "supervise m [] = (m, [])"
| "supervise m (event # events) =
     (case transition m event of (m, r) \<Rightarrow> case supervise m events of (m, rs) \<Rightarrow> (m, r # rs))"

end
