(* ===== verification/Supervisor_Properties.thy ===== *)
theory Supervisor_Properties
  imports Supervisor
begin

text \<open>
  What every run of the supervisor's machine satisfies: the order of the actions that launch the
  bridge, the generations it publishes, and the budget of restarts against a reference count.
\<close>

section \<open>Runs\<close>

fun accepted :: "(supervisor_transition, transition_error) rres list \<Rightarrow> supervisor_transition list" where
  "accepted [] = []"
| "accepted (Ok t # rs) = t # accepted rs"
| "accepted (_ # rs) = accepted rs"

abbreviation actions :: "(supervisor_transition, transition_error) rres list \<Rightarrow> supervisor_action list" where
  "actions rs \<equiv> map tr_action (accepted rs)"

lemma accepted_append [simp]: "accepted (rs @ rs') = accepted rs @ accepted rs'"
  by (induction rs rule: accepted.induct) auto

lemma supervise_snoc:
  "supervise m (es @ [e]) =
     (case supervise m es of (m', rs) \<Rightarrow> case transition m' e of (m'', r) \<Rightarrow> (m'', rs @ [r]))"
  by (induction es arbitrary: m) (auto split: prod.splits)

text \<open>A step accepts nothing and keeps the machine, or enters the state its record names.\<close>

lemma transition_cases:
  assumes "transition m e = (m', r)"
  obtains (refused) x where "r = Err x" "m' = m"
  | (moved) t where "r = Ok t" "tr_previous t = sm_state m" "tr_current t = sm_state m'"
      "sm_max_restart_attempts m' = sm_max_restart_attempts m"
proof -
  have "(\<exists>x. r = Err x) \<and> m' = m \<or> (\<exists>t. r = Ok t \<and> tr_previous t = sm_state m \<and> tr_current t = sm_state m'
      \<and> sm_max_restart_attempts m' = sm_max_restart_attempts m)"
    using assms
    by (cases "sm_state m"; cases e)
      (auto simp: transition_def enter_def restartable_failure_def Let_def bridge_may_exist_def
        stoppable_def split: option.splits if_splits stop_destination.splits)
  then show ?thesis using that by blast
qed

section \<open>Launches\<close>

text \<open>The actions that lead into a state on the way to a running bridge.\<close>

fun launch :: "supervisor_state \<Rightarrow> supervisor_action list" where
  "launch Discovering = [RunDiscoveryProbe]"
| "launch ValidatingVersion = [RunDiscoveryProbe, ValidateVersion]"
| "launch Starting = [RunDiscoveryProbe, ValidateVersion, StartBridge]"
| "launch Handshaking = [RunDiscoveryProbe, ValidateVersion, StartBridge, AwaitHello]"
| "launch _ = []"

lemma launch_step:
  assumes "transition m e = (m', Ok t)"
  shows "launch (sm_state m') = [] \<or> (\<exists>us. launch (sm_state m) @ [tr_action t] = us @ launch (sm_state m'))"
    "tr_action t = PublishRunning g \<Longrightarrow> sm_state m = Handshaking"
  using assms
  by (cases "sm_state m"; cases e;
      auto simp: transition_def enter_def restartable_failure_def Let_def bridge_may_exist_def
        stoppable_def split: option.splits if_splits stop_destination.splits)+

fun published_generations :: "supervisor_action list \<Rightarrow> u64 list" where
  "published_generations [] = []"
| "published_generations (PublishRunning g # as) = g # published_generations as"
| "published_generations (_ # as) = published_generations as"

lemma published_generations_append [simp]:
  "published_generations (as @ bs) = published_generations as @ published_generations bs"
  by (induction as rule: published_generations.induct) auto

lemma generation_step:
  assumes "transition m e = (m', Ok t)"
  shows "published_generations [tr_action t] = [] \<and> sm_generation m' = sm_generation m
    \<or> published_generations [tr_action t] = [sm_generation m'] \<and> unat (sm_generation m') = Suc (unat (sm_generation m))"
  using assms
  by (cases "sm_state m"; cases e)
    (auto simp: transition_def enter_def restartable_failure_def Let_def bridge_may_exist_def
      stoppable_def split: option.splits if_splits stop_destination.splits dest: checked_add_unat)

lemma launched:
  assumes "supervise (supervisor_new budget) es = (m, rs)"
  shows "(\<exists>us. actions rs = us @ launch (sm_state m))
    \<and> (\<forall>us g vs. actions rs = us @ PublishRunning g # vs \<longrightarrow> (\<exists>ws. us = ws @ launch Handshaking))
    \<and> map unat (published_generations (actions rs)) = [1..<Suc (unat (sm_generation m))]"
  using assms
proof (induction es arbitrary: m rs rule: rev_induct)
  case Nil
  then show ?case by (auto simp: supervisor_new_def)
next
  case (snoc e es)
  obtain m1 rs1 r where 1: "supervise (supervisor_new budget) es = (m1, rs1)" "transition m1 e = (m, r)" "rs = rs1 @ [r]"
    using snoc.prems by (auto simp: supervise_snoc split: prod.splits)
  note IH = snoc.IH [OF 1(1)]
  show ?case
    using 1(2)
  proof (cases rule: transition_cases)
    case (refused x)
    then show ?thesis using IH 1(3) by simp
  next
    case (moved t)
    note t = 1(2) [unfolded moved(1)]
    have a: "actions rs = actions rs1 @ [tr_action t]" using moved(1) 1(3) by simp
    obtain us where us: "actions rs1 = us @ launch (sm_state m1)" using IH by blast
    have "\<exists>us. actions rs = us @ launch (sm_state m)"
      using launch_step(1) [OF t] us a by (metis append.assoc append.right_neutral)
    moreover have "\<exists>ws. us' = ws @ launch Handshaking" if "actions rs = us' @ PublishRunning g # vs" for us' g vs
    proof (cases vs rule: rev_cases)
      case Nil
      then have "tr_action t = PublishRunning g" "us' = actions rs1" using that a by auto
      then show ?thesis using launch_step(2) [OF t] us by auto
    next
      case (snoc ws x)
      then have "actions rs1 = us' @ PublishRunning g # ws" using that a by auto
      then show ?thesis using IH by blast
    qed
    moreover have "map unat (published_generations (actions rs)) = [1..<Suc (unat (sm_generation m))]"
      using generation_step [OF t] IH a by auto
    ultimately show ?thesis by blast
  qed
qed

text \<open>C27: the bridge is published as running only at the end of a complete launch (discovery probe,
  version check, start, hello) with no other accepted action in between, and the generations it is
  published under are 1, 2, 3 and so on, one after the other.\<close>

theorem running_after_launch:
  assumes "supervise (supervisor_new budget) es = (m, rs)"
  shows "(\<forall>us g vs. actions rs = us @ PublishRunning g # vs \<longrightarrow>
      (\<exists>ws. us = ws @ [RunDiscoveryProbe, ValidateVersion, StartBridge, AwaitHello]))
    \<and> map unat (published_generations (actions rs)) = [1..<Suc (unat (sm_generation m))]"
  using launched [OF assms] by simp

theorem running_after_launch_witness:
  "\<exists>m rs. supervise (supervisor_new 0) [Enable, DiscoveryFound, ValidationAccepted, BridgeStarted, HelloAccepted] = (m, rs)
    \<and> sm_state m = Running \<and> map unat (published_generations (actions rs)) = [1]"
proof -
  obtain m rs where r: "supervise (supervisor_new 0)
      [Enable, DiscoveryFound, ValidationAccepted, BridgeStarted, HelloAccepted] = (m, rs)" by fastforce
  then have "sm_state m = Running" "sm_generation m = 1"
    by (auto simp: supervisor_new_def transition_def enter_def checked_add_def)
  with running_after_launch [OF r] r show ?thesis by auto
qed

section \<open>The restart budget\<close>

text \<open>The reference: \<open>n\<close> failures since the start, the last proof of stability or the last reset of
  the circuit.\<close>

definition clears_failures :: "supervisor_transition \<Rightarrow> bool" where
  "clears_failures t \<longleftrightarrow> tr_previous t = Running \<and> tr_action t = NoAction
     \<or> tr_previous t = CircuitOpen \<and> tr_action t = RunDiscoveryProbe"

fun within_budget :: "nat \<Rightarrow> nat \<Rightarrow> supervisor_transition list \<Rightarrow> bool" where
  "within_budget budget n [] = True"
| "within_budget budget n (t # ts) =
     (case tr_action t of
        ScheduleBackoff k \<Rightarrow> unat k = Suc n \<and> Suc n \<le> budget \<and> within_budget budget (Suc n) ts
      | OpenCircuit k \<Rightarrow> unat k = min (Suc n) (2 ^ 32 - 1) \<and> budget < Suc n \<and> within_budget budget (Suc n) ts
      | _ \<Rightarrow> within_budget budget (if clears_failures t then 0 else n) ts)"

lemma failure_step:
  assumes "transition m e = (m', Ok t)" and "unat (sm_consecutive_failures m) = min n (2 ^ 32 - 1)"
  shows "case tr_action t of
      ScheduleBackoff k \<Rightarrow> unat k = Suc n \<and> Suc n \<le> unat (sm_max_restart_attempts m)
        \<and> unat (sm_consecutive_failures m') = min (Suc n) (2 ^ 32 - 1)
    | OpenCircuit k \<Rightarrow> unat k = min (Suc n) (2 ^ 32 - 1) \<and> unat (sm_max_restart_attempts m) < Suc n
        \<and> unat (sm_consecutive_failures m') = min (Suc n) (2 ^ 32 - 1)
    | _ \<Rightarrow> unat (sm_consecutive_failures m') = min (if clears_failures t then 0 else n) (2 ^ 32 - 1)"
proof -
  have u: "unat (sm_max_restart_attempts m) < 2 ^ 32" using unsigned_less [of "sm_max_restart_attempts m"] by simp
  show ?thesis
    using assms u
    by (cases "sm_state m"; cases e)
      (auto simp: transition_def enter_def restartable_failure_def Let_def bridge_may_exist_def
        stoppable_def clears_failures_def checked_add_def unat_word_ariths word_less_nat_alt
        split: option.splits if_splits stop_destination.splits)
qed

lemma supervise_within_budget:
  assumes "supervise m es = (m', rs)" and "unat (sm_consecutive_failures m) = min n (2 ^ 32 - 1)"
  shows "within_budget (unat (sm_max_restart_attempts m)) n (accepted rs)"
  using assms
proof (induction es arbitrary: m n rs)
  case (Cons e es)
  obtain m1 r rs1 where 1: "transition m e = (m1, r)" "supervise m1 es = (m', rs1)" "rs = r # rs1"
    using Cons.prems(1) by (auto split: prod.splits)
  show ?case
    using 1(1)
  proof (cases rule: transition_cases)
    case (refused x)
    then show ?thesis using Cons.IH [OF 1(2)] Cons.prems(2) 1(3) by simp
  next
    case (moved t)
    show ?thesis
      using failure_step [OF 1(1) [unfolded moved(1)] Cons.prems(2)] Cons.IH [OF 1(2)] moved(1,4) 1(3)
      by (cases "tr_action t") auto
  qed
qed simp

text \<open>C28: the machine counts failures as the reference does: over any run, a restart is scheduled
  only while the failures since the start, the last proof of stability or the last reset of the
  circuit are within the budget, with their number, and the circuit opens as soon as they exceed it.\<close>

theorem restarts_within_budget:
  assumes "supervise (supervisor_new budget) es = (m, rs)"
  shows "within_budget (unat budget) 0 (accepted rs)"
  using supervise_within_budget [OF assms, of 0] by (simp add: supervisor_new_def)

theorem restarts_within_budget_witness:
  "\<exists>m rs. supervise (supervisor_new 1) [Enable, DiscoveryFailed, BackoffElapsed, DiscoveryFailed] = (m, rs)
    \<and> sm_state m = CircuitOpen \<and> within_budget 1 0 (accepted rs)"
proof -
  obtain m rs where r: "supervise (supervisor_new 1) [Enable, DiscoveryFailed, BackoffElapsed, DiscoveryFailed] = (m, rs)"
    by fastforce
  then have "sm_state m = CircuitOpen"
    by (auto simp: supervisor_new_def transition_def enter_def restartable_failure_def checked_add_def)
  with restarts_within_budget [OF r] r show ?thesis by simp
qed

end
