(* ===== verification/Terminal_Protocol.thy ===== *)
theory Terminal_Protocol
  imports Grpc_Contracts
begin

text \<open>
  The length-prefixed protocol of the local terminal's bridge, \<open>magic-tdx-local-rs\<close>
  \<open>protocol.rs\<close>, with the admission gates of \<open>admission.rs\<close>. Readers and writers are dictionaries
  of the \<open>Read\<close> and \<open>Write\<close> methods the codec calls; JSON encoding (\<open>serde_json\<close>) is a parameter,
  and a \<open>BTreeMap\<close> is the list of its entries in key order.
\<close>

section \<open>Errors\<close>

datatype io_error = UnexpectedEof | InvalidData string | IoOther string

datatype frame_io_operation = ReadPrefix | ReadPayload | WritePrefix | WritePayload | Flush

datatype 'j protocol_error =
    InvalidFrameLimit (requested: usize) (frame_maximum: usize)
  | EmptyFrame
  | FrameTooLarge usize usize
  | EncodedFrameTooLarge usize
  | FrameIo frame_io_operation io_error
  | InvalidUtf8
  | EncodeJson 'j
  | DecodeJson 'j
  | UnsupportedProtocolVersion u16 u16
  | UnsupportedSchemaVersion u16 u16
  | InvalidHelloField string string
  | InvalidMessageField string string
  | InvalidBridgeSequence
  | BridgeSequenceGap u64 u64
  | BridgeSequenceRollback u64 u64
  | BridgeSequenceExhausted u64

definition bridge_protocol_version :: u16 where "bridge_protocol_version = 1"
definition bridge_schema_version :: u16 where "bridge_schema_version = 1"

section \<open>Field checks\<close>

definition padded_or_control :: "string \<Rightarrow> bool" where
  "padded_or_control value \<longleftrightarrow>
     value = '''' \<or> trim value \<noteq> value \<or> list_ex is_control (chars_of value)"

definition validate_text :: "string \<Rightarrow> string \<Rightarrow> (unit, 'j protocol_error) rres" where
  "validate_text field value =
     (if padded_or_control value
      then Err (InvalidHelloField field ''must be non-empty, unpadded text without control characters'')
      else Ok ())"

definition validate_message_text :: "string \<Rightarrow> string \<Rightarrow> (unit, 'j protocol_error) rres" where
  "validate_message_text field value =
     (if padded_or_control value
      then Err (InvalidMessageField field ''must be non-empty, unpadded text without control characters'')
      else Ok ())"

definition validate_versions :: "u16 \<Rightarrow> u16 \<Rightarrow> (unit, 'j protocol_error) rres" where
  "validate_versions protocol schema =
     (if protocol \<noteq> bridge_protocol_version
      then Err (UnsupportedProtocolVersion bridge_protocol_version protocol)
      else if schema \<noteq> bridge_schema_version
      then Err (UnsupportedSchemaVersion bridge_schema_version schema)
      else Ok ())"

definition validate_bridge_sequence :: "u64 \<Rightarrow> (unit, 'j protocol_error) rres" where
  "validate_bridge_sequence sequence = (if sequence = 0 then Err InvalidBridgeSequence else Ok ())"

text \<open>The bytes of the text are the characters of the string.\<close>

definition is_non_negative_decimal :: "string \<Rightarrow> bool" where
  "is_non_negative_decimal value =
     (if value = '''' then False
      else case split_on (CHR ''.'') value of
        [] \<Rightarrow> False
      | integer # parts \<Rightarrow>
          if 1 < length parts \<or> integer = '''' \<or> \<not> list_all is_ascii_digit integer then False
          else if 1 < length integer \<and> hd integer = CHR ''0'' then False
          else case parts of
              fraction # _ \<Rightarrow> fraction \<noteq> '''' \<and> list_all is_ascii_digit fraction
            | [] \<Rightarrow> True)"

section \<open>Observations\<close>

datatype source_exchange = SourceShanghai | SourceShenzhen | SourceBeijing

record source_instrument =
  si_exchange :: source_exchange
  si_code :: string

definition source_instrument_validate :: "source_instrument \<Rightarrow> (unit, 'j protocol_error) rres" where
  "source_instrument_validate i =
     (if length (si_code i) \<noteq> 6 \<or> \<not> list_all is_ascii_digit (si_code i)
      then Err (InvalidMessageField ''observation.instrument.code'' ''must be exactly six ASCII digits'')
      else Ok ())"

datatype observation_unit = CnyPerShare | Cny | UnitLot

record decimal_observation =
  do_value :: string
  do_unit :: observation_unit

definition decimal_validate :: "string \<Rightarrow> decimal_observation \<Rightarrow> (unit, 'j protocol_error) rres" where
  "decimal_validate field d =
     (if \<not> is_non_negative_decimal (do_value d)
      then Err (InvalidMessageField field ''must be canonical non-negative decimal text'')
      else Ok ())"

definition validate_decimal_field ::
  "string \<Rightarrow> decimal_observation option \<Rightarrow> observation_unit \<Rightarrow> (unit, 'j protocol_error) rres" where
  "validate_decimal_field field value expected_unit =
     (case value of
        None \<Rightarrow> Ok ()
      | Some value \<Rightarrow>
          rbind (decimal_validate field value) (\<lambda>_.
          if do_unit value \<noteq> expected_unit
          then Err (InvalidMessageField field ''unit does not match the observation field'')
          else Ok ()))"

record source_observation =
  so_protocol_version :: u16
  so_schema_version :: u16
  so_bridge_sequence :: u64
  so_instrument :: source_instrument
  so_observed_at_utc :: string
  so_source_timestamp :: "string option"
  so_price :: "decimal_observation option"
  so_cumulative_amount :: "decimal_observation option"
  so_cumulative_volume :: "decimal_observation option"
  so_source_record_count :: "u64 option"

definition source_observation_validate :: "source_observation \<Rightarrow> (unit, 'j protocol_error) rres" where
  "source_observation_validate o' =
     rbind (validate_versions (so_protocol_version o') (so_schema_version o')) (\<lambda>_.
     rbind (validate_bridge_sequence (so_bridge_sequence o')) (\<lambda>_.
     rbind (source_instrument_validate (so_instrument o')) (\<lambda>_.
     rbind (validate_message_text ''observation.observed_at_utc'' (so_observed_at_utc o')) (\<lambda>_.
     rbind (case so_source_timestamp o' of None \<Rightarrow> Ok ()
            | Some t \<Rightarrow> validate_message_text ''observation.source_timestamp'' t) (\<lambda>_.
     if so_price o' = None \<and> so_cumulative_amount o' = None \<and> so_cumulative_volume o' = None
        \<and> so_source_record_count o' = None
     then Err (InvalidMessageField ''observation'' ''must carry at least one source field'')
     else
       rbind (validate_decimal_field ''observation.price'' (so_price o') CnyPerShare) (\<lambda>_.
       rbind (validate_decimal_field ''observation.cumulative_amount'' (so_cumulative_amount o') Cny) (\<lambda>_.
       validate_decimal_field ''observation.cumulative_volume'' (so_cumulative_volume o') UnitLot)))))))"

section \<open>The other messages\<close>

datatype bridge_runtime_state = StateStarting | StateReady | StateDegraded | StateStopping
datatype bridge_status_reason =
    ProcessStarted | SourceReady | SourceUnavailable | Reconnecting | ShutdownRequested

record bridge_status =
  bs_protocol_version :: u16
  bs_schema_version :: u16
  bs_bridge_sequence :: u64
  bs_state :: bridge_runtime_state
  bs_reason :: bridge_status_reason
  bs_detail :: "string option"

definition bridge_status_validate :: "bridge_status \<Rightarrow> (unit, 'j protocol_error) rres" where
  "bridge_status_validate s =
     rbind (validate_versions (bs_protocol_version s) (bs_schema_version s)) (\<lambda>_.
     rbind (validate_bridge_sequence (bs_bridge_sequence s)) (\<lambda>_.
     case bs_detail s of None \<Rightarrow> Ok () | Some detail \<Rightarrow> validate_message_text ''status.detail'' detail))"

datatype bridge_error_code =
    TerminalUnavailable | CapabilityUnavailable | EntitlementUnavailable
  | SourceReadFailed | ProtocolViolation | BridgeInternal

record bridge_error_report =
  be_protocol_version :: u16
  be_schema_version :: u16
  be_bridge_sequence :: u64
  be_code :: bridge_error_code
  be_retryable :: bool
  be_message :: string

definition bridge_error_validate :: "bridge_error_report \<Rightarrow> (unit, 'j protocol_error) rres" where
  "bridge_error_validate e =
     rbind (validate_versions (be_protocol_version e) (be_schema_version e)) (\<lambda>_.
     rbind (validate_bridge_sequence (be_bridge_sequence e)) (\<lambda>_.
     validate_message_text ''error.message'' (be_message e)))"

record stopped =
  st_protocol_version :: u16
  st_schema_version :: u16
  st_bridge_sequence :: u64

definition stopped_current :: "u64 \<Rightarrow> stopped" where
  "stopped_current sequence =
     \<lparr>st_protocol_version = bridge_protocol_version, st_schema_version = bridge_schema_version,
      st_bridge_sequence = sequence\<rparr>"

definition stopped_validate :: "stopped \<Rightarrow> (unit, 'j protocol_error) rres" where
  "stopped_validate s =
     rbind (validate_versions (st_protocol_version s) (st_schema_version s)) (\<lambda>_.
     validate_bridge_sequence (st_bridge_sequence s))"

record shutdown =
  sd_protocol_version :: u16
  sd_schema_version :: u16

definition shutdown_current :: shutdown where
  "shutdown_current =
     \<lparr>sd_protocol_version = bridge_protocol_version, sd_schema_version = bridge_schema_version\<rparr>"

definition shutdown_validate :: "shutdown \<Rightarrow> (unit, 'j protocol_error) rres" where
  "shutdown_validate s = validate_versions (sd_protocol_version s) (sd_schema_version s)"

datatype bridge_command = CommandShutdown shutdown

fun bridge_command_validate :: "bridge_command \<Rightarrow> (unit, 'j protocol_error) rres" where
  "bridge_command_validate (CommandShutdown s) = shutdown_validate s"

record artifact_identity =
  ai_filename :: string
  ai_product_version :: string
  ai_file_version :: string
  ai_sha256 :: string

definition artifact_validate :: "string \<Rightarrow> artifact_identity \<Rightarrow> (unit, 'j protocol_error) rres" where
  "artifact_validate field a =
     rbind (validate_text field (ai_filename a)) (\<lambda>_.
     rbind (validate_text field (ai_product_version a)) (\<lambda>_.
     rbind (validate_text field (ai_file_version a)) (\<lambda>_.
     if length (ai_sha256 a) \<noteq> 64 \<or> \<not> list_all is_lower_hex (ai_sha256 a)
     then Err (InvalidHelloField field ''SHA-256 must be exactly 64 lowercase hexadecimal characters'')
     else Ok ())))"

datatype terminal_state = TerminalReady | NotLoggedIn | TerminalAbsent

type_synonym fact_map = "(string \<times> bool) list"

fun validate_fact_map :: "string \<Rightarrow> fact_map \<Rightarrow> (unit, 'j protocol_error) rres" where
  "validate_fact_map field [] = Ok ()"
| "validate_fact_map field ((name, _) # rest) =
     rbind (validate_text field name) (\<lambda>_. validate_fact_map field rest)"

record bridge_hello =
  bh_protocol_version :: u16
  bh_schema_version :: u16
  bh_peer :: artifact_identity
  bh_peer_architecture :: string
  bh_terminal :: artifact_identity
  bh_transport_profile_id :: string
  bh_terminal_state :: terminal_state
  bh_capabilities :: fact_map
  bh_entitlements :: fact_map

definition bridge_hello_validate :: "bridge_hello \<Rightarrow> (unit, 'j protocol_error) rres" where
  "bridge_hello_validate h =
     rbind (validate_versions (bh_protocol_version h) (bh_schema_version h)) (\<lambda>_.
     rbind (validate_text ''peer_architecture'' (bh_peer_architecture h)) (\<lambda>_.
     rbind (validate_text ''transport_profile_id'' (bh_transport_profile_id h)) (\<lambda>_.
     rbind (artifact_validate ''peer'' (bh_peer h)) (\<lambda>_.
     rbind (artifact_validate ''terminal'' (bh_terminal h)) (\<lambda>_.
     rbind (validate_fact_map ''capabilities'' (bh_capabilities h)) (\<lambda>_.
     validate_fact_map ''entitlements'' (bh_entitlements h)))))))"

datatype bridge_message =
    MessageHello bridge_hello
  | MessageStatus bridge_status
  | MessageObservation source_observation
  | MessageError bridge_error_report
  | MessageStopped stopped

fun bridge_message_validate :: "bridge_message \<Rightarrow> (unit, 'j protocol_error) rres" where
  "bridge_message_validate (MessageHello h) = bridge_hello_validate h"
| "bridge_message_validate (MessageStatus s) = bridge_status_validate s"
| "bridge_message_validate (MessageObservation o') = source_observation_validate o'"
| "bridge_message_validate (MessageError e) = bridge_error_validate e"
| "bridge_message_validate (MessageStopped s) = stopped_validate s"

fun message_sequence :: "bridge_message \<Rightarrow> u64 option" where
  "message_sequence (MessageHello _) = None"
| "message_sequence (MessageStatus s) = Some (bs_bridge_sequence s)"
| "message_sequence (MessageObservation o') = Some (so_bridge_sequence o')"
| "message_sequence (MessageError e) = Some (be_bridge_sequence e)"
| "message_sequence (MessageStopped s) = Some (st_bridge_sequence s)"

section \<open>The sequence tracker\<close>

definition tracker_new :: "u64 option" where "tracker_new = None"

definition tracker_observe ::
  "u64 option \<Rightarrow> bridge_message \<Rightarrow> u64 option \<times> (unit, 'j protocol_error) rres" where
  "tracker_observe seen message =
     sbind (seen, bridge_message_validate message) (\<lambda>seen _.
     case message_sequence message of
       None \<Rightarrow> (seen, Ok ())
     | Some actual \<Rightarrow>
         (case seen of
            None \<Rightarrow> if actual \<noteq> 1 then (seen, Err (BridgeSequenceGap 1 actual)) else (Some actual, Ok ())
          | Some previous \<Rightarrow>
              (case checked_add previous 1 of
                 None \<Rightarrow> (seen, Err (BridgeSequenceExhausted previous))
               | Some expected \<Rightarrow>
                   if actual \<noteq> expected
                   then (seen, Err (if actual \<le> previous then BridgeSequenceRollback previous actual
                                    else BridgeSequenceGap expected actual))
                   else (Some actual, Ok ()))))"

section \<open>Frames\<close>

datatype frame_codec = FrameCodec (max_payload_len: usize)

definition frame_codec_new :: "usize \<Rightarrow> (frame_codec, 'j protocol_error) rres" where
  "frame_codec_new maximum =
     (if maximum = 0 \<or> 2 ^ 32 - 1 < maximum then Err (InvalidFrameLimit maximum (2 ^ 32 - 1))
      else Ok (FrameCodec maximum))"

text \<open>The methods of a writer: all the bytes are written, or an error and the state it leaves.\<close>

record 'w writer =
  wr_write_all :: "'w \<Rightarrow> u8 list \<Rightarrow> 'w \<times> (unit, io_error) rres"
  wr_flush :: "'w \<Rightarrow> 'w \<times> (unit, io_error) rres"

record 'r reader =
  rd_read_exact :: "'r \<Rightarrow> nat \<Rightarrow> 'r \<times> (u8 list, io_error) rres"

fun io_step ::
  "frame_io_operation \<Rightarrow> 's \<times> ('a, io_error) rres \<Rightarrow> 's \<times> ('a, 'j protocol_error) rres" where
  "io_step operation (s, r) = (s, map_err (FrameIo operation) r)"

text \<open>\<open>len\<close> of a vector is below \<open>2 ^ 63\<close>, so it is a \<open>usize\<close>.\<close>

definition write_payload ::
  "frame_codec \<Rightarrow> 'w writer \<Rightarrow> 'w \<Rightarrow> u8 list \<Rightarrow> 'w \<times> (unit, 'j protocol_error) rres" where
  "write_payload codec w s payload =
     (if payload = [] then (s, Err EmptyFrame)
      else if unat (max_payload_len codec) < length payload
      then (s, Err (FrameTooLarge (of_nat (length payload)) (max_payload_len codec)))
      else if 2 ^ 32 \<le> length payload
      then (s, Err (FrameTooLarge (of_nat (length payload)) (max_payload_len codec)))
      else
        sbind (io_step WritePrefix (wr_write_all w s (be_bytes 4 (of_nat (length payload) :: u32)))) (\<lambda>s _.
        sbind (io_step WritePayload (wr_write_all w s payload)) (\<lambda>s _.
        io_step Flush (wr_flush w s))))"

definition be_value :: "u8 list \<Rightarrow> nat" where
  "be_value bytes = foldl (\<lambda>acc b. acc * 256 + unat b) 0 bytes"

definition read_payload ::
  "frame_codec \<Rightarrow> 'r reader \<Rightarrow> 'r \<Rightarrow> 'r \<times> (u8 list, 'j protocol_error) rres" where
  "read_payload codec rd s =
     sbind (io_step ReadPrefix (rd_read_exact rd s 4)) (\<lambda>s prefix.
     let announced = be_value prefix in
     if announced = 0 then (s, Err EmptyFrame)
     else if unat (max_payload_len codec) < announced
     then (s, Err (FrameTooLarge (of_nat announced) (max_payload_len codec)))
     else io_step ReadPayload (rd_read_exact rd s announced))"

text \<open>The writer that \<open>serde_json\<close> streams into: the document comes in chunks, and a chunk that
  does not fit stops the encoding.\<close>

record payload_writer =
  pw_bytes :: "u8 list"
  pw_maximum :: usize
  pw_overflowed :: bool

definition payload_writer_new :: "usize \<Rightarrow> payload_writer" where
  "payload_writer_new maximum = \<lparr>pw_bytes = [], pw_maximum = maximum, pw_overflowed = False\<rparr>"

definition payload_write :: "payload_writer \<Rightarrow> u8 list \<Rightarrow> payload_writer \<times> (nat, io_error) rres" where
  "payload_write w chunk =
     (if unat (pw_maximum w) - length (pw_bytes w) < length chunk
      then (w\<lparr>pw_overflowed := True\<rparr>, Err (InvalidData ''encoded bridge frame exceeds configured maximum''))
      else (w\<lparr>pw_bytes := pw_bytes w @ chunk\<rparr>, Ok (length chunk)))"

text \<open>What the encoder does with a value: the chunks it writes in order, and whether it then ends
  with an error of its own.\<close>

type_synonym ('a, 'j) encoder = "'a \<Rightarrow> u8 list list \<times> 'j option"

fun write_chunks :: "payload_writer \<Rightarrow> u8 list list \<Rightarrow> payload_writer \<times> bool" where
  "write_chunks w [] = (w, True)"
| "write_chunks w (chunk # chunks) =
     (if chunk = [] then write_chunks w chunks
      else case payload_write w chunk of
        (w, Ok _) \<Rightarrow> write_chunks w chunks
      | (w, _) \<Rightarrow> (w, False))"

definition write_json ::
  "('a, 'j) encoder \<Rightarrow> frame_codec \<Rightarrow> 'w writer \<Rightarrow> 'w \<Rightarrow> 'a \<Rightarrow> 'w \<times> (unit, 'j protocol_error) rres" where
  "write_json enc codec w s value =
     (case write_chunks (payload_writer_new (max_payload_len codec)) (fst (enc value)) of
        (payload, written) \<Rightarrow>
          if pw_overflowed payload then (s, Err (EncodedFrameTooLarge (max_payload_len codec)))
          else (case snd (enc value) of
                  Some x \<Rightarrow> (s, Err (EncodeJson x))
                | None \<Rightarrow> write_payload codec w s (pw_bytes payload)))"

text \<open>\<open>utf8\<close> decides UTF-8, \<open>decode\<close> decodes a document.\<close>

definition read_json ::
  "(u8 list \<Rightarrow> bool) \<Rightarrow> (u8 list \<Rightarrow> ('a, 'j) rres) \<Rightarrow> frame_codec \<Rightarrow> 'r reader \<Rightarrow> 'r
     \<Rightarrow> 'r \<times> ('a, 'j protocol_error) rres" where
  "read_json utf8 decode codec rd s =
     sbind (read_payload codec rd s) (\<lambda>s payload.
     if \<not> utf8 payload then (s, Err InvalidUtf8) else (s, map_err DecodeJson (decode payload)))"

definition write_message ::
  "(bridge_message, 'j) encoder \<Rightarrow> frame_codec \<Rightarrow> 'w writer \<Rightarrow> 'w \<Rightarrow> bridge_message
     \<Rightarrow> 'w \<times> (unit, 'j protocol_error) rres" where
  "write_message enc codec w s message =
     sbind (s, bridge_message_validate message) (\<lambda>s _. write_json enc codec w s message)"

definition read_message ::
  "(u8 list \<Rightarrow> bool) \<Rightarrow> (u8 list \<Rightarrow> (bridge_message, 'j) rres) \<Rightarrow> frame_codec \<Rightarrow> 'r reader \<Rightarrow> 'r
     \<Rightarrow> 'r \<times> (bridge_message, 'j protocol_error) rres" where
  "read_message utf8 decode codec rd s =
     sbind (read_json utf8 decode codec rd s) (\<lambda>s message.
     (s, rbind (bridge_message_validate message) (\<lambda>_. Ok message)))"

definition write_command ::
  "(bridge_command, 'j) encoder \<Rightarrow> frame_codec \<Rightarrow> 'w writer \<Rightarrow> 'w \<Rightarrow> bridge_command
     \<Rightarrow> 'w \<times> (unit, 'j protocol_error) rres" where
  "write_command enc codec w s command =
     sbind (s, bridge_command_validate command) (\<lambda>s _. write_json enc codec w s command)"

definition read_command ::
  "(u8 list \<Rightarrow> bool) \<Rightarrow> (u8 list \<Rightarrow> (bridge_command, 'j) rres) \<Rightarrow> frame_codec \<Rightarrow> 'r reader \<Rightarrow> 'r
     \<Rightarrow> 'r \<times> (bridge_command, 'j protocol_error) rres" where
  "read_command utf8 decode codec rd s =
     sbind (read_json utf8 decode codec rd s) (\<lambda>s command.
     (s, rbind (bridge_command_validate command) (\<lambda>_. Ok command)))"

section \<open>Admission\<close>

definition local_terminal_price_admitted :: bool where "local_terminal_price_admitted = True"
definition local_terminal_amount_admitted :: bool where "local_terminal_amount_admitted = True"
definition local_terminal_volume_admitted :: bool where "local_terminal_volume_admitted = True"
definition local_terminal_record_count_admitted :: bool where "local_terminal_record_count_admitted = False"
definition local_terminal_previous_close_admitted :: bool where "local_terminal_previous_close_admitted = True"
definition local_terminal_ohlc_admitted :: bool where "local_terminal_ohlc_admitted = True"

datatype repository_admission = RepositoryAdmitted | RepositoryUnadmitted

definition repository_from_bool :: "bool \<Rightarrow> repository_admission" where
  "repository_from_bool admitted = (if admitted then RepositoryAdmitted else RepositoryUnadmitted)"

datatype runtime_availability =
    RuntimeAvailable
  | TerminalNotReady
  | CapabilityNotReported
  | RuntimeCapabilityUnavailable
  | EntitlementNotReported
  | RuntimeEntitlementUnavailable

record capability_availability =
  ca_repository :: repository_admission
  ca_runtime :: runtime_availability

definition is_effectively_available :: "capability_availability \<Rightarrow> bool" where
  "is_effectively_available c \<longleftrightarrow> ca_repository c = RepositoryAdmitted \<and> ca_runtime c = RuntimeAvailable"

record 'a local_terminal_fields =
  lf_price :: 'a
  lf_cumulative_amount :: 'a
  lf_cumulative_volume :: 'a
  lf_source_record_count :: 'a

definition runtime_availability_of :: "bridge_hello \<Rightarrow> string \<Rightarrow> runtime_availability" where
  "runtime_availability_of h name =
     (if bh_terminal_state h \<noteq> TerminalReady then TerminalNotReady
      else case map_of (bh_capabilities h) name of
        None \<Rightarrow> CapabilityNotReported
      | Some False \<Rightarrow> RuntimeCapabilityUnavailable
      | Some True \<Rightarrow>
          (case map_of (bh_entitlements h) name of
             None \<Rightarrow> EntitlementNotReported
           | Some False \<Rightarrow> RuntimeEntitlementUnavailable
           | Some True \<Rightarrow> RuntimeAvailable))"

definition runtime_from_hello ::
  "bridge_hello \<Rightarrow> (runtime_availability local_terminal_fields, 'j protocol_error) rres" where
  "runtime_from_hello h =
     rbind (bridge_hello_validate h) (\<lambda>_.
     Ok \<lparr>lf_price = runtime_availability_of h ''price'',
         lf_cumulative_amount = runtime_availability_of h ''cumulative_amount'',
         lf_cumulative_volume = runtime_availability_of h ''cumulative_volume'',
         lf_source_record_count = runtime_availability_of h ''source_record_count''\<rparr>)"

definition local_terminal_admission_current :: "bool local_terminal_fields" where
  "local_terminal_admission_current =
     \<lparr>lf_price = local_terminal_price_admitted, lf_cumulative_amount = local_terminal_amount_admitted,
      lf_cumulative_volume = local_terminal_volume_admitted,
      lf_source_record_count = local_terminal_record_count_admitted\<rparr>"

definition admission_combine ::
  "bool local_terminal_fields \<Rightarrow> runtime_availability local_terminal_fields
     \<Rightarrow> capability_availability local_terminal_fields" where
  "admission_combine admission runtime =
     \<lparr>lf_price = \<lparr>ca_repository = repository_from_bool (lf_price admission),
                  ca_runtime = lf_price runtime\<rparr>,
      lf_cumulative_amount = \<lparr>ca_repository = repository_from_bool (lf_cumulative_amount admission),
                  ca_runtime = lf_cumulative_amount runtime\<rparr>,
      lf_cumulative_volume = \<lparr>ca_repository = repository_from_bool (lf_cumulative_volume admission),
                  ca_runtime = lf_cumulative_volume runtime\<rparr>,
      lf_source_record_count = \<lparr>ca_repository = repository_from_bool (lf_source_record_count admission),
                  ca_runtime = lf_source_record_count runtime\<rparr>\<rparr>"

end
