(* ===== verification/Loopback.thy ===== *)
theory Loopback
  imports Terminal_Protocol "HOL-Library.Mapping"
begin

text \<open>
  The client of the terminal's loopback endpoint, \<open>magic-tdx-local-rs\<close> \<open>loopback.rs\<close>: requests,
  the limits on a response, the parsing of the three results, and the exact conversion of amounts.
  The HTTP client and the JSON library are parameters: what a request meets, and what a document
  decodes to.
\<close>

section \<open>Errors\<close>

datatype tq_error_category =
    CatInvalidLimits | CatInvalidRequest | CatRequestEncoding | CatRequestTooLarge | CatConnect
  | CatTimeout | CatTransport | CatHttpStatus | CatMissingContentType | CatInvalidContentType
  | CatResponseTooLarge | CatRead | CatInvalidJson | CatRpc | CatCorrelationMismatch
  | CatInstrumentIdentity | CatSchema | CatSynchronization

datatype tq_error =
    TqInvalidLimits string
  | TqInvalidRequest string
  | TqEncodeJson
  | TqRequestTooLarge nat usize
  | TqConnect
  | TqTimeout
  | TqTransport string
  | TqHttpStatus u16
  | TqMissingContentType
  | TqInvalidContentType
  | TqResponseTooLarge usize
  | TqRead
  | TqJson
  | TqRpc string "string option"
  | TqCorrelationMismatch u64 u64
  | TqInstrumentIdentity string
  | TqSchema string
  | TqSynchronization

fun error_category :: "tq_error \<Rightarrow> tq_error_category" where
  "error_category (TqInvalidLimits _) = CatInvalidLimits"
| "error_category (TqInvalidRequest _) = CatInvalidRequest"
| "error_category TqEncodeJson = CatRequestEncoding"
| "error_category (TqRequestTooLarge _ _) = CatRequestTooLarge"
| "error_category TqConnect = CatConnect"
| "error_category TqTimeout = CatTimeout"
| "error_category (TqTransport _) = CatTransport"
| "error_category (TqHttpStatus _) = CatHttpStatus"
| "error_category TqMissingContentType = CatMissingContentType"
| "error_category TqInvalidContentType = CatInvalidContentType"
| "error_category (TqResponseTooLarge _) = CatResponseTooLarge"
| "error_category TqRead = CatRead"
| "error_category TqJson = CatInvalidJson"
| "error_category (TqRpc _ _) = CatRpc"
| "error_category (TqCorrelationMismatch _ _) = CatCorrelationMismatch"
| "error_category (TqInstrumentIdentity _) = CatInstrumentIdentity"
| "error_category (TqSchema _) = CatSchema"
| "error_category TqSynchronization = CatSynchronization"

section \<open>Instruments and limits\<close>

datatype tq_instrument = TqInstrument (source_instrument_of: source_instrument)

definition tq_instrument_new :: "source_exchange \<Rightarrow> string \<Rightarrow> (tq_instrument, tq_error) rres" where
  "tq_instrument_new exchange code =
     (if length code \<noteq> 6 \<or> \<not> list_all is_ascii_digit code
      then Err (TqInvalidRequest ''instrument code must be exactly six ASCII digits'')
      else Ok (TqInstrument \<lparr>si_exchange = exchange, si_code = code\<rparr>))"

definition wire_symbol :: "tq_instrument \<Rightarrow> string" where
  "wire_symbol i =
     si_code (source_instrument_of i) @ ''.'' @
       (case si_exchange (source_instrument_of i) of
          SourceShanghai \<Rightarrow> ''SH'' | SourceShenzhen \<Rightarrow> ''SZ'' | SourceBeijing \<Rightarrow> ''BJ'')"

text \<open>Durations in nanoseconds.\<close>

record loopback_limits =
  ll_connect_timeout :: nat
  ll_read_timeout :: nat
  ll_write_timeout :: nat
  ll_max_request_bytes :: usize
  ll_max_response_bytes :: usize

definition loopback_limits_new ::
  "nat \<Rightarrow> nat \<Rightarrow> nat \<Rightarrow> usize \<Rightarrow> usize \<Rightarrow> (loopback_limits, tq_error) rres" where
  "loopback_limits_new connect read write request response =
     (if connect = 0 then Err (TqInvalidLimits ''connect_timeout'')
      else if read = 0 then Err (TqInvalidLimits ''read_timeout'')
      else if write = 0 then Err (TqInvalidLimits ''write_timeout'')
      else if request = 0 \<or> request = - 1 then Err (TqInvalidLimits ''max_request_bytes'')
      else if response = 0 \<or> response = - 1 then Err (TqInvalidLimits ''max_response_bytes'')
      else Ok \<lparr>ll_connect_timeout = connect, ll_read_timeout = read, ll_write_timeout = write,
               ll_max_request_bytes = request, ll_max_response_bytes = response\<rparr>)"

section \<open>Requests and responses\<close>

datatype tq_read_method = EquityUniverse | PriceVolume | MarketSnapshot

fun wire_name :: "tq_read_method \<Rightarrow> string" where
  "wire_name EquityUniverse = ''get_stock_list''"
| "wire_name PriceVolume = ''get_pricevol''"
| "wire_name MarketSnapshot = ''get_market_snapshot''"

datatype tq_params =
    EquityUniverseParams string u8
  | PriceVolumeParams "string list"
  | MarketSnapshotParams string "string list"

record tq_request =
  rq_id :: u64
  rq_method :: string
  rq_params :: tq_params

definition market_snapshot_fields :: "string list" where
  "market_snapshot_fields = [''Amount'', ''Now'', ''Volume'', ''LastClose'', ''Open'', ''Max'', ''Min'']"

datatype io_kind =
    KindTimedOut | KindWouldBlock | KindConnectionRefused | KindConnectionReset
  | KindConnectionAborted | KindNotConnected | KindAddrNotAvailable | KindOther

datatype ureq_kind = UreqConnectionFailed | UreqDns | UreqOther string

text \<open>A transport error with the chain of its sources, those that are I/O errors by their kind.\<close>

record transport_error =
  te_kind :: ureq_kind
  te_chain :: "io_kind option list"

text \<open>The body of a response is the bytes its reader gives, and the error that comes after them if
  they are not followed by the end of the stream.\<close>

record http_response =
  hr_status :: u16
  hr_content_type :: "string option"
  hr_body :: "u8 list"
  hr_body_error :: "io_kind option"

datatype http_outcome = UreqStatus u16 | UreqTransport transport_error | UreqResponse http_response

definition chain_has_io_kind :: "io_kind option list \<Rightarrow> (io_kind \<Rightarrow> bool) \<Rightarrow> bool" where
  "chain_has_io_kind chain p \<longleftrightarrow> list_ex (\<lambda>e. case e of None \<Rightarrow> False | Some k \<Rightarrow> p k) chain"

definition is_timeout_kind :: "io_kind \<Rightarrow> bool" where
  "is_timeout_kind k \<longleftrightarrow> k \<in> {KindTimedOut, KindWouldBlock}"

definition is_connection_kind :: "io_kind \<Rightarrow> bool" where
  "is_connection_kind k \<longleftrightarrow> k \<in> {KindConnectionRefused, KindConnectionReset, KindConnectionAborted,
     KindNotConnected, KindAddrNotAvailable}"

definition map_transport_error :: "transport_error \<Rightarrow> tq_error" where
  "map_transport_error e =
     (case te_kind e of
        UreqConnectionFailed \<Rightarrow> TqConnect
      | UreqDns \<Rightarrow> TqConnect
      | UreqOther name \<Rightarrow>
          if chain_has_io_kind (te_chain e) is_connection_kind then TqConnect
          else if chain_has_io_kind (te_chain e) is_timeout_kind then TqTimeout
          else TqTransport name)"

definition map_read_error :: "io_kind \<Rightarrow> tq_error" where
  "map_read_error k = (if is_timeout_kind k then TqTimeout else TqRead)"

text \<open>\<open>take (limit).read_to_end\<close>: once the limit is reached the reader is not read again, so only
  an error before it is seen.\<close>

definition read_limited :: "nat \<Rightarrow> http_response \<Rightarrow> (u8 list, tq_error) rres" where
  "read_limited limit response =
     (if limit \<le> length (hr_body response) then Ok (take limit (hr_body response))
      else case hr_body_error response of
        None \<Rightarrow> Ok (hr_body response)
      | Some k \<Rightarrow> Err (map_read_error k))"

definition ascii_lower :: "char \<Rightarrow> char" where
  "ascii_lower c = (if 65 \<le> byte_of c \<and> byte_of c \<le> 90 then char_of (byte_of c + 32) else c)"

definition eq_ignore_ascii_case :: "string \<Rightarrow> string \<Rightarrow> bool" where
  "eq_ignore_ascii_case a b \<longleftrightarrow> map ascii_lower a = map ascii_lower b"

fun charset_only :: "bool \<Rightarrow> string list \<Rightarrow> bool" where
  "charset_only saw_charset [] = True"
| "charset_only saw_charset (parameter # parameters) =
     (if saw_charset \<or> \<not> eq_ignore_ascii_case parameter ''charset=utf-8'' then False
      else charset_only True parameters)"

definition is_json_content_type :: "string \<Rightarrow> bool" where
  "is_json_content_type content_type =
     (case map trim (split_on (CHR '';'') content_type) of
        [] \<Rightarrow> False
      | value # parameters \<Rightarrow>
          eq_ignore_ascii_case value ''application/json'' \<and> charset_only False parameters)"

text \<open>\<open>lock\<close> says whether the request lock was taken and \<open>encoded\<close> is the request's JSON.\<close>

definition execute ::
  "loopback_limits \<Rightarrow> bool \<Rightarrow> u8 list option \<Rightarrow> http_outcome \<Rightarrow> (u8 list, tq_error) rres" where
  "execute limits lock encoded outcome =
     (if \<not> lock then Err TqSynchronization
      else case encoded of
        None \<Rightarrow> Err TqEncodeJson
      | Some request \<Rightarrow>
          if unat (ll_max_request_bytes limits) < length request
          then Err (TqRequestTooLarge (length request) (ll_max_request_bytes limits))
          else case outcome of
            UreqStatus status \<Rightarrow> Err (TqHttpStatus status)
          | UreqTransport e \<Rightarrow> Err (map_transport_error e)
          | UreqResponse response \<Rightarrow>
              if hr_status response \<noteq> 200 then Err (TqHttpStatus (hr_status response))
              else case hr_content_type response of
                None \<Rightarrow> Err TqMissingContentType
              | Some content_type \<Rightarrow>
                  if \<not> is_json_content_type content_type then Err TqInvalidContentType
                  else rbind (read_limited (unat (ll_max_response_bytes limits) + 1) response) (\<lambda>bytes.
                    if unat (ll_max_response_bytes limits) < length bytes
                    then Err (TqResponseTooLarge (ll_max_response_bytes limits))
                    else Ok bytes))"

text \<open>A request succeeds exactly when it is sent within its limit and its answer is a complete JSON
  body of status 200 within the limit of responses.\<close>

lemma execute_ok_iff:
  "execute limits lock encoded outcome = Ok bytes \<longleftrightarrow>
     lock \<and> (\<exists>request response content_type. encoded = Some request
       \<and> length request \<le> unat (ll_max_request_bytes limits) \<and> outcome = UreqResponse response
       \<and> hr_status response = 200 \<and> hr_content_type response = Some content_type
       \<and> is_json_content_type content_type \<and> hr_body_error response = None
       \<and> hr_body response = bytes \<and> length bytes \<le> unat (ll_max_response_bytes limits))"
  by (cases encoded; cases outcome)
     (auto simp: execute_def read_limited_def Let_def split: option.splits if_splits)

section \<open>Results\<close>

record price_volume_row =
  pv_last_close :: string
  pv_now :: string
  pv_volume :: string

record price_volume_result =
  pr_error_id :: string
  pr_error :: "string option"
  pr_value :: "(string, price_volume_row) mapping option"

record equity_universe_result =
  eu_error_id :: string
  eu_error :: "string option"
  eu_value :: "string list option"

record rpc_result_header =
  rh_error_id :: string
  rh_error :: "string option"

record market_snapshot_result =
  ms_error_id :: string
  ms_error :: "string option"
  ms_amount :: string
  ms_last_close :: string
  ms_now :: string
  ms_volume :: string
  ms_open :: string
  ms_high :: string
  ms_low :: string

text \<open>The decoders of \<open>serde_json\<close> at the types of the module.\<close>

record 'v tq_json =
  tj_from_slice :: "u8 list \<Rightarrow> 'v option"
  tj_envelope :: "'v \<Rightarrow> (u64 \<times> 'v) option"
  tj_universe :: "'v \<Rightarrow> equity_universe_result option"
  tj_price_volume :: "'v \<Rightarrow> price_volume_result option"
  tj_header :: "'v \<Rightarrow> rpc_result_header option"
  tj_snapshot :: "'v \<Rightarrow> market_snapshot_result option"

definition decode_envelope ::
  "'v tq_json \<Rightarrow> string \<Rightarrow> u8 list \<Rightarrow> u64 \<Rightarrow> ('v, tq_error) rres" where
  "decode_envelope js reason bytes expected_id =
     rbind (ok_or TqJson (tj_from_slice js bytes)) (\<lambda>json.
     rbind (ok_or (TqSchema reason) (tj_envelope js json)) (\<lambda>(actual, result).
     if actual \<noteq> expected_id then Err (TqCorrelationMismatch expected_id actual) else Ok result))"

definition is_canonical_equity_identity :: "string \<Rightarrow> bool" where
  "is_canonical_equity_identity value \<longleftrightarrow>
     length value = 9 \<and> list_all is_ascii_digit (take 6 value) \<and> drop 6 value \<in> {''.SH'', ''.SZ'', ''.BJ''}"

fun collect_universe :: "string list \<Rightarrow> string list \<Rightarrow> (string list, tq_error) rres" where
  "collect_universe universe [] = Ok universe"
| "collect_universe universe (identity # rows) =
     (if \<not> is_canonical_equity_identity identity
      then Err (TqSchema ''equity-universe identity must be canonical dddddd.SH|SZ|BJ'')
      else if identity \<in> set universe
      then Err (TqSchema ''equity-universe contains a duplicate identity'')
      else collect_universe (identity # universe) rows)"

fun require_instruments :: "string list \<Rightarrow> tq_instrument list \<Rightarrow> (unit, tq_error) rres" where
  "require_instruments universe [] = Ok ()"
| "require_instruments universe (i # is) =
     (if wire_symbol i \<notin> set universe then Err (TqInstrumentIdentity (wire_symbol i))
      else require_instruments universe is)"

definition parse_equity_universe ::
  "'v tq_json \<Rightarrow> u8 list \<Rightarrow> u64 \<Rightarrow> tq_instrument list \<Rightarrow> (nat, tq_error) rres" where
  "parse_equity_universe js bytes expected_id wanted =
     rbind (decode_envelope js ''equity-universe response does not match the exact id/result schema''
              bytes expected_id) (\<lambda>v.
     rbind (ok_or (TqSchema ''equity-universe result does not match the exact schema'')
              (tj_universe js v)) (\<lambda>result.
     if eu_error_id result \<noteq> ''0'' then Err (TqRpc (eu_error_id result) (eu_error result))
     else
       rbind (ok_or (TqSchema ''equity-universe Value must be an array'') (eu_value result)) (\<lambda>rows.
       if rows = [] then Err (TqSchema ''equity-universe Value must be non-empty'')
       else
         rbind (collect_universe [] rows) (\<lambda>universe.
         rbind (require_instruments universe wanted) (\<lambda>_.
         Ok (length universe))))))"

definition validate_decimal :: "string \<Rightarrow> string \<Rightarrow> observation_unit \<Rightarrow> (unit, tq_error) rres" where
  "validate_decimal field value unit =
     map_err (\<lambda>_ :: unit protocol_error. TqSchema ''TQ result contains an invalid decimal'')
       (decimal_validate field \<lparr>do_value = value, do_unit = unit\<rparr>)"

definition price_volume_observation ::
  "u64 \<Rightarrow> tq_instrument \<Rightarrow> string \<Rightarrow> price_volume_row \<Rightarrow> source_observation" where
  "price_volume_observation sequence instrument observed_at row =
     \<lparr>so_protocol_version = bridge_protocol_version, so_schema_version = bridge_schema_version,
      so_bridge_sequence = sequence, so_instrument = source_instrument_of instrument,
      so_observed_at_utc = observed_at, so_source_timestamp = None,
      so_price = Some \<lparr>do_value = pv_now row, do_unit = CnyPerShare\<rparr>,
      so_cumulative_amount = None,
      so_cumulative_volume = Some \<lparr>do_value = pv_volume row, do_unit = UnitLot\<rparr>,
      so_source_record_count = None\<rparr>"

definition mapped_validate :: "string \<Rightarrow> source_observation \<Rightarrow> (unit, tq_error) rres" where
  "mapped_validate reason o' =
     map_err (\<lambda>_ :: unit protocol_error. TqSchema reason) (source_observation_validate o')"

fun price_volume_rows ::
  "(string, price_volume_row) mapping \<Rightarrow> u64 \<Rightarrow> nat \<Rightarrow> string \<Rightarrow> tq_instrument list
     \<Rightarrow> (source_observation list, tq_error) rres" where
  "price_volume_rows values first index observed_at [] = Ok []"
| "price_volume_rows values first index observed_at (i # is) =
     rbind (ok_or (TqSchema ''price-volume result identity set does not match the request'')
              (Mapping.lookup values (wire_symbol i))) (\<lambda>row.
     rbind (validate_decimal ''LastClose'' (pv_last_close row) CnyPerShare) (\<lambda>_.
     rbind (validate_decimal ''Now'' (pv_now row) CnyPerShare) (\<lambda>_.
     rbind (validate_decimal ''Volume'' (pv_volume row) UnitLot) (\<lambda>_.
     rbind (ok_or (TqInvalidRequest ''price-volume bridge sequence range is exhausted'')
              (checked_add first (of_nat index))) (\<lambda>sequence.
     let observation = price_volume_observation sequence i observed_at row in
     rbind (mapped_validate ''mapped observation failed protocol validation'' observation) (\<lambda>_.
     rbind (price_volume_rows (Mapping.delete (wire_symbol i) values) first (index + 1) observed_at is)
       (\<lambda>rest. Ok (observation # rest))))))))"

definition parse_price_volume_responses ::
  "'v tq_json \<Rightarrow> u8 list \<Rightarrow> u64 \<Rightarrow> u64 \<Rightarrow> tq_instrument list \<Rightarrow> string
     \<Rightarrow> (source_observation list, tq_error) rres" where
  "parse_price_volume_responses js bytes expected_id first instruments observed_at =
     rbind (decode_envelope js ''response envelope does not match the exact id/result schema''
              bytes expected_id) (\<lambda>v.
     rbind (ok_or (TqSchema ''price-volume result does not match the exact schema'')
              (tj_price_volume js v)) (\<lambda>result.
     if pr_error_id result \<noteq> ''0'' then Err (TqRpc (pr_error_id result) (pr_error result))
     else
       rbind (ok_or (TqSchema ''successful price-volume result is missing Value'') (pr_value result)) (\<lambda>values.
       if Mapping.size values \<noteq> length instruments
       then Err (TqSchema ''price-volume result cardinality does not match the request'')
       else price_volume_rows values first 0 observed_at instruments)))"

section \<open>Exact amounts\<close>

type_synonym u128 = "128 word"

definition checked_mul :: "'a::len word \<Rightarrow> 'a word \<Rightarrow> 'a word option" where
  "checked_mul a b = (if unat a * unat b < 2 ^ LENGTH('a) then Some (a * b) else None)"

definition max_exact_decimal_digits :: nat where "max_exact_decimal_digits = 39"

fun push_digits :: "u128 \<Rightarrow> string \<Rightarrow> u128 option" where
  "push_digits coefficient [] = Some coefficient"
| "push_digits coefficient (digit # digits) =
     (case Option.bind (checked_mul coefficient 10) (\<lambda>c. checked_add c (of_nat (digit_val digit))) of
        None \<Rightarrow> None
      | Some coefficient \<Rightarrow> push_digits coefficient digits)"

fun push_zeros :: "u128 \<Rightarrow> nat \<Rightarrow> u128 option" where
  "push_zeros coefficient 0 = Some coefficient"
| "push_zeros coefficient (Suc n) =
     (case checked_mul coefficient 10 of None \<Rightarrow> None | Some c \<Rightarrow> push_zeros c n)"

fun drop_zeros :: "u128 \<Rightarrow> nat \<Rightarrow> u128 \<times> nat" where
  "drop_zeros coefficient 0 = (coefficient, 0)"
| "drop_zeros coefficient (Suc scale) =
     (if coefficient mod 10 = 0 then drop_zeros (coefficient div 10) scale else (coefficient, Suc scale))"

definition format_canonical_decimal :: "u128 \<Rightarrow> nat \<Rightarrow> string" where
  "format_canonical_decimal coefficient scale =
     (case drop_zeros coefficient scale of (coefficient, scale) \<Rightarrow>
        let digits = dec (unat coefficient) in
        if scale = 0 then digits
        else if scale < length digits
        then take (length digits - scale) digits @ ''.'' @ drop (length digits - scale) digits
        else ''0.'' @ replicate (scale - length digits) (CHR ''0'') @ digits)"

definition ten_thousand_cny_to_cny :: "string \<Rightarrow> (string, tq_error) rres" where
  "ten_thousand_cny_to_cny value =
     (let (integer, fraction) = (case split_once (CHR ''.'') value of
            Some (integer, fraction) \<Rightarrow> (integer, Some fraction) | None \<Rightarrow> (value, None))
      in
      if integer = '''' \<or> \<not> list_all is_ascii_digit integer
         \<or> (1 < length integer \<and> hd integer = CHR ''0'')
         \<or> (case fraction of None \<Rightarrow> False
            | Some f \<Rightarrow> f = '''' \<or> \<not> list_all is_ascii_digit f)
      then Err (TqSchema ''market-snapshot Amount is not canonical non-negative decimal text'')
      else
        let fraction = (case fraction of None \<Rightarrow> '''' | Some f \<Rightarrow> f);
            capacity = TqSchema ''market-snapshot Amount exceeds exact decimal capacity'' in
        if max_exact_decimal_digits < length integer + length fraction then Err capacity
        else
          rbind (ok_or capacity (push_digits 0 (integer @ fraction))) (\<lambda>coefficient.
          if 4 \<le> length fraction then Ok (format_canonical_decimal coefficient (length fraction - 4))
          else
            rbind (ok_or (TqSchema ''market-snapshot Amount overflows exact CNY conversion'')
                     (push_zeros coefficient (4 - length fraction))) (\<lambda>coefficient.
            Ok (format_canonical_decimal coefficient 0))))"

section \<open>Snapshots\<close>

record snapshot_prices =
  sp_previous_close :: decimal_observation
  sp_open :: decimal_observation
  sp_high :: decimal_observation
  sp_low :: decimal_observation

record market_snapshot =
  mk_observation :: source_observation
  mk_prices :: snapshot_prices

fun check_snapshot_prices :: "(string \<times> decimal_observation) list \<Rightarrow> (unit, tq_error) rres" where
  "check_snapshot_prices [] = Ok ()"
| "check_snapshot_prices ((field, d) # rest) =
     (if do_unit d \<noteq> CnyPerShare
      then Err (TqSchema ''market-snapshot OHLC field has an invalid unit'')
      else rbind (validate_decimal field (do_value d) CnyPerShare) (\<lambda>_. check_snapshot_prices rest))"

definition market_snapshot_new ::
  "source_observation \<Rightarrow> snapshot_prices \<Rightarrow> (market_snapshot, tq_error) rres" where
  "market_snapshot_new observation prices =
     rbind (mapped_validate ''mapped market-snapshot observation failed protocol validation'' observation) (\<lambda>_.
     rbind (check_snapshot_prices [(''LastClose'', sp_previous_close prices), (''Open'', sp_open prices),
              (''Max'', sp_high prices), (''Min'', sp_low prices)]) (\<lambda>_.
     Ok \<lparr>mk_observation = observation, mk_prices = prices\<rparr>))"

definition parse_market_snapshot ::
  "'v tq_json \<Rightarrow> u8 list \<Rightarrow> u64 \<Rightarrow> u64 \<Rightarrow> tq_instrument \<Rightarrow> string \<Rightarrow> (market_snapshot, tq_error) rres" where
  "parse_market_snapshot js bytes expected_id sequence instrument observed_at =
     rbind (decode_envelope js ''response envelope does not match the exact id/result schema''
              bytes expected_id) (\<lambda>v.
     rbind (ok_or (TqSchema ''market-snapshot result is missing a string ErrorId'') (tj_header js v)) (\<lambda>header.
     if rh_error_id header \<noteq> ''0'' then Err (TqRpc (rh_error_id header) (rh_error header))
     else
       rbind (ok_or (TqSchema ''successful market-snapshot result is missing a required string field'')
                (tj_snapshot js v)) (\<lambda>r.
       rbind (validate_decimal ''LastClose'' (ms_last_close r) CnyPerShare) (\<lambda>_.
       rbind (validate_decimal ''Now'' (ms_now r) CnyPerShare) (\<lambda>_.
       rbind (validate_decimal ''Volume'' (ms_volume r) UnitLot) (\<lambda>_.
       rbind (validate_decimal ''Open'' (ms_open r) CnyPerShare) (\<lambda>_.
       rbind (validate_decimal ''Max'' (ms_high r) CnyPerShare) (\<lambda>_.
       rbind (validate_decimal ''Min'' (ms_low r) CnyPerShare) (\<lambda>_.
       rbind (ten_thousand_cny_to_cny (ms_amount r)) (\<lambda>amount.
       market_snapshot_new
         \<lparr>so_protocol_version = bridge_protocol_version, so_schema_version = bridge_schema_version,
          so_bridge_sequence = sequence, so_instrument = source_instrument_of instrument,
          so_observed_at_utc = observed_at, so_source_timestamp = None,
          so_price = Some \<lparr>do_value = ms_now r, do_unit = CnyPerShare\<rparr>,
          so_cumulative_amount = Some \<lparr>do_value = amount, do_unit = Cny\<rparr>,
          so_cumulative_volume = Some \<lparr>do_value = ms_volume r, do_unit = UnitLot\<rparr>,
          so_source_record_count = None\<rparr>
         \<lparr>sp_previous_close = \<lparr>do_value = ms_last_close r, do_unit = CnyPerShare\<rparr>,
          sp_open = \<lparr>do_value = ms_open r, do_unit = CnyPerShare\<rparr>,
          sp_high = \<lparr>do_value = ms_high r, do_unit = CnyPerShare\<rparr>,
          sp_low = \<lparr>do_value = ms_low r, do_unit = CnyPerShare\<rparr>\<rparr>))))))))))"

section \<open>The three requests\<close>

text \<open>\<open>send\<close> is what \<open>execute\<close> gives for a request.\<close>

definition validate_equity_watchlist ::
  "'v tq_json \<Rightarrow> (tq_request \<Rightarrow> (u8 list, tq_error) rres) \<Rightarrow> u64 \<Rightarrow> tq_instrument list
     \<Rightarrow> (nat, tq_error) rres" where
  "validate_equity_watchlist js send request_id instruments =
     (if request_id = 0 then Err (TqInvalidRequest ''request id must be greater than zero'')
      else if instruments = [] then Err (TqInvalidRequest ''equity watchlist must be non-empty'')
      else
        rbind (send \<lparr>rq_id = request_id, rq_method = wire_name EquityUniverse,
                     rq_params = EquityUniverseParams ''5'' 0\<rparr>) (\<lambda>response.
        parse_equity_universe js response request_id instruments))"

definition validate_poll_request :: "u64 \<Rightarrow> u64 \<Rightarrow> (unit, tq_error) rres" where
  "validate_poll_request request_id sequence =
     (if request_id = 0 then Err (TqInvalidRequest ''request id must be greater than zero'')
      else if sequence = 0 then Err (TqInvalidRequest ''bridge sequence must be greater than zero'')
      else Ok ())"

definition validate_observation_time :: "string \<Rightarrow> (string, tq_error) rres" where
  "validate_observation_time value =
     (if padded_or_control value
      then Err (TqInvalidRequest ''observation time must be unpadded non-control text'')
      else Ok value)"

definition poll_price_volumes ::
  "'v tq_json \<Rightarrow> (tq_request \<Rightarrow> (u8 list, tq_error) rres) \<Rightarrow> u64 \<Rightarrow> u64 \<Rightarrow> tq_instrument list \<Rightarrow> string
     \<Rightarrow> (source_observation list, tq_error) rres" where
  "poll_price_volumes js send request_id first instruments observed_at =
     (if instruments = [] then Err (TqInvalidRequest ''price-volume watchlist must be non-empty'')
      else
        let symbols = map wire_symbol instruments in
        if \<not> distinct symbols
        then Err (TqInvalidRequest ''price-volume watchlist must not contain duplicates'')
        else
          rbind (validate_poll_request request_id first) (\<lambda>_.
          rbind (validate_observation_time observed_at) (\<lambda>observed_at.
          rbind (send \<lparr>rq_id = request_id, rq_method = wire_name PriceVolume,
                       rq_params = PriceVolumeParams symbols\<rparr>) (\<lambda>response.
          parse_price_volume_responses js response request_id first instruments observed_at))))"

definition poll_price_volume ::
  "'v tq_json \<Rightarrow> (tq_request \<Rightarrow> (u8 list, tq_error) rres) \<Rightarrow> u64 \<Rightarrow> u64 \<Rightarrow> tq_instrument \<Rightarrow> string
     \<Rightarrow> (source_observation, tq_error) rres" where
  "poll_price_volume js send request_id sequence instrument observed_at =
     rbind (poll_price_volumes js send request_id sequence [instrument] observed_at) (\<lambda>observations.
     case observations of
       [] \<Rightarrow> Err (TqSchema ''single-instrument price-volume response was empty'')
     | observation # _ \<Rightarrow> Ok observation)"

definition poll_market_snapshot ::
  "'v tq_json \<Rightarrow> (tq_request \<Rightarrow> (u8 list, tq_error) rres) \<Rightarrow> u64 \<Rightarrow> u64 \<Rightarrow> tq_instrument \<Rightarrow> string
     \<Rightarrow> (market_snapshot, tq_error) rres" where
  "poll_market_snapshot js send request_id sequence instrument observed_at =
     rbind (validate_poll_request request_id sequence) (\<lambda>_.
     rbind (validate_observation_time observed_at) (\<lambda>observed_at.
     rbind (send \<lparr>rq_id = request_id, rq_method = wire_name MarketSnapshot,
                  rq_params = MarketSnapshotParams (wire_symbol instrument) market_snapshot_fields\<rparr>) (\<lambda>response.
     parse_market_snapshot js response request_id sequence instrument observed_at)))"

end
