(* ===== verification/Exact_Decimal.thy ===== *)
theory Exact_Decimal
  imports Complex_Main Loopback
begin

text \<open>
  The numbers that decimal texts denote, and the exactness of the conversion from ten thousand
  yuan to yuan.
\<close>

section \<open>Decimal texts\<close>

definition digits_ok :: "string \<Rightarrow> bool" where
  "digits_ok s \<longleftrightarrow> s \<noteq> '''' \<and> list_all is_ascii_digit s"

definition integer_ok :: "string \<Rightarrow> bool" where
  "integer_ok s \<longleftrightarrow> digits_ok s \<and> \<not> (1 < length s \<and> hd s = CHR ''0'')"

lemma point_no_digit [simp]: "\<not> is_ascii_digit (CHR ''.'')"
  by (simp add: is_ascii_digit_def)

lemma no_point: "list_all is_ascii_digit s \<Longrightarrow> CHR ''.'' \<notin> set s"
  by (auto simp: list_all_iff is_ascii_digit_def)

lemma split_on_none [simp]: "c \<notin> set s \<Longrightarrow> split_on c s = [s]"
  by (induction s) auto

lemma split_on_append: "c \<notin> set a \<Longrightarrow> split_on c (a @ c # b) = a # split_on c b"
  by (induction a) auto

lemma split_on_concat: "\<exists>p ps. split_on c s = p # ps \<and> c \<notin> set p \<and> (ps = [] \<longrightarrow> s = p)
    \<and> (\<forall>q qs. ps = q # qs \<longrightarrow> (\<exists>r. s = p @ c # r \<and> split_on c r = q # qs))"
proof (induction s)
  case (Cons x s)
  then obtain p ps where i: "split_on c s = p # ps" "c \<notin> set p" "ps = [] \<longrightarrow> s = p"
    "\<forall>q qs. ps = q # qs \<longrightarrow> (\<exists>r. s = p @ c # r \<and> split_on c r = q # qs)" by blast
  show ?case
  proof (cases "x = c")
    case True
    then show ?thesis using i by auto
  next
    case False
    then show ?thesis using i by auto
  qed
qed simp

lemma split_once_none: "c \<notin> set s \<Longrightarrow> split_once c s = None"
proof -
  assume "c \<notin> set s"
  then have "dropWhile (\<lambda>x. x \<noteq> c) s = []" by (auto simp: dropWhile_eq_Nil_conv)
  then show ?thesis unfolding split_once_def by (simp only: list.case)
qed

lemma split_once_append: "c \<notin> set a \<Longrightarrow> split_once c (a @ c # b) = Some (a, b)"
proof -
  assume a: "c \<notin> set a"
  then have "\<forall>x\<in>set a. x \<noteq> c" by auto
  then have "dropWhile (\<lambda>x. x \<noteq> c) (a @ c # b) = c # b" "takeWhile (\<lambda>x. x \<noteq> c) (a @ c # b) = a"
    by (simp_all add: dropWhile_append2 takeWhile_append2)
  then show ?thesis by (simp add: split_once_def)
qed

lemma decimal_iff:
  "is_non_negative_decimal v \<longleftrightarrow>
     integer_ok v \<or> (\<exists>i f. v = i @ CHR ''.'' # f \<and> integer_ok i \<and> digits_ok f)"
  (is "?l = ?r")
proof
  assume ?l
  obtain p ps where s: "split_on (CHR ''.'') v = p # ps" "ps = [] \<longrightarrow> v = p"
    "\<forall>q qs. ps = q # qs \<longrightarrow> (\<exists>r. v = p @ CHR ''.'' # r \<and> split_on (CHR ''.'') r = q # qs)"
    using split_on_concat [of "CHR ''.''" v] by blast
  have p: "integer_ok p" using \<open>?l\<close> s(1)
    by (auto simp: is_non_negative_decimal_def integer_ok_def digits_ok_def split: if_splits)
  show ?r
  proof (cases ps)
    case Nil
    then show ?thesis using s p by simp
  next
    case (Cons q qs)
    then obtain r where r: "v = p @ CHR ''.'' # r" "split_on (CHR ''.'') r = q # qs" using s by blast
    have "qs = []" "digits_ok q" using \<open>?l\<close> s(1) Cons
      by (auto simp: is_non_negative_decimal_def digits_ok_def split: if_splits)
    moreover have "r = q" using r(2) split_on_concat [of "CHR ''.''" r] \<open>qs = []\<close> by auto
    ultimately show ?thesis using r p by blast
  qed
next
  assume ?r
  then show ?l
  proof
    assume "integer_ok v"
    moreover from this have "CHR ''.'' \<notin> set v" by (auto simp: integer_ok_def digits_ok_def dest: no_point)
    ultimately show ?l by (auto simp: is_non_negative_decimal_def integer_ok_def digits_ok_def)
  next
    assume "\<exists>i f. v = i @ CHR ''.'' # f \<and> integer_ok i \<and> digits_ok f"
    then obtain i f where v: "v = i @ CHR ''.'' # f" "integer_ok i" "digits_ok f" by blast
    have "CHR ''.'' \<notin> set i" "CHR ''.'' \<notin> set f" using v by (auto simp: integer_ok_def digits_ok_def dest: no_point)
    then have "split_on (CHR ''.'') v = [i, f]" using v(1) by (simp add: split_on_append)
    then show ?l using v by (auto simp: is_non_negative_decimal_def integer_ok_def digits_ok_def)
  qed
qed

text \<open>The integer and fraction digits of a decimal text, and the number it denotes.\<close>

definition decimal_parts :: "string \<Rightarrow> string \<times> string" where
  "decimal_parts v = (case split_once (CHR ''.'') v of None \<Rightarrow> (v, '''') | Some p \<Rightarrow> p)"

definition decimal_value :: "string \<Rightarrow> rat" where
  "decimal_value v = (case decimal_parts v of (i, f) \<Rightarrow> of_nat (parse_dec (i @ f)) / 10 ^ length f)"

text \<open>No zero ends the fraction.\<close>

definition reduced_decimal :: "string \<Rightarrow> bool" where
  "reduced_decimal v \<longleftrightarrow> is_non_negative_decimal v
     \<and> (let f = snd (decimal_parts v) in f \<noteq> '''' \<longrightarrow> last f \<noteq> CHR ''0'')"

lemma decimal_parts_simps:
  "CHR ''.'' \<notin> set v \<Longrightarrow> decimal_parts v = (v, '''')"
  "CHR ''.'' \<notin> set i \<Longrightarrow> decimal_parts (i @ CHR ''.'' # f) = (i, f)"
  by (simp_all add: decimal_parts_def split_once_none split_once_append)

section \<open>The coefficient\<close>

abbreviation push :: "nat \<Rightarrow> string \<Rightarrow> nat" where
  "push \<equiv> foldl (\<lambda>acc c. acc * 10 + digit_val c)"

lemma push_ge: "n \<le> push n s"
proof (induction s arbitrary: n)
  case (Cons c s)
  have "n \<le> n * 10 + digit_val c" by simp
  also have "\<dots> \<le> push (n * 10 + digit_val c) s" by (rule Cons.IH)
  finally show ?case by simp
qed simp

lemma push_digits_spec:
  assumes "list_all is_ascii_digit s"
  shows "push_digits c s = (if push (unat c) s < 2 ^ 128 then Some (of_nat (push (unat c) s)) else None)"
  using assms
proof (induction s arbitrary: c)
  case (Cons d s)
  let ?n = "unat c * 10 + digit_val d"
  have d: "digit_val d < 10" using Cons.prems by (simp add: digit_val_less)
  then have ud: "unat (of_nat (digit_val d) :: u128) = digit_val d" by (simp add: unat_of_nat)
  show ?case
  proof (cases "?n < 2 ^ 128")
    case True
    then have m: "unat (c * 10) = unat c * 10" by (simp add: unat_word_ariths)
    have "checked_mul c 10 = Some (c * 10)" using True by (simp add: checked_mul_def)
    moreover have "checked_add (c * 10) (of_nat (digit_val d)) = Some (c * 10 + of_nat (digit_val d))"
      using True m ud by (simp add: checked_add_def)
    moreover have "unat (c * 10 + of_nat (digit_val d)) = ?n"
      using True m ud by (simp add: unat_word_ariths)
    ultimately show ?thesis using Cons by simp
  next
    case False
    then have "\<not> push (unat c) (d # s) < 2 ^ 128" using push_ge [of ?n s] by simp
    moreover have "Option.bind (checked_mul c 10) (\<lambda>c. checked_add c (of_nat (digit_val d))) = None"
    proof (cases "unat c * 10 < 2 ^ 128")
      case True
      then have m: "unat (c * 10) = unat c * 10" by (simp add: unat_word_ariths)
      then show ?thesis using True False ud by (simp add: checked_mul_def checked_add_def)
    qed (simp add: checked_mul_def)
    ultimately show ?thesis by simp
  qed
next
  case Nil
  then show ?case using unsigned_less [of c] by simp
qed

lemma push_zeros_spec:
  "push_zeros c n = (if unat c * 10 ^ n < 2 ^ 128 then Some (of_nat (unat c * 10 ^ n)) else None)"
proof (induction n arbitrary: c)
  case (Suc n)
  show ?case
  proof (cases "unat c * 10 < 2 ^ 128")
    case True
    then have "unat (c * 10) = unat c * 10" by (simp add: unat_word_ariths)
    moreover have "checked_mul c 10 = Some (c * 10)" using True by (simp add: checked_mul_def)
    ultimately show ?thesis using Suc by (simp add: mult.assoc)
  next
    case False
    have "(10::nat) \<le> 10 ^ Suc n" by simp
    then have "unat c * 10 \<le> unat c * 10 ^ Suc n" by (rule mult_le_mono2)
    then have "\<not> unat c * 10 ^ Suc n < 2 ^ 128"
      using False by linarith
    with False show ?thesis by (simp add: checked_mul_def)
  qed
next
  case 0
  then show ?case using unsigned_less [of c] by simp
qed

lemma drop_zeros_spec:
  assumes "drop_zeros c s = (c', s')"
  shows "s' \<le> s \<and> unat c = unat c' * 10 ^ (s - s') \<and> (s' = 0 \<or> unat c' mod 10 \<noteq> 0)"
  using assms
proof (induction c s rule: drop_zeros.induct)
  case (2 c s)
  have m: "unat (c mod 10) = unat c mod 10" "unat (c div 10) = unat c div 10"
    by (simp_all add: unat_mod unat_div)
  show ?case
  proof (cases "c mod 10 = 0")
    case True
    then have z: "unat c mod 10 = 0" using m(1) by (metis unat_0)
    have "drop_zeros (c div 10) s = (c', s')" using "2.prems" True by simp
    then have i: "s' \<le> s" "unat c div 10 = unat c' * 10 ^ (s - s')" "s' = 0 \<or> unat c' mod 10 \<noteq> 0"
      using "2.IH" [OF True] m(2) by auto
    have "unat c = unat c div 10 * 10" using z by auto
    also have "\<dots> = unat c' * 10 ^ (Suc s - s')" using i by (simp add: Suc_diff_le)
    finally show ?thesis using i by simp
  next
    case False
    then have "unat c mod 10 \<noteq> 0" using m(1) by (metis unat_eq_zero)
    then show ?thesis using "2.prems" False by auto
  qed
qed simp

section \<open>Printing\<close>

lemma dec_head: "0 < n \<Longrightarrow> hd (dec n) \<noteq> CHR ''0''"
proof (induction n rule: dec.induct)
  case (1 n)
  show ?case
  proof (cases "n < 10")
    case True
    then have "hd (dec n) = digit_char n" by (simp add: dec.simps)
    moreover have "digit_val (digit_char n) \<noteq> digit_val (CHR ''0'')"
      using True "1.prems" by (simp add: digit_val_def [of "CHR ''0''"])
    ultimately show ?thesis by metis
  next
    case False
    then have "hd (dec n) = hd (dec (n div 10))" by (subst dec.simps) (simp add: hd_append)
    then show ?thesis using 1 False by auto
  qed
qed

lemma dec_last: "digit_val (last (dec n)) = n mod 10"
  by (subst dec.simps) simp

lemma dec_integer: "integer_ok (dec n)"
proof (cases "0 < n")
  case True
  then show ?thesis using dec_head dec_digits by (simp add: integer_ok_def digits_ok_def)
next
  case False
  then show ?thesis by (simp add: integer_ok_def digits_ok_def dec.simps)
qed

lemma parse_dec_last: "digit_val c \<noteq> 0 \<Longrightarrow> c \<noteq> CHR ''0''"
  by (auto simp: digit_val_def)

text \<open>The text of \<open>n / 10 ^ k\<close>, with \<open>n\<close> not a multiple of ten unless \<open>k\<close> is zero.\<close>

lemma format_value:
  assumes d: "drop_zeros c s = (c', s')" and f: "v = format_canonical_decimal c s"
  shows "reduced_decimal v \<and> decimal_value v = of_nat (unat c) / 10 ^ s"
proof -
  let ?n = "unat c'" and ?ds = "dec (unat c')"
  have z: "s' \<le> s" "unat c = ?n * 10 ^ (s - s')" "s' = 0 \<or> ?n mod 10 \<noteq> 0"
    using drop_zeros_spec [OF d] by auto
  have q: "of_nat (unat c) / 10 ^ s = (of_nat ?n / 10 ^ s' :: rat)"
  proof -
    have "(10 :: rat) ^ s = 10 ^ (s - s') * 10 ^ s'" using z(1) by (simp flip: power_add)
    then show ?thesis using z(2) by simp
  qed
  have nodot: "CHR ''.'' \<notin> set ?ds" using dec_digits by (rule no_point)
  have fraction: "reduced_decimal (i @ CHR ''.'' # fr) \<and> decimal_value (i @ CHR ''.'' # fr) = of_nat ?n / 10 ^ s'"
    if i: "integer_ok i" and fr: "list_all is_ascii_digit fr" "length fr = s'" "s' \<noteq> 0" "last fr = last ?ds"
      and p: "parse_dec (i @ fr) = ?n" for i fr
  proof -
    have "CHR ''.'' \<notin> set i" using i by (auto simp: integer_ok_def digits_ok_def dest: no_point)
    note parts = decimal_parts_simps(2) [OF this, of fr]
    have "digit_val (last fr) \<noteq> 0" using fr(3,4) z(3) dec_last [of ?n] by simp
    then have "last fr \<noteq> CHR ''0''" by (rule parse_dec_last)
    moreover have "is_non_negative_decimal (i @ CHR ''.'' # fr)"
      using i fr by (auto simp: decimal_iff digits_ok_def)
    ultimately show ?thesis using parts p fr by (simp add: reduced_decimal_def decimal_value_def)
  qed
  consider "s' = 0" | "s' \<noteq> 0" "s' < length ?ds" | "s' \<noteq> 0" "length ?ds \<le> s'" by linarith
  then show ?thesis
  proof cases
    case 1
    then have "v = ?ds" using f d by (simp add: format_canonical_decimal_def Let_def)
    then show ?thesis using 1 q dec_integer nodot
      by (simp add: reduced_decimal_def decimal_value_def decimal_parts_simps(1) decimal_iff)
  next
    case 2
    let ?i = "take (length ?ds - s') ?ds" and ?f = "drop (length ?ds - s') ?ds"
    have v: "v = ?i @ CHR ''.'' # ?f" using 2 f d by (simp add: format_canonical_decimal_def Let_def)
    have "integer_ok ?i"
      using 2 dec_integer [of ?n] dec_digits [of ?n]
      by (auto simp: integer_ok_def digits_ok_def list_all_iff dest: in_set_takeD)
    moreover have "list_all is_ascii_digit ?f" using dec_digits [of ?n] by (auto simp: list_all_iff dest: in_set_dropD)
    moreover have "last ?f = last ?ds" using 2 by (simp add: last_drop)
    moreover have "length ?f = s'" using 2 by simp
    moreover have "parse_dec (?i @ ?f) = ?n" by simp
    ultimately show ?thesis using fraction [of ?i ?f] 2 v q by simp
  next
    case 3
    let ?f = "replicate (s' - length ?ds) (CHR ''0'') @ ?ds"
    have v: "v = [CHR ''0''] @ CHR ''.'' # ?f" using 3 f d by (simp add: format_canonical_decimal_def Let_def)
    have "integer_ok [CHR ''0'']" by (simp add: integer_ok_def digits_ok_def is_ascii_digit_def)
    moreover have "list_all is_ascii_digit ?f" using dec_digits [of ?n] by (auto simp: is_ascii_digit_def list_all_iff)
    moreover have "parse_dec ([CHR ''0''] @ ?f) = ?n"
      using parse_dec_zeros [of "Suc (s' - length ?ds)" ?ds] by simp
    ultimately show ?thesis using fraction [of "[CHR ''0'']" ?f] 3 v q by simp
  qed
qed

section \<open>Amounts\<close>

definition amount_coefficient :: "string \<Rightarrow> nat" where
  "amount_coefficient v = (case decimal_parts v of (i, f) \<Rightarrow> parse_dec (i @ f) * 10 ^ (4 - length f))"

definition amount_digits :: "string \<Rightarrow> nat" where
  "amount_digits v = (case decimal_parts v of (i, f) \<Rightarrow> length i + length f)"

text \<open>The amounts the code's representation holds.\<close>

definition amount_fits :: "string \<Rightarrow> bool" where
  "amount_fits v \<longleftrightarrow> amount_digits v \<le> 39 \<and> amount_coefficient v < 2 ^ 128"

lemma parse_dec_push: "parse_dec = push 0"
  by (simp add: parse_dec_def fun_eq_iff)

lemma amount_shape:
  assumes "decimal_parts v = (i, f)"
  shows "is_non_negative_decimal v \<longleftrightarrow>
      integer_ok i \<and> (if split_once (CHR ''.'') v = None then f = '''' else digits_ok f)"
proof (cases "split_once (CHR ''.'') v")
  case None
  then have v: "v = i" "f = ''''" using assms by (simp_all add: decimal_parts_def)
  have n: "CHR ''.'' \<notin> set v"
  proof
    assume "CHR ''.'' \<in> set v"
    then obtain a b where "v = a @ CHR ''.'' # b" "CHR ''.'' \<notin> set a" by (meson split_list_first)
    then show False using None split_once_append by fastforce
  qed
  have "\<not> (\<exists>i f. v = i @ CHR ''.'' # f \<and> integer_ok i \<and> digits_ok f)" using n by auto
  then show ?thesis unfolding decimal_iff [of v] using None v by auto
next
  case (Some p)
  then have p: "p = (i, f)" using assms by (simp add: decimal_parts_def)
  have v: "v = i @ CHR ''.'' # f" "CHR ''.'' \<notin> set i" using split_once_eq_Some Some p by blast+
  have "\<not> list_all is_ascii_digit v" using v(1) by simp
  then have "\<not> integer_ok v" by (simp add: integer_ok_def digits_ok_def)
  moreover have "i' = i \<and> f' = f" if "v = i' @ CHR ''.'' # f'" "integer_ok i'" for i' f'
  proof -
    have "CHR ''.'' \<notin> set i'" using that(2) by (auto simp: integer_ok_def digits_ok_def dest: no_point)
    then have "split_once (CHR ''.'') v = Some (i', f')" using that(1) split_once_append by blast
    then show ?thesis using Some p by simp
  qed
  ultimately have "is_non_negative_decimal v \<longleftrightarrow> integer_ok i \<and> digits_ok f"
    using v(1) decimal_iff [of v] by metis
  then show ?thesis using Some by simp
qed

lemma amount_conversion_refused:
  assumes "\<not> is_non_negative_decimal v"
  shows "ten_thousand_cny_to_cny v = Err (TqSchema ''market-snapshot Amount is not canonical non-negative decimal text'')"
proof -
  obtain i f where p: "decimal_parts v = (i, f)" by (cases "decimal_parts v") auto
  show ?thesis
    using amount_shape [OF p] p assms
    by (cases "split_once (CHR ''.'') v")
      (auto simp: ten_thousand_cny_to_cny_def decimal_parts_def integer_ok_def digits_ok_def)
qed

lemma amount_conversion_pushed:
  assumes p: "decimal_parts v = (i, f)" and ok: "is_non_negative_decimal v"
  shows "ten_thousand_cny_to_cny v =
      (if 39 < length i + length f \<or> \<not> parse_dec (i @ f) < 2 ^ 128
       then Err (TqSchema ''market-snapshot Amount exceeds exact decimal capacity'')
       else if 4 \<le> length f then Ok (format_canonical_decimal (of_nat (parse_dec (i @ f))) (length f - 4))
       else rbind (ok_or (TqSchema ''market-snapshot Amount overflows exact CNY conversion'')
                (push_zeros (of_nat (parse_dec (i @ f))) (4 - length f))) (\<lambda>c. Ok (format_canonical_decimal c 0)))"
proof -
  have d: "list_all is_ascii_digit (i @ f)" and i: "integer_ok i"
    using amount_shape [OF p] ok by (auto simp: integer_ok_def digits_ok_def split: if_splits)
  let ?n = "parse_dec (i @ f)"
  have "ten_thousand_cny_to_cny v =
    (if 39 < length i + length f then Err (TqSchema ''market-snapshot Amount exceeds exact decimal capacity'')
     else rbind (ok_or (TqSchema ''market-snapshot Amount exceeds exact decimal capacity'') (push_digits 0 (i @ f))) (\<lambda>c.
       if 4 \<le> length f then Ok (format_canonical_decimal c (length f - 4))
       else rbind (ok_or (TqSchema ''market-snapshot Amount overflows exact CNY conversion'')
              (push_zeros c (4 - length f))) (\<lambda>c. Ok (format_canonical_decimal c 0))))"
    using amount_shape [OF p] p ok
    by (cases "split_once (CHR ''.'') v")
      (auto simp: ten_thousand_cny_to_cny_def decimal_parts_def integer_ok_def digits_ok_def Let_def
        max_exact_decimal_digits_def)
  also have "push_digits 0 (i @ f) = (if ?n < 2 ^ 128 then Some (of_nat ?n) else None)"
    using push_digits_spec [OF d, of 0] by (simp add: parse_dec_push)
  finally show ?thesis by (simp add: ok_or_def)
qed

lemma amount_conversion_cases:
  assumes p: "decimal_parts v = (i, f)" and ok: "is_non_negative_decimal v"
  shows "ten_thousand_cny_to_cny v =
      (if length i + length f \<le> 39 \<and> parse_dec (i @ f) * 10 ^ (4 - length f) < 2 ^ 128
       then Ok (format_canonical_decimal (of_nat (parse_dec (i @ f) * 10 ^ (4 - length f))) (length f - 4))
       else Err (if 39 < length i + length f \<or> \<not> parse_dec (i @ f) < 2 ^ 128
                 then TqSchema ''market-snapshot Amount exceeds exact decimal capacity''
                 else TqSchema ''market-snapshot Amount overflows exact CNY conversion''))"
proof (cases "39 < length i + length f \<or> \<not> parse_dec (i @ f) < 2 ^ 128")
  case True
  moreover have "parse_dec (i @ f) \<le> parse_dec (i @ f) * 10 ^ (4 - length f)" by simp
  ultimately have "\<not> (length i + length f \<le> 39 \<and> parse_dec (i @ f) * 10 ^ (4 - length f) < 2 ^ 128)"
    by linarith
  with True show ?thesis using amount_conversion_pushed [OF assms] by presburger
next
  case False
  then have "unat (of_nat (parse_dec (i @ f)) :: u128) = parse_dec (i @ f)" by (simp add: unat_of_nat)
  then show ?thesis
    using False amount_conversion_pushed [OF assms]
      push_zeros_spec [of "of_nat (parse_dec (i @ f))" "4 - length f"]
    by (cases "4 \<le> length f") (simp_all add: ok_or_def)
qed

lemma amount_scaled:
  "of_nat (n * 10 ^ (4 - k)) / 10 ^ (k - 4) = (10000 * (of_nat n / 10 ^ k) :: rat)"
proof (cases "4 \<le> k")
  case True
  then have "(10 :: rat) ^ k = 10 ^ (k - 4) * 10 ^ 4" by (metis power_add le_add_diff_inverse2)
  with True show ?thesis by simp
next
  case False
  then have "(10000 :: rat) = 10 ^ (4 - k) * 10 ^ k"
    using power_add [of "10 :: rat" "4 - k" k] by simp
  with False show ?thesis by (simp add: eq_divide_eq mult.assoc)
qed

text \<open>C30: the conversion of an amount from ten thousand yuan to yuan is exact. It succeeds on
  exactly the canonical non-negative decimals that the code's 128-bit representation holds, and the
  text it gives denotes ten thousand times the number, without a rounding and without a zero at the
  end of its fraction.\<close>

theorem amount_conversion_exact:
  "(\<exists>s. ten_thousand_cny_to_cny v = Ok s) = (is_non_negative_decimal v \<and> amount_fits v)
    \<and> (\<forall>s. ten_thousand_cny_to_cny v = Ok s \<longrightarrow>
        reduced_decimal s \<and> decimal_value s = 10000 * decimal_value v)"
proof -
  obtain i f where p: "decimal_parts v = (i, f)" by (cases "decimal_parts v") auto
  define M where "M = parse_dec (i @ f) * 10 ^ (4 - length f)"
  have fits: "amount_fits v \<longleftrightarrow> length i + length f \<le> 39 \<and> M < 2 ^ 128"
    using p by (simp add: M_def amount_fits_def amount_digits_def amount_coefficient_def)
  note t = amount_conversion_cases [OF p, folded M_def]
  show ?thesis
  proof (cases "is_non_negative_decimal v")
    case False
    then show ?thesis using amount_conversion_refused [OF False] by simp
  next
    case True
    have "reduced_decimal s \<and> decimal_value s = 10000 * decimal_value v" if s: "ten_thousand_cny_to_cny v = Ok s" for s
    proof -
      have b: "M < 2 ^ 128" and s: "s = format_canonical_decimal (of_nat M) (length f - 4)"
        using s t [OF True] by (auto split: if_splits)
      have u: "unat (of_nat M :: u128) = M" using b by (simp add: unat_of_nat)
      obtain c' s' where "drop_zeros (of_nat M :: u128) (length f - 4) = (c', s')" by fastforce
      from format_value [OF this s] have "reduced_decimal s" "decimal_value s = of_nat M / 10 ^ (length f - 4)"
        by (simp_all add: u)
      then show ?thesis
        using p amount_scaled [of "parse_dec (i @ f)" "length f"] by (simp add: decimal_value_def M_def)
    qed
    then show ?thesis using t [OF True] fits True by auto
  qed
qed

theorem amount_conversion_exact_witness:
  "\<exists>s. ten_thousand_cny_to_cny ''1.50'' = Ok s \<and> decimal_value s = 15000"
proof -
  have p: "decimal_parts ''1.50'' = (''1'', ''50'')" by (simp add: decimal_parts_def split_once_def)
  have "is_non_negative_decimal ''1.50''" by (simp add: is_non_negative_decimal_def is_ascii_digit_def)
  moreover have "amount_fits ''1.50''"
    by (simp add: amount_fits_def amount_digits_def amount_coefficient_def p parse_dec_def digit_val_def)
  moreover have "decimal_value ''1.50'' = 3 / 2"
    by (simp add: decimal_value_def p parse_dec_def digit_val_def)
  ultimately show ?thesis using amount_conversion_exact [of "''1.50''"] by auto
qed

end
