(* ===== verification/Terminal_Properties.thy ===== *)
theory Terminal_Properties
  imports Loopback Event_Totality
begin

text \<open>
  Properties of the bridge protocol and of the loopback client: frames come back as they were
  written, the sequence tracker accepts exactly the consecutive streams, and a price-volume answer
  is the one that was asked for.
\<close>

section \<open>Frames\<close>

text \<open>\<open>Write\<close> for \<open>Vec<u8>\<close> and \<open>Read\<close> for a byte slice.\<close>

definition vec_writer :: "u8 list writer" where
  "vec_writer = \<lparr>wr_write_all = (\<lambda>s bytes. (s @ bytes, Ok ())), wr_flush = (\<lambda>s. (s, Ok ()))\<rparr>"

definition slice_reader :: "u8 list reader" where
  "slice_reader = \<lparr>rd_read_exact = (\<lambda>s n. if length s < n then ([], Err UnexpectedEof)
     else (drop n s, Ok (take n s)))\<rparr>"

lemma unat_byte: "unat (ucast (drop_bit k w) :: u8) = unat w div 2 ^ k mod 256" for w :: u32
  by (simp add: unsigned_ucast_eq unat_drop_bit_eq take_bit_eq_mod flip: drop_bit_eq_div)

lemma div_digit: "n div (b * 256) * 256 + n div b mod 256 = n div b" for n b :: nat
  by (simp add: div_mult2_eq)

lemma be_value_u32: "be_value (be_bytes 4 w) = unat w" for w :: u32
proof -
  let ?n = "unat w"
  have b: "?n < 2 ^ 32" using unsigned_less [of w] by simp
  have u: "[0..<4] = [0, 1, 2, 3]" by (simp add: upt_rec)
  have "be_value (be_bytes 4 w)
      = ((?n div 2 ^ 24 mod 256 * 256 + ?n div 2 ^ 16 mod 256) * 256 + ?n div 2 ^ 8 mod 256) * 256 + ?n div 2 ^ 0 mod 256"
    by (simp only: be_value_def be_bytes_def u list.map foldl_Cons foldl_Nil unat_byte) simp
  also have "?n div 2 ^ 24 mod 256 = ?n div 2 ^ 24" using b by simp
  also have "?n div 2 ^ 24 * 256 + ?n div 2 ^ 16 mod 256 = ?n div 2 ^ 16"
    using div_digit [of ?n "2 ^ 16"] by simp
  also have "?n div 2 ^ 16 * 256 + ?n div 2 ^ 8 mod 256 = ?n div 2 ^ 8"
    using div_digit [of ?n "2 ^ 8"] by simp
  also have "?n div 2 ^ 8 * 256 + ?n div 2 ^ 0 mod 256 = ?n" using div_digit [of ?n 1] by simp
  finally show ?thesis .
qed

lemma write_chunks_fit:
  assumes "\<not> pw_overflowed w" and "length (pw_bytes w) + length (concat chunks) \<le> unat (pw_maximum w)"
  shows "write_chunks w chunks = (w\<lparr>pw_bytes := pw_bytes w @ concat chunks\<rparr>, True)"
  using assms
proof (induction chunks arbitrary: w)
  case (Cons chunk chunks)
  let ?v = "w\<lparr>pw_bytes := pw_bytes w @ chunk\<rparr>"
  have "payload_write w chunk = (?v, Ok (length chunk))" using Cons.prems by (auto simp: payload_write_def)
  moreover have "write_chunks ?v chunks = (?v\<lparr>pw_bytes := pw_bytes ?v @ concat chunks\<rparr>, True)"
    by (rule Cons.IH) (use Cons.prems in simp_all)
  ultimately show ?case using Cons by (cases "chunk = []") simp_all
qed simp

lemma write_chunks_over:
  assumes "unat (pw_maximum w) < length (pw_bytes w) + length (concat chunks)"
    and "length (pw_bytes w) \<le> unat (pw_maximum w)"
  shows "pw_overflowed (fst (write_chunks w chunks))"
  using assms
proof (induction chunks arbitrary: w)
  case (Cons chunk chunks)
  show ?case
  proof (cases "length (pw_bytes w) + length chunk \<le> unat (pw_maximum w)")
    case True
    let ?v = "w\<lparr>pw_bytes := pw_bytes w @ chunk\<rparr>"
    have "payload_write w chunk = (?v, Ok (length chunk))" using True by (auto simp: payload_write_def)
    moreover have "pw_overflowed (fst (write_chunks ?v chunks))"
      by (rule Cons.IH) (use Cons.prems True in simp_all)
    ultimately show ?thesis using Cons by (cases "chunk = []") simp_all
  next
    case False
    then have "unat (pw_maximum w) - length (pw_bytes w) < length chunk" using Cons.prems(2) by linarith
    then have "payload_write w chunk = (w\<lparr>pw_overflowed := True\<rparr>,
        Err (InvalidData ''encoded bridge frame exceeds configured maximum''))"
      by (simp add: payload_write_def)
    moreover have "chunk \<noteq> []" using False Cons.prems(2) by auto
    ultimately show ?thesis by simp
  qed
qed simp

definition codec_ok :: "frame_codec \<Rightarrow> bool" where
  "codec_ok codec \<longleftrightarrow> max_payload_len codec \<noteq> 0 \<and> max_payload_len codec \<le> 2 ^ 32 - 1"

lemma codec_ok_bound: "codec_ok codec \<Longrightarrow> unat (max_payload_len codec) < 2 ^ 32"
  by (auto simp: codec_ok_def word_le_nat_alt)

lemma frame_codec_new_ok: "frame_codec_new n = Ok codec \<longleftrightarrow> codec_ok codec \<and> codec = FrameCodec n"
  by (auto simp: frame_codec_new_def codec_ok_def not_less)

text \<open>A payload of the codec's range goes out behind its length and comes back with what follows.\<close>

lemma payload_round_trip:
  assumes "codec_ok codec" and "p \<noteq> []" and "length p \<le> unat (max_payload_len codec)"
  shows "write_payload codec vec_writer out p
      = (out @ be_bytes 4 (of_nat (length p) :: u32) @ p, Ok ())"
    "read_payload codec slice_reader (be_bytes 4 (of_nat (length p) :: u32) @ p @ rest) = (rest, Ok p)"
proof -
  have l: "length p < 2 ^ 32" using codec_ok_bound [OF assms(1)] assms(3) by simp
  show "write_payload codec vec_writer out p = (out @ be_bytes 4 (of_nat (length p) :: u32) @ p, Ok ())"
    using assms l by (simp add: write_payload_def vec_writer_def)
  have "be_value (be_bytes 4 (of_nat (length p) :: u32)) = length p"
    using l by (simp add: be_value_u32 unat_of_nat)
  then show "read_payload codec slice_reader (be_bytes 4 (of_nat (length p) :: u32) @ p @ rest) = (rest, Ok p)"
    using assms by (simp add: read_payload_def slice_reader_def)
qed

text \<open>A message is written exactly when it is valid and its encoding is not empty and fits,
  however the encoder cuts it into chunks.\<close>

lemma write_message_ok:
  fixes enc :: "(bridge_message, 'j) encoder"
  assumes c: "codec_ok codec" and e: "enc message = (chunks, None)" and p: "p = concat chunks"
  shows "write_message enc codec vec_writer out message =
     (case bridge_message_validate message :: (unit, 'j protocol_error) rres of
        Ok _ \<Rightarrow> if unat (max_payload_len codec) < length p
           then (out, Err (EncodedFrameTooLarge (max_payload_len codec)))
           else if p = [] then (out, Err EmptyFrame)
           else (out @ be_bytes 4 (of_nat (length p) :: u32) @ p, Ok ())
      | Err x \<Rightarrow> (out, Err x) | Panic x \<Rightarrow> (out, Panic x))"
proof (cases "bridge_message_validate message :: (unit, 'j protocol_error) rres")
  case (Ok u)
  let ?w = "payload_writer_new (max_payload_len codec)"
  obtain w ok where w: "write_chunks ?w chunks = (w, ok)" by fastforce
  have m: "write_message enc codec vec_writer out message =
      (if pw_overflowed w then (out, Err (EncodedFrameTooLarge (max_payload_len codec)))
       else write_payload codec vec_writer out (pw_bytes w))"
    using Ok e w by (simp add: write_message_def write_json_def)
  show ?thesis
  proof (cases "unat (max_payload_len codec) < length p")
    case True
    then have "pw_overflowed w"
      using write_chunks_over [of ?w chunks] w p by (simp add: payload_writer_new_def)
    then show ?thesis using m Ok True by simp
  next
    case False
    then have "\<not> pw_overflowed w" "pw_bytes w = p"
      using write_chunks_fit [of ?w chunks] w p by (auto simp: payload_writer_new_def)
    moreover have "write_payload codec vec_writer out p = (if p = [] then (out, Err EmptyFrame)
        else (out @ be_bytes 4 (of_nat (length p) :: u32) @ p, Ok ()))"
      using payload_round_trip(1) [OF c, of p out] False
      by (cases "p = []") (simp_all add: write_payload_def [of _ _ _ "[]"])
    ultimately show ?thesis using m Ok False by simp
  qed
qed (simp_all add: write_message_def)

text \<open>C31: a message that the codec writes is read back as it was, and the bytes after its frame are
  left for the next read. It is written exactly when it is valid and its encoding is neither empty
  nor longer than the codec's bound, however the encoder cuts the encoding into chunks.\<close>

theorem message_round_trip:
  fixes enc :: "(bridge_message, 'j) encoder" and decode :: "u8 list \<Rightarrow> (bridge_message, 'j) rres"
  assumes c: "frame_codec_new maximum = (Ok codec :: (frame_codec, 'j protocol_error) rres)"
    and e: "enc message = (chunks, None)"
    and d: "utf (concat chunks)" "decode (concat chunks) = Ok message"
  shows "(\<exists>out'. write_message enc codec vec_writer out message = (out', Ok ()))
      = (bridge_message_validate message = (Ok () :: (unit, 'j protocol_error) rres)
         \<and> concat chunks \<noteq> [] \<and> length (concat chunks) \<le> unat maximum)
    \<and> (\<forall>out'. write_message enc codec vec_writer out message = (out', Ok ()) \<longrightarrow>
         (\<exists>frame. out' = out @ frame
           \<and> (\<forall>rest. read_message utf decode codec slice_reader (frame @ rest) = (rest, Ok message))))"
proof -
  have ok: "codec_ok codec" "max_payload_len codec = maximum" using c by (auto simp: frame_codec_new_ok)
  define p where "p = concat chunks"
  note w = write_message_ok [where enc = enc and message = message and out = out, OF ok(1) e p_def]
  have "\<exists>frame. out' = out @ frame
      \<and> (\<forall>rest. read_message utf decode codec slice_reader (frame @ rest) = (rest, Ok message))"
    if o': "write_message enc codec vec_writer out message = (out', Ok ())" for out'
  proof -
    let ?f = "be_bytes 4 (of_nat (length p) :: u32) @ p"
    have p: "p \<noteq> []" "length p \<le> unat (max_payload_len codec)" "out' = out @ ?f"
      "bridge_message_validate message = (Ok () :: (unit, 'j protocol_error) rres)"
      using o' unfolding w by (auto split: rres.splits if_splits)
    have "read_message utf decode codec slice_reader (?f @ rest) = (rest, Ok message)" for rest
    proof -
      have "read_payload codec slice_reader (?f @ rest) = (rest, Ok p :: (u8 list, 'j protocol_error) rres)"
        using payload_round_trip(2) [OF ok(1) p(1,2), of rest] by simp
      then show ?thesis using p(4) d [folded p_def] by (simp add: read_message_def read_json_def)
    qed
    then show ?thesis using p(3) by blast
  qed
  moreover have "(\<exists>out'. write_message enc codec vec_writer out message = (out', Ok ()))
      = (bridge_message_validate message = (Ok () :: (unit, 'j protocol_error) rres) \<and> p \<noteq> [] \<and> length p \<le> unat maximum)"
    using w ok(2) by (auto split: rres.splits)
  ultimately show ?thesis unfolding p_def by blast
qed

definition sample_stopped :: bridge_message where
  "sample_stopped = MessageStopped (stopped_current 1)"

definition sample_encoder :: "(bridge_message, unit) encoder" where
  "sample_encoder m = ([[1], [], [2, 3]], None)"

definition sample_decoder :: "u8 list \<Rightarrow> (bridge_message, unit) rres" where
  "sample_decoder bytes = (if bytes = [1, 2, 3] then Ok sample_stopped else Err ())"

theorem message_round_trip_witness:
  "\<exists>out. write_message sample_encoder (FrameCodec 8) vec_writer [] sample_stopped = (out, Ok ())
    \<and> read_message (\<lambda>_. True) sample_decoder (FrameCodec 8) slice_reader (out @ [7]) = ([7], Ok sample_stopped)"
proof -
  have c: "frame_codec_new 8 = (Ok (FrameCodec 8) :: (frame_codec, unit protocol_error) rres)"
    by (simp add: frame_codec_new_def)
  have v: "bridge_message_validate sample_stopped = (Ok () :: (unit, unit protocol_error) rres)"
    by (simp add: sample_stopped_def stopped_current_def stopped_validate_def validate_versions_def
        validate_bridge_sequence_def)
  define utf :: "u8 list \<Rightarrow> bool" where "utf = (\<lambda>_. True)"
  have e: "sample_encoder sample_stopped = ([[1], [], [2, 3]], None)" by (simp add: sample_encoder_def)
  have d: "utf (concat [[1], [], [2, 3]])" "sample_decoder (concat [[1], [], [2, 3]]) = Ok sample_stopped"
    by (simp_all add: utf_def sample_decoder_def)
  note t = message_round_trip [where enc = sample_encoder and message = sample_stopped and out = "[]"
      and utf = utf and decode = sample_decoder, OF c e d]
  obtain out where o': "write_message sample_encoder (FrameCodec 8) vec_writer [] sample_stopped = (out, Ok ())"
    using t v by auto
  then obtain frame where "out = frame"
      "\<forall>rest. read_message utf sample_decoder (FrameCodec 8) slice_reader (frame @ rest) = (rest, Ok sample_stopped)"
    using t by fastforce
  with o' show ?thesis unfolding utf_def by blast
qed

section \<open>The sequence tracker\<close>

fun tracker_accepts :: "u64 option \<Rightarrow> bridge_message list \<Rightarrow> bool" where
  "tracker_accepts seen [] = True"
| "tracker_accepts seen (m # ms) =
     (case tracker_observe seen m of
        (seen, Ok _ :: (unit, unit protocol_error) rres) \<Rightarrow> tracker_accepts seen ms
      | _ \<Rightarrow> False)"

fun message_sequences :: "bridge_message list \<Rightarrow> u64 list" where
  "message_sequences [] = []"
| "message_sequences (m # ms) =
     (case message_sequence m of None \<Rightarrow> message_sequences ms | Some n \<Rightarrow> n # message_sequences ms)"

definition message_ok :: "bridge_message \<Rightarrow> bool" where
  "message_ok m \<longleftrightarrow> bridge_message_validate m = (Ok () :: (unit, unit protocol_error) rres)"

definition seen_count :: "u64 option \<Rightarrow> nat" where
  "seen_count seen = (case seen of None \<Rightarrow> 0 | Some n \<Rightarrow> unat n)"

lemma tracker_step:
  "(\<exists>u. tracker_observe seen m = (seen', Ok u :: (unit, unit protocol_error) rres)) \<longleftrightarrow>
     message_ok m \<and> (case message_sequence m of
       None \<Rightarrow> seen' = seen
     | Some n \<Rightarrow> unat n = Suc (seen_count seen) \<and> seen' = Some n)"
proof (cases "bridge_message_validate m :: (unit, unit protocol_error) rres")
  case (Ok u)
  show ?thesis
  proof (cases "message_sequence m")
    case None
    then show ?thesis using Ok by (auto simp: tracker_observe_def message_ok_def)
  next
    case (Some n)
    show ?thesis
    proof (cases seen)
      case None
      have "n = 1 \<longleftrightarrow> unat n = 1" by (simp add: word_unat_eq_iff)
      then show ?thesis using Ok Some None
        by (auto simp: tracker_observe_def message_ok_def seen_count_def)
    next
      case (Some p)
      have "unat n < 2 ^ 64" using unsigned_less [of n] by simp
      moreover have "n = p + 1 \<longleftrightarrow> unat n = Suc (unat p)" if "unat p + 1 < 2 ^ 64"
        using that by (simp add: word_unat_eq_iff unat_add_no_overflow)
      ultimately show ?thesis using Ok Some \<open>message_sequence m = Some n\<close>
        by (auto simp: tracker_observe_def message_ok_def seen_count_def checked_add_def)
    qed
  qed
qed (auto simp: tracker_observe_def message_ok_def)

lemma tracker_accepts_from:
  "tracker_accepts seen ms \<longleftrightarrow> (\<forall>m\<in>set ms. message_ok m)
     \<and> map unat (message_sequences ms) = [Suc (seen_count seen)..<Suc (seen_count seen) + length (message_sequences ms)]"
proof (induction ms arbitrary: seen)
  case (Cons m ms)
  obtain seen' r where o': "tracker_observe seen m = (seen', r :: (unit, unit protocol_error) rres)" by fastforce
  have step: "tracker_accepts seen (m # ms) \<longleftrightarrow> (\<exists>u. r = Ok u) \<and> tracker_accepts seen' ms"
    using o' by (auto split: rres.splits)
  note s = tracker_step [of seen m]
  show ?case
  proof (cases "message_sequence m")
    case None
    then have "(\<exists>u. r = Ok u) \<longleftrightarrow> message_ok m \<and> seen' = seen" using s [of seen'] o' by auto
    moreover have "(\<exists>u. r = Ok u) \<longleftrightarrow> message_ok m" using s [of seen] s [of seen'] o' None by auto
    ultimately show ?thesis using step Cons.IH None by auto
  next
    case (Some n)
    have ok: "(\<exists>u. r = Ok u) \<longleftrightarrow> message_ok m \<and> unat n = Suc (seen_count seen)"
      using s [of seen'] s [of "Some n"] o' Some by auto
    have n: "seen' = Some n" if "\<exists>u. r = Ok u" using s [of seen'] o' Some that by auto
    show ?thesis
    proof (cases "message_ok m \<and> unat n = Suc (seen_count seen)")
      case True
      then have "seen_count seen' = Suc (seen_count seen)" using ok n by (simp add: seen_count_def)
      then show ?thesis using step ok True Cons.IH Some
        by (auto simp: upt_conv_Cons simp del: upt_Suc)
    next
      case False
      then show ?thesis using step ok Some by (auto simp: upt_conv_Cons simp del: upt_Suc)
    qed
  qed
qed simp

text \<open>C32: a fresh tracker accepts a stream of messages exactly when each is valid and the sequence
  numbers of those that carry one are 1, 2, 3 and so on without a gap or a repetition; a hello
  carries none and does not move the count.\<close>

theorem tracker_accepts_consecutive:
  "tracker_accepts tracker_new ms = ((\<forall>m\<in>set ms. message_ok m)
     \<and> map unat (message_sequences ms) = [1..<Suc (length (message_sequences ms))])"
  using tracker_accepts_from [of tracker_new ms] by (simp add: tracker_new_def seen_count_def)

theorem tracker_accepts_consecutive_witness:
  "tracker_accepts tracker_new [sample_stopped, MessageStopped (stopped_current 2)]
    \<and> \<not> tracker_accepts tracker_new [sample_stopped, sample_stopped]"
  unfolding tracker_accepts_consecutive
  by (simp add: sample_stopped_def stopped_current_def message_ok_def stopped_validate_def
      validate_versions_def validate_bridge_sequence_def)

section \<open>Price-volume answers\<close>

text \<open>What the loop over the requested instruments gives, with the rows still to be taken.\<close>

lemma rows_exact:
  assumes "price_volume_rows vals first n t ws = Ok obs" and "distinct (map wire_symbol ws)"
  shows "length obs = length ws \<and> (\<forall>k<length ws. \<exists>row. Mapping.lookup vals (wire_symbol (ws ! k)) = Some row
     \<and> checked_add first (of_nat (n + k)) = Some (so_bridge_sequence (obs ! k))
     \<and> obs ! k = price_volume_observation (so_bridge_sequence (obs ! k)) (ws ! k) t row
     \<and> mapped_validate ''mapped observation failed protocol validation'' (obs ! k) = Ok ())"
  using assms
proof (induction ws arbitrary: vals n obs)
  case (Cons i ws)
  obtain row rest sequence where o': "Mapping.lookup vals (wire_symbol i) = Some row"
    "checked_add first (of_nat n) = Some sequence" "obs = price_volume_observation sequence i t row # rest"
    "mapped_validate ''mapped observation failed protocol validation'' (price_volume_observation sequence i t row) = Ok ()"
    "price_volume_rows (Mapping.delete (wire_symbol i) vals) first (n + 1) t ws = Ok rest"
    using Cons.prems(1) by (auto simp: res_simps Let_def ok_or_def split: option.splits)
  have seq: "so_bridge_sequence (price_volume_observation sequence i t row) = sequence"
    by (simp add: price_volume_observation_def)
  note IH = Cons.IH [OF o'(5)]
  have l: "length rest = length ws" and r: "\<forall>k<length ws. \<exists>row. Mapping.lookup (Mapping.delete (wire_symbol i) vals) (wire_symbol (ws ! k)) = Some row
     \<and> checked_add first (of_nat (n + 1 + k)) = Some (so_bridge_sequence (rest ! k))
     \<and> rest ! k = price_volume_observation (so_bridge_sequence (rest ! k)) (ws ! k) t row
     \<and> mapped_validate ''mapped observation failed protocol validation'' (rest ! k) = Ok ()"
    using IH Cons.prems(2) by auto
  have "\<exists>row. Mapping.lookup vals (wire_symbol ((i # ws) ! k)) = Some row
     \<and> checked_add first (of_nat (n + k)) = Some (so_bridge_sequence (obs ! k))
     \<and> obs ! k = price_volume_observation (so_bridge_sequence (obs ! k)) ((i # ws) ! k) t row
     \<and> mapped_validate ''mapped observation failed protocol validation'' (obs ! k) = Ok ()"
    if k: "k < length (i # ws)" for k
  proof (cases k)
    case 0
    then show ?thesis using o'(1-4) seq by simp
  next
    case (Suc j)
    then have j: "j < length ws" using k by simp
    then have "wire_symbol (ws ! j) \<in> set (map wire_symbol ws)" by simp
    then have ne: "wire_symbol (ws ! j) \<noteq> wire_symbol i" using Cons.prems(2) by (metis distinct.simps(2) list.simps(9))
    then have "Mapping.lookup (Mapping.delete (wire_symbol i) vals) (wire_symbol (ws ! j))
        = Mapping.lookup vals (wire_symbol (ws ! j))" by (simp add: lookup_delete_neq)
    with r [rule_format, OF j] Suc o'(3) show ?thesis by (simp add: add.assoc)
  qed
  then show ?case using l o'(3) by simp
qed simp

lemma keys_of_size:
  assumes "Mapping.size values = length xs" "distinct xs" "xs \<noteq> []" "\<forall>x\<in>set xs. Mapping.lookup values x \<noteq> None"
  shows "Mapping.keys values = set xs"
proof -
  have "card (Mapping.keys values) = card (set xs)"
    using assms(1,2) by (cases "finite (Mapping.keys values)") (simp_all add: Mapping.size_def distinct_card)
  moreover have "set xs \<subseteq> Mapping.keys values" using assms(4) by (auto simp: keys_is_none_rep Option.is_none_def)
  moreover have "finite (Mapping.keys values)"
    using assms(1,3) by (metis Mapping.size_def card.infinite length_0_conv)
  ultimately show ?thesis by (metis card_subset_eq)
qed

text \<open>C33: an accepted answer to a price-volume poll is the answer to that request and to nothing
  else: its rows are those of the requested symbols, no more and no fewer; the observations come in
  the order of the request, each with its instrument, the time of the request, the next sequence
  number and the two texts of its row; and each is valid on the bridge's protocol.\<close>

theorem price_volume_batch_exact:
  assumes "poll_price_volumes js send rid first is t = Ok obs" and "length is < 2 ^ 64"
  shows "\<exists>response v result rows.
      send \<lparr>rq_id = rid, rq_method = ''get_pricevol'', rq_params = PriceVolumeParams (map wire_symbol is)\<rparr> = Ok response
      \<and> decode_envelope js ''response envelope does not match the exact id/result schema'' response rid = Ok v
      \<and> tj_price_volume js v = Some result \<and> pr_error_id result = ''0'' \<and> pr_value result = Some rows
      \<and> Mapping.keys rows = set (map wire_symbol is) \<and> length obs = length is
      \<and> (\<forall>k<length is. \<exists>row. Mapping.lookup rows (wire_symbol (is ! k)) = Some row
           \<and> obs ! k = price_volume_observation (so_bridge_sequence (obs ! k)) (is ! k) t row
           \<and> unat (so_bridge_sequence (obs ! k)) = unat first + k
           \<and> source_observation_validate (obs ! k) = (Ok () :: (unit, unit protocol_error) rres))"
proof -
  have ne: "is \<noteq> []" "distinct (map wire_symbol is)" using assms(1) by (auto simp: poll_price_volumes_def Let_def split: if_splits)
  obtain response where r: "send \<lparr>rq_id = rid, rq_method = wire_name PriceVolume, rq_params = PriceVolumeParams (map wire_symbol is)\<rparr> = Ok response"
    "parse_price_volume_responses js response rid first is t = Ok obs"
    using assms(1) by (auto simp: poll_price_volumes_def Let_def res_simps validate_observation_time_def split: if_splits)
  obtain v result rows where p: "decode_envelope js ''response envelope does not match the exact id/result schema'' response rid = Ok v"
    "tj_price_volume js v = Some result" "pr_error_id result = ''0''" "pr_value result = Some rows"
    "Mapping.size rows = length is" "price_volume_rows rows first 0 t is = Ok obs"
    using r(2) by (auto simp: parse_price_volume_responses_def res_simps ok_or_def split: if_splits option.splits)
  note x = rows_exact [OF p(6) ne(2)]
  have "Mapping.lookup rows s \<noteq> None" if "s \<in> set (map wire_symbol is)" for s
    using x that by (force simp: in_set_conv_nth)
  then have keys: "Mapping.keys rows = set (map wire_symbol is)"
    using keys_of_size [of rows "map wire_symbol is"] p(5) ne by simp
  have each: "\<exists>row. Mapping.lookup rows (wire_symbol (is ! k)) = Some row
      \<and> obs ! k = price_volume_observation (so_bridge_sequence (obs ! k)) (is ! k) t row
      \<and> unat (so_bridge_sequence (obs ! k)) = unat first + k
      \<and> source_observation_validate (obs ! k) = (Ok () :: (unit, unit protocol_error) rres)"
    if k: "k < length is" for k
  proof -
    obtain row where o': "Mapping.lookup rows (wire_symbol (is ! k)) = Some row"
      "checked_add first (of_nat (0 + k)) = Some (so_bridge_sequence (obs ! k))"
      "obs ! k = price_volume_observation (so_bridge_sequence (obs ! k)) (is ! k) t row"
      "mapped_validate ''mapped observation failed protocol validation'' (obs ! k) = Ok ()"
      using x k by blast
    have "unat (of_nat k :: u64) = k" using k assms(2) by (simp add: unat_of_nat)
    then have "unat (so_bridge_sequence (obs ! k)) = unat first + k" using checked_add_unat [OF o'(2)] by simp
    moreover have "source_observation_validate (obs ! k) = (Ok () :: (unit, unit protocol_error) rres)"
      using o'(4) by (cases "source_observation_validate (obs ! k) :: (unit, unit protocol_error) rres")
        (simp_all add: mapped_validate_def)
    ultimately show ?thesis using o'(1,3) by blast
  qed
  show ?thesis using r(1) p keys x each by (intro exI [of _ response] exI [of _ v] exI [of _ result] exI [of _ rows]) auto
qed

definition sample_tq_instrument :: tq_instrument where
  "sample_tq_instrument = TqInstrument \<lparr>si_exchange = SourceShanghai, si_code = ''600396''\<rparr>"

definition sample_row :: price_volume_row where
  "sample_row = \<lparr>pv_last_close = ''16.80'', pv_now = ''17.18'', pv_volume = ''2543527''\<rparr>"

definition sample_tq_json :: "nat tq_json" where
  "sample_tq_json = \<lparr>tj_from_slice = (\<lambda>_. Some 0), tj_envelope = (\<lambda>_. Some (7, 1)), tj_universe = (\<lambda>_. None),
     tj_price_volume = (\<lambda>_. Some \<lparr>pr_error_id = ''0'', pr_error = None,
       pr_value = Some (Mapping.update ''600396.SH'' sample_row Mapping.empty)\<rparr>),
     tj_header = (\<lambda>_. None), tj_snapshot = (\<lambda>_. None)\<rparr>"

lemma sample_poll:
  "\<exists>obs. poll_price_volumes sample_tq_json (\<lambda>_. Ok []) 7 1 [sample_tq_instrument] ''t'' = Ok obs"
proof -
  have s: "wire_symbol sample_tq_instrument = ''600396.SH''" by (simp add: wire_symbol_def sample_tq_instrument_def)
  have t: "\<not> padded_or_control ''t''"
    by (simp add: padded_or_control_def printable_text(1) printable_def is_control_def utf8_width_def)
  have o': "mapped_validate r (price_volume_observation 1 sample_tq_instrument ''t'' sample_row) = Ok ()" for r
    using t by (simp add: mapped_validate_def source_observation_validate_def price_volume_observation_def
        source_instrument_validate_def validate_versions_def validate_bridge_sequence_def sample_row_def
        sample_tq_instrument_def validate_message_text_def validate_decimal_field_def decimal_validate_def
        is_non_negative_decimal_def is_ascii_digit_def)
  have "price_volume_rows (Mapping.update ''600396.SH'' sample_row Mapping.empty) 1 0 ''t'' [sample_tq_instrument]
      = Ok [price_volume_observation 1 sample_tq_instrument ''t'' sample_row]"
    using o' by (simp add: s lookup_update ok_or_def validate_decimal_def decimal_validate_def sample_row_def
        is_non_negative_decimal_def is_ascii_digit_def checked_add_def)
  then show ?thesis using t s
    by (simp add: poll_price_volumes_def validate_poll_request_def validate_observation_time_def
        parse_price_volume_responses_def decode_envelope_def sample_tq_json_def ok_or_def
        Mapping.size_def keys_update)
qed

theorem price_volume_batch_exact_witness:
  "\<exists>obs. poll_price_volumes sample_tq_json (\<lambda>_. Ok []) 7 1 [sample_tq_instrument] ''t'' = Ok obs
    \<and> length obs = 1 \<and> so_bridge_sequence (obs ! 0) = 1"
proof -
  obtain obs where o': "poll_price_volumes sample_tq_json (\<lambda>_. Ok []) 7 1 [sample_tq_instrument] ''t'' = Ok obs"
    using sample_poll by blast
  have l: "length [sample_tq_instrument] < 2 ^ 64" by simp
  from price_volume_batch_exact [OF o' l] have "length obs = 1" "unat (so_bridge_sequence (obs ! 0)) = 1" by auto
  then show ?thesis using o' by (metis unat_1 word_unat_eq_iff)
qed

end
