(* ===== verification/Terminal_Analysis.thy ===== *)
theory Terminal_Analysis
  imports Price_Monitor Delta_Monitor Terminal_Protocol
begin

text \<open>
  The analyzers of the monitor server, \<open>magic-market-monitor-server\<close> \<open>analysis.rs\<close>: the three
  monitors behind one interface, the cursors their observations carry, and the updates they
  report. An error the code turns into text is kept as the error it prints.
\<close>

section \<open>Rules\<close>

datatype analysis_error =
    AnalysisCore core_error
  | AnalysisMonitor monitor_error
  | AnalysisMessage string

definition rule_limits_new :: "u16 \<Rightarrow> u16 \<Rightarrow> (monitor_limits, analysis_error) rres" where
  "rule_limits_new instruments capacity = map_err AnalysisMonitor (monitor_limits_new instruments capacity)"

record price_rule =
  pl_inner :: price_change_rule
  pl_version :: u32

record amount_rule =
  al_inner :: amount_spike_rule
  al_version :: u32

record volume_rule =
  vl_inner :: volume_spike_rule
  vl_version :: u32

definition price_rule_new ::
  "u32 \<Rightarrow> u64 \<Rightarrow> u64 \<Rightarrow> f64 \<Rightarrow> f64 \<Rightarrow> u64 \<Rightarrow> (price_rule, analysis_error) rres" where
  "price_rule_new version window tolerance trigger rearm cooldown =
     (if version = 0 then Err (AnalysisMessage ''price rule version must be positive'')
      else rbind (map_err AnalysisMonitor (price_change_rule_new window tolerance trigger rearm cooldown))
             (\<lambda>inner. Ok \<lparr>pl_inner = inner, pl_version = version\<rparr>))"

definition amount_rule_new ::
  "u32 \<Rightarrow> u64 \<Rightarrow> u64 \<Rightarrow> f64 \<Rightarrow> f64 \<Rightarrow> u64 \<Rightarrow> (amount_rule, analysis_error) rres" where
  "amount_rule_new version window tolerance trigger_delta rearm_delta cooldown =
     rbind (map_err AnalysisCore (money_new trigger_delta)) (\<lambda>trigger.
     rbind (map_err AnalysisCore (money_new rearm_delta)) (\<lambda>rearm.
     rbind (map_err AnalysisMonitor (amount_spike_rule_new version window tolerance trigger rearm cooldown))
       (\<lambda>inner. Ok \<lparr>al_inner = inner, al_version = version\<rparr>)))"

definition volume_rule_new ::
  "u32 \<Rightarrow> u64 \<Rightarrow> u64 \<Rightarrow> f64 \<Rightarrow> f64 \<Rightarrow> u64 \<Rightarrow> (volume_rule, analysis_error) rres" where
  "volume_rule_new version window tolerance trigger_delta rearm_delta cooldown =
     rbind (map_err AnalysisCore (quantity_new trigger_delta)) (\<lambda>trigger.
     rbind (map_err AnalysisCore (quantity_new rearm_delta)) (\<lambda>rearm.
     rbind (map_err AnalysisMonitor
              (volume_spike_rule_new version window tolerance trigger rearm Lot cooldown))
       (\<lambda>inner. Ok \<lparr>vl_inner = inner, vl_version = version\<rparr>)))"

section \<open>Updates\<close>

datatype analysis_family = FamilyPrice | FamilyAmount | FamilyVolume

datatype public_rule_state = PublicWarmingUp | PublicArmed | PublicTriggered | PublicCoolingDown

datatype analysis_reset_reason =
    ResetNonContinuous continuity_state
  | ResetAmountRollback
  | ResetVolumeRollback
  | ResetRecordCountRollback
  | ResetSamplingGap
  | ResetTradingDateChanged
  | ResetSessionBoundary
  | ResetMiddayBreak

datatype analysis_transition =
    AnalysisWarmedUp
  | AnalysisTriggered f64
  | AnalysisEnteredCoolingDown
  | AnalysisRearmed f64
  | AnalysisReset analysis_reset_reason

record analysis_update =
  au_family :: analysis_family
  au_instrument :: string
  au_state :: public_rule_state
  au_transition :: analysis_transition
  au_value_unit :: string
  au_rule_version :: u32
  au_anomaly_event :: "anomaly_event option"

fun public_state :: "rule_state \<Rightarrow> public_rule_state" where
  "public_state WarmingUp = PublicWarmingUp"
| "public_state Armed = PublicArmed"
| "public_state rule_state.Triggered = PublicTriggered"
| "public_state CoolingDown = PublicCoolingDown"

fun analysis_reason :: "reset_reason \<Rightarrow> analysis_reset_reason" where
  "analysis_reason (NonContinuous c) = ResetNonContinuous c"
| "analysis_reason CumulativeAmountRollback = ResetAmountRollback"
| "analysis_reason CumulativeVolumeRollback = ResetVolumeRollback"
| "analysis_reason SourceRecordCountRollback = ResetRecordCountRollback"
| "analysis_reason SamplingGap = ResetSamplingGap"
| "analysis_reason TradingDateChanged = ResetTradingDateChanged"
| "analysis_reason SessionBoundary = ResetSessionBoundary"
| "analysis_reason MiddayBreak = ResetMiddayBreak"

fun analysis_price_transition :: "monitor_transition \<Rightarrow> analysis_transition" where
  "analysis_price_transition monitor_transition.WarmedUp = AnalysisWarmedUp"
| "analysis_price_transition (monitor_transition.Triggered v) = AnalysisTriggered v"
| "analysis_price_transition monitor_transition.EnteredCoolingDown = AnalysisEnteredCoolingDown"
| "analysis_price_transition (monitor_transition.Rearmed v) = AnalysisRearmed v"
| "analysis_price_transition (monitor_transition.Reset reason) = AnalysisReset (analysis_reason reason)"

fun analysis_amount_transition :: "amount_transition \<Rightarrow> analysis_transition" where
  "analysis_amount_transition AmountWarmedUp = AnalysisWarmedUp"
| "analysis_amount_transition (AmountTriggered d) = AnalysisTriggered (money_get d)"
| "analysis_amount_transition AmountEnteredCoolingDown = AnalysisEnteredCoolingDown"
| "analysis_amount_transition (AmountRearmed d) = AnalysisRearmed (money_get d)"
| "analysis_amount_transition (AmountReset reason) = AnalysisReset (analysis_reason reason)"

fun analysis_volume_transition :: "volume_transition \<Rightarrow> analysis_transition" where
  "analysis_volume_transition VolumeWarmedUp = AnalysisWarmedUp"
| "analysis_volume_transition (VolumeTriggered d _) = AnalysisTriggered (quantity_get d)"
| "analysis_volume_transition VolumeEnteredCoolingDown = AnalysisEnteredCoolingDown"
| "analysis_volume_transition (VolumeRearmed d _) = AnalysisRearmed (quantity_get d)"
| "analysis_volume_transition (VolumeReset reason) = AnalysisReset (analysis_reason reason)"

text \<open>The transitions the code builds an event for.\<close>

fun price_transition_has_event :: "monitor_transition \<Rightarrow> bool" where
  "price_transition_has_event (monitor_transition.Triggered _) = True"
| "price_transition_has_event (monitor_transition.Rearmed _) = True"
| "price_transition_has_event _ = False"

fun amount_transition_has_event :: "amount_transition \<Rightarrow> bool" where
  "amount_transition_has_event (AmountTriggered _) = True"
| "amount_transition_has_event (AmountRearmed _) = True"
| "amount_transition_has_event _ = False"

fun volume_transition_has_event :: "volume_transition \<Rightarrow> bool" where
  "volume_transition_has_event (VolumeTriggered _ _) = True"
| "volume_transition_has_event (VolumeRearmed _ _) = True"
| "volume_transition_has_event _ = False"

section \<open>Cursors\<close>

text \<open>The formatting specifications \<open>{:x}\<close> and \<open>{:0wx}\<close>.\<close>

fun lower_hex :: "nat \<Rightarrow> string" where
  "lower_hex n = (if n < 16 then [hex_digits ! n] else lower_hex (n div 16) @ [hex_digits ! (n mod 16)])"

declare lower_hex.simps [simp del]

definition hex_pad :: "nat \<Rightarrow> nat \<Rightarrow> string" where
  "hex_pad w n = replicate (w - length (lower_hex n)) (CHR ''0'') @ lower_hex n"

definition analysis_cursor :: "u64 \<Rightarrow> u64 \<Rightarrow> u8 \<Rightarrow> (stream_cursor, analysis_error) rres" where
  "analysis_cursor generation sequence family =
     (let high = drop_bit 48 generation; low = generation AND 0x0000ffffffffffff in
      rbind (map_err AnalysisCore (stream_generation_new
               (''00000000-0000-00'' @ hex_pad 2 (unat family) @ ''-'' @ hex_pad 4 (unat high)
                  @ ''-'' @ hex_pad 12 (unat low)))) (\<lambda>g.
      rbind (map_err AnalysisCore (stream_sequence_new sequence)) (\<lambda>s.
      Ok \<lparr>sc_generation = g, sc_sequence = s\<rparr>)))"

definition anomaly_continuity :: stream_continuity where
  "anomaly_continuity = \<lparr>ct_observation = Continuous, ct_source = Unknown\<rparr>"

fun exchange_of :: "source_exchange \<Rightarrow> exchange" where
  "exchange_of SourceShanghai = Shanghai"
| "exchange_of SourceShenzhen = Shenzhen"
| "exchange_of SourceBeijing = Beijing"

section \<open>The analyzers\<close>

record analysis_input =
  ni_instrument_label :: string
  ni_exchange :: source_exchange
  ni_code :: string
  ni_observed_at_utc :: string
  ni_arrival_millis :: u64
  ni_generation :: u64
  ni_sequence :: u64
  ni_price :: "f64 option"
  ni_cumulative_volume_lots :: "f64 option"

record amount_analysis_input =
  mi_instrument_label :: string
  mi_exchange :: source_exchange
  mi_code :: string
  mi_observed_at_utc :: string
  mi_arrival_millis :: u64
  mi_generation :: u64
  mi_sequence :: u64
  mi_cumulative_amount_cny :: f64

record analyzers =
  az_limits :: monitor_limits
  az_price_rule :: price_rule
  az_volume_rule :: volume_rule
  az_amount_rule :: amount_rule
  az_price :: price_monitor
  az_amount :: amount_monitor
  az_volume :: volume_monitor
  az_volume_rule_version :: u32
  az_fast_active :: bool
  az_amount_active :: bool

definition analyzers_new ::
  "monitor_limits \<Rightarrow> price_rule \<Rightarrow> amount_rule \<Rightarrow> volume_rule \<Rightarrow> analyzers" where
  "analyzers_new limits price amount volume =
     \<lparr>az_limits = limits, az_price_rule = price, az_volume_rule = volume, az_amount_rule = amount,
      az_price = price_monitor_new limits (pl_inner price),
      az_amount = amount_monitor_new limits (al_inner amount),
      az_volume = volume_monitor_new limits (vl_inner volume),
      az_volume_rule_version = vl_version volume, az_fast_active = False, az_amount_active = False\<rparr>"

definition analysis_evidence :: "string \<Rightarrow> string \<Rightarrow> (source_evidence, analysis_error) rres" where
  "analysis_evidence observed_at batch =
     map_err AnalysisCore (source_evidence_new LocalTerminal observed_at batch)"

definition analysis_observation ::
  "instrument_id \<Rightarrow> source_evidence \<Rightarrow> u64 \<Rightarrow> price option \<Rightarrow> money option \<Rightarrow> quantity option
     \<Rightarrow> source_quantity_unit option \<Rightarrow> (injected_observation, analysis_error) rres" where
  "analysis_observation instrument evidence arrival price amount volume unit =
     map_err AnalysisMonitor
       (observation_from_families instrument evidence arrival price amount volume unit Continuous)"

text \<open>The part of \<open>process\<close> for a price, and the part for a volume.\<close>

definition analyze_price ::
  "(u8 list \<Rightarrow> u8 list) \<Rightarrow> analyzers \<Rightarrow> analysis_input \<Rightarrow> instrument_id \<Rightarrow> source_evidence
     \<Rightarrow> stream_cursor \<Rightarrow> f64 \<Rightarrow> analyzers \<times> (analysis_update list, analysis_error) rres" where
  "analyze_price sha az inp instrument evidence cursor value =
     sbind (az, rbind (map_err AnalysisCore (price_new value)) (\<lambda>price.
       analysis_observation instrument evidence (ni_arrival_millis inp) (Some price) None None None))
       (\<lambda>az observation.
     sbind (case price_monitor_process (az_price az) (with_stream_cursor observation cursor) of
              (m, r) \<Rightarrow> (az\<lparr>az_price := m\<rparr>, map_err AnalysisMonitor r)) (\<lambda>az outcome.
     let az = az\<lparr>az_fast_active := True\<rparr> in
     case po_transition outcome of
       None \<Rightarrow> (az, Ok [])
     | Some transition \<Rightarrow>
         (az,
          rbind (if price_transition_has_event transition
                 then rbind (ok_or (AnalysisMessage ''price anomaly transition has no window evidence'')
                               (price_monitor_window_evidence (az_price az) instrument)) (\<lambda>e.
                      map_err AnalysisCore (map_ok Some
                        (price_core_event sha e (pl_inner (az_price_rule az)) (pl_version (az_price_rule az))
                           transition cursor anomaly_continuity (ni_observed_at_utc inp))))
                 else Ok None) (\<lambda>event.
          Ok [\<lparr>au_family = FamilyPrice, au_instrument = ni_instrument_label inp,
               au_state = public_state (po_state outcome),
               au_transition = analysis_price_transition transition, au_value_unit = ''ratio'',
               au_rule_version = pl_version (az_price_rule az), au_anomaly_event = event\<rparr>]))))"

definition analyze_volume ::
  "(u8 list \<Rightarrow> u8 list) \<Rightarrow> analyzers \<Rightarrow> analysis_input \<Rightarrow> instrument_id \<Rightarrow> source_evidence
     \<Rightarrow> stream_cursor \<Rightarrow> f64 \<Rightarrow> analyzers \<times> (analysis_update list, analysis_error) rres" where
  "analyze_volume sha az inp instrument evidence cursor value =
     sbind (az, rbind (map_err AnalysisCore (quantity_new value)) (\<lambda>volume.
       analysis_observation instrument evidence (ni_arrival_millis inp) None None (Some volume) (Some Lot)))
       (\<lambda>az observation.
     sbind (case volume_monitor_process (az_volume az) (with_stream_cursor observation cursor) of
              (m, r) \<Rightarrow> (az\<lparr>az_volume := m\<rparr>, map_err AnalysisMonitor r)) (\<lambda>az outcome.
     let az = az\<lparr>az_fast_active := True\<rparr> in
     case vo_transition outcome of
       None \<Rightarrow> (az, Ok [])
     | Some transition \<Rightarrow>
         (az,
          rbind (if volume_transition_has_event transition
                 then map_err AnalysisCore (map_ok Some
                        (volume_core_event sha outcome instrument (vl_inner (az_volume_rule az)) cursor
                           anomaly_continuity (ni_observed_at_utc inp)))
                 else Ok None) (\<lambda>event.
          Ok [\<lparr>au_family = FamilyVolume, au_instrument = ni_instrument_label inp,
               au_state = public_state (vo_state outcome),
               au_transition = analysis_volume_transition transition, au_value_unit = ''lot'',
               au_rule_version = az_volume_rule_version az, au_anomaly_event = event\<rparr>]))))"

definition analysis_instrument :: "source_exchange \<Rightarrow> string \<Rightarrow> (instrument_id, analysis_error) rres" where
  "analysis_instrument exchange code =
     map_err AnalysisCore (instrument_id_new (exchange_of exchange) code Equity)"

definition analyze ::
  "(u8 list \<Rightarrow> u8 list) \<Rightarrow> analyzers \<Rightarrow> analysis_input
     \<Rightarrow> analyzers \<times> (analysis_update list, analysis_error) rres" where
  "analyze sha az inp =
     sbind (az, analysis_instrument (ni_exchange inp) (ni_code inp)) (\<lambda>az instrument.
     sbind (az, analysis_evidence (ni_observed_at_utc inp)
              (''tdx-loopback-'' @ dec (unat (ni_generation inp)) @ ''-'' @ dec (unat (ni_sequence inp)))) (\<lambda>az evidence.
     sbind (az, analysis_cursor (ni_generation inp) (ni_sequence inp) 0) (\<lambda>az cursor.
     sbind (case ni_price inp of
              None \<Rightarrow> (az, Ok [])
            | Some value \<Rightarrow> analyze_price sha az inp instrument evidence cursor value) (\<lambda>az price_updates.
     sbind (case ni_cumulative_volume_lots inp of
              None \<Rightarrow> (az, Ok [])
            | Some value \<Rightarrow> analyze_volume sha az inp instrument evidence cursor value) (\<lambda>az volume_updates.
     (az, Ok (price_updates @ volume_updates)))))))"

definition analyze_amount ::
  "(u8 list \<Rightarrow> u8 list) \<Rightarrow> analyzers \<Rightarrow> amount_analysis_input
     \<Rightarrow> analyzers \<times> (analysis_update list, analysis_error) rres" where
  "analyze_amount sha az inp =
     sbind (az, analysis_instrument (mi_exchange inp) (mi_code inp)) (\<lambda>az instrument.
     sbind (az, analysis_evidence (mi_observed_at_utc inp)
              (''tdx-loopback-snapshot-'' @ dec (unat (mi_generation inp)) @ ''-'' @ dec (unat (mi_sequence inp)))) (\<lambda>az evidence.
     sbind (az, map_err AnalysisCore (money_new (mi_cumulative_amount_cny inp))) (\<lambda>az amount.
     sbind (az, analysis_observation instrument evidence (mi_arrival_millis inp) None (Some amount) None None) (\<lambda>az observation.
     sbind (az, analysis_cursor (mi_generation inp) (mi_sequence inp) 1) (\<lambda>az cursor.
     sbind (case amount_monitor_process (az_amount az) (with_stream_cursor observation cursor) of
              (m, r) \<Rightarrow> (az\<lparr>az_amount := m\<rparr>, map_err AnalysisMonitor r)) (\<lambda>az outcome.
     let az = az\<lparr>az_amount_active := True\<rparr> in
     sbind (az, analysis_cursor (mi_generation inp) (mi_sequence inp) 1) (\<lambda>az output_cursor.
     case ao_transition outcome of
       None \<Rightarrow> (az, Ok [])
     | Some transition \<Rightarrow>
         (az,
          rbind (if amount_transition_has_event transition
                 then map_err AnalysisCore (map_ok Some
                        (amount_core_event sha outcome instrument (al_inner (az_amount_rule az)) output_cursor
                           anomaly_continuity (mi_observed_at_utc inp)))
                 else Ok None) (\<lambda>event.
          Ok [\<lparr>au_family = FamilyAmount, au_instrument = mi_instrument_label inp,
               au_state = public_state (ao_state outcome),
               au_transition = analysis_amount_transition transition, au_value_unit = ''cny'',
               au_rule_version = al_version (az_amount_rule az), au_anomaly_event = event\<rparr>])))))))))"

definition analyzers_reset_amount :: "analyzers \<Rightarrow> analyzers \<times> bool" where
  "analyzers_reset_amount az =
     (az\<lparr>az_amount := amount_monitor_new (az_limits az) (al_inner (az_amount_rule az)), az_amount_active := False\<rparr>,
      az_amount_active az)"

definition analyzers_reset :: "analyzers \<Rightarrow> analyzers \<times> bool" where
  "analyzers_reset az =
     (analyzers_new (az_limits az) (az_price_rule az) (az_amount_rule az) (az_volume_rule az),
      az_fast_active az \<or> az_amount_active az)"

end
