(* ===== verification/Monitor_Config.thy ===== *)
theory Monitor_Config
  imports Terminal_Analysis Loopback Grpc_Contracts
begin

text \<open>
  The configuration of the monitor server, \<open>magic-market-monitor-server\<close> \<open>config.rs\<close>: the
  switches of its command line, the watchlist, and the check that the windows fit the capacity of
  the monitors. \<open>str::parse\<close> of the standard library is written out first.
\<close>

section \<open>Parsing numbers\<close>

text \<open>\<open>parse\<close> of an unsigned integer: an optional plus sign, then digits whose value fits.\<close>

definition parse_unsigned :: "string \<Rightarrow> 'a::len word option" where
  "parse_unsigned s =
     (let digits = (case s of [] \<Rightarrow> [] | c # rest \<Rightarrow> if c = CHR ''+'' then rest else s) in
      if digits = [] \<or> \<not> list_all is_ascii_digit digits then None
      else if parse_dec digits < 2 ^ LENGTH('a) then Some (of_nat (parse_dec digits))
      else None)"

text \<open>\<open>parse::<f64>\<close>: a sign, then \<open>inf\<close>, \<open>infinity\<close> or \<open>nan\<close> in any case, or a decimal number
  with an optional exponent, rounded to the nearest value.\<close>

definition split_sign :: "string \<Rightarrow> bool \<times> string" where
  "split_sign s =
     (case s of
        [] \<Rightarrow> (False, [])
      | c # rest \<Rightarrow> if c = CHR ''-'' then (True, rest) else if c = CHR ''+'' then (False, rest) else (False, s))"

definition decimal_magnitude :: "string \<Rightarrow> string \<Rightarrow> int \<Rightarrow> nat" where
  "decimal_magnitude i f exponent =
     (let e = exponent - int (length f) in
      if 0 \<le> e then round_mag (parse_dec (i @ f) * 10 ^ nat e) 1 0
      else round_mag (parse_dec (i @ f)) (10 ^ nat (- e)) 0)"

definition parse_exponent :: "string \<Rightarrow> int option" where
  "parse_exponent rest =
     (case rest of
        [] \<Rightarrow> Some 0
      | _ # text \<Rightarrow>
          (case split_sign text of (negative, digits) \<Rightarrow>
             if digits = [] \<or> \<not> list_all is_ascii_digit digits then None
             else Some (if negative then - int (parse_dec digits) else int (parse_dec digits))))"

definition parse_number :: "string \<Rightarrow> nat option" where
  "parse_number s =
     (let (i, f) = (case split_once (CHR ''.'') (takeWhile (\<lambda>c. c \<notin> {CHR ''e'', CHR ''E''}) s) of
            Some (i, f) \<Rightarrow> (i, f)
          | None \<Rightarrow> (takeWhile (\<lambda>c. c \<notin> {CHR ''e'', CHR ''E''}) s, ''''))
      in
      if (i = '''' \<and> f = '''') \<or> \<not> list_all is_ascii_digit i \<or> \<not> list_all is_ascii_digit f then None
      else map_option (decimal_magnitude i f)
             (parse_exponent (dropWhile (\<lambda>c. c \<notin> {CHR ''e'', CHR ''E''}) s)))"

definition parse_f64 :: "string \<Rightarrow> f64 option" where
  "parse_f64 s =
     (case split_sign s of (negative, body) \<Rightarrow>
        if eq_ignore_ascii_case body ''inf'' \<or> eq_ignore_ascii_case body ''infinity''
        then Some (f64_make negative inf_mag)
        else if eq_ignore_ascii_case body ''nan'' then Some (f64_make negative (f64_mag f64_nan))
        else map_option (f64_make negative) (parse_number body))"

section \<open>Errors and values\<close>

datatype config_error =
    OddArgumentCount
  | ExpectedSwitch string
  | DuplicateSwitch string
  | UnknownSwitch string
  | MissingSwitch string
  | InvalidSwitchValue string string
  | DuplicateWatch string
  | InvalidLoopbackLimits tq_error
  | InvalidRule analysis_error

record watch_instrument =
  wi_label :: string
  wi_source :: tq_instrument

datatype slow_consumer_policy = PolicyStop

text \<open>Durations in nanoseconds.\<close>

definition duration_from_millis :: "u64 \<Rightarrow> nat" where
  "duration_from_millis n = unat n * 1000000"

definition as_millis :: "nat \<Rightarrow> nat" where
  "as_millis d = d div 1000000"

record monitor_config =
  cf_watchlist :: "watch_instrument list"
  cf_poll_interval :: nat
  cf_rediscover_interval :: nat
  cf_discovery_timeout :: nat
  cf_discovery_max_bytes :: usize
  cf_loopback_limits :: loopback_limits
  cf_rule_limits :: monitor_limits
  cf_price_rule :: price_rule
  cf_amount_rule :: amount_rule
  cf_volume_rule :: volume_rule
  cf_snapshot_cadence_poll_cycles :: u64
  cf_identity_recheck_cycles :: u64
  cf_restart_budget :: u32
  cf_diagnostic_poll_cycles :: u64
  cf_max_event_bytes :: usize
  cf_output_queue_capacity :: usize
  cf_output_shutdown_timeout :: nat
  cf_output_slow_consumer_policy :: slow_consumer_policy

definition monitor_switches :: "string list" where
  "monitor_switches =
     [''--watchlist'', ''--max-instruments'', ''--poll-interval-ms'', ''--rediscover-interval-ms'',
      ''--discovery-timeout-ms'', ''--discovery-max-bytes'', ''--connect-timeout-ms'',
      ''--read-timeout-ms'', ''--write-timeout-ms'', ''--max-request-bytes'', ''--max-response-bytes'',
      ''--window-capacity'', ''--price-rule-version'', ''--price-window-ms'',
      ''--price-boundary-tolerance-ms'', ''--price-trigger-ratio'', ''--price-rearm-ratio'',
      ''--price-cooldown-ms'', ''--amount-rule-version'', ''--amount-window-ms'',
      ''--amount-boundary-tolerance-ms'', ''--amount-trigger-cny'', ''--amount-rearm-cny'',
      ''--amount-cooldown-ms'', ''--snapshot-cadence-poll-cycles'', ''--identity-recheck-cycles'',
      ''--volume-rule-version'', ''--volume-window-ms'', ''--volume-boundary-tolerance-ms'',
      ''--volume-trigger-delta'', ''--volume-rearm-delta'', ''--volume-cooldown-ms'',
      ''--restart-budget'', ''--diagnostic-poll-cycles'', ''--max-event-bytes'',
      ''--output-queue-capacity'', ''--output-shutdown-timeout-ms'', ''--output-slow-consumer-policy'']"

section \<open>Switches\<close>

type_synonym switch_values = "string \<Rightarrow> string option"

definition required :: "switch_values \<Rightarrow> string \<Rightarrow> (string, config_error) rres" where
  "required switches switch = ok_or (MissingSwitch switch) (switches switch)"

definition required_u64 :: "switch_values \<Rightarrow> string \<Rightarrow> u64 \<Rightarrow> (u64, config_error) rres" where
  "required_u64 switches switch minimum =
     rbind (required switches switch) (\<lambda>value.
     rbind (ok_or (InvalidSwitchValue switch ''must be an unsigned integer'') (parse_unsigned value)) (\<lambda>parsed.
     if parsed < minimum then Err (InvalidSwitchValue switch ''is below the allowed minimum'')
     else Ok parsed))"

definition required_u32 :: "switch_values \<Rightarrow> string \<Rightarrow> u32 \<Rightarrow> (u32, config_error) rres" where
  "required_u32 switches switch minimum =
     rbind (required_u64 switches switch (ucast minimum)) (\<lambda>parsed.
     if unat parsed < 2 ^ 32 then Ok (ucast parsed) else Err (InvalidSwitchValue switch ''exceeds u32''))"

definition required_u16 :: "switch_values \<Rightarrow> string \<Rightarrow> u16 \<Rightarrow> (u16, config_error) rres" where
  "required_u16 switches switch minimum =
     rbind (required_u64 switches switch (ucast minimum)) (\<lambda>parsed.
     if unat parsed < 2 ^ 16 then Ok (ucast parsed) else Err (InvalidSwitchValue switch ''exceeds u16''))"

definition required_usize :: "switch_values \<Rightarrow> string \<Rightarrow> usize \<Rightarrow> (usize, config_error) rres" where
  "required_usize switches switch minimum =
     rbind (required_u64 switches switch minimum) (\<lambda>parsed.
     if parsed = - 1
     then Err (InvalidSwitchValue switch ''must leave room for a one-byte overflow probe'')
     else Ok parsed)"

definition required_duration :: "switch_values \<Rightarrow> string \<Rightarrow> (nat, config_error) rres" where
  "required_duration switches switch = map_ok duration_from_millis (required_u64 switches switch 1)"

definition required_f64 :: "switch_values \<Rightarrow> string \<Rightarrow> (f64, config_error) rres" where
  "required_f64 switches switch =
     rbind (required switches switch) (\<lambda>value.
     rbind (ok_or (InvalidSwitchValue switch ''must be a finite decimal number'') (parse_f64 value)) (\<lambda>parsed.
     if \<not> is_finite parsed then Err (InvalidSwitchValue switch ''must be finite'') else Ok parsed))"

text \<open>The loop over pairs of arguments.\<close>

fun parse_switches :: "string list \<Rightarrow> switch_values \<Rightarrow> (switch_values, config_error) rres" where
  "parse_switches (switch # value # rest) switches =
     (if take 2 switch \<noteq> ''--'' then Err (ExpectedSwitch switch)
      else if switch \<notin> set monitor_switches then Err (UnknownSwitch switch)
      else if switches switch \<noteq> None then Err (DuplicateSwitch switch)
      else parse_switches rest (switches(switch \<mapsto> value)))"
| "parse_switches _ switches = Ok switches"

section \<open>The watchlist\<close>

definition parse_watch_item :: "string \<Rightarrow> string list \<Rightarrow> (watch_instrument, config_error) rres" where
  "parse_watch_item item seen =
     (case split_on (CHR '':'') item of
        [asset, exchange, code] \<Rightarrow>
          if asset \<noteq> ''EQUITY''
          then Err (InvalidSwitchValue ''--watchlist'' ''entries must use explicit EQUITY:SH:123456, EQUITY:SZ:123456, or EQUITY:BJ:123456 form'')
          else
            rbind (ok_or (InvalidSwitchValue ''--watchlist'' ''exchange must be SH, SZ, or BJ'')
                     (if exchange = ''SH'' then Some SourceShanghai
                      else if exchange = ''SZ'' then Some SourceShenzhen
                      else if exchange = ''BJ'' then Some SourceBeijing else None)) (\<lambda>exchange.
            if item \<in> set seen then Err (DuplicateWatch item)
            else
              rbind (map_err (\<lambda>_. InvalidSwitchValue ''--watchlist''
                       ''instrument code must be exactly six ASCII digits'')
                       (tq_instrument_new exchange code)) (\<lambda>source.
              Ok \<lparr>wi_label = item, wi_source = source\<rparr>))
      | _ \<Rightarrow> Err (InvalidSwitchValue ''--watchlist'' ''entries must use explicit EQUITY:SH:123456, EQUITY:SZ:123456, or EQUITY:BJ:123456 form''))"

fun parse_watch_items ::
  "string list \<Rightarrow> u16 \<Rightarrow> watch_instrument list \<Rightarrow> (watch_instrument list, config_error) rres" where
  "parse_watch_items [] maximum instruments = Ok instruments"
| "parse_watch_items (item # items) maximum instruments =
     rbind (parse_watch_item item (map wi_label instruments)) (\<lambda>watched.
     if unat maximum < length instruments + 1
     then Err (InvalidSwitchValue ''--watchlist'' ''contains more entries than --max-instruments'')
     else parse_watch_items items maximum (instruments @ [watched]))"

definition parse_watchlist :: "string \<Rightarrow> u16 \<Rightarrow> (watch_instrument list, config_error) rres" where
  "parse_watchlist value maximum =
     (if value = '''' \<or> trim value \<noteq> value
      then Err (InvalidSwitchValue ''--watchlist'' ''must be non-empty and unpadded'')
      else parse_watch_items (split_on (CHR '','') value) maximum [])"

section \<open>Window capacity\<close>

text \<open>\<open>div_ceil\<close> panics on a divisor of zero.\<close>

definition div_ceil :: "u64 \<Rightarrow> u64 \<Rightarrow> (u64, 'e) rres" where
  "div_ceil a b =
     (if b = 0 then Panic ''attempt to divide by zero''
      else if a mod b = 0 then Ok (a div b) else Ok (a div b + 1))"

definition validate_window_capacity ::
  "u16 \<Rightarrow> nat \<Rightarrow> nat \<Rightarrow> u64 \<Rightarrow> u64 \<times> u64 \<Rightarrow> u64 \<times> u64 \<Rightarrow> u64 \<Rightarrow> u64 \<Rightarrow> (unit, config_error) rres" where
  "validate_window_capacity capacity poll_interval watchlist_len cadence windows tolerances
       amount_window amount_tolerance =
     rbind (ok_or (InvalidSwitchValue ''--poll-interval-ms'' ''exceeds supported capacity arithmetic'')
              (if as_millis poll_interval < 2 ^ 64 then Some (of_nat (as_millis poll_interval)) else None))
       (\<lambda>poll_millis :: u64.
     let fast_span = max (saturating_add (fst windows) (fst tolerances))
                         (saturating_add (snd windows) (snd tolerances)) in
     rbind (ok_or (InvalidSwitchValue ''--snapshot-cadence-poll-cycles'' ''overflows capacity arithmetic'')
              (Option.bind (checked_mul poll_millis cadence) (\<lambda>v.
                 if watchlist_len < 2 ^ 64 then checked_mul v (of_nat watchlist_len) else None)))
       (\<lambda>snapshot_period.
     rbind (div_ceil fast_span poll_millis) (\<lambda>fast_samples.
     rbind (div_ceil (saturating_add amount_window amount_tolerance) snapshot_period) (\<lambda>amount_samples.
     let needed = max (saturating_add fast_samples 2) (saturating_add amount_samples 2) in
     if ucast capacity < needed
     then Err (InvalidSwitchValue ''--window-capacity''
            ''cannot retain the configured poll/window/watchlist sampling span'')
     else Ok ()))))"

section \<open>Parsing\<close>

definition config_of_switches :: "switch_values \<Rightarrow> (monitor_config, config_error) rres" where
  "config_of_switches s =
     (rbind (required_u16 s ''--max-instruments'' 1) (\<lambda>max_instruments.
      rbind (required s ''--watchlist'') (\<lambda>watchlist_text.
      rbind (parse_watchlist watchlist_text max_instruments) (\<lambda>watchlist.
      rbind (required_duration s ''--poll-interval-ms'') (\<lambda>poll_interval.
      rbind (required_duration s ''--rediscover-interval-ms'') (\<lambda>rediscover_interval.
      rbind (required_duration s ''--discovery-timeout-ms'') (\<lambda>discovery_timeout.
      rbind (required_usize s ''--discovery-max-bytes'' 1) (\<lambda>discovery_max_bytes.
      rbind (required_duration s ''--connect-timeout-ms'') (\<lambda>connect_timeout.
      rbind (required_duration s ''--read-timeout-ms'') (\<lambda>read_timeout.
      rbind (required_duration s ''--write-timeout-ms'') (\<lambda>write_timeout.
      rbind (required_usize s ''--max-request-bytes'' 1) (\<lambda>max_request_bytes.
      rbind (required_usize s ''--max-response-bytes'' 1) (\<lambda>max_response_bytes.
      rbind (map_err InvalidLoopbackLimits (loopback_limits_new connect_timeout read_timeout
               write_timeout max_request_bytes max_response_bytes)) (\<lambda>loopback_limits.
      rbind (required_u16 s ''--window-capacity'' 2) (\<lambda>window_capacity.
      rbind (map_err InvalidRule (rule_limits_new max_instruments window_capacity)) (\<lambda>rule_limits.
      rbind (required_u64 s ''--price-window-ms'' 1) (\<lambda>price_window.
      rbind (required_u64 s ''--price-boundary-tolerance-ms'' 0) (\<lambda>price_tolerance.
      rbind (required_u32 s ''--price-rule-version'' 1) (\<lambda>price_version.
      rbind (required_f64 s ''--price-trigger-ratio'') (\<lambda>price_trigger.
      rbind (required_f64 s ''--price-rearm-ratio'') (\<lambda>price_rearm.
      rbind (required_u64 s ''--price-cooldown-ms'' 0) (\<lambda>price_cooldown.
      rbind (map_err InvalidRule (price_rule_new price_version price_window price_tolerance
               price_trigger price_rearm price_cooldown)) (\<lambda>price_rule.
      rbind (required_u64 s ''--amount-window-ms'' 1) (\<lambda>amount_window.
      rbind (required_u64 s ''--amount-boundary-tolerance-ms'' 0) (\<lambda>amount_tolerance.
      rbind (required_u32 s ''--amount-rule-version'' 1) (\<lambda>amount_version.
      rbind (required_f64 s ''--amount-trigger-cny'') (\<lambda>amount_trigger.
      rbind (required_f64 s ''--amount-rearm-cny'') (\<lambda>amount_rearm.
      rbind (required_u64 s ''--amount-cooldown-ms'' 0) (\<lambda>amount_cooldown.
      rbind (map_err InvalidRule (amount_rule_new amount_version amount_window amount_tolerance
               amount_trigger amount_rearm amount_cooldown)) (\<lambda>amount_rule.
      rbind (required_u64 s ''--volume-window-ms'' 1) (\<lambda>volume_window.
      rbind (required_u64 s ''--volume-boundary-tolerance-ms'' 0) (\<lambda>volume_tolerance.
      rbind (required_u32 s ''--volume-rule-version'' 1) (\<lambda>volume_version.
      rbind (required_f64 s ''--volume-trigger-delta'') (\<lambda>volume_trigger.
      rbind (required_f64 s ''--volume-rearm-delta'') (\<lambda>volume_rearm.
      rbind (required_u64 s ''--volume-cooldown-ms'' 0) (\<lambda>volume_cooldown.
      rbind (map_err InvalidRule (volume_rule_new volume_version volume_window volume_tolerance
               volume_trigger volume_rearm volume_cooldown)) (\<lambda>volume_rule.
      rbind (required_u64 s ''--snapshot-cadence-poll-cycles'' 1) (\<lambda>cadence.
      rbind (required_u64 s ''--identity-recheck-cycles'' 1) (\<lambda>recheck.
      rbind (validate_window_capacity window_capacity poll_interval (length watchlist) cadence
               (price_window, volume_window) (price_tolerance, volume_tolerance)
               amount_window amount_tolerance) (\<lambda>_.
      rbind (required_u32 s ''--restart-budget'' 0) (\<lambda>restart_budget.
      rbind (required_u64 s ''--diagnostic-poll-cycles'' 0) (\<lambda>diagnostic.
      rbind (required_usize s ''--max-event-bytes'' 1) (\<lambda>max_event_bytes.
      rbind (required_usize s ''--output-queue-capacity'' 1) (\<lambda>queue_capacity.
      rbind (required_duration s ''--output-shutdown-timeout-ms'') (\<lambda>shutdown_timeout.
      rbind (required s ''--output-slow-consumer-policy'') (\<lambda>policy.
      if policy \<noteq> ''stop''
      then Err (InvalidSwitchValue ''--output-slow-consumer-policy'' ''the only fail-closed policy is stop'')
      else
        Ok \<lparr>cf_watchlist = watchlist, cf_poll_interval = poll_interval,
            cf_rediscover_interval = rediscover_interval, cf_discovery_timeout = discovery_timeout,
            cf_discovery_max_bytes = discovery_max_bytes, cf_loopback_limits = loopback_limits,
            cf_rule_limits = rule_limits, cf_price_rule = price_rule, cf_amount_rule = amount_rule,
            cf_volume_rule = volume_rule, cf_snapshot_cadence_poll_cycles = cadence,
            cf_identity_recheck_cycles = recheck, cf_restart_budget = restart_budget,
            cf_diagnostic_poll_cycles = diagnostic, cf_max_event_bytes = max_event_bytes,
            cf_output_queue_capacity = queue_capacity,
            cf_output_shutdown_timeout = shutdown_timeout,
            cf_output_slow_consumer_policy = PolicyStop\<rparr>))))))))))))))))))))))))))))))))))))))))))))))"

definition config_parse :: "string list \<Rightarrow> (monitor_config, config_error) rres" where
  "config_parse arguments =
     (if length arguments mod 2 \<noteq> 0 then Err OddArgumentCount
      else rbind (parse_switches arguments (\<lambda>_. None)) config_of_switches)"

end
