(* ===== verification/Monitor_Discovery.thy ===== *)
theory Monitor_Discovery
  imports Loopback Grpc_Contracts
begin

text \<open>
  The discovery of a running terminal, \<open>magic-market-monitor-server\<close> \<open>discovery.rs\<close>: the bounded
  output of the sibling bridge process and the evidence it must carry. Starting the process is
  outside; its exit code and its output are arguments, and the JSON library is a parameter.
\<close>

record numeric_version =
  nv_major :: u16
  nv_minor :: u16
  nv_build :: u16
  nv_revision :: u16

text \<open>\<open>'v\<close> is the type of JSON values.\<close>

record 'v candidate_evidence =
  ce_discovery_schema_version :: u8
  ce_process_id :: u32
  ce_session_id :: u32
  ce_process_creation_time :: u64
  ce_executable_architecture :: "string option"
  ce_executable_sha256 :: "string option"
  ce_executable_file_version :: "numeric_version option"
  ce_executable_product_version :: "numeric_version option"
  ce_executable_version_source :: "string option"
  ce_executable_version_failure :: "'v option"

datatype 'v discovery_outcome =
    DiscoveredNone string
  | DiscoveredCandidate "'v candidate_evidence"
  | DiscoveredRejected string

datatype discovery_error =
    DiscoveryTimeout
  | DiscoveryRead
  | InvalidDiscoveryMaximum
  | OutputTooLarge usize
  | UnexpectedExit "int option"
  | DiscoveryUtf8
  | NotSingleLine
  | DiscoveryJson
  | DiscoverySchemaVersion u8
  | UnexpectedCommand string
  | InvalidReportText
  | MissingDiscoveryState
  | MissingCurrentSession
  | MissingCandidate
  | InvalidCandidate

text \<open>\<open>content\<close> is what reading the process's output to its end gives.\<close>

definition read_bounded :: "(u8 list, unit) rres \<Rightarrow> usize \<Rightarrow> (u8 list, discovery_error) rres" where
  "read_bounded content maximum =
     rbind (ok_or InvalidDiscoveryMaximum (checked_add maximum 1)) (\<lambda>limit.
     rbind (map_err (\<lambda>_. DiscoveryRead) (map_ok (take (unat limit)) content)) (\<lambda>bytes.
     if unat maximum < length bytes then Err (OutputTooLarge maximum) else Ok bytes))"

record 'v report =
  dr_schema_version :: u8
  dr_command :: string
  dr_target_platform :: string
  dr_target_architecture :: string
  dr_status :: string
  dr_reason_code :: string
  dr_message :: string
  dr_discovery :: "'v option"

record 'v executable_wire =
  ew_size_bytes :: "u64 option"
  ew_sha256 :: "string option"
  ew_hash_failure :: "'v option"
  ew_pe_machine :: "u16 option"
  ew_architecture :: "string option"
  ew_architecture_failure :: "'v option"
  ew_file_version :: "numeric_version option"
  ew_product_version :: "numeric_version option"
  ew_version_source :: "string option"
  ew_version_failure :: "'v option"

record 'v candidate_wire =
  cw_process_id :: u32
  cw_session_id :: u32
  cw_image_path :: string
  cw_current_user_identity_verified :: bool
  cw_process_creation_time :: u64
  cw_image_name_verified :: bool
  cw_executable :: "'v executable_wire"

text \<open>The JSON library at the types of the module, and its accessors of values.\<close>

record 'v discovery_json =
  dj_utf8 :: "u8 list \<Rightarrow> string option"
  dj_report :: "string \<Rightarrow> 'v report option"
  dj_get :: "'v \<Rightarrow> string \<Rightarrow> 'v option"
  dj_as_str :: "'v \<Rightarrow> string option"
  dj_as_bool :: "'v \<Rightarrow> bool option"
  dj_as_u64 :: "'v \<Rightarrow> u64 option"
  dj_candidate :: "'v \<Rightarrow> 'v candidate_wire option"

definition strip_suffix :: "string \<Rightarrow> string \<Rightarrow> string option" where
  "strip_suffix p s = map_option rev (strip_prefix (rev p) (rev s))"

definition cr :: char where "cr = char_of (13 :: nat)"
definition lf :: char where "lf = char_of (10 :: nat)"

definition single_json_line :: "'v discovery_json \<Rightarrow> u8 list \<Rightarrow> (string, discovery_error) rres" where
  "single_json_line js bytes =
     rbind (ok_or DiscoveryUtf8 (dj_utf8 js bytes)) (\<lambda>text.
     let line = (case strip_suffix [cr, lf] text of
           Some line \<Rightarrow> line
         | None \<Rightarrow> (case strip_suffix [lf] text of Some line \<Rightarrow> line | None \<Rightarrow> text)) in
     if line = '''' \<or> cr \<in> set line \<or> lf \<in> set line then Err NotSingleLine else Ok line)"

definition validate_report_text :: "string \<Rightarrow> (unit, discovery_error) rres" where
  "validate_report_text value = (if padded_or_control value then Err InvalidReportText else Ok ())"

definition is_terminal_image :: "string \<Rightarrow> bool" where
  "is_terminal_image path \<longleftrightarrow>
     eq_ignore_ascii_case
       (last (split_on (CHR ''/'') (map (\<lambda>c. if c = CHR 0x5C then CHR ''/'' else c) path)))
       ''TdxW.exe''"

definition candidate_of :: "'v report \<Rightarrow> 'v candidate_wire \<Rightarrow> 'v candidate_evidence" where
  "candidate_of report candidate =
     \<lparr>ce_discovery_schema_version = dr_schema_version report,
      ce_process_id = cw_process_id candidate, ce_session_id = cw_session_id candidate,
      ce_process_creation_time = cw_process_creation_time candidate,
      ce_executable_architecture = ew_architecture (cw_executable candidate),
      ce_executable_sha256 = ew_sha256 (cw_executable candidate),
      ce_executable_file_version = ew_file_version (cw_executable candidate),
      ce_executable_product_version = ew_product_version (cw_executable candidate),
      ce_executable_version_source = ew_version_source (cw_executable candidate),
      ce_executable_version_failure = ew_version_failure (cw_executable candidate)\<rparr>"

definition discovered_candidate ::
  "'v discovery_json \<Rightarrow> int option \<Rightarrow> 'v report \<Rightarrow> 'v \<Rightarrow> ('v discovery_outcome, discovery_error) rres" where
  "discovered_candidate js exit_code report discovery =
     (if dr_status report \<noteq> ''discovered'' \<or> dr_reason_code report \<noteq> ''terminal_discovered''
         \<or> dr_target_platform report \<noteq> ''windows'' \<or> dr_target_architecture report \<noteq> ''x86_64''
         \<or> exit_code \<noteq> Some 0
      then Err InvalidCandidate
      else if Option.bind (dj_get js discovery ''eligible_for_fixed_loopback_health_probe'')
                (dj_as_bool js) \<noteq> Some True
      then Err InvalidCandidate
      else
        rbind (ok_or MissingCurrentSession
                 (Option.bind (dj_get js discovery ''current_session_id'') (dj_as_u64 js))) (\<lambda>session.
        rbind (ok_or InvalidCandidate
                 (if unat session < 2 ^ 32 then Some (ucast session :: u32) else None)) (\<lambda>current_session.
        rbind (ok_or MissingCandidate (dj_get js discovery ''terminal'')) (\<lambda>terminal.
        rbind (ok_or DiscoveryJson (dj_candidate js terminal)) (\<lambda>candidate.
        if cw_process_id candidate = 0 \<or> cw_session_id candidate \<noteq> current_session
           \<or> \<not> cw_current_user_identity_verified candidate \<or> \<not> cw_image_name_verified candidate
           \<or> \<not> is_terminal_image (cw_image_path candidate)
        then Err InvalidCandidate
        else Ok (DiscoveredCandidate (candidate_of report candidate)))))))"

definition parse_bridge_output ::
  "'v discovery_json \<Rightarrow> int option \<Rightarrow> u8 list \<Rightarrow> ('v discovery_outcome, discovery_error) rres" where
  "parse_bridge_output js exit_code bytes =
     (if exit_code \<noteq> Some 0 \<and> exit_code \<noteq> Some 3 then Err (UnexpectedExit exit_code)
      else
        rbind (single_json_line js bytes) (\<lambda>line.
        rbind (ok_or DiscoveryJson (dj_report js line)) (\<lambda>report.
        if dr_schema_version report \<noteq> 1 then Err (DiscoverySchemaVersion (dr_schema_version report))
        else if dr_command report \<noteq> ''discover'' then Err (UnexpectedCommand (dr_command report))
        else
          rbind (validate_report_text (dr_target_platform report)) (\<lambda>_.
          rbind (validate_report_text (dr_target_architecture report)) (\<lambda>_.
          rbind (validate_report_text (dr_status report)) (\<lambda>_.
          rbind (validate_report_text (dr_reason_code report)) (\<lambda>_.
          rbind (validate_report_text (dr_message report)) (\<lambda>_.
          case dr_discovery report of
            None \<Rightarrow> Ok (DiscoveredRejected (dr_reason_code report))
          | Some discovery \<Rightarrow>
              rbind (ok_or MissingDiscoveryState
                       (Option.bind (dj_get js discovery ''state'') (dj_as_str js))) (\<lambda>state.
              if state = ''not_running'' then Ok (DiscoveredNone (dr_reason_code report))
              else if state \<noteq> ''discovered'' then Ok (DiscoveredRejected (dr_reason_code report))
              else discovered_candidate js exit_code report discovery)))))))))"

end
