(* ===== verification/Monitor_Output.thy ===== *)
theory Monitor_Output
  imports Monitor_Discovery Terminal_Analysis
begin

text \<open>
  What the monitor server writes, \<open>magic-market-monitor-server\<close> \<open>output.rs\<close>: its events, the
  bounded queue in front of its standard output, and the loop that writes frames. Threads and
  channels are the standard library's; what a channel answers is an argument.
\<close>

section \<open>Events\<close>

datatype failure_disposition = FailureTransient | FailurePermanent

datatype loopback_operation = OpEquityUniverse | OpPriceVolume | OpMarketSnapshot

datatype runtime_reset_reason =
    TerminalNotRunning
  | TerminalDiscoveryRejected
  | TerminalDiscoveryFailed
  | LoopbackConnectFailed
  | LoopbackPollFailed
  | TerminalCandidateChanged
  | TradingDateChangedReset
  | MiddayBreakReset
  | SessionOpenedReset

text \<open>The units and the availability of fields have one value each in the code and are left out;
  markers that every constructor of an event sets to the same value are written by the functions
  that build it.\<close>

datatype 'v service_event =
    EvWaiting string bool
  | EvDiscoveryCandidate (de_generation: u64) "'v candidate_evidence" bool
  | EvLoopbackHealth u64 string bool u16 u16
  | EvEquityWatchlistValidated u64 nat nat bool
  | EvRunning u64
  | EvObservation (oe_generation: u64) (oe_instrument: string) (oe_observed_at_utc: string)
      (oe_source_observation: source_observation) (oe_price: "string option")
      (oe_cumulative_volume: "string option") (oe_price_admitted: bool) (oe_volume_admitted: bool)
      (oe_amount_admitted: bool)
  | EvAnalysis (an_generation: u64) (an_admitted: bool) (an_instrument: string)
      (an_observed_at_utc: string) (an_time_basis: observation_time_basis) (an_update: analysis_update)
  | EvSnapshotObservation (se_generation: u64) (se_instrument: string) (se_observed_at_utc: string)
      (se_cumulative_amount: string) (se_snapshot_price: string) (se_previous_close: string)
      (se_previous_close_admitted: bool) (se_open: string) (se_high: string) (se_low: string)
      (se_ohlc_admitted: bool) (se_snapshot_volume: string) (se_price_matches: bool)
      (se_volume_matches: bool) (se_amount_admitted: bool)
  | EvFamilyUnavailable u64 string analysis_family string bool
  | EvLoopbackFailure u64 string loopback_operation tq_error_category failure_disposition string bool
  | EvSnapshotBusy u64 string nat
  | EvSnapshotWorkerStopped bool bool
  | EvReset u64 runtime_reset_reason bool
  | EvRestartBudgetExhausted u32 u32
  | EvDiagnosticCompleted u64 u64

section \<open>The queue in front of standard output\<close>

datatype output_error =
    InvalidEventMaximum usize
  | OutputJson
  | EventTooLarge nat usize
  | InvalidQueueCapacity
  | SlowConsumerStop
  | WriterStopped
  | WriterFailure io_error
  | WriterPanicked
  | OutputShutdownTimeout

datatype writer_command = CommandFrame "u8 list" | WriterShutdown

text \<open>What \<open>try_send\<close> answers.\<close>

datatype send_outcome = SendAccepted | SendFull | SendDisconnected

record event_writer =
  wt_commands :: bool
  wt_handle :: bool
  wt_maximum_bytes :: usize

definition event_writer_new :: "usize \<Rightarrow> usize \<Rightarrow> (event_writer, output_error) rres" where
  "event_writer_new maximum capacity =
     (if maximum = 0 \<or> 2 ^ 32 \<le> unat maximum then Err (InvalidEventMaximum maximum)
      else if capacity = 0 then Err InvalidQueueCapacity
      else Ok \<lparr>wt_commands = True, wt_handle = True, wt_maximum_bytes = maximum\<rparr>)"

text \<open>\<open>emit\<close> gives the command it sends with its result; \<open>send\<close> is the channel's answer.\<close>

definition writer_emit ::
  "('v service_event \<Rightarrow> u8 list option) \<Rightarrow> event_writer \<Rightarrow> send_outcome \<Rightarrow> 'v service_event
     \<Rightarrow> writer_command list \<times> (unit, output_error) rres" where
  "writer_emit encode w send event =
     (case encode event of
        None \<Rightarrow> ([], Err OutputJson)
      | Some encoded \<Rightarrow>
          if encoded = [] \<or> unat (wt_maximum_bytes w) < length encoded
          then ([], Err (EventTooLarge (length encoded) (wt_maximum_bytes w)))
          else if \<not> wt_commands w then ([], Err WriterStopped)
          else case send of
            SendAccepted \<Rightarrow> ([CommandFrame encoded], Ok ())
          | SendFull \<Rightarrow> ([], Err SlowConsumerStop)
          | SendDisconnected \<Rightarrow> ([], Err WriterStopped))"

text \<open>\<open>completion\<close> is what \<open>recv_timeout\<close> gives, \<open>join\<close> whether the thread ended without a panic.\<close>

datatype writer_completion =
    CompletedOk | CompletedError io_error | CompletionTimeout | CompletionDisconnected

definition writer_shutdown ::
  "event_writer \<Rightarrow> send_outcome \<Rightarrow> writer_completion \<Rightarrow> bool
     \<Rightarrow> event_writer \<times> writer_command list \<times> (unit, output_error) rres" where
  "writer_shutdown w send completion join =
     (let sent = (if wt_commands w \<and> send = SendAccepted then [WriterShutdown] else []);
          full = (wt_commands w \<and> send = SendFull);
          w = w\<lparr>wt_commands := False\<rparr> in
      if full then (w, sent, Err SlowConsumerStop)
      else case completion of
        CompletedOk \<Rightarrow>
          (w\<lparr>wt_handle := False\<rparr>, sent, if wt_handle w \<and> \<not> join then Err WriterPanicked else Ok ())
      | CompletedError e \<Rightarrow> (w, sent, Err (WriterFailure e))
      | CompletionTimeout \<Rightarrow> (w, sent, Err OutputShutdownTimeout)
      | CompletionDisconnected \<Rightarrow> (w, sent, Err WriterStopped))"

text \<open>The loop of the writer's thread over the commands it receives until every sender is gone.\<close>

fun writer_loop :: "'w writer \<Rightarrow> writer_command list \<Rightarrow> 'w \<Rightarrow> 'w \<times> (unit, io_error) rres" where
  "writer_loop wr [] s = (s, Ok ())"
| "writer_loop wr (WriterShutdown # commands) s = (s, Ok ())"
| "writer_loop wr (CommandFrame encoded # commands) s =
     (if 2 ^ 32 \<le> length encoded then (s, Err (InvalidData ''frame exceeds u32''))
      else
        sbind (wr_write_all wr s (be_bytes 4 (of_nat (length encoded) :: u32))) (\<lambda>s _.
        sbind (wr_write_all wr s encoded) (\<lambda>s _.
        sbind (wr_flush wr s) (\<lambda>s _.
        writer_loop wr commands s))))"

end
