(* ===== verification/Monitor_Runtime.thy ===== *)
theory Monitor_Runtime
  imports Monitor_Config Monitor_Output
begin

text \<open>
  The scheduler of the monitor server, \<open>magic-market-monitor-server\<close> \<open>runtime.rs\<close>. The traits it
  is generic in (discovery, poller, snapshot worker, sink, clock) are functions of a record over a
  world they change; the events the sink has accepted are recorded beside the state, in order.
  Diagnostic logging is left out.
\<close>

section \<open>Errors, failures and their texts\<close>

datatype service_error =
    SvDiscovery discovery_error
  | SvOutput output_error
  | ClockOverflow
  | DiagnosticCycleExhausted
  | FormatClock
  | ParseObservationTime
  | GenerationExhausted
  | RequestIdExhausted
  | SequenceExhausted
  | SvAnalysis analysis_error
  | SnapshotSpawn
  | SnapshotWorkerGone
  | SnapshotWorkerPanicked

record poll_failure =
  pf_category :: tq_error_category
  pf_disposition :: failure_disposition
  pf_message :: string

fun failure_disposition_of :: "tq_error_category \<Rightarrow> failure_disposition" where
  "failure_disposition_of CatConnect = FailureTransient"
| "failure_disposition_of CatTimeout = FailureTransient"
| "failure_disposition_of CatTransport = FailureTransient"
| "failure_disposition_of CatHttpStatus = FailureTransient"
| "failure_disposition_of CatRead = FailureTransient"
| "failure_disposition_of CatSynchronization = FailureTransient"
| "failure_disposition_of _ = FailurePermanent"

text \<open>What \<open>to_string\<close> gives for the errors of the loopback client and of the protocol; the texts
  of the JSON library are arguments.\<close>

definition tq_error_text :: "string \<Rightarrow> string \<Rightarrow> tq_error \<Rightarrow> string" where
  "tq_error_text encode_text json_text e =
     (case e of
        TqInvalidLimits field \<Rightarrow> ''invalid positive loopback limit: '' @ field
      | TqInvalidRequest reason \<Rightarrow> ''invalid read-only TQ request: '' @ reason
      | TqEncodeJson \<Rightarrow> ''unable to encode the bounded TQ request: '' @ encode_text
      | TqRequestTooLarge actual maximum \<Rightarrow>
          ''TQ request size '' @ dec actual @ '' exceeds maximum '' @ dec (unat maximum)
      | TqConnect \<Rightarrow> ''unable to connect to the TQ loopback endpoint''
      | TqTimeout \<Rightarrow> ''TQ loopback operation timed out''
      | TqTransport kind \<Rightarrow> ''TQ loopback transport failed: '' @ kind
      | TqHttpStatus status \<Rightarrow> ''TQ loopback returned HTTP status '' @ dec (unat status)
      | TqMissingContentType \<Rightarrow> ''TQ loopback response is missing Content-Type''
      | TqInvalidContentType \<Rightarrow> ''TQ loopback response Content-Type is not strict JSON''
      | TqResponseTooLarge maximum \<Rightarrow> ''TQ loopback response exceeds maximum '' @ dec (unat maximum)
      | TqRead \<Rightarrow> ''unable to read the TQ loopback response''
      | TqJson \<Rightarrow> ''TQ loopback response is not JSON: '' @ json_text
      | TqRpc error_id _ \<Rightarrow> ''TQ RPC failed with ErrorId='' @ error_id
      | TqCorrelationMismatch expected actual \<Rightarrow>
          ''TQ response id mismatch: expected '' @ dec (unat expected) @ '', received '' @ dec (unat actual)
      | TqInstrumentIdentity instrument \<Rightarrow>
          ''requested instrument is absent from the complete TQ A-share universe: '' @ instrument
      | TqSchema reason \<Rightarrow> ''TQ response schema mismatch: '' @ reason
      | TqSynchronization \<Rightarrow> ''TQ request serialization lock is poisoned'')"

definition frame_io_text :: "frame_io_operation \<Rightarrow> string" where
  "frame_io_text operation =
     (case operation of
        ReadPrefix \<Rightarrow> ''read frame prefix''
      | ReadPayload \<Rightarrow> ''read frame payload''
      | WritePrefix \<Rightarrow> ''write frame prefix''
      | WritePayload \<Rightarrow> ''write frame payload''
      | Flush \<Rightarrow> ''flush frame'')"

definition protocol_error_text ::
  "(io_error \<Rightarrow> string) \<Rightarrow> string \<Rightarrow> ('j \<Rightarrow> string) \<Rightarrow> 'j protocol_error \<Rightarrow> string" where
  "protocol_error_text io_text utf8_text json_text e =
     (case e of
        InvalidFrameLimit r m \<Rightarrow>
          ''frame limit '' @ dec (unat r) @ '' is invalid; expected 1..='' @ dec (unat m)
      | EmptyFrame \<Rightarrow> ''empty bridge frame is not a JSON document''
      | FrameTooLarge announced maximum \<Rightarrow>
          ''bridge frame length '' @ dec (unat announced) @ '' exceeds configured maximum '' @ dec (unat maximum)
      | EncodedFrameTooLarge maximum \<Rightarrow>
          ''encoded bridge frame exceeds configured maximum '' @ dec (unat maximum)
      | FrameIo operation x \<Rightarrow> ''failed to '' @ frame_io_text operation @ '': '' @ io_text x
      | InvalidUtf8 \<Rightarrow> ''bridge frame is not UTF-8: '' @ utf8_text
      | EncodeJson x \<Rightarrow> ''unable to encode bridge JSON: '' @ json_text x
      | DecodeJson x \<Rightarrow> ''unable to decode bridge JSON: '' @ json_text x
      | UnsupportedProtocolVersion expected actual \<Rightarrow>
          ''unsupported bridge protocol version '' @ dec (unat actual) @ ''; expected '' @ dec (unat expected)
      | UnsupportedSchemaVersion expected actual \<Rightarrow>
          ''unsupported bridge schema version '' @ dec (unat actual) @ ''; expected '' @ dec (unat expected)
      | InvalidHelloField field reason \<Rightarrow> ''invalid hello field '' @ field @ '': '' @ reason
      | InvalidMessageField field reason \<Rightarrow> ''invalid bridge message field '' @ field @ '': '' @ reason
      | InvalidBridgeSequence \<Rightarrow> ''bridge sequence must be greater than zero''
      | BridgeSequenceGap expected actual \<Rightarrow>
          ''bridge sequence gap: expected '' @ dec (unat expected) @ '', received '' @ dec (unat actual)
      | BridgeSequenceRollback previous actual \<Rightarrow>
          ''bridge sequence rolled back from '' @ dec (unat previous) @ '' to '' @ dec (unat actual)
      | BridgeSequenceExhausted previous \<Rightarrow> ''bridge sequence exhausted after '' @ dec (unat previous))"

text \<open>Only checks of fields fail in a validation, whose errors carry no text of a library.\<close>

definition validation_text :: "unit protocol_error \<Rightarrow> string" where
  "validation_text = protocol_error_text (\<lambda>_. '''') '''' (\<lambda>_. '''')"

definition poll_failure_of :: "string \<Rightarrow> string \<Rightarrow> tq_error \<Rightarrow> poll_failure" where
  "poll_failure_of encode_text json_text e =
     \<lparr>pf_category = error_category e, pf_disposition = failure_disposition_of (error_category e),
      pf_message = tq_error_text encode_text json_text e\<rparr>"

section \<open>Clock and session\<close>

record clock_reading =
  cr_arrival_millis :: u64
  cr_observed_at_utc :: string

text \<open>What the crate \<open>time\<close> reads from a timestamp at the offset of Shanghai.\<close>

record shanghai_time =
  sh_date :: int
  sh_hour :: u8
  sh_minute :: u8

datatype session_period = PeriodMorning | PeriodBreak | PeriodAfternoon | PeriodOutside

record session_marker =
  sn_date :: int
  sn_period :: session_period

definition session_period_of :: "u16 \<Rightarrow> session_period" where
  "session_period_of minute =
     (if 570 \<le> minute \<and> minute \<le> 690 then PeriodMorning
      else if 691 \<le> minute \<and> minute \<le> 779 then PeriodBreak
      else if 780 \<le> minute \<and> minute \<le> 900 then PeriodAfternoon
      else PeriodOutside)"

definition session_marker_of ::
  "(string \<Rightarrow> shanghai_time option) \<Rightarrow> string \<Rightarrow> (session_marker, service_error) rres" where
  "session_marker_of shanghai observed_at =
     rbind (ok_or ParseObservationTime (shanghai observed_at)) (\<lambda>t.
     Ok \<lparr>sn_date = sh_date t,
         sn_period = session_period_of (ucast (sh_hour t) * 60 + ucast (sh_minute t))\<rparr>)"

definition session_reset :: "session_marker \<Rightarrow> session_marker \<Rightarrow> runtime_reset_reason option" where
  "session_reset previous marker =
     (if sn_date previous \<noteq> sn_date marker then Some TradingDateChangedReset
      else if sn_period previous \<in> {PeriodMorning, PeriodBreak} \<and> sn_period marker = PeriodAfternoon
      then Some MiddayBreakReset
      else if sn_period previous = PeriodOutside \<and> sn_period marker \<in> {PeriodMorning, PeriodAfternoon}
      then Some SessionOpenedReset
      else None)"

section \<open>Snapshots\<close>

record snapshot_job =
  jb_request_id :: u64
  jb_sequence :: u64
  jb_generation :: u64
  jb_watched :: watch_instrument
  jb_reading :: clock_reading
  jb_last_fast_price :: string
  jb_last_fast_volume :: string

record snapshot_result =
  jr_job :: snapshot_job
  jr_observation :: "(market_snapshot, poll_failure) rres"

datatype snapshot_submit = Submitted | SubmitBusy

text \<open>The worker of the production service; the answers of its channels are arguments.\<close>

record snapshot_worker =
  sw_commands :: bool
  sw_handle :: bool
  sw_in_flight :: bool

definition worker_try_submit ::
  "snapshot_worker \<Rightarrow> send_outcome \<Rightarrow> snapshot_worker \<times> (snapshot_submit, service_error) rres" where
  "worker_try_submit w send =
     (if sw_in_flight w then (w, Ok SubmitBusy)
      else if \<not> sw_commands w then (w, Err SnapshotWorkerGone)
      else case send of
        SendAccepted \<Rightarrow> (w\<lparr>sw_in_flight := True\<rparr>, Ok Submitted)
      | SendFull \<Rightarrow> (w, Ok SubmitBusy)
      | SendDisconnected \<Rightarrow> (w, Err SnapshotWorkerGone))"

datatype 'a receive_outcome = Received 'a | ReceiveEmpty | ReceiveDisconnected

definition worker_try_receive ::
  "snapshot_worker \<Rightarrow> snapshot_result receive_outcome
     \<Rightarrow> snapshot_worker \<times> (snapshot_result option, service_error) rres" where
  "worker_try_receive w received =
     (case received of
        Received r \<Rightarrow> (w\<lparr>sw_in_flight := False\<rparr>, Ok (Some r))
      | ReceiveEmpty \<Rightarrow> (w, Ok None)
      | ReceiveDisconnected \<Rightarrow> (w, if sw_in_flight w then Err SnapshotWorkerGone else Ok None))"

text \<open>\<open>join\<close> says whether the thread ended without a panic.\<close>

definition worker_shutdown :: "snapshot_worker \<Rightarrow> bool \<Rightarrow> snapshot_worker \<times> (unit, service_error) rres" where
  "worker_shutdown w join =
     (if sw_handle w \<and> \<not> join
      then (w\<lparr>sw_commands := False, sw_handle := False\<rparr>, Err SnapshotWorkerPanicked)
      else (w\<lparr>sw_commands := False, sw_handle := False, sw_in_flight := False\<rparr>, Ok ()))"

end
