(* ===== verification/Monitor_Scheduler.thy ===== *)
theory Monitor_Scheduler
  imports Monitor_Runtime
begin

text \<open>
  The state of the runtime of \<open>magic-market-monitor-server\<close> \<open>runtime.rs\<close> and one cycle of it:
  discovery, the identity of the terminal, the poll of the watchlist, the analysis of its
  observations, and the snapshots in the background.
\<close>

section \<open>Admission constants of the monitors\<close>

definition local_price_change_anomaly_admitted :: bool where "local_price_change_anomaly_admitted = True"
definition local_amount_change_anomaly_admitted :: bool where "local_amount_change_anomaly_admitted = True"
definition local_volume_change_anomaly_admitted :: bool where "local_volume_change_anomaly_admitted = True"

section \<open>Environment and state\<close>

record ('w, 'v) runtime_env =
  ev_discover :: "'w \<Rightarrow> 'w \<times> ('v discovery_outcome, string) rres"
  ev_validate_watchlist :: "'w \<Rightarrow> u64 \<Rightarrow> tq_instrument list \<Rightarrow> 'w \<times> (nat, poll_failure) rres"
  ev_poll_batch :: "'w \<Rightarrow> u64 \<Rightarrow> u64 \<Rightarrow> tq_instrument list \<Rightarrow> string
      \<Rightarrow> 'w \<times> (source_observation list, poll_failure) rres"
  ev_try_submit :: "'w \<Rightarrow> snapshot_job \<Rightarrow> 'w \<times> (snapshot_submit, service_error) rres"
  ev_try_receive :: "'w \<Rightarrow> 'w \<times> (snapshot_result option, service_error) rres"
  ev_in_flight :: "'w \<Rightarrow> bool"
  ev_snapshot_shutdown :: "'w \<Rightarrow> 'w \<times> (unit, service_error) rres"
  ev_emit :: "'w \<Rightarrow> 'v service_event \<Rightarrow> 'w \<times> (unit, output_error) rres"
  ev_output_shutdown :: "'w \<Rightarrow> 'w \<times> (unit, output_error) rres"
  ev_now :: "'w \<Rightarrow> 'w \<times> (clock_reading, service_error) rres"
  ev_shanghai :: "string \<Rightarrow> shanghai_time option"
  ev_sha :: "u8 list \<Rightarrow> u8 list"

text \<open>The methods of the production poller, over what \<open>execute\<close> gives for a request.\<close>

definition poller_validate_watchlist ::
  "(tq_error \<Rightarrow> poll_failure) \<Rightarrow> 'v tq_json \<Rightarrow> (tq_request \<Rightarrow> (u8 list, tq_error) rres) \<Rightarrow> u64
     \<Rightarrow> tq_instrument list \<Rightarrow> (nat, poll_failure) rres" where
  "poller_validate_watchlist from_loopback js send request_id instruments =
     map_err from_loopback (validate_equity_watchlist js send request_id instruments)"

definition poller_poll_batch ::
  "(tq_error \<Rightarrow> poll_failure) \<Rightarrow> 'v tq_json \<Rightarrow> (tq_request \<Rightarrow> (u8 list, tq_error) rres) \<Rightarrow> u64 \<Rightarrow> u64
     \<Rightarrow> tq_instrument list \<Rightarrow> string \<Rightarrow> (source_observation list, poll_failure) rres" where
  "poller_poll_batch from_loopback js send request_id first instruments observed_at =
     map_err from_loopback (poll_price_volumes js send request_id first instruments observed_at)"

datatype 'v lifecycle =
    LifeWaiting
  | LifeCandidate "'v candidate_evidence"
  | LifeRunning "'v candidate_evidence"

datatype step_action = PollAgain | StepRediscover | StepStop

record ('w, 'v) runtime =
  rt_world :: 'w
  rt_log :: "'v service_event list"
  rt_watchlist :: "watch_instrument list"
  rt_analyzers :: analyzers
  rt_lifecycle :: "'v lifecycle"
  rt_generation :: u64
  rt_next_request_id :: u64
  rt_next_sequence :: u64
  rt_next_snapshot_sequence :: u64
  rt_snapshot_cadence_poll_cycles :: u64
  rt_identity_recheck_cycles :: u64
  rt_running_poll_cycles :: u64
  rt_next_snapshot_watch_index :: nat
  rt_consecutive_failures :: u32
  rt_restart_budget :: u32
  rt_diagnostic_poll_cycles :: u64
  rt_completed_cycles :: u64
  rt_last_arrival_millis :: "u64 option"
  rt_last_session_marker :: "session_marker option"
  rt_watchlist_validated_generation :: "u64 option"
  rt_retry_candidate :: "'v candidate_evidence option"

definition runtime_new :: "monitor_config \<Rightarrow> 'w \<Rightarrow> ('w, 'v) runtime" where
  "runtime_new config w =
     \<lparr>rt_world = w, rt_log = [], rt_watchlist = cf_watchlist config,
      rt_analyzers = analyzers_new (cf_rule_limits config) (cf_price_rule config)
        (cf_amount_rule config) (cf_volume_rule config),
      rt_lifecycle = LifeWaiting, rt_generation = 0, rt_next_request_id = 1, rt_next_sequence = 1,
      rt_next_snapshot_sequence = 1,
      rt_snapshot_cadence_poll_cycles = cf_snapshot_cadence_poll_cycles config,
      rt_identity_recheck_cycles = cf_identity_recheck_cycles config, rt_running_poll_cycles = 0,
      rt_next_snapshot_watch_index = 0, rt_consecutive_failures = 0,
      rt_restart_budget = cf_restart_budget config,
      rt_diagnostic_poll_cycles = cf_diagnostic_poll_cycles config, rt_completed_cycles = 0,
      rt_last_arrival_millis = None, rt_last_session_marker = None,
      rt_watchlist_validated_generation = None, rt_retry_candidate = None\<rparr>"

text \<open>A call of the environment, and the emission of an event.\<close>

fun world_call :: "('w, 'v) runtime \<Rightarrow> 'w \<times> ('a, 'e) rres \<Rightarrow> ('w, 'v) runtime \<times> ('a, 'e) rres" where
  "world_call s (w, r) = (s\<lparr>rt_world := w\<rparr>, r)"

definition emit ::
  "('w, 'v) runtime_env \<Rightarrow> ('w, 'v) runtime \<Rightarrow> 'v service_event
     \<Rightarrow> ('w, 'v) runtime \<times> (unit, service_error) rres" where
  "emit env s event =
     (case ev_emit env (rt_world s) event of
        (w, Ok _) \<Rightarrow> (s\<lparr>rt_world := w, rt_log := rt_log s @ [event]\<rparr>, Ok ())
      | (w, Err e) \<Rightarrow> (s\<lparr>rt_world := w\<rparr>, Err (SvOutput e))
      | (w, Panic p) \<Rightarrow> (s\<lparr>rt_world := w\<rparr>, Panic p))"

text \<open>\<open>is_multiple_of\<close>: only zero is a multiple of zero.\<close>

definition is_multiple_of :: "u64 \<Rightarrow> u64 \<Rightarrow> bool" where
  "is_multiple_of a b \<longleftrightarrow> (if b = 0 then a = 0 else a mod b = 0)"

section \<open>Counters, windows and the clock\<close>

definition take_request_id :: "('w, 'v) runtime \<Rightarrow> ('w, 'v) runtime \<times> (u64, service_error) rres" where
  "take_request_id s =
     (case checked_add (rt_next_request_id s) 1 of
        None \<Rightarrow> (s, Err RequestIdExhausted)
      | Some n \<Rightarrow> (s\<lparr>rt_next_request_id := n\<rparr>, Ok (rt_next_request_id s)))"

definition take_sequences :: "('w, 'v) runtime \<Rightarrow> nat \<Rightarrow> ('w, 'v) runtime \<times> (u64, service_error) rres" where
  "take_sequences s count =
     (if 2 ^ 64 \<le> count \<or> count = 0 then (s, Err SequenceExhausted)
      else case checked_add (rt_next_sequence s) (of_nat count) of
        None \<Rightarrow> (s, Err SequenceExhausted)
      | Some n \<Rightarrow> (s\<lparr>rt_next_sequence := n\<rparr>, Ok (rt_next_sequence s)))"

definition take_snapshot_sequence ::
  "('w, 'v) runtime \<Rightarrow> ('w, 'v) runtime \<times> (u64, service_error) rres" where
  "take_snapshot_sequence s =
     (case checked_add (rt_next_snapshot_sequence s) 1 of
        None \<Rightarrow> (s, Err SequenceExhausted)
      | Some n \<Rightarrow> (s\<lparr>rt_next_snapshot_sequence := n\<rparr>, Ok (rt_next_snapshot_sequence s)))"

definition reset_windows ::
  "('w, 'v) runtime_env \<Rightarrow> ('w, 'v) runtime \<Rightarrow> runtime_reset_reason
     \<Rightarrow> ('w, 'v) runtime \<times> (unit, service_error) rres" where
  "reset_windows env s reason =
     (case analyzers_reset (rt_analyzers s) of (az, cleared) \<Rightarrow>
        emit env (s\<lparr>rt_analyzers := az\<rparr>) (EvReset (rt_generation s) reason cleared))"

definition apply_session_reset ::
  "('w, 'v) runtime_env \<Rightarrow> ('w, 'v) runtime \<Rightarrow> string \<Rightarrow> ('w, 'v) runtime \<times> (unit, service_error) rres" where
  "apply_session_reset env s observed_at =
     sbind (s, session_marker_of (ev_shanghai env) observed_at) (\<lambda>s marker.
     let reason = Option.bind (rt_last_session_marker s) (\<lambda>previous. session_reset previous marker);
         s = s\<lparr>rt_last_session_marker := Some marker\<rparr> in
     case reason of None \<Rightarrow> (s, Ok ()) | Some reason \<Rightarrow> reset_windows env s reason)"

definition monotonic_reading ::
  "('w, 'v) runtime_env \<Rightarrow> ('w, 'v) runtime \<Rightarrow> ('w, 'v) runtime \<times> (clock_reading, service_error) rres" where
  "monotonic_reading env s =
     sbind (world_call s (ev_now env (rt_world s))) (\<lambda>s reading.
     sbind (s, case rt_last_arrival_millis s of
            None \<Rightarrow> Ok (cr_arrival_millis reading)
          | Some previous \<Rightarrow>
              map_ok (max (cr_arrival_millis reading)) (ok_or ClockOverflow (checked_add previous 1)))
       (\<lambda>s arrival.
     let reading = reading\<lparr>cr_arrival_millis := arrival\<rparr>;
         s = s\<lparr>rt_last_arrival_millis := Some arrival\<rparr> in
     sbind (apply_session_reset env s (cr_observed_at_utc reading)) (\<lambda>s _. (s, Ok reading))))"

section \<open>Leaving the terminal\<close>

definition reset_to_waiting ::
  "('w, 'v) runtime_env \<Rightarrow> ('w, 'v) runtime \<Rightarrow> runtime_reset_reason \<Rightarrow> bool
     \<Rightarrow> ('w, 'v) runtime \<times> (unit, service_error) rres" where
  "reset_to_waiting env s reason retry_same_candidate =
     (let s = s\<lparr>rt_retry_candidate :=
            if retry_same_candidate
            then (case rt_lifecycle s of LifeCandidate candidate \<Rightarrow> Some candidate | _ \<Rightarrow> None)
            else None\<rparr> in
      sbind (case rt_lifecycle s of LifeWaiting \<Rightarrow> (s, Ok ()) | _ \<Rightarrow> reset_windows env s reason) (\<lambda>s _.
      (s\<lparr>rt_lifecycle := LifeWaiting, rt_next_sequence := 1, rt_next_snapshot_sequence := 1,
         rt_running_poll_cycles := 0, rt_last_arrival_millis := None,
         rt_last_session_marker := None, rt_watchlist_validated_generation := None\<rparr>, Ok ())))"

definition fail_to_waiting ::
  "('w, 'v) runtime_env \<Rightarrow> ('w, 'v) runtime \<Rightarrow> runtime_reset_reason \<Rightarrow> string \<Rightarrow> bool
     \<Rightarrow> ('w, 'v) runtime \<times> (step_action, service_error) rres" where
  "fail_to_waiting env s reason message retry_same_candidate =
     sbind (reset_to_waiting env s reason retry_same_candidate) (\<lambda>s _.
     sbind (emit env s (EvWaiting message False)) (\<lambda>s _.
     let s = s\<lparr>rt_consecutive_failures := saturating_add (rt_consecutive_failures s) 1\<rparr> in
     if rt_restart_budget s \<noteq> - 1 \<and> rt_restart_budget s < rt_consecutive_failures s
     then sbind (emit env s (EvRestartBudgetExhausted (rt_consecutive_failures s) (rt_restart_budget s)))
            (\<lambda>s _. (s, Ok StepStop))
     else (s, Ok StepRediscover)))"

section \<open>Checks of observations\<close>

record observation_values =
  ov_price_text :: "string option"
  ov_volume_text :: "string option"
  ov_price :: "f64 option"
  ov_volume :: "f64 option"

text \<open>The error is the text of \<open>ServiceError::Observation\<close>.\<close>

definition validate_row_observation ::
  "source_observation \<Rightarrow> watch_instrument \<Rightarrow> u64 \<Rightarrow> string \<Rightarrow> (observation_values, string) rres" where
  "validate_row_observation observation watched expected_sequence expected_time =
     rbind (map_err validation_text (source_observation_validate observation)) (\<lambda>_.
     if so_instrument observation \<noteq> source_instrument_of (wi_source watched)
     then Err ''loopback instrument correlation mismatch''
     else if so_bridge_sequence observation \<noteq> expected_sequence
     then Err ''loopback sequence correlation mismatch''
     else if so_observed_at_utc observation \<noteq> expected_time
     then Err ''loopback observation-time correlation mismatch''
     else if so_cumulative_amount observation \<noteq> None \<or> so_source_record_count observation \<noteq> None
        \<or> so_source_timestamp observation \<noteq> None
     then Err ''price-volume method returned fields outside the initial fixed schema''
     else
       let price = Option.bind (so_price observation) (\<lambda>v.
             case parse_f64 (do_value v) of
               Some x \<Rightarrow> if f64_lt f64_zero x then Some x else None
             | None \<Rightarrow> None);
           volume = Option.bind (so_cumulative_volume observation) (\<lambda>v. parse_f64 (do_value v)) in
       Ok \<lparr>ov_price_text = (if price = None then None else map_option do_value (so_price observation)),
           ov_volume_text = (if volume = None then None
             else map_option do_value (so_cumulative_volume observation)),
           ov_price = price, ov_volume = volume\<rparr>)"

record snapshot_values =
  sv_amount_text :: string
  sv_price_text :: string
  sv_volume_text :: string
  sv_amount :: f64

definition with_unit :: "observation_unit \<Rightarrow> decimal_observation option \<Rightarrow> decimal_observation option" where
  "with_unit unit value =
     (case value of Some d \<Rightarrow> if do_unit d = unit then Some d else None | None \<Rightarrow> None)"

definition validate_snapshot ::
  "source_observation \<Rightarrow> snapshot_job \<Rightarrow> (snapshot_values, string) rres" where
  "validate_snapshot observation job =
     rbind (map_err validation_text (source_observation_validate observation)) (\<lambda>_.
     if so_instrument observation \<noteq> source_instrument_of (wi_source (jb_watched job))
     then Err ''snapshot instrument correlation mismatch''
     else if so_bridge_sequence observation \<noteq> jb_sequence job
     then Err ''snapshot sequence correlation mismatch''
     else if so_observed_at_utc observation \<noteq> cr_observed_at_utc (jb_reading job)
     then Err ''snapshot observation-time correlation mismatch''
     else if so_source_timestamp observation \<noteq> None \<or> so_source_record_count observation \<noteq> None
     then Err ''snapshot returned fields outside the fixed schema''
     else
       rbind (ok_or ''snapshot amount CNY is unavailable''
                (with_unit Cny (so_cumulative_amount observation))) (\<lambda>amount.
       rbind (ok_or ''snapshot cross-check price is unavailable''
                (with_unit CnyPerShare (so_price observation))) (\<lambda>price.
       rbind (ok_or ''snapshot cross-check volume lots are unavailable''
                (with_unit UnitLot (so_cumulative_volume observation))) (\<lambda>volume.
       rbind (ok_or ''snapshot amount cannot be represented for analysis''
                (parse_f64 (do_value amount))) (\<lambda>value.
       Ok \<lparr>sv_amount_text = do_value amount, sv_price_text = do_value price,
           sv_volume_text = do_value volume, sv_amount = value\<rparr>)))))"

end
