(* ===== verification/Monitor_Cycle.thy ===== *)
theory Monitor_Cycle
  imports Monitor_Scheduler
begin

text \<open>
  One cycle of the runtime of \<open>magic-market-monitor-server\<close> \<open>runtime.rs\<close>, and the loop of the
  service around it. A method that returns a step before its end gives \<open>Leave\<close> of that step.
\<close>

datatype 'x early = Leave step_action | Continue 'x

definition same_terminal :: "'v candidate_evidence \<Rightarrow> 'v candidate_evidence \<Rightarrow> bool" where
  "same_terminal a b \<longleftrightarrow> ce_process_id a = ce_process_id b \<and> ce_session_id a = ce_session_id b
     \<and> ce_process_creation_time a = ce_process_creation_time b"

definition is_running :: "'v lifecycle \<Rightarrow> bool" where
  "is_running l \<longleftrightarrow> (case l of LifeRunning _ \<Rightarrow> True | _ \<Rightarrow> False)"

section \<open>Analysis of one observation\<close>

fun update_admitted :: "analysis_update \<Rightarrow> bool" where
  "update_admitted u \<longleftrightarrow>
     (case au_family u of
        FamilyPrice \<Rightarrow> local_terminal_price_admitted \<and> local_price_change_anomaly_admitted
      | FamilyAmount \<Rightarrow> local_terminal_amount_admitted \<and> local_amount_change_anomaly_admitted
      | FamilyVolume \<Rightarrow> local_terminal_volume_admitted \<and> local_volume_change_anomaly_admitted)
     \<and> au_anomaly_event u \<noteq> None"

fun emit_updates ::
  "('w, 'v) runtime_env \<Rightarrow> ('w, 'v) runtime \<Rightarrow> string \<Rightarrow> analysis_update list
     \<Rightarrow> ('w, 'v) runtime \<times> (unit, service_error) rres" where
  "emit_updates env s observed_at [] = (s, Ok ())"
| "emit_updates env s observed_at (u # us) =
     sbind (emit env s (EvAnalysis (rt_generation s) (update_admitted u) (au_instrument u) observed_at
              LocalObservationTime u)) (\<lambda>s _.
     emit_updates env s observed_at us)"

definition run_analysis ::
  "('w, 'v) runtime \<Rightarrow> analyzers \<times> (analysis_update list, analysis_error) rres
     \<Rightarrow> ('w, 'v) runtime \<times> (analysis_update list, service_error) rres" where
  "run_analysis s result = (s\<lparr>rt_analyzers := fst result\<rparr>, map_err SvAnalysis (snd result))"

definition unavailable ::
  "('w, 'v) runtime_env \<Rightarrow> ('w, 'v) runtime \<Rightarrow> watch_instrument \<Rightarrow> analysis_family \<Rightarrow> string
     \<Rightarrow> ('w, 'v) runtime \<times> (unit, service_error) rres" where
  "unavailable env s watched family reason =
     emit env s (EvFamilyUnavailable (rt_generation s) (wi_label watched) family reason True)"

record fast_sample =
  fs_watched :: watch_instrument
  fs_price :: string
  fs_volume :: string

definition unwrap_or_default :: "string option \<Rightarrow> string" where
  "unwrap_or_default x = (case x of None \<Rightarrow> '''' | Some t \<Rightarrow> t)"

text \<open>The first accepted observation of a candidate: it becomes the running terminal.\<close>

definition report_health ::
  "('w, 'v) runtime_env \<Rightarrow> ('w, 'v) runtime \<Rightarrow> 'v candidate_evidence \<Rightarrow> watch_instrument
     \<Rightarrow> source_observation \<Rightarrow> ('w, 'v) runtime \<times> (unit, service_error) rres" where
  "report_health env s candidate watched observation =
     sbind (emit env s (EvLoopbackHealth (rt_generation s) (wi_label watched) True
              (so_protocol_version observation) (so_schema_version observation))) (\<lambda>s _.
     if \<not> is_running (rt_lifecycle s)
     then emit env (s\<lparr>rt_lifecycle := LifeRunning candidate, rt_retry_candidate := None\<rparr>)
            (EvRunning (rt_generation s))
     else (s, Ok ()))"

definition observation_input ::
  "('w, 'v) runtime \<Rightarrow> watch_instrument \<Rightarrow> clock_reading \<Rightarrow> u64 \<Rightarrow> observation_values \<Rightarrow> analysis_input" where
  "observation_input s watched reading sequence v =
     \<lparr>ni_instrument_label = wi_label watched,
      ni_exchange = si_exchange (source_instrument_of (wi_source watched)),
      ni_code = si_code (source_instrument_of (wi_source watched)),
      ni_observed_at_utc = cr_observed_at_utc reading, ni_arrival_millis = cr_arrival_millis reading,
      ni_generation = rt_generation s, ni_sequence = sequence,
      ni_price = ov_price v, ni_cumulative_volume_lots = ov_volume v\<rparr>"

definition observation_event ::
  "('w, 'v) runtime \<Rightarrow> watch_instrument \<Rightarrow> source_observation \<Rightarrow> observation_values \<Rightarrow> 'v service_event" where
  "observation_event s watched observation v =
     EvObservation (rt_generation s) (wi_label watched) (so_observed_at_utc observation) observation
       (ov_price_text v) (ov_volume_text v)
       (local_terminal_price_admitted \<and> ov_price v \<noteq> None)
       (local_terminal_volume_admitted \<and> ov_volume v \<noteq> None) local_terminal_amount_admitted"

text \<open>One turn of the loop over a batch: what happens to an observation that passed its checks.
  \<open>first\<close> says whether the health of the terminal is still to be reported.\<close>

definition accept_observation ::
  "('w, 'v) runtime_env \<Rightarrow> bool \<Rightarrow> 'v candidate_evidence \<Rightarrow> clock_reading \<Rightarrow> ('w, 'v) runtime \<Rightarrow> u64
     \<Rightarrow> watch_instrument \<Rightarrow> source_observation \<Rightarrow> observation_values
     \<Rightarrow> ('w, 'v) runtime \<times> (fast_sample, service_error) rres" where
  "accept_observation env report candidate reading s sequence watched observation v =
     sbind (if ov_price v = None
            then unavailable env s watched FamilyPrice
                   ''Now is zero, missing, or not representable as a positive price''
            else (s, Ok ())) (\<lambda>s _.
     sbind (if ov_volume v = None
            then unavailable env s watched FamilyVolume ''Volume is missing or not representable''
            else (s, Ok ())) (\<lambda>s _.
     sbind (if report then report_health env s candidate watched observation else (s, Ok ())) (\<lambda>s _.
     sbind (emit env s (observation_event s watched observation v)) (\<lambda>s _.
     sbind (run_analysis s (analyze (ev_sha env) (rt_analyzers s)
              (observation_input s watched reading sequence v))) (\<lambda>s updates.
     sbind (emit_updates env s (cr_observed_at_utc reading) updates) (\<lambda>s _.
     (s, Ok \<lparr>fs_watched = watched, fs_price = unwrap_or_default (ov_price_text v),
             fs_volume = unwrap_or_default (ov_volume_text v)\<rparr>)))))))"

definition reject_observation ::
  "('w, 'v) runtime_env \<Rightarrow> ('w, 'v) runtime \<Rightarrow> watch_instrument \<Rightarrow> string
     \<Rightarrow> ('w, 'v) runtime \<times> (unit, service_error) rres" where
  "reject_observation env s watched text =
     sbind (unavailable env s watched FamilyPrice (''invalid loopback observation: '' @ text)) (\<lambda>s _.
     unavailable env s watched FamilyVolume (''invalid loopback observation: '' @ text))"

fun poll_items ::
  "('w, 'v) runtime_env \<Rightarrow> bool \<Rightarrow> 'v candidate_evidence \<Rightarrow> clock_reading \<Rightarrow> u64 \<Rightarrow> nat
     \<Rightarrow> (watch_instrument \<times> source_observation) list \<Rightarrow> bool \<Rightarrow> fast_sample list \<Rightarrow> ('w, 'v) runtime
     \<Rightarrow> ('w, 'v) runtime \<times> (fast_sample list, service_error) rres" where
  "poll_items env pending candidate reading first_sequence index [] first samples s = (s, Ok samples)"
| "poll_items env pending candidate reading first_sequence index ((watched, observation) # items) first samples s =
     sbind (s, ok_or SequenceExhausted (checked_add first_sequence (of_nat index))) (\<lambda>s sequence.
     case validate_row_observation observation watched sequence (cr_observed_at_utc reading) of
       Err text \<Rightarrow>
         sbind (reject_observation env s watched text) (\<lambda>s _.
         poll_items env pending candidate reading first_sequence (index + 1) items first samples s)
     | Panic p \<Rightarrow> (s, Panic p)
     | Ok v \<Rightarrow>
         sbind (accept_observation env (first \<and> pending) candidate reading s sequence watched observation v)
           (\<lambda>s sample.
         poll_items env pending candidate reading first_sequence (index + 1) items
           (first \<and> \<not> pending) (samples @ [sample]) s))"

section \<open>Snapshots\<close>

definition schedule_snapshot ::
  "('w, 'v) runtime_env \<Rightarrow> ('w, 'v) runtime \<Rightarrow> fast_sample list \<Rightarrow> ('w, 'v) runtime \<times> (unit, service_error) rres" where
  "schedule_snapshot env s samples =
     (if samples = [] then (s, Panic ''attempt to calculate the remainder with a divisor of zero'')
      else
        let index = rt_next_snapshot_watch_index s mod length samples;
            sample = samples ! index;
            busy = (\<lambda>s. emit env s (EvSnapshotBusy (rt_generation s) (wi_label (fs_watched sample)) 1)) in
        if ev_in_flight env (rt_world s) then busy s
        else
          sbind (monotonic_reading env s) (\<lambda>s reading.
          sbind (take_request_id s) (\<lambda>s request_id.
          sbind (take_snapshot_sequence s) (\<lambda>s sequence.
          sbind (world_call s (ev_try_submit env (rt_world s)
                   \<lparr>jb_request_id = request_id, jb_sequence = sequence, jb_generation = rt_generation s,
                    jb_watched = fs_watched sample, jb_reading = reading,
                    jb_last_fast_price = fs_price sample, jb_last_fast_volume = fs_volume sample\<rparr>))
            (\<lambda>s submitted.
          case submitted of
            Submitted \<Rightarrow> (s\<lparr>rt_next_snapshot_watch_index := (index + 1) mod length samples\<rparr>, Ok ())
          | SubmitBusy \<Rightarrow> busy s)))))"

definition snapshot_failed ::
  "('w, 'v) runtime_env \<Rightarrow> ('w, 'v) runtime \<Rightarrow> string \<Rightarrow> tq_error_category \<Rightarrow> failure_disposition \<Rightarrow> string
     \<Rightarrow> ('w, 'v) runtime \<times> (unit, service_error) rres" where
  "snapshot_failed env s label category disposition message =
     (case analyzers_reset_amount (rt_analyzers s) of (az, cleared) \<Rightarrow>
        emit env (s\<lparr>rt_analyzers := az\<rparr>)
          (EvLoopbackFailure (rt_generation s) label OpMarketSnapshot category disposition message cleared))"

definition snapshot_event ::
  "('w, 'v) runtime \<Rightarrow> snapshot_job \<Rightarrow> market_snapshot \<Rightarrow> snapshot_values \<Rightarrow> 'v service_event" where
  "snapshot_event s job snapshot v =
     EvSnapshotObservation (rt_generation s) (wi_label (jb_watched job))
       (so_observed_at_utc (mk_observation snapshot)) (sv_amount_text v) (sv_price_text v)
       (do_value (sp_previous_close (mk_prices snapshot))) local_terminal_previous_close_admitted
       (do_value (sp_open (mk_prices snapshot))) (do_value (sp_high (mk_prices snapshot)))
       (do_value (sp_low (mk_prices snapshot))) local_terminal_ohlc_admitted (sv_volume_text v)
       (sv_price_text v = jb_last_fast_price job) (sv_volume_text v = jb_last_fast_volume job)
       local_terminal_amount_admitted"

definition snapshot_input :: "snapshot_job \<Rightarrow> snapshot_values \<Rightarrow> amount_analysis_input" where
  "snapshot_input job v =
     \<lparr>mi_instrument_label = wi_label (jb_watched job),
      mi_exchange = si_exchange (source_instrument_of (wi_source (jb_watched job))),
      mi_code = si_code (source_instrument_of (wi_source (jb_watched job))),
      mi_observed_at_utc = cr_observed_at_utc (jb_reading job),
      mi_arrival_millis = cr_arrival_millis (jb_reading job), mi_generation = jb_generation job,
      mi_sequence = jb_sequence job, mi_cumulative_amount_cny = sv_amount v\<rparr>"

text \<open>The updates of a snapshot are admitted as updates of the amount, whatever their family.\<close>

fun emit_snapshot_updates ::
  "('w, 'v) runtime_env \<Rightarrow> ('w, 'v) runtime \<Rightarrow> string \<Rightarrow> analysis_update list
     \<Rightarrow> ('w, 'v) runtime \<times> (unit, service_error) rres" where
  "emit_snapshot_updates env s observed_at [] = (s, Ok ())"
| "emit_snapshot_updates env s observed_at (u # us) =
     sbind (emit env s (EvAnalysis (rt_generation s)
              (local_terminal_amount_admitted \<and> local_amount_change_anomaly_admitted
                 \<and> au_anomaly_event u \<noteq> None)
              (au_instrument u) observed_at LocalObservationTime u)) (\<lambda>s _.
     emit_snapshot_updates env s observed_at us)"

definition accept_snapshot ::
  "('w, 'v) runtime_env \<Rightarrow> ('w, 'v) runtime \<Rightarrow> snapshot_job \<Rightarrow> market_snapshot \<Rightarrow> snapshot_values
     \<Rightarrow> ('w, 'v) runtime \<times> (unit, service_error) rres" where
  "accept_snapshot env s job snapshot v =
     sbind (emit env s (snapshot_event s job snapshot v)) (\<lambda>s _.
     sbind (run_analysis s (analyze_amount (ev_sha env) (rt_analyzers s) (snapshot_input job v))) (\<lambda>s updates.
     emit_snapshot_updates env s (cr_observed_at_utc (jb_reading job)) updates))"

definition drain_snapshot_result ::
  "('w, 'v) runtime_env \<Rightarrow> ('w, 'v) runtime \<Rightarrow> ('w, 'v) runtime \<times> (unit, service_error) rres" where
  "drain_snapshot_result env s =
     sbind (world_call s (ev_try_receive env (rt_world s))) (\<lambda>s received.
     case received of
       None \<Rightarrow> (s, Ok ())
     | Some result \<Rightarrow>
         let job = jr_job result; label = wi_label (jb_watched job) in
         if jb_generation job \<noteq> rt_generation s \<or> rt_lifecycle s = LifeWaiting
         then emit env s (EvFamilyUnavailable (jb_generation job) label FamilyAmount
                ''stale snapshot result from a previous lifecycle generation'' True)
         else case jr_observation result of
           Panic p \<Rightarrow> (s, Panic p)
         | Err e \<Rightarrow> snapshot_failed env s label (pf_category e) (pf_disposition e) (pf_message e)
         | Ok snapshot \<Rightarrow>
             (case validate_snapshot (mk_observation snapshot) job of
                Panic p \<Rightarrow> (s, Panic p)
              | Err message \<Rightarrow> snapshot_failed env s label CatSchema FailurePermanent message
              | Ok v \<Rightarrow> accept_snapshot env s job snapshot v))"

section \<open>The poll of a candidate\<close>

definition same_candidate :: "('w, 'v) runtime \<Rightarrow> 'v candidate_evidence \<Rightarrow> bool" where
  "same_candidate s candidate =
     (case rt_lifecycle s of
        LifeCandidate previous \<Rightarrow> same_terminal previous candidate
      | LifeRunning previous \<Rightarrow> same_terminal previous candidate
      | LifeWaiting \<Rightarrow> (case rt_retry_candidate s of
            None \<Rightarrow> False | Some previous \<Rightarrow> same_terminal previous candidate))"

definition adopt_candidate ::
  "('w, 'v) runtime_env \<Rightarrow> ('w, 'v) runtime \<Rightarrow> 'v candidate_evidence
     \<Rightarrow> ('w, 'v) runtime \<times> (unit, service_error) rres" where
  "adopt_candidate env s candidate =
     (if same_candidate s candidate
      then (if rt_lifecycle s = LifeWaiting
            then s\<lparr>rt_lifecycle := LifeCandidate candidate, rt_retry_candidate := None\<rparr> else s, Ok ())
      else
        sbind (if rt_lifecycle s \<noteq> LifeWaiting then reset_windows env s TerminalCandidateChanged
               else (s, Ok ())) (\<lambda>s _.
        sbind (s, ok_or GenerationExhausted (checked_add (rt_generation s) 1)) (\<lambda>s generation.
        emit env (s\<lparr>rt_generation := generation, rt_next_sequence := 1, rt_next_snapshot_sequence := 1,
                    rt_running_poll_cycles := 0, rt_next_snapshot_watch_index := 0,
                    rt_last_arrival_millis := None, rt_last_session_marker := None,
                    rt_watchlist_validated_generation := None, rt_retry_candidate := None,
                    rt_lifecycle := LifeCandidate candidate\<rparr>)
          (EvDiscoveryCandidate generation candidate True))))"

definition watch_sources :: "('w, 'v) runtime \<Rightarrow> tq_instrument list" where
  "watch_sources s = map wi_source (rt_watchlist s)"

definition validate_watchlist_once ::
  "('w, 'v) runtime_env \<Rightarrow> ('w, 'v) runtime \<Rightarrow> ('w, 'v) runtime \<times> (unit early, service_error) rres" where
  "validate_watchlist_once env s =
     (if rt_watchlist_validated_generation s = Some (rt_generation s) then (s, Ok (Continue ()))
      else
        sbind (take_request_id s) (\<lambda>s request_id.
        case world_call s (ev_validate_watchlist env (rt_world s) request_id (watch_sources s)) of
          (s, Ok universe) \<Rightarrow>
            sbind (emit env (s\<lparr>rt_watchlist_validated_generation := Some (rt_generation s)\<rparr>)
                     (EvEquityWatchlistValidated (rt_generation s) (length (watch_sources s)) universe True))
              (\<lambda>s _. (s, Ok (Continue ())))
        | (s, Err e) \<Rightarrow>
            sbind (emit env s (EvLoopbackFailure (rt_generation s) ''EQUITY_WATCHLIST''
                     OpEquityUniverse (pf_category e) (pf_disposition e) (pf_message e) False)) (\<lambda>s _.
            sbind (fail_to_waiting env s LoopbackPollFailed (pf_message e)
                     (pf_disposition e = FailureTransient)) (\<lambda>s action.
            (s, Ok (Leave action))))
        | (s, Panic p) \<Rightarrow> (s, Panic p)))"

definition poll_failed ::
  "('w, 'v) runtime_env \<Rightarrow> ('w, 'v) runtime \<Rightarrow> poll_failure \<Rightarrow> ('w, 'v) runtime \<times> (step_action, service_error) rres" where
  "poll_failed env s e =
     sbind (emit env s (EvLoopbackFailure (rt_generation s) ''EQUITY_WATCHLIST''
              OpPriceVolume (pf_category e) (pf_disposition e) (pf_message e) False)) (\<lambda>s _.
     fail_to_waiting env s (if pf_category e = CatConnect then LoopbackConnectFailed else LoopbackPollFailed)
       (pf_message e) (pf_disposition e = FailureTransient))"

text \<open>The end of a pass over the watchlist.\<close>

definition finish_pass ::
  "('w, 'v) runtime_env \<Rightarrow> ('w, 'v) runtime \<Rightarrow> fast_sample list
     \<Rightarrow> ('w, 'v) runtime \<times> (step_action, service_error) rres" where
  "finish_pass env s samples =
     sbind (s, ok_or DiagnosticCycleExhausted (checked_add (rt_running_poll_cycles s) 1)) (\<lambda>s cycles.
     let s = s\<lparr>rt_running_poll_cycles := cycles\<rparr> in
     sbind (if samples \<noteq> [] \<and> is_multiple_of cycles (rt_snapshot_cadence_poll_cycles s)
            then schedule_snapshot env s samples else (s, Ok ())) (\<lambda>s _.
     (s\<lparr>rt_consecutive_failures := 0\<rparr>, Ok PollAgain)))"

definition poll_watchlist ::
  "('w, 'v) runtime_env \<Rightarrow> bool \<Rightarrow> 'v candidate_evidence \<Rightarrow> ('w, 'v) runtime
     \<Rightarrow> ('w, 'v) runtime \<times> (step_action, service_error) rres" where
  "poll_watchlist env pending candidate s =
     sbind (monotonic_reading env s) (\<lambda>s reading.
     sbind (take_request_id s) (\<lambda>s request_id.
     sbind (take_sequences s (length (rt_watchlist s))) (\<lambda>s first_sequence.
     case world_call s (ev_poll_batch env (rt_world s) request_id first_sequence (watch_sources s)
            (cr_observed_at_utc reading)) of
       (s, Ok observations) \<Rightarrow>
         if length observations = length (rt_watchlist s)
         then sbind (poll_items env pending candidate reading first_sequence 0
                       (zip (rt_watchlist s) observations) True [] s) (\<lambda>s samples.
              finish_pass env s samples)
         else fail_to_waiting env s LoopbackPollFailed
                ''loopback price-volume batch cardinality mismatch'' False
     | (s, Err e) \<Rightarrow> poll_failed env s e
     | (s, Panic p) \<Rightarrow> (s, Panic p))))"

definition poll_candidate ::
  "('w, 'v) runtime_env \<Rightarrow> ('w, 'v) runtime \<Rightarrow> 'v candidate_evidence
     \<Rightarrow> ('w, 'v) runtime \<times> (step_action, service_error) rres" where
  "poll_candidate env s candidate =
     (let pending = \<not> is_running (rt_lifecycle s) in
      sbind (adopt_candidate env s candidate) (\<lambda>s _.
      sbind (validate_watchlist_once env s) (\<lambda>s validated.
      case validated of
        Leave action \<Rightarrow> (s, Ok action)
      | Continue _ \<Rightarrow> poll_watchlist env pending candidate s)))"

section \<open>Cycles\<close>

definition recheck_identity ::
  "('w, 'v) runtime_env \<Rightarrow> ('w, 'v) runtime \<Rightarrow> 'v candidate_evidence
     \<Rightarrow> ('w, 'v) runtime \<times> (step_action, service_error) rres" where
  "recheck_identity env s current =
     (case world_call s (ev_discover env (rt_world s)) of
        (s, Ok (DiscoveredCandidate candidate)) \<Rightarrow>
          if same_terminal candidate current then poll_candidate env s current
          else sbind (reset_windows env s TerminalCandidateChanged) (\<lambda>s _.
               poll_candidate env (s\<lparr>rt_lifecycle := LifeWaiting\<rparr>) candidate)
      | (s, Ok (DiscoveredNone reason)) \<Rightarrow> fail_to_waiting env s TerminalNotRunning reason False
      | (s, Ok (DiscoveredRejected reason)) \<Rightarrow> fail_to_waiting env s TerminalDiscoveryRejected reason False
      | (s, Err text) \<Rightarrow> fail_to_waiting env s TerminalDiscoveryFailed text False
      | (s, Panic p) \<Rightarrow> (s, Panic p))"

definition discover_terminal ::
  "('w, 'v) runtime_env \<Rightarrow> ('w, 'v) runtime \<Rightarrow> ('w, 'v) runtime \<times> (step_action, service_error) rres" where
  "discover_terminal env s =
     (let wait = (\<lambda>s reset reason.
            sbind (reset_to_waiting env s reset False) (\<lambda>s _.
            sbind (emit env s (EvWaiting reason False)) (\<lambda>s _. (s, Ok StepRediscover)))) in
      case world_call s (ev_discover env (rt_world s)) of
        (s, Ok (DiscoveredNone reason)) \<Rightarrow> wait s TerminalNotRunning reason
      | (s, Ok (DiscoveredRejected reason)) \<Rightarrow> wait s TerminalDiscoveryRejected reason
      | (s, Ok (DiscoveredCandidate candidate)) \<Rightarrow> poll_candidate env s candidate
      | (s, Err text) \<Rightarrow> fail_to_waiting env s TerminalDiscoveryFailed text False
      | (s, Panic p) \<Rightarrow> (s, Panic p))"

definition step_inner ::
  "('w, 'v) runtime_env \<Rightarrow> ('w, 'v) runtime \<Rightarrow> ('w, 'v) runtime \<times> (step_action, service_error) rres" where
  "step_inner env s =
     sbind (drain_snapshot_result env s) (\<lambda>s _.
     case rt_lifecycle s of
       LifeRunning candidate \<Rightarrow>
         if rt_running_poll_cycles s \<noteq> 0
            \<and> is_multiple_of (rt_running_poll_cycles s) (rt_identity_recheck_cycles s)
         then recheck_identity env s candidate else poll_candidate env s candidate
     | LifeCandidate candidate \<Rightarrow> poll_candidate env s candidate
     | LifeWaiting \<Rightarrow> discover_terminal env s)"

definition step ::
  "('w, 'v) runtime_env \<Rightarrow> ('w, 'v) runtime \<Rightarrow> ('w, 'v) runtime \<times> (step_action, service_error) rres" where
  "step env s =
     sbind (step_inner env s) (\<lambda>s action.
     if action = StepStop then (s, Ok action)
     else
       sbind (s, ok_or DiagnosticCycleExhausted (checked_add (rt_completed_cycles s) 1)) (\<lambda>s cycles.
       let s = s\<lparr>rt_completed_cycles := cycles\<rparr> in
       if rt_diagnostic_poll_cycles s \<noteq> 0 \<and> rt_diagnostic_poll_cycles s \<le> cycles
       then sbind (emit env s (EvDiagnosticCompleted cycles (rt_diagnostic_poll_cycles s)))
              (\<lambda>s _. (s, Ok StepStop))
       else (s, Ok action)))"

text \<open>At most \<open>n\<close> cycles of the loop of the service, which ends at a stop or an error; then its
  shutdown.\<close>

fun serve :: "nat \<Rightarrow> ('w, 'v) runtime_env \<Rightarrow> ('w, 'v) runtime \<Rightarrow> ('w, 'v) runtime \<times> (step_action, service_error) rres" where
  "serve 0 env s = (s, Ok PollAgain)"
| "serve (Suc n) env s =
     sbind (step env s) (\<lambda>s action. if action = StepStop then (s, Ok StepStop) else serve n env s)"

definition shutdown_snapshot ::
  "('w, 'v) runtime_env \<Rightarrow> ('w, 'v) runtime \<Rightarrow> ('w, 'v) runtime \<times> (unit, service_error) rres" where
  "shutdown_snapshot env s =
     (let in_flight = ev_in_flight env (rt_world s) in
      sbind (world_call s (ev_snapshot_shutdown env (rt_world s))) (\<lambda>s _.
      emit env s (EvSnapshotWorkerStopped in_flight True)))"

definition shutdown_output ::
  "('w, 'v) runtime_env \<Rightarrow> ('w, 'v) runtime \<Rightarrow> ('w, 'v) runtime \<times> (unit, service_error) rres" where
  "shutdown_output env s =
     (case world_call s (ev_output_shutdown env (rt_world s)) of (s, r) \<Rightarrow> (s, map_err SvOutput r))"

text \<open>What the service returns when its loop has ended with \<open>result\<close>.\<close>

definition service_end ::
  "('w, 'v) runtime_env \<Rightarrow> ('w, 'v) runtime \<Rightarrow> (unit, service_error) rres
     \<Rightarrow> ('w, 'v) runtime \<times> (unit, service_error) rres" where
  "service_end env s result =
     (case shutdown_snapshot env s of (s, snapshot_result) \<Rightarrow>
      case shutdown_output env s of (s, output_result) \<Rightarrow>
        (s, rbind result (\<lambda>_. rbind snapshot_result (\<lambda>_. output_result))))"

end
