(* ===== verification/Monitor_Output_Protocol.thy ===== *)
theory Monitor_Output_Protocol
  imports Monitor_Cycle
begin

text \<open>
  The protocol of the monitor's output as a deterministic acceptor of its events, and the lemmas
  that carry the runtime's operations through it: what an event may follow, and what the state of
  the runtime says about the events so far.
\<close>

section \<open>The acceptor\<close>

text \<open>A generation has no terminal, a candidate, a candidate whose watchlist the terminal knows, or
  a running terminal with the sequence of its last observation; the output may also be over.\<close>

datatype output_phase = PhIdle | PhCandidate | PhValidated | PhRunning nat | PhDone

type_synonym output_state = "u64 \<times> output_phase"

definition session_reason :: "runtime_reset_reason \<Rightarrow> bool" where
  "session_reason r \<longleftrightarrow> r \<in> {TradingDateChangedReset, MiddayBreakReset, SessionOpenedReset}"

definition polling :: "output_phase \<Rightarrow> bool" where
  "polling p \<longleftrightarrow> (case p of PhValidated \<Rightarrow> True | PhRunning _ \<Rightarrow> True | _ \<Rightarrow> False)"

definition attached :: "output_phase \<Rightarrow> bool" where
  "attached p \<longleftrightarrow> p \<noteq> PhIdle \<and> p \<noteq> PhDone"

definition stays :: "bool \<Rightarrow> output_state \<Rightarrow> output_state option" where
  "stays c q = (if c then Some q else None)"

text \<open>A loss of the terminal ends a running generation for good; a candidate may come back.\<close>

definition lost :: "output_phase \<Rightarrow> output_phase" where
  "lost p = (case p of PhRunning _ \<Rightarrow> PhIdle | _ \<Rightarrow> PhCandidate)"

fun output_step :: "output_state \<Rightarrow> 'v service_event \<Rightarrow> output_state option" where
  "output_step (g, p) (EvWaiting _ _) = stays (p = PhIdle \<or> p = PhCandidate) (g, p)"
| "output_step (g, p) (EvDiscoveryCandidate g' _ _) =
     stays ((p = PhIdle \<or> p = PhCandidate) \<and> unat g' = unat g + 1) (g', PhCandidate)"
| "output_step (g, p) (EvEquityWatchlistValidated g' _ _ _) =
     stays (p = PhCandidate \<and> g' = g) (g, PhValidated)"
| "output_step (g, p) (EvLoopbackHealth g' _ _ _ _) = stays (p = PhValidated \<and> g' = g) (g, p)"
| "output_step (g, p) (EvRunning g') = stays (p = PhValidated \<and> g' = g) (g, PhRunning 0)"
| "output_step (g, p) (EvObservation g' _ _ ob _ _ _ _ _) =
     (case p of
        PhRunning n \<Rightarrow> stays (g' = g \<and> n < unat (so_bridge_sequence ob))
          (g, PhRunning (unat (so_bridge_sequence ob)))
      | _ \<Rightarrow> None)"
| "output_step (g, p) (EvAnalysis g' _ _ _ _ u) =
     (if au_family u = FamilyAmount then stays (attached p \<and> g' = g) (g, p)
      else case p of
        PhRunning n \<Rightarrow> stays (g' = g \<and> (case au_anomaly_event u of None \<Rightarrow> True
            | Some e \<Rightarrow> analysis_cursor g (of_nat n) 0 = Ok (ae_stream e))) (g, p)
      | _ \<Rightarrow> None)"
| "output_step (g, p) (EvSnapshotObservation g' _ _ _ _ _ _ _ _ _ _ _ _ _ _) =
     stays (attached p \<and> g' = g) (g, p)"
| "output_step (g, p) (EvFamilyUnavailable g' _ family _ _) =
     stays (if family = FamilyAmount then p \<noteq> PhDone else polling p \<and> g' = g) (g, p)"
| "output_step (g, p) (EvLoopbackFailure g' _ operation _ _ _ _) =
     stays (g' = g \<and> (case operation of OpEquityUniverse \<Rightarrow> p = PhCandidate
        | OpPriceVolume \<Rightarrow> polling p | OpMarketSnapshot \<Rightarrow> attached p)) (g, p)"
| "output_step (g, p) (EvSnapshotBusy g' _ _) =
     stays (g' = g \<and> (case p of PhRunning _ \<Rightarrow> True | _ \<Rightarrow> False)) (g, p)"
| "output_step (g, p) (EvReset g' reason _) =
     (if session_reason reason then stays (polling p \<and> g' = g) (g, p)
      else stays (attached p \<and> g' = g) (g, lost p))"
| "output_step (g, p) (EvRestartBudgetExhausted _ _) = stays (p = PhIdle \<or> p = PhCandidate) (g, PhDone)"
| "output_step (g, p) (EvDiagnosticCompleted _ _) = stays (p \<noteq> PhDone) (g, PhDone)"
| "output_step (g, p) (EvSnapshotWorkerStopped _ _) = Some (g, PhDone)"

fun output_run :: "output_state \<Rightarrow> 'v service_event list \<Rightarrow> output_state option" where
  "output_run q [] = Some q"
| "output_run q (e # es) = (case output_step q e of None \<Rightarrow> None | Some q' \<Rightarrow> output_run q' es)"

definition output_ok :: "'v service_event list \<Rightarrow> bool" where
  "output_ok es \<longleftrightarrow> output_run (0, PhIdle) es \<noteq> None"

lemma output_run_append:
  "output_run q (xs @ ys) = Option.bind (output_run q xs) (\<lambda>q'. output_run q' ys)"
  by (induction q xs rule: output_run.induct) (auto split: option.splits)

section \<open>Outcomes\<close>

text \<open>The postcondition of a call: \<open>Q\<close> of its value and state, \<open>E\<close> of the state an error leaves.\<close>

definition outcome :: "('a \<Rightarrow> 's \<Rightarrow> bool) \<Rightarrow> ('s \<Rightarrow> bool) \<Rightarrow> 's \<times> ('a, 'e) rres \<Rightarrow> bool" where
  "outcome Q E r \<longleftrightarrow> (case snd r of Ok x \<Rightarrow> Q x (fst r) | _ \<Rightarrow> E (fst r))"

lemma outcome_simps [simp]:
  "outcome Q E (s, Ok x) \<longleftrightarrow> Q x s"
  "outcome Q E (s, Err e) \<longleftrightarrow> E s"
  "outcome Q E (s, Panic p) \<longleftrightarrow> E s"
  by (simp_all add: outcome_def)

lemma outcome_sbind [simp]:
  "outcome Q E (sbind m f) \<longleftrightarrow> outcome (\<lambda>x s. outcome Q E (f s x)) E m"
proof (cases m)
  case (Pair s r)
  then show ?thesis by (cases r) simp_all
qed

lemma outcome_mono:
  "outcome Q E r \<Longrightarrow> (\<And>x s. Q x s \<Longrightarrow> Q' x s) \<Longrightarrow> outcome Q' E r"
  by (auto simp: outcome_def split: rres.splits)

lemma outcome_ok_or [simp]:
  "outcome Q E (s, ok_or e x) \<longleftrightarrow> (case x of None \<Rightarrow> E s | Some v \<Rightarrow> Q v s)"
  by (simp add: ok_or_def split: option.split)

section \<open>What the state says about the events so far\<close>

definition stands :: "output_state \<Rightarrow> ('w, 'v) runtime \<Rightarrow> bool" where
  "stands q s \<longleftrightarrow> output_run (0, PhIdle) (rt_log s) = Some q"

definition logged :: "('w, 'v) runtime \<Rightarrow> bool" where
  "logged s \<longleftrightarrow> output_ok (rt_log s)"

text \<open>The fields that decide which events may come next.\<close>

definition control ::
  "('w, 'v) runtime \<Rightarrow> 'v lifecycle \<times> u64 \<times> u64 \<times> u64 option \<times> 'v candidate_evidence option" where
  "control s = (rt_lifecycle s, rt_generation s, rt_next_sequence s,
     rt_watchlist_validated_generation s, rt_retry_candidate s)"

lemma stands_logged: "stands q s \<Longrightarrow> logged s"
  by (simp add: stands_def logged_def output_ok_def)

lemma stands_update [simp]:
  "stands q (s\<lparr>rt_world := w\<rparr>) = stands q s" "stands q (s\<lparr>rt_analyzers := az\<rparr>) = stands q s"
  "stands q (s\<lparr>rt_lifecycle := l\<rparr>) = stands q s" "stands q (s\<lparr>rt_generation := g\<rparr>) = stands q s"
  "stands q (s\<lparr>rt_next_request_id := n\<rparr>) = stands q s" "stands q (s\<lparr>rt_next_sequence := n\<rparr>) = stands q s"
  "stands q (s\<lparr>rt_next_snapshot_sequence := n\<rparr>) = stands q s"
  "stands q (s\<lparr>rt_running_poll_cycles := n\<rparr>) = stands q s"
  "stands q (s\<lparr>rt_next_snapshot_watch_index := k\<rparr>) = stands q s"
  "stands q (s\<lparr>rt_consecutive_failures := f\<rparr>) = stands q s"
  "stands q (s\<lparr>rt_completed_cycles := n\<rparr>) = stands q s"
  "stands q (s\<lparr>rt_last_arrival_millis := a\<rparr>) = stands q s"
  "stands q (s\<lparr>rt_last_session_marker := m\<rparr>) = stands q s"
  "stands q (s\<lparr>rt_watchlist_validated_generation := v\<rparr>) = stands q s"
  "stands q (s\<lparr>rt_retry_candidate := c\<rparr>) = stands q s"
  by (simp_all add: stands_def)

lemma control_update [simp]:
  "control (s\<lparr>rt_world := w\<rparr>) = control s" "control (s\<lparr>rt_analyzers := az\<rparr>) = control s"
  "control (s\<lparr>rt_next_request_id := n\<rparr>) = control s"
  "control (s\<lparr>rt_next_snapshot_sequence := n\<rparr>) = control s"
  "control (s\<lparr>rt_running_poll_cycles := n\<rparr>) = control s"
  "control (s\<lparr>rt_next_snapshot_watch_index := k\<rparr>) = control s"
  "control (s\<lparr>rt_consecutive_failures := f\<rparr>) = control s"
  "control (s\<lparr>rt_completed_cycles := n\<rparr>) = control s"
  "control (s\<lparr>rt_last_arrival_millis := a\<rparr>) = control s"
  "control (s\<lparr>rt_last_session_marker := m\<rparr>) = control s"
  "control (s\<lparr>rt_log := es\<rparr>) = control s"
  by (simp_all add: control_def)

lemma control_fields:
  assumes "control s = control s'"
  shows "rt_lifecycle s = rt_lifecycle s'" "rt_generation s = rt_generation s'"
    "rt_next_sequence s = rt_next_sequence s'"
    "rt_watchlist_validated_generation s = rt_watchlist_validated_generation s'"
    "rt_retry_candidate s = rt_retry_candidate s'"
  using assms by (simp_all add: control_def)

text \<open>A call that keeps the control fields and takes the acceptor from \<open>q\<close> to \<open>q'\<close>.\<close>

definition moves ::
  "output_state \<Rightarrow> ('w, 'v) runtime \<Rightarrow> ('w, 'v) runtime \<times> ('a, service_error) rres \<Rightarrow> bool" where
  "moves q' s r \<longleftrightarrow> outcome (\<lambda>_ s'. stands q' s' \<and> control s' = control s) logged r"

lemma movesD:
  assumes "moves q' s r" and "\<And>x s'. stands q' s' \<Longrightarrow> control s' = control s \<Longrightarrow> Q x s'"
  shows "outcome Q logged r"
  using assms(1) unfolding moves_def by (rule outcome_mono) (use assms(2) in blast)

lemma moves_Ok [simp]: "moves q' s (s', Ok x) \<longleftrightarrow> stands q' s' \<and> control s' = control s"
  by (simp add: moves_def)

lemma moves_sbind:
  assumes "moves q s m" and "\<And>x s'. stands q s' \<Longrightarrow> control s' = control s \<Longrightarrow> moves q' s (f s' x)"
  shows "moves q' s (sbind m f)"
  using assms unfolding moves_def outcome_sbind by (auto elim: outcome_mono)

lemma moves_base: "moves q' s0 r \<Longrightarrow> control s0 = control s \<Longrightarrow> moves q' s r"
  by (simp add: moves_def)

lemma outcome_logged: "logged (fst r) \<Longrightarrow> (\<And>x. snd r = Ok x \<Longrightarrow> Q x (fst r)) \<Longrightarrow> outcome Q logged r"
  by (simp add: outcome_def split: rres.split)

lemma moves_world: "stands q s \<Longrightarrow> moves q s (world_call s c)"
  using stands_logged [of q "s\<lparr>rt_world := fst c\<rparr>"]
  by (cases c) (auto simp: moves_def intro: outcome_logged)

lemma moves_emit:
  assumes a: "stands q s" and step: "output_step q ev = Some q'"
  shows "moves q' s (emit env s ev)"
proof -
  have run: "output_run (0, PhIdle) (rt_log s @ [ev]) = Some q'"
    using a step by (simp add: stands_def output_run_append)
  have l: "logged (s\<lparr>rt_world := w\<rparr>)" for w using a stands_logged [of q "s\<lparr>rt_world := w\<rparr>"] by simp
  obtain w r where e: "ev_emit env (rt_world s) ev = (w, r)" by fastforce
  show ?thesis
    using run l by (cases r) (auto simp: e emit_def moves_def stands_def control_def)
qed

section \<open>The operations that keep the control fields\<close>

lemma stays_True [simp]: "stays True q = Some q" "stays False q = None"
  by (simp_all add: stays_def)

lemma session_reset_reason: "session_reset a b = Some r \<Longrightarrow> session_reason r"
  by (auto simp: session_reset_def session_reason_def split: if_splits)

lemma moves_reset_windows:
  assumes "stands (g, p) s" "rt_generation s = g"
    and "if session_reason r then polling p \<and> p' = p else attached p \<and> p' = lost p"
  shows "moves (g, p') s (reset_windows env s r)"
  unfolding reset_windows_def
  by (cases "analyzers_reset (rt_analyzers s)", simp, rule moves_base, rule moves_emit [where q = "(g, p)"])
     (use assms in \<open>auto split: if_splits\<close>)

lemma moves_error [simp]: "stands q s \<Longrightarrow> control s = control s0 \<Longrightarrow> moves q s0 (s, r)"
  by (auto simp: moves_def outcome_def dest: stands_logged split: rres.split)

lemma moves_session_reset:
  fixes s :: "('w, 'v) runtime" and env :: "('w, 'v) runtime_env"
  assumes "stands (g, p) s" "rt_generation s = g" "polling p"
  shows "moves (g, p) s (apply_session_reset env s t)"
  unfolding apply_session_reset_def
proof (rule moves_sbind [where q = "(g, p)"])
  show "moves (g, p) s (s, session_marker_of (ev_shanghai env) t)"
    using assms(1) by simp
next
  fix marker :: session_marker and s' :: "('w, 'v) runtime" assume s': "stands (g, p) s'" "control s' = control s"
  let ?r = "Option.bind (rt_last_session_marker s') (\<lambda>previous. session_reset previous marker)"
  let ?s = "s'\<lparr>rt_last_session_marker := Some marker\<rparr>"
  have g: "rt_generation ?s = g" using control_fields(2) [OF s'(2)] assms(2) by simp
  have "moves (g, p) s (case ?r of None \<Rightarrow> (?s, Ok ()) | Some r \<Rightarrow> reset_windows env ?s r)"
  proof (cases ?r)
    case (Some r)
    then have "session_reason r" by (auto intro: session_reset_reason simp: bind_eq_Some_conv)
    then show ?thesis
      using Some moves_base [OF moves_reset_windows [of g p ?s r p env], of s] s' g assms(3) by simp
  qed (use s' in simp)
  then show "moves (g, p) s (let reason = ?r; s = ?s in
      case reason of None \<Rightarrow> (s, Ok ()) | Some reason \<Rightarrow> reset_windows env s reason)"
    by (simp add: Let_def)
qed

lemma moves_monotonic_reading:
  fixes s :: "('w, 'v) runtime" and env :: "('w, 'v) runtime_env"
  assumes "stands (g, p) s" "rt_generation s = g" "polling p"
  shows "moves (g, p) s (monotonic_reading env s)"
  unfolding monotonic_reading_def
proof (rule moves_sbind [where q = "(g, p)"])
  show "moves (g, p) s (world_call s (ev_now env (rt_world s)))" by (rule moves_world [OF assms(1)])
next
  fix reading :: clock_reading and s1 :: "('w, 'v) runtime" assume s1: "stands (g, p) s1" "control s1 = control s"
  show "moves (g, p) s (sbind (s1, case rt_last_arrival_millis s1 of
            None \<Rightarrow> Ok (cr_arrival_millis reading)
          | Some previous \<Rightarrow>
              map_ok (max (cr_arrival_millis reading)) (ok_or ClockOverflow (checked_add previous 1)))
       (\<lambda>s arrival.
     let reading = reading\<lparr>cr_arrival_millis := arrival\<rparr>;
         s = s\<lparr>rt_last_arrival_millis := Some arrival\<rparr> in
     sbind (apply_session_reset env s (cr_observed_at_utc reading)) (\<lambda>s _. (s, Ok reading))))"
  proof (rule moves_sbind [where q = "(g, p)"])
    fix arrival :: u64 and s2 :: "('w, 'v) runtime" assume s2: "stands (g, p) s2" "control s2 = control s"
    let ?s = "s2\<lparr>rt_last_arrival_millis := Some arrival\<rparr>"
    have s: "stands (g, p) ?s" "control ?s = control s" "rt_generation ?s = g"
      using s2 control_fields(2) [OF s2(2)] assms(2) by simp_all
    show "moves (g, p) s (let reading = reading\<lparr>cr_arrival_millis := arrival\<rparr>; s = ?s in
        sbind (apply_session_reset env s (cr_observed_at_utc reading)) (\<lambda>s _. (s, Ok reading)))"
      unfolding Let_def
      by (rule moves_sbind [OF moves_base [OF moves_session_reset [OF s(1,3) assms(3)] s(2)]]) simp
  qed (use s1 in simp)
qed

lemma moves_take:
  assumes "stands q s"
  shows "moves q s (take_request_id s)" "moves q s (take_snapshot_sequence s)"
  using assms by (auto simp: take_request_id_def take_snapshot_sequence_def split: option.split)

section \<open>The invariant between cycles\<close>

definition in_phase :: "output_phase \<Rightarrow> ('w, 'v) runtime \<Rightarrow> bool" where
  "in_phase p s \<longleftrightarrow>
     (case rt_lifecycle s of
        LifeWaiting \<Rightarrow>
          p = PhCandidate \<and> rt_watchlist_validated_generation s \<noteq> Some (rt_generation s)
          \<or> p = PhIdle \<and> rt_retry_candidate s = None
      | LifeCandidate _ \<Rightarrow>
          p = PhCandidate \<and> rt_watchlist_validated_generation s \<noteq> Some (rt_generation s)
          \<or> p = PhValidated \<and> rt_watchlist_validated_generation s = Some (rt_generation s)
      | LifeRunning _ \<Rightarrow>
          rt_watchlist_validated_generation s = Some (rt_generation s) \<and> rt_retry_candidate s = None
          \<and> (\<exists>n. p = PhRunning n \<and> n < unat (rt_next_sequence s)))"

definition runtime_inv :: "('w, 'v) runtime \<Rightarrow> bool" where
  "runtime_inv s \<longleftrightarrow> 0 < rt_next_sequence s
     \<and> (\<exists>p. stands (rt_generation s, p) s \<and> in_phase p s)"

lemma in_phase_control: "control s' = control s \<Longrightarrow> in_phase p s' = in_phase p s"
  using control_fields [of s' s] by (cases "rt_lifecycle s") (simp_all add: in_phase_def)

lemma in_phase_attached:
  "in_phase p s \<Longrightarrow> rt_lifecycle s \<noteq> LifeWaiting \<Longrightarrow> attached p"
  by (cases "rt_lifecycle s") (auto simp: in_phase_def attached_def)

lemma runtime_inv_logged: "runtime_inv s \<Longrightarrow> logged s"
  by (auto simp: runtime_inv_def dest: stands_logged)

lemma runtime_inv_base:
  "control s' = control s \<Longrightarrow> stands (rt_generation s, p) s' \<Longrightarrow> in_phase p s \<Longrightarrow>
     0 < rt_next_sequence s \<Longrightarrow> runtime_inv s'"
  using control_fields [of s' s] in_phase_control [of s' s p] by (auto simp: runtime_inv_def)

text \<open>A call that keeps the invariant and the lifecycle.\<close>

lemma moves_inv:
  assumes "moves (rt_generation s, p) s r" "in_phase p s" "0 < rt_next_sequence s"
  shows "outcome (\<lambda>_ s'. runtime_inv s' \<and> control s' = control s) logged r"
  by (rule movesD [OF assms(1)]) (use assms(2,3) runtime_inv_base in blast)

section \<open>Going back to waiting\<close>

lemma reset_to_waiting_inv:
  fixes s :: "('w, 'v) runtime" and env :: "('w, 'v) runtime_env"
  assumes inv: "runtime_inv s" and r: "\<not> session_reason reason"
  shows "outcome (\<lambda>_ s'. runtime_inv s' \<and> rt_lifecycle s' = LifeWaiting) logged
     (reset_to_waiting env s reason retry)"
proof -
  obtain p where p: "stands (rt_generation s, p) s" "in_phase p s" using inv by (auto simp: runtime_inv_def)
  let ?retry = "if retry then (case rt_lifecycle s of LifeCandidate c \<Rightarrow> Some c | _ \<Rightarrow> None) else None"
  let ?s = "s\<lparr>rt_retry_candidate := ?retry\<rparr>"
  let ?waiting = "\<lambda>s'. s'\<lparr>rt_lifecycle := LifeWaiting, rt_next_sequence := 1, rt_next_snapshot_sequence := 1,
         rt_running_poll_cycles := 0, rt_last_arrival_millis := None,
         rt_last_session_marker := None, rt_watchlist_validated_generation := None\<rparr>"
  show ?thesis
  proof (cases "rt_lifecycle s = LifeWaiting")
    case True
    then show ?thesis
      using p by (auto simp: reset_to_waiting_def runtime_inv_def in_phase_def intro!: exI [of _ p])
  next
    case False
    have m: "moves (rt_generation s, lost p) ?s (reset_windows env ?s reason)"
      using p(1) r in_phase_attached [OF p(2) False] by (intro moves_reset_windows) auto
    have retry: "lost p = PhIdle \<Longrightarrow> ?retry = None"
      using p(2) False by (auto simp: lost_def in_phase_def split: output_phase.splits lifecycle.splits)
    have lost: "lost p = PhIdle \<or> lost p = PhCandidate" by (simp add: lost_def split: output_phase.split)
    have "outcome (\<lambda>_ s'. runtime_inv (?waiting s')) logged (reset_windows env ?s reason)"
    proof (rule movesD [OF m])
      fix s' :: "('w, 'v) runtime" assume s': "stands (rt_generation s, lost p) s'" "control s' = control ?s"
      show "runtime_inv (?waiting s')"
        using s'(1) control_fields [OF s'(2)] lost retry
        by (auto simp: runtime_inv_def in_phase_def intro!: exI [of _ "lost p"])
    qed
    then show ?thesis
      using False by (cases "rt_lifecycle s") (simp_all add: reset_to_waiting_def)
  qed
qed

end
