(* ===== verification/Analysis_Events.thy ===== *)
theory Analysis_Events
  imports Terminal_Analysis
begin

text \<open>
  What the updates of the analyzers carry: their family and instrument, and the event of a
  transition, which is built on the cursor of the observation.
\<close>

lemma snd_sbind_Ok [res_simps]:
  "snd (sbind m f) = Ok x \<longleftrightarrow> (\<exists>y. snd m = Ok y \<and> snd (f (fst m) y) = Ok x)"
proof (cases m)
  case (Pair s r)
  then show ?thesis by (cases r) auto
qed

lemma price_event_stream: "price_core_event sha e r v tr stream k obs = Ok ev \<Longrightarrow> ae_stream ev = stream"
  by (auto simp: price_core_event_def res_simps anomaly_event_new_eq_Ok split: prod.splits)

lemma delta_event_stream:
  "delta_core_event sha i rule tr stream e k family d obs = Ok ev \<Longrightarrow> ae_stream ev = stream"
  by (auto simp: delta_core_event_def res_simps anomaly_event_new_eq_Ok split: option.splits prod.splits)

lemma volume_event_stream: "volume_core_event sha oc i rule stream k obs = Ok ev \<Longrightarrow> ae_stream ev = stream"
  by (auto simp: volume_core_event_def Let_def res_simps dest: delta_event_stream split: prod.splits)

lemma amount_event_stream: "amount_core_event sha oc i rule stream k obs = Ok ev \<Longrightarrow> ae_stream ev = stream"
  by (auto simp: amount_core_event_def res_simps dest: delta_event_stream split: prod.splits)

text \<open>The updates of one observation: none without a transition, and one with it.\<close>

lemma analyze_price_cases:
  assumes "snd (analyze_price sha az inp i evidence cursor value) = Ok us"
  obtains (no_transition) "us = []"
  | (transition) ob m oc tr event where
      "analysis_observation i evidence (ni_arrival_millis inp) (Some (Price value)) None None None = Ok ob"
      "price_monitor_process (az_price az) (with_stream_cursor ob cursor) = (m, Ok oc)"
      "po_transition oc = Some tr"
      "us = [\<lparr>au_family = FamilyPrice, au_instrument = ni_instrument_label inp,
               au_state = public_state (po_state oc),
               au_transition = analysis_price_transition tr, au_value_unit = ''ratio'',
               au_rule_version = pl_version (az_price_rule az), au_anomaly_event = event\<rparr>]"
      "\<And>e. event = Some e \<Longrightarrow> \<exists>we. price_monitor_window_evidence m i = Some we
         \<and> price_core_event sha we (pl_inner (az_price_rule az)) (pl_version (az_price_rule az))
             tr cursor anomaly_continuity (ni_observed_at_utc inp) = Ok e"
proof -
  from assms obtain ob where ob: "price_new value = Ok (Price value)"
      "analysis_observation i evidence (ni_arrival_millis inp) (Some (Price value)) None None None = Ok ob"
    by (auto simp: analyze_price_def res_simps)
  obtain m r where m: "price_monitor_process (az_price az) (with_stream_cursor ob cursor) = (m, r)" by fastforce
  from assms ob m obtain oc where oc: "r = Ok oc"
    by (auto simp: analyze_price_def res_simps)
  show ?thesis
  proof (cases "po_transition oc")
    case None
    then show ?thesis using assms ob m oc no_transition by (simp add: analyze_price_def Let_def)
  next
    case (Some tr)
    let ?u = "\<lambda>event. \<lparr>au_family = FamilyPrice, au_instrument = ni_instrument_label inp,
      au_state = public_state (po_state oc), au_transition = analysis_price_transition tr, au_value_unit = ''ratio'',
      au_rule_version = pl_version (az_price_rule az), au_anomaly_event = event\<rparr>"
    show ?thesis
    proof (cases "price_transition_has_event tr")
      case False
      then have "us = [?u None]" using assms ob m oc Some by (simp add: analyze_price_def Let_def)
      then show ?thesis by (rule transition [OF ob(2) m [unfolded oc] Some]) simp
    next
      case True
      then obtain we e where "us = [?u (Some e)]" and e: "price_monitor_window_evidence m i = Some we"
          "price_core_event sha we (pl_inner (az_price_rule az)) (pl_version (az_price_rule az))
             tr cursor anomaly_continuity (ni_observed_at_utc inp) = Ok e"
        using assms ob m oc Some by (auto simp: analyze_price_def Let_def res_simps)
      then show ?thesis by (intro transition [OF ob(2) m [unfolded oc] Some]) auto
    qed
  qed
qed

lemma analyze_volume_cases:
  assumes "snd (analyze_volume sha az inp i evidence cursor value) = Ok us"
  obtains (no_transition) "us = []"
  | (transition) ob m oc tr event where
      "analysis_observation i evidence (ni_arrival_millis inp) None None (Some (Quantity value)) (Some Lot) = Ok ob"
      "volume_monitor_process (az_volume az) (with_stream_cursor ob cursor) = (m, Ok oc)"
      "vo_transition oc = Some tr"
      "us = [\<lparr>au_family = FamilyVolume, au_instrument = ni_instrument_label inp,
               au_state = public_state (vo_state oc),
               au_transition = analysis_volume_transition tr, au_value_unit = ''lot'',
               au_rule_version = az_volume_rule_version az, au_anomaly_event = event\<rparr>]"
      "\<And>e. event = Some e \<Longrightarrow>
         volume_core_event sha oc i (vl_inner (az_volume_rule az)) cursor anomaly_continuity
           (ni_observed_at_utc inp) = Ok e"
proof -
  from assms obtain ob where ob: "quantity_new value = Ok (Quantity value)"
      "analysis_observation i evidence (ni_arrival_millis inp) None None (Some (Quantity value)) (Some Lot) = Ok ob"
    by (auto simp: analyze_volume_def res_simps)
  obtain m r where m: "volume_monitor_process (az_volume az) (with_stream_cursor ob cursor) = (m, r)" by fastforce
  from assms ob m obtain oc where oc: "r = Ok oc"
    by (auto simp: analyze_volume_def res_simps)
  show ?thesis
  proof (cases "vo_transition oc")
    case None
    then show ?thesis using assms ob m oc no_transition by (simp add: analyze_volume_def Let_def)
  next
    case (Some tr)
    let ?u = "\<lambda>event. \<lparr>au_family = FamilyVolume, au_instrument = ni_instrument_label inp,
      au_state = public_state (vo_state oc), au_transition = analysis_volume_transition tr, au_value_unit = ''lot'',
      au_rule_version = az_volume_rule_version az, au_anomaly_event = event\<rparr>"
    show ?thesis
    proof (cases "volume_transition_has_event tr")
      case False
      then have "us = [?u None]" using assms ob m oc Some by (simp add: analyze_volume_def Let_def)
      then show ?thesis by (rule transition [OF ob(2) m [unfolded oc] Some]) simp
    next
      case True
      then obtain e where "us = [?u (Some e)]" and e: "volume_core_event sha oc i (vl_inner (az_volume_rule az)) cursor anomaly_continuity
             (ni_observed_at_utc inp) = Ok e"
        using assms ob m oc Some by (auto simp: analyze_volume_def Let_def res_simps)
      then show ?thesis by (intro transition [OF ob(2) m [unfolded oc] Some]) auto
    qed
  qed
qed

lemma analyze_amount_cases:
  assumes "snd (analyze_amount sha az inp) = Ok us"
  obtains (no_transition) "us = []"
  | (transition) i evidence ob cursor m oc tr event where
      "analysis_instrument (mi_exchange inp) (mi_code inp) = Ok i"
      "analysis_cursor (mi_generation inp) (mi_sequence inp) 1 = Ok cursor"
      "analysis_observation i evidence (mi_arrival_millis inp) None (Some (Money (mi_cumulative_amount_cny inp))) None None = Ok ob"
      "amount_monitor_process (az_amount az) (with_stream_cursor ob cursor) = (m, Ok oc)"
      "ao_transition oc = Some tr"
      "us = [\<lparr>au_family = FamilyAmount, au_instrument = mi_instrument_label inp,
               au_state = public_state (ao_state oc),
               au_transition = analysis_amount_transition tr, au_value_unit = ''cny'',
               au_rule_version = al_version (az_amount_rule az), au_anomaly_event = event\<rparr>]"
      "\<And>e. event = Some e \<Longrightarrow>
         amount_core_event sha oc i (al_inner (az_amount_rule az)) cursor anomaly_continuity
           (mi_observed_at_utc inp) = Ok e"
proof -
  from assms obtain i evidence ob cursor where
      i: "analysis_instrument (mi_exchange inp) (mi_code inp) = Ok i"
    and ev: "analysis_evidence (mi_observed_at_utc inp) (''tdx-loopback-snapshot-''
        @ dec (unat (mi_generation inp)) @ ''-'' @ dec (unat (mi_sequence inp))) = Ok evidence"
    and am: "money_new (mi_cumulative_amount_cny inp) = Ok (Money (mi_cumulative_amount_cny inp))"
    and c: "analysis_cursor (mi_generation inp) (mi_sequence inp) 1 = Ok cursor"
    and ob: "analysis_observation i evidence (mi_arrival_millis inp) None
        (Some (Money (mi_cumulative_amount_cny inp))) None None = Ok ob"
    by (auto simp: analyze_amount_def res_simps)
  obtain m r where m: "amount_monitor_process (az_amount az) (with_stream_cursor ob cursor) = (m, r)" by fastforce
  from assms i ev am c ob m obtain oc where oc: "r = Ok oc"
    by (auto simp: analyze_amount_def res_simps)
  show ?thesis
  proof (cases "ao_transition oc")
    case None
    then show ?thesis using assms i ev am c ob m oc no_transition by (simp add: analyze_amount_def Let_def)
  next
    case (Some tr)
    let ?u = "\<lambda>event. \<lparr>au_family = FamilyAmount, au_instrument = mi_instrument_label inp,
      au_state = public_state (ao_state oc), au_transition = analysis_amount_transition tr, au_value_unit = ''cny'',
      au_rule_version = al_version (az_amount_rule az), au_anomaly_event = event\<rparr>"
    show ?thesis
    proof (cases "amount_transition_has_event tr")
      case False
      then have "us = [?u None]" using assms i ev am c ob m oc Some by (simp add: analyze_amount_def Let_def)
      then show ?thesis by (rule transition [OF i c ob m [unfolded oc] Some]) simp
    next
      case True
      then obtain e where "us = [?u (Some e)]" and e: "amount_core_event sha oc i (al_inner (az_amount_rule az)) cursor anomaly_continuity
             (mi_observed_at_utc inp) = Ok e"
        using assms i ev am c ob m oc Some by (auto simp: analyze_amount_def Let_def res_simps)
      then show ?thesis by (intro transition [OF i c ob m [unfolded oc] Some]) auto
    qed
  qed
qed

lemma analyze_price_updates:
  assumes "snd (analyze_price sha az inp i evidence cursor value) = Ok us" "u \<in> set us"
  shows "au_family u = FamilyPrice" "au_instrument u = ni_instrument_label inp"
    "au_anomaly_event u = Some e \<Longrightarrow> ae_stream e = cursor"
  using assms(2) by (cases rule: analyze_price_cases [OF assms(1)]; auto dest: price_event_stream)+

lemma analyze_volume_updates:
  assumes "snd (analyze_volume sha az inp i evidence cursor value) = Ok us" "u \<in> set us"
  shows "au_family u = FamilyVolume" "au_instrument u = ni_instrument_label inp"
    "au_anomaly_event u = Some e \<Longrightarrow> ae_stream e = cursor"
  using assms(2) by (cases rule: analyze_volume_cases [OF assms(1)]; auto dest: volume_event_stream)+

lemma analyze_amount_updates:
  assumes "snd (analyze_amount sha az inp) = Ok us" "u \<in> set us"
  shows "au_family u = FamilyAmount" "au_instrument u = mi_instrument_label inp"
    "au_anomaly_event u = Some e \<Longrightarrow> analysis_cursor (mi_generation inp) (mi_sequence inp) 1 = Ok (ae_stream e)"
  using assms(2) by (cases rule: analyze_amount_cases [OF assms(1)]; auto dest: amount_event_stream)+

lemma analyze_updates:
  assumes "snd (analyze sha az inp) = Ok us" "u \<in> set us"
  shows "au_family u \<noteq> FamilyAmount" "au_instrument u = ni_instrument_label inp"
    "au_anomaly_event u = Some e \<Longrightarrow> analysis_cursor (ni_generation inp) (ni_sequence inp) 0 = Ok (ae_stream e)"
proof -
  from assms(1) obtain i evidence cursor az1 az2 ps vs where c: "analysis_cursor (ni_generation inp) (ni_sequence inp) 0 = Ok cursor"
    and ps: "snd (case ni_price inp of None \<Rightarrow> (az1, Ok [])
       | Some value \<Rightarrow> analyze_price sha az1 inp i evidence cursor value) = Ok ps"
    and vs: "snd (case ni_cumulative_volume_lots inp of None \<Rightarrow> (az2, Ok [])
       | Some value \<Rightarrow> analyze_volume sha az2 inp i evidence cursor value) = Ok vs"
    and us: "us = ps @ vs"
    by (auto simp: analyze_def res_simps)
  have p: "\<exists>value. snd (analyze_price sha az1 inp i evidence cursor value) = Ok ps" if "u \<in> set ps"
    using ps that by (auto split: option.splits)
  have v: "\<exists>value. snd (analyze_volume sha az2 inp i evidence cursor value) = Ok vs" if "u \<in> set vs"
    using vs that by (auto split: option.splits)
  show "au_family u \<noteq> FamilyAmount" "au_instrument u = ni_instrument_label inp"
    using assms(2) us p v analyze_price_updates(1,2) analyze_volume_updates(1,2) by fastforce+
  assume e: "au_anomaly_event u = Some e"
  have "ae_stream e = cursor"
    using assms(2) us p v analyze_price_updates(3) [OF _ _ e] analyze_volume_updates(3) [OF _ _ e] by fastforce
  with c show "analysis_cursor (ni_generation inp) (ni_sequence inp) 0 = Ok (ae_stream e)" by simp
qed

end
