(* ===== verification/Monitor_Output_Refinement.thy ===== *)
theory Monitor_Output_Refinement
  imports Monitor_Output_Protocol Analysis_Events
begin

text \<open>
  The runtime's cycles through the acceptor of its output: the invariant between cycles, the
  invariant of the loop over a batch of observations, and the properties of the service's output.
\<close>

section \<open>Steps that keep the invariant\<close>

lemma emit_inv:
  assumes "runtime_inv s"
    and "\<And>p. in_phase p s \<Longrightarrow> output_step (rt_generation s, p) ev = Some (rt_generation s, p)"
  shows "outcome (\<lambda>_ s'. runtime_inv s' \<and> control s' = control s) logged (emit env s ev)"
proof -
  obtain p where "stands (rt_generation s, p) s" "in_phase p s" "0 < rt_next_sequence s"
    using assms(1) by (auto simp: runtime_inv_def)
  then show ?thesis using moves_inv [OF moves_emit] assms(2) by blast
qed

lemma emit_last:
  assumes "runtime_inv s" "\<And>p. in_phase p s \<Longrightarrow> output_step (rt_generation s, p) ev \<noteq> None"
  shows "outcome (\<lambda>_. logged) logged (emit env s ev)"
proof -
  obtain p where p: "stands (rt_generation s, p) s" "in_phase p s"
    using assms(1) by (auto simp: runtime_inv_def)
  obtain q where "output_step (rt_generation s, p) ev = Some q"
    using assms(2) [OF p(2)] by (meson option.exhaust)
  then show ?thesis by (rule movesD [OF moves_emit [OF p(1)]]) (rule stands_logged)
qed

lemma runtime_inv_update [simp]:
  "runtime_inv (s\<lparr>rt_world := w\<rparr>) = runtime_inv s"
  "runtime_inv (s\<lparr>rt_analyzers := az\<rparr>) = runtime_inv s"
  "runtime_inv (s\<lparr>rt_next_request_id := n\<rparr>) = runtime_inv s"
  "runtime_inv (s\<lparr>rt_running_poll_cycles := n\<rparr>) = runtime_inv s"
  "runtime_inv (s\<lparr>rt_consecutive_failures := f\<rparr>) = runtime_inv s"
  "runtime_inv (s\<lparr>rt_completed_cycles := n\<rparr>) = runtime_inv s"
  by (simp_all add: runtime_inv_def in_phase_def cong: lifecycle.case_cong)

definition after_cycle :: "step_action \<Rightarrow> ('w, 'v) runtime \<Rightarrow> bool" where
  "after_cycle a s \<longleftrightarrow> (if a = StepStop then logged s else runtime_inv s)"

lemma waiting_phase:
  "in_phase p s \<Longrightarrow> rt_lifecycle s = LifeWaiting \<Longrightarrow> p = PhIdle \<or> p = PhCandidate"
  by (auto simp: in_phase_def)

lemma fail_to_waiting_inv:
  fixes s :: "('w, 'v) runtime" and env :: "('w, 'v) runtime_env"
  assumes inv: "runtime_inv s" and r: "\<not> session_reason reason"
  shows "outcome after_cycle logged (fail_to_waiting env s reason message retry)"
  unfolding fail_to_waiting_def outcome_sbind
proof (rule outcome_mono [OF reset_to_waiting_inv [OF inv r]])
  fix u :: unit and s1 :: "('w, 'v) runtime"
  assume s1: "runtime_inv s1 \<and> rt_lifecycle s1 = LifeWaiting"
  have "outcome (\<lambda>_ s'. runtime_inv s' \<and> control s' = control s1) logged (emit env s1 (EvWaiting message False))"
    using s1 waiting_phase [of _ s1] by (intro emit_inv) auto
  then show "outcome (\<lambda>x s. outcome after_cycle logged
      (let s = s\<lparr>rt_consecutive_failures := saturating_add (rt_consecutive_failures s) 1\<rparr> in
       if rt_restart_budget s \<noteq> - 1 \<and> rt_restart_budget s < rt_consecutive_failures s
       then sbind (emit env s (EvRestartBudgetExhausted (rt_consecutive_failures s) (rt_restart_budget s)))
              (\<lambda>s _. (s, Ok StepStop))
       else (s, Ok StepRediscover))) logged (emit env s1 (EvWaiting message False))"
  proof (rule outcome_mono)
    fix s2 :: "('w, 'v) runtime" assume s2: "runtime_inv s2 \<and> control s2 = control s1"
    let ?s = "s2\<lparr>rt_consecutive_failures := saturating_add (rt_consecutive_failures s2) 1\<rparr>"
    have i: "runtime_inv ?s" "rt_lifecycle ?s = LifeWaiting"
      using s1 s2 control_fields(1) [of s2 s1] by simp_all
    have "outcome (\<lambda>_. logged) logged (emit env ?s (EvRestartBudgetExhausted n b))" for n b
      using i(1) waiting_phase [OF _ i(2)] by (intro emit_last) auto
    with i(1) show "outcome after_cycle logged
      (let s = s2\<lparr>rt_consecutive_failures := saturating_add (rt_consecutive_failures s2) 1\<rparr> in
       if rt_restart_budget s \<noteq> - 1 \<and> rt_restart_budget s < rt_consecutive_failures s
       then sbind (emit env s (EvRestartBudgetExhausted (rt_consecutive_failures s) (rt_restart_budget s)))
              (\<lambda>s _. (s, Ok StepStop))
       else (s, Ok StepRediscover))"
      by (simp add: Let_def after_cycle_def)
  qed
qed

section \<open>A batch of observations\<close>

definition report_pending :: "bool \<Rightarrow> nat \<Rightarrow> ('w, 'v) runtime \<Rightarrow> bool" where
  "report_pending report b s \<longleftrightarrow>
     rt_watchlist_validated_generation s = Some (rt_generation s)
     \<and> (if report then stands (rt_generation s, PhValidated) s \<and> (\<exists>c. rt_lifecycle s = LifeCandidate c)
        else rt_retry_candidate s = None \<and> (\<exists>c. rt_lifecycle s = LifeRunning c)
          \<and> (\<exists>n. stands (rt_generation s, PhRunning n) s \<and> n < b))"

lemma report_pending_phase:
  assumes "report_pending report b s"
  obtains p where "stands (rt_generation s, p) s" "polling p"
    "report \<Longrightarrow> p = PhValidated" "\<not> report \<Longrightarrow> \<exists>n. p = PhRunning n \<and> n < b"
  using assms by (auto simp: report_pending_def polling_def split: if_splits)

lemma report_pending_logged: "report_pending report b s \<Longrightarrow> logged s"
  by (elim report_pending_phase stands_logged)

lemma report_pending_mono: "report_pending report b s \<Longrightarrow> b \<le> b' \<Longrightarrow> report_pending report b' s"
  by (auto simp: report_pending_def) (use less_le_trans in blast)

lemma report_pending_moves:
  assumes "report_pending report b s" "stands (rt_generation s, p) s" "moves (rt_generation s, p) s r"
  shows "outcome (\<lambda>_ s'. report_pending report b s' \<and> rt_next_sequence s' = rt_next_sequence s
     \<and> rt_generation s' = rt_generation s \<and> rt_lifecycle s' = rt_lifecycle s) logged r"
proof (rule movesD [OF assms(3)])
  fix x s' assume s': "stands (rt_generation s, p) s'" "control s' = control s"
  note f = control_fields [OF s'(2)]
  have "stands (rt_generation s, p') s \<Longrightarrow> p' = p" for p'
    using assms(2) by (simp add: stands_def)
  then show "report_pending report b s' \<and> rt_next_sequence s' = rt_next_sequence s
     \<and> rt_generation s' = rt_generation s \<and> rt_lifecycle s' = rt_lifecycle s"
    using assms(1) s'(1) f by (auto simp: report_pending_def split: if_splits)
qed

lemma unavailable_moves:
  assumes "stands (rt_generation s, p) s" "polling p" "family \<noteq> FamilyAmount"
  shows "moves (rt_generation s, p) s (unavailable env s watched family reason)"
  unfolding unavailable_def using assms by (intro moves_emit) auto

lemma reject_observation_pending:
  fixes s :: "('w, 'v) runtime" and env :: "('w, 'v) runtime_env"
  assumes "report_pending report b s"
  shows "outcome (\<lambda>_ s'. report_pending report b s' \<and> rt_next_sequence s' = rt_next_sequence s
     \<and> rt_generation s' = rt_generation s \<and> rt_lifecycle s' = rt_lifecycle s) logged
     (reject_observation env s watched text)"
proof -
  obtain p where p: "stands (rt_generation s, p) s" "polling p" using assms by (elim report_pending_phase)
  have "moves (rt_generation s, p) s (reject_observation env s watched text)"
    unfolding reject_observation_def
  proof (rule moves_sbind [OF unavailable_moves [OF p]])
    fix s' :: "('w, 'v) runtime" assume s': "stands (rt_generation s, p) s'" "control s' = control s"
    note g = control_fields(2) [OF s'(2)]
    show "moves (rt_generation s, p) s (unavailable env s' watched FamilyVolume
        (''invalid loopback observation: '' @ text))"
      using unavailable_moves [of s' p FamilyVolume env watched] p(2) s' g by (auto intro: moves_base)
  qed simp
  then show ?thesis by (rule report_pending_moves [OF assms p(1)])
qed

lemma report_health_running:
  fixes s :: "('w, 'v) runtime" and env :: "('w, 'v) runtime_env"
  assumes "report_pending True b s"
  shows "outcome (\<lambda>_ s'. report_pending False 1 s' \<and> rt_next_sequence s' = rt_next_sequence s
     \<and> rt_generation s' = rt_generation s) logged (report_health env s candidate watched observation)"
  unfolding report_health_def outcome_sbind
proof (rule movesD)
  have p: "stands (rt_generation s, PhValidated) s" using assms by (simp add: report_pending_def)
  show "moves (rt_generation s, PhValidated) s (emit env s (EvLoopbackHealth (rt_generation s) (wi_label watched) True
     (so_protocol_version observation) (so_schema_version observation)))"
    using p by (intro moves_emit) auto
next
  fix s1 :: "('w, 'v) runtime"
  assume s1: "stands (rt_generation s, PhValidated) s1" "control s1 = control s"
  note f = control_fields [OF s1(2)]
  have life: "\<not> is_running (rt_lifecycle s1)"
    using assms f by (auto simp: report_pending_def is_running_def)
  let ?s = "s1\<lparr>rt_lifecycle := LifeRunning candidate, rt_retry_candidate := None\<rparr>"
  have "moves (rt_generation s, PhRunning 0) ?s (emit env ?s (EvRunning (rt_generation ?s)))"
    using s1 f by (intro moves_emit [where q = "(rt_generation s, PhValidated)"]) auto
  then have "outcome (\<lambda>_ s'. report_pending False 1 s' \<and> rt_next_sequence s' = rt_next_sequence s
     \<and> rt_generation s' = rt_generation s) logged (emit env ?s (EvRunning (rt_generation ?s)))"
  proof (rule movesD)
    fix s' :: "('w, 'v) runtime"
    assume s': "stands (rt_generation s, PhRunning 0) s'" "control s' = control ?s"
    then show "report_pending False 1 s' \<and> rt_next_sequence s' = rt_next_sequence s
        \<and> rt_generation s' = rt_generation s"
      using assms f control_fields [OF s'(2)] by (auto simp: report_pending_def)
  qed
  with life show "outcome (\<lambda>_ s'. report_pending False 1 s' \<and> rt_next_sequence s' = rt_next_sequence s
     \<and> rt_generation s' = rt_generation s) logged
     (if \<not> is_running (rt_lifecycle s1) then emit env ?s (EvRunning (rt_generation s1)) else (s1, Ok ()))"
    by simp
qed

lemma validate_observation_Ok:
  assumes "validate_row_observation ob watched sequence t = Ok v"
  shows "so_bridge_sequence ob = sequence" "0 < sequence" "so_observed_at_utc ob = t"
    "so_instrument ob = source_instrument_of (wi_source watched)"
proof -
  have "source_observation_validate ob = (Ok () :: (unit, unit protocol_error) rres)"
    and eqs: "so_bridge_sequence ob = sequence" "so_observed_at_utc ob = t"
      "so_instrument ob = source_instrument_of (wi_source watched)"
    using assms by (auto simp: validate_row_observation_def res_simps split: if_splits)
  then have "validate_bridge_sequence (so_bridge_sequence ob) = (Ok () :: (unit, unit protocol_error) rres)"
    by (auto simp: source_observation_validate_def res_simps)
  then have "so_bridge_sequence ob \<noteq> 0" by (auto simp: validate_bridge_sequence_def split: if_splits)
  with eqs show "0 < sequence" by (simp add: word_neq_0_conv)
qed (use assms in \<open>auto simp: validate_row_observation_def res_simps split: if_splits\<close>)

lemma emit_updates_moves:
  fixes s :: "('w, 'v) runtime" and env :: "('w, 'v) runtime_env"
  assumes "stands (g, PhRunning n) s" "rt_generation s = g"
    and "\<And>u. u \<in> set us \<Longrightarrow> au_family u \<noteq> FamilyAmount"
    and "\<And>u e. u \<in> set us \<Longrightarrow> au_anomaly_event u = Some e \<Longrightarrow> analysis_cursor g (of_nat n) 0 = Ok (ae_stream e)"
  shows "moves (g, PhRunning n) s (emit_updates env s t us)"
  using assms
proof (induction us arbitrary: s)
  case (Cons u us)
  have "moves (g, PhRunning n) s (emit env s (EvAnalysis (rt_generation s) (update_admitted u)
      (au_instrument u) t LocalObservationTime u))"
  proof (rule moves_emit)
    have "case au_anomaly_event u of None \<Rightarrow> True | Some e \<Rightarrow> analysis_cursor g (of_nat n) 0 = Ok (ae_stream e)"
      using Cons.prems(4) by (auto split: option.split)
    then show "output_step (g, PhRunning n) (EvAnalysis (rt_generation s) (update_admitted u)
        (au_instrument u) t LocalObservationTime u) = Some (g, PhRunning n)"
      using Cons.prems(2,3) by simp
  qed (use Cons.prems in simp)
  then show ?case
    unfolding emit_updates.simps
  proof (rule moves_sbind)
    fix s' :: "('w, 'v) runtime" assume s': "stands (g, PhRunning n) s'" "control s' = control s"
    have "moves (g, PhRunning n) s' (emit_updates env s' t us)"
      using Cons.prems s' control_fields(2) [OF s'(2)] by (intro Cons.IH) auto
    then show "moves (g, PhRunning n) s (emit_updates env s' t us)" using s'(2) by (rule moves_base)
  qed
qed simp

lemma analyse_observation_moves:
  fixes s :: "('w, 'v) runtime" and env :: "('w, 'v) runtime_env"
  assumes s: "stands (g, PhRunning (unat sequence)) s" "rt_generation s = g"
  shows "moves (g, PhRunning (unat sequence)) s
     (sbind (run_analysis s (analyze (ev_sha env) (rt_analyzers s) (observation_input s watched reading sequence v)))
        (\<lambda>s updates. sbind (emit_updates env s t updates) (\<lambda>s _. (s, Ok sample))))"
proof -
  let ?inp = "observation_input s watched reading sequence v"
  let ?r = "analyze (ev_sha env) (rt_analyzers s) ?inp"
  let ?s = "s\<lparr>rt_analyzers := fst ?r\<rparr>"
  show ?thesis
  proof (cases "snd ?r")
    case (Ok us)
    have c: "ni_generation ?inp = g" "ni_sequence ?inp = sequence"
      using s(2) by (simp_all add: observation_input_def)
    have "moves (g, PhRunning (unat sequence)) ?s (emit_updates env ?s t us)"
      using s analyze_updates [OF Ok] by (intro emit_updates_moves) (auto simp: c)
    then have "moves (g, PhRunning (unat sequence)) s (emit_updates env ?s t us)"
      by (rule moves_base) simp
    with Ok show ?thesis by (auto simp: run_analysis_def intro: moves_sbind)
  qed (use s in \<open>simp_all add: run_analysis_def\<close>)
qed

lemma accept_observation_pending:
  fixes s :: "('w, 'v) runtime" and env :: "('w, 'v) runtime_env"
  assumes rp: "report_pending report b s" and b: "b \<le> unat sequence"
    and v: "validate_row_observation ob watched sequence t = Ok v"
  shows "outcome (\<lambda>_ s'. report_pending False (unat sequence + 1) s' \<and> rt_next_sequence s' = rt_next_sequence s
     \<and> rt_generation s' = rt_generation s) logged
     (accept_observation env report candidate reading s sequence watched ob v)"
proof -
  let ?K = "\<lambda>r b s'. report_pending r b s' \<and> rt_next_sequence s' = rt_next_sequence s
     \<and> rt_generation s' = rt_generation s"
  have unavail: "outcome (\<lambda>_ s'. ?K report b s') logged
      (if c then unavailable env s1 watched family reason else (s1, Ok ()))"
    if k: "?K report b s1" and "family \<noteq> FamilyAmount" for s1 :: "('w, 'v) runtime" and c family reason
  proof -
    have "report_pending report b s1" using k by simp
    then obtain p where p: "stands (rt_generation s1, p) s1" "polling p" by (rule report_pending_phase)
    have "outcome (\<lambda>_ s'. ?K report b s') logged (unavailable env s1 watched family reason)"
      by (rule outcome_mono [OF report_pending_moves [OF _ p(1) unavailable_moves [OF p that(2)]]])
         (use k in auto)
    then show ?thesis using k by simp
  qed
  have health: "outcome (\<lambda>_ s'. ?K False (unat sequence) s') logged
      (if report then report_health env s1 candidate watched ob else (s1, Ok ()))"
    if k: "?K report b s1" for s1 :: "('w, 'v) runtime"
  proof (cases report)
    case True
    have one: "1 \<le> unat sequence" using validate_observation_Ok(2) [OF v] by (simp add: word_less_nat_alt)
    have "report_pending True b s1" using k True by simp
    then have "outcome (\<lambda>_ s'. ?K False (unat sequence) s') logged (report_health env s1 candidate watched ob)"
      by (rule outcome_mono [OF report_health_running]) (use k report_pending_mono [OF _ one] in auto)
    then show ?thesis using True by simp
  qed (use k report_pending_mono [OF _ b] in auto)
  have final: "outcome (\<lambda>_ s'. ?K False (unat sequence + 1) s') logged
      (sbind (emit env s1 (observation_event s1 watched ob v)) (\<lambda>s _.
       sbind (run_analysis s (analyze (ev_sha env) (rt_analyzers s) (observation_input s watched reading sequence v)))
        (\<lambda>s updates. sbind (emit_updates env s (cr_observed_at_utc reading) updates) (\<lambda>s _. (s, Ok sample)))))"
    if k: "?K False (unat sequence) s1" for s1 :: "('w, 'v) runtime" and sample
  proof (rule movesD)
    let ?q = "(rt_generation s, PhRunning (unat sequence))"
    obtain n where n: "stands (rt_generation s, PhRunning n) s1" "n < unat sequence"
      using k by (auto simp: report_pending_def)
    have "moves ?q s1 (emit env s1 (observation_event s1 watched ob v))"
      using n k validate_observation_Ok(1) [OF v]
      by (intro moves_emit [OF n(1)]) (simp add: observation_event_def)
    then show "moves ?q s1 (sbind (emit env s1 (observation_event s1 watched ob v)) (\<lambda>s _.
       sbind (run_analysis s (analyze (ev_sha env) (rt_analyzers s) (observation_input s watched reading sequence v)))
        (\<lambda>s updates. sbind (emit_updates env s (cr_observed_at_utc reading) updates) (\<lambda>s _. (s, Ok sample)))))"
    proof (rule moves_sbind)
      fix s2 :: "('w, 'v) runtime" assume s2: "stands ?q s2" "control s2 = control s1"
      show "moves ?q s1 (sbind (run_analysis s2 (analyze (ev_sha env) (rt_analyzers s2)
            (observation_input s2 watched reading sequence v)))
        (\<lambda>s updates. sbind (emit_updates env s (cr_observed_at_utc reading) updates) (\<lambda>s _. (s, Ok sample))))"
        using s2 k control_fields(2) [OF s2(2)] by (intro moves_base [OF analyse_observation_moves]) auto
    qed
  next
    fix s2 :: "('w, 'v) runtime"
    assume "stands (rt_generation s, PhRunning (unat sequence)) s2" and c: "control s2 = control s1"
    then show "?K False (unat sequence + 1) s2"
      using k control_fields [OF c] by (auto simp: report_pending_def)
  qed
  show ?thesis
    unfolding accept_observation_def
  proof (subst outcome_sbind, rule outcome_mono [OF unavail])
    show "?K report b s" using rp by simp
    fix s1 :: "('w, 'v) runtime" assume "?K report b s1"
    then show "outcome (\<lambda>_ s'. ?K False (unat sequence + 1) s') logged
      (sbind (if ov_volume v = None
            then unavailable env s1 watched FamilyVolume ''Volume is missing or not representable''
            else (s1, Ok ())) (\<lambda>s _.
     sbind (if report then report_health env s candidate watched ob else (s, Ok ())) (\<lambda>s _.
     sbind (emit env s (observation_event s watched ob v)) (\<lambda>s _.
     sbind (run_analysis s (analyze (ev_sha env) (rt_analyzers s)
              (observation_input s watched reading sequence v))) (\<lambda>s updates.
     sbind (emit_updates env s (cr_observed_at_utc reading) updates) (\<lambda>s _.
     (s, Ok \<lparr>fs_watched = watched, fs_price = unwrap_or_default (ov_price_text v),
             fs_volume = unwrap_or_default (ov_volume_text v)\<rparr>)))))))"
    proof (subst outcome_sbind, intro outcome_mono [OF unavail])
      fix s2 :: "('w, 'v) runtime" assume "?K report b s2"
      then show "outcome (\<lambda>_ s'. ?K False (unat sequence + 1) s') logged
     (sbind (if report then report_health env s2 candidate watched ob else (s2, Ok ())) (\<lambda>s _.
     sbind (emit env s (observation_event s watched ob v)) (\<lambda>s _.
     sbind (run_analysis s (analyze (ev_sha env) (rt_analyzers s)
              (observation_input s watched reading sequence v))) (\<lambda>s updates.
     sbind (emit_updates env s (cr_observed_at_utc reading) updates) (\<lambda>s _.
     (s, Ok \<lparr>fs_watched = watched, fs_price = unwrap_or_default (ov_price_text v),
             fs_volume = unwrap_or_default (ov_volume_text v)\<rparr>))))))"
        by (subst outcome_sbind) (rule outcome_mono [OF health], assumption, rule final)
    qed simp_all
  qed simp
qed

lemma report_pending_inv:
  assumes "report_pending r b s" "b \<le> unat (rt_next_sequence s)" "0 < rt_next_sequence s"
  shows "runtime_inv s"
  using assms by (cases r) (auto simp: report_pending_def runtime_inv_def in_phase_def)

text \<open>What the loop over a batch leaves, started in \<open>s\<close>.\<close>

definition batch_done :: "('w, 'v) runtime \<Rightarrow> fast_sample list \<Rightarrow> ('w, 'v) runtime \<Rightarrow> bool" where
  "batch_done s samples s' \<longleftrightarrow>
     (\<exists>r. report_pending r (unat (rt_next_sequence s)) s' \<and> (samples \<noteq> [] \<longrightarrow> \<not> r))
     \<and> rt_next_sequence s' = rt_next_sequence s \<and> rt_generation s' = rt_generation s"

lemma batch_done_base:
  "rt_next_sequence s1 = rt_next_sequence s \<Longrightarrow> rt_generation s1 = rt_generation s \<Longrightarrow> batch_done s1 = batch_done s"
  by (simp add: batch_done_def fun_eq_iff)

lemma poll_items_pending:
  fixes s :: "('w, 'v) runtime" and env :: "('w, 'v) runtime_env"
  assumes "report_pending (first \<and> pending) (unat fs + index) s"
    and "samples \<noteq> [] \<longrightarrow> \<not> (first \<and> pending)"
    and "unat fs + index + length items \<le> unat (rt_next_sequence s)"
  shows "outcome (batch_done s) logged
     (poll_items env pending candidate reading fs index items first samples s)"
  using assms
proof (induction items arbitrary: index first samples s)
  case Nil
  then have "report_pending (first \<and> pending) (unat (rt_next_sequence s)) s"
    by (intro report_pending_mono [OF Nil(1)]) simp
  with Nil show ?case by (auto simp: batch_done_def)
next
  case (Cons item items)
  obtain watched ob where item: "item = (watched, ob)" by (cases item)
  have small: "unat fs + index < 2 ^ 64"
  proof -
    have "unat (rt_next_sequence s) < 2 ^ LENGTH(64)" by (rule unsigned_less)
    with Cons.prems(3) show ?thesis by simp
  qed
  define sequence where "sequence = fs + of_nat index"
  have add: "checked_add fs (of_nat index) = Some sequence" and un: "unat sequence = unat fs + index"
    using small by (simp_all add: checked_add_def unsigned_of_nat sequence_def unat_word_ariths take_bit_eq_mod)
  show ?case
  proof (cases "validate_row_observation ob watched sequence (cr_observed_at_utc reading)")
    case (Ok v)
    have "outcome (\<lambda>_ s'. report_pending False (unat sequence + 1) s' \<and> rt_next_sequence s' = rt_next_sequence s
        \<and> rt_generation s' = rt_generation s) logged
       (accept_observation env (first \<and> pending) candidate reading s sequence watched ob v)"
      by (rule accept_observation_pending [OF Cons.prems(1) _ Ok]) (simp add: un)
    then have "outcome (\<lambda>sample s1. outcome (batch_done s) logged
         (poll_items env pending candidate reading fs (index + 1) items (first \<and> \<not> pending) (samples @ [sample]) s1)) logged
       (accept_observation env (first \<and> pending) candidate reading s sequence watched ob v)"
    proof (rule outcome_mono)
      fix sample and s1 :: "('w, 'v) runtime"
      assume k: "report_pending False (unat sequence + 1) s1 \<and> rt_next_sequence s1 = rt_next_sequence s
        \<and> rt_generation s1 = rt_generation s"
      have np: "(first \<and> \<not> pending \<and> pending) = False" by simp
      show "outcome (batch_done s) logged
         (poll_items env pending candidate reading fs (index + 1) items (first \<and> \<not> pending) (samples @ [sample]) s1)"
        using Cons.IH [of "first \<and> \<not> pending" "index + 1" s1 "samples @ [sample]"] Cons.prems(3) k
          batch_done_base [of s1 s]
        by (simp add: un np)
    qed
    then show ?thesis using Ok by (simp add: item add)
  next
    case (Err message)
    have "outcome (\<lambda>_ s1. outcome (batch_done s) logged
         (poll_items env pending candidate reading fs (index + 1) items first samples s1)) logged
       (reject_observation env s watched message)"
    proof (rule outcome_mono [OF reject_observation_pending [OF Cons.prems(1)]])
      fix u :: unit and s1 :: "('w, 'v) runtime"
      assume k: "report_pending (first \<and> pending) (unat fs + index) s1 \<and> rt_next_sequence s1 = rt_next_sequence s
        \<and> rt_generation s1 = rt_generation s \<and> rt_lifecycle s1 = rt_lifecycle s"
      show "outcome (batch_done s) logged
         (poll_items env pending candidate reading fs (index + 1) items first samples s1)"
        using Cons.IH [of first "index + 1" s1 samples] Cons.prems(2,3) k
          report_pending_mono [of "first \<and> pending" "unat fs + index" s1 "unat fs + (index + 1)"]
          batch_done_base [of s1 s]
        by simp
    qed
    then show ?thesis using Err by (simp add: item add)
  next
    case (Panic x)
    then show ?thesis using Cons.prems(1) report_pending_logged by (auto simp: item add)
  qed
qed

section \<open>The end of a pass\<close>

lemma schedule_snapshot_moves:
  fixes s :: "('w, 'v) runtime" and env :: "('w, 'v) runtime_env"
  assumes s: "stands (g, PhRunning n) s" "rt_generation s = g" and samples: "samples \<noteq> []"
  shows "moves (g, PhRunning n) s (schedule_snapshot env s samples)"
proof -
  let ?q = "(g, PhRunning n)"
  let ?sample = "samples ! (rt_next_snapshot_watch_index s mod length samples)"
  have busy: "moves ?q s (emit env s' (EvSnapshotBusy (rt_generation s') (wi_label (fs_watched ?sample)) 1))"
    if "stands ?q s'" "control s' = control s" for s' :: "('w, 'v) runtime"
    using that control_fields(2) [OF that(2)] s(2) by (intro moves_base [OF moves_emit]) auto
  have take: "moves ?q s (take_request_id s')" "moves ?q s (take_snapshot_sequence s')"
      "moves ?q s (world_call s' c)" "moves ?q s (monotonic_reading env s')"
    if "stands ?q s'" "control s' = control s" for s' :: "('w, 'v) runtime"
      and c :: "'w \<times> (snapshot_submit, service_error) rres"
    using that control_fields(2) [OF that(2)] s(2)
    by (auto intro!: moves_base [of _ s' _ s] moves_take moves_world moves_monotonic_reading simp: polling_def)
  show ?thesis
    unfolding schedule_snapshot_def Let_def
    using samples s busy
    by (auto intro!: moves_sbind take split: snapshot_submit.split)
qed

lemma finish_pass_inv:
  fixes s :: "('w, 'v) runtime" and env :: "('w, 'v) runtime_env"
  assumes rp: "report_pending r (unat (rt_next_sequence s)) s" "samples \<noteq> [] \<longrightarrow> \<not> r"
    and pos: "0 < rt_next_sequence s"
  shows "outcome after_cycle logged (finish_pass env s samples)"
proof -
  have inv: "runtime_inv s" by (rule report_pending_inv [OF rp(1) _ pos]) simp
  have sched: "outcome (\<lambda>_ s'. runtime_inv s') logged (schedule_snapshot env s' samples)"
    if s': "s' = s\<lparr>rt_running_poll_cycles := c\<rparr>" and ne: "samples \<noteq> []" for s' c
  proof -
    obtain n where n: "stands (rt_generation s, PhRunning n) s'" "rt_generation s' = rt_generation s"
      using rp ne s' by (auto simp: report_pending_def)
    have p: "in_phase (PhRunning n) s'"
    proof -
      have "runtime_inv s'" using inv s' by simp
      then obtain p where "stands (rt_generation s', p) s'" "in_phase p s'" by (auto simp: runtime_inv_def)
      moreover from this n have "p = PhRunning n" by (simp add: stands_def)
      ultimately show ?thesis by simp
    qed
    have "moves (rt_generation s', PhRunning n) s' (schedule_snapshot env s' samples)"
      using schedule_snapshot_moves [OF n ne, of env] n(2) by simp
    from moves_inv [OF this p] show ?thesis
      using pos s' by (auto elim: outcome_mono)
  qed
  show ?thesis
    unfolding finish_pass_def Let_def outcome_sbind outcome_ok_or
    using runtime_inv_logged [OF inv] inv
    by (auto simp: after_cycle_def intro!: sched split: option.split)
qed

section \<open>The poll of a candidate\<close>

definition ready :: "bool \<Rightarrow> ('w, 'v) runtime \<Rightarrow> bool" where
  "ready pending s \<longleftrightarrow> runtime_inv s \<and> rt_lifecycle s \<noteq> LifeWaiting
     \<and> pending = (\<not> is_running (rt_lifecycle s))"

lemma ready_pending:
  assumes "ready pending s" "rt_watchlist_validated_generation s = Some (rt_generation s)"
  shows "report_pending pending (unat (rt_next_sequence s)) s"
  using assms
  by (auto simp: ready_def runtime_inv_def in_phase_def report_pending_def is_running_def split: lifecycle.splits)

lemma take_sequences_outcome:
  assumes "E s"
    and "\<And>f s'. s' = s\<lparr>rt_next_sequence := f + of_nat n\<rparr> \<Longrightarrow> f = rt_next_sequence s \<Longrightarrow>
       unat (rt_next_sequence s') = unat f + n \<Longrightarrow> 0 < n \<Longrightarrow> Q f s'"
  shows "outcome Q E (take_sequences s n)"
proof (cases "2 ^ 64 \<le> n \<or> n = 0 \<or> checked_add (rt_next_sequence s) (of_nat n) = None")
  case True
  then show ?thesis using assms(1) by (auto simp: take_sequences_def)
next
  case False
  then obtain m where m: "checked_add (rt_next_sequence s) (of_nat n) = Some m" by blast
  have n: "unat (of_nat n :: u64) = n" using False by (simp add: unsigned_of_nat take_bit_eq_mod)
  from m have eq: "m = rt_next_sequence s + of_nat n" by (simp add: checked_add_eq_Some)
  have "unat m = unat (rt_next_sequence s) + n" using checked_add_unat [OF m] n by simp
  with False show ?thesis
    by (simp add: take_sequences_def m) (rule assms(2), simp_all add: eq)
qed

lemma poll_failed_inv:
  fixes s :: "('w, 'v) runtime" and env :: "('w, 'v) runtime_env"
  assumes rp: "report_pending r b s" and "b \<le> unat (rt_next_sequence s)" "0 < rt_next_sequence s"
  shows "outcome after_cycle logged (poll_failed env s e)"
proof -
  obtain p where p: "stands (rt_generation s, p) s" "polling p" using rp by (rule report_pending_phase)
  have "moves (rt_generation s, p) s (emit env s (EvLoopbackFailure (rt_generation s) ''EQUITY_WATCHLIST''
      OpPriceVolume (pf_category e) (pf_disposition e) (pf_message e) False))"
    using p by (intro moves_emit) auto
  from report_pending_moves [OF rp p(1) this]
  show ?thesis
    unfolding poll_failed_def outcome_sbind
  proof (rule outcome_mono)
    fix s' :: "('w, 'v) runtime"
    assume k: "report_pending r b s' \<and> rt_next_sequence s' = rt_next_sequence s
        \<and> rt_generation s' = rt_generation s \<and> rt_lifecycle s' = rt_lifecycle s"
    then have "runtime_inv s'" using assms(2,3) report_pending_inv [of r b s'] by simp
    then show "outcome after_cycle logged (fail_to_waiting env s'
        (if pf_category e = CatConnect then LoopbackConnectFailed else LoopbackPollFailed)
        (pf_message e) (pf_disposition e = FailureTransient))"
      by (intro fail_to_waiting_inv) (auto simp: session_reason_def)
  qed
qed

lemma poll_answer_inv:
  fixes s :: "('w, 'v) runtime" and env :: "('w, 'v) runtime_env"
  assumes rp: "report_pending pending (unat fs) s"
    and n: "unat (rt_next_sequence s) = unat fs + length (rt_watchlist s)" "rt_watchlist s \<noteq> []"
  shows "outcome after_cycle logged
     (case world_call s c of
       (s, Ok observations) \<Rightarrow>
         if length observations = length (rt_watchlist s)
         then sbind (poll_items env pending candidate reading fs 0
                       (zip (rt_watchlist s) observations) True [] s) (\<lambda>s samples.
              finish_pass env s samples)
         else fail_to_waiting env s LoopbackPollFailed
                ''loopback price-volume batch cardinality mismatch'' False
     | (s, Err e) \<Rightarrow> poll_failed env s e
     | (s, Panic p) \<Rightarrow> (s, Panic p))"
proof -
  obtain w r where c: "c = (w, r)" by (cases c)
  let ?s = "s\<lparr>rt_world := w\<rparr>"
  have rp': "report_pending pending (unat fs) ?s" using rp by (simp add: report_pending_def)
  have "0 < unat (rt_next_sequence ?s)" using n by simp
  then have pos: "0 < rt_next_sequence ?s" by (simp add: unat_gt_0 word_gt_0)
  have le: "unat fs \<le> unat (rt_next_sequence ?s)" using n by simp
  note inv = report_pending_inv [OF rp' le pos]
  show ?thesis
  proof (cases r)
    case (Ok observations)
    have items: "outcome after_cycle logged (sbind (poll_items env pending candidate reading fs 0
        (zip (rt_watchlist ?s) observations) True [] ?s) (\<lambda>s samples. finish_pass env s samples))"
      if len: "length observations = length (rt_watchlist ?s)"
      unfolding outcome_sbind
    proof (rule outcome_mono)
      show "outcome (batch_done ?s) logged (poll_items env pending candidate reading fs 0
          (zip (rt_watchlist ?s) observations) True [] ?s)"
        using rp' n len by (intro poll_items_pending) simp_all
      fix samples and s' :: "('w, 'v) runtime" assume d: "batch_done ?s samples s'"
      then obtain r where r: "report_pending r (unat (rt_next_sequence s')) s'" "samples \<noteq> [] \<longrightarrow> \<not> r"
        by (auto simp: batch_done_def)
      show "outcome after_cycle logged (finish_pass env s' samples)"
        by (rule finish_pass_inv [OF r]) (use d pos in \<open>simp add: batch_done_def\<close>)
    qed
    have "outcome after_cycle logged (fail_to_waiting env ?s LoopbackPollFailed m False)" for m
      by (rule fail_to_waiting_inv [OF inv]) (simp add: session_reason_def)
    with items show ?thesis by (simp add: c Ok)
  next
    case (Err e)
    then show ?thesis using poll_failed_inv [OF rp' le pos] by (simp add: c)
  next
    case (Panic x)
    then show ?thesis using runtime_inv_logged [OF inv] by (simp add: c)
  qed
qed

lemma poll_watchlist_inv:
  fixes s :: "('w, 'v) runtime" and env :: "('w, 'v) runtime_env"
  assumes r: "ready pending s" and v: "rt_watchlist_validated_generation s = Some (rt_generation s)"
  shows "outcome after_cycle logged (poll_watchlist env pending candidate s)"
proof -
  let ?K = "\<lambda>s'. report_pending pending (unat (rt_next_sequence s')) s'"
  have rp: "?K s" by (rule ready_pending [OF r v])
  have keep: "outcome (\<lambda>_ s'. ?K s') logged m"
    if k: "?K s1" and m: "\<And>p. stands (rt_generation s1, p) s1 \<Longrightarrow> polling p \<Longrightarrow> moves (rt_generation s1, p) s1 m"
    for s1 :: "('w, 'v) runtime" and m :: "('w, 'v) runtime \<times> ('x, service_error) rres"
  proof -
    obtain p where "stands (rt_generation s1, p) s1" "polling p" using k by (rule report_pending_phase)
    from report_pending_moves [OF k this(1) m [OF this]]
    show ?thesis by (rule outcome_mono) auto
  qed
  show ?thesis
    unfolding poll_watchlist_def
  proof (subst outcome_sbind, rule outcome_mono [OF keep [OF rp]])
    fix reading and s1 :: "('w, 'v) runtime" assume s1: "?K s1"
    show "outcome after_cycle logged (sbind (take_request_id s1) (\<lambda>s request_id.
       sbind (take_sequences s (length (rt_watchlist s))) (\<lambda>s first_sequence.
       case world_call s (ev_poll_batch env (rt_world s) request_id first_sequence (watch_sources s)
              (cr_observed_at_utc reading)) of
         (s, Ok observations) \<Rightarrow>
           if length observations = length (rt_watchlist s)
           then sbind (poll_items env pending candidate reading first_sequence 0
                         (zip (rt_watchlist s) observations) True [] s) (\<lambda>s samples.
                finish_pass env s samples)
           else fail_to_waiting env s LoopbackPollFailed
                  ''loopback price-volume batch cardinality mismatch'' False
       | (s, Err e) \<Rightarrow> poll_failed env s e
       | (s, Panic p) \<Rightarrow> (s, Panic p))))"
    proof (subst outcome_sbind, rule outcome_mono [OF keep [OF s1]])
      fix request_id and s2 :: "('w, 'v) runtime" assume s2: "?K s2"
      show "outcome after_cycle logged (sbind (take_sequences s2 (length (rt_watchlist s2))) (\<lambda>s first_sequence.
       case world_call s (ev_poll_batch env (rt_world s) request_id first_sequence (watch_sources s)
              (cr_observed_at_utc reading)) of
         (s, Ok observations) \<Rightarrow>
           if length observations = length (rt_watchlist s)
           then sbind (poll_items env pending candidate reading first_sequence 0
                         (zip (rt_watchlist s) observations) True [] s) (\<lambda>s samples.
                finish_pass env s samples)
           else fail_to_waiting env s LoopbackPollFailed
                  ''loopback price-volume batch cardinality mismatch'' False
       | (s, Err e) \<Rightarrow> poll_failed env s e
       | (s, Panic p) \<Rightarrow> (s, Panic p)))"
      proof (subst outcome_sbind, rule take_sequences_outcome)
        show "logged s2" using s2 report_pending_logged by blast
        fix f and s' :: "('w, 'v) runtime"
        assume f: "s' = s2\<lparr>rt_next_sequence := f + of_nat (length (rt_watchlist s2))\<rparr>" "f = rt_next_sequence s2"
          "unat (rt_next_sequence s') = unat f + length (rt_watchlist s2)" "0 < length (rt_watchlist s2)"
        have "report_pending pending (unat f) s'" using s2 f by (simp add: report_pending_def)
        then show "outcome after_cycle logged
         (case world_call s' (ev_poll_batch env (rt_world s') request_id f (watch_sources s')
              (cr_observed_at_utc reading)) of
         (s, Ok observations) \<Rightarrow>
           if length observations = length (rt_watchlist s)
           then sbind (poll_items env pending candidate reading f 0
                         (zip (rt_watchlist s) observations) True [] s) (\<lambda>s samples.
                finish_pass env s samples)
           else fail_to_waiting env s LoopbackPollFailed
                  ''loopback price-volume batch cardinality mismatch'' False
       | (s, Err e) \<Rightarrow> poll_failed env s e
       | (s, Panic p) \<Rightarrow> (s, Panic p))"
          by (rule poll_answer_inv) (use f in auto)
      qed
    qed (rule moves_take)
  qed (rule moves_monotonic_reading, simp_all)
qed

lemma adopt_candidate_ready:
  fixes s :: "('w, 'v) runtime" and env :: "('w, 'v) runtime_env"
  assumes inv: "runtime_inv s" and same: "\<And>c. rt_lifecycle s = LifeRunning c \<Longrightarrow> same_candidate s candidate"
  shows "outcome (\<lambda>_ s'. ready (\<not> is_running (rt_lifecycle s)) s') logged (adopt_candidate env s candidate)"
proof (cases "same_candidate s candidate")
  case True
  have "ready (\<not> is_running (rt_lifecycle s))
      (if rt_lifecycle s = LifeWaiting
       then s\<lparr>rt_lifecycle := LifeCandidate candidate, rt_retry_candidate := None\<rparr> else s)"
    using inv True
    by (auto simp: ready_def runtime_inv_def in_phase_def is_running_def same_candidate_def
        split: lifecycle.splits option.splits)
  with True show ?thesis by (simp add: adopt_candidate_def)
next
  case False
  have idle: "is_running (rt_lifecycle s) = False" using same False by (auto simp: is_running_def split: lifecycle.splits)
  let ?after = "\<lambda>s1 g. s1\<lparr>rt_generation := g, rt_next_sequence := 1, rt_next_snapshot_sequence := 1,
                    rt_running_poll_cycles := 0, rt_next_snapshot_watch_index := 0,
                    rt_last_arrival_millis := None, rt_last_session_marker := None,
                    rt_watchlist_validated_generation := None, rt_retry_candidate := None,
                    rt_lifecycle := LifeCandidate candidate\<rparr>"
  have announce: "outcome (\<lambda>_ s'. ready True s') logged
      (sbind (s1, ok_or GenerationExhausted (checked_add (rt_generation s1) 1)) (\<lambda>s generation.
        emit env (?after s generation) (EvDiscoveryCandidate generation candidate True)))"
    if s1: "stands (rt_generation s1, p) s1" "p = PhIdle \<or> p = PhCandidate"
    for s1 :: "('w, 'v) runtime" and p
  proof (cases "checked_add (rt_generation s1) 1")
    case None
    then show ?thesis using stands_logged [OF s1(1)] by simp
  next
    case (Some g)
    have "unat g = unat (rt_generation s1) + 1" using checked_add_unat [OF Some] by simp
    then have "moves (g, PhCandidate) (?after s1 g) (emit env (?after s1 g) (EvDiscoveryCandidate g candidate True))"
      using s1 by (intro moves_emit [where q = "(rt_generation s1, p)"]) auto
    then have "outcome (\<lambda>_ s'. ready True s') logged (emit env (?after s1 g) (EvDiscoveryCandidate g candidate True))"
    proof (rule movesD)
      fix s' :: "('w, 'v) runtime"
      assume s': "stands (g, PhCandidate) s'" "control s' = control (?after s1 g)"
      show "ready True s'"
        using s'(1) control_fields [OF s'(2)]
        by (auto simp: ready_def runtime_inv_def in_phase_def is_running_def intro!: exI [of _ PhCandidate])
    qed
    then show ?thesis by (simp add: Some)
  qed
  have "outcome (\<lambda>_ s1. \<exists>p. stands (rt_generation s1, p) s1 \<and> (p = PhIdle \<or> p = PhCandidate)) logged
      (if rt_lifecycle s \<noteq> LifeWaiting then reset_windows env s TerminalCandidateChanged else (s, Ok ()))"
  proof -
    obtain p where p: "stands (rt_generation s, p) s" "in_phase p s" using inv by (auto simp: runtime_inv_def)
    show ?thesis
    proof (cases "rt_lifecycle s = LifeWaiting")
      case True
      then show ?thesis using p waiting_phase by auto
    next
      case False
      have "moves (rt_generation s, lost p) s (reset_windows env s TerminalCandidateChanged)"
        using p(1) in_phase_attached [OF p(2) False] by (intro moves_reset_windows) (auto simp: session_reason_def)
      then have "outcome (\<lambda>_ s1. \<exists>p. stands (rt_generation s1, p) s1 \<and> (p = PhIdle \<or> p = PhCandidate)) logged
          (reset_windows env s TerminalCandidateChanged)"
      proof (rule movesD)
        fix s1 :: "('w, 'v) runtime" assume s1: "stands (rt_generation s, lost p) s1" "control s1 = control s"
        show "\<exists>p. stands (rt_generation s1, p) s1 \<and> (p = PhIdle \<or> p = PhCandidate)"
          using s1(1) control_fields(2) [OF s1(2)]
          by (intro exI [of _ "lost p"]) (simp add: lost_def split: output_phase.split)
      qed
      then show ?thesis using False by simp
    qed
  qed
  then have "outcome (\<lambda>_ s'. ready True s') logged
     (sbind (if rt_lifecycle s \<noteq> LifeWaiting then reset_windows env s TerminalCandidateChanged else (s, Ok ()))
        (\<lambda>s _. sbind (s, ok_or GenerationExhausted (checked_add (rt_generation s) 1)) (\<lambda>s generation.
        emit env (?after s generation) (EvDiscoveryCandidate generation candidate True))))"
    unfolding outcome_sbind [of _ _ "if _ then _ else _"]
    by (rule outcome_mono) (use announce in blast)
  then show ?thesis unfolding adopt_candidate_def using False idle by simp
qed

lemma validate_watchlist_once_ready:
  fixes s :: "('w, 'v) runtime" and env :: "('w, 'v) runtime_env"
  assumes r: "ready pending s"
  shows "outcome (\<lambda>e s'. case e of Leave a \<Rightarrow> after_cycle a s'
      | Continue _ \<Rightarrow> ready pending s' \<and> rt_watchlist_validated_generation s' = Some (rt_generation s')) logged
     (validate_watchlist_once env s)"
proof (cases "rt_watchlist_validated_generation s = Some (rt_generation s)")
  case True
  then show ?thesis using r by (simp add: validate_watchlist_once_def)
next
  case False
  have s: "stands (rt_generation s, PhCandidate) s" "in_phase PhCandidate s" "0 < rt_next_sequence s"
    using r False by (cases "rt_lifecycle s"; auto simp: ready_def runtime_inv_def in_phase_def)+
  obtain c where life: "rt_lifecycle s = LifeCandidate c" and pending: pending
    using r False s(2) by (cases "rt_lifecycle s") (auto simp: ready_def in_phase_def is_running_def)
  show ?thesis
  proof (cases "checked_add (rt_next_request_id s) 1")
    case None
    then show ?thesis using False stands_logged [OF s(1)]
      by (simp add: validate_watchlist_once_def take_request_id_def)
  next
    case (Some n)
    let ?s1 = "s\<lparr>rt_next_request_id := n\<rparr>"
    obtain w answer where call: "ev_validate_watchlist env (rt_world ?s1) (rt_next_request_id s) (watch_sources ?s1) = (w, answer)"
      by fastforce
    let ?s2 = "?s1\<lparr>rt_world := w\<rparr>"
    have s2: "stands (rt_generation ?s2, PhCandidate) ?s2" "in_phase PhCandidate ?s2" "runtime_inv ?s2"
      using s r by (simp_all add: in_phase_control [of ?s2 s] ready_def)
    show ?thesis
    proof (cases answer)
      case (Ok universe)
      let ?s3 = "?s2\<lparr>rt_watchlist_validated_generation := Some (rt_generation s)\<rparr>"
      have "moves (rt_generation s, PhValidated) ?s3 (emit env ?s3
          (EvEquityWatchlistValidated (rt_generation s) (length (watch_sources s)) universe True))"
        using s2(1) by (intro moves_emit [where q = "(rt_generation s, PhCandidate)"]) auto
      then have "outcome (\<lambda>_ s'. ready pending s' \<and> rt_watchlist_validated_generation s' = Some (rt_generation s')) logged
          (emit env ?s3 (EvEquityWatchlistValidated (rt_generation s) (length (watch_sources s)) universe True))"
      proof (rule movesD)
        fix s' :: "('w, 'v) runtime"
        assume s': "stands (rt_generation s, PhValidated) s'" "control s' = control ?s3"
        show "ready pending s' \<and> rt_watchlist_validated_generation s' = Some (rt_generation s')"
          using s'(1) control_fields [OF s'(2)] s(3) life pending
          by (auto simp: ready_def runtime_inv_def in_phase_def is_running_def intro!: exI [of _ PhValidated])
      qed
      then show ?thesis
        using False Ok call by (simp add: validate_watchlist_once_def take_request_id_def Some watch_sources_def)
    next
      case (Err e)
      let ?ev = "EvLoopbackFailure (rt_generation s) ''EQUITY_WATCHLIST'' OpEquityUniverse
         (pf_category e) (pf_disposition e) (pf_message e) False"
      have "moves (rt_generation ?s2, PhCandidate) ?s2 (emit env ?s2 ?ev)"
        using s2(1) by (intro moves_emit) auto
      from moves_inv [OF this s2(2)]
      have "outcome (\<lambda>_ s'. outcome after_cycle logged (fail_to_waiting env s' LoopbackPollFailed (pf_message e)
          (pf_disposition e = FailureTransient))) logged (emit env ?s2 ?ev)"
        using s(3) by (auto elim!: outcome_mono intro!: fail_to_waiting_inv simp: session_reason_def)
      then show ?thesis
        using False Err call by (simp add: validate_watchlist_once_def take_request_id_def Some watch_sources_def)
    next
      case (Panic x)
      then show ?thesis
        using False call stands_logged [OF s2(1)]
        by (simp add: validate_watchlist_once_def take_request_id_def Some watch_sources_def)
    qed
  qed
qed

lemma poll_candidate_inv:
  fixes s :: "('w, 'v) runtime" and env :: "('w, 'v) runtime_env"
  assumes "runtime_inv s" "\<And>c. rt_lifecycle s = LifeRunning c \<Longrightarrow> same_candidate s candidate"
  shows "outcome after_cycle logged (poll_candidate env s candidate)"
  unfolding poll_candidate_def Let_def outcome_sbind
proof (rule outcome_mono [OF adopt_candidate_ready [OF assms]])
  fix s1 :: "('w, 'v) runtime" assume "ready (\<not> is_running (rt_lifecycle s)) s1"
  then show "outcome (\<lambda>x s'. outcome after_cycle logged (case x of Leave action \<Rightarrow> (s', Ok action)
      | Continue _ \<Rightarrow> poll_watchlist env (\<not> is_running (rt_lifecycle s)) candidate s')) logged
      (validate_watchlist_once env s1)"
    by (rule outcome_mono [OF validate_watchlist_once_ready])
       (auto intro: poll_watchlist_inv split: early.splits)
qed assumption

section \<open>Snapshots\<close>

definition kept :: "('w, 'v) runtime \<Rightarrow> ('w, 'v) runtime \<Rightarrow> bool" where
  "kept s s' \<longleftrightarrow> runtime_inv s' \<and> control s' = control s"

lemma kept_sbind:
  assumes "outcome (\<lambda>_. kept s) logged m" "\<And>x s'. kept s s' \<Longrightarrow> outcome (\<lambda>_. kept s) logged (f s' x)"
  shows "outcome (\<lambda>_. kept s) logged (sbind m f)"
  unfolding outcome_sbind by (rule outcome_mono [OF assms(1)]) (rule assms(2))

lemma kept_emit:
  fixes s :: "('w, 'v) runtime" and env :: "('w, 'v) runtime_env"
  assumes k: "kept s s'" and "rt_lifecycle s \<noteq> LifeWaiting"
    and step: "\<And>p. attached p \<Longrightarrow> output_step (rt_generation s, p) ev = Some (rt_generation s, p)"
  shows "outcome (\<lambda>_. kept s) logged (emit env s' ev)"
proof -
  note f = control_fields [of s' s]
  have "outcome (\<lambda>_ t. runtime_inv t \<and> control t = control s') logged (emit env s' ev)"
  proof (rule emit_inv)
    fix p assume "in_phase p s'"
    then show "output_step (rt_generation s', p) ev = Some (rt_generation s', p)"
      using in_phase_attached [of p s'] step [of p] assms(2) k f by (simp add: kept_def)
  qed (use k in \<open>simp add: kept_def\<close>)
  then show ?thesis using k by (auto simp: kept_def elim: outcome_mono)
qed

lemma kept_failed: "kept s s' \<Longrightarrow> logged s'"
  by (auto simp: kept_def runtime_inv_logged)

lemma emit_snapshot_updates_kept:
  fixes s :: "('w, 'v) runtime" and env :: "('w, 'v) runtime_env"
  assumes "kept s s'" "rt_lifecycle s \<noteq> LifeWaiting" "\<And>u. u \<in> set us \<Longrightarrow> au_family u = FamilyAmount"
  shows "outcome (\<lambda>_. kept s) logged (emit_snapshot_updates env s' t us)"
  using assms
proof (induction us arbitrary: s')
  case (Cons u us)
  have g: "rt_generation s' = rt_generation s" using Cons.prems(1) control_fields(2) [of s' s] by (simp add: kept_def)
  show ?case
    unfolding emit_snapshot_updates.simps
    by (rule kept_sbind [OF kept_emit [OF Cons.prems(1,2)]]) (use Cons g in auto)
qed simp

lemma snapshot_failed_kept:
  fixes s :: "('w, 'v) runtime" and env :: "('w, 'v) runtime_env"
  assumes "kept s s'" "rt_lifecycle s \<noteq> LifeWaiting"
  shows "outcome (\<lambda>_. kept s) logged (snapshot_failed env s' label category disposition message)"
  unfolding snapshot_failed_def
  using assms control_fields(2) [of s' s]
  by (auto intro!: kept_emit simp: kept_def analyzers_reset_amount_def)

lemma accept_snapshot_kept:
  fixes s :: "('w, 'v) runtime" and env :: "('w, 'v) runtime_env"
  assumes k: "kept s s'" and life: "rt_lifecycle s \<noteq> LifeWaiting"
  shows "outcome (\<lambda>_. kept s) logged (accept_snapshot env s' job snapshot v)"
  unfolding accept_snapshot_def
proof (rule kept_sbind)
  have "rt_generation s' = rt_generation s" using k control_fields(2) [of s' s] by (simp add: kept_def)
  then show "outcome (\<lambda>_. kept s) logged (emit env s' (snapshot_event s' job snapshot v))"
    by (intro kept_emit [OF k life]) (simp add: snapshot_event_def)
next
  fix s1 :: "('w, 'v) runtime" assume s1: "kept s s1"
  let ?r = "analyze_amount (ev_sha env) (rt_analyzers s1) (snapshot_input job v)"
  have s2: "kept s (s1\<lparr>rt_analyzers := fst ?r\<rparr>)" using s1 by (simp add: kept_def)
  show "outcome (\<lambda>_. kept s) logged (sbind (run_analysis s1 ?r) (\<lambda>s updates.
      emit_snapshot_updates env s (cr_observed_at_utc (jb_reading job)) updates))"
  proof (cases "snd ?r")
    case (Ok us)
    have "outcome (\<lambda>_. kept s) logged (emit_snapshot_updates env (s1\<lparr>rt_analyzers := fst ?r\<rparr>)
        (cr_observed_at_utc (jb_reading job)) us)"
      using analyze_amount_updates(1) [OF Ok] by (rule emit_snapshot_updates_kept [OF s2 life])
    then show ?thesis using Ok by (simp add: run_analysis_def)
  qed (use kept_failed [OF s2] in \<open>simp_all add: run_analysis_def\<close>)
qed

lemma in_phase_not_done: "in_phase p s \<Longrightarrow> p \<noteq> PhDone"
  by (auto simp: in_phase_def split: lifecycle.splits)

lemma drain_kept:
  fixes s :: "('w, 'v) runtime" and env :: "('w, 'v) runtime_env"
  assumes inv: "runtime_inv s"
  shows "outcome (\<lambda>_. kept s) logged (drain_snapshot_result env s)"
proof -
  obtain w r where call: "ev_try_receive env (rt_world s) = (w, r)" by fastforce
  let ?s = "s\<lparr>rt_world := w\<rparr>"
  have k: "kept s ?s" using inv by (simp add: kept_def)
  have stale: "outcome (\<lambda>_. kept s) logged (emit env ?s (EvFamilyUnavailable g l FamilyAmount m True))" for g l m
    using k emit_inv [of ?s "EvFamilyUnavailable g l FamilyAmount m True" env] in_phase_not_done [of _ ?s]
    by (auto simp: kept_def elim: outcome_mono)
  show ?thesis
  proof (cases r)
    case (Ok received)
    show ?thesis
    proof (cases received)
      case None
      then show ?thesis using Ok call k by (simp add: drain_snapshot_result_def)
    next
      case (Some result)
      show ?thesis
      proof (cases "jb_generation (jr_job result) \<noteq> rt_generation s \<or> rt_lifecycle s = LifeWaiting")
        case True
        then show ?thesis using Ok Some call stale by (auto simp: drain_snapshot_result_def Let_def)
      next
        case False
        then have life: "rt_lifecycle s \<noteq> LifeWaiting" by simp
        have fail: "outcome (\<lambda>_. kept s) logged (snapshot_failed env ?s l c d m)" for l c d m
          by (rule snapshot_failed_kept [OF k life])
        show ?thesis
        proof (cases "jr_observation result")
          case Ok': (Ok snapshot)
          then show ?thesis
            using False Ok Some call fail accept_snapshot_kept [OF k life, of env] kept_failed [OF k]
            by (auto simp: drain_snapshot_result_def Let_def split: rres.split)
        qed (use False Ok Some call fail kept_failed [OF k] in \<open>auto simp: drain_snapshot_result_def Let_def\<close>)
      qed
    qed
  qed (use call kept_failed [OF k] in \<open>simp_all add: drain_snapshot_result_def\<close>)
qed

section \<open>Cycles\<close>

lemma recheck_identity_inv:
  fixes s :: "('w, 'v) runtime" and env :: "('w, 'v) runtime_env"
  assumes inv: "runtime_inv s" and life: "rt_lifecycle s = LifeRunning current"
  shows "outcome after_cycle logged (recheck_identity env s current)"
proof -
  obtain w r where call: "ev_discover env (rt_world s) = (w, r)" by fastforce
  let ?s = "s\<lparr>rt_world := w\<rparr>"
  have i: "runtime_inv ?s" and l: "rt_lifecycle ?s = LifeRunning current" using inv life by simp_all
  have fail: "outcome after_cycle logged (fail_to_waiting env ?s reason m False)"
    if "\<not> session_reason reason" for reason m by (rule fail_to_waiting_inv [OF i that])
  have same: "outcome after_cycle logged (poll_candidate env ?s current)"
    using l by (intro poll_candidate_inv [OF i]) (simp add: same_candidate_def same_terminal_def)
  have changed: "outcome after_cycle logged (sbind (reset_windows env ?s TerminalCandidateChanged) (\<lambda>s _.
      poll_candidate env (s\<lparr>rt_lifecycle := LifeWaiting\<rparr>) candidate))" for candidate
  proof -
    obtain n where n: "stands (rt_generation ?s, PhRunning n) ?s" "0 < rt_next_sequence ?s" "rt_retry_candidate ?s = None"
      using i l by (auto simp: runtime_inv_def in_phase_def)
    have "moves (rt_generation ?s, PhIdle) ?s (reset_windows env ?s TerminalCandidateChanged)"
      by (rule moves_reset_windows [OF n(1)]) (simp_all add: session_reason_def attached_def lost_def)
    then have "outcome (\<lambda>_ s'. outcome after_cycle logged
        (poll_candidate env (s'\<lparr>rt_lifecycle := LifeWaiting\<rparr>) candidate)) logged
        (reset_windows env ?s TerminalCandidateChanged)"
    proof (rule movesD)
      fix s' :: "('w, 'v) runtime" assume s': "stands (rt_generation ?s, PhIdle) s'" "control s' = control ?s"
      have "runtime_inv (s'\<lparr>rt_lifecycle := LifeWaiting\<rparr>)"
        using s'(1) control_fields [OF s'(2)] n
        by (auto simp: runtime_inv_def in_phase_def intro!: exI [of _ PhIdle])
      then show "outcome after_cycle logged (poll_candidate env (s'\<lparr>rt_lifecycle := LifeWaiting\<rparr>) candidate)"
        by (rule poll_candidate_inv) simp
    qed
    then show ?thesis by simp
  qed
  show ?thesis
  proof (cases r)
    case (Ok d)
    then show ?thesis
      using call fail same changed
      by (cases d) (simp_all add: recheck_identity_def session_reason_def)
  qed (use call fail runtime_inv_logged [OF i] in \<open>simp_all add: recheck_identity_def session_reason_def\<close>)
qed

lemma discover_terminal_inv:
  fixes s :: "('w, 'v) runtime" and env :: "('w, 'v) runtime_env"
  assumes inv: "runtime_inv s" and life: "rt_lifecycle s = LifeWaiting"
  shows "outcome after_cycle logged (discover_terminal env s)"
proof -
  obtain w r where call: "ev_discover env (rt_world s) = (w, r)" by fastforce
  let ?s = "s\<lparr>rt_world := w\<rparr>"
  have i: "runtime_inv ?s" using inv by simp
  have wait: "outcome after_cycle logged (sbind (reset_to_waiting env ?s reason False) (\<lambda>s _.
      sbind (emit env s (EvWaiting m False)) (\<lambda>s _. (s, Ok StepRediscover))))"
    if "\<not> session_reason reason" for reason m
    unfolding outcome_sbind
  proof (rule outcome_mono [OF reset_to_waiting_inv [OF i that]])
    fix s1 :: "('w, 'v) runtime" assume s1: "runtime_inv s1 \<and> rt_lifecycle s1 = LifeWaiting"
    have "outcome (\<lambda>_ s'. runtime_inv s' \<and> control s' = control s1) logged (emit env s1 (EvWaiting m False))"
      using s1 waiting_phase [of _ s1] by (intro emit_inv) auto
    then show "outcome (\<lambda>x s. outcome after_cycle logged (s, Ok StepRediscover)) logged
        (emit env s1 (EvWaiting m False))"
      by (auto simp: after_cycle_def elim: outcome_mono)
  qed
  have fail: "outcome after_cycle logged (fail_to_waiting env ?s TerminalDiscoveryFailed m False)" for m
    by (rule fail_to_waiting_inv [OF i]) (simp add: session_reason_def)
  have poll: "outcome after_cycle logged (poll_candidate env ?s candidate)" for candidate
    by (rule poll_candidate_inv [OF i]) (use life in simp)
  show ?thesis
  proof (cases r)
    case (Ok d)
    then show ?thesis
      using call poll wait by (cases d) (simp_all add: discover_terminal_def session_reason_def)
  qed (use call fail runtime_inv_logged [OF i] in \<open>simp_all add: discover_terminal_def\<close>)
qed

lemma step_inner_inv:
  fixes s :: "('w, 'v) runtime" and env :: "('w, 'v) runtime_env"
  assumes "runtime_inv s"
  shows "outcome after_cycle logged (step_inner env s)"
  unfolding step_inner_def outcome_sbind
proof (rule outcome_mono [OF drain_kept [OF assms]])
  fix s1 :: "('w, 'v) runtime" assume "kept s s1"
  then have i: "runtime_inv s1" by (simp add: kept_def)
  show "outcome after_cycle logged (case rt_lifecycle s1 of
       LifeRunning candidate \<Rightarrow>
         if rt_running_poll_cycles s1 \<noteq> 0
            \<and> is_multiple_of (rt_running_poll_cycles s1) (rt_identity_recheck_cycles s1)
         then recheck_identity env s1 candidate else poll_candidate env s1 candidate
     | LifeCandidate candidate \<Rightarrow> poll_candidate env s1 candidate
     | LifeWaiting \<Rightarrow> discover_terminal env s1)"
    using i by (auto intro!: recheck_identity_inv discover_terminal_inv poll_candidate_inv
        simp: same_candidate_def same_terminal_def split: lifecycle.split)
qed

lemma step_inv:
  fixes s :: "('w, 'v) runtime" and env :: "('w, 'v) runtime_env"
  assumes "runtime_inv s"
  shows "outcome after_cycle logged (step env s)"
  unfolding step_def outcome_sbind
proof (rule outcome_mono [OF step_inner_inv [OF assms]])
  fix action and s1 :: "('w, 'v) runtime" assume a: "after_cycle action s1"
  have last: "outcome (\<lambda>_. logged) logged (emit env (s1\<lparr>rt_completed_cycles := c\<rparr>) (EvDiagnosticCompleted c d))"
    if "action \<noteq> StepStop" for c d
    using that a by (intro emit_last) (auto simp: after_cycle_def stays_def dest: in_phase_not_done)
  then show "outcome after_cycle logged (if action = StepStop then (s1, Ok action) else
       sbind (s1, ok_or DiagnosticCycleExhausted (checked_add (rt_completed_cycles s1) 1)) (\<lambda>s cycles.
       let s = s\<lparr>rt_completed_cycles := cycles\<rparr> in
       if rt_diagnostic_poll_cycles s \<noteq> 0 \<and> rt_diagnostic_poll_cycles s \<le> cycles
       then sbind (emit env s (EvDiagnosticCompleted cycles (rt_diagnostic_poll_cycles s)))
              (\<lambda>s _. (s, Ok StepStop))
       else (s, Ok action)))"
    using a runtime_inv_logged [of s1]
    by (auto simp: after_cycle_def Let_def split: option.split)
qed

lemma serve_inv:
  fixes s :: "('w, 'v) runtime" and env :: "('w, 'v) runtime_env"
  assumes "runtime_inv s"
  shows "outcome after_cycle logged (serve n env s)"
  using assms
proof (induction n arbitrary: s)
  case 0
  then show ?case by (simp add: after_cycle_def)
next
  case (Suc n)
  show ?case
    unfolding serve.simps outcome_sbind
  proof (rule outcome_mono [OF step_inv [OF Suc.prems]])
    fix a and s1 :: "('w, 'v) runtime" assume a: "after_cycle a s1"
    show "outcome after_cycle logged (if a = StepStop then (s1, Ok StepStop) else serve n env s1)"
    proof (cases "a = StepStop")
      case False
      then have "runtime_inv s1" using a by (simp add: after_cycle_def)
      from Suc.IH [OF this] False show ?thesis by simp
    qed (use a in \<open>simp add: after_cycle_def\<close>)
  qed
qed

lemma runtime_new_inv: "runtime_inv (runtime_new config w)"
  by (auto simp: runtime_inv_def runtime_new_def in_phase_def stands_def intro!: exI [of _ PhIdle])

lemma outcome_fst: "outcome Q E r \<Longrightarrow> (\<And>x s. Q x s \<Longrightarrow> E s) \<Longrightarrow> E (fst r)"
  by (auto simp: outcome_def split: rres.splits)

end
