(* ===== verification/Monitor_Endurance.thy ===== *)
theory Monitor_Endurance
  imports Monitor_Output_Protocol
begin

text \<open>
  A service with an unbounded restart budget: the operations of a cycle keep the two limits of the
  configuration, and none of them stops the service.
\<close>

named_theorems keeps_intros \<open>operations that keep the limits of an unbounded service\<close>

definition unbounded :: "('w, 'v) runtime \<Rightarrow> bool" where
  "unbounded s \<longleftrightarrow> rt_restart_budget s = - 1 \<and> rt_diagnostic_poll_cycles s = 0"

definition keeps :: "('w, 'v) runtime \<times> ('a, 'e) rres \<Rightarrow> bool" where
  "keeps m \<longleftrightarrow> outcome (\<lambda>_. unbounded) (\<lambda>_. True) m"

definition goes_on :: "('w, 'v) runtime \<times> (step_action, 'e) rres \<Rightarrow> bool" where
  "goes_on m \<longleftrightarrow> outcome (\<lambda>a s. a \<noteq> StepStop \<and> unbounded s) (\<lambda>_. True) m"

lemma unbounded_update [simp]:
  "unbounded (s\<lparr>rt_world := w\<rparr>) = unbounded s" "unbounded (s\<lparr>rt_log := l\<rparr>) = unbounded s"
  "unbounded (s\<lparr>rt_analyzers := az\<rparr>) = unbounded s" "unbounded (s\<lparr>rt_lifecycle := lc\<rparr>) = unbounded s"
  "unbounded (s\<lparr>rt_generation := g\<rparr>) = unbounded s" "unbounded (s\<lparr>rt_next_request_id := n\<rparr>) = unbounded s"
  "unbounded (s\<lparr>rt_next_sequence := n\<rparr>) = unbounded s"
  "unbounded (s\<lparr>rt_next_snapshot_sequence := n\<rparr>) = unbounded s"
  "unbounded (s\<lparr>rt_running_poll_cycles := n\<rparr>) = unbounded s"
  "unbounded (s\<lparr>rt_next_snapshot_watch_index := k\<rparr>) = unbounded s"
  "unbounded (s\<lparr>rt_consecutive_failures := f\<rparr>) = unbounded s"
  "unbounded (s\<lparr>rt_completed_cycles := n\<rparr>) = unbounded s"
  "unbounded (s\<lparr>rt_last_arrival_millis := a\<rparr>) = unbounded s"
  "unbounded (s\<lparr>rt_last_session_marker := m\<rparr>) = unbounded s"
  "unbounded (s\<lparr>rt_watchlist_validated_generation := v\<rparr>) = unbounded s"
  "unbounded (s\<lparr>rt_retry_candidate := c\<rparr>) = unbounded s"
  by (simp_all add: unbounded_def)

lemma keeps_simps [simp]:
  "keeps (s, Ok x) \<longleftrightarrow> unbounded s" "keeps (s, Err e)" "keeps (s, Panic p)"
  "goes_on (s, Ok a) \<longleftrightarrow> a \<noteq> StepStop \<and> unbounded s" "goes_on (s, Err e)" "goes_on (s, Panic p)"
  by (simp_all add: keeps_def goes_on_def)

lemma keeps_pair [keeps_intros]: "unbounded s \<Longrightarrow> keeps (s, r)"
  by (cases r) simp_all

lemma keeps_sbind [keeps_intros]:
  "keeps m \<Longrightarrow> (\<And>x s. unbounded s \<Longrightarrow> keeps (f s x)) \<Longrightarrow> keeps (sbind m f)"
  unfolding keeps_def outcome_sbind by (auto elim: outcome_mono)

lemma goes_on_sbind:
  "keeps m \<Longrightarrow> (\<And>x s. unbounded s \<Longrightarrow> goes_on (f s x)) \<Longrightarrow> goes_on (sbind m f)"
  unfolding keeps_def goes_on_def outcome_sbind by (auto elim: outcome_mono)

lemma keeps_world [keeps_intros]: "unbounded s \<Longrightarrow> keeps (world_call s c)"
  by (cases c) (auto intro: keeps_pair)

lemma keeps_emit [keeps_intros]: "unbounded s \<Longrightarrow> keeps (emit env s ev)"
  by (auto simp: emit_def split: prod.split rres.split)

lemma keeps_small [keeps_intros]:
  "unbounded s \<Longrightarrow> keeps (take_request_id s)" "unbounded s \<Longrightarrow> keeps (take_snapshot_sequence s)"
  "unbounded s \<Longrightarrow> keeps (take_sequences s n)" "unbounded s \<Longrightarrow> keeps (run_analysis s r)"
  by (auto simp: take_request_id_def take_snapshot_sequence_def take_sequences_def run_analysis_def
      intro: keeps_pair split: option.split)

lemma keeps_reset_windows [keeps_intros]: "unbounded s \<Longrightarrow> keeps (reset_windows env s reason)"
  by (auto simp: reset_windows_def intro!: keeps_intros split: prod.split)

lemma keeps_session_reset [keeps_intros]: "unbounded s \<Longrightarrow> keeps (apply_session_reset env s t)"
  unfolding apply_session_reset_def Let_def by (auto intro!: keeps_intros split: option.split)

lemma keeps_reading [keeps_intros]: "unbounded s \<Longrightarrow> keeps (monotonic_reading env s)"
  unfolding monotonic_reading_def Let_def by (auto intro!: keeps_intros)

lemma keeps_reset_to_waiting [keeps_intros]: "unbounded s \<Longrightarrow> keeps (reset_to_waiting env s reason retry)"
  unfolding reset_to_waiting_def Let_def by (intro keeps_sbind) (auto intro!: keeps_intros split: lifecycle.split)

lemma goes_on_fail: "unbounded s \<Longrightarrow> goes_on (fail_to_waiting env s reason message retry)"
  unfolding fail_to_waiting_def Let_def
  by (intro goes_on_sbind keeps_intros) (auto simp: unbounded_def)

lemma keeps_fail [keeps_intros]: "unbounded s \<Longrightarrow> keeps (fail_to_waiting env s reason message retry)"
  using goes_on_fail [of s env reason message retry] unfolding goes_on_def keeps_def
  by (auto elim: outcome_mono)

lemma keeps_unavailable [keeps_intros]: "unbounded s \<Longrightarrow> keeps (unavailable env s watched family reason)"
  unfolding unavailable_def by (rule keeps_emit)

lemma keeps_reject [keeps_intros]: "unbounded s \<Longrightarrow> keeps (reject_observation env s watched message)"
  unfolding reject_observation_def by (intro keeps_intros)

lemma keeps_health [keeps_intros]: "unbounded s \<Longrightarrow> keeps (report_health env s candidate watched observation)"
  unfolding report_health_def by (auto intro!: keeps_intros)

lemma keeps_updates [keeps_intros]:
  "unbounded s \<Longrightarrow> keeps (emit_updates env s t us)" "unbounded s \<Longrightarrow> keeps (emit_snapshot_updates env s t us)"
  by (induction us arbitrary: s) (auto intro!: keeps_intros)

lemma keeps_accept [keeps_intros]:
  "unbounded s \<Longrightarrow> keeps (accept_observation env report candidate reading s sequence watched observation v)"
  unfolding accept_observation_def by (intro keeps_sbind) (auto intro!: keeps_intros)

lemma keeps_items [keeps_intros]:
  "unbounded s \<Longrightarrow> keeps (poll_items env pending candidate reading fs index items first samples s)"
proof (induction items arbitrary: index first samples s)
  case (Cons item items)
  show ?case
    by (cases item)
       (auto intro!: keeps_sbind keeps_reject keeps_accept keeps_pair Cons split: rres.split)
qed simp

lemma keeps_schedule [keeps_intros]: "unbounded s \<Longrightarrow> keeps (schedule_snapshot env s samples)"
  unfolding schedule_snapshot_def Let_def
  by (auto intro!: keeps_sbind keeps_emit keeps_reading keeps_small keeps_world split: snapshot_submit.split)

lemma keeps_snapshot [keeps_intros]:
  "unbounded s \<Longrightarrow> keeps (snapshot_failed env s label category disposition message)"
  "unbounded s \<Longrightarrow> keeps (accept_snapshot env s job snapshot w)"
  unfolding snapshot_failed_def accept_snapshot_def
  by (auto intro!: keeps_sbind keeps_emit keeps_small keeps_updates split: prod.split)

lemma keeps_drain [keeps_intros]: "unbounded s \<Longrightarrow> keeps (drain_snapshot_result env s)"
  unfolding drain_snapshot_result_def Let_def
  by (auto intro!: keeps_sbind keeps_world keeps_emit keeps_snapshot split: option.split rres.split)

lemma goes_on_poll_failed: "unbounded s \<Longrightarrow> goes_on (poll_failed env s e)"
  unfolding poll_failed_def by (intro goes_on_sbind keeps_emit goes_on_fail)

lemma goes_on_finish: "unbounded s \<Longrightarrow> goes_on (finish_pass env s samples)"
  unfolding finish_pass_def Let_def by (intro goes_on_sbind) (auto intro!: keeps_intros)

lemma goes_on_answer:
  assumes "\<And>s x. unbounded s \<Longrightarrow> r = Ok x \<Longrightarrow> goes_on (f s x)" "\<And>s e. unbounded s \<Longrightarrow> r = Err e \<Longrightarrow> goes_on (h s e)"
    and "unbounded s"
  shows "goes_on (case world_call s (w, r) of (s, Ok x) \<Rightarrow> f s x | (s, Err e) \<Rightarrow> h s e | (s, Panic p) \<Rightarrow> (s, Panic p))"
  using assms by (cases r) auto

lemma goes_on_watchlist:
  fixes s :: "('w, 'v) runtime" and env :: "('w, 'v) runtime_env"
  shows "unbounded s \<Longrightarrow> goes_on (poll_watchlist env pending candidate s)"
  unfolding poll_watchlist_def
proof (intro goes_on_sbind keeps_reading keeps_small)
  fix reading :: clock_reading and request_id first_sequence and s :: "('w, 'v) runtime" assume s: "unbounded s"
  obtain w r where call: "ev_poll_batch env (rt_world s) request_id first_sequence (watch_sources s)
      (cr_observed_at_utc reading) = (w, r)" by fastforce
  show "goes_on (case world_call s (ev_poll_batch env (rt_world s) request_id first_sequence (watch_sources s)
            (cr_observed_at_utc reading)) of
       (s, Ok observations) \<Rightarrow>
         if length observations = length (rt_watchlist s)
         then sbind (poll_items env pending candidate reading first_sequence 0
                       (zip (rt_watchlist s) observations) True [] s) (\<lambda>s samples.
              finish_pass env s samples)
         else fail_to_waiting env s LoopbackPollFailed
                ''loopback price-volume batch cardinality mismatch'' False
     | (s, Err e) \<Rightarrow> poll_failed env s e
     | (s, Panic p) \<Rightarrow> (s, Panic p))"
    unfolding call
    by (rule goes_on_answer [OF _ _ s])
       (auto intro!: goes_on_sbind keeps_items goes_on_finish goes_on_fail goes_on_poll_failed)
qed

lemma keeps_adopt [keeps_intros]: "unbounded s \<Longrightarrow> keeps (adopt_candidate env s candidate)"
  unfolding adopt_candidate_def by (auto intro!: keeps_sbind keeps_reset_windows keeps_emit keeps_pair)

definition not_stopping :: "('w, 'v) runtime \<times> (unit early, 'e) rres \<Rightarrow> bool" where
  "not_stopping m \<longleftrightarrow> outcome (\<lambda>x s. unbounded s \<and> x \<noteq> Leave StepStop) (\<lambda>_. True) m"

lemma not_stopping_simps [simp]:
  "not_stopping (s, Ok x) \<longleftrightarrow> unbounded s \<and> x \<noteq> Leave StepStop" "not_stopping (s, Err e)"
  "not_stopping (s, Panic p)"
  by (simp_all add: not_stopping_def)

lemma not_stopping_sbind:
  "keeps m \<Longrightarrow> (\<And>x s. unbounded s \<Longrightarrow> not_stopping (f s x)) \<Longrightarrow> not_stopping (sbind m f)"
  unfolding keeps_def not_stopping_def outcome_sbind by (auto elim: outcome_mono)

lemma not_stopping_leave:
  "goes_on m \<Longrightarrow> not_stopping (sbind m (\<lambda>s action. (s, Ok (Leave action))))"
  unfolding goes_on_def not_stopping_def outcome_sbind by (auto elim: outcome_mono)

lemma goes_on_unless_left:
  assumes "not_stopping m" "\<And>s x. unbounded s \<Longrightarrow> goes_on (f s x)"
  shows "goes_on (sbind m (\<lambda>s v. case v of Leave action \<Rightarrow> (s, Ok action) | Continue x \<Rightarrow> f s x))"
  using assms unfolding goes_on_def not_stopping_def outcome_sbind
  by (auto elim!: outcome_mono split: early.split)

lemma validate_watchlist_not_stopping:
  fixes s :: "('w, 'v) runtime" and env :: "('w, 'v) runtime_env"
  assumes s: "unbounded s"
  shows "not_stopping (validate_watchlist_once env s)"
proof (cases "rt_watchlist_validated_generation s = Some (rt_generation s)")
  case False
  have "not_stopping (case world_call s (ev_validate_watchlist env (rt_world s) request_id (watch_sources s)) of
          (s, Ok universe) \<Rightarrow>
            sbind (emit env (s\<lparr>rt_watchlist_validated_generation := Some (rt_generation s)\<rparr>)
                     (EvEquityWatchlistValidated (rt_generation s) (length (watch_sources s)) universe True))
              (\<lambda>s _. (s, Ok (Continue ())))
        | (s, Err e) \<Rightarrow>
            sbind (emit env s (EvLoopbackFailure (rt_generation s) ''EQUITY_WATCHLIST''
                     OpEquityUniverse (pf_category e) (pf_disposition e) (pf_message e) False)) (\<lambda>s _.
            sbind (fail_to_waiting env s LoopbackPollFailed (pf_message e)
                     (pf_disposition e = FailureTransient)) (\<lambda>s action.
            (s, Ok (Leave action))))
        | (s, Panic p) \<Rightarrow> (s, Panic p))"
    if "unbounded s" for request_id and s :: "('w, 'v) runtime"
  proof -
    obtain w r where call: "ev_validate_watchlist env (rt_world s) request_id (watch_sources s) = (w, r)"
      by fastforce
    show ?thesis
      using that
      by (cases r) (auto simp: call intro!: not_stopping_sbind keeps_emit not_stopping_leave goes_on_fail)
  qed
  then show ?thesis
    using False s unfolding validate_watchlist_once_def
    by (simp add: not_stopping_sbind keeps_small)
qed (use s in \<open>simp add: validate_watchlist_once_def\<close>)

lemma goes_on_candidate:
  fixes s :: "('w, 'v) runtime" and env :: "('w, 'v) runtime_env"
  shows "unbounded s \<Longrightarrow> goes_on (poll_candidate env s candidate)"
  unfolding poll_candidate_def Let_def
  by (intro goes_on_sbind keeps_adopt goes_on_unless_left validate_watchlist_not_stopping goes_on_watchlist)

lemma goes_on_recheck:
  fixes s :: "('w, 'v) runtime" and env :: "('w, 'v) runtime_env"
  assumes s: "unbounded s"
  shows "goes_on (recheck_identity env s current)"
proof -
  obtain w r where call: "ev_discover env (rt_world s) = (w, r)" by fastforce
  let ?s = "s\<lparr>rt_world := w\<rparr>"
  have fail: "goes_on (fail_to_waiting env ?s m t False)" for m t using s by (intro goes_on_fail) simp
  have poll: "goes_on (poll_candidate env ?s c)" for c using s by (intro goes_on_candidate) simp
  have changed: "goes_on (sbind (reset_windows env ?s TerminalCandidateChanged) (\<lambda>s _.
      poll_candidate env (s\<lparr>rt_lifecycle := LifeWaiting\<rparr>) c))" for c
    using s by (intro goes_on_sbind keeps_reset_windows goes_on_candidate) simp_all
  show ?thesis
  proof (cases r)
    case (Ok d)
    then show ?thesis by (cases d) (simp_all add: recheck_identity_def call fail poll changed)
  qed (simp_all add: recheck_identity_def call fail)
qed

lemma goes_on_discover:
  fixes s :: "('w, 'v) runtime" and env :: "('w, 'v) runtime_env"
  assumes s: "unbounded s"
  shows "goes_on (discover_terminal env s)"
proof -
  obtain w r where call: "ev_discover env (rt_world s) = (w, r)" by fastforce
  let ?s = "s\<lparr>rt_world := w\<rparr>"
  have fail: "goes_on (fail_to_waiting env ?s m t False)" for m t using s by (intro goes_on_fail) simp
  have poll: "goes_on (poll_candidate env ?s c)" for c using s by (intro goes_on_candidate) simp
  have wait: "goes_on (sbind (reset_to_waiting env ?s reset False) (\<lambda>s _.
      sbind (emit env s (EvWaiting reason False)) (\<lambda>s _. (s, Ok StepRediscover))))" for reset reason
    using s by (intro goes_on_sbind keeps_reset_to_waiting keeps_emit) simp_all
  show ?thesis
  proof (cases r)
    case (Ok d)
    then show ?thesis by (cases d) (simp_all add: discover_terminal_def call fail poll wait)
  qed (simp_all add: discover_terminal_def call fail)
qed

lemma goes_on_step: "unbounded s \<Longrightarrow> goes_on (step env s)"
proof -
  assume s: "unbounded s"
  have inner: "goes_on (step_inner env s)"
    unfolding step_inner_def
    by (rule goes_on_sbind [OF keeps_drain [OF s]])
       (auto intro: goes_on_recheck goes_on_candidate goes_on_discover split: lifecycle.split)
  show ?thesis
    unfolding step_def goes_on_def outcome_sbind
    by (rule outcome_mono [OF inner [unfolded goes_on_def]])
       (auto simp: Let_def unbounded_def split: option.split)
qed

lemma goes_on_serve: "unbounded s \<Longrightarrow> goes_on (serve n env s)"
proof (induction n arbitrary: s)
  case (Suc n)
  show ?case
    unfolding serve.simps goes_on_def outcome_sbind
    by (rule outcome_mono [OF goes_on_step [OF Suc.prems, unfolded goes_on_def]])
       (auto dest: Suc.IH [unfolded goes_on_def])
qed simp

end
