(* ===== verification/Monitor_Server_Properties.thy ===== *)
theory Monitor_Server_Properties
  imports Monitor_Output_Refinement Monitor_Endurance Exact_Decimal Sample_Inputs
begin

text \<open>
  Properties of the monitor server: its output follows its protocol whatever its environment does,
  observations have strictly increasing cursors, a failure leaves the terminal and counts against
  the restart budget, and a price too large for a double stops the service.
\<close>

section \<open>The output of a run\<close>

lemma serve_logged: "logged (fst (serve n env (runtime_new config w)))"
proof -
  have "outcome after_cycle logged (serve n env (runtime_new config w))"
    by (rule serve_inv [OF runtime_new_inv])
  then show ?thesis by (rule outcome_fst) (auto simp: after_cycle_def runtime_inv_logged split: if_splits)
qed

lemma world_call_logged: "logged (fst (world_call s c)) = logged s"
  by (cases c) (simp add: logged_def)

lemma service_end_logged:
  assumes "logged s"
  shows "logged (fst (service_end env s result))"
proof -
  obtain q where "stands q s" using assms by (auto simp: logged_def output_ok_def stands_def)
  then obtain g p where q: "stands (g, p) s" by (cases q) auto
  have "moves (g, PhDone) s (emit env (s\<lparr>rt_world := w\<rparr>) (EvSnapshotWorkerStopped b True))" for w b
    using q by (intro moves_base [OF moves_emit [where q = "(g, p)"]]) auto
  then have e: "logged (fst (emit env (s\<lparr>rt_world := w\<rparr>) (EvSnapshotWorkerStopped b True)))" for w b
    unfolding moves_def by (rule outcome_fst) (use stands_logged in blast)
  obtain w r where call: "ev_snapshot_shutdown env (rt_world s) = (w, r)" by fastforce
  have "logged (fst (shutdown_snapshot env s))"
    using assms e by (cases r) (simp_all add: shutdown_snapshot_def call logged_def)
  then show ?thesis
    by (simp add: service_end_def shutdown_output_def case_prod_unfold world_call_logged)
qed

text \<open>C4: Whatever the terminal, the network, the clock, the snapshot worker and the consumer of
  the output do, and however many cycles the service runs, the events it has written follow the
  protocol of its output: a generation is announced before its watchlist is validated, validated
  before it runs, and runs before it has observations and price or volume analyses, whose
  anomaly events carry the cursor of the last observation; a generation that has run and lost its
  terminal never comes back; nothing but the end of the worker follows the end of the run.\<close>

theorem output_follows_protocol:
  "output_ok (rt_log (fst (serve n env (runtime_new config w))))
   \<and> output_ok (rt_log (fst (service_end env (fst (serve n env (runtime_new config w))) result)))"
  by (intro conjI serve_logged [unfolded logged_def] service_end_logged [OF serve_logged, unfolded logged_def])

section \<open>Cursors of observations\<close>

fun observation_cursors :: "'v service_event list \<Rightarrow> (nat \<times> nat) list" where
  "observation_cursors [] = []"
| "observation_cursors (EvObservation g _ _ ob _ _ _ _ _ # es) =
     (unat g, unat (so_bridge_sequence ob)) # observation_cursors es"
| "observation_cursors (_ # es) = observation_cursors es"

definition cursor_less :: "nat \<times> nat \<Rightarrow> nat \<times> nat \<Rightarrow> bool" where
  "cursor_less a b \<longleftrightarrow> fst a < fst b \<or> fst a = fst b \<and> snd a < snd b"

text \<open>The cursors that may still come.\<close>

definition to_come :: "output_state \<Rightarrow> nat \<times> nat \<Rightarrow> bool" where
  "to_come q c \<longleftrightarrow> unat (fst q) < fst c \<or> unat (fst q) = fst c \<and>
     (case snd q of PhIdle \<Rightarrow> False | PhDone \<Rightarrow> False | PhRunning n \<Rightarrow> n < snd c | _ \<Rightarrow> True)"

lemma stays_eq_Some [simp]: "stays c q = Some q' \<longleftrightarrow> c \<and> q' = q"
  by (auto simp: stays_def)

lemma to_come_step:
  assumes "output_step q e = Some q'" "to_come q' c"
  shows "to_come q c"
  using assms
  by (cases q; cases e)
     (auto simp: to_come_def attached_def polling_def lost_def split: output_phase.splits if_splits)

lemma cursors_to_come:
  "output_run q es = Some q' \<Longrightarrow>
     sorted_wrt cursor_less (observation_cursors es) \<and> (\<forall>c\<in>set (observation_cursors es). to_come q c)"
proof (induction es arbitrary: q)
  case (Cons e es)
  obtain q1 where step: "output_step q e = Some q1" and run: "output_run q1 es = Some q'"
    using Cons.prems by (auto split: option.splits)
  note ih = Cons.IH [OF run]
  have later: "\<forall>c\<in>set (observation_cursors es). to_come q c" using ih to_come_step [OF step] by blast
  show ?case
  proof (cases "\<exists>g l t ob p v a b c. e = EvObservation g l t ob p v a b c")
    case True
    then obtain g l t ob p v a b c where e: "e = EvObservation g l t ob p v a b c" by blast
    obtain g0 p0 where q: "q = (g0, p0)" by (cases q)
    from step obtain n where s: "p0 = PhRunning n" "g = g0" "n < unat (so_bridge_sequence ob)"
        "q1 = (g0, PhRunning (unat (so_bridge_sequence ob)))"
      by (auto simp: e q split: output_phase.splits)
    with ih later show ?thesis by (auto simp: e q to_come_def cursor_less_def)
  next
    case False
    then have "observation_cursors (e # es) = observation_cursors es" by (cases e) auto
    with ih later show ?thesis by simp
  qed
qed simp

text \<open>C7: The observations a service writes have strictly increasing cursors: a later one has a
  higher generation, or the same generation and a higher sequence. So no cursor is used twice,
  although sequences start again at one when a terminal is lost and polls of a candidate that
  failed are repeated within its generation.\<close>

theorem observation_cursors_increase:
  "sorted_wrt cursor_less (observation_cursors (rt_log (fst (serve n env (runtime_new config w)))))"
proof -
  obtain q where "output_run (0, PhIdle) (rt_log (fst (serve n env (runtime_new config w)))) = Some q"
    using serve_logged [of n env config w] by (auto simp: logged_def output_ok_def)
  from cursors_to_come [OF this] show ?thesis by (rule conjunct1)
qed

section \<open>The restart budget\<close>

lemma unat_max_word: "unat (- 1 :: 'a::len word) = 2 ^ LENGTH('a) - 1"
  by (simp add: unsigned_minus_1_eq_mask mask_eq_exp_minus_1)

lemma saturating_succ:
  fixes n :: "'a::len word"
  shows "unat (saturating_add n 1) = min (unat n + 1) (2 ^ LENGTH('a) - 1)"
proof (cases "unat n + unat (1 :: 'a word) < 2 ^ LENGTH('a)")
  case True
  then have "unat (n + 1) = unat n + 1" by (simp add: unat_word_ariths)
  with True show ?thesis by (simp add: saturating_add_def)
next
  case False
  have "unat n < 2 ^ LENGTH('a)" by (rule unsigned_less)
  with False show ?thesis by (simp add: saturating_add_def unat_max_word)
qed

lemma reset_to_waiting_keeps:
  "outcome (\<lambda>_ s'. rt_consecutive_failures s' = rt_consecutive_failures s
      \<and> rt_restart_budget s' = rt_restart_budget s \<and> rt_lifecycle s' = LifeWaiting) (\<lambda>_. True)
     (reset_to_waiting env s reason retry)"
  by (simp add: reset_to_waiting_def reset_windows_def emit_def Let_def
      split: lifecycle.split prod.split rres.split)

lemma emit_keeps:
  "outcome (\<lambda>_ s'. rt_consecutive_failures s' = rt_consecutive_failures s
      \<and> rt_restart_budget s' = rt_restart_budget s \<and> rt_lifecycle s' = rt_lifecycle s) (\<lambda>_. True)
     (emit env s event)"
  by (simp add: emit_def split: prod.split rres.split)

lemma fail_to_waiting_outcome:
  "outcome (\<lambda>action s'. rt_lifecycle s' = LifeWaiting
      \<and> rt_consecutive_failures s' = saturating_add (rt_consecutive_failures s) 1
      \<and> action = (if rt_restart_budget s \<noteq> - 1
                     \<and> rt_restart_budget s < saturating_add (rt_consecutive_failures s) 1
                  then StepStop else StepRediscover)) (\<lambda>_. True)
     (fail_to_waiting env s reason message retry)"
proof -
  have stop: "outcome (\<lambda>_ s'. rt_lifecycle s' = rt_lifecycle s1
      \<and> rt_consecutive_failures s' = rt_consecutive_failures s1) (\<lambda>_. True) (emit env s1 event)"
    for event and s1 :: "('a, 'b) runtime"
    by (rule outcome_mono [OF emit_keeps]) simp
  show ?thesis
    unfolding fail_to_waiting_def outcome_sbind Let_def
    apply (rule outcome_mono [OF reset_to_waiting_keeps])
    apply (rule outcome_mono [OF emit_keeps])
    subgoal for x s1 y s2
      by (auto intro!: outcome_mono [OF stop])
    done
qed

text \<open>C29: A failure leaves the terminal and counts once: the count of consecutive failures goes up
  by one and stays at its maximum, and the service stops exactly when the count was no less than
  the restart budget, unless the budget is the largest number, which stands for no budget.\<close>

theorem failure_counts:
  assumes "fail_to_waiting env s reason message retry = (s', Ok action)"
  shows "rt_lifecycle s' = LifeWaiting
    \<and> unat (rt_consecutive_failures s') = min (unat (rt_consecutive_failures s) + 1) (2 ^ 32 - 1)
    \<and> action = (if unat (rt_restart_budget s) < 2 ^ 32 - 1
                   \<and> unat (rt_restart_budget s) \<le> unat (rt_consecutive_failures s)
                then StepStop else StepRediscover)"
proof -
  have m: "rt_restart_budget s \<noteq> - 1 \<longleftrightarrow> unat (rt_restart_budget s) \<noteq> 2 ^ 32 - 1"
    by (simp add: word_unat_eq_iff unat_max_word)
  have "unat (rt_restart_budget s) < 2 ^ LENGTH(32)" by (rule unsigned_less)
  then have "unat (rt_restart_budget s) < 2 ^ 32" by simp
  with m fail_to_waiting_outcome [of s env reason message retry] assms
  show ?thesis by (auto simp: word_less_nat_alt saturating_succ)
qed

text \<open>A service whose environment answers nothing and writes everything.\<close>

definition quiet_env :: "(unit, unit) runtime_env" where
  "quiet_env =
     \<lparr>ev_discover = \<lambda>w. (w, Err ''none''),
      ev_validate_watchlist = \<lambda>w _ _. (w, Ok 0), ev_poll_batch = \<lambda>w _ _ _ _. (w, Ok []),
      ev_try_submit = \<lambda>w _. (w, Ok SubmitBusy), ev_try_receive = \<lambda>w. (w, Ok None),
      ev_in_flight = \<lambda>_. False, ev_snapshot_shutdown = \<lambda>w. (w, Ok ()), ev_emit = \<lambda>w _. (w, Ok ()),
      ev_output_shutdown = \<lambda>w. (w, Ok ()), ev_now = \<lambda>w. (w, Err ClockOverflow),
      ev_shanghai = \<lambda>_. None, ev_sha = \<lambda>_. []\<rparr>"

definition sample_config :: monitor_config where
  "sample_config =
     \<lparr>cf_watchlist = [\<lparr>wi_label = ''EQUITY:SH:600000'',
        wi_source = TqInstrument \<lparr>si_exchange = SourceShanghai, si_code = ''600000''\<rparr>\<rparr>],
      cf_poll_interval = 1000000000, cf_rediscover_interval = 1000000000,
      cf_discovery_timeout = 1000000000, cf_discovery_max_bytes = 4096,
      cf_loopback_limits = \<lparr>ll_connect_timeout = 1000000000,
        ll_read_timeout = 1000000000, ll_write_timeout = 1000000000,
        ll_max_request_bytes = 4096, ll_max_response_bytes = 4096\<rparr>,
      cf_rule_limits = \<lparr>max_instruments = 1, window_capacity = 8\<rparr>,
      cf_price_rule = \<lparr>pl_inner = sample_price_rule, pl_version = 1\<rparr>,
      cf_amount_rule = \<lparr>al_inner = AmountSpikeRule sample_delta_rule, al_version = 1\<rparr>,
      cf_volume_rule = \<lparr>vl_inner = \<lparr>vr_rule = sample_delta_rule, vr_unit = Lot\<rparr>, vl_version = 1\<rparr>,
      cf_snapshot_cadence_poll_cycles = 1, cf_identity_recheck_cycles = 1,
      cf_restart_budget = - 1, cf_diagnostic_poll_cycles = 0, cf_max_event_bytes = 4096,
      cf_output_queue_capacity = 8, cf_output_shutdown_timeout = 1000000000,
      cf_output_slow_consumer_policy = PolicyStop\<rparr>"

definition quiet_state :: "(unit, unit) runtime" where
  "quiet_state = (runtime_new sample_config ())\<lparr>rt_consecutive_failures := 3, rt_restart_budget := 3\<rparr>"

theorem failure_counts_witness:
  "\<exists>s'. fail_to_waiting quiet_env quiet_state TerminalDiscoveryFailed ''none'' False = (s', Ok StepStop)
     \<and> rt_lifecycle s' = LifeWaiting \<and> unat (rt_consecutive_failures s') = 4"
proof -
  obtain s' where s': "fail_to_waiting quiet_env quiet_state TerminalDiscoveryFailed ''none'' False
      = (s', Ok StepStop)"
    by (simp add: fail_to_waiting_def reset_to_waiting_def emit_def quiet_env_def quiet_state_def runtime_new_def
        saturating_add_def Let_def)
  from failure_counts [OF this] s' show ?thesis by (simp add: quiet_state_def runtime_new_def)
qed

section \<open>Endurance\<close>

text \<open>C18: A service without a restart budget and without a diagnostic limit never decides to stop,
  whatever terminals, polls and failures its environment gives it and however long it runs: only an
  error of the service itself ends it.\<close>

theorem unbounded_service_goes_on:
  assumes "cf_restart_budget config = - 1" "cf_diagnostic_poll_cycles config = 0"
  shows "snd (serve n env (runtime_new config w)) \<noteq> Ok StepStop"
proof -
  have "unbounded (runtime_new config w)" using assms by (simp add: unbounded_def runtime_new_def)
  from goes_on_serve [OF this, of n env] show ?thesis by (auto simp: goes_on_def outcome_def)
qed

theorem unbounded_service_goes_on_witness:
  "snd (serve 1000 quiet_env (runtime_new sample_config ())) \<noteq> Ok StepStop"
  by (rule unbounded_service_goes_on) (simp_all add: sample_config_def)

section \<open>Prices out of range\<close>

lemma round_mag_overflow:
  assumes q: "0 < q" and big: "2 ^ 1024 * q \<le> p"
  shows "round_mag p q 0 = inf_mag"
proof (rule antisym)
  have "real (2 ^ 1024 * q) \<le> real p" using big by (simp only: of_nat_le_iff)
  then have "2 ^ 1024 \<le> real p / real q" using q
    by (simp only: of_nat_mult of_nat_power of_nat_numeral pos_le_divide_eq [OF of_nat_0_less_iff [THEN iffD2]])
  have "real (2 ^ 52) * 2 ^ 2046 = 2 ^ 1024 * (2 ^ 1074 :: real)"
    unfolding of_nat_power of_nat_numeral power_add [symmetric] by simp
  also have "\<dots> \<le> real p / real q * 2 ^ 1074"
    by (rule mult_right_mono [OF \<open>2 ^ 1024 \<le> real p / real q\<close>]) simp
  also have "\<dots> = ulps p q 0" by (simp add: ulps_def power_int_def)
  finally have "2046 * 2 ^ 52 + 2 ^ 52 \<le> round_mag p q 0"
    by (intro round_mag_ge) (simp_all add: valid_pair_def inf_mag_def q)
  then show "inf_mag \<le> round_mag p q 0" by (simp add: inf_mag_def)
qed (rule round_mag_le_inf)

lemma decimal_magnitude_overflow:
  assumes "(2 ^ 1024 :: rat) \<le> of_nat (parse_dec (i @ f)) / 10 ^ length f"
  shows "decimal_magnitude i f 0 = inf_mag"
proof -
  have "(2 ^ 1024 * 10 ^ length f :: rat) \<le> of_nat (parse_dec (i @ f))"
    using assms by (simp only: pos_le_divide_eq zero_less_power zero_less_numeral)
  then have "(of_nat (2 ^ 1024 * 10 ^ length f) :: rat) \<le> of_nat (parse_dec (i @ f))"
    by (simp only: of_nat_mult of_nat_power of_nat_numeral)
  then have le: "2 ^ 1024 * 10 ^ length f \<le> parse_dec (i @ f)" by (simp only: of_nat_le_iff)
  show ?thesis
  proof (cases "f = []")
    case True
    then have "2 ^ 1024 * 1 \<le> parse_dec (i @ f)" using le by (simp only: list.size power_0)
    from round_mag_overflow [OF zero_less_one this] True show ?thesis by (simp add: decimal_magnitude_def)
  next
    case False
    from round_mag_overflow [OF _ le] False show ?thesis by (simp add: decimal_magnitude_def)
  qed
qed

text \<open>A canonical decimal text, with or without a fraction, of \<open>2 ^ 1024\<close> or more is parsed as
  infinity.\<close>

lemma parse_f64_overflow:
  assumes v: "is_non_negative_decimal v" and big: "2 ^ 1024 \<le> decimal_value v"
  shows "parse_f64 v = Some (f64_make False inf_mag)"
proof -
  have "(\<exists>i f. integer_ok i \<and> list_all is_ascii_digit f
      \<and> (v = i \<and> f = '''' \<or> v = i @ CHR ''.'' # f \<and> f \<noteq> ''''))"
    using v unfolding decimal_iff
  proof
    assume "integer_ok v"
    then show ?thesis by (intro exI [of _ v] exI [of _ "''''"]) simp
  qed (fastforce simp: digits_ok_def)
  then obtain i f where i: "integer_ok i" and f: "list_all is_ascii_digit f"
    and shape: "v = i \<and> f = '''' \<or> v = i @ CHR ''.'' # f \<and> f \<noteq> ''''"
    by blast
  have d: "list_all is_ascii_digit i" "i \<noteq> ''''" using i by (auto simp: integer_ok_def digits_ok_def)
  have parts: "decimal_parts v = (i, f)" using shape decimal_parts_simps no_point [OF d(1)] by auto
  obtain c cs where c: "v = c # cs" "is_ascii_digit c" using shape d by (cases i) auto
  have sign: "split_sign v = (False, v)" using c by (auto simp: split_sign_def is_ascii_digit_def)
  have word: "\<not> eq_ignore_ascii_case v t" if "t \<in> {''inf'', ''infinity'', ''nan''}" for t
    using c that by (auto simp: eq_ignore_ascii_case_def is_ascii_digit_def ascii_lower_def)
  have letters: "\<not> is_ascii_digit (CHR ''e'')" "\<not> is_ascii_digit (CHR ''E'')" by (simp_all add: is_ascii_digit_def)
  have all: "\<forall>x\<in>set v. x \<notin> {CHR ''e'', CHR ''E''}"
    using shape d(1) f letters by (auto simp: list_all_iff)
  have t: "takeWhile (\<lambda>c. c \<notin> {CHR ''e'', CHR ''E''}) v = v"
    "dropWhile (\<lambda>c. c \<notin> {CHR ''e'', CHR ''E''}) v = []"
    using all by (simp_all add: takeWhile_eq_all_conv dropWhile_eq_Nil_conv)
  have once: "(case split_once (CHR ''.'') v of Some (i, f) \<Rightarrow> (i, f) | None \<Rightarrow> (v, '''')) = (i, f)"
    using parts by (auto simp: decimal_parts_def split: option.splits)
  have "decimal_magnitude i f 0 = inf_mag"
    using big by (intro decimal_magnitude_overflow) (simp add: decimal_value_def parts)
  then have "parse_number v = Some inf_mag"
    unfolding parse_number_def t once using d f by (simp add: parse_exponent_def)
  then show ?thesis using word by (simp add: parse_f64_def sign)
qed

lemma sbind_fails:
  "no_panic r \<Longrightarrow> (\<And>x. \<exists>e. f s x = (s, Err e)) \<Longrightarrow> \<exists>e. sbind (s, r) f = (s, Err e)"
  by (cases r) auto

lemma analyze_no_price:
  assumes "ni_price inp = Some x" "\<not> is_finite x"
  shows "\<exists>e. analyze sha az inp = (az, Err e)"
proof -
  obtain c where c: "price_new x = Err c" using assms(2) by (simp add: price_new_def finite_new_def)
  show ?thesis
    unfolding analyze_def assms(1) option.case analyze_price_def c map_err.simps rbind.simps
    by (intro sbind_fails)
       (auto simp: analysis_instrument_def instrument_id_new_def analysis_evidence_def Let_def analysis_cursor_def
        stream_generation_new_def stream_sequence_new_def intro!: no_panic_rbind)
qed

text \<open>A part of a turn that writes lines and changes nothing an observation's own line shows.\<close>

definition writes :: "('w, 'v) runtime \<Rightarrow> ('w, 'v) runtime \<times> (unit, service_error) rres \<Rightarrow> bool" where
  "writes s result \<longleftrightarrow> (\<exists>s' lines. result = (s', Ok ()) \<and> rt_log s' = rt_log s @ lines
     \<and> rt_generation s' = rt_generation s)"

definition takes_every_line :: "('w, 'v) runtime_env \<Rightarrow> bool" where
  "takes_every_line env \<longleftrightarrow> (\<forall>w line. snd (ev_emit env w line) = Ok ())"

lemma writes_nothing [simp]: "writes s (s, Ok ())"
  by (simp add: writes_def)

lemma emit_taken:
  assumes "takes_every_line env"
  obtains w where "emit env s line = (s\<lparr>rt_world := w, rt_log := rt_log s @ [line]\<rparr>, Ok ())"
proof -
  obtain w where "ev_emit env (rt_world s) line = (w, Ok ())"
    using assms by (metis takes_every_line_def prod.collapse)
  then show ?thesis by (intro that) (simp add: emit_def)
qed

lemma writes_emit: "takes_every_line env \<Longrightarrow> writes s (emit env s line)"
  by (rule emit_taken [of env s line]) (simp_all add: writes_def)

lemma writes_sbind:
  assumes "writes s m" "\<And>s'. writes s' (f s' ())"
  shows "writes s (sbind m f)"
proof -
  obtain s1 l1 where 1: "m = (s1, Ok ())" "rt_log s1 = rt_log s @ l1" "rt_generation s1 = rt_generation s"
    using assms(1) by (auto simp: writes_def)
  obtain s2 l2 where "f s1 () = (s2, Ok ())" "rt_log s2 = rt_log s1 @ l2" "rt_generation s2 = rt_generation s1"
    using assms(2) [of s1] by (auto simp: writes_def)
  then show ?thesis using 1 by (simp add: writes_def)
qed

lemma writes_health:
  assumes "takes_every_line env"
  shows "writes s (report_health env s candidate watched observation)"
proof -
  have "writes s (emit env (s\<lparr>rt_lifecycle := l, rt_retry_candidate := c\<rparr>) line)" for s l c line
    using writes_emit [OF assms, of "s\<lparr>rt_lifecycle := l, rt_retry_candidate := c\<rparr>" line] by (simp add: writes_def)
  then show ?thesis unfolding report_health_def by (intro writes_sbind) (auto simp: writes_emit [OF assms])
qed

lemma accept_no_price:
  assumes t: "takes_every_line env" and p: "ov_price v = Some x" "\<not> is_finite x"
  shows "\<exists>s' e lines. accept_observation env report candidate reading s sequence watched observation v
       = (s', Err (SvAnalysis e)) \<and> rt_log s' = rt_log s @ lines @ [observation_event s watched observation v]"
proof -
  have "writes s (if ov_volume v = None
            then unavailable env s watched FamilyVolume ''Volume is missing or not representable'' else (s, Ok ()))" for s
    by (simp add: unavailable_def writes_emit [OF t])
  then obtain s1 l1 where 1: "(if ov_volume v = None
            then unavailable env s watched FamilyVolume ''Volume is missing or not representable'' else (s, Ok ()))
        = (s1, Ok ())" "rt_log s1 = rt_log s @ l1" "rt_generation s1 = rt_generation s"
    by (fastforce simp: writes_def)
  have "writes s1 (if report then report_health env s1 candidate watched observation else (s1, Ok ()))"
    by (simp add: writes_health [OF t])
  then obtain s2 l2 where 2: "(if report then report_health env s1 candidate watched observation else (s1, Ok ()))
        = (s2, Ok ())" "rt_log s2 = rt_log s1 @ l2" "rt_generation s2 = rt_generation s1"
    by (fastforce simp: writes_def)
  have line: "observation_event s2 watched observation v = observation_event s watched observation v"
    using 1(3) 2(3) by (simp add: observation_event_def)
  obtain w where 3: "emit env s2 (observation_event s2 watched observation v)
      = (s2\<lparr>rt_world := w, rt_log := rt_log s2 @ [observation_event s2 watched observation v]\<rparr>, Ok ())"
    by (rule emit_taken [OF t])
  let ?s3 = "s2\<lparr>rt_world := w, rt_log := rt_log s2 @ [observation_event s2 watched observation v]\<rparr>"
  obtain e where 4: "analyze (ev_sha env) (rt_analyzers ?s3) (observation_input ?s3 watched reading sequence v)
      = (rt_analyzers ?s3, Err e)"
    using analyze_no_price [of "observation_input ?s3 watched reading sequence v" x] p
    by (fastforce simp: observation_input_def)
  have "accept_observation env report candidate reading s sequence watched observation v
      = (?s3\<lparr>rt_analyzers := rt_analyzers ?s3\<rparr>, Err (SvAnalysis e))"
    unfolding accept_observation_def
    by (simp only: p(1) option.distinct if_False sbind.simps 1(1) 2(1) 3 run_analysis_def 4 fst_conv snd_conv map_err.simps)
  then show ?thesis using 1(2) 2(2) line by simp
qed

lemma valid_price:
  assumes "map_err validation_text (source_observation_validate observation) = Ok ()" "so_price observation = Some d"
  shows "is_non_negative_decimal (do_value d)"
proof -
  have "source_observation_validate observation = (Ok () :: (unit, unit protocol_error) rres)"
    using assms(1) by (cases "source_observation_validate observation :: (unit, unit protocol_error) rres") simp_all
  then show ?thesis
    using assms(2) by (auto simp: source_observation_validate_def res_simps validate_decimal_field_def
        decimal_validate_def split: if_splits)
qed

text \<open>C20: A poll that passes every check of the protocol and of its request, with a price whose canonical
  decimal text, with or without a fraction, is \<open>2 ^ 1024\<close> or more. The service reads the price as
  infinity and writes the observation with that price as an admitted one; then its analysis fails and
  ends the pass over the watchlist with an error of the service, whatever polls are left: the
  price is neither skipped as not representable, which is the reason the service has for a missing
  price, nor does the rest of the watchlist go on.\<close>

theorem oversized_price_stops_pass:
  assumes valid: "map_err validation_text (source_observation_validate observation) = Ok ()"
    and correlated: "so_instrument observation = source_instrument_of (wi_source watched)"
      "so_bridge_sequence observation = sequence" "so_observed_at_utc observation = cr_observed_at_utc reading"
    and schema: "so_cumulative_amount observation = None" "so_source_record_count observation = None"
      "so_source_timestamp observation = None"
    and seq: "checked_add first_sequence (of_nat index) = Some sequence"
    and price: "so_price observation = Some d" "2 ^ 1024 \<le> decimal_value (do_value d)"
    and written: "takes_every_line env"
  shows "\<exists>s' e lines volume volume_admitted.
     poll_items env pending candidate reading first_sequence index ((watched, observation) # items) first samples s
       = (s', Err (SvAnalysis e))
     \<and> rt_log s' = rt_log s @ lines @ [EvObservation (rt_generation s) (wi_label watched)
         (so_observed_at_utc observation) observation (Some (do_value d)) volume True volume_admitted
         local_terminal_amount_admitted]"
proof -
  have "is_non_negative_decimal (do_value d)" by (rule valid_price [OF valid price(1)])
  note parsed = parse_f64_overflow [OF this price(2)]
  have above: "f64_lt f64_zero (f64_make False inf_mag)"
    by (simp add: f64_lt_def f64_zero_def f64_key_def is_nan_def inf_mag_def)
  have "\<exists>v. validate_row_observation observation watched sequence (cr_observed_at_utc reading) = Ok v
      \<and> ov_price v = Some (f64_make False inf_mag) \<and> ov_price_text v = Some (do_value d)"
    unfolding validate_row_observation_def Let_def valid rbind.simps
    by (simp add: parsed above price(1) correlated schema)
  then obtain v where v: "validate_row_observation observation watched sequence (cr_observed_at_utc reading) = Ok v"
    "ov_price v = Some (f64_make False inf_mag)" "ov_price_text v = Some (do_value d)"
    by blast
  have inf: "\<not> is_finite (f64_make False inf_mag)" by (simp add: is_finite_def inf_mag_def)
  obtain s' e lines where a: "accept_observation env (first \<and> pending) candidate reading s sequence watched observation v
       = (s', Err (SvAnalysis e))" "rt_log s' = rt_log s @ lines @ [observation_event s watched observation v]"
    using accept_no_price [OF written v(2) inf, of "first \<and> pending" candidate reading s sequence watched observation]
    by (elim exE conjE)
  have "poll_items env pending candidate reading first_sequence index ((watched, observation) # items) first samples s
       = (s', Err (SvAnalysis e))"
    by (simp add: seq ok_or_def v(1) a(1))
  moreover have "observation_event s watched observation v = EvObservation (rt_generation s) (wi_label watched)
      (so_observed_at_utc observation) observation (Some (do_value d)) (ov_volume_text v) True
      (local_terminal_volume_admitted \<and> ov_volume v \<noteq> None) local_terminal_amount_admitted"
    unfolding observation_event_def v(2,3) local_terminal_price_admitted_def by simp
  ultimately show ?thesis using a(2)
    by (intro exI [of _ s'] exI [of _ e] exI [of _ lines] exI [of _ "ov_volume_text v"]
      exI [of _ "local_terminal_volume_admitted \<and> ov_volume v \<noteq> None"]) (simp only:)
qed

definition sample_candidate :: "unit candidate_evidence" where
  "sample_candidate =
     \<lparr>ce_discovery_schema_version = 1, ce_process_id = 1, ce_session_id = 1,
      ce_process_creation_time = 1, ce_executable_architecture = None, ce_executable_sha256 = None,
      ce_executable_file_version = None, ce_executable_product_version = None,
      ce_executable_version_source = None, ce_executable_version_failure = None\<rparr>"

definition priced_observation :: "string \<Rightarrow> source_observation" where
  "priced_observation price =
     \<lparr>so_protocol_version = 1, so_schema_version = 1, so_bridge_sequence = 1,
      so_instrument = \<lparr>si_exchange = SourceShanghai, si_code = ''600000''\<rparr>,
      so_observed_at_utc = ''2026-01-05T01:31:00Z'', so_source_timestamp = None,
      so_price = Some \<lparr>do_value = price, do_unit = CnyPerShare\<rparr>,
      so_cumulative_amount = None, so_cumulative_volume = None, so_source_record_count = None\<rparr>"

lemma sample_time_valid: "validate_message_text f ''2026-01-05T01:31:00Z'' = Ok ()"
  by (simp add: validate_message_text_def padded_or_control_def trim_def is_whitespace_def
      is_control_def utf8_width_def)

theorem oversized_price_stops_pass_witness:
  "\<exists>s' e. poll_items quiet_env True sample_candidate
      \<lparr>cr_arrival_millis = 0, cr_observed_at_utc = ''2026-01-05T01:31:00Z''\<rparr> 1 0
      [(hd (cf_watchlist sample_config), priced_observation (dec (2 ^ 1024) @ ''.5''))] True []
      (runtime_new sample_config ()) = (s', Err (SvAnalysis e))"
proof -
  let ?v = "dec (2 ^ 1024) @ ''.5''"
  have d: "integer_ok (dec (2 ^ 1024))" by (rule dec_integer)
  then have point: "CHR ''.'' \<notin> set (dec (2 ^ 1024))" by (simp add: integer_ok_def digits_ok_def no_point)
  have canonical: "is_non_negative_decimal ?v"
    unfolding decimal_iff using d
    by (intro disjI2 exI [of _ "dec (2 ^ 1024)"] exI [of _ "''5''"]) (simp add: digits_ok_def is_ascii_digit_def)
  have "parse_dec (dec (2 ^ 1024) @ ''5'') = 2 ^ 1024 * 10 + 5"
  proof -
    have "push 0 (dec (2 ^ 1024)) = 2 ^ 1024" using parse_dec_dec [of "2 ^ 1024"] unfolding parse_dec_push .
    moreover have "digit_val (CHR ''5'') = 5" by (simp add: digit_val_def)
    ultimately show ?thesis unfolding parse_dec_push foldl_append foldl.simps by (simp only:)
  qed
  then have "decimal_value ?v = of_nat (2 ^ 1024 * 10 + 5) / 10"
    using decimal_parts_simps(2) [OF point, of "''5''"]
    by (simp only: decimal_value_def prod.case append.simps list.size add_0 power_Suc power_0 mult_1_right)
  also have "\<dots> = 2 ^ 1024 + 5 / 10"
    by (simp only: of_nat_add of_nat_mult of_nat_power of_nat_numeral add_divide_distrib)
  finally have big: "2 ^ 1024 \<le> decimal_value ?v" by (simp only: le_add_same_cancel1)
  let ?o = "priced_observation ?v" and ?w = "hd (cf_watchlist sample_config)"
  let ?reading = "\<lparr>cr_arrival_millis = 0, cr_observed_at_utc = ''2026-01-05T01:31:00Z''\<rparr> :: clock_reading"
  have checked: "map_err validation_text (source_observation_validate ?o) = Ok ()"
    by (simp add: source_observation_validate_def priced_observation_def validate_versions_def
        bridge_protocol_version_def bridge_schema_version_def validate_bridge_sequence_def
        source_instrument_validate_def validate_decimal_field_def decimal_validate_def is_ascii_digit_def
        sample_time_valid canonical [simplified])
  have correlated: "so_instrument ?o = source_instrument_of (wi_source ?w)" "so_bridge_sequence ?o = 1"
      "so_observed_at_utc ?o = cr_observed_at_utc ?reading" "so_cumulative_amount ?o = None"
      "so_source_record_count ?o = None" "so_source_timestamp ?o = None" "checked_add 1 (of_nat 0) = Some (1 :: u64)"
    by (simp_all add: priced_observation_def sample_config_def checked_add_def)
  have price: "so_price ?o = Some \<lparr>do_value = ?v, do_unit = CnyPerShare\<rparr>"
    by (simp only: priced_observation_def source_observation.simps)
  have large: "2 ^ 1024 \<le> decimal_value (do_value \<lparr>do_value = ?v, do_unit = CnyPerShare\<rparr>)"
    by (simp only: decimal_observation.simps big)
  have "takes_every_line quiet_env" by (simp add: takes_every_line_def quiet_env_def)
  from oversized_price_stops_pass [OF checked correlated price large this]
  show ?thesis by blast
qed

end
