(* ===== verification/Agent_Process.thy ===== *)
theory Agent_Process
  imports Agent_Client Monitor_Config
begin

text \<open>
  The process of the terminal agent, \<open>magic-market-tdx-agent\<close> \<open>main.rs\<close>, \<open>config.rs\<close> and
  \<open>monitor.rs\<close>: its command line, the arguments of the monitor server it starts beside itself, the
  frames it reads from that process, and the loop that starts it again. Starting and stopping a
  process, its pipes and the files are the operating system's: their answers are arguments.
\<close>

section \<open>The command line of the agent\<close>

datatype agent_config_error =
    AgentUnknownSwitch string
  | AgentDuplicateSwitch string
  | AgentMissingValue string
  | AgentMissingSwitch string
  | MissingSecretEnvironment string
  | InvalidAgentConfig string

definition agent_switches :: "string list" where
  "agent_switches =
     [''--server-uri'', ''--auth-token-env'', ''--max-frame-bytes'', ''--queue-capacity'',
      ''--connect-timeout-ms'', ''--command-timeout-ms'', ''--heartbeat-interval-ms'',
      ''--reconnect-delay-ms'', ''--shutdown-timeout-ms'', ''--tls-domain'', ''--tls-ca'',
      ''--tls-cert'', ''--tls-key'']"

record client_tls_files =
  tf_domain :: string
  tf_ca :: string
  tf_certificate :: string
  tf_private_key :: string

text \<open>Durations in nanoseconds.\<close>

record agent_config =
  gc_server_uri :: string
  gc_auth_token :: string
  gc_max_frame_bytes :: usize
  gc_queue_capacity :: usize
  gc_connect_timeout :: nat
  gc_command_timeout :: nat
  gc_heartbeat_interval :: nat
  gc_reconnect_delay :: nat
  gc_shutdown_timeout :: nat
  gc_tls :: "client_tls_files option"

fun parse_agent_switches :: "string list \<Rightarrow> switch_values \<Rightarrow> (switch_values, agent_config_error) rres" where
  "parse_agent_switches [] values' = Ok values'"
| "parse_agent_switches [switch] values' =
     (if switch \<notin> set agent_switches then Err (AgentUnknownSwitch switch)
      else Err (AgentMissingValue switch))"
| "parse_agent_switches (switch # value # rest) values' =
     (if switch \<notin> set agent_switches then Err (AgentUnknownSwitch switch)
      else if values' switch \<noteq> None then Err (AgentDuplicateSwitch switch)
      else parse_agent_switches rest (values'(switch \<mapsto> value)))"

fun check_agent_switches :: "string list \<Rightarrow> switch_values \<Rightarrow> (unit, agent_config_error) rres" where
  "check_agent_switches [] values' = Ok ()"
| "check_agent_switches (switch # rest) values' =
     (if values' switch = None then Err (AgentMissingSwitch switch) else check_agent_switches rest values')"

definition agent_required :: "switch_values \<Rightarrow> string \<Rightarrow> (string, agent_config_error) rres" where
  "agent_required values' key = ok_or (AgentMissingSwitch key) (values' key)"

definition positive_usize :: "switch_values \<Rightarrow> string \<Rightarrow> (usize, agent_config_error) rres" where
  "positive_usize values' key =
     rbind (agent_required values' key) (\<lambda>text.
     rbind (ok_or (InvalidAgentConfig (key @ '' must be a positive integer'')) (parse_unsigned text)) (\<lambda>value.
     if value = 0 \<or> 2 ^ 32 \<le> unat value
     then Err (InvalidAgentConfig (key @ '' must be positive and no larger than u32::MAX''))
     else Ok value))"

definition positive_duration :: "switch_values \<Rightarrow> string \<Rightarrow> (nat, agent_config_error) rres" where
  "positive_duration values' key =
     rbind (agent_required values' key) (\<lambda>text.
     rbind (ok_or (InvalidAgentConfig (key @ '' must be positive milliseconds'')) (parse_unsigned text)) (\<lambda>value.
     if value = 0 then Err (InvalidAgentConfig (key @ '' must be positive milliseconds''))
     else Ok (duration_from_millis value)))"

definition starts_with :: "string \<Rightarrow> string \<Rightarrow> bool" where
  "starts_with s p \<longleftrightarrow> take (length p) s = p"

definition is_loopback_http :: "string \<Rightarrow> bool" where
  "is_loopback_http uri \<longleftrightarrow> starts_with uri ''http://127.0.0.1:'' \<or> starts_with uri ''http://[::1]:''"

definition tls_files ::
  "bool \<Rightarrow> string \<Rightarrow> string \<Rightarrow> string \<Rightarrow> string \<Rightarrow> (client_tls_files option, agent_config_error) rres" where
  "tls_files loopback domain ca certificate private_key =
     (if domain = ''-'' \<and> ca = ''-'' \<and> certificate = ''-'' \<and> private_key = ''-'' \<and> loopback then Ok None
      else if domain \<noteq> '''' \<and> domain \<noteq> ''-'' \<and> ca \<noteq> ''-'' \<and> certificate \<noteq> ''-'' \<and> private_key \<noteq> ''-''
      then Ok (Some \<lparr>tf_domain = domain, tf_ca = ca, tf_certificate = certificate,
                     tf_private_key = private_key\<rparr>)
      else Err (InvalidAgentConfig (''HTTPS requires --tls-domain, --tls-ca, --tls-cert and --tls-key; loopback HTTP requires ''
             @ [CHR 0x27, CHR ''-'', CHR 0x27] @ '' for all four'')))"

text \<open>\<open>env\<close> reads a variable of the environment.\<close>

definition agent_config_parse ::
  "(string \<Rightarrow> string option) \<Rightarrow> string list \<Rightarrow> (agent_config, agent_config_error) rres" where
  "agent_config_parse env arguments =
     rbind (parse_agent_switches (drop 1 arguments) (\<lambda>_. None)) (\<lambda>s.
     rbind (check_agent_switches agent_switches s) (\<lambda>_.
     rbind (agent_required s ''--server-uri'') (\<lambda>server_uri.
     if \<not> starts_with server_uri ''https://'' \<and> \<not> is_loopback_http server_uri
     then Err (InvalidAgentConfig ''server URI must use HTTPS, except for an exact loopback HTTP address'')
     else
       rbind (agent_required s ''--auth-token-env'') (\<lambda>token_environment.
       rbind (ok_or (MissingSecretEnvironment token_environment) (env token_environment)) (\<lambda>auth_token.
       if auth_token = '''' \<or> list_ex is_whitespace (chars_of auth_token)
       then Err (InvalidAgentConfig ''authentication token must be non-empty and contain no whitespace'')
       else
         rbind (agent_required s ''--tls-domain'') (\<lambda>domain.
         rbind (agent_required s ''--tls-ca'') (\<lambda>ca.
         rbind (agent_required s ''--tls-cert'') (\<lambda>certificate.
         rbind (agent_required s ''--tls-key'') (\<lambda>private_key.
         rbind (tls_files (is_loopback_http server_uri) domain ca certificate private_key) (\<lambda>tls.
         rbind (positive_usize s ''--max-frame-bytes'') (\<lambda>max_frame_bytes.
         rbind (positive_usize s ''--queue-capacity'') (\<lambda>queue_capacity.
         rbind (positive_duration s ''--connect-timeout-ms'') (\<lambda>connect_timeout.
         rbind (positive_duration s ''--command-timeout-ms'') (\<lambda>command_timeout.
         rbind (positive_duration s ''--heartbeat-interval-ms'') (\<lambda>heartbeat_interval.
         rbind (positive_duration s ''--reconnect-delay-ms'') (\<lambda>reconnect_delay.
         rbind (positive_duration s ''--shutdown-timeout-ms'') (\<lambda>shutdown_timeout.
         Ok \<lparr>gc_server_uri = server_uri, gc_auth_token = auth_token,
             gc_max_frame_bytes = max_frame_bytes, gc_queue_capacity = queue_capacity,
             gc_connect_timeout = connect_timeout, gc_command_timeout = command_timeout,
             gc_heartbeat_interval = heartbeat_interval, gc_reconnect_delay = reconnect_delay,
             gc_shutdown_timeout = shutdown_timeout, gc_tls = tls\<rparr>)))))))))))))))))"

section \<open>The arguments of the monitor\<close>

text \<open>The variants of the errors of processes and paths, and the path of the executable in the
  template, are left out with the calls of the operating system.\<close>

datatype monitor_process_error =
    MonArgumentFile
  | MonArgumentJson
  | MonInvalidArguments string
  | MonRead io_error
  | MonFrameTooLarge
  | MonFrameJson
  | MonFrameConsumerStopped

record monitor_template =
  mt_arguments :: "string list"
  mt_initial_watchlist :: "string list"
  mt_maximum_watchlist_instruments :: u32

text \<open>The loop over pairs of arguments, with the value found so far; a single argument left over
  is not looked at.\<close>

fun find_argument ::
  "string list \<Rightarrow> string \<Rightarrow> string option \<Rightarrow> (string option, monitor_process_error) rres" where
  "find_argument (name # value # rest) switch found =
     (if name = switch
      then (if found \<noteq> None then Err (MonInvalidArguments (''duplicate monitor argument '' @ switch))
            else find_argument rest switch (Some value))
      else find_argument rest switch found)"
| "find_argument _ switch found = Ok found"

definition argument_value :: "string list \<Rightarrow> string \<Rightarrow> (string, monitor_process_error) rres" where
  "argument_value arguments switch =
     rbind (find_argument arguments switch None)
       (ok_or (MonInvalidArguments (''missing monitor argument '' @ switch)))"

fun find_argument_index ::
  "string list \<Rightarrow> string \<Rightarrow> nat \<Rightarrow> nat option \<Rightarrow> (nat option, monitor_process_error) rres" where
  "find_argument_index (name # value # rest) switch index found =
     (if name = switch
      then (if found \<noteq> None then Err (MonInvalidArguments (''duplicate monitor argument '' @ switch))
            else find_argument_index rest switch (index + 1) (Some (index * 2 + 1)))
      else find_argument_index rest switch (index + 1) found)"
| "find_argument_index _ switch index found = Ok found"

definition replace_argument_value ::
  "string list \<Rightarrow> string \<Rightarrow> string \<Rightarrow> (string list, monitor_process_error) rres" where
  "replace_argument_value arguments switch value =
     rbind (find_argument_index arguments switch 0 None) (\<lambda>found.
     rbind (ok_or (MonInvalidArguments (''missing monitor argument '' @ switch)) found) (\<lambda>index.
     Ok (arguments[index := value])))"

text \<open>\<open>file_size\<close> is what the metadata of the file say, \<open>content\<close> what reading it gives.\<close>

definition read_arguments ::
  "(u8 list \<Rightarrow> string list option) \<Rightarrow> nat option \<Rightarrow> u8 list option
     \<Rightarrow> (string list, monitor_process_error) rres" where
  "read_arguments from_json file_size content =
     rbind (ok_or MonArgumentFile file_size) (\<lambda>file_size.
     if file_size = 0 \<or> 65536 < file_size
     then Err (MonInvalidArguments ''monitor argument file must contain 1..=65536 bytes'')
     else
       rbind (ok_or MonArgumentFile content) (\<lambda>bytes.
       rbind (ok_or MonArgumentJson (from_json bytes)) (\<lambda>arguments.
       if arguments = [] \<or> list_ex (\<lambda>value. value = '''' \<or> CHR 0x00 \<in> set value) arguments
       then Err (MonInvalidArguments ''monitor arguments must be a non-empty array of non-empty strings'')
       else Ok arguments)))"

definition template_of_arguments :: "string list \<Rightarrow> (monitor_template, monitor_process_error) rres" where
  "template_of_arguments arguments =
     (if length arguments mod 2 \<noteq> 0
      then Err (MonInvalidArguments ''monitor arguments must be switch/value pairs'')
      else
        rbind (argument_value arguments ''--watchlist'') (\<lambda>watchlist_value.
        rbind (argument_value arguments ''--max-instruments'') (\<lambda>maximum_text.
        rbind (ok_or (MonInvalidArguments ''--max-instruments must be a positive u32'')
                 (parse_unsigned maximum_text)) (\<lambda>maximum.
        let initial_watchlist = split_on (CHR '','') watchlist_value in
        rbind (map_err (\<lambda>x. MonInvalidArguments (watchlist_error_display x))
                 (validate_monitor_watchlist initial_watchlist (ucast maximum))) (\<lambda>_.
        Ok \<lparr>mt_arguments = arguments, mt_initial_watchlist = initial_watchlist,
            mt_maximum_watchlist_instruments = maximum\<rparr>)))))"

text \<open>\<open>join\<close> with a comma.\<close>

fun join_commas :: "string list \<Rightarrow> string" where
  "join_commas [] = []"
| "join_commas [x] = x"
| "join_commas (x # xs) = x @ CHR '','' # join_commas xs"

text \<open>The arguments the monitor is started with.\<close>

definition template_spawn ::
  "monitor_template \<Rightarrow> string list \<Rightarrow> (string list, monitor_process_error) rres" where
  "template_spawn template watchlist =
     rbind (map_err (\<lambda>x. MonInvalidArguments (watchlist_error_display x))
              (validate_monitor_watchlist watchlist
                 (ucast (mt_maximum_watchlist_instruments template)))) (\<lambda>_.
     replace_argument_value (mt_arguments template) ''--watchlist'' (join_commas watchlist))"

section \<open>The frames of the monitor\<close>

text \<open>At most \<open>n\<close> turns of the loop; \<open>None\<close> means that more are needed. \<open>json\<close> decides a JSON
  document, \<open>send\<close> is the bounded channel, which may have lost its receiver.\<close>

fun read_frames ::
  "nat \<Rightarrow> 'r reader \<Rightarrow> (u8 list \<Rightarrow> bool) \<Rightarrow> ('q \<Rightarrow> u8 list \<Rightarrow> 'q \<times> bool) \<Rightarrow> usize \<Rightarrow> 'r \<Rightarrow> 'q
     \<Rightarrow> ('r \<times> 'q \<times> (unit, monitor_process_error) rres) option" where
  "read_frames 0 rd json send maximum s q = None"
| "read_frames (Suc n) rd json send maximum s q =
     (case rd_read_exact rd s 4 of
        (s, Err e) \<Rightarrow> Some (s, q, if e = UnexpectedEof then Ok () else Err (MonRead e))
      | (s, Panic p) \<Rightarrow> Some (s, q, Panic p)
      | (s, Ok prefix) \<Rightarrow>
          let frame_length = be_value prefix in
          if frame_length = 0 \<or> unat maximum < frame_length then Some (s, q, Err MonFrameTooLarge)
          else
            (case rd_read_exact rd s frame_length of
               (s, Err e) \<Rightarrow> Some (s, q, Err (MonRead e))
             | (s, Panic p) \<Rightarrow> Some (s, q, Panic p)
             | (s, Ok frame) \<Rightarrow>
                 if \<not> json frame then Some (s, q, Err MonFrameJson)
                 else
                   (case send q frame of
                      (q, sent) \<Rightarrow>
                        if \<not> sent then Some (s, q, Err MonFrameConsumerStopped)
                        else read_frames n rd json send maximum s q)))"

section \<open>Generations and the loop of the agent\<close>

text \<open>\<open>since_epoch\<close> is the clock's reading in nanoseconds, if it is not before the epoch.\<close>

definition generation_text :: "u128 \<Rightarrow> string" where
  "generation_text nanos =
     hex_pad 8 (unat (ucast (drop_bit 96 nanos) :: u32)) @ ''-''
     @ hex_pad 4 (unat (ucast (drop_bit 80 nanos AND 0xffff) :: u16)) @ ''-4''
     @ hex_pad 3 (unat (ucast (drop_bit 68 nanos AND 0x0fff) :: u16)) @ ''-8''
     @ hex_pad 3 (unat (ucast (drop_bit 52 nanos AND 0x0fff) :: u16)) @ ''-''
     @ hex_pad 12 (unat (nanos AND 0x0000ffffffffffff))"

definition new_generation :: "u128 option \<Rightarrow> u32 \<Rightarrow> string option" where
  "new_generation since_epoch process_id =
     map_option (\<lambda>nanos. generation_text (nanos XOR push_bit 96 (ucast process_id))) since_epoch"

record agent_process =
  ap_watchlist_revision :: u64
  ap_watchlist :: "string list"

text \<open>\<open>ProcessRespawn\<close> says whether the reconnect delay comes first.\<close>

datatype process_next = ProcessRespawn bool | ProcessEnds | ProcessFails client_error

definition agent_process_start :: "monitor_template \<Rightarrow> agent_process" where
  "agent_process_start template =
     \<lparr>ap_watchlist_revision = 0, ap_watchlist = mt_initial_watchlist template\<rparr>"

text \<open>The start of a turn: the arguments of the monitor and the client that forwards its frames.\<close>

definition agent_process_launch ::
  "monitor_template \<Rightarrow> (unit, client_error) rres \<Rightarrow> string \<Rightarrow> agent_process
     \<Rightarrow> (string list \<times> (agent_client, client_error) rres, monitor_process_error) rres" where
  "agent_process_launch template transport generation p =
     rbind (template_spawn template (ap_watchlist p)) (\<lambda>arguments.
     Ok (arguments, agent_client_new transport generation (ap_watchlist_revision p) (ap_watchlist p)
                      (mt_maximum_watchlist_instruments template)))"

text \<open>The end of a turn: \<open>outcome\<close> is what forwarding gave, and \<open>None\<close> an interrupt.\<close>

definition agent_process_turn ::
  "agent_process \<Rightarrow> forward_outcome option \<Rightarrow> agent_process \<times> process_next" where
  "agent_process_turn p outcome =
     (case outcome of
        None \<Rightarrow> (p, ProcessEnds)
      | Some ForwardFramesComplete \<Rightarrow> (p, ProcessRespawn True)
      | Some (ForwardReconfigure c) \<Rightarrow>
          (p\<lparr>ap_watchlist_revision := cw_revision c, ap_watchlist := cw_instruments c\<rparr>, ProcessRespawn False)
      | Some (ForwardRestartMonitor _) \<Rightarrow> (p, ProcessRespawn True)
      | Some (ForwardFailed e) \<Rightarrow> (p, ProcessFails e))"

end
