(* ===== verification/Sample_Arguments.thy ===== *)
theory Sample_Arguments
  imports Agent_Process Sample_Inputs
begin

text \<open>
  The arguments of a monitor of two instruments, the ones of the tests of \<open>config.rs\<close> with an
  amount window of two seconds, and the configuration they parse to.
\<close>

definition sample_pairs :: "string \<Rightarrow> string \<Rightarrow> (string \<times> string) list" where
  "sample_pairs watchlist amount_window =
     [(''--watchlist'', watchlist), (''--max-instruments'', ''2''), (''--poll-interval-ms'', ''100''),
      (''--rediscover-interval-ms'', ''200''), (''--discovery-timeout-ms'', ''300''),
      (''--discovery-max-bytes'', ''4096''), (''--connect-timeout-ms'', ''50''),
      (''--read-timeout-ms'', ''50''), (''--write-timeout-ms'', ''50''),
      (''--max-request-bytes'', ''1024''), (''--max-response-bytes'', ''4096''),
      (''--window-capacity'', ''16''), (''--price-rule-version'', ''1''), (''--price-window-ms'', ''1000''),
      (''--price-boundary-tolerance-ms'', ''100''), (''--price-trigger-ratio'', ''0.05''),
      (''--price-rearm-ratio'', ''0.01''), (''--price-cooldown-ms'', ''500''),
      (''--amount-rule-version'', ''1''), (''--amount-window-ms'', amount_window),
      (''--amount-boundary-tolerance-ms'', ''100''), (''--amount-trigger-cny'', ''10000''),
      (''--amount-rearm-cny'', ''1000''), (''--amount-cooldown-ms'', ''500''),
      (''--snapshot-cadence-poll-cycles'', ''1''), (''--identity-recheck-cycles'', ''10''),
      (''--volume-rule-version'', ''1''), (''--volume-window-ms'', ''1000''),
      (''--volume-boundary-tolerance-ms'', ''100''), (''--volume-trigger-delta'', ''1000''),
      (''--volume-rearm-delta'', ''100''), (''--volume-cooldown-ms'', ''500''),
      (''--restart-budget'', ''3''), (''--diagnostic-poll-cycles'', ''0''),
      (''--max-event-bytes'', ''8192''), (''--output-queue-capacity'', ''16''),
      (''--output-shutdown-timeout-ms'', ''100''), (''--output-slow-consumer-policy'', ''stop'')]"

definition arguments_of :: "(string \<times> string) list \<Rightarrow> string list" where
  "arguments_of ps = concat (map (\<lambda>(k, v). [k, v]) ps)"

lemma parse_switches_pairs:
  "distinct (map fst ps) \<Longrightarrow>
     list_all (\<lambda>k. k \<in> set monitor_switches \<and> take 2 k = ''--'' \<and> m k = None) (map fst ps) \<Longrightarrow>
     parse_switches (arguments_of ps) m = Ok (m ++ map_of ps)"
proof (induction ps arbitrary: m)
  case (Cons p ps)
  obtain k v where p: "p = (k, v)" by (cases p)
  have "parse_switches (arguments_of ps) (m(k \<mapsto> v)) = Ok (m(k \<mapsto> v) ++ map_of ps)"
    using Cons.prems p by (intro Cons.IH) (auto simp: list_all_iff)
  moreover have "m(k \<mapsto> v) ++ map_of ps = m ++ map_of (p # ps)"
    using Cons.prems p by (simp add: map_add_upd_left domIff map_of_eq_None_iff)
  ultimately have "parse_switches (arguments_of ps) (m(k \<mapsto> v)) = Ok (m ++ map_of (p # ps))" by simp
  then show ?case using Cons.prems p by (simp add: arguments_of_def del: map_of.simps)
qed (simp add: arguments_of_def)

lemmas number_eval = parse_f64_def split_sign_def parse_number_def split_once_def parse_exponent_def
  decimal_magnitude_def parse_dec_def digit_val_def is_ascii_digit_def eq_ignore_ascii_case_def ascii_lower_def

lemma sample_ratios:
  "parse_f64 ''0.05'' = Some lit_twentieth" "parse_f64 ''0.01'' = Some lit_hundredth"
  "parse_f64 ''10000'' = Some (F64 4666723172467343360)"
  "parse_f64 ''1000'' = Some (F64 4652007308841189376)" "parse_f64 ''100'' = Some (F64 4636737291354636288)"
  by (simp_all add: number_eval f64_eval cong: let_weak_cong split del: if_split)

lemmas rule_eval = price_rule_new_def price_change_rule_new_def amount_rule_new_def money_new_def quantity_new_def
  finite_new_def amount_spike_rule_new_def delta_rule_new_def volume_rule_new_def volume_spike_rule_new_def
  rule_limits_new_def monitor_limits_new_def loopback_limits_new_def

lemma sample_keys:
  "distinct (map fst (sample_pairs w a))"
  "list_all (\<lambda>k. k \<in> set monitor_switches \<and> take 2 k = ''--'' \<and> Map.empty k = None)
     (map fst (sample_pairs w a))"
  by (simp_all add: sample_pairs_def monitor_switches_def)

definition sample_monitor_config :: "watch_instrument list \<Rightarrow> monitor_config" where
  "sample_monitor_config watchlist =
     \<lparr>cf_watchlist = watchlist, cf_poll_interval = 100000000, cf_rediscover_interval = 200000000,
      cf_discovery_timeout = 300000000, cf_discovery_max_bytes = 4096,
      cf_loopback_limits = \<lparr>ll_connect_timeout = 50000000, ll_read_timeout = 50000000,
        ll_write_timeout = 50000000, ll_max_request_bytes = 1024, ll_max_response_bytes = 4096\<rparr>,
      cf_rule_limits = \<lparr>max_instruments = 2, window_capacity = 16\<rparr>,
      cf_price_rule = \<lparr>pl_inner = \<lparr>pr_window_millis = 1000, pr_boundary_tolerance_millis = 100,
        pr_trigger_ratio = lit_twentieth, pr_rearm_ratio = lit_hundredth, pr_cooldown_millis = 500\<rparr>,
        pl_version = 1\<rparr>,
      cf_amount_rule = \<lparr>al_inner = AmountSpikeRule \<lparr>dr_version = 1, dr_window_millis = 2000,
        dr_boundary_tolerance_millis = 100, dr_trigger_delta = F64 4666723172467343360,
        dr_rearm_delta = F64 4652007308841189376, dr_cooldown_millis = 500\<rparr>, al_version = 1\<rparr>,
      cf_volume_rule = \<lparr>vl_inner = \<lparr>vr_rule = \<lparr>dr_version = 1, dr_window_millis = 1000,
        dr_boundary_tolerance_millis = 100, dr_trigger_delta = F64 4652007308841189376,
        dr_rearm_delta = F64 4636737291354636288, dr_cooldown_millis = 500\<rparr>, vr_unit = Lot\<rparr>,
        vl_version = 1\<rparr>,
      cf_snapshot_cadence_poll_cycles = 1, cf_identity_recheck_cycles = 10, cf_restart_budget = 3,
      cf_diagnostic_poll_cycles = 0, cf_max_event_bytes = 8192, cf_output_queue_capacity = 16,
      cf_output_shutdown_timeout = 100000000, cf_output_slow_consumer_policy = PolicyStop\<rparr>"

lemmas switch_eval = sample_pairs_def required_def required_u64_def required_u32_def required_u16_def
  required_usize_def required_duration_def required_f64_def sample_ratios
  parse_unsigned_def parse_dec_def digit_val_def is_ascii_digit_def duration_from_millis_def ok_or_def

lemma sample_rules:
  "price_rule_new 1 1000 100 lit_twentieth lit_hundredth 500
     = Ok (cf_price_rule (sample_monitor_config ws))"
  "amount_rule_new 1 2000 100 (F64 4666723172467343360) (F64 4652007308841189376) 500
     = Ok (cf_amount_rule (sample_monitor_config ws))"
  "volume_rule_new 1 1000 100 (F64 4652007308841189376) (F64 4636737291354636288) 500
     = Ok (cf_volume_rule (sample_monitor_config ws))"
  by (simp_all add: rule_eval f64_eval sample_monitor_config_def)

lemma sample_switch_values:
  fixes w :: string
  defines "s \<equiv> map_of (sample_pairs w ''2000'')"
  shows "required_u16 s ''--max-instruments'' 1 = Ok 2"
    "required s ''--watchlist'' = Ok w"
    "required_duration s ''--poll-interval-ms'' = Ok 100000000"
    "required_duration s ''--rediscover-interval-ms'' = Ok 200000000"
    "required_duration s ''--discovery-timeout-ms'' = Ok 300000000"
    "required_usize s ''--discovery-max-bytes'' 1 = Ok 4096"
    "required_duration s ''--connect-timeout-ms'' = Ok 50000000"
    "required_duration s ''--read-timeout-ms'' = Ok 50000000"
    "required_duration s ''--write-timeout-ms'' = Ok 50000000"
    "required_usize s ''--max-request-bytes'' 1 = Ok 1024"
    "required_usize s ''--max-response-bytes'' 1 = Ok 4096"
    "required_u16 s ''--window-capacity'' 2 = Ok 16"
    "required_u64 s ''--price-window-ms'' 1 = Ok 1000"
    "required_u64 s ''--price-boundary-tolerance-ms'' 0 = Ok 100"
    "required_u32 s ''--price-rule-version'' 1 = Ok 1"
    "required_f64 s ''--price-trigger-ratio'' = Ok lit_twentieth"
    "required_f64 s ''--price-rearm-ratio'' = Ok lit_hundredth"
    "required_u64 s ''--price-cooldown-ms'' 0 = Ok 500"
    "required_u64 s ''--amount-window-ms'' 1 = Ok 2000"
    "required_u64 s ''--amount-boundary-tolerance-ms'' 0 = Ok 100"
    "required_u32 s ''--amount-rule-version'' 1 = Ok 1"
    "required_f64 s ''--amount-trigger-cny'' = Ok (F64 4666723172467343360)"
    "required_f64 s ''--amount-rearm-cny'' = Ok (F64 4652007308841189376)"
    "required_u64 s ''--amount-cooldown-ms'' 0 = Ok 500"
    "required_u64 s ''--volume-window-ms'' 1 = Ok 1000"
    "required_u64 s ''--volume-boundary-tolerance-ms'' 0 = Ok 100"
    "required_u32 s ''--volume-rule-version'' 1 = Ok 1"
    "required_f64 s ''--volume-trigger-delta'' = Ok (F64 4652007308841189376)"
    "required_f64 s ''--volume-rearm-delta'' = Ok (F64 4636737291354636288)"
    "required_u64 s ''--volume-cooldown-ms'' 0 = Ok 500"
    "required_u64 s ''--snapshot-cadence-poll-cycles'' 1 = Ok 1"
    "required_u64 s ''--identity-recheck-cycles'' 1 = Ok 10"
    "required_u32 s ''--restart-budget'' 0 = Ok 3"
    "required_u64 s ''--diagnostic-poll-cycles'' 0 = Ok 0"
    "required_usize s ''--max-event-bytes'' 1 = Ok 8192"
    "required_usize s ''--output-queue-capacity'' 1 = Ok 16"
    "required_duration s ''--output-shutdown-timeout-ms'' = Ok 100000000"
    "required s ''--output-slow-consumer-policy'' = Ok ''stop''"
  unfolding s_def
  by (simp_all add: switch_eval f64_eval)

lemma sample_arguments_parsed:
  "config_parse (arguments_of (sample_pairs w ''2000'')) =
     rbind (parse_watchlist w 2) (\<lambda>ws.
     rbind (validate_window_capacity 16 100000000 (length ws) 1 (1000, 1000) (100, 100) 2000 100)
       (\<lambda>_. Ok (sample_monitor_config ws)))"
proof -
  have even: "length (arguments_of (sample_pairs w a)) mod 2 = 0" for a
    by (simp add: arguments_of_def sample_pairs_def)
  have finite: "is_finite lit_twentieth" "is_finite lit_hundredth" "is_finite (F64 4666723172467343360)"
    "is_finite (F64 4652007308841189376)" "is_finite (F64 4636737291354636288)"
    by (simp_all add: f64_eval)
  have limits: "rule_limits_new 2 16 = Ok \<lparr>max_instruments = 2, window_capacity = 16\<rparr>"
    "loopback_limits_new 50000000 50000000 50000000 1024 4096 = Ok \<lparr>ll_connect_timeout = 50000000,
       ll_read_timeout = 50000000, ll_write_timeout = 50000000,
       ll_max_request_bytes = 1024, ll_max_response_bytes = 4096\<rparr>"
    by (simp_all add: rule_eval)
  note values' = sample_switch_values [where w = w]
  show ?thesis
    by (cases "parse_watchlist w 2")
      (simp_all add: config_parse_def even parse_switches_pairs [OF sample_keys] config_of_switches_def
        values' limits sample_rules [where ws = "[]"] sample_monitor_config_def)
qed

end
