(* ===== verification/Agent_Process_Properties.thy ===== *)
theory Agent_Process_Properties
  imports Sample_Arguments Exact_Decimal Terminal_Properties Monitor_Output
begin

text \<open>
  The agent and the monitor it starts: the watchlist reaches the monitor as the hub gave it, the
  configuration of a monitor that is started again, the frames that come through the pipe, and the
  generations.
\<close>

section \<open>The watchlist on the command line\<close>

lemma split_join_commas:
  "xs \<noteq> [] \<Longrightarrow> \<forall>x\<in>set xs. CHR '','' \<notin> set x \<Longrightarrow> split_on (CHR '','') (join_commas xs) = xs"
  by (induction xs rule: join_commas.induct) (simp_all add: split_on_append)

lemma valid_instrument_iff:
  "valid_instrument x \<longleftrightarrow> (\<exists>exchange code. x = ''EQUITY:'' @ exchange @ '':'' @ code
     \<and> exchange \<in> {''SH'', ''SZ'', ''BJ''} \<and> length code = 6 \<and> list_all is_ascii_digit code)"
  (is "?l \<longleftrightarrow> ?r")
proof
  assume ?l
  then obtain a e c where s: "split_on (CHR '':'') x = [a, e, c]" "a = ''EQUITY''" "e \<in> {''SH'', ''SZ'', ''BJ''}"
      "length c = 6" "list_all is_ascii_digit c"
    by (auto simp: valid_instrument_def split: list.splits)
  obtain r where r: "x = a @ CHR '':'' # r" "split_on (CHR '':'') r = [e, c]"
    using split_on_concat [of "CHR '':''" x] s(1) by auto
  obtain r' where r': "r = e @ CHR '':'' # r'" "split_on (CHR '':'') r' = [c]"
    using split_on_concat [of "CHR '':''" r] r(2) by auto
  have "r' = c" using split_on_concat [of "CHR '':''" r'] r'(2) by auto
  with r(1) r'(1) s show ?r by auto
next
  assume ?r
  then obtain e c where x: "x = ''EQUITY'' @ CHR '':'' # e @ CHR '':'' # c" and e: "e \<in> {''SH'', ''SZ'', ''BJ''}"
      and c: "length c = 6" "list_all is_ascii_digit c" by auto
  have n: "CHR '':'' \<notin> set c" using c(2) by (auto simp: list_all_iff is_ascii_digit_def)
  have "CHR '':'' \<notin> set e" using e by auto
  then have "split_on (CHR '':'') x = [''EQUITY'', e, c]"
    by (simp add: x split_on_append split_on_none [OF n] del: append.simps)
  with e c show ?l by (simp add: valid_instrument_def)
qed

lemma valid_instrument_text:
  assumes "valid_instrument x" shows "printable x" "CHR '','' \<notin> set x"
proof -
  obtain e c where x: "x = ''EQUITY:'' @ e @ '':'' @ c" "e \<in> {''SH'', ''SZ'', ''BJ''}" "list_all is_ascii_digit c"
    using assms by (auto simp: valid_instrument_iff)
  have c: "list_all (\<lambda>c. 33 \<le> byte_of c \<and> byte_of c < (127 :: nat)) c"
    using x(3) by (auto simp: list_all_iff is_ascii_digit_def)
  show "printable x" using x(2) c by (auto simp: x(1) printable_def)
  show "CHR '','' \<notin> set x" using x(2,3) by (auto simp: x(1) list_all_iff is_ascii_digit_def)
qed

lemma join_commas_printable:
  "xs \<noteq> [] \<Longrightarrow> \<forall>x\<in>set xs. printable x \<Longrightarrow> printable (join_commas xs)"
  by (induction xs rule: join_commas.induct) (auto simp: printable_def)

lemma parse_watch_item_valid:
  assumes "valid_instrument x" "x \<notin> set seen"
  shows "\<exists>i. parse_watch_item x seen = Ok i \<and> wi_label i = x"
proof -
  obtain e c where s: "split_on (CHR '':'') x = [''EQUITY'', e, c]" "e \<in> {''SH'', ''SZ'', ''BJ''}"
      "length c = 6" "list_all is_ascii_digit c"
    using assms(1) by (auto simp: valid_instrument_def split: list.splits)
  then show ?thesis using assms(2) by (auto simp: parse_watch_item_def tq_instrument_new_def ok_or_def)
qed

lemma parse_watch_items_valid:
  assumes "\<forall>x\<in>set xs. valid_instrument x" "distinct (map wi_label acc @ xs)"
    "length acc + length xs \<le> unat maximum"
  shows "\<exists>ws. parse_watch_items xs maximum acc = Ok (acc @ ws) \<and> map wi_label ws = xs"
  using assms
proof (induction xs arbitrary: acc)
  case (Cons x xs)
  obtain i where i: "parse_watch_item x (map wi_label acc) = Ok i" "wi_label i = x"
    using parse_watch_item_valid [of x "map wi_label acc"] Cons.prems by auto
  obtain ws where "parse_watch_items xs maximum (acc @ [i]) = Ok ((acc @ [i]) @ ws)" "map wi_label ws = xs"
    using Cons.IH [of "acc @ [i]"] Cons.prems i(2) by auto
  then show ?case using i Cons.prems by (intro exI [of _ "i # ws"]) simp
qed simp

lemma parse_watchlist_joined:
  assumes "watchlist_ok xs" "length xs \<le> unat maximum"
  shows "\<exists>ws. parse_watchlist (join_commas xs) maximum = Ok ws \<and> map wi_label ws = xs"
proof -
  have v: "\<forall>x\<in>set xs. valid_instrument x" and xs: "xs \<noteq> []" "distinct xs"
    using assms(1) by (auto simp: watchlist_ok_def)
  have p: "printable (join_commas xs)"
    using valid_instrument_text(1) v xs(1) by (intro join_commas_printable) auto
  have s: "split_on (CHR '','') (join_commas xs) = xs"
    using valid_instrument_text(2) v xs(1) by (intro split_join_commas) auto
  have "join_commas xs \<noteq> ''''" using p by (simp add: printable_def)
  then show ?thesis
    using parse_watch_items_valid [OF v, of "[]" maximum] xs(2) assms(2) printable_text(1) [OF p]
    by (simp add: parse_watchlist_def s)
qed

text \<open>What comes out of the parser is what went in.\<close>

lemma parse_watch_item_label: "parse_watch_item x seen = Ok i \<Longrightarrow> wi_label i = x \<and> x \<notin> set seen"
  by (auto simp: parse_watch_item_def res_simps split: list.splits if_splits)

lemma parse_watch_items_labels:
  "parse_watch_items xs maximum acc = Ok ws \<Longrightarrow> distinct (map wi_label acc) \<Longrightarrow>
     map wi_label ws = map wi_label acc @ xs \<and> distinct (map wi_label ws)
     \<and> (xs \<noteq> [] \<longrightarrow> length ws \<le> unat maximum)"
proof (induction xs arbitrary: acc)
  case (Cons x xs)
  then obtain i where i: "parse_watch_item x (map wi_label acc) = Ok i" "length acc + 1 \<le> unat maximum"
      "parse_watch_items xs maximum (acc @ [i]) = Ok ws"
    by (auto simp: res_simps split: if_splits)
  have l: "wi_label i = x" "x \<notin> set (map wi_label acc)" using parse_watch_item_label [OF i(1)] by auto
  have d: "distinct (map wi_label (acc @ [i]))" using l Cons.prems(2) by simp
  have ih: "map wi_label ws = map wi_label (acc @ [i]) @ xs" "distinct (map wi_label ws)"
      "xs \<noteq> [] \<Longrightarrow> length ws \<le> unat maximum"
    using Cons.IH [OF i(3) d] by blast+
  have "length ws = length acc + 1 + length xs" using arg_cong [OF ih(1), of length] by simp
  then have "length ws \<le> unat maximum" using ih(3) i(2) by (cases xs) simp_all
  moreover have "map wi_label ws = map wi_label acc @ x # xs" using ih(1) l(1) by simp
  ultimately show ?case using ih(2) by blast
qed simp

section \<open>The configuration of a monitor that is started again\<close>

lemma parse_switches_Cons:
  "parse_switches (switch # v # rest) m = Ok m' \<longleftrightarrow>
     take 2 switch = ''--'' \<and> switch \<in> set monitor_switches \<and> m switch = None
     \<and> parse_switches rest (m(switch \<mapsto> v)) = Ok m'"
  by auto

lemma parse_switches_extends:
  "parse_switches xs m = Ok m' \<Longrightarrow> m k = Some v \<Longrightarrow> m' k = Some v"
proof (induction xs m rule: parse_switches.induct)
  case (1 switch w rest m)
  then have p: "take 2 switch = ''--''" "switch \<in> set monitor_switches" "m switch = None"
      "parse_switches rest (m(switch \<mapsto> w)) = Ok m'" by (simp_all only: parse_switches_Cons)
  show ?case by (rule "1.IH") (use p "1.prems"(2) in \<open>auto simp: fun_upd_def\<close>)
qed auto

lemma parse_switches_value:
  "parse_switches xs m = Ok m' \<Longrightarrow> 2 * j + 1 < length xs \<Longrightarrow> m' (xs ! (2 * j)) = Some (xs ! (2 * j + 1))"
proof (induction xs m arbitrary: j rule: parse_switches.induct)
  case (1 switch v rest m)
  then have p: "take 2 switch = ''--''" "switch \<in> set monitor_switches" "m switch = None"
      "parse_switches rest (m(switch \<mapsto> v)) = Ok m'" by (simp_all only: parse_switches_Cons)
  show ?case
  proof (cases j)
    case 0
    then show ?thesis using parse_switches_extends [OF p(4), of switch v] by simp
  next
    case (Suc i)
    have "m' (rest ! (2 * i)) = Some (rest ! (2 * i + 1))"
      by (rule "1.IH") (use p "1.prems"(2) Suc in \<open>auto simp: fun_upd_def\<close>)
    then show ?thesis using Suc by simp
  qed
qed auto

lemma parse_switches_fresh:
  "parse_switches xs m = Ok m' \<Longrightarrow> 2 * j + 1 < length xs \<Longrightarrow> m (xs ! (2 * j)) = None"
proof (induction xs m arbitrary: j rule: parse_switches.induct)
  case (1 switch v rest m)
  then have p: "take 2 switch = ''--''" "switch \<in> set monitor_switches" "m switch = None"
      "parse_switches rest (m(switch \<mapsto> v)) = Ok m'" by (simp_all only: parse_switches_Cons)
  show ?case
  proof (cases j)
    case 0
    then show ?thesis using p(3) by simp
  next
    case (Suc i)
    have "(m(switch \<mapsto> v)) (rest ! (2 * i)) = None"
      by (rule "1.IH") (use p "1.prems"(2) Suc in \<open>auto simp: fun_upd_def\<close>)
    then show ?thesis using Suc by (simp split: if_splits)
  qed
qed auto

lemma find_argument_index_pair:
  "find_argument_index xs switch k found = Ok (Some i) \<Longrightarrow>
     found = Some i \<or> (\<exists>j. i = 2 * (k + j) + 1 \<and> 2 * j + 1 < length xs \<and> xs ! (2 * j) = switch)"
proof (induction xs switch k found rule: find_argument_index.induct)
  case (1 name v rest switch k found)
  have later: ?case if "found' = found \<or> name = switch \<and> found' = Some (k * 2 + 1)"
    and "found' = Some i \<or> (\<exists>j. i = 2 * (k + 1 + j) + 1 \<and> 2 * j + 1 < length rest \<and> rest ! (2 * j) = switch)"
    for found'
  proof -
    have "\<exists>j'. i = 2 * (k + j') + 1 \<and> 2 * j' + 1 < length (name # v # rest) \<and> (name # v # rest) ! (2 * j') = switch"
      if "i = 2 * (k + 1 + j) + 1" "2 * j + 1 < length rest" "rest ! (2 * j) = switch" for j
      using that by (intro exI [of _ "Suc j"]) simp
    moreover have "i = 2 * (k + 0) + 1 \<and> 2 * 0 + 1 < length (name # v # rest) \<and> (name # v # rest) ! (2 * 0) = switch"
      if "name = switch" "Some i = Some (k * 2 + 1)"
      using that by simp
    ultimately show ?thesis using that by metis
  qed
  show ?case using 1 later by (auto split: if_splits)
qed auto

lemma switch_values_updated:
  assumes "parse_switches xs m = Ok m'" "2 * j + 1 < length xs" "xs ! (2 * j) = switch" "m switch = None"
  shows "parse_switches (xs[2 * j + 1 := v]) m = Ok (m'(switch \<mapsto> v))"
  using assms
proof (induction xs m arbitrary: j rule: parse_switches.induct)
  case (1 name w rest m)
  then have p: "take 2 name = ''--''" "name \<in> set monitor_switches" "m name = None"
      "parse_switches rest (m(name \<mapsto> w)) = Ok m'" by (simp_all only: parse_switches_Cons)
  show ?case
  proof (cases j)
    case 0
    have upd: "parse_switches xs (n(switch \<mapsto> v)) = Ok (n'(switch \<mapsto> v))"
      if "parse_switches xs (n(switch \<mapsto> w)) = Ok n'" for xs n n'
      using that
    proof (induction xs "n(switch \<mapsto> w)" arbitrary: n rule: parse_switches.induct)
      case (1 name' w' rest')
      then have q: "take 2 name' = ''--''" "name' \<in> set monitor_switches" "name' \<noteq> switch" "n name' = None"
        "parse_switches rest' (n(switch \<mapsto> w, name' \<mapsto> w')) = Ok n'"
        by (auto simp only: parse_switches_Cons fun_upd_apply split: if_splits)
      have t: "n(switch \<mapsto> u, name' \<mapsto> w') = n(name' \<mapsto> w', switch \<mapsto> u)" for u
        using q(3) by (metis fun_upd_twist)
      have "parse_switches rest' (n(name' \<mapsto> w', switch \<mapsto> v)) = Ok (n'(switch \<mapsto> v))"
        by (rule "1.hyps") (use q t in auto)
      then show ?case using q t by (simp only: parse_switches_Cons) simp
    qed auto
    have "name = switch" using 0 "1.prems"(3) by simp
    have l: "(switch # w # rest)[2 * j + 1 := v] = switch # v # rest" using 0 by simp
    have "parse_switches rest (m(switch \<mapsto> v)) = Ok (m'(switch \<mapsto> v))"
      by (rule upd) (use p(4) \<open>name = switch\<close> in blast)
    with p(1-3) \<open>name = switch\<close> show ?thesis unfolding \<open>name = switch\<close> l parse_switches_Cons by blast
  next
    case (Suc i)
    have i: "2 * i + 1 < length rest" "rest ! (2 * i) = switch" using "1.prems" Suc by auto
    have "name \<noteq> switch"
    proof
      assume "name = switch"
      then have "(m(name \<mapsto> w)) switch \<noteq> None" by simp
      then show False using parse_switches_fresh [OF p(4) i(1)] i(2) by simp
    qed
    then have "parse_switches (rest[2 * i + 1 := v]) (m(name \<mapsto> w)) = Ok (m'(switch \<mapsto> v))"
      by (intro "1.IH") (use p i "1.prems"(4) in \<open>auto simp: fun_upd_def\<close>)
    moreover have "(name # w # rest)[2 * j + 1 := v] = name # w # rest[2 * i + 1 := v]" using Suc by simp
    ultimately show ?thesis using p(1-3) by (simp only: parse_switches_Cons)
  qed
qed auto

lemma required_updated:
  assumes "k \<noteq> ''--watchlist''"
  shows "required (s(''--watchlist'' \<mapsto> v)) k = required s k"
    "required_u64 (s(''--watchlist'' \<mapsto> v)) k b = required_u64 s k b"
    "required_u32 (s(''--watchlist'' \<mapsto> v)) k c = required_u32 s k c"
    "required_u16 (s(''--watchlist'' \<mapsto> v)) k d = required_u16 s k d"
    "required_usize (s(''--watchlist'' \<mapsto> v)) k b = required_usize s k b"
    "required_duration (s(''--watchlist'' \<mapsto> v)) k = required_duration s k"
    "required_f64 (s(''--watchlist'' \<mapsto> v)) k = required_f64 s k"
proof -
  show r: "required (s(''--watchlist'' \<mapsto> v)) k = required s k"
    using assms by (simp add: required_def)
  show u: "required_u64 (s(''--watchlist'' \<mapsto> v)) k b = required_u64 s k b" for b
    by (simp only: required_u64_def r)
  show "required_u32 (s(''--watchlist'' \<mapsto> v)) k c = required_u32 s k c"
    "required_u16 (s(''--watchlist'' \<mapsto> v)) k d = required_u16 s k d"
    "required_usize (s(''--watchlist'' \<mapsto> v)) k b = required_usize s k b"
    "required_duration (s(''--watchlist'' \<mapsto> v)) k = required_duration s k"
    "required_f64 (s(''--watchlist'' \<mapsto> v)) k = required_f64 s k"
    by (simp_all only: required_u32_def required_u16_def required_usize_def required_duration_def
        required_f64_def r u)
qed

text \<open>The check of the windows as a function of the length of the watchlist.\<close>

definition capacity_check :: "monitor_config \<Rightarrow> nat \<Rightarrow> (unit, config_error) rres" where
  "capacity_check c n =
     validate_window_capacity (window_capacity (cf_rule_limits c)) (cf_poll_interval c) n
       (cf_snapshot_cadence_poll_cycles c)
       (pr_window_millis (pl_inner (cf_price_rule c)), dr_window_millis (vr_rule (vl_inner (cf_volume_rule c))))
       (pr_boundary_tolerance_millis (pl_inner (cf_price_rule c)),
        dr_boundary_tolerance_millis (vr_rule (vl_inner (cf_volume_rule c))))
       (dr_window_millis (amount_rule (al_inner (cf_amount_rule c))))
       (dr_boundary_tolerance_millis (amount_rule (al_inner (cf_amount_rule c))))"

lemma rule_fields:
  "rule_limits_new instruments capacity = Ok l \<Longrightarrow> max_instruments l = instruments \<and> window_capacity l = capacity"
  "price_rule_new version window tolerance f r cd = Ok p \<Longrightarrow>
     pr_window_millis (pl_inner p) = window \<and> pr_boundary_tolerance_millis (pl_inner p) = tolerance"
  "amount_rule_new version window tolerance f r cd = Ok a \<Longrightarrow>
     dr_window_millis (amount_rule (al_inner a)) = window
     \<and> dr_boundary_tolerance_millis (amount_rule (al_inner a)) = tolerance"
  "volume_rule_new version window tolerance f r cd = Ok vo \<Longrightarrow>
     dr_window_millis (vr_rule (vl_inner vo)) = window
     \<and> dr_boundary_tolerance_millis (vr_rule (vl_inner vo)) = tolerance"
  by (auto simp: rule_limits_new_def monitor_limits_new_def price_rule_new_def price_change_rule_new_def
      amount_rule_new_def amount_spike_rule_new_def volume_rule_new_def volume_spike_rule_new_def
      delta_rule_new_def res_simps split: if_splits)

lemma config_with_watchlist:
  assumes "config_of_switches s = Ok c"
  shows "config_of_switches (s(''--watchlist'' \<mapsto> v)) =
    rbind (parse_watchlist v (max_instruments (cf_rule_limits c))) (\<lambda>watchlist.
    rbind (capacity_check c (length watchlist)) (\<lambda>_. Ok (c\<lparr>cf_watchlist := watchlist\<rparr>)))"
proof -
  have w: "required (s(''--watchlist'' \<mapsto> v)) ''--watchlist'' = Ok v" by (simp add: required_def ok_or_def)
  show ?thesis
    using assms
    apply (simp only: config_of_switches_def rbind_eq_Ok map_err_eq_Ok)
    apply (elim exE conjE)
    apply (frule rule_fields(1), frule rule_fields(2), frule rule_fields(3), frule rule_fields(4))
    apply (simp only: split: if_splits)
     apply (simp only: rres.distinct)
    apply (simp add: required_updated w)
    apply hypsubst
    apply (simp add: capacity_check_def)
    done
qed

lemma find_index_length:
  "find_argument_index xs switch k found = Ok (Some i) \<Longrightarrow> found = None \<Longrightarrow>
     \<exists>j. i = 2 * (k + j) + 1 \<and> 2 * j + 1 < length xs \<and> xs ! (2 * j) = switch"
  using find_argument_index_pair by fastforce

lemma spawn_switches:
  assumes t: "template_of_arguments args = Ok t" and spawn: "template_spawn t ws = Ok args'"
    and m: "parse_switches args (\<lambda>_. None) = Ok m"
  shows "parse_switches args' (\<lambda>_. None) = Ok (m(''--watchlist'' \<mapsto> join_commas ws))
    \<and> length args' = length args \<and> watchlist_ok ws
    \<and> length ws \<le> unat (mt_maximum_watchlist_instruments t)"
proof -
  have args: "mt_arguments t = args"
    using t by (auto simp: template_of_arguments_def Let_def res_simps split: if_splits)
  from spawn obtain i where v: "validate_monitor_watchlist ws (ucast (mt_maximum_watchlist_instruments t)) = Ok ()"
    and i: "find_argument_index args ''--watchlist'' 0 None = Ok (Some i)"
    and a: "args' = args[i := join_commas ws]"
    by (auto simp: template_spawn_def replace_argument_value_def res_simps args)
  obtain j where j: "i = 2 * j + 1" "2 * j + 1 < length args" "args ! (2 * j) = ''--watchlist''"
    using find_index_length [OF i] by auto
  have "unat (ucast (mt_maximum_watchlist_instruments t) :: usize) = unat (mt_maximum_watchlist_instruments t)"
    by (simp add: unsigned_ucast_eq take_bit_nat_eq_self unsigned_less [THEN order.strict_trans2])
  with v switch_values_updated [OF m j(2,3)] show ?thesis
    by (simp add: a j(1) validate_monitor_watchlist_eq_Ok)
qed

lemma find_argument_value:
  "find_argument xs switch found = Ok (Some v) \<Longrightarrow> found = Some v
     \<or> (\<exists>j. 2 * j + 1 < length xs \<and> xs ! (2 * j) = switch \<and> xs ! (2 * j + 1) = v)"
proof (induction xs switch found rule: find_argument.induct)
  case (1 name w rest switch found)
  have later: ?case if ex: "\<exists>j. 2 * j + 1 < length rest \<and> rest ! (2 * j) = switch \<and> rest ! (2 * j + 1) = v"
  proof -
    obtain j where "2 * j + 1 < length rest" "rest ! (2 * j) = switch" "rest ! (2 * j + 1) = v"
      using ex by blast
    then show ?thesis by (intro disjI2 exI [of _ "Suc j"]) simp
  qed
  have here: ?case if "name = switch" "w = v" using that by (intro disjI2 exI [of _ 0]) simp
  show ?case using 1 later here by (auto split: if_splits)
qed auto

lemma argument_value_switch:
  assumes "argument_value args switch = Ok v" "parse_switches args (\<lambda>_. None) = Ok m"
  shows "m switch = Some v"
proof -
  have "find_argument args switch None = Ok (Some v)" using assms(1) by (simp add: argument_value_def res_simps)
  then obtain j where "2 * j + 1 < length args" "args ! (2 * j) = switch" "args ! (2 * j + 1) = v"
    using find_argument_value by blast
  with parse_switches_value [OF assms(2), of j] show ?thesis by simp
qed

lemma config_max_instruments:
  assumes "config_of_switches s = Ok c"
  shows "required_u16 s ''--max-instruments'' 1 = Ok (max_instruments (cf_rule_limits c))"
  using assms
  apply (simp only: config_of_switches_def rbind_eq_Ok map_err_eq_Ok)
  apply (elim exE conjE)
  apply (frule rule_fields(1))
  apply (simp only: split: if_splits)
   apply (simp only: rres.distinct)
  apply simp
  apply hypsubst
  apply simp
  done

lemma unat_narrow: "unat x < 2 ^ LENGTH('b) \<Longrightarrow> unat (ucast x :: 'b::len word) = unat x"
  for x :: "'a::len word"
  by (simp add: unsigned_ucast_eq take_bit_nat_eq_self)

lemma parse_unsigned_nat:
  "parse_unsigned v = Some (w :: 'a::len word) \<Longrightarrow>
     unat w = parse_dec (case v of [] \<Rightarrow> [] | c # rest \<Rightarrow> if c = CHR ''+'' then rest else v)"
  by (auto simp: parse_unsigned_def Let_def unsigned_of_nat take_bit_nat_eq_self split: if_splits)

lemma template_maximum:
  assumes t: "template_of_arguments args = Ok t" and m: "parse_switches args (\<lambda>_. None) = Ok m"
    and c: "config_of_switches m = Ok c"
  shows "unat (mt_maximum_watchlist_instruments t) = unat (max_instruments (cf_rule_limits c))"
proof -
  obtain v where v: "argument_value args ''--max-instruments'' = Ok v"
      "parse_unsigned v = Some (mt_maximum_watchlist_instruments t)"
    using t by (auto simp: template_of_arguments_def Let_def res_simps split: if_splits)
  have mv: "m ''--max-instruments'' = Some v" by (rule argument_value_switch [OF v(1) m])
  obtain w :: u64 where w: "parse_unsigned v = Some w" "unat w < 2 ^ 16"
      "ucast w = max_instruments (cf_rule_limits c)"
    using config_max_instruments [OF c]
    by (auto simp: required_u16_def required_u64_def required_def res_simps mv ok_or_def
        split: if_splits option.splits)
  have "unat w = unat (mt_maximum_watchlist_instruments t)"
    using parse_unsigned_nat [OF v(2)] parse_unsigned_nat [OF w(1)] by simp
  moreover have "unat (max_instruments (cf_rule_limits c)) = unat w"
    unfolding w(3) [symmetric] by (rule unat_narrow) (use w(2) in simp)
  ultimately show ?thesis by simp
qed

lemma config_parse_switches:
  "config_parse args = Ok c \<longleftrightarrow> length args mod 2 = 0
     \<and> (\<exists>m. parse_switches args (\<lambda>_. None) = Ok m \<and> config_of_switches m = Ok c)"
  by (auto simp: config_parse_def res_simps)

lemma respawned_config:
  assumes "template_of_arguments args = Ok t" "config_parse args = Ok c" "template_spawn t ws = Ok args'"
  shows "\<exists>instruments. map wi_label instruments = ws
    \<and> config_parse args' = rbind (capacity_check c (length ws)) (\<lambda>_. Ok (c\<lparr>cf_watchlist := instruments\<rparr>))"
proof -
  obtain m where m: "length args mod 2 = 0" "parse_switches args (\<lambda>_. None) = Ok m" "config_of_switches m = Ok c"
    using assms(2) by (auto simp: config_parse_switches)
  note spawned = spawn_switches [OF assms(1,3) m(2)]
  note maximum = template_maximum [OF assms(1) m(2,3)]
  obtain instruments where i: "parse_watchlist (join_commas ws) (max_instruments (cf_rule_limits c)) = Ok instruments"
      "map wi_label instruments = ws"
    using parse_watchlist_joined [of ws "max_instruments (cf_rule_limits c)"] spawned maximum by auto
  have "length instruments = length ws" using arg_cong [OF i(2), of length] by simp
  with i spawned m(1) config_with_watchlist [OF m(3), of "join_commas ws"] show ?thesis
    by (intro exI [of _ instruments]) (simp add: config_parse_def)
qed

text \<open>C17: A monitor that the agent starts again with a new watchlist gets that watchlist, in order,
  and the rest of its configuration as it was: parsing the arguments the agent builds gives the
  configuration of the original arguments with the new instruments, unless the windows no longer
  fit the capacity for a watchlist of the new length. No other check can fail.\<close>

theorem respawned_configuration:
  assumes "template_of_arguments args = Ok t" "config_parse args = Ok c" "template_spawn t ws = Ok args'"
  shows "\<exists>instruments. map wi_label instruments = ws
    \<and> config_parse args' = rbind (capacity_check c (length ws)) (\<lambda>_. Ok (c\<lparr>cf_watchlist := instruments\<rparr>))"
  using assms by (rule respawned_config)

section \<open>The capacity of the windows\<close>

lemma unat_saturating_add:
  "unat (saturating_add a b) = min (unat a + unat b) (2 ^ LENGTH('a) - 1)" for a b :: "'a::len word"
proof (cases "unat a + unat b < 2 ^ LENGTH('a)")
  case True
  then have "unat (a + b) = unat a + unat b" by (simp add: unat_word_ariths)
  with True show ?thesis by (simp add: saturating_add_def)
next
  case False
  then show ?thesis by (simp add: saturating_add_def unsigned_minus_1_eq_mask mask_eq_exp_minus_1)
qed

lemma div_ceil_fits:
  assumes "b \<noteq> 0"
  obtains q where "div_ceil a b = Ok q" "\<And>k. unat q \<le> k \<longleftrightarrow> unat a \<le> k * unat b"
proof -
  let ?A = "unat a" and ?B = "unat b"
  have B: "0 < ?B" using assms by (simp add: unat_gt_0)
  have A: "?A = ?A div ?B * ?B + ?A mod ?B" "?A mod ?B < ?B" using B by simp_all
  have k: "?A div ?B * ?B + r \<le> k * ?B \<longleftrightarrow> ?A div ?B + (if r = 0 then 0 else 1) \<le> k"
    if r: "r < ?B" for r k
  proof
    assume le: "?A div ?B * ?B + r \<le> k * ?B"
    then have "?A div ?B * ?B \<le> k * ?B" by (rule order_trans [OF le_add1])
    then have "?A div ?B \<le> k" using B by (metis mult_le_cancel2)
    moreover have "r = 0" if "k = ?A div ?B" using le that by simp
    ultimately show "?A div ?B + (if r = 0 then 0 else 1) \<le> k" by (cases "k = ?A div ?B") auto
  next
    assume le: "?A div ?B + (if r = 0 then 0 else 1) \<le> k"
    show "?A div ?B * ?B + r \<le> k * ?B"
    proof (cases "r = 0")
      case False
      then have "(?A div ?B + 1) * ?B \<le> k * ?B" using le by (intro mult_le_mono1) simp
      then show ?thesis using r by simp
    qed (use le in simp)
  qed
  have z: "a mod b = 0 \<longleftrightarrow> ?A mod ?B = 0" by (simp add: word_unat_eq_iff unat_mod)
  show thesis
  proof (cases "a mod b = 0")
    case True
    have "unat (a div b) \<le> k \<longleftrightarrow> ?A \<le> k * ?B" for k
      using k [of "?A mod ?B" k] A(2) True z unfolding A(1) [symmetric] by (simp add: unat_div)
    then show thesis using True assms by (intro that [of "a div b"]) (simp_all add: div_ceil_def)
  next
    case False
    have "?B \<noteq> 1" using False z by auto
    then have "2 \<le> ?B" using B by simp
    then have "?A div ?B \<le> ?A div 2" by (intro div_le_mono2) simp_all
    also have "?A < 2 ^ LENGTH(64)" by (rule unsigned_less)
    then have "?A div 2 < 2 ^ 63" by simp
    finally have "unat (a div b + 1) = ?A div ?B + 1" by (simp add: unat_word_ariths unat_div)
    then have "unat (a div b + 1) \<le> k \<longleftrightarrow> ?A \<le> k * ?B" for k
      using k [of "?A mod ?B" k] A False z by simp
    then show thesis using False assms by (intro that [of "a div b + 1"]) (simp_all add: div_ceil_def)
  qed
qed

lemma samples_fit:
  fixes capacity :: u16 and q :: u64
  assumes "2 \<le> capacity"
  shows "\<not> (ucast capacity < saturating_add q 2) \<longleftrightarrow> unat q \<le> unat capacity - 2"
proof -
  have c: "2 \<le> unat capacity" "unat capacity < 2 ^ 16"
    using assms unsigned_less [of capacity] by (simp_all add: word_le_nat_alt)
  have "unat (ucast capacity :: u64) = unat capacity" by (rule unat_narrow) (use c in simp)
  then show ?thesis using c by (auto simp: word_less_nat_alt unat_saturating_add)
qed

text \<open>The check of the window capacity accepts exactly the configurations whose windows fit:
  the time between two snapshots of an instrument is representable, and capacity less two samples
  cover every price and volume window at the poll interval, and the amount window at the time
  between two snapshots, which grows with the watchlist.\<close>

lemma window_capacity_iff:
  assumes "2 \<le> capacity" "0 < as_millis poll" "cadence \<noteq> 0" "0 < n"
  shows "validate_window_capacity capacity poll n cadence windows tolerances amount tolerance = Ok ()
    \<longleftrightarrow> as_millis poll * unat cadence * n < 2 ^ 64
      \<and> unat (saturating_add (fst windows) (fst tolerances)) \<le> (unat capacity - 2) * as_millis poll
      \<and> unat (saturating_add (snd windows) (snd tolerances)) \<le> (unat capacity - 2) * as_millis poll
      \<and> unat (saturating_add amount tolerance) \<le> (unat capacity - 2) * (as_millis poll * unat cadence * n)"
proof (cases "as_millis poll * unat cadence * n < 2 ^ 64")
  case True
  let ?p = "of_nat (as_millis poll) :: u64"
  have cad: "0 < unat cadence" using assms(3) by (simp add: unat_gt_0)
  have grow: "x \<le> x * y" if "0 < y" for x y :: nat using that by (cases y) simp_all
  have lt3: "as_millis poll * unat cadence < 2 ^ 64" by (rule le_less_trans [OF grow True]) (rule assms)
  have lt1: "as_millis poll < 2 ^ 64" by (rule le_less_trans [OF grow lt3]) (rule cad)
  have "n * (as_millis poll * unat cadence) < 2 ^ 64" using True by (simp only: mult.commute)
  then have lt2: "n < 2 ^ 64" by (rule le_less_trans [OF grow, rotated]) (use assms(2) cad in simp)
  note lt = lt1 lt2 lt3
  have u: "unat ?p = as_millis poll" "unat (of_nat n :: u64) = n"
    using lt by (simp_all add: unsigned_of_nat take_bit_nat_eq_self)
  define s :: u64 where "s = of_nat (as_millis poll * unat cadence * n)"
  have us: "unat s = as_millis poll * unat cadence * n"
    using True unfolding s_def by (simp only: unsigned_of_nat) (simp add: take_bit_nat_eq_self del: of_nat_mult)
  have pc: "unat (?p * cadence) = as_millis poll * unat cadence" using lt u by (simp add: unat_word_ariths)
  have pcn: "unat (?p * cadence * of_nat n) = unat s"
    using True pc u(2) us by (simp only: unat_word_ariths) simp
  have period: "Option.bind (checked_mul ?p cadence) (\<lambda>v. if n < 2 ^ 64 then checked_mul v (of_nat n) else None)
      = Some s"
    using lt True u pc pcn by (simp add: checked_mul_def word_unat_eq_iff)
  have nz: "?p \<noteq> 0" "s \<noteq> 0" using assms(2,4) cad u us by (simp_all add: word_unat_eq_iff)
  obtain f where f: "(div_ceil (max (saturating_add (fst windows) (fst tolerances))
      (saturating_add (snd windows) (snd tolerances))) ?p :: (u64, config_error) rres) = Ok f"
      "\<And>k. unat f \<le> k \<longleftrightarrow> unat (max (saturating_add (fst windows) (fst tolerances))
      (saturating_add (snd windows) (snd tolerances))) \<le> k * as_millis poll"
    using div_ceil_fits [OF nz(1)] u(1) by metis
  obtain a where a: "(div_ceil (saturating_add amount tolerance) s :: (u64, config_error) rres) = Ok a"
      "\<And>k. unat a \<le> k \<longleftrightarrow> unat (saturating_add amount tolerance) \<le> k * (as_millis poll * unat cadence * n)"
    using div_ceil_fits [OF nz(2)] us by metis
  have "validate_window_capacity capacity poll n cadence windows tolerances amount tolerance = Ok ()
      \<longleftrightarrow> \<not> ucast capacity < saturating_add f 2 \<and> \<not> ucast capacity < saturating_add a 2"
    using lt(1) period f(1) a(1)
    by (simp add: validate_window_capacity_def ok_or_def Let_def less_max_iff_disj)
  then show ?thesis
    unfolding samples_fit [OF assms(1)] f(2) a(2)
    using True by (simp add: max_def word_le_nat_alt not_le; linarith)
next
  case False
  have "checked_mul (of_nat (as_millis poll)) cadence = Some v \<Longrightarrow> checked_mul v (of_nat n) = None"
    if "as_millis poll < 2 ^ 64" "n < 2 ^ 64" for v :: u64
    using that False by (auto simp: checked_mul_def unat_word_ariths unsigned_of_nat take_bit_nat_eq_self split: if_splits)
  then show ?thesis
    using False by (auto simp: validate_window_capacity_def res_simps Let_def split: bind_splits)
qed

lemma window_capacity_errors:
  "validate_window_capacity capacity poll n cadence windows tolerances amount tolerance = Err e \<Longrightarrow>
     \<exists>switch reason. e = InvalidSwitchValue switch reason"
  by (auto simp: validate_window_capacity_def res_simps Let_def div_ceil_def split: if_splits)

lemma checked_mul_zero:
  assumes "checked_mul a b = Some 0" shows "a = 0 \<or> b = 0"
proof -
  have "unat (a * b) = unat a * unat b" "a * b = 0"
    using assms by (auto simp: checked_mul_def unat_word_ariths split: if_splits)
  then show ?thesis by (metis mult_is_0 unat_0 unat_eq_zero)
qed

lemma window_capacity_refused:
  assumes "2 \<le> capacity" "0 < as_millis poll" "cadence \<noteq> 0" "0 < n"
    and "(unat capacity - 2) * (as_millis poll * unat cadence * n) < unat (saturating_add amount tolerance)"
  shows "\<exists>switch reason. validate_window_capacity capacity poll n cadence windows tolerances amount tolerance
     = Err (InvalidSwitchValue switch reason)"
proof (cases "validate_window_capacity capacity poll n cadence windows tolerances amount tolerance")
  case (Ok u)
  then show ?thesis using assms window_capacity_iff [OF assms(1-4)] by simp
next
  case (Err e)
  then show ?thesis using window_capacity_errors by blast
next
  case (Panic p)
  have p: "as_millis poll < 2 ^ 64 \<Longrightarrow> (of_nat (as_millis poll) :: u64) \<noteq> 0"
    and n: "n < 2 ^ 64 \<Longrightarrow> (of_nat n :: u64) \<noteq> 0"
    using assms(2,4) by (simp_all add: word_unat_eq_iff unsigned_of_nat take_bit_nat_eq_self)
  show ?thesis
    using Panic p n assms(3)
    by (auto simp: validate_window_capacity_def res_simps Let_def div_ceil_def bind_eq_Some_conv
        dest!: checked_mul_zero split: if_splits)
qed

section \<open>The sample arguments\<close>

definition sample_watchlist :: "string list" where
  "sample_watchlist = [''EQUITY:SH:600000'', ''EQUITY:SZ:000001'']"

definition sample_arguments :: "string list \<Rightarrow> string list" where
  "sample_arguments ws = arguments_of (sample_pairs (join_commas ws) ''2000'')"

lemma sample_watchlist_ok:
  "watchlist_ok sample_watchlist" "watchlist_ok [''EQUITY:SZ:000001'']"
  by (simp_all add: watchlist_ok_def sample_watchlist_def valid_instrument_def is_ascii_digit_def
      printable_text(1) printable_def)

lemma sample_template:
  "template_of_arguments (sample_arguments sample_watchlist) =
     Ok \<lparr>mt_arguments = sample_arguments sample_watchlist, mt_initial_watchlist = sample_watchlist,
         mt_maximum_watchlist_instruments = 2\<rparr>"
proof -
  have values': "argument_value (sample_arguments sample_watchlist) ''--watchlist'' = Ok (join_commas sample_watchlist)"
    "argument_value (sample_arguments sample_watchlist) ''--max-instruments'' = Ok ''2''"
    by (simp_all add: argument_value_def sample_arguments_def arguments_of_def sample_pairs_def ok_or_def)
  have even: "length (sample_arguments sample_watchlist) mod 2 = 0"
    by (simp add: sample_arguments_def arguments_of_def sample_pairs_def)
  have two: "parse_unsigned ''2'' = Some (2 :: u32)"
    by (simp add: parse_unsigned_def parse_dec_def digit_val_def is_ascii_digit_def)
  have split: "split_on (CHR '','') (join_commas sample_watchlist) = sample_watchlist"
    by (simp add: sample_watchlist_def)
  have "validate_monitor_watchlist sample_watchlist (ucast (2 :: u32)) = Ok ()"
    by (simp add: validate_monitor_watchlist_eq_Ok sample_watchlist_ok) (simp add: sample_watchlist_def)
  then show ?thesis by (simp add: template_of_arguments_def even values' two split ok_or_def)
qed

lemma sample_spawn:
  assumes "watchlist_ok ws" "length ws \<le> 2"
  shows "template_spawn \<lparr>mt_arguments = sample_arguments sample_watchlist,
     mt_initial_watchlist = sample_watchlist, mt_maximum_watchlist_instruments = 2\<rparr> ws = Ok (sample_arguments ws)"
proof -
  have v: "validate_monitor_watchlist ws 2 = Ok ()"
    using assms by (simp add: validate_monitor_watchlist_eq_Ok)
  have "find_argument_index (sample_arguments sample_watchlist) ''--watchlist'' 0 None = Ok (Some 1)"
    by (simp add: sample_arguments_def arguments_of_def sample_pairs_def)
  then show ?thesis
    by (simp add: template_spawn_def v replace_argument_value_def ok_or_def)
      (simp add: sample_arguments_def arguments_of_def sample_pairs_def)
qed

lemma sample_arguments_parse:
  assumes "watchlist_ok ws" "length ws \<le> 2"
  shows "\<exists>instruments. map wi_label instruments = ws
    \<and> config_parse (sample_arguments ws) =
        rbind (validate_window_capacity 16 100000000 (length ws) 1 (1000, 1000) (100, 100) 2000 100)
          (\<lambda>_. Ok (sample_monitor_config instruments))"
proof -
  obtain instruments where i: "parse_watchlist (join_commas ws) 2 = Ok instruments" "map wi_label instruments = ws"
    using parse_watchlist_joined [of ws 2] assms by auto
  have "length instruments = length ws" using arg_cong [OF i(2), of length] by simp
  with i show ?thesis
    by (intro exI [of _ instruments]) (simp add: sample_arguments_def sample_arguments_parsed)
qed

lemma sample_capacity:
  "validate_window_capacity 16 100000000 2 1 (1000, 1000) (100, 100) 2000 100 = Ok ()"
  by (simp add: validate_window_capacity_def as_millis_def checked_mul_def div_ceil_def saturating_add_def ok_or_def)

lemma sample_config_parsed: "\<exists>instruments. config_parse (sample_arguments sample_watchlist)
    = Ok (sample_monitor_config instruments) \<and> map wi_label instruments = sample_watchlist"
proof -
  have two: "length sample_watchlist = 2" by (simp add: sample_watchlist_def)
  obtain instruments where "map wi_label instruments = sample_watchlist"
    "config_parse (sample_arguments sample_watchlist) =
        rbind (validate_window_capacity 16 100000000 2 1 (1000, 1000) (100, 100) 2000 100)
          (\<lambda>_. Ok (sample_monitor_config instruments))"
    using sample_arguments_parse [OF sample_watchlist_ok(1)] unfolding two by blast
  then show ?thesis unfolding sample_capacity rbind.simps by blast
qed

theorem respawned_configuration_witness:
  "\<exists>c instruments. map wi_label instruments = [''EQUITY:SZ:000001'']
     \<and> config_parse (sample_arguments [''EQUITY:SZ:000001''])
         = rbind (capacity_check c (length [''EQUITY:SZ:000001''])) (\<lambda>_. Ok (c\<lparr>cf_watchlist := instruments\<rparr>))"
proof -
  obtain instruments where c: "config_parse (sample_arguments sample_watchlist) = Ok (sample_monitor_config instruments)"
    using sample_config_parsed by blast
  have "template_spawn \<lparr>mt_arguments = sample_arguments sample_watchlist,
     mt_initial_watchlist = sample_watchlist, mt_maximum_watchlist_instruments = 2\<rparr> [''EQUITY:SZ:000001'']
     = Ok (sample_arguments [''EQUITY:SZ:000001''])"
    by (rule sample_spawn [OF sample_watchlist_ok(2)]) simp
  from respawned_configuration [OF sample_template c this]
  show ?thesis by (rule exI [of _ "sample_monitor_config instruments"])
qed

section \<open>Configurations\<close>

definition instrument_label :: "tq_instrument \<Rightarrow> string" where
  "instrument_label i =
     ''EQUITY:'' @ (case si_exchange (source_instrument_of i) of
        SourceShanghai \<Rightarrow> ''SH'' | SourceShenzhen \<Rightarrow> ''SZ'' | SourceBeijing \<Rightarrow> ''BJ'')
       @ '':'' @ si_code (source_instrument_of i)"

definition config_ok :: "monitor_config \<Rightarrow> bool" where
  "config_ok c \<longleftrightarrow>
     cf_watchlist c \<noteq> [] \<and> distinct (map wi_label (cf_watchlist c))
     \<and> length (cf_watchlist c) \<le> unat (max_instruments (cf_rule_limits c))
     \<and> (\<forall>i\<in>set (cf_watchlist c). wi_label i = instrument_label (wi_source i))
     \<and> 2 \<le> window_capacity (cf_rule_limits c)
     \<and> 0 < as_millis (cf_poll_interval c) \<and> 0 < as_millis (cf_rediscover_interval c)
     \<and> 0 < as_millis (cf_discovery_timeout c) \<and> 0 < as_millis (cf_output_shutdown_timeout c)
     \<and> cf_discovery_max_bytes c \<noteq> 0 \<and> cf_discovery_max_bytes c \<noteq> - 1
     \<and> cf_max_event_bytes c \<noteq> 0 \<and> cf_output_queue_capacity c \<noteq> 0
     \<and> cf_snapshot_cadence_poll_cycles c \<noteq> 0 \<and> cf_identity_recheck_cycles c \<noteq> 0
     \<and> capacity_check c (length (cf_watchlist c)) = Ok ()"

lemma required_bounds:
  "required_u64 s k m = Ok x \<Longrightarrow> m \<le> x" "required_u64 s k 1 = Ok x \<Longrightarrow> x \<noteq> 0"
  "required_u16 s k b = Ok y \<Longrightarrow> b \<le> y"
  "required_usize s k 1 = Ok z \<Longrightarrow> z \<noteq> 0" "required_usize s k 1 = Ok z \<Longrightarrow> z \<noteq> - 1"
  "required_duration s k = Ok d \<Longrightarrow> 0 < as_millis d"
proof -
  show u: "required_u64 s k m = Ok x \<Longrightarrow> m \<le> x" for m x
    by (auto simp: required_u64_def res_simps split: if_splits)
  show "required_u64 s k 1 = Ok x \<Longrightarrow> x \<noteq> 0" by (auto dest!: u)
  show "required_u16 s k b = Ok y \<Longrightarrow> b \<le> y"
  proof -
    assume "required_u16 s k b = Ok y"
    then obtain x where x: "required_u64 s k (ucast b) = Ok x" "unat x < 2 ^ 16" "y = ucast x"
      by (auto simp: required_u16_def res_simps split: if_splits)
    have n: "unat (ucast x :: u16) = unat x" by (rule unat_narrow) (use x(2) in simp)
    have "unat b < 2 ^ LENGTH(16)" by (rule unsigned_less)
    then have "unat (ucast b :: u64) = unat b" by (intro unat_narrow) simp
    then show "b \<le> y" using u [OF x(1)] x(3) n by (simp add: word_le_nat_alt)
  qed
  have one: "1 \<le> x \<Longrightarrow> x \<noteq> 0" for x :: u64 by auto
  show "required_usize s k 1 = Ok z \<Longrightarrow> z \<noteq> 0" "required_usize s k 1 = Ok z \<Longrightarrow> z \<noteq> - 1"
    by (auto simp: required_usize_def res_simps split: if_splits dest!: u)
  show "required_duration s k = Ok d \<Longrightarrow> 0 < as_millis d"
    by (auto simp: required_duration_def res_simps duration_from_millis_def as_millis_def unat_gt_0 dest!: u)
qed

lemma parse_watch_item_parts:
  assumes "parse_watch_item x seen = Ok i"
  obtains e c where "split_on (CHR '':'') x = [''EQUITY'', e, c]" "wi_label i = x"
    "(e, si_exchange (source_instrument_of (wi_source i)))
       \<in> {(''SH'', SourceShanghai), (''SZ'', SourceShenzhen), (''BJ'', SourceBeijing)}"
    "si_code (source_instrument_of (wi_source i)) = c" "length c = 6" "list_all is_ascii_digit c"
proof -
  obtain a e c where s: "split_on (CHR '':'') x = [a, e, c]"
    using assms by (auto simp: parse_watch_item_def split: list.splits)
  have a: "a = ''EQUITY''" using assms by (simp add: parse_watch_item_def s split: if_splits)
  from assms obtain ex where ex: "(e, ex) \<in> {(''SH'', SourceShanghai), (''SZ'', SourceShenzhen), (''BJ'', SourceBeijing)}"
      "tq_instrument_new ex c = Ok (wi_source i)" "wi_label i = x"
    by (auto simp: parse_watch_item_def s a res_simps ok_or_def split: if_splits)
  then have "length c = 6 \<and> list_all is_ascii_digit c
      \<and> wi_source i = TqInstrument \<lparr>si_exchange = ex, si_code = c\<rparr>"
    by (auto simp: tq_instrument_new_def split: if_splits)
  with s a ex that show thesis by simp
qed

lemma parse_watch_item_canonical:
  assumes "parse_watch_item x seen = Ok i"
  shows "wi_label i = instrument_label (wi_source i)"
proof (rule parse_watch_item_parts [OF assms])
  fix e c assume s: "split_on (CHR '':'') x = [''EQUITY'', e, c]" "wi_label i = x"
    "(e, si_exchange (source_instrument_of (wi_source i)))
       \<in> {(''SH'', SourceShanghai), (''SZ'', SourceShenzhen), (''BJ'', SourceBeijing)}"
    "si_code (source_instrument_of (wi_source i)) = c" "length c = 6" "list_all is_ascii_digit c"
  have "valid_instrument x" using s by (auto simp: valid_instrument_def)
  then obtain e' c' where x: "x = ''EQUITY'' @ CHR '':'' # e' @ CHR '':'' # c'" "e' \<in> {''SH'', ''SZ'', ''BJ''}" "list_all is_ascii_digit c'"
    by (auto simp: valid_instrument_iff)
  have n: "CHR '':'' \<notin> set c'" using x(3) by (auto simp: list_all_iff is_ascii_digit_def)
  have "CHR '':'' \<notin> set e'" using x(2) by auto
  then have "split_on (CHR '':'') x = [''EQUITY'', e', c']"
    by (simp add: x(1) split_on_append split_on_none [OF n] del: append.simps)
  then have "e' = e" "c' = c" using s(1) by simp_all
  then show ?thesis using s(2-4) x(1) by (auto simp: instrument_label_def)
qed

lemma watchlist_labels:
  "parse_watch_items xs maximum acc = Ok ws \<Longrightarrow>
     \<forall>i\<in>set acc. wi_label i = instrument_label (wi_source i) \<Longrightarrow>
     \<forall>i\<in>set ws. wi_label i = instrument_label (wi_source i)"
proof (induction xs arbitrary: acc)
  case (Cons x xs)
  then obtain i where i: "parse_watch_item x (map wi_label acc) = Ok i"
      "parse_watch_items xs maximum (acc @ [i]) = Ok ws"
    by (auto simp: res_simps split: if_splits)
  show ?case
    by (rule Cons.IH [OF i(2)]) (use Cons.prems(2) parse_watch_item_canonical [OF i(1)] in auto)
qed simp

lemma parse_watchlist_ok:
  assumes "parse_watchlist v maximum = Ok ws"
  shows "ws \<noteq> [] \<and> distinct (map wi_label ws) \<and> length ws \<le> unat maximum
    \<and> (\<forall>i\<in>set ws. wi_label i = instrument_label (wi_source i))"
proof -
  have p: "parse_watch_items (split_on (CHR '','') v) maximum [] = Ok ws"
    using assms by (simp add: parse_watchlist_def split: if_splits)
  have ne: "split_on (CHR '','') v \<noteq> []" using split_on_concat [of "CHR '',''" v] by auto
  have "map wi_label ws = map wi_label ([] :: watch_instrument list) @ split_on (CHR '','') v \<and> distinct (map wi_label ws)
      \<and> (split_on (CHR '','') v \<noteq> [] \<longrightarrow> length ws \<le> unat maximum)"
    by (rule parse_watch_items_labels [OF p]) simp
  then have l: "map wi_label ws = map wi_label ([] :: watch_instrument list) @ split_on (CHR '','') v" "distinct (map wi_label ws)"
    "length ws \<le> unat maximum"
    using ne by blast+
  have "ws \<noteq> []" using l(1) ne by auto
  with l(2,3) watchlist_labels [OF p] show ?thesis by simp
qed

lemma config_of_switches_ok:
  assumes "config_of_switches s = Ok c"
  shows "config_ok c"
  using assms
  apply (simp only: config_of_switches_def rbind_eq_Ok map_err_eq_Ok)
  apply (elim exE conjE)
  apply (frule rule_fields(1), frule rule_fields(2), frule rule_fields(3), frule rule_fields(4))
  apply (frule parse_watchlist_ok)
  apply (simp only: split: if_splits)
   apply (simp only: rres.distinct)
  apply (simp only: rres.inject)
  apply hypsubst
  apply (simp add: config_ok_def capacity_check_def)
  apply (intro conjI)
           apply (erule required_bounds)+
  done

text \<open>C23: A configuration that the command line of the monitor gives is well formed: a watchlist
  that is not empty, without duplicates and within the limit, every label naming its instrument;
  positive intervals, cadences and byte limits; and windows that fit the capacity.\<close>

theorem parsed_config_valid:
  assumes "config_parse args = Ok c"
  shows "config_ok c"
  using assms config_of_switches_ok by (auto simp: config_parse_switches)

theorem parsed_config_valid_witness:
  "\<exists>c. config_parse (sample_arguments sample_watchlist) = Ok c \<and> config_ok c"
  using sample_config_parsed parsed_config_valid by blast

text \<open>The turns of the agent's loop that end without an interrupt, as long as it goes on.\<close>

fun process_turns :: "agent_process \<Rightarrow> forward_outcome list \<Rightarrow> agent_process option" where
  "process_turns p [] = Some p"
| "process_turns p (outcome # outcomes) =
     (case agent_process_turn p (Some outcome) of
        (p, ProcessRespawn _) \<Rightarrow> process_turns p outcomes
      | _ \<Rightarrow> None)"

fun keeps_watchlist :: "forward_outcome \<Rightarrow> bool" where
  "keeps_watchlist ForwardFramesComplete = True"
| "keeps_watchlist (ForwardRestartMonitor _) = True"
| "keeps_watchlist _ = False"

lemma process_turns_keep: "list_all keeps_watchlist outcomes \<Longrightarrow> process_turns p outcomes = Some p"
proof (induction outcomes)
  case (Cons outcome outcomes)
  then show ?case by (cases outcome) (simp_all add: agent_process_turn_def)
qed simp

lemma spawn_accepted:
  assumes "template_spawn t ws = Ok args"
  shows "validate_monitor_watchlist ws (ucast (mt_maximum_watchlist_instruments t)) = Ok ()"
  using assms by (auto simp: template_spawn_def res_simps split: if_splits)

text \<open>C21: A watchlist that is too short stops the monitor from starting: when capacity less two
  samples, at the time between two snapshots of one instrument, no longer cover the amount window,
  the monitor refuses the arguments the agent builds for that watchlist, although the watchlist
  passes the check that the agent and the hub make of it. An agent with that watchlist goes on after
  any number of turns that end with the monitor's output or with a rejected frame, and launches the
  monitor each time with the same refused arguments.\<close>

theorem shorter_watchlist_refused:
  assumes "template_of_arguments args = Ok t" "config_parse args = Ok c" "template_spawn t ws = Ok args'"
    and short: "(unat (window_capacity (cf_rule_limits c)) - 2)
        * (as_millis (cf_poll_interval c) * unat (cf_snapshot_cadence_poll_cycles c) * length ws)
      < unat (saturating_add (dr_window_millis (amount_rule (al_inner (cf_amount_rule c))))
          (dr_boundary_tolerance_millis (amount_rule (al_inner (cf_amount_rule c)))))"
  shows "(\<exists>switch reason. config_parse args' = Err (InvalidSwitchValue switch reason))
    \<and> validate_monitor_watchlist ws (ucast (mt_maximum_watchlist_instruments t)) = Ok ()
    \<and> (\<forall>p outcomes. ap_watchlist p = ws \<longrightarrow> list_all keeps_watchlist outcomes \<longrightarrow>
         (\<exists>q. process_turns p outcomes = Some q
            \<and> map_ok fst (agent_process_launch t transport generation q) = Ok args'))"
proof -
  obtain m where m: "parse_switches args (\<lambda>_. None) = Ok m" "config_of_switches m = Ok c"
    "length args mod 2 = 0"
    using assms(2) by (auto simp: config_parse_switches)
  note ok = config_of_switches_ok [OF m(2), unfolded config_ok_def]
  have "0 < length ws" using spawn_switches [OF assms(1,3) m(1)] by (simp add: watchlist_ok_def)
  then have "\<exists>switch reason. capacity_check c (length ws) = Err (InvalidSwitchValue switch reason)"
    unfolding capacity_check_def using ok short by (intro window_capacity_refused) simp_all
  then have "\<exists>switch reason. config_parse args' = Err (InvalidSwitchValue switch reason)"
    using respawned_config [OF assms(1-3)] by force
  moreover have "map_ok fst (agent_process_launch t transport generation p) = Ok args'" if "ap_watchlist p = ws" for p
    using assms(3) that by (simp add: agent_process_launch_def)
  ultimately show ?thesis using process_turns_keep spawn_accepted [OF assms(3)] by blast
qed

theorem shorter_watchlist_refused_witness:
  "(\<exists>switch reason. config_parse (sample_arguments [''EQUITY:SZ:000001'']) = Err (InvalidSwitchValue switch reason))
   \<and> (\<exists>q. process_turns \<lparr>ap_watchlist_revision = 1, ap_watchlist = [''EQUITY:SZ:000001'']\<rparr>
         [ForwardFramesComplete, ForwardFramesComplete] = Some q
       \<and> map_ok fst (agent_process_launch \<lparr>mt_arguments = sample_arguments sample_watchlist,
           mt_initial_watchlist = sample_watchlist, mt_maximum_watchlist_instruments = 2\<rparr> (Ok ()) ''g'' q)
         = Ok (sample_arguments [''EQUITY:SZ:000001'']))"
proof -
  obtain instruments where c: "config_parse (sample_arguments sample_watchlist) = Ok (sample_monitor_config instruments)"
    using sample_config_parsed by blast
  let ?t = "\<lparr>mt_arguments = sample_arguments sample_watchlist,
     mt_initial_watchlist = sample_watchlist, mt_maximum_watchlist_instruments = 2\<rparr>"
  have spawn: "template_spawn ?t [''EQUITY:SZ:000001''] = Ok (sample_arguments [''EQUITY:SZ:000001''])"
    by (rule sample_spawn [OF sample_watchlist_ok(2)]) simp
  have short: "(unat (window_capacity (cf_rule_limits (sample_monitor_config instruments))) - 2)
        * (as_millis (cf_poll_interval (sample_monitor_config instruments))
            * unat (cf_snapshot_cadence_poll_cycles (sample_monitor_config instruments)) * length [''EQUITY:SZ:000001''])
      < unat (saturating_add (dr_window_millis (amount_rule (al_inner (cf_amount_rule (sample_monitor_config instruments)))))
          (dr_boundary_tolerance_millis (amount_rule (al_inner (cf_amount_rule (sample_monitor_config instruments))))))"
    by (simp add: sample_monitor_config_def as_millis_def saturating_add_def)
  note r = shorter_watchlist_refused [OF sample_template c spawn short]
  show ?thesis
    by (intro conjI conjunct1 [OF r] r [THEN conjunct2, THEN conjunct2, rule_format]) simp_all
qed

end
