(* ===== verification/Agent_Runs.thy ===== *)
theory Agent_Runs
  imports Agent_Process_Properties "HOL-Library.Sublist"
begin

text \<open>
  The pipe from the monitor to the agent: what the agent reads of the frames the monitor wrote,
  for any limit of the agent and wherever the pipe breaks off.
\<close>

section \<open>The pipe\<close>

definition frame_bytes :: "u8 list \<Rightarrow> u8 list" where
  "frame_bytes f = be_bytes 4 (of_nat (length f) :: u32) @ f"

abbreviation pipe_bytes :: "u8 list list \<Rightarrow> u8 list" where
  "pipe_bytes frames \<equiv> concat (map frame_bytes frames)"

text \<open>A monitor stops with an error at a frame whose length does not fit the prefix.\<close>

definition writable :: "u8 list list \<Rightarrow> u8 list list" where
  "writable frames = takeWhile (\<lambda>f. length f < 2 ^ 32) frames"

lemma writer_loop_frames:
  "writer_loop vec_writer (map CommandFrame fs @ [WriterShutdown]) s
     = (s @ pipe_bytes (writable fs),
        if writable fs = fs then Ok () else Err (InvalidData ''frame exceeds u32''))"
  by (induction fs arbitrary: s) (simp_all add: vec_writer_def frame_bytes_def writable_def)

lemma be_value_length: "length f < 2 ^ 32 \<Longrightarrow> be_value (be_bytes 4 (of_nat (length f) :: u32)) = length f"
  by (simp add: be_value_u32 unsigned_of_nat take_bit_nat_eq_self)

text \<open>The channel to a consumer that takes \<open>m\<close> frames and then goes away.\<close>

definition take_up_to :: "nat \<Rightarrow> u8 list list \<Rightarrow> u8 list \<Rightarrow> u8 list list \<times> bool" where
  "take_up_to m q f = (if length q < m then (q @ [f], True) else (q, False))"

text \<open>What the reader ends with when \<open>left\<close> bytes of the frames \<open>rest\<close> came through the pipe, the first
  of them being a frame that it does not deliver.\<close>

definition reader_end ::
  "(u8 list \<Rightarrow> bool) \<Rightarrow> usize \<Rightarrow> nat \<Rightarrow> u8 list list \<Rightarrow> (unit, monitor_process_error) rres" where
  "reader_end json maximum left rest =
     (case rest of
        [] \<Rightarrow> Ok ()
      | f # _ \<Rightarrow>
          if left < 4 then Ok ()
          else if f = [] \<or> unat maximum < length f then Err MonFrameTooLarge
          else if left < 4 + length f then Err (MonRead UnexpectedEof)
          else if \<not> json f then Err MonFrameJson
          else Err MonFrameConsumerStopped)"

definition readable :: "(u8 list \<Rightarrow> bool) \<Rightarrow> usize \<Rightarrow> u8 list \<Rightarrow> bool" where
  "readable json maximum f \<longleftrightarrow> f \<noteq> [] \<and> length f \<le> unat maximum \<and> json f"

text \<open>The frames \<open>p\<close> delivered to a consumer that holds \<open>n\<close> of \<open>m\<close>, and the end of the reader.\<close>

definition pipe_delivers ::
  "(u8 list \<Rightarrow> bool) \<Rightarrow> usize \<Rightarrow> nat \<Rightarrow> nat \<Rightarrow> u8 list list \<Rightarrow> u8 list list
     \<Rightarrow> (unit, monitor_process_error) rres \<Rightarrow> bool" where
  "pipe_delivers json maximum room k frames p r \<longleftrightarrow>
     (\<exists>rest. frames = p @ rest \<and> list_all (readable json maximum) p \<and> length p \<le> room
        \<and> length (pipe_bytes p) \<le> k
        \<and> r = reader_end json maximum (k - length (pipe_bytes p)) rest
        \<and> (r = Err MonFrameConsumerStopped \<longrightarrow> length p = room))"

lemma delivers_here:
  "r = reader_end json maximum k frames \<Longrightarrow> r = Err MonFrameConsumerStopped \<longrightarrow> room = 0
     \<Longrightarrow> pipe_delivers json maximum room k frames [] r"
  by (simp add: pipe_delivers_def)

lemma delivers_more:
  assumes "pipe_delivers json maximum room (k - length (frame_bytes f)) frames p r" "length (frame_bytes f) \<le> k"
    and "readable json maximum f"
  shows "pipe_delivers json maximum (Suc room) k (f # frames) (f # p) r"
  using assms by (auto simp: pipe_delivers_def)

lemma read_frames_delivers:
  assumes "\<forall>f\<in>set fs. length f < 2 ^ 32" "length q \<le> m"
  shows "\<exists>s p r. read_frames (Suc (length fs)) slice_reader json (take_up_to m) maximum (take k (pipe_bytes fs)) q
        = Some (s, q @ p, r) \<and> pipe_delivers json maximum (m - length q) k fs p r"
  using assms
proof (induction fs arbitrary: k q)
  case Nil
  have "pipe_delivers json maximum (m - length q) k [] [] (Ok ())"
    by (rule delivers_here) (simp_all add: reader_end_def)
  then show ?case by (simp add: slice_reader_def)
next
  case (Cons f fs)
  let ?p = "be_bytes 4 (of_nat (length f) :: u32)"
  have v: "be_value ?p = length f" by (rule be_value_length) (use Cons.prems in simp)
  have bytes: "pipe_bytes (f # fs) = ?p @ f @ pipe_bytes fs" by (simp add: frame_bytes_def)
  have stops: ?case
    if "read_frames (Suc (length (f # fs))) slice_reader json (take_up_to m) maximum (take k (?p @ f @ pipe_bytes fs)) q
        = Some (s, q, reader_end json maximum k (f # fs))"
      "reader_end json maximum k (f # fs) = Err MonFrameConsumerStopped \<longrightarrow> length q = m" for s
    using that delivers_here [OF refl, of json maximum k "f # fs" "m - length q"] unfolding bytes by fastforce
  note reads = slice_reader_def Let_def reader_end_def v
  consider "k < 4" | "4 \<le> k" "f = [] \<or> unat maximum < length f"
    | "4 \<le> k" "\<not> (f = [] \<or> unat maximum < length f)" "k < 4 + length f"
    | "4 + length f \<le> k" "\<not> (f = [] \<or> unat maximum < length f)" "\<not> json f \<or> length q = m"
    | "4 + length f \<le> k" "\<not> (f = [] \<or> unat maximum < length f)" "json f" "length q < m"
    using Cons.prems by linarith
  then show ?case
  proof cases
    case 1
    then show ?thesis by (intro stops [of "[]"]) (simp_all add: reads)
  next
    case 2
    then show ?thesis by (intro stops [of "take (k - 4) (f @ pipe_bytes fs)"]) (auto simp: reads)
  next
    case 3
    then have "k - 4 < length f" by arith
    with 3 show ?thesis by (intro stops [of "[]"]) (simp_all add: reads)
  next
    case 4
    then show ?thesis
      by (intro stops [of "take (k - 4 - length f) (pipe_bytes fs)"]) (auto simp: reads take_up_to_def)
  next
    case 5
    have t: "take k (?p @ f @ pipe_bytes fs) = ?p @ f @ take (k - 4 - length f) (pipe_bytes fs)" using 5(1) by simp
    obtain s p r where ih: "read_frames (Suc (length fs)) slice_reader json (take_up_to m) maximum
        (take (k - 4 - length f) (pipe_bytes fs)) (q @ [f]) = Some (s, (q @ [f]) @ p, r)"
      "pipe_delivers json maximum (m - length (q @ [f])) (k - 4 - length f) fs p r"
      using Cons.IH [of "q @ [f]" "k - 4 - length f"] Cons.prems 5(4) by auto
    have "read_frames (Suc (length (f # fs))) slice_reader json (take_up_to m) maximum (?p @ f @ take (k - 4 - length f) (pipe_bytes fs)) q
        = read_frames (Suc (length fs)) slice_reader json (take_up_to m) maximum (take (k - 4 - length f) (pipe_bytes fs)) (q @ [f])"
      using 5 by (simp add: slice_reader_def Let_def v take_up_to_def del: read_frames.simps(2))
        (simp add: slice_reader_def Let_def v take_up_to_def)
    moreover have "pipe_delivers json maximum (m - length q) k (f # fs) (f # p) r"
      using delivers_more [of json maximum "m - length (q @ [f])" k f fs p r] ih(2) 5
      by (simp add: frame_bytes_def readable_def Suc_diff_Suc)
    ultimately show ?thesis using ih(1) unfolding bytes t by (intro exI [of _ s] exI [of _ "f # p"] exI [of _ r]) simp
  qed
qed

text \<open>C22: What the agent reads of the frames the monitor writes, wherever the pipe breaks off, for any
  limit of the agent and a consumer that takes any number \<open>m\<close> of frames. The monitor writes its frames up to the first
  of \<open>2 ^ 32\<close> bytes or more, where its writer fails. The reader delivers the first of these, whole and in
  order, all of them non-empty JSON within the agent's limit, and ends at the first one it
  does not deliver: without an error when there is none or not all of its length came; with a frame that is too
  large when it is empty or over the limit; with a broken frame when not all of it came; with a
  frame that is not JSON; and otherwise with a consumer that stopped, which then has its \<open>m\<close> frames.
  In particular it delivers all frames without an error when none is missing, too large or no JSON and
  the consumer takes them all.\<close>

theorem pipe_delivers_prefix:
  "\<exists>bytes w s q r. writer_loop vec_writer (map CommandFrame frames @ [WriterShutdown]) [] = (bytes, w)
     \<and> (w = Ok () \<longleftrightarrow> (\<forall>f\<in>set frames. length f < 2 ^ 32))
     \<and> read_frames (Suc (length (writable frames))) slice_reader json (take_up_to m) maximum (take k bytes) [] = Some (s, q, r)
     \<and> prefix q (writable frames) \<and> prefix (pipe_bytes q) (take k bytes) \<and> length q \<le> m
     \<and> (\<forall>f\<in>set q. f \<noteq> [] \<and> length f \<le> unat maximum \<and> json f)
     \<and> r = reader_end json maximum (k - length (pipe_bytes q)) (drop (length q) (writable frames))
     \<and> (r = Err MonFrameConsumerStopped \<longrightarrow> length q = m)
     \<and> (w = Ok () \<and> (\<forall>f\<in>set frames. f \<noteq> [] \<and> length f \<le> unat maximum \<and> json f)
          \<and> length frames \<le> m \<and> length bytes \<le> k \<longrightarrow> q = frames \<and> r = Ok ())"
proof -
  let ?ws = "writable frames"
  have small: "\<forall>f\<in>set ?ws. length f < 2 ^ 32" by (auto simp: writable_def dest: set_takeWhileD)
  have all: "?ws = frames \<longleftrightarrow> (\<forall>f\<in>set frames. length f < 2 ^ 32)" by (auto simp: writable_def takeWhile_eq_all_conv)
  obtain s q r where rd: "read_frames (Suc (length ?ws)) slice_reader json (take_up_to m) maximum (take k (pipe_bytes ?ws)) []
      = Some (s, q, r)" and d: "pipe_delivers json maximum m k ?ws q r"
    using read_frames_delivers [OF small, of "[]" m json maximum k] by auto
  from d obtain rest where p: "?ws = q @ rest" "list_all (readable json maximum) q" "length q \<le> m"
      "length (pipe_bytes q) \<le> k" "r = reader_end json maximum (k - length (pipe_bytes q)) rest"
      "r = Err MonFrameConsumerStopped \<longrightarrow> length q = m"
    by (auto simp: pipe_delivers_def)
  have done_all: "rest = []" if "?ws = frames" "\<forall>f\<in>set frames. f \<noteq> [] \<and> length f \<le> unat maximum \<and> json f"
      "length frames \<le> m" "length (pipe_bytes ?ws) \<le> k"
  proof (rule ccontr)
    assume "rest \<noteq> []"
    then obtain f fs where rest: "rest = f # fs" by (cases rest) auto
    have "4 + length f \<le> k - length (pipe_bytes q)" using that(4) p(1) rest by (simp add: frame_bytes_def)
    moreover have "frames = q @ f # fs" using that(1) p(1) rest by simp
    then have "f \<in> set frames" by simp
    ultimately have "r = Err MonFrameConsumerStopped"
      using p(5) rest that(2) by (auto simp: reader_end_def)
    then show False using p(1,6) that(1,3) rest by auto
  qed
  let ?w = "if ?ws = frames then Ok () else Err (InvalidData ''frame exceeds u32'')"
  have complete: "q = frames \<and> r = Ok ()" if "?ws = frames" "rest = []"
    using p(1,5) that by (simp add: reader_end_def)
  show ?thesis
  proof (intro exI conjI)
    show "writer_loop vec_writer (map CommandFrame frames @ [WriterShutdown]) [] = (pipe_bytes ?ws, ?w)"
      using writer_loop_frames [of frames "[]"] by simp
    show "?w = Ok () \<longleftrightarrow> (\<forall>f\<in>set frames. length f < 2 ^ 32)" using all by simp
    show "read_frames (Suc (length ?ws)) slice_reader json (take_up_to m) maximum (take k (pipe_bytes ?ws)) []
        = Some (s, q, r)" by (rule rd)
    show "prefix q ?ws" "prefix (pipe_bytes q) (take k (pipe_bytes ?ws))" using p(1,4) by simp_all
    show "\<forall>f\<in>set q. f \<noteq> [] \<and> length f \<le> unat maximum \<and> json f" using p(2) by (simp add: list_all_iff readable_def)
    show "r = reader_end json maximum (k - length (pipe_bytes q)) (drop (length q) ?ws)" using p(1,5) by simp
    show "?w = Ok () \<and> (\<forall>f\<in>set frames. f \<noteq> [] \<and> length f \<le> unat maximum \<and> json f)
        \<and> length frames \<le> m \<and> length (pipe_bytes ?ws) \<le> k \<longrightarrow> q = frames \<and> r = Ok ()"
      using complete done_all by (cases "?ws = frames") simp_all
  qed (rule p(3) p(6))+
qed

theorem pipe_delivers_prefix_witness:
  "\<exists>bytes w s q r. writer_loop vec_writer [CommandFrame [1, 2], CommandFrame [3], WriterShutdown] [] = (bytes, w)
     \<and> read_frames 3 slice_reader (\<lambda>_. True) (take_up_to 5) 10 (take 11 bytes) [] = Some (s, q, r)
     \<and> q = [[1, 2], [3]] \<and> r = Ok ()"
proof -
  have w: "writable [[1, 2], [3]] = [[1, 2], [3 :: u8]]" by (simp add: writable_def)
  have "length (pipe_bytes [[1, 2], [3]]) = 11" by (simp add: frame_bytes_def)
  then show ?thesis
    using pipe_delivers_prefix [of "[[1, 2], [3]]" "\<lambda>_. True" 5 10 11] writer_loop_frames [of "[[1, 2], [3]]" "[]"]
    by (auto simp: w numeral_3_eq_3)
qed

end
