(* ===== verification/Spec2Isabelle.thy ===== *)
theory Spec2Isabelle
  imports Monitor_Properties Core_Properties Log_Properties Router_Properties Hub_Properties
    Agent_Delivery Supervisor_Properties Exact_Decimal Terminal_Properties Terminal_Analysis
    Monitor_Server_Properties Agent_Runs
begin

text \<open>
  Verification library of \<open>magic-market-data-rs\<close>, a Rust workspace that collects market data
  from many providers, validates it as typed evidence, watches a local terminal for price,
  amount and volume anomalies, and publishes them as identified events of a stream that
  subscribers can replay.

  Parts and theories (paths under \<open>src/crates\<close>):

  \<^item> \<open>MM_Prelude\<close>: results (\<open>rres\<close>: \<open>Ok\<close>, \<open>Err\<close>, \<open>Panic\<close>), checked and saturating arithmetic
    on machine words, big-endian bytes, shared list lemmas. \<open>Rust_Text\<close>: strings as lists of
    UTF-8 bytes with the \<open>str\<close> functions the code calls. \<open>F64\<close>: IEEE binary64 by its bits, with
    round-to-nearest-even arithmetic; it computes.
  \<^item> \<open>Core_Values\<close>: \<open>magic-market-core\<close> \<open>value.rs\<close>, \<open>validated.rs\<close>, \<open>instrument.rs\<close>,
    \<open>evidence.rs\<close>. \<open>Evidence_Time\<close>: \<open>time.rs\<close> and the timestamp parser of \<open>probe.rs\<close>.
    \<open>Market_Event\<close>: \<open>market_event.rs\<close>, with the canonical encoding that identifies events.
  \<^item> \<open>Monitor_Types\<close>, \<open>Price_Monitor\<close>: \<open>magic-market-monitor\<close> \<open>price.rs\<close>; \<open>Delta_Monitor\<close>:
    \<open>turnover.rs\<close>; \<open>Replay_Log\<close>: \<open>replay.rs\<close>. A monitor is a map from instruments to states, and
    an operation returns the new state with its result, also when the result is an error.

  \<^item> \<open>Data_Batch\<close>: \<open>magic-market-core\<close> \<open>provenance.rs\<close> and \<open>batch.rs\<close>; the process-wide counter of
    batch identifiers is passed as state, and the trait \<open>SourcedRecord\<close> is a dictionary of its
    methods. \<open>Router\<close>: \<open>magic-market-router\<close> \<open>router.rs\<close>, \<open>source.rs\<close>, \<open>error.rs\<close>; a source is
    its identifier and the function its fetch computes.
  \<^item> \<open>Grpc_Contracts\<close>: the messages of \<open>market.proto\<close> that the hub exchanges and the validation of
    \<open>magic-market-grpc-contracts\<close> \<open>lib.rs\<close>. \<open>Event_Admission\<close>, \<open>Event_Hub\<close>: \<open>magic-market-grpc-server\<close>
    \<open>events.rs\<close>, the checks of envelopes and hellos, and the hub with its sessions, watchlists,
    publication, replay, subscriptions and request handlers. \<open>Hub_Invariant\<close> holds the invariant
    of its state, \<open>Hub_System\<close> the step relation of the hub with the handlers that open agent
    streams and the tasks that serve them.
  \<^item> \<open>Agent_Client\<close>: \<open>magic-market-tdx-agent\<close> \<open>client.rs\<close>, the agent that sends the frames of a
    terminal monitor to the hub: its session as a state machine over the inputs of its \<open>select!\<close>
    and its waits, the loop that reconnects, and the events it builds from frames.
    \<open>Agent_Protocol\<close> puts the agent, a connection that breaks at any time and the hub into one
    step relation with its invariant; the frames taken and published since the monitor's
    generation last changed are recorded beside the state. A panic has no successor, and the
    model has one agent: another one is refused by the hub.
  \<^item> \<open>Terminal_Protocol\<close>: \<open>magic-tdx-local-rs\<close> \<open>protocol.rs\<close> and \<open>admission.rs\<close>, the messages of the
    terminal bridge with their validation, their length-prefixed codec over partial reads and
    writes, the tracker of sequences and the admission of fields. \<open>Supervisor\<close>: \<open>supervisor.rs\<close>, the
    state machine that launches and restarts the bridge. \<open>Loopback\<close>: \<open>loopback.rs\<close>, the client that
    polls the terminal over HTTP. \<open>Terminal_Analysis\<close>: \<open>magic-market-monitor-server\<close> \<open>analysis.rs\<close>,
    the price, amount and volume monitors behind one interface.
  \<^item> \<open>Monitor_Config\<close>, \<open>Monitor_Discovery\<close>, \<open>Monitor_Output\<close>: the command line of the monitor
    server (\<open>config.rs\<close>), the report of the process that finds terminals (\<open>discovery.rs\<close>), and the
    events with the bounded queue and the writer that frames them (\<open>output.rs\<close>). \<open>Monitor_Runtime\<close>,
    \<open>Monitor_Scheduler\<close>, \<open>Monitor_Cycle\<close>: \<open>runtime.rs\<close>, in three parts: failures and the snapshot
    worker; the state with its counters, resets and checks of rows; the pass over the watchlist and
    the steps from discovery to the end of the service. Its environment is the record
    \<open>runtime_env\<close>: discovery, polls, the snapshot worker, the clock and the sink, each a function of
    a world it may change. What the service has written is recorded beside its state.
  \<^item> \<open>Agent_Process\<close>: \<open>magic-market-tdx-agent\<close> \<open>main.rs\<close>, \<open>config.rs\<close> and \<open>monitor.rs\<close>: the process
    around the agent client, which starts the monitor server with the watchlist the hub asked
    for, reads the frames of its pipe and starts it again.

  How they interact: the router selects one provider's batch of records with their evidence; the
  monitors consume observations of such records and produce anomaly events, whose identifiers are
  digests of the canonical encoding of \<open>Market_Event\<close>; the monitor server finds the terminal, polls
  it through the loopback client, runs the monitors on what it gives and writes events as frames;
  the agent starts the monitor server, reads its frames and publishes them in envelopes to the
  hub, which admits them, numbers and retains them, and replays them to subscribers.

  Interfaces, each a locale interpreted on the model's own operations:

  \<^item> \<open>rule_machine\<close> (\<open>Rule_Machine\<close>): the warm-up, arm, trigger, cool-down and rearm cycle that
    the price and delta states implement; its lemmas give the refinement to abstract paths and
    the separation of triggers.
  \<^item> \<open>keyed_monitor\<close> (\<open>Keyed_Monitor\<close>): a bounded map of independent per-instrument states.
  \<^item> \<open>retained_log\<close> (\<open>Retained_Log\<close>): a log that keeps the longest suffix of its history within
    a count and a byte limit; its lemmas give exact retention and replay without gaps. It is
    interpreted on the replay log of the monitors and on the publication of the hub.

  Properties: \<open>Monitor_Properties\<close> (the monitors and the events they publish), \<open>Core_Properties\<close>
  (time, evidence, canonical encoding, events), \<open>Log_Properties\<close> (the replay log),
  \<open>Router_Properties\<close> (selection against a reference over the list of sources, registration, batch
  identifiers), \<open>Hub_Properties\<close> (invariants of every reachable hub, exact publication, replay,
  watchlists, what an opened stream holds in its queue, and the session that a failed opening
  leaves behind), \<open>Agent_Properties\<close> (what the
  agent admits is what the hub admits), \<open>Agent_Delivery\<close> (frames are published once and in order
  over connections that break), \<open>Terminal_Properties\<close> (round trip of the codec, exact trackers and
  batches), \<open>Supervisor_Properties\<close> (launch and restart budget), \<open>Exact_Decimal\<close> (amounts are
  converted without rounding), \<open>Monitor_Server_Properties\<close> (the output of every run is accepted by
  \<open>output_step\<close>, the specification automaton of \<open>Monitor_Output_Protocol\<close>; the refinement is proved
  over the steps of the service in \<open>Monitor_Output_Refinement\<close>; cursors of observations, restart
  budget, endurance by \<open>Monitor_Endurance\<close>), \<open>Agent_Process_Properties\<close> (the configuration the
  agent's arguments give) and \<open>Agent_Runs\<close> (the pipe between monitor and agent). \<open>Analysis_Events\<close>
  relates the updates of the analyzers to the cursors of their observations. \<open>Sample_Inputs\<close> and
  \<open>Sample_Arguments\<close> hold the literals of the witnesses, \<open>Event_Totality\<close> the sizes that bound the
  encodings of publishable events.

  Parameters: SHA-256 is code of the \<open>sha2\<close> crate, so it is an argument \<open>sha\<close> of every definition
  that hashes; theorems about identity state the collision they exclude (\<open>no_collision\<close>), and
  those about construction that a digest has 32 bytes. Serialization formats (\<open>serde\<close>) are
  outside; a deserializer is modelled from its wire fields on, and the hub reads JSON payloads
  through the dictionary \<open>serde_lib\<close>. The encoded length of an envelope (\<open>prost\<close>) is the argument
  \<open>elen\<close>, and what the broadcast channel gives a subscriber is a list of polls.

  Bounds: counts, sequence numbers, arrival times and byte counts keep the width of the code
  (\<open>u16\<close>, \<open>u32\<close>, \<open>u64\<close>); checked operations return \<open>None\<close> on overflow and plain ones panic, as a
  build with overflow checks does. All recursion is structural or has a proved measure, but for
  the eviction loop of the hub, a \<open>partial_function\<close> whose result \<open>None\<close> is a loop that never ends:
  \<open>publish_exact\<close> proves that it ends in every state of the invariant, when the byte limit is
  below \<open>2 ^ 63\<close> (\<open>hub_limits_ok\<close>), more than any memory holds. Two loops that run as long as the
  process does have fuel: \<open>serve n\<close> is the first \<open>n\<close> cycles of the monitor service, and theorems
  about it hold for every \<open>n\<close>; \<open>read_frames n\<close> is the first \<open>n\<close> turns of the frame reader and \<open>None\<close>
  when more are needed, and one turn more than there are frames is enough (\<open>pipe_delivers_prefix\<close>).

  Concurrency: every operation of the hub takes the lock of its state once, and queueing a command
  takes no lock, so each of these is one step and \<open>hub_step\<close> interleaves the steps of requests,
  of the handlers that open streams and of the tasks that serve them in any order. Opening a
  stream is three steps: \<open>open_connect\<close> under the lock, \<open>open_acknowledge\<close> and \<open>open_configure\<close> after
  it; \<open>stream_opens\<close> is what they do together with any requests between them, \<open>open_stream\<close> what they
  do without. In \<open>Agent_Protocol\<close> streams open in this way, and other requests also run between a
  publication and the queueing of its answer.

  Not modelled: the provider crates and the adapters of the router (scraping and decoding of
  third-party services), the network clients, the gRPC server's request plumbing, logging and
  configuration, and the composition root that wires them; processes, pipes, files and threads
  of the monitor server and the agent, whose answers are arguments of the model. The probe
  admission, the TDX wire format and the analysis of market breadth have a core of their own and
  are not modelled yet.
\<close>

end
